(* ===== verification/Prelude.thy ===== *)
theory Prelude
  imports Main "HOL-Library.Char_ord" "HOL-Library.List_Lexorder"
begin

text \<open>
  Shared notions of the development: the insertion-ordered \<open>Map\<close> and \<open>Set\<close> of the source
  language, two-element tuples indexed by a side, entries with an expiry time, and the
  contracts (locales) that several components share. Every time stamp is an epoch in
  milliseconds, modelled as an \<open>int\<close>.
\<close>

named_theorems frame_simps \<open>what a store operation leaves alone\<close>
named_theorems lookup_simps \<open>what a read returns after a write\<close>
named_theorems inv_intros \<open>operations that keep an invariant\<close>

type_synonym millis = int
type_synonym device_id = string
type_synonym socket_id = string

text \<open>
  An id drawn with \<open>randomUUID()\<close>: the code only compares such ids for equality, so the model
  numbers them in the order they were drawn (two draws never collide).
\<close>
type_synonym uuid = nat

section \<open>Insertion-ordered maps\<close>

text \<open>
  A \<open>Map\<close> iterates in insertion order and keeps the position of a key that is set again, so it
  is an association list; \<open>jget\<close>, \<open>jset\<close> and \<open>jdel\<close> are its \<open>get\<close>, \<open>set\<close> and \<open>delete\<close>.
\<close>

type_synonym ('k, 'v) jmap = "('k \<times> 'v) list"

primrec jget :: "('k, 'v) jmap \<Rightarrow> 'k \<Rightarrow> 'v option" where
  "jget [] k = None"
| "jget (p # m) k = (if fst p = k then Some (snd p) else jget m k)"

primrec jset :: "('k, 'v) jmap \<Rightarrow> 'k \<Rightarrow> 'v \<Rightarrow> ('k, 'v) jmap" where
  "jset [] k v = [(k, v)]"
| "jset (p # m) k v = (if fst p = k then (k, v) # m else p # jset m k v)"

definition jdel :: "('k, 'v) jmap \<Rightarrow> 'k \<Rightarrow> ('k, 'v) jmap" where
  "jdel m k = filter (\<lambda>p. fst p \<noteq> k) m"

definition jkeys :: "('k, 'v) jmap \<Rightarrow> 'k list" where
  "jkeys m = map fst m"

definition jvals :: "('k, 'v) jmap \<Rightarrow> 'v list" where
  "jvals m = map snd m"

definition jkeep :: "('v \<Rightarrow> bool) \<Rightarrow> ('k, 'v) jmap \<Rightarrow> ('k, 'v) jmap" where
  "jkeep P m = filter (\<lambda>p. P (snd p)) m"

definition jwf :: "('k, 'v) jmap \<Rightarrow> bool" where
  "jwf m \<longleftrightarrow> distinct (jkeys m)"

lemma jget_jset [simp, lookup_simps]: "jget (jset m k v) j = (if j = k then Some v else jget m j)"
  by (induction m) auto

lemma jget_jdel [simp, lookup_simps]: "jget (jdel m k) j = (if j = k then None else jget m j)"
  by (induction m) (auto simp: jdel_def)

lemma jget_None_iff: "jget m k = None \<longleftrightarrow> k \<notin> set (jkeys m)"
  by (induction m) (auto simp: jkeys_def)

lemma jget_Some_key: "jget m k = Some v \<Longrightarrow> k \<in> set (jkeys m)"
  by (metis jget_None_iff option.distinct(1))

lemma set_jkeys: "set (jkeys m) = {k. jget m k \<noteq> None}"
  by (auto simp: jget_None_iff)

lemma jget_in: "jget m k = Some v \<Longrightarrow> (k, v) \<in> set m"
  by (induction m) (auto split: if_splits)

lemma in_jget: "jwf m \<Longrightarrow> (k, v) \<in> set m \<Longrightarrow> jget m k = Some v"
  by (induction m) (force simp: jwf_def jkeys_def)+

lemma jkeys_jset: "set (jkeys (jset m k v)) = insert k (set (jkeys m))"
  by (auto simp: set_jkeys)

lemma jwf_Nil [simp]: "jwf []"
  by (simp add: jwf_def jkeys_def)

lemma jwf_jset [simp, intro]: "jwf m \<Longrightarrow> jwf (jset m k v)"
proof (induction m)
  case Nil
  then show ?case by (simp add: jwf_def jkeys_def)
next
  case (Cons p m)
  then have "jwf (jset m k v)" by (simp add: jwf_def jkeys_def)
  moreover have "fst p \<notin> set (jkeys m)" using Cons.prems by (simp add: jwf_def jkeys_def)
  ultimately show ?case
    using Cons.prems jkeys_jset [of m k v] by (auto simp: jwf_def jkeys_def)
qed

lemma jwf_filter: "jwf m \<Longrightarrow> jwf (filter P m)"
  by (auto simp: jwf_def jkeys_def intro: distinct_map_filter)

lemma jwf_jdel [simp, intro]: "jwf m \<Longrightarrow> jwf (jdel m k)"
  by (simp add: jdel_def jwf_filter)

lemma jwf_jkeep [simp, intro]: "jwf m \<Longrightarrow> jwf (jkeep P m)"
  by (simp add: jkeep_def jwf_filter)

lemma jget_jkeep:
  "jwf m \<Longrightarrow> jget (jkeep P m) k = (case jget m k of Some v \<Rightarrow> if P v then Some v else None | None \<Rightarrow> None)"
proof (induction m)
  case Nil
  then show ?case by (simp add: jkeep_def)
next
  case (Cons p m)
  have "jwf m" and new: "fst p \<notin> set (jkeys m)"
    using Cons.prems by (auto simp: jwf_def jkeys_def)
  then have "jget m (fst p) = None" by (simp add: jget_None_iff)
  then show ?case using Cons.IH [OF \<open>jwf m\<close>] by (auto simp: jkeep_def split: option.splits)
qed

text \<open>
  The contract of a keyed store: what a lookup returns after a write or a delete. The map
  above provides it, and every store of the program that is a plain map inherits its lemmas.
\<close>

locale keyed_store =
  fixes get :: "'m \<Rightarrow> 'k \<Rightarrow> 'v option"
    and put :: "'m \<Rightarrow> 'k \<Rightarrow> 'v \<Rightarrow> 'm"
    and del :: "'m \<Rightarrow> 'k \<Rightarrow> 'm"
  assumes get_put: "get (put m k v) j = (if j = k then Some v else get m j)"
    and get_del: "get (del m k) j = (if j = k then None else get m j)"
begin

lemma get_put_same: "get (put m k v) k = Some v"
  by (simp add: get_put)

lemma put_put: "get (put (put m k v) k w) j = get (put m k w) j"
  by (simp add: get_put)

lemma put_commute: "k \<noteq> l \<Longrightarrow> get (put (put m k v) l w) j = get (put (put m l w) k v) j"
  by (simp add: get_put)

lemma put_del: "get (del (put m k v) k) j = get (del m k) j"
  by (simp add: get_put get_del)

end

interpretation jm: keyed_store jget jset jdel
  by unfold_locales simp_all

section \<open>Insertion-ordered sets\<close>

definition sadd :: "'a \<Rightarrow> 'a list \<Rightarrow> 'a list" where
  "sadd x xs = (if x \<in> set xs then xs else xs @ [x])"

definition sdel :: "'a \<Rightarrow> 'a list \<Rightarrow> 'a list" where
  "sdel x xs = filter (\<lambda>y. y \<noteq> x) xs"

lemma set_sadd [simp]: "set (sadd x xs) = insert x (set xs)"
  by (auto simp: sadd_def)

lemma set_sdel [simp]: "set (sdel x xs) = set xs - {x}"
  by (auto simp: sdel_def)

section \<open>Two-element tuples\<close>

datatype side = Fst | Snd

fun pick :: "side \<Rightarrow> 'a \<times> 'a \<Rightarrow> 'a" where
  "pick Fst (a, b) = a"
| "pick Snd (a, b) = b"

fun set_at :: "side \<Rightarrow> 'a \<Rightarrow> 'a \<times> 'a \<Rightarrow> 'a \<times> 'a" where
  "set_at Fst v (a, b) = (v, b)"
| "set_at Snd v (a, b) = (a, v)"

fun other :: "side \<Rightarrow> side" where
  "other Fst = Snd"
| "other Snd = Fst"

text \<open>\<open>members.indexOf(x)\<close>; \<open>None\<close> is -1.\<close>

definition index_of :: "'a \<times> 'a \<Rightarrow> 'a \<Rightarrow> side option" where
  "index_of p x = (if fst p = x then Some Fst else if snd p = x then Some Snd else None)"

lemma other_other [simp]: "other (other i) = i"
  by (cases i) auto

lemma other_neq [simp]: "other i \<noteq> i" "i \<noteq> other i"
  by (cases i; simp)+

lemma index_of_pick: "index_of p x = Some i \<Longrightarrow> pick i p = x"
  by (cases p; cases i) (auto simp: index_of_def split: if_splits)

lemma pick_pair: "pick Fst p = fst p" "pick Snd p = snd p"
  by (cases p; simp)+

section \<open>Entries that expire\<close>

text \<open>
  Every in-memory store with a time to live keeps the expiry beside the value, and a read
  takes an entry whose expiry is not after the clock as absent. The code deletes such an
  entry when a read meets it; the model leaves it, which no read can tell apart
  (\<open>lapsed_delete_unseen\<close>) because the clock does not run backwards.
\<close>

definition live :: "millis \<Rightarrow> ('k, 'v \<times> millis) jmap \<Rightarrow> 'k \<Rightarrow> 'v option" where
  "live now m k = (case jget m k of None \<Rightarrow> None | Some (v, expiresAt) \<Rightarrow> if expiresAt \<le> now then None else Some v)"

definition keep_live :: "millis \<Rightarrow> ('k, 'v \<times> millis) jmap \<Rightarrow> ('k, 'v \<times> millis) jmap" where
  "keep_live now m = jkeep (\<lambda>e. now < snd e) m"

lemma live_set [simp, lookup_simps]:
  "live now (jset m k (v, e)) j = (if j = k then (if e \<le> now then None else Some v) else live now m j)"
  by (simp add: live_def)

lemma live_del [simp, lookup_simps]: "live now (jdel m k) j = (if j = k then None else live now m j)"
  by (simp add: live_def)

lemma lapsed_delete_unseen:
  assumes "jget m k = Some (v, e)" "e \<le> now" "now \<le> later"
  shows "live later (jdel m k) j = live later m j"
  using assms by (auto simp: live_def)

lemma live_keep_live: "jwf m \<Longrightarrow> now \<le> later \<Longrightarrow> live later (keep_live now m) j = live later m j"
  by (auto simp: live_def keep_live_def jget_jkeep split: option.splits)

lemma jwf_keep_live [simp, intro]: "jwf m \<Longrightarrow> jwf (keep_live now m)"
  by (simp add: keep_live_def)

lemma live_None_empty [simp]: "live now [] k = None"
  by (simp add: live_def)

lemma live_antimono: "live later m k = Some v \<Longrightarrow> now \<le> later \<Longrightarrow> live now m k = Some v"
  by (auto simp: live_def split: option.splits if_splits)

text \<open>
  The contract of a store with time to live: a value is read back until its expiry and not
  after it, and other keys are not touched.
\<close>

locale expiring_store =
  fixes rd :: "millis \<Rightarrow> 's \<Rightarrow> 'k \<Rightarrow> 'v option"
    and wr :: "millis \<Rightarrow> 's \<Rightarrow> 'k \<Rightarrow> 'v \<Rightarrow> millis \<Rightarrow> 's"
    and good :: "'s \<Rightarrow> bool"
  assumes read_write: "good s \<Longrightarrow> now \<le> t \<Longrightarrow>
      rd t (wr now s k v ttl) j = (if j = k then (if now + ttl \<le> t then None else Some v) else rd t s j)"
    and good_write: "good s \<Longrightarrow> good (wr now s k v ttl)"
begin

lemma read_back: "good s \<Longrightarrow> now \<le> t \<Longrightarrow> t < now + ttl \<Longrightarrow> rd t (wr now s k v ttl) k = Some v"
  by (simp add: read_write)

lemma read_lapsed: "good s \<Longrightarrow> now \<le> t \<Longrightarrow> now + ttl \<le> t \<Longrightarrow> rd t (wr now s k v ttl) k = None"
  by (simp add: read_write)

lemma read_other: "good s \<Longrightarrow> now \<le> t \<Longrightarrow> j \<noteq> k \<Longrightarrow> rd t (wr now s k v ttl) j = rd t s j"
  by (simp add: read_write)

end

section \<open>Decimal numerals and string splitting\<close>

fun show_nat :: "nat \<Rightarrow> string" where
  "show_nat n = (if n < 10 then [char_of (48 + n)] else show_nat (n div 10) @ [char_of (48 + n mod 10)])"

declare show_nat.simps [simp del]

definition lower_char :: "char \<Rightarrow> char" where
  "lower_char c = (if CHR ''A'' \<le> c \<and> c \<le> CHR ''Z'' then char_of (of_char c + (32::nat)) else c)"

definition is_space :: "char \<Rightarrow> bool" where
  "is_space c \<longleftrightarrow> c \<in> {CHR '' '', CHR 0x09, CHR 0x0A, CHR 0x0B, CHR 0x0C, CHR 0x0D}"

definition trim :: "string \<Rightarrow> string" where
  "trim s = rev (dropWhile is_space (rev (dropWhile is_space s)))"

fun join :: "string \<Rightarrow> string list \<Rightarrow> string" where
  "join sep [] = []"
| "join sep [x] = x"
| "join sep (x # y # xs) = x @ sep @ join sep (y # xs)"

fun split_on :: "char \<Rightarrow> string \<Rightarrow> string list" where
  "split_on c [] = [[]]"
| "split_on c (d # s) =
     (if d = c then [] # split_on c s
      else case split_on c s of [] \<Rightarrow> [[d]] | x # xs \<Rightarrow> (d # x) # xs)"

lemma split_on_nonempty [simp]: "split_on c s \<noteq> []"
  by (induction s) (auto split: list.splits)

lemma join_split_on: "join [c] (split_on c s) = s"
proof (induction s)
  case (Cons d s)
  obtain x xs where x: "split_on c s = x # xs" by (metis list.exhaust split_on_nonempty)
  then show ?case using Cons by (cases xs) auto
qed simp

section \<open>Folds over a list that thread a state\<close>

lemma fold_invariant_on:
  "(\<And>x s. x \<in> set xs \<Longrightarrow> P s \<Longrightarrow> P (f x s)) \<Longrightarrow> P s \<Longrightarrow> P (fold f xs s)"
  by (induction xs arbitrary: s) auto

end
