(* ===== verification/Protocol.thy ===== *)
theory Protocol
  imports Prelude
begin

text \<open>
  The value types shared by client and server (\<open>backend/src/protocol.ts\<close>) and the stored
  session, room and block (\<open>backend/src/store/MatchStore.ts\<close>). Profiles carry the fields the
  server reads or shows; string enums are datatypes.
\<close>

section \<open>Value types\<close>

datatype topic = general | gaming | music | movies | sports | technology | art | travel | food | books

datatype gender = male | female | other_gender | unspecified

datatype gender_filter = AllGenders | OnlyMale | OnlyFemale | OnlyOther

datatype match_mode = instant | preview

datatype report_reason =
  inappropriate | spam | nudity | harassment | hate | violence | fake | underage | other_reason

text \<open>A stored profile is a profile without its photo, which lives under its own key.\<close>

record session_profile =
  name :: string
  country :: string
  language :: string
  gender :: gender
  topics :: "topic list"

record preferences =
  genderFilter :: gender_filter
  languageFilter :: string

text \<open>What a partner may see: the profile without the gender, and the photo if there is one.\<close>

record public_profile =
  pub_name :: string
  pub_country :: string
  pub_language :: string
  pub_topics :: "topic list"
  pub_photo :: "string option"

record ice_server =
  urls :: "string list"
  username :: "string option"
  credential :: "string option"

datatype error_code =
  invalid_payload | rate_limited | not_in_room | bad_state | unsupported_version | banned
| matching_closed | session_required | session_expired | region_blocked | premium_required | internal

datatype match_end_reason =
  Declined | PartnerDeclined | Timeout | AcceptTimeout | Skipped | PartnerSkipped | PartnerLeft
| Reported | PartnerUnavailable | ConnectionFailed | Restricted

section \<open>Restrictions\<close>

datatype restriction_reason =
  RNudity | RMinorSafety | RHarassment | RHate | RViolence | RSpam | RFakeVideo | RUnderage | ROther

datatype restriction_kind = Warning | Pause | Ban

datatype appeal_status = AppealNone | AppealPending | AppealUpheld | AppealOverturned

record appeal_state =
  ap_status :: appeal_status
  ap_submittedAt :: "millis option"
  ap_decidedAt :: "millis option"

record restriction =
  re_id :: uuid
  re_reason :: restriction_reason
  re_kind :: restriction_kind
  re_until :: "millis option"
  re_createdAt :: millis
  re_evidenceAvailable :: bool
  re_appeal :: appeal_state
  re_appealable :: bool

section \<open>Wallet\<close>

datatype premium_feature = gender_filter_unlock

record wallet_view =
  wv_coins :: int
  wv_unlocks :: "(premium_feature \<times> millis) list"

section \<open>Stored session, room and block\<close>

datatype session_state = Idle | Waiting | Pending | Active

datatype room_state = RPending | RActive

record session =
  socketId :: socket_id
  deviceId :: device_id
  instanceId :: string
  profile :: session_profile
  preferences_of :: preferences
  mode :: match_mode
  state :: session_state
  roomId :: "uuid option"
  waitingSince :: "millis option"
  connectedAt :: millis
  ipKey :: "string option"

record room =
  room_id :: uuid
  room_state :: room_state
  members :: "socket_id \<times> socket_id"
  devices :: "device_id \<times> device_id"
  accepted :: "bool \<times> bool"
  createdAt :: millis
  expiresAt :: millis
  activeSince :: "millis option"
  connectedSides :: "(bool \<times> bool) option"
  connectedSince :: "millis option"

record pair_block =
  block_until :: millis
  skipCount :: int

text \<open>The session state that goes with a room of each state.\<close>

fun session_state_of :: "room_state \<Rightarrow> session_state" where
  "session_state_of RPending = Pending"
| "session_state_of RActive = Active"

definition publicProfile :: "session_profile \<Rightarrow> string option \<Rightarrow> public_profile" where
  "publicProfile p photo =
     \<lparr>pub_name = name p, pub_country = country p, pub_language = language p, pub_topics = topics p, pub_photo = photo\<rparr>"

end
