(* ===== verification/Relax.thy ===== *)
theory Relax
  imports Protocol
begin

text \<open>
  The pure matching rules: the hard, mutual filters (\<open>backend/src/match/compatibility.ts\<close>) and
  the relaxation ladder of the soft preferences (\<open>backend/src/match/relax.ts\<close>).
\<close>

section \<open>Hard rules: compatibility.ts\<close>

record candidate =
  c_deviceId :: device_id
  c_gender :: gender
  c_language :: string
  c_topics :: "topic list"
  c_preferences :: preferences

text \<open>\<open>code.split("-")[0].toLowerCase()\<close>; language codes are ASCII by the schema.\<close>

definition primaryLanguage :: "string \<Rightarrow> string" where
  "primaryLanguage code = map lower_char (takeWhile (\<lambda>c. c \<noteq> CHR ''-'') code)"

fun filter_admits :: "gender_filter \<Rightarrow> gender \<Rightarrow> bool" where
  "filter_admits AllGenders g = True"
| "filter_admits OnlyMale g = (g = male)"
| "filter_admits OnlyFemale g = (g = female)"
| "filter_admits OnlyOther g = (g = other_gender)"

definition accepts :: "candidate \<Rightarrow> candidate \<Rightarrow> bool" where
  "accepts a b =
     (let lf = languageFilter (c_preferences a) in
      if \<not> filter_admits (genderFilter (c_preferences a)) (c_gender b) then False
      else if lf \<noteq> ''any'' \<and> lf \<noteq> c_language b \<and> primaryLanguage lf \<noteq> primaryLanguage (c_language b) then False
      else True)"

definition isCompatible :: "candidate \<Rightarrow> candidate \<Rightarrow> bool" where
  "isCompatible a b = (if c_deviceId a = c_deviceId b then False else accepts a b \<and> accepts b a)"

lemma isCompatible_sym: "isCompatible a b = isCompatible b a"
  by (auto simp: isCompatible_def)

lemma isCompatible_devices: "isCompatible a b \<Longrightarrow> c_deviceId a \<noteq> c_deviceId b"
  by (auto simp: isCompatible_def split: if_splits)

lemma isCompatible_accepts: "isCompatible a b \<Longrightarrow> accepts a b \<and> accepts b a"
  by (auto simp: isCompatible_def split: if_splits)

lemma accepts_unspecified:
  "c_gender b = unspecified \<Longrightarrow> accepts a b \<Longrightarrow> genderFilter (c_preferences a) = AllGenders"
  by (cases "genderFilter (c_preferences a)") (auto simp: accepts_def Let_def split: if_splits)

section \<open>Relaxation ladder: relax.ts\<close>

definition HELD :: int where "HELD = -1"
definition MAX_STEP :: int where "MAX_STEP = 2"

record ladder =
  relaxTopicsAfterMs :: millis
  relaxLanguageAfterMs :: millis
  lowPriorityDelayMs :: millis

definition relaxStep :: "millis \<Rightarrow> ladder \<Rightarrow> bool \<Rightarrow> int" where
  "relaxStep waitedMs l lowPriority =
     (let effective = waitedMs - (if lowPriority then lowPriorityDelayMs l else 0) in
      if effective < 0 then HELD
      else if effective < relaxTopicsAfterMs l then 0
      else if effective < relaxLanguageAfterMs l then 1
      else MAX_STEP)"

definition meetsPreferences :: "candidate \<Rightarrow> candidate \<Rightarrow> int \<Rightarrow> bool" where
  "meetsPreferences a b step =
     (if step = HELD then False
      else if step \<ge> MAX_STEP then True
      else
        let filtered = languageFilter (c_preferences a) \<noteq> ''any'' \<or> languageFilter (c_preferences b) \<noteq> ''any'' in
        if \<not> filtered \<and> primaryLanguage (c_language a) \<noteq> primaryLanguage (c_language b) then False
        else if step = 0 \<and> \<not> (list_ex (\<lambda>t. t \<in> set (c_topics b)) (c_topics a)) then False
        else True)"

definition pairStep :: "int \<Rightarrow> int \<Rightarrow> int" where
  "pairStep stepA stepB = (if stepA = HELD \<or> stepB = HELD then HELD else max stepA stepB)"

lemmas ladder_defs = HELD_def MAX_STEP_def relaxStep_def pairStep_def meetsPreferences_def

lemma relaxStep_range: "relaxStep w l p \<in> {HELD, 0, 1, MAX_STEP}"
  by (auto simp: relaxStep_def Let_def)

lemma pairStep_sym: "pairStep a b = pairStep b a"
  by (auto simp: pairStep_def)

lemma meetsPreferences_sym: "meetsPreferences a b s = meetsPreferences b a s"
  by (auto simp: meetsPreferences_def Let_def list_ex_iff)

lemma not_HELD_pair: "pairStep a b \<noteq> HELD \<longleftrightarrow> a \<noteq> HELD \<and> b \<noteq> HELD" if "a \<ge> -1" "b \<ge> -1"
  using that by (auto simp: pairStep_def HELD_def)

text \<open>Waiting longer never makes the ladder stricter.\<close>

lemma relaxStep_mono:
  "relaxTopicsAfterMs l \<le> relaxLanguageAfterMs l \<Longrightarrow> w \<le> w' \<Longrightarrow> relaxStep w l p \<le> relaxStep w' l p"
  by (auto simp: relaxStep_def HELD_def MAX_STEP_def Let_def)

lemma meetsPreferences_mono:
  assumes "meetsPreferences a b s" "s \<le> s'" "s \<ge> -1"
  shows "meetsPreferences a b s'"
  using assms by (auto simp: meetsPreferences_def HELD_def MAX_STEP_def Let_def split: if_splits)

lemma pairStep_mono:
  "a \<le> a' \<Longrightarrow> b \<le> b' \<Longrightarrow> a \<ge> -1 \<Longrightarrow> b \<ge> -1 \<Longrightarrow> pairStep a b \<le> pairStep a' b'"
  by (auto simp: pairStep_def HELD_def)

lemma pairStep_ge: "a \<ge> -1 \<Longrightarrow> b \<ge> -1 \<Longrightarrow> pairStep a b \<ge> -1"
  by (auto simp: pairStep_def HELD_def)

lemma relaxStep_ge: "relaxStep w l p \<ge> -1"
  using relaxStep_range [of w l p] by (auto simp: HELD_def MAX_STEP_def)

end
