(* ===== verification/Flags.thy ===== *)
theory Flags
  imports Protocol
begin

text \<open>
  Operator flags (\<open>backend/src/flags/flags.ts\<close>, \<open>FLAG_DEFAULTS\<close> and \<open>flagsSchema\<close> of
  \<open>backend/src/protocol.ts\<close>): the kill switch, staffed hours and caps that the queue gate, the
  billing and the match service read. The time zone database of \<open>Intl.DateTimeFormat\<close> is the
  parameter \<open>tz\<close>: \<open>None\<close> for a zone it does not know, else the minutes since local midnight
  of an instant. \<open>packs\<close> is \<open>JSON.parse\<close> of the coin pack list.
\<close>

type_synonym time_zones = "string \<Rightarrow> (millis \<Rightarrow> nat) option"

record coin_pack =
  cp_id :: string
  cp_coins :: int
  cp_inr :: int

type_synonym pack_parser = "string \<Rightarrow> coin_pack list option"

record flags =
  matching_enabled :: bool
  new_sessions_enabled :: bool
  max_waiting :: nat
  turn_enabled :: bool
  private_mode_enabled :: bool
  video_max_kbps :: nat
  relay_video_max_kbps :: nat
  banner_message :: string
  blocked_countries :: string
  staffed_hours :: string
  default_mode :: match_mode
  online_count_threshold :: nat
  premium_filters_enabled :: bool
  gender_filter_coins_per_day :: int
  coin_packs :: string

text \<open>A partial update: the fields that are present.\<close>

record flags_patch =
  p_matching_enabled :: "bool option"
  p_new_sessions_enabled :: "bool option"
  p_max_waiting :: "nat option"
  p_turn_enabled :: "bool option"
  p_private_mode_enabled :: "bool option"
  p_video_max_kbps :: "nat option"
  p_relay_video_max_kbps :: "nat option"
  p_banner_message :: "string option"
  p_blocked_countries :: "string option"
  p_staffed_hours :: "string option"
  p_default_mode :: "match_mode option"
  p_online_count_threshold :: "nat option"
  p_premium_filters_enabled :: "bool option"
  p_gender_filter_coins_per_day :: "int option"
  p_coin_packs :: "string option"

definition FLAG_DEFAULTS :: flags where
  "FLAG_DEFAULTS =
     \<lparr>matching_enabled = True, new_sessions_enabled = True, max_waiting = 5000, turn_enabled = True,
      private_mode_enabled = True, video_max_kbps = 900, relay_video_max_kbps = 500, banner_message = '''',
      blocked_countries =
        ''GB,AU,AT,BE,BG,HR,CY,CZ,DK,EE,FI,FR,DE,GR,HU,IE,IT,LV,LT,LU,MT,NL,PL,PT,RO,SK,SI,ES,SE,NO,IS,LI'',
      staffed_hours = '''', default_mode = instant, online_count_threshold = 50,
      premium_filters_enabled = True, gender_filter_coins_per_day = 100,
      coin_packs =
        ''[{\"id\":\"week\",\"coins\":700,\"inr\":99},{\"id\":\"month\",\"coins\":3000,\"inr\":299}]''\<rparr>"

section \<open>The schema\<close>

definition is_digit :: "char \<Rightarrow> bool" where
  "is_digit c \<longleftrightarrow> CHR ''0'' \<le> c \<and> c \<le> CHR ''9''"

definition is_upper :: "char \<Rightarrow> bool" where
  "is_upper c \<longleftrightarrow> CHR ''A'' \<le> c \<and> c \<le> CHR ''Z''"

definition is_zone_char :: "char \<Rightarrow> bool" where
  "is_zone_char c \<longleftrightarrow> is_upper c \<or> (CHR ''a'' \<le> c \<and> c \<le> CHR ''z'') \<or> c = CHR ''_''"

text \<open>\<open>[A-Za-z_]+/[A-Za-z_]+\<close>\<close>

definition is_zone :: "string \<Rightarrow> bool" where
  "is_zone z =
     (let a = takeWhile is_zone_char z; r = dropWhile is_zone_char z in
      a \<noteq> [] \<and> (case r of [] \<Rightarrow> False | c # b \<Rightarrow> c = CHR ''/'' \<and> b \<noteq> [] \<and> list_all is_zone_char b))"

text \<open>\<open>(dd):(dd)-(dd):(dd) zone\<close>; the groups are the four numbers and the zone.\<close>

definition two_digits :: "char \<Rightarrow> char \<Rightarrow> nat" where
  "two_digits a b = (of_char a - 48) * 10 + (of_char b - 48)"

fun staffed_groups :: "string \<Rightarrow> (nat \<times> nat \<times> nat \<times> nat \<times> string) option" where
  "staffed_groups (a # b # c # d # e # f # g # h # i # j # k # l # z) =
     (if list_all is_digit [a, b, d, e, g, h, j, k] \<and> c = CHR '':'' \<and> f = CHR ''-'' \<and> i = CHR '':'' \<and> l = CHR '' '' \<and> is_zone z
      then Some (two_digits a b, two_digits d e, two_digits g h, two_digits j k, z) else None)"
| "staffed_groups _ = None"

fun country_list :: "string \<Rightarrow> bool" where
  "country_list [a, b] = (is_upper a \<and> is_upper b)"
| "country_list (a # b # c # d # rest) = (is_upper a \<and> is_upper b \<and> c = CHR '','' \<and> country_list (d # rest))"
| "country_list _ = False"

definition is_pack_char :: "char \<Rightarrow> bool" where
  "is_pack_char c \<longleftrightarrow> (CHR ''a'' \<le> c \<and> c \<le> CHR ''z'') \<or> is_digit c \<or> c = CHR ''_'' \<or> c = CHR ''-''"

definition coin_pack_ok :: "coin_pack \<Rightarrow> bool" where
  "coin_pack_ok p \<longleftrightarrow> 1 \<le> length (cp_id p) \<and> length (cp_id p) \<le> 32 \<and> list_all is_pack_char (cp_id p)
     \<and> 1 \<le> cp_coins p \<and> cp_coins p \<le> 1000000 \<and> 1 \<le> cp_inr p \<and> cp_inr p \<le> 100000"

text \<open>\<open>coinPacksSchema.safeParse(JSON.parse(s))\<close>; \<open>None\<close> when either fails.\<close>

definition parse_packs :: "pack_parser \<Rightarrow> string \<Rightarrow> coin_pack list option" where
  "parse_packs packs s =
     (case packs s of None \<Rightarrow> None
      | Some ps \<Rightarrow> if 1 \<le> length ps \<and> length ps \<le> 10 \<and> list_all coin_pack_ok ps then Some ps else None)"

definition staffed_ok :: "string \<Rightarrow> bool" where
  "staffed_ok s \<longleftrightarrow> length s \<le> 64 \<and> (s = '''' \<or> staffed_groups s \<noteq> None)"

definition countries_ok :: "string \<Rightarrow> bool" where
  "countries_ok s \<longleftrightarrow> length s \<le> 750 \<and> (s = '''' \<or> country_list s)"

definition packs_ok :: "pack_parser \<Rightarrow> string \<Rightarrow> bool" where
  "packs_ok packs s \<longleftrightarrow> length s \<le> 2000 \<and> parse_packs packs s \<noteq> None"

definition kbps_ok :: "nat \<Rightarrow> bool" where "kbps_ok n \<longleftrightarrow> 100 \<le> n \<and> n \<le> 10000"
definition count_ok :: "nat \<Rightarrow> bool" where "count_ok n \<longleftrightarrow> n \<le> 1000000"
definition price_ok :: "int \<Rightarrow> bool" where "price_ok n \<longleftrightarrow> 1 \<le> n \<and> n \<le> 100000"
definition banner_ok :: "string \<Rightarrow> bool" where "banner_ok s \<longleftrightarrow> length s \<le> 280"

definition flags_ok :: "pack_parser \<Rightarrow> flags \<Rightarrow> bool" where
  "flags_ok packs f \<longleftrightarrow>
     count_ok (max_waiting f) \<and> kbps_ok (video_max_kbps f) \<and> kbps_ok (relay_video_max_kbps f)
     \<and> banner_ok (banner_message f) \<and> countries_ok (blocked_countries f) \<and> staffed_ok (staffed_hours f)
     \<and> count_ok (online_count_threshold f) \<and> price_ok (gender_filter_coins_per_day f)
     \<and> packs_ok packs (coin_packs f)"

section \<open>Merging stored overrides\<close>

definition or_else :: "'a option \<Rightarrow> 'a \<Rightarrow> 'a" where
  "or_else o' d = (case o' of Some v \<Rightarrow> v | None \<Rightarrow> d)"

text \<open>\<open>{ ...base, ...patch }\<close>\<close>

definition overlay :: "flags \<Rightarrow> flags_patch \<Rightarrow> flags" where
  "overlay b p =
     \<lparr>matching_enabled = or_else (p_matching_enabled p) (matching_enabled b),
      new_sessions_enabled = or_else (p_new_sessions_enabled p) (new_sessions_enabled b),
      max_waiting = or_else (p_max_waiting p) (max_waiting b),
      turn_enabled = or_else (p_turn_enabled p) (turn_enabled b),
      private_mode_enabled = or_else (p_private_mode_enabled p) (private_mode_enabled b),
      video_max_kbps = or_else (p_video_max_kbps p) (video_max_kbps b),
      relay_video_max_kbps = or_else (p_relay_video_max_kbps p) (relay_video_max_kbps b),
      banner_message = or_else (p_banner_message p) (banner_message b),
      blocked_countries = or_else (p_blocked_countries p) (blocked_countries b),
      staffed_hours = or_else (p_staffed_hours p) (staffed_hours b),
      default_mode = or_else (p_default_mode p) (default_mode b),
      online_count_threshold = or_else (p_online_count_threshold p) (online_count_threshold b),
      premium_filters_enabled = or_else (p_premium_filters_enabled p) (premium_filters_enabled b),
      gender_filter_coins_per_day = or_else (p_gender_filter_coins_per_day p) (gender_filter_coins_per_day b),
      coin_packs = or_else (p_coin_packs p) (coin_packs b)\<rparr>"

definition merge :: "pack_parser \<Rightarrow> flags_patch \<Rightarrow> flags" where
  "merge packs stored =
     (let m = overlay FLAG_DEFAULTS stored; d = FLAG_DEFAULTS in
      if flags_ok packs m then m
      else m\<lparr>max_waiting := if count_ok (max_waiting m) then max_waiting m else max_waiting d,
             video_max_kbps := if kbps_ok (video_max_kbps m) then video_max_kbps m else video_max_kbps d,
             relay_video_max_kbps := if kbps_ok (relay_video_max_kbps m) then relay_video_max_kbps m else relay_video_max_kbps d,
             banner_message := if banner_ok (banner_message m) then banner_message m else banner_message d,
             blocked_countries := if countries_ok (blocked_countries m) then blocked_countries m else blocked_countries d,
             staffed_hours := if staffed_ok (staffed_hours m) then staffed_hours m else staffed_hours d,
             online_count_threshold := if count_ok (online_count_threshold m) then online_count_threshold m else online_count_threshold d,
             gender_filter_coins_per_day := if price_ok (gender_filter_coins_per_day m) then gender_filter_coins_per_day m else gender_filter_coins_per_day d,
             coin_packs := if packs_ok packs (coin_packs m) then coin_packs m else coin_packs d\<rparr>)"

section \<open>Staffed hours\<close>

definition MINUTE_MS :: millis where "MINUTE_MS = 60000"
definition MINUTES_PER_DAY :: nat where "MINUTES_PER_DAY = 1440"
definition NOON_MINUTES :: nat where "NOON_MINUTES = 720"

record window =
  w_start :: nat
  w_end :: nat
  w_timeZone :: string

definition parseStaffedHours :: "time_zones \<Rightarrow> string \<Rightarrow> window option" where
  "parseStaffedHours tz value =
     (case staffed_groups (trim value) of
        None \<Rightarrow> None
      | Some (h1, m1, h2, m2, zone) \<Rightarrow>
          let start = h1 * 60 + m1; finish = h2 * 60 + m2 in
          if start > MINUTES_PER_DAY \<or> finish > MINUTES_PER_DAY \<or> start = finish then None
          else if tz zone = None then None
          else Some \<lparr>w_start = start, w_end = finish, w_timeZone = zone\<rparr>)"

definition insideWindow :: "window \<Rightarrow> nat \<Rightarrow> bool" where
  "insideWindow w minutes =
     (if w_start w < w_end w then minutes \<ge> w_start w \<and> minutes < w_end w
      else minutes \<ge> w_start w \<or> minutes < w_end w)"

text \<open>Only called with the zone of a parsed window, which \<open>tz\<close> knows.\<close>

definition localMinutes :: "time_zones \<Rightarrow> millis \<Rightarrow> string \<Rightarrow> nat" where
  "localMinutes tz ms zone = (case tz zone of Some f \<Rightarrow> f ms | None \<Rightarrow> 0)"

definition clockLabel :: "nat \<Rightarrow> string" where
  "clockLabel minutes =
     (if minutes = 0 \<or> minutes = MINUTES_PER_DAY then ''midnight''
      else if minutes = NOON_MINUTES then ''noon''
      else
        let h = minutes div 60; m = minutes mod 60; h12 = (if h mod 12 = 0 then 12 else h mod 12) in
        show_nat h12 @ (if m \<noteq> 0 then '':'' @ (if m < 10 then ''0'' else '''') @ show_nat m else '''')
          @ '' '' @ (if h < 12 then ''am'' else ''pm''))"

definition describeStaffedHours :: "time_zones \<Rightarrow> string \<Rightarrow> string option" where
  "describeStaffedHours tz value =
     (case (if value \<noteq> '''' then parseStaffedHours tz value else None) of
        None \<Rightarrow> None
      | Some w \<Rightarrow> Some (clockLabel (w_start w) @ '' to '' @ clockLabel (w_end w) @ '' ('' @ w_timeZone w @ '')''))"

record matching_status =
  is_open :: bool
  reopensAt :: "millis option"
  message :: "string option"

definition PAUSED_MESSAGE :: string where "PAUSED_MESSAGE = ''Matching is paused right now.''"

definition matchingStatus :: "time_zones \<Rightarrow> flags \<Rightarrow> millis \<Rightarrow> matching_status" where
  "matchingStatus tz f now =
     (if \<not> matching_enabled f
      then \<lparr>is_open = False, reopensAt = None,
            message = Some (if banner_message f \<noteq> '''' then banner_message f else PAUSED_MESSAGE)\<rparr>
      else
        case (if staffed_hours f \<noteq> '''' then parseStaffedHours tz (staffed_hours f) else None) of
          None \<Rightarrow> \<lparr>is_open = True, reopensAt = None, message = None\<rparr>
        | Some w \<Rightarrow>
            if insideWindow w (localMinutes tz now (w_timeZone w))
            then \<lparr>is_open = True, reopensAt = None, message = None\<rparr>
            else
              let startOfMinute = now - now mod MINUTE_MS;
                  opens = find (\<lambda>t. insideWindow w (localMinutes tz t (w_timeZone w)))
                    (map (\<lambda>i. startOfMinute + int i * MINUTE_MS) [1..<MINUTES_PER_DAY + 1]) in
              \<lparr>is_open = False, reopensAt = opens, message = None\<rparr>)"

section \<open>The cached reader\<close>

record flags_reader =
  flag_value :: flags
  statusMemo :: "(flags \<times> int \<times> matching_status) option"

definition current :: "flags_reader \<Rightarrow> flags" where
  "current r = flag_value r"

definition status :: "time_zones \<Rightarrow> millis \<Rightarrow> flags_reader \<Rightarrow> flags_reader \<times> matching_status" where
  "status tz now r =
     (let minute = now div MINUTE_MS;
          fresh = matchingStatus tz (flag_value r) now in
      case statusMemo r of
        Some (f, m, s) \<Rightarrow>
          if f = flag_value r \<and> m = minute then (r, s)
          else (r\<lparr>statusMemo := Some (flag_value r, minute, fresh)\<rparr>, fresh)
      | None \<Rightarrow> (r\<lparr>statusMemo := Some (flag_value r, minute, fresh)\<rparr>, fresh))"

text \<open>\<open>refresh\<close> keeps the old object when nothing changed, which as a value is the same.\<close>

definition refresh :: "flags \<Rightarrow> flags_reader \<Rightarrow> flags_reader" where
  "refresh next r = (if next = flag_value r then r else r\<lparr>flag_value := next\<rparr>)"


section \<open>Merged flags are always valid\<close>

lemmas flag_field_ok_defs = count_ok_def kbps_ok_def price_ok_def banner_ok_def

lemma merge_flags_ok:
  assumes "flags_ok packs FLAG_DEFAULTS"
  shows "flags_ok packs (merge packs stored)"
  using assms by (simp add: merge_def Let_def flags_ok_def)

lemma merge_valid: "flags_ok packs (overlay FLAG_DEFAULTS p) \<Longrightarrow> merge packs p = overlay FLAG_DEFAULTS p"
  by (simp add: merge_def Let_def)

lemma FLAG_DEFAULTS_ok: "parse_packs packs (coin_packs FLAG_DEFAULTS) \<noteq> None \<Longrightarrow> flags_ok packs FLAG_DEFAULTS"
  by (simp add: flags_ok_def FLAG_DEFAULTS_def flag_field_ok_defs staffed_ok_def countries_ok_def packs_ok_def is_upper_def)

section \<open>Status: the memo changes nothing, and a closed window reopens\<close>

text \<open>
  What the code relies on of the time zone database: local minutes stay below a day and depend
  on the minute only (\<open>minute_wise\<close>); in a zone of fixed offset they advance with the clock.
\<close>

definition minute_wise :: "time_zones \<Rightarrow> bool" where
  "minute_wise tz \<longleftrightarrow> (\<forall>zone f t t'. tz zone = Some f \<longrightarrow> t div MINUTE_MS = t' div MINUTE_MS \<longrightarrow> f t = f t')"

definition fixed_offset :: "time_zones \<Rightarrow> int \<Rightarrow> string \<Rightarrow> bool" where
  "fixed_offset tz offset zone \<longleftrightarrow>
     (\<forall>t. localMinutes tz t zone = nat ((t div MINUTE_MS + offset) mod int MINUTES_PER_DAY))"

lemma localMinutes_minute:
  "minute_wise tz \<Longrightarrow> t div MINUTE_MS = t' div MINUTE_MS \<Longrightarrow> localMinutes tz t z = localMinutes tz t' z"
  unfolding localMinutes_def minute_wise_def by (metis option.case_eq_if option.exhaust_sel)

lemma startOfMinute_eq: "now - now mod MINUTE_MS = (now div MINUTE_MS) * MINUTE_MS" for now :: int
  by (simp add: minus_mod_eq_div_mult)

lemma matchingStatus_minute:
  assumes "minute_wise tz" "now div MINUTE_MS = now' div MINUTE_MS"
  shows "matchingStatus tz f now = matchingStatus tz f now'"
proof -
  have "now - now mod MINUTE_MS = now' - now' mod MINUTE_MS"
    using assms(2) startOfMinute_eq [of now] startOfMinute_eq [of now'] by simp
  then show ?thesis
    using localMinutes_minute [OF assms] unfolding matchingStatus_def Let_def by presburger
qed

text \<open>The memo holds the answer for its flags and minute.\<close>

definition memo_ok :: "time_zones \<Rightarrow> flags_reader \<Rightarrow> bool" where
  "memo_ok tz r \<longleftrightarrow>
     (case statusMemo r of None \<Rightarrow> True
      | Some (f, m, s) \<Rightarrow> \<exists>t. t div MINUTE_MS = m \<and> s = matchingStatus tz f t)"

lemma status_memo_ok: "memo_ok tz r \<Longrightarrow> memo_ok tz (fst (status tz now r))"
  by (auto simp: status_def memo_ok_def Let_def split: option.splits)

lemma status_correct: "minute_wise tz \<Longrightarrow> memo_ok tz r \<Longrightarrow> snd (status tz now r) = matchingStatus tz (flag_value r) now"
  by (auto simp: status_def memo_ok_def Let_def split: option.splits intro: matchingStatus_minute)

lemma status_keeps_flags [simp]: "flag_value (fst (status tz now r)) = flag_value r"
  by (auto simp: status_def Let_def split: option.splits)

lemma refresh_memo_ok: "memo_ok tz r \<Longrightarrow> memo_ok tz (refresh next r)"
  by (simp add: refresh_def memo_ok_def)

lemma parseStaffedHours_bounds:
  "parseStaffedHours tz v = Some w \<Longrightarrow>
     w_start w \<le> MINUTES_PER_DAY \<and> w_end w \<le> MINUTES_PER_DAY \<and> w_start w \<noteq> w_end w"
  by (auto simp: parseStaffedHours_def Let_def split: option.splits if_splits)

text \<open>
  Some minute of every day lies in a parsed window, except in the window "24:00-00:00", whose
  two ends are different numbers for the same instant.
\<close>

definition empty_window :: "window \<Rightarrow> bool" where
  "empty_window w \<longleftrightarrow> w_start w = MINUTES_PER_DAY \<and> w_end w = 0"

lemma insideWindow_some:
  assumes "parseStaffedHours tz v = Some w" "\<not> empty_window w"
  shows "\<exists>m < MINUTES_PER_DAY. insideWindow w m"
proof -
  from assms have b: "w_start w \<le> 1440" "w_end w \<le> 1440" "w_start w \<noteq> w_end w"
    using parseStaffedHours_bounds by (auto simp: MINUTES_PER_DAY_def)
  consider "w_start w < w_end w" | "w_end w < w_start w" "0 < w_end w" | "w_end w = 0" "w_start w < 1440"
    using b assms(2) by (force simp: empty_window_def MINUTES_PER_DAY_def)
  then show ?thesis
  proof cases
    case 1
    then show ?thesis using b by (intro exI [of _ "w_start w"]) (simp add: insideWindow_def MINUTES_PER_DAY_def)
  next
    case 2
    then show ?thesis by (intro exI [of _ "0"]) (simp add: insideWindow_def MINUTES_PER_DAY_def)
  next
    case 3
    then show ?thesis by (intro exI [of _ "w_start w"]) (simp add: insideWindow_def MINUTES_PER_DAY_def)
  qed
qed

lemma find_Some_first: "find P xs = Some x \<Longrightarrow> x \<in> set xs \<and> P x"
  by (metis find_Some_iff nth_mem)

text \<open>Every minute of the day comes up within the 1440 minutes after any instant.\<close>

lemma minute_comes_up:
  assumes "m < MINUTES_PER_DAY"
  shows "\<exists>i \<in> {1..MINUTES_PER_DAY}. nat ((k + int i + offset) mod int MINUTES_PER_DAY) = m"
proof -
  let ?r = "(int m - k - offset - 1) mod 1440"
  have r: "0 \<le> ?r" "?r < 1440" by simp_all
  let ?i = "nat (?r + 1)"
  have i: "?i \<in> {1..MINUTES_PER_DAY}" using r by (auto simp: MINUTES_PER_DAY_def)
  have "(k + int ?i + offset) mod 1440 = (k + offset + 1 + ?r) mod 1440" using r by (simp add: algebra_simps)
  also have "\<dots> = (k + offset + 1 + (int m - k - offset - 1)) mod 1440" by (rule mod_add_right_eq)
  also have "\<dots> = int m" using assms by (simp add: MINUTES_PER_DAY_def)
  finally have "nat ((k + int ?i + offset) mod 1440) = m" by simp
  then show ?thesis using i by (intro bexI [of _ ?i]) (simp_all add: MINUTES_PER_DAY_def)
qed

lemma reopens:
  assumes closed: "\<not> is_open (matchingStatus tz f now)" and "matching_enabled f"
    and w: "parseStaffedHours tz (staffed_hours f) = Some w" "\<not> empty_window w"
    and zone: "fixed_offset tz offset (w_timeZone w)"
  shows "\<exists>t. reopensAt (matchingStatus tz f now) = Some t \<and> now < t \<and> t \<le> now + int MINUTES_PER_DAY * MINUTE_MS
    \<and> is_open (matchingStatus tz f t)"
proof -
  let ?P = "\<lambda>t. insideWindow w (localMinutes tz t (w_timeZone w))"
  let ?at = "\<lambda>i. now - now mod MINUTE_MS + int i * MINUTE_MS"
  let ?ts = "map ?at [1..<MINUTES_PER_DAY + 1]"
  have ne: "staffed_hours f \<noteq> ''''"
    using w(1) by (auto simp: parseStaffedHours_def trim_def)
  have out: "\<not> ?P now"
    using closed assms(2) w(1) ne by (auto simp: matchingStatus_def Let_def split: if_splits)
  have at_minute: "?at i div MINUTE_MS = now div MINUTE_MS + int i" for i
  proof -
    have "?at i = (now div MINUTE_MS + int i) * MINUTE_MS" unfolding startOfMinute_eq by (simp add: distrib_right)
    moreover have "MINUTE_MS \<noteq> 0" by (simp add: MINUTE_MS_def)
    ultimately show ?thesis by (metis nonzero_mult_div_cancel_right)
  qed
  obtain m where m: "m < MINUTES_PER_DAY" "insideWindow w m" using insideWindow_some [OF w] by blast
  then obtain i where i: "i \<in> {1..MINUTES_PER_DAY}"
      "nat ((now div MINUTE_MS + int i + offset) mod int MINUTES_PER_DAY) = m"
    using minute_comes_up by blast
  have "localMinutes tz (?at i) (w_timeZone w) = m"
    using zone i(2) by (simp add: fixed_offset_def at_minute)
  then have "?P (?at i)" using m(2) by simp
  moreover have "?at i \<in> set ?ts" using i(1) by auto
  ultimately have "find ?P ?ts \<noteq> None" by (metis find_None_iff2)
  then obtain t where t: "find ?P ?ts = Some t" by auto
  then have tin: "t \<in> set ?ts" "?P t" using find_Some_first by fast+
  then obtain j where j: "1 \<le> j" "j \<le> MINUTES_PER_DAY" "t = ?at j" by auto
  have "0 \<le> now mod MINUTE_MS" "now mod MINUTE_MS < MINUTE_MS" by (simp_all add: MINUTE_MS_def)
  moreover have "MINUTE_MS \<le> int j * MINUTE_MS" "int j * MINUTE_MS \<le> int MINUTES_PER_DAY * MINUTE_MS"
    using j by (simp_all add: MINUTE_MS_def)
  ultimately have "now < t" "t \<le> now + int MINUTES_PER_DAY * MINUTE_MS" using j(3) by linarith+
  moreover have "reopensAt (matchingStatus tz f now) = Some t"
    using t out assms(2) w(1) ne by (simp add: matchingStatus_def Let_def)
  moreover have "is_open (matchingStatus tz f t)"
    using tin(2) assms(2) w(1) ne by (simp add: matchingStatus_def)
  ultimately show ?thesis by blast
qed

end
