(* ===== verification/Geo.thy ===== *)
theory Geo
  imports Flags
begin

text \<open>
  Network helpers of the session gate (\<open>backend/src/session/geo.ts\<close>): the rate-limit keys of an
  address and the country block list. \<open>isIPv4\<close> and \<open>isIPv6\<close> of \<open>node:net\<close> are the fields of
  the parameter \<open>net\<close>.
\<close>

record net_lib =
  isIPv4 :: "string \<Rightarrow> bool"
  isIPv6 :: "string \<Rightarrow> bool"

definition IPV4_MAPPED_PREFIX :: string where "IPV4_MAPPED_PREFIX = ''::ffff:''"
definition IPV4_NETWORK_OCTETS :: nat where "IPV4_NETWORK_OCTETS = 3"
definition IPV6_GROUPS :: nat where "IPV6_GROUPS = 8"
definition IPV6_SUBSCRIBER_GROUPS :: nat where "IPV6_SUBSCRIBER_GROUPS = 4"
definition IPV6_NETWORK_GROUPS :: nat where "IPV6_NETWORK_GROUPS = 3"
definition UNKNOWN_IP :: string where "UNKNOWN_IP = ''unknown''"
definition UNKNOWN_COUNTRY :: string where "UNKNOWN_COUNTRY = ''XX''"

definition starts_with :: "string \<Rightarrow> string \<Rightarrow> bool" where
  "starts_with p s \<longleftrightarrow> take (length p) s = p"

definition lower :: "string \<Rightarrow> string" where
  "lower s = map lower_char s"

definition pad_start :: "nat \<Rightarrow> string \<Rightarrow> string" where
  "pad_start n s = replicate (n - length s) CHR ''0'' @ s"

text \<open>\<open>ip.split("::")\<close>: the text before the first double colon and, if there is one, the text up to the next.\<close>

fun before_dcolon :: "string \<Rightarrow> string \<times> string option" where
  "before_dcolon (a # b # s) =
     (if a = CHR '':'' \<and> b = CHR '':'' then ([], Some s)
      else let (h, t) = before_dcolon (b # s) in (a # h, t))"
| "before_dcolon s = (s, None)"

definition split_dcolon :: "string \<Rightarrow> string \<times> string option" where
  "split_dcolon s = (let (h, t) = before_dcolon s in (h, map_option (\<lambda>r. fst (before_dcolon r)) t))"

text \<open>A valid address has at most eight groups, so the length of the fill is never negative.\<close>

definition expandIPv6 :: "string \<Rightarrow> string list" where
  "expandIPv6 ip =
     (let (head, tail) = split_dcolon ip;
          left = (if head \<noteq> [] then split_on CHR '':'' head else []);
          right = (case tail of None \<Rightarrow> [] | Some t \<Rightarrow> if t \<noteq> [] then split_on CHR '':'' t else []);
          fill = (case tail of None \<Rightarrow> [] | Some _ \<Rightarrow> replicate (IPV6_GROUPS - length left - length right) ''0'') in
      map (pad_start 4) (left @ fill @ right))"

record ip_buckets =
  b_ip :: string
  b_network :: string

definition ipBuckets :: "net_lib \<Rightarrow> string \<Rightarrow> ip_buckets" where
  "ipBuckets net rawIp =
     (let ip0 = lower (trim rawIp);
          n = length IPV4_MAPPED_PREFIX;
          ip = (if starts_with IPV4_MAPPED_PREFIX ip0 \<and> isIPv4 net (drop n ip0) then drop n ip0 else ip0) in
      if isIPv4 net ip
      then \<lparr>b_ip = ip, b_network = join ''.'' (take IPV4_NETWORK_OCTETS (split_on CHR ''.'' ip)) @ ''.0/24''\<rparr>
      else if isIPv6 net ip
      then
        let groups = expandIPv6 (takeWhile (\<lambda>c. c \<noteq> CHR ''%'') ip) in
        \<lparr>b_ip = join '':'' (take IPV6_SUBSCRIBER_GROUPS groups) @ ''::/64'',
         b_network = join '':'' (take IPV6_NETWORK_GROUPS groups) @ ''::/48''\<rparr>
      else \<lparr>b_ip = ip, b_network = ip\<rparr>)"

text \<open>\<open>normalizeIp\<close>: one IP literal or nothing; \<open>isIP\<close> is non-zero for both families.\<close>

definition normalizeIp :: "net_lib \<Rightarrow> string option \<Rightarrow> string option" where
  "normalizeIp net v =
     (case v of
        None \<Rightarrow> None
      | Some raw \<Rightarrow>
          if raw = [] then None
          else
            let ip = takeWhile (\<lambda>c. c \<noteq> CHR ''%'') (lower (trim raw)); n = length IPV4_MAPPED_PREFIX in
            if starts_with IPV4_MAPPED_PREFIX ip \<and> isIPv4 net (drop n ip) then Some (drop n ip)
            else if isIPv4 net ip \<or> isIPv6 net ip then Some ip
            else None)"

text \<open>\<open>header\<close> has already been read: the trimmed value of the configured proxy header.\<close>

definition requestIp :: "net_lib \<Rightarrow> string option \<Rightarrow> string option \<Rightarrow> string" where
  "requestIp net proxy_header remoteAddress =
     (case normalizeIp net proxy_header of
        Some real \<Rightarrow> real
      | None \<Rightarrow> (case normalizeIp net remoteAddress of Some ip \<Rightarrow> ip | None \<Rightarrow> UNKNOWN_IP))"

definition knownIp :: "net_lib \<Rightarrow> string option \<Rightarrow> string option \<Rightarrow> string option" where
  "knownIp net proxy_header remoteAddress =
     (let ip = requestIp net proxy_header remoteAddress in if ip = UNKNOWN_IP then None else Some ip)"

definition upper_char :: "char \<Rightarrow> char" where
  "upper_char c = (if CHR ''a'' \<le> c \<and> c \<le> CHR ''z'' then char_of (of_char c - (32::nat)) else c)"

definition requestCountry :: "string option \<Rightarrow> bool \<Rightarrow> string option" where
  "requestCountry header trustCloudflare =
     (if \<not> trustCloudflare then None
      else
        case map_option (map upper_char) header of
          None \<Rightarrow> None
        | Some v \<Rightarrow> if length v = 2 \<and> list_all is_upper v \<and> v \<noteq> UNKNOWN_COUNTRY then Some v else None)"

definition blockedCountries :: "flags \<Rightarrow> string list" where
  "blockedCountries f = filter (\<lambda>c. length c = 2) (split_on CHR '','' (blocked_countries f))"

definition isCountryBlocked :: "string option \<Rightarrow> flags \<Rightarrow> bool" where
  "isCountryBlocked cc f = (case cc of None \<Rightarrow> False | Some c \<Rightarrow> c \<in> set (blockedCountries f))"

lemma requestIp_valid:
  assumes "requestIp net h r = ip" "ip \<noteq> UNKNOWN_IP"
  shows "isIPv4 net ip \<or> isIPv6 net ip"
proof -
  have "normalizeIp net v = Some ip \<Longrightarrow> isIPv4 net ip \<or> isIPv6 net ip" for v
    by (auto simp: normalizeIp_def Let_def split: option.splits if_splits)
  then show ?thesis using assms by (auto simp: requestIp_def split: option.splits)
qed

text \<open>All addresses of one IPv6 /64 share a bucket: the bucket depends on the first four groups only.\<close>

lemma ipv6_bucket_groups:
  assumes "isIPv6 net (lower (trim a))" "isIPv6 net (lower (trim b))"
    and "\<not> isIPv4 net (lower (trim a))" "\<not> isIPv4 net (lower (trim b))"
    and "\<not> starts_with IPV4_MAPPED_PREFIX (lower (trim a))" "\<not> starts_with IPV4_MAPPED_PREFIX (lower (trim b))"
    and "take IPV6_SUBSCRIBER_GROUPS (expandIPv6 (takeWhile (\<lambda>c. c \<noteq> CHR ''%'') (lower (trim a)))) =
         take IPV6_SUBSCRIBER_GROUPS (expandIPv6 (takeWhile (\<lambda>c. c \<noteq> CHR ''%'') (lower (trim b))))"
  shows "ipBuckets net a = ipBuckets net b"
proof -
  let ?g = "\<lambda>x. expandIPv6 (takeWhile (\<lambda>c. c \<noteq> CHR ''%'') (lower (trim x)))"
  have "take IPV6_NETWORK_GROUPS xs = take IPV6_NETWORK_GROUPS (take IPV6_SUBSCRIBER_GROUPS xs)" for xs :: "string list"
    by (simp add: IPV6_NETWORK_GROUPS_def IPV6_SUBSCRIBER_GROUPS_def)
  then have net: "take IPV6_NETWORK_GROUPS (?g a) = take IPV6_NETWORK_GROUPS (?g b)"
    using assms(7) by metis
  have bk: "ipBuckets net x = \<lparr>b_ip = join '':'' (take IPV6_SUBSCRIBER_GROUPS (?g x)) @ ''::/64'',
      b_network = join '':'' (take IPV6_NETWORK_GROUPS (?g x)) @ ''::/48''\<rparr>"
    if "isIPv6 net (lower (trim x))" "\<not> isIPv4 net (lower (trim x))" "\<not> starts_with IPV4_MAPPED_PREFIX (lower (trim x))" for x
    using that by (simp add: ipBuckets_def Let_def)
  show ?thesis using bk [OF assms(1,3,5)] bk [OF assms(2,4,6)] net assms(7) by simp
qed

end
