(* ===== verification/MemoryStore.thy ===== *)
theory MemoryStore
  imports Protocol
begin

text \<open>
  The matchmaking store of a single instance (\<open>backend/src/store/MemoryStore.ts\<close>, contract in
  \<open>MatchStore.ts\<close>): sessions, photos, device bindings, the waiting queue, rooms with the index
  of pending rooms, coins, friends, pair blocks, reports, bans and instances. Reads and writes
  copy values, so a plain record is the store; \<open>now\<close> is \<open>Date.now()\<close> at the call. The lock
  \<open>withLock\<close> is the atomicity of the steps of the theories that use the store.
\<close>

section \<open>State\<close>

record report_record =
  rp_reporterDevice :: device_id
  rp_reportedDevice :: device_id
  rp_roomId :: uuid
  rp_reason :: report_reason
  rp_details :: "string option"
  rp_ts :: millis

record store_stats =
  st_sessions :: nat
  st_waiting :: nat
  st_pendingRooms :: nat
  st_activeRooms :: nat

record store =
  sessions :: "(socket_id, session) jmap"
  photos :: "(socket_id, string) jmap"
  bindings :: "(device_id, socket_id) jmap"
  waiting :: "(socket_id \<times> millis) list"
  waitingSinces :: "(socket_id, millis) jmap"
  rooms :: "(uuid, room) jmap"
  pendingRooms :: "(uuid, millis) jmap"
  coins :: "(device_id, int) jmap"
  friends :: "string list"
  blocks :: "(string, pair_block \<times> millis) jmap"
  reports :: "report_record list"
  reportsAgainst :: "(device_id, (device_id, millis) jmap) jmap"
  bans :: "(device_id, millis) jmap"
  instances :: "(string, millis) jmap"
  blockWrites :: nat
  reportWrites :: nat

definition PRUNE_EVERY_WRITES :: nat where "PRUNE_EVERY_WRITES = 1000"
definition REPORT_LOG_MAX :: nat where "REPORT_LOG_MAX = 10000"
definition REPORTS_AGAINST_TTL_MS :: millis where "REPORTS_AGAINST_TTL_MS = 30 * 24 * 60 * 60000"

definition new_store :: store where
  "new_store = \<lparr>sessions = [], photos = [], bindings = [], waiting = [], waitingSinces = [], rooms = [],
     pendingRooms = [], coins = [], friends = [], blocks = [], reports = [], reportsAgainst = [], bans = [],
     instances = [], blockWrites = 0, reportWrites = 0\<rparr>"

definition pairKey :: "device_id \<Rightarrow> device_id \<Rightarrow> string" where
  "pairKey a b = (if a < b then a @ '':'' @ b else b @ '':'' @ a)"

lemma pairKey_sym: "pairKey a b = pairKey b a"
  by (auto simp: pairKey_def)

section \<open>Sessions, photos, device bindings\<close>

definition getSession :: "store \<Rightarrow> socket_id \<Rightarrow> session option" where
  "getSession m s = jget (sessions m) s"

definition getSessions :: "store \<Rightarrow> socket_id list \<Rightarrow> session option list" where
  "getSessions m ids = map (getSession m) ids"

definition putSession :: "session \<Rightarrow> store \<Rightarrow> store" where
  "putSession s m = m\<lparr>sessions := jset (sessions m) (socketId s) s\<rparr>"

definition deleteSession :: "socket_id \<Rightarrow> store \<Rightarrow> store" where
  "deleteSession s m = m\<lparr>sessions := jdel (sessions m) s, photos := jdel (photos m) s\<rparr>"

definition setPhoto :: "socket_id \<Rightarrow> string option \<Rightarrow> store \<Rightarrow> store" where
  "setPhoto s photo m =
     (case photo of None \<Rightarrow> m\<lparr>photos := jdel (photos m) s\<rparr> | Some p \<Rightarrow> m\<lparr>photos := jset (photos m) s p\<rparr>)"

definition getPhoto :: "store \<Rightarrow> socket_id \<Rightarrow> string option" where
  "getPhoto m s = jget (photos m) s"

definition getDeviceSocket :: "store \<Rightarrow> device_id \<Rightarrow> socket_id option" where
  "getDeviceSocket m d = jget (bindings m) d"

definition setDeviceSocket :: "device_id \<Rightarrow> socket_id \<Rightarrow> store \<Rightarrow> store" where
  "setDeviceSocket d s m = m\<lparr>bindings := jset (bindings m) d s\<rparr>"

definition clearDeviceSocket :: "device_id \<Rightarrow> socket_id \<Rightarrow> store \<Rightarrow> store" where
  "clearDeviceSocket d s m =
     (if jget (bindings m) d = Some s then m\<lparr>bindings := jdel (bindings m) d\<rparr> else m)"

section \<open>The waiting queue\<close>

text \<open>
  Both operations find their place by binary search over the queue sorted by \<open>since\<close>:
  \<open>bsearch P xs lo hi\<close> is the loop that narrows \<open>lo .. hi\<close> to the first index whose entry
  fails \<open>P\<close> (true for a prefix of the queue).
\<close>

function bsearch :: "('a \<Rightarrow> bool) \<Rightarrow> 'a list \<Rightarrow> nat \<Rightarrow> nat \<Rightarrow> nat" where
  "bsearch P xs lo hi =
     (if lo < hi
      then let mid = (lo + hi) div 2 in
           if P (xs ! mid) then bsearch P xs (mid + 1) hi else bsearch P xs lo mid
      else lo)"
  by pat_completeness auto
termination
  by (relation "measure (\<lambda>(P, xs, lo, hi). hi - lo)") auto

declare bsearch.simps [simp del]

text \<open>\<open>splice(i, 1)\<close> of the first entry of the equal run that starts at \<open>i\<close>.\<close>

fun drop_in_run :: "socket_id \<Rightarrow> millis \<Rightarrow> (socket_id \<times> millis) list \<Rightarrow> (socket_id \<times> millis) list" where
  "drop_in_run s since [] = []"
| "drop_in_run s since (e # es) =
     (if snd e = since then (if fst e = s then es else e # drop_in_run s since es) else e # es)"

definition removeFromQueue :: "socket_id \<Rightarrow> store \<Rightarrow> store" where
  "removeFromQueue s m =
     (case jget (waitingSinces m) s of
        None \<Rightarrow> m
      | Some since \<Rightarrow>
          let lo = bsearch (\<lambda>e. snd e < since) (waiting m) 0 (length (waiting m)) in
          m\<lparr>waitingSinces := jdel (waitingSinces m) s,
            waiting := take lo (waiting m) @ drop_in_run s since (drop lo (waiting m))\<rparr>)"

definition addWaiting :: "socket_id \<Rightarrow> millis \<Rightarrow> store \<Rightarrow> store" where
  "addWaiting s since m =
     (let m1 = removeFromQueue s m;
          lo = bsearch (\<lambda>e. snd e \<le> since) (waiting m1) 0 (length (waiting m1)) in
      m1\<lparr>waiting := take lo (waiting m1) @ (s, since) # drop lo (waiting m1),
         waitingSinces := jset (waitingSinces m1) s since\<rparr>)"

definition removeWaiting :: "socket_id \<Rightarrow> store \<Rightarrow> store" where
  "removeWaiting s m = removeFromQueue s m"

definition listWaiting :: "store \<Rightarrow> socket_id list" where
  "listWaiting m = map fst (waiting m)"

definition waitingCount :: "store \<Rightarrow> nat" where
  "waitingCount m = length (waiting m)"

section \<open>Rooms\<close>

definition getRoom :: "store \<Rightarrow> uuid \<Rightarrow> room option" where
  "getRoom m r = jget (rooms m) r"

definition putRoom :: "room \<Rightarrow> store \<Rightarrow> store" where
  "putRoom r m =
     m\<lparr>rooms := jset (rooms m) (room_id r) r,
       pendingRooms := (if room_state r = RPending then jset (pendingRooms m) (room_id r) (expiresAt r)
                        else jdel (pendingRooms m) (room_id r))\<rparr>"

definition deleteRoom :: "uuid \<Rightarrow> store \<Rightarrow> store" where
  "deleteRoom r m = m\<lparr>rooms := jdel (rooms m) r, pendingRooms := jdel (pendingRooms m) r\<rparr>"

definition listExpiredPendingRooms :: "store \<Rightarrow> millis \<Rightarrow> uuid list" where
  "listExpiredPendingRooms m cutoff =
     map fst (sort_key snd (filter (\<lambda>p. snd p \<le> cutoff) (pendingRooms m)))"

section \<open>Coins, friends, blocks, reports, bans, instances\<close>

definition getCoins :: "store \<Rightarrow> device_id \<Rightarrow> int option" where
  "getCoins m d = jget (coins m) d"

definition addCoins :: "device_id \<Rightarrow> int \<Rightarrow> int \<Rightarrow> store \<Rightarrow> store \<times> int" where
  "addCoins d delta initial m =
     (let balance = (case jget (coins m) d of None \<Rightarrow> initial | Some b \<Rightarrow> b) + delta in
      (m\<lparr>coins := jset (coins m) d balance\<rparr>, balance))"

definition areFriends :: "store \<Rightarrow> device_id \<Rightarrow> device_id \<Rightarrow> bool" where
  "areFriends m a b \<longleftrightarrow> pairKey a b \<in> set (friends m)"

definition addFriends :: "device_id \<Rightarrow> device_id \<Rightarrow> store \<Rightarrow> store" where
  "addFriends a b m = m\<lparr>friends := sadd (pairKey a b) (friends m)\<rparr>"

definition getBlock :: "millis \<Rightarrow> store \<Rightarrow> device_id \<Rightarrow> device_id \<Rightarrow> pair_block option" where
  "getBlock now m a b = live now (blocks m) (pairKey a b)"

definition setBlock :: "millis \<Rightarrow> device_id \<Rightarrow> device_id \<Rightarrow> pair_block \<Rightarrow> millis \<Rightarrow> store \<Rightarrow> store" where
  "setBlock now a b block retainMs m =
     (let bs = jset (blocks m) (pairKey a b) (block, now + retainMs);
          n = blockWrites m + 1 in
      m\<lparr>blocks := (if n mod PRUNE_EVERY_WRITES = 0 then keep_live now bs else bs), blockWrites := n\<rparr>)"

text \<open>\<open>Math.max(...values)\<close>; of no values it is minus infinity, which is below every cutoff.\<close>

definition all_below :: "millis \<Rightarrow> (device_id, millis) jmap \<Rightarrow> bool" where
  "all_below cutoff reporters = list_all (\<lambda>v. v < cutoff) (jvals reporters)"

definition addReport :: "millis \<Rightarrow> report_record \<Rightarrow> store \<Rightarrow> store" where
  "addReport now report m =
     (let log = reports m @ [report];
          log' = (if length log > REPORT_LOG_MAX then drop (length log - REPORT_LOG_MAX) log else log);
          against = (case jget (reportsAgainst m) (rp_reportedDevice report) of None \<Rightarrow> [] | Some a \<Rightarrow> a);
          prev = (case jget against (rp_reporterDevice report) of None \<Rightarrow> 0 | Some t \<Rightarrow> t);
          against' = jset against (rp_reporterDevice report) (max prev (rp_ts report));
          all = jset (reportsAgainst m) (rp_reportedDevice report) against';
          n = reportWrites m + 1;
          cutoff = now - REPORTS_AGAINST_TTL_MS in
      m\<lparr>reports := log',
        reportsAgainst := (if n mod PRUNE_EVERY_WRITES = 0 then jkeep (\<lambda>rs. \<not> all_below cutoff rs) all else all),
        reportWrites := n\<rparr>)"

definition countReporters :: "device_id \<Rightarrow> millis \<Rightarrow> store \<Rightarrow> store \<times> nat" where
  "countReporters d since m =
     (case jget (reportsAgainst m) d of
        None \<Rightarrow> (m, 0)
      | Some against \<Rightarrow>
          let kept = jkeep (\<lambda>ts. ts \<ge> since) against in
          (m\<lparr>reportsAgainst := (if kept = [] then jdel (reportsAgainst m) d else jset (reportsAgainst m) d kept)\<rparr>,
           length kept))"

definition getBan :: "millis \<Rightarrow> store \<Rightarrow> device_id \<Rightarrow> millis option" where
  "getBan now m d =
     (case jget (bans m) d of None \<Rightarrow> None | Some t \<Rightarrow> if t \<le> now then None else Some t)"

definition setBan :: "millis \<Rightarrow> device_id \<Rightarrow> millis \<Rightarrow> store \<Rightarrow> store" where
  "setBan now d t m = (if t \<le> now then m\<lparr>bans := jdel (bans m) d\<rparr> else m\<lparr>bans := jset (bans m) d t\<rparr>)"

definition heartbeat :: "millis \<Rightarrow> string \<Rightarrow> millis \<Rightarrow> store \<Rightarrow> store" where
  "heartbeat now i ttlMs m = m\<lparr>instances := jset (instances m) i (now + ttlMs)\<rparr>"

definition listDeadInstances :: "millis \<Rightarrow> store \<Rightarrow> string list" where
  "listDeadInstances now m = map fst (filter (\<lambda>p. snd p \<le> now) (instances m))"

definition listInstanceSessions :: "store \<Rightarrow> string \<Rightarrow> socket_id list" where
  "listInstanceSessions m i = map socketId (filter (\<lambda>s. instanceId s = i) (jvals (sessions m)))"

definition forgetInstance :: "string \<Rightarrow> store \<Rightarrow> store" where
  "forgetInstance i m = m\<lparr>instances := jdel (instances m) i\<rparr>"

definition stats :: "store \<Rightarrow> store_stats" where
  "stats m =
     \<lparr>st_sessions = length (sessions m), st_waiting = length (waiting m),
      st_pendingRooms = length (filter (\<lambda>r. room_state r = RPending) (jvals (rooms m))),
      st_activeRooms = length (filter (\<lambda>r. room_state r \<noteq> RPending) (jvals (rooms m)))\<rparr>"

lemmas store_op_defs =
  getSession_def putSession_def deleteSession_def setPhoto_def getPhoto_def getDeviceSocket_def
  setDeviceSocket_def clearDeviceSocket_def getRoom_def putRoom_def deleteRoom_def

end
