(* ===== verification/WaitQueue.thy ===== *)
theory WaitQueue
  imports MemoryStore
begin

text \<open>
  The waiting queue of the store: the binary searches find the place a linear scan would find,
  so adding is a stable insertion by waiting time and removing deletes exactly the socket's
  entry. The contract the match service relies on is the locale \<open>wait_queue\<close>.
\<close>

section \<open>Binary search\<close>

definition prefix_closed :: "('a \<Rightarrow> bool) \<Rightarrow> 'a list \<Rightarrow> bool" where
  "prefix_closed P xs \<longleftrightarrow> (\<forall>j < length xs. \<forall>i \<le> j. P (xs ! j) \<longrightarrow> P (xs ! i))"

lemma bsearch_bounds:
  assumes "prefix_closed P xs" "hi \<le> length xs" "lo \<le> hi"
    "\<forall>i < lo. P (xs ! i)" "\<forall>i. hi \<le> i \<and> i < length xs \<longrightarrow> \<not> P (xs ! i)"
  shows "bsearch P xs lo hi \<le> length xs \<and> (\<forall>i < bsearch P xs lo hi. P (xs ! i)) \<and>
    (\<forall>i. bsearch P xs lo hi \<le> i \<and> i < length xs \<longrightarrow> \<not> P (xs ! i))"
  using assms
proof (induction P xs lo hi rule: bsearch.induct)
  case (1 P xs lo hi)
  let ?mid = "(lo + hi) div 2"
  show ?case
  proof (cases "lo < hi")
    case False
    then have "bsearch P xs lo hi = lo" by (subst bsearch.simps) simp
    then show ?thesis using "1.prems" False by simp
  next
    case True
    then have mid: "lo \<le> ?mid" "?mid < hi" by auto
    show ?thesis
    proof (cases "P (xs ! ?mid)")
      case P: True
      have eq: "bsearch P xs lo hi = bsearch P xs (?mid + 1) hi"
        by (subst bsearch.simps) (simp add: True P Let_def)
      have below: "\<forall>i < ?mid + 1. P (xs ! i)"
      proof (intro allI impI)
        fix i assume "i < ?mid + 1"
        then have "i \<le> ?mid" by simp
        moreover have "?mid < length xs" using mid(2) "1.prems"(2) by simp
        ultimately show "P (xs ! i)" using "1.prems"(1) P unfolding prefix_closed_def by blast
      qed
      have le: "?mid + 1 \<le> hi" using mid(2) by simp
      show ?thesis
        unfolding eq by (rule "1.IH"(1) [OF True refl P "1.prems"(1,2) le below "1.prems"(5)])
    next
      case nP: False
      have eq: "bsearch P xs lo hi = bsearch P xs lo ?mid"
        by (subst bsearch.simps) (simp add: True nP Let_def)
      have above: "\<forall>i. ?mid \<le> i \<and> i < length xs \<longrightarrow> \<not> P (xs ! i)"
        using "1.prems"(1) nP unfolding prefix_closed_def by blast
      have le: "?mid \<le> length xs" using mid(2) "1.prems"(2) by simp
      show ?thesis
        unfolding eq by (rule "1.IH"(2) [OF True refl nP "1.prems"(1) le mid(1) "1.prems"(4) above])
    qed
  qed
qed

lemma bsearch_takeWhile:
  assumes "prefix_closed P xs"
  shows "bsearch P xs 0 (length xs) = length (takeWhile P xs)"
proof -
  let ?k = "bsearch P xs 0 (length xs)" and ?l = "length (takeWhile P xs)"
  have "?k \<le> length xs \<and> (\<forall>i < ?k. P (xs ! i)) \<and> (\<forall>i. ?k \<le> i \<and> i < length xs \<longrightarrow> \<not> P (xs ! i))"
    by (rule bsearch_bounds [OF assms order_refl le0]) (simp, metis leD)
  then have b: "?k \<le> length xs" "\<forall>i < ?k. P (xs ! i)" "\<forall>i. ?k \<le> i \<and> i < length xs \<longrightarrow> \<not> P (xs ! i)"
    by blast+
  have l: "?l \<le> length xs" by (rule length_takeWhile_le)
  have "\<not> ?k < ?l"
  proof
    assume less: "?k < ?l"
    then have "xs ! ?k = takeWhile P xs ! ?k" by (simp add: takeWhile_nth)
    moreover have "takeWhile P xs ! ?k \<in> set (takeWhile P xs)" using less by simp
    ultimately have "P (xs ! ?k)" by (metis set_takeWhileD)
    then show False using b(3) less l by auto
  qed
  moreover have "\<not> ?l < ?k"
  proof
    assume less: "?l < ?k"
    then have "\<not> P (xs ! ?l)" using b(1) by (intro nth_length_takeWhile) simp
    then show False using b(2) less by simp
  qed
  ultimately show ?thesis by simp
qed

lemma prefix_closed_sorted:
  assumes "sorted (map snd (q :: ('a \<times> int) list))"
  shows "prefix_closed (\<lambda>e. snd e < t) q" "prefix_closed (\<lambda>e. snd e \<le> t) q"
proof -
  have "i \<le> j \<Longrightarrow> j < length q \<Longrightarrow> snd (q ! i) \<le> snd (q ! j)" for i j
    using sorted_nth_mono [OF assms, of i j] by simp
  then show "prefix_closed (\<lambda>e. snd e < t) q" "prefix_closed (\<lambda>e. snd e \<le> t) q"
    by (force simp: prefix_closed_def)+
qed

lemma take_drop_bsearch:
  assumes "prefix_closed P xs"
  shows "take (bsearch P xs 0 (length xs)) xs = takeWhile P xs"
    "drop (bsearch P xs 0 (length xs)) xs = dropWhile P xs"
  using assms by (simp_all add: bsearch_takeWhile takeWhile_eq_take [symmetric] dropWhile_eq_drop [symmetric])

section \<open>The queue invariant and what the operations do\<close>

definition queue_ok :: "store \<Rightarrow> bool" where
  "queue_ok m \<longleftrightarrow> jwf (waiting m) \<and> sorted (map snd (waiting m)) \<and> (\<forall>s. jget (waitingSinces m) s = jget (waiting m) s)"

definition since_of :: "store \<Rightarrow> socket_id \<Rightarrow> millis option" where
  "since_of m s = jget (waiting m) s"

lemma jwf_Cons: "jwf (p # m) \<longleftrightarrow> jget m (fst p) = None \<and> jwf m"
  by (auto simp: jwf_def jkeys_def jget_None_iff)

lemma jdel_absent: "jget q s = None \<Longrightarrow> jdel q s = q"
  by (induction q) (auto simp: jdel_def split: if_splits)

lemma drop_in_run_del:
  assumes "jwf q" "sorted (map snd q)" "jget q s = Some since" "\<forall>e \<in> set q. since \<le> snd e"
  shows "drop_in_run s since q = jdel q s"
  using assms
proof (induction q)
  case Nil
  then show ?case by simp
next
  case (Cons e q)
  show ?case
  proof (cases "fst e = s")
    case True
    then show ?thesis using Cons.prems jdel_absent [of q s] by (auto simp: jwf_Cons jdel_def)
  next
    case False
    then have s: "jget q s = Some since" using Cons.prems by simp
    then have "snd e \<le> since"
      using Cons.prems(2) jget_in [OF s] by force
    then have "snd e = since" using Cons.prems(4) by force
    then show ?thesis using Cons False s by (auto simp: jwf_Cons jdel_def)
  qed
qed

lemma jget_append: "jget (xs @ ys) k = (case jget xs k of Some v \<Rightarrow> Some v | None \<Rightarrow> jget ys k)"
  by (induction xs) auto

lemma removeFromQueue_waiting:
  assumes "queue_ok m"
  shows "waiting (removeFromQueue s m) = jdel (waiting m) s"
proof (cases "jget (waiting m) s")
  case None
  then show ?thesis using assms by (simp add: removeFromQueue_def queue_ok_def jdel_absent)
next
  case (Some t)
  let ?P = "\<lambda>e :: socket_id \<times> millis. snd e < t"
  let ?q = "waiting m"
  have ok: "jwf ?q" "sorted (map snd ?q)" and since: "jget (waitingSinces m) s = Some t"
    using assms Some by (auto simp: queue_ok_def)
  have split: "?q = takeWhile ?P ?q @ dropWhile ?P ?q" by simp
  have notin: "jget (takeWhile ?P ?q) s = None"
  proof (rule ccontr)
    assume "jget (takeWhile ?P ?q) s \<noteq> None"
    then obtain u where u: "jget (takeWhile ?P ?q) s = Some u" by auto
    then have "jget ?q s = Some u" using jget_append [of "takeWhile ?P ?q" "dropWhile ?P ?q" s] by simp
    moreover have "u < t" using jget_in [OF u] set_takeWhileD by fastforce
    ultimately show False using Some by simp
  qed
  have rest: "jget (dropWhile ?P ?q) s = Some t"
    using jget_append [of "takeWhile ?P ?q" "dropWhile ?P ?q" s] notin Some by simp
  have sd: "sorted (map snd (dropWhile ?P ?q))" using ok(2) by (simp add: dropWhile_eq_drop drop_map [symmetric])
  have wd: "jwf (dropWhile ?P ?q)"
    using ok(1) by (simp add: jwf_def jkeys_def dropWhile_eq_drop drop_map [symmetric])
  have ge: "\<forall>e \<in> set (dropWhile ?P ?q). t \<le> snd e"
  proof (cases "dropWhile ?P ?q")
    case (Cons e es)
    then have "\<not> ?P e" using hd_dropWhile [of ?P ?q] by (metis list.distinct(1) list.sel(1))
    then show ?thesis using sd unfolding Cons by auto
  next
    case Nil
    then show ?thesis by (simp only: list.set ball_empty)
  qed
  have "drop_in_run s t (dropWhile ?P ?q) = jdel (dropWhile ?P ?q) s"
    by (rule drop_in_run_del [OF wd sd rest ge])
  moreover have "jdel ?q s = takeWhile ?P ?q @ jdel (dropWhile ?P ?q) s"
    using split jdel_absent [OF notin] unfolding jdel_def by (metis filter_append)
  ultimately show ?thesis
    using since take_drop_bsearch [OF prefix_closed_sorted(1) [OF ok(2), of t]]
    by (simp add: removeFromQueue_def Let_def)
qed

lemma removeFromQueue_sinces:
  "queue_ok m \<Longrightarrow> jget (waitingSinces (removeFromQueue s m)) k = (if k = s then None else jget (waitingSinces m) k)"
  by (auto simp: removeFromQueue_def Let_def split: option.splits)

lemma removeFromQueue_ok [inv_intros]: "queue_ok m \<Longrightarrow> queue_ok (removeFromQueue s m)"
  using removeFromQueue_waiting [of m s] removeFromQueue_sinces [of m s]
  by (auto simp: queue_ok_def jdel_def sorted_filter intro: jwf_filter)
     (auto simp: jdel_def [symmetric])

text \<open>
  The reference definition of a stable insertion: after every entry that waits at least as
  long, before the first that came later.
\<close>

definition stable_insert :: "socket_id \<Rightarrow> millis \<Rightarrow> (socket_id \<times> millis) list \<Rightarrow> (socket_id \<times> millis) list" where
  "stable_insert s since q =
     takeWhile (\<lambda>e. snd e \<le> since) q @ (s, since) # dropWhile (\<lambda>e. snd e \<le> since) q"

lemma set_stable_insert [simp]: "set (stable_insert s t q) = insert (s, t) (set q)"
proof -
  have "set q = set (takeWhile (\<lambda>e. snd e \<le> t) q) \<union> set (dropWhile (\<lambda>e. snd e \<le> t) q)"
    by (metis set_append takeWhile_dropWhile_id)
  then show ?thesis by (auto simp: stable_insert_def)
qed

lemma sorted_stable_insert: "sorted (map snd q) \<Longrightarrow> sorted (map snd (stable_insert s t q))"
proof (induction q)
  case Nil
  then show ?case by (simp add: stable_insert_def)
next
  case (Cons e q)
  then have IH: "sorted (map snd (stable_insert s t q))" by simp
  show ?case
  proof (cases "snd e \<le> t")
    case True
    then have eq: "stable_insert s t (e # q) = e # stable_insert s t q" by (simp add: stable_insert_def)
    have "\<forall>x \<in> set (stable_insert s t q). snd e \<le> snd x" using Cons.prems True by auto
    then show ?thesis using IH by (auto simp: eq)
  next
    case False
    then show ?thesis using Cons.prems by (auto simp: stable_insert_def)
  qed
qed

lemma jget_stable_insert: "jget q s = None \<Longrightarrow> jget (stable_insert s t q) k = (if k = s then Some t else jget q k)"
  by (induction q) (auto simp: stable_insert_def split: if_splits)

lemma jwf_stable_insert: "jwf q \<Longrightarrow> jget q s = None \<Longrightarrow> jwf (stable_insert s t q)"
proof (induction q)
  case Nil
  then show ?case by (simp add: stable_insert_def jwf_Cons)
next
  case (Cons e q)
  then have "jwf (stable_insert s t q)" "fst e \<noteq> s" by (auto simp: jwf_Cons split: if_splits)
  then show ?case
    using Cons.prems jget_stable_insert [of q s t] by (auto simp: stable_insert_def jwf_Cons split: if_splits)
qed

lemma addWaiting_waiting:
  assumes "queue_ok m"
  shows "waiting (addWaiting s t m) = stable_insert s t (jdel (waiting m) s)"
proof -
  have ok: "queue_ok (removeFromQueue s m)" using assms by (rule removeFromQueue_ok)
  then have "sorted (map snd (waiting (removeFromQueue s m)))" by (simp add: queue_ok_def)
  from take_drop_bsearch [OF prefix_closed_sorted(2) [OF this, of t]] removeFromQueue_waiting [OF assms, of s]
  show ?thesis by (simp add: addWaiting_def stable_insert_def Let_def)
qed

lemma addWaiting_sinces:
  "queue_ok m \<Longrightarrow> jget (waitingSinces (addWaiting s t m)) k = (if k = s then Some t else jget (waitingSinces m) k)"
  by (simp add: addWaiting_def Let_def removeFromQueue_sinces)

lemma addWaiting_ok [inv_intros]: "queue_ok m \<Longrightarrow> queue_ok (addWaiting s t m)"
  using removeFromQueue_ok [of m s] removeFromQueue_waiting [of m s] addWaiting_waiting [of m s t] addWaiting_sinces [of m s t]
  by (auto simp: queue_ok_def jwf_stable_insert sorted_stable_insert jget_stable_insert)

lemma since_of_add: "queue_ok m \<Longrightarrow> since_of (addWaiting s t m) k = (if k = s then Some t else since_of m k)"
  by (simp add: since_of_def addWaiting_waiting jget_stable_insert)

lemma since_of_remove: "queue_ok m \<Longrightarrow> since_of (removeWaiting s m) k = (if k = s then None else since_of m k)"
  by (simp add: since_of_def removeWaiting_def removeFromQueue_waiting)

lemma listWaiting_iff: "s \<in> set (listWaiting m) \<longleftrightarrow> since_of m s \<noteq> None"
  by (auto simp: listWaiting_def since_of_def jget_None_iff jkeys_def)

lemma filter_stable_insert: "filter (\<lambda>e. fst e \<noteq> s) (stable_insert s t q) = filter (\<lambda>e. fst e \<noteq> s) q"
proof -
  have "filter P q = filter P (takeWhile Q q) @ filter P (dropWhile Q q)" for P Q :: "socket_id \<times> millis \<Rightarrow> bool"
    by (metis filter_append takeWhile_dropWhile_id)
  then show ?thesis by (simp add: stable_insert_def)
qed

lemma filter_listWaiting:
  "filter (\<lambda>x. x \<noteq> s) (map fst q) = map fst (filter (\<lambda>e. fst e \<noteq> s) q)"
  by (induction q) auto

section \<open>The contract of the queue\<close>

text \<open>
  What \<open>MatchStore.ts\<close> promises of the waiting queue: oldest first, one entry per socket,
  adding re-scores a socket, and no operation reorders the others.
\<close>

locale wait_queue =
  fixes list :: "'q \<Rightarrow> socket_id list"
    and since :: "'q \<Rightarrow> socket_id \<Rightarrow> millis option"
    and add :: "socket_id \<Rightarrow> millis \<Rightarrow> 'q \<Rightarrow> 'q"
    and remove :: "socket_id \<Rightarrow> 'q \<Rightarrow> 'q"
    and ok :: "'q \<Rightarrow> bool"
  assumes list_distinct: "ok q \<Longrightarrow> distinct (list q)"
    and list_sorted: "ok q \<Longrightarrow> sorted_wrt (\<lambda>a b. the (since q a) \<le> the (since q b)) (list q)"
    and list_since: "ok q \<Longrightarrow> s \<in> set (list q) \<longleftrightarrow> since q s \<noteq> None"
    and since_add: "ok q \<Longrightarrow> since (add s t q) k = (if k = s then Some t else since q k)"
    and since_remove: "ok q \<Longrightarrow> since (remove s q) k = (if k = s then None else since q k)"
    and order_add: "ok q \<Longrightarrow> filter (\<lambda>x. x \<noteq> s) (list (add s t q)) = filter (\<lambda>x. x \<noteq> s) (list q)"
    and order_remove: "ok q \<Longrightarrow> list (remove s q) = filter (\<lambda>x. x \<noteq> s) (list q)"
    and ok_add: "ok q \<Longrightarrow> ok (add s t q)"
    and ok_remove: "ok q \<Longrightarrow> ok (remove s q)"
begin

lemma in_add: "ok q \<Longrightarrow> set (list (add s t q)) = insert s (set (list q))"
  using list_since [of "add s t q"] list_since [of q] ok_add [of q s t] by (auto simp: since_add split: if_splits)

lemma in_remove: "ok q \<Longrightarrow> set (list (remove s q)) = set (list q) - {s}"
  by (auto simp: order_remove)

lemma count_add: "ok q \<Longrightarrow> length (list (add s t q)) = (if since q s = None then Suc (length (list q)) else length (list q))"
  using distinct_card [OF list_distinct [of q]] distinct_card [OF list_distinct [OF ok_add [of q s t]]]
    in_add [of q s t] list_since [of q s]
  by (auto simp: insert_absorb card_insert_if)

text \<open>A socket queued at the current time goes behind everyone who waits already.\<close>

lemma add_last:
  assumes "ok q" "\<And>x t'. since q x = Some t' \<Longrightarrow> t' < t" "since q s = None"
  shows "list (add s t q) = list q @ [s]"
proof -
  let ?l = "list (add s t q)"
  have s: "s \<in> set ?l" using assms(1) by (simp add: in_add)
  have d: "distinct ?l" and o: "sorted_wrt (\<lambda>a b. the (since (add s t q) a) \<le> the (since (add s t q) b)) ?l"
    using assms(1) ok_add list_distinct list_sorted by blast+
  obtain us vs where l: "?l = us @ s # vs" using s by (meson split_list)
  have "vs = []"
  proof (rule ccontr)
    assume "vs \<noteq> []"
    then obtain v where v: "v \<in> set vs" by (meson last_in_set)
    then have "v \<noteq> s" using d l by auto
    have "v \<in> set ?l" using v l by simp
    then have "v \<in> set (list q)" using \<open>v \<noteq> s\<close> assms(1) by (simp add: in_add)
    then obtain t' where t': "since q v = Some t'" using list_since [OF assms(1)] by auto
    have "the (since (add s t q) s) \<le> the (since (add s t q) v)"
      using o l v by (auto simp: sorted_wrt_append)
    then show False using assms(2) [OF t'] t' \<open>v \<noteq> s\<close> by (simp add: since_add [OF assms(1)])
  qed
  have "filter (\<lambda>x. x \<noteq> s) ?l = us" using l \<open>vs = []\<close> d by (auto simp: filter_id_conv)
  moreover have "filter (\<lambda>x. x \<noteq> s) (list q) = list q"
    using list_since [OF assms(1), of s] assms(3) by (auto simp: filter_id_conv)
  ultimately show ?thesis using order_add [OF assms(1), of s t] l \<open>vs = []\<close> by simp
qed

end

lemma sorted_wrt_since:
  assumes "jwf q" "sorted (map snd q)"
  shows "sorted_wrt (\<lambda>a b. the (jget q a) \<le> (the (jget q b) :: int)) (map fst q)"
proof -
  have val: "the (jget q (fst e)) = snd e" if "e \<in> set q" for e
    using in_jget [OF assms(1), of "fst e" "snd e"] that by simp
  have "sorted_wrt (\<lambda>x y. snd x \<le> snd y) q" using assms(2) by (simp add: sorted_wrt_map)
  then have "sorted_wrt (\<lambda>x y. the (jget q (fst x)) \<le> the (jget q (fst y))) q"
    by (rule sorted_wrt_mono_rel [rotated]) (simp add: val)
  then show ?thesis by (simp add: sorted_wrt_map)
qed

interpretation wq: wait_queue listWaiting since_of addWaiting removeWaiting queue_ok
proof
  show "queue_ok q \<Longrightarrow> distinct (listWaiting q)" for q
    by (simp add: queue_ok_def listWaiting_def jwf_def jkeys_def)
  show "queue_ok q \<Longrightarrow> sorted_wrt (\<lambda>a b. the (since_of q a) \<le> the (since_of q b)) (listWaiting q)" for q
    unfolding queue_ok_def listWaiting_def since_of_def by (elim conjE) (rule sorted_wrt_since)
  show "queue_ok q \<Longrightarrow> (s \<in> set (listWaiting q)) = (since_of q s \<noteq> None)" for q s
    by (rule listWaiting_iff)
  show "queue_ok q \<Longrightarrow> since_of (addWaiting s t q) k = (if k = s then Some t else since_of q k)" for q s t k
    by (rule since_of_add)
  show "queue_ok q \<Longrightarrow> since_of (removeWaiting s q) k = (if k = s then None else since_of q k)" for q s k
    by (rule since_of_remove)
  show "queue_ok q \<Longrightarrow> filter (\<lambda>x. x \<noteq> s) (listWaiting (addWaiting s t q)) = filter (\<lambda>x. x \<noteq> s) (listWaiting q)" for q s t
    by (simp add: listWaiting_def addWaiting_waiting filter_listWaiting filter_stable_insert) (simp add: jdel_def)
  show "queue_ok q \<Longrightarrow> listWaiting (removeWaiting s q) = filter (\<lambda>x. x \<noteq> s) (listWaiting q)" for q s
    by (simp add: listWaiting_def removeWaiting_def removeFromQueue_waiting filter_listWaiting jdel_def)
  show "queue_ok q \<Longrightarrow> queue_ok (addWaiting s t q)" for q s t by (rule addWaiting_ok)
  show "queue_ok q \<Longrightarrow> queue_ok (removeWaiting s q)" for q s by (simp add: removeWaiting_def removeFromQueue_ok)
qed

end
