(* ===== verification/SessionLimits.thy ===== *)
theory SessionLimits
  imports Geo WaitQueue
begin

text \<open>
  The key-value store of the session gate (\<open>backend/src/session/MemoryKv.ts\<close>, contract
  \<open>SessionKv.ts\<close>), the lockouts, rate limits and match caps over it
  (\<open>backend/src/session/limits.ts\<close>) and the queue gate (\<open>backend/src/session/queueGate.ts\<close>).
  The salted HMAC of \<open>node:crypto\<close> is the parameter \<open>h\<close>, from a salt and a text to a hex string.
\<close>

section \<open>The key-value store\<close>

text \<open>
  The key builders (\<open>KEY\<close> in \<open>session/constants.ts\<close>) as constructors: their prefixes differ
  and neither a device id (a UUID), a hex hash nor a number holds a colon, so two key strings are
  equal exactly when builder and fields are.
\<close>

datatype kv_key =
  DeviceLockout string
| FingerprintLockout string
| IpRate string int
| NetworkRate string int
| CapIpOf device_id
| CapDevice device_id int
| CapDeviceMinute device_id int
| CapIp string int
| NewDevices string int
| NewDeviceSeen string int string

text \<open>Values are strings; \<open>String(n)\<close> of a counter is kept as the number it reads back to.\<close>

datatype kv_value = Num nat | Text string

record kv =
  kv_data :: "(kv_key, kv_value \<times> millis) jmap"
  kv_ops :: nat

definition PRUNE_EVERY_OPS :: nat where "PRUNE_EVERY_OPS = 1000"

definition new_kv :: kv where "new_kv = \<lparr>kv_data = [], kv_ops = 0\<rparr>"

definition kv_live :: "millis \<Rightarrow> kv \<Rightarrow> kv_key \<Rightarrow> kv_value option" where
  "kv_live now s k = live now (kv_data s) k"

definition kv_prune :: "millis \<Rightarrow> kv \<Rightarrow> kv" where
  "kv_prune now s =
     (let n = kv_ops s + 1 in
      if n mod PRUNE_EVERY_OPS \<noteq> 0 then s\<lparr>kv_ops := n\<rparr>
      else s\<lparr>kv_ops := n, kv_data := keep_live now (kv_data s)\<rparr>)"

text \<open>\<open>Number(value)\<close>; of a text it is not a number, which no comparison holds of.\<close>

definition kv_number :: "kv_value \<Rightarrow> nat option" where
  "kv_number v = (case v of Num n \<Rightarrow> Some n | Text _ \<Rightarrow> None)"

definition kv_incr :: "millis \<Rightarrow> kv_key \<Rightarrow> millis \<Rightarrow> kv \<Rightarrow> kv \<times> nat option" where
  "kv_incr now k ttlMs s =
     (let entry = kv_live now s k;
          v = (case entry of None \<Rightarrow> Some 1 | Some x \<Rightarrow> map_option Suc (kv_number x));
          expiry = (case entry of None \<Rightarrow> now + ttlMs
                    | Some _ \<Rightarrow> (case jget (kv_data s) k of Some (_, e) \<Rightarrow> e | None \<Rightarrow> now + ttlMs));
          stored = (case v of Some n \<Rightarrow> Num n | None \<Rightarrow> Text ''NaN'') in
      (kv_prune now (s\<lparr>kv_data := jset (kv_data s) k (stored, expiry)\<rparr>), v))"

definition kv_get :: "millis \<Rightarrow> kv \<Rightarrow> kv_key \<Rightarrow> kv_value option" where
  "kv_get now s k = kv_live now s k"

definition kv_set :: "millis \<Rightarrow> kv \<Rightarrow> kv_key \<Rightarrow> kv_value \<Rightarrow> millis \<Rightarrow> kv" where
  "kv_set now s k v ttlMs = kv_prune now (s\<lparr>kv_data := jset (kv_data s) k (v, now + ttlMs)\<rparr>)"

definition kv_mget :: "millis \<Rightarrow> kv \<Rightarrow> kv_key list \<Rightarrow> kv_value option list" where
  "kv_mget now s ks = map (kv_live now s) ks"

definition kv_ok :: "kv \<Rightarrow> bool" where "kv_ok s \<longleftrightarrow> jwf (kv_data s)"

lemma kv_live_prune [simp]: "kv_ok s \<Longrightarrow> now \<le> t \<Longrightarrow> kv_live t (kv_prune now s) k = kv_live t s k"
  by (simp add: kv_live_def kv_prune_def kv_ok_def Let_def live_keep_live)

lemma kv_prune_ok: "kv_ok s \<Longrightarrow> kv_ok (kv_prune now s)"
  by (simp add: kv_ok_def kv_prune_def Let_def)

lemma kv_ok_upd: "kv_ok s \<Longrightarrow> kv_ok (s\<lparr>kv_data := jset (kv_data s) k e\<rparr>)"
  by (simp add: kv_ok_def)

lemma kv_set_ok [inv_intros]: "kv_ok s \<Longrightarrow> kv_ok (kv_set now s k v ttl)"
  by (simp add: kv_set_def kv_prune_ok kv_ok_upd)

lemma kv_incr_ok [inv_intros]: "kv_ok s \<Longrightarrow> kv_ok (fst (kv_incr now k ttl s))"
  by (simp add: kv_incr_def Let_def kv_prune_ok kv_ok_upd)

lemma kv_get_set:
  "kv_ok s \<Longrightarrow> now \<le> t \<Longrightarrow>
   kv_get t (kv_set now s k v ttl) j = (if j = k then (if now + ttl \<le> t then None else Some v) else kv_get t s j)"
  by (simp add: kv_get_def kv_set_def kv_ok_upd) (simp add: kv_live_def)

interpretation kvs: expiring_store kv_get kv_set kv_ok
  by unfold_locales (auto intro: kv_set_ok simp: kv_get_set)

lemma kv_incr_other: "kv_ok s \<Longrightarrow> now \<le> t \<Longrightarrow> j \<noteq> k \<Longrightarrow> kv_live t (fst (kv_incr now k ttl s)) j = kv_live t s j"
  by (simp add: kv_incr_def Let_def kv_ok_upd) (simp add: kv_live_def)

lemma kv_incr_fresh:
  "kv_ok s \<Longrightarrow> kv_live now s k = None \<Longrightarrow> now \<le> t \<Longrightarrow> t < now + ttl \<Longrightarrow>
   kv_live t (fst (kv_incr now k ttl s)) k = Some (Num 1)"
  by (simp add: kv_incr_def Let_def kv_ok_upd) (simp add: kv_live_def)

text \<open>A counter counts while its window is open, and keeps the expiry of its first increment.\<close>

lemma kv_incr_again:
  assumes "kv_ok s" "jget (kv_data s) k = Some (Num n, e)" "now < e" "now \<le> t" "t < e"
  shows "kv_live t (fst (kv_incr now k ttl s)) k = Some (Num (Suc n))"
    and "snd (kv_incr now k ttl s) = Some (Suc n)"
proof -
  have l: "kv_live now s k = Some (Num n)" using assms(2,3) by (simp add: kv_live_def live_def)
  show "snd (kv_incr now k ttl s) = Some (Suc n)" by (simp add: kv_incr_def Let_def l kv_number_def)
  show "kv_live t (fst (kv_incr now k ttl s)) k = Some (Num (Suc n))"
    using assms by (simp add: kv_incr_def Let_def l kv_number_def kv_ok_upd) (simp add: kv_live_def)
qed

section \<open>Lockouts and session rate limits\<close>

type_synonym salt = string
type_synonym hasher = "salt \<Rightarrow> string \<Rightarrow> string"

definition DAY_MS :: millis where "DAY_MS = 86400000"
definition DEVICE_LOCKOUT_MS :: millis where "DEVICE_LOCKOUT_MS = 365 * DAY_MS"
definition FINGERPRINT_LOCKOUT_MS :: millis where "FINGERPRINT_LOCKOUT_MS = 30 * DAY_MS"
definition SESSION_RATE_WINDOW_MS :: millis where "SESSION_RATE_WINDOW_MS = 60000"
definition MATCH_CAP_WINDOW_MS :: millis where "MATCH_CAP_WINDOW_MS = 3600000"
definition MATCH_CAP_MINUTE_WINDOW_MS :: millis where "MATCH_CAP_MINUTE_WINDOW_MS = 60000"
definition MATCH_CAP_IP_BINDING_TTL_MS :: millis where "MATCH_CAP_IP_BINDING_TTL_MS = DAY_MS"
definition NEW_DEVICE_WINDOW_MS :: millis where "NEW_DEVICE_WINDOW_MS = DAY_MS"

definition lockout_keys :: "hasher \<Rightarrow> net_lib \<Rightarrow> salt \<Rightarrow> device_id \<Rightarrow> string \<Rightarrow> string \<Rightarrow> kv_key \<times> kv_key" where
  "lockout_keys h net salt d fingerprint ip =
     (DeviceLockout (h salt (''device:'' @ d)),
      FingerprintLockout (h salt (''fingerprint:'' @ fingerprint @ '':'' @ b_network (ipBuckets net ip))))"

definition isLocked :: "hasher \<Rightarrow> net_lib \<Rightarrow> salt list \<Rightarrow> millis \<Rightarrow> kv \<Rightarrow> device_id \<Rightarrow> string \<Rightarrow> string \<Rightarrow> bool" where
  "isLocked h net salts now s d fingerprint ip =
     (let keys = concat (map (\<lambda>salt. let (a, b) = lockout_keys h net salt d fingerprint ip in [a, b]) salts) in
      list_ex (\<lambda>v. v \<noteq> None) (kv_mget now s keys))"

text \<open>\<open>date\<close> is today's UTC date. The signer refuses an empty secret list, so there is a first salt.\<close>

definition lock :: "hasher \<Rightarrow> net_lib \<Rightarrow> salt list \<Rightarrow> millis \<Rightarrow> string \<Rightarrow> device_id \<Rightarrow> string \<Rightarrow> string \<Rightarrow> kv \<Rightarrow> kv" where
  "lock h net salts now date d fingerprint ip s =
     (case salts of
        [] \<Rightarrow> s
      | salt # _ \<Rightarrow>
          let (device, fp) = lockout_keys h net salt d fingerprint ip in
          kv_set now (kv_set now s device (Text date) DEVICE_LOCKOUT_MS) fp (Text date) FINGERPRINT_LOCKOUT_MS)"

definition at_most :: "nat option \<Rightarrow> nat \<Rightarrow> bool" where
  "at_most v limit = (case v of Some n \<Rightarrow> n \<le> limit | None \<Rightarrow> False)"

definition at_least :: "kv_value option \<Rightarrow> nat \<Rightarrow> bool" where
  "at_least v limit = (case v of None \<Rightarrow> limit = 0 | Some x \<Rightarrow> (case kv_number x of Some n \<Rightarrow> limit \<le> n | None \<Rightarrow> False))"

record session_rate_limits =
  perIpPerMinute :: nat
  perNetworkPerMinute :: nat

definition rate_allow ::
  "hasher \<Rightarrow> net_lib \<Rightarrow> salt \<Rightarrow> session_rate_limits \<Rightarrow> millis \<Rightarrow> string \<Rightarrow> kv \<Rightarrow> kv \<times> bool" where
  "rate_allow h net salt limits now rawIp s =
     (let b = ipBuckets net rawIp; w = now div SESSION_RATE_WINDOW_MS;
          (s1, perIp) = kv_incr now (IpRate (h salt (b_ip b)) w) SESSION_RATE_WINDOW_MS s;
          (s2, perNet) = kv_incr now (NetworkRate (h salt (b_network b)) w) SESSION_RATE_WINDOW_MS s1 in
      (s2, at_most perIp (perIpPerMinute limits) \<and> at_most perNet (perNetworkPerMinute limits)))"

definition new_device_admit :: "hasher \<Rightarrow> net_lib \<Rightarrow> salt \<Rightarrow> nat \<Rightarrow> millis \<Rightarrow> device_id \<Rightarrow> string \<Rightarrow> kv \<Rightarrow> kv \<times> bool" where
  "new_device_admit h net salt perNetworkPerDay now d rawIp s =
     (let day = now div NEW_DEVICE_WINDOW_MS;
          ttl = (day + 1) * NEW_DEVICE_WINDOW_MS - now;
          n = h salt (b_ip (ipBuckets net rawIp));
          seenKey = NewDeviceSeen n day (h salt (''device:'' @ d)) in
      if kv_live now s seenKey \<noteq> None then (s, True)
      else if at_least (kv_live now s (NewDevices n day)) perNetworkPerDay then (s, False)
      else
        let s1 = fst (kv_incr now (NewDevices n day) ttl s) in
        (kv_set now s1 seenKey (Num 1) ttl, True))"

definition retryAfterSec :: "millis \<Rightarrow> int" where
  "retryAfterSec now = (NEW_DEVICE_WINDOW_MS - now mod NEW_DEVICE_WINDOW_MS + 999) div 1000"

section \<open>Match caps\<close>

record match_cap_limits =
  perDevicePerHour :: nat
  perIpPerHour :: nat
  perDevicePerMinute :: nat

datatype match_cap_hit = HourHit | MinuteHit

definition cap_hour :: "millis \<Rightarrow> int" where "cap_hour now = now div MATCH_CAP_WINDOW_MS"
definition cap_minute :: "millis \<Rightarrow> int" where "cap_minute now = now div MATCH_CAP_MINUTE_WINDOW_MS"

definition bindIp :: "hasher \<Rightarrow> net_lib \<Rightarrow> salt \<Rightarrow> millis \<Rightarrow> device_id \<Rightarrow> string \<Rightarrow> kv \<Rightarrow> kv" where
  "bindIp h net salt now d rawIp s =
     kv_set now s (CapIpOf d) (Text (h salt (b_ip (ipBuckets net rawIp)))) MATCH_CAP_IP_BINDING_TTL_MS"

text \<open>The bound hash; an empty string counts as none.\<close>

definition bound_ip :: "millis \<Rightarrow> kv \<Rightarrow> device_id \<Rightarrow> string option" where
  "bound_ip now s d =
     (case kv_get now s (CapIpOf d) of Some (Text t) \<Rightarrow> if t = '''' then None else Some t
      | Some (Num n) \<Rightarrow> Some (show_nat n) | None \<Rightarrow> None)"

definition overCap :: "match_cap_limits \<Rightarrow> millis \<Rightarrow> kv \<Rightarrow> device_id \<Rightarrow> bool \<Rightarrow> match_cap_hit option" where
  "overCap limits now s d skips =
     (let hour = cap_hour now;
          byDevice = kv_live now s (CapDevice d hour);
          byMinute = kv_live now s (CapDeviceMinute d (cap_minute now));
          byIp = (case bound_ip now s d of Some ip \<Rightarrow> kv_live now s (CapIp ip hour) | None \<Rightarrow> None) in
      if at_least byDevice (perDevicePerHour limits) \<or> at_least byIp (perIpPerHour limits) then Some HourHit
      else if skips \<and> at_least byMinute (perDevicePerMinute limits) then Some MinuteHit
      else None)"

definition recordMatch :: "millis \<Rightarrow> device_id \<Rightarrow> kv \<Rightarrow> kv" where
  "recordMatch now d s =
     (let hour = cap_hour now; ipHash = bound_ip now s d;
          s1 = fst (kv_incr now (CapDevice d hour) MATCH_CAP_WINDOW_MS s) in
      case ipHash of Some ip \<Rightarrow> fst (kv_incr now (CapIp ip hour) MATCH_CAP_WINDOW_MS s1) | None \<Rightarrow> s1)"

definition recordSkip :: "millis \<Rightarrow> device_id \<Rightarrow> kv \<Rightarrow> kv" where
  "recordSkip now d s = fst (kv_incr now (CapDeviceMinute d (cap_minute now)) MATCH_CAP_MINUTE_WINDOW_MS s)"

lemma recordMatch_ok [inv_intros]: "kv_ok s \<Longrightarrow> kv_ok (recordMatch now d s)"
  by (auto simp: recordMatch_def Let_def intro!: kv_incr_ok split: option.splits)

lemma recordSkip_ok [inv_intros]: "kv_ok s \<Longrightarrow> kv_ok (recordSkip now d s)"
  by (simp add: recordSkip_def kv_incr_ok)

text \<open>
  Windows are fixed: a counter's entry outlives the window of its first increment, so within
  one window it counts every increment. \<open>counted s k W w now n\<close>: from \<open>now\<close> to the end of
  window \<open>w\<close> (of length \<open>W\<close>) the counter \<open>k\<close> reads \<open>n\<close>.
\<close>

definition counted :: "kv \<Rightarrow> kv_key \<Rightarrow> millis \<Rightarrow> int \<Rightarrow> millis \<Rightarrow> nat \<Rightarrow> bool" where
  "counted s k W w now n \<longleftrightarrow>
     (\<forall>t. now \<le> t \<and> t div W = w \<longrightarrow> kv_live t s k = (if n = 0 then None else Some (Num n)))"

lemma same_window_less: "0 < W \<Longrightarrow> t div W = now div W \<Longrightarrow> t < now + W" for t now W :: int
proof -
  assume W: "0 < W" and eq: "t div W = now div W"
  have "t = W * (now div W) + t mod W" by (metis eq mult_div_mod_eq)
  moreover have "now = W * (now div W) + now mod W" by simp
  moreover have "t mod W < W" "0 \<le> now mod W" using W by simp_all
  ultimately show "t < now + W" by linarith
qed

lemma counted_incr:
  assumes "kv_ok s" "0 < W" "now div W = w" "counted s k W w now n"
  shows "counted (fst (kv_incr now k W s)) k W w now (Suc n)"
proof (cases "n = 0")
  case True
  then have "kv_live now s k = None" using assms(3,4) by (simp add: counted_def)
  then show ?thesis
    using kv_incr_fresh [OF assms(1)] same_window_less [OF assms(2)] assms(3) True by (simp add: counted_def)
next
  case False
  then have "kv_live now s k = Some (Num n)" using assms(3,4) by (simp add: counted_def)
  then obtain e where e: "jget (kv_data s) k = Some (Num n, e)" "now < e"
    by (auto simp: kv_live_def live_def split: option.splits if_splits)
  have "t < e" if "now \<le> t" "t div W = w" for t
    using assms(4) that False e(1) by (auto simp: counted_def kv_live_def live_def split: if_splits)
  then show ?thesis using kv_incr_again(1) [OF assms(1) e] by (simp add: counted_def)
qed

lemma counted_incr_other:
  "kv_ok s \<Longrightarrow> counted s k W w now n \<Longrightarrow> k \<noteq> j \<Longrightarrow> counted (fst (kv_incr now j ttl s)) k W w now n"
  by (simp add: counted_def kv_incr_other)

lemma counted_later: "counted s k W w now n \<Longrightarrow> now \<le> now' \<Longrightarrow> counted s k W w now' n"
  by (simp add: counted_def)

lemma counted_recordMatch:
  assumes "kv_ok s" "cap_hour now = w" "counted s (CapDevice d w) MATCH_CAP_WINDOW_MS w now n"
  shows "counted (recordMatch now d s) (CapDevice d w) MATCH_CAP_WINDOW_MS w now (Suc n)"
proof -
  have "counted (fst (kv_incr now (CapDevice d w) MATCH_CAP_WINDOW_MS s)) (CapDevice d w) MATCH_CAP_WINDOW_MS w now (Suc n)"
    using counted_incr [OF assms(1) _ _ assms(3)] assms(2) by (simp add: cap_hour_def MATCH_CAP_WINDOW_MS_def)
  then show ?thesis
    using assms(1,2) by (auto simp: recordMatch_def Let_def kv_incr_ok intro!: counted_incr_other split: option.splits)
qed

text \<open>The matches a device is in at the given times, in order.\<close>

definition record_matches :: "device_id \<Rightarrow> millis list \<Rightarrow> kv \<Rightarrow> kv" where
  "record_matches d ts s = fold (\<lambda>t. recordMatch t d) ts s"

lemma counted_record_matches:
  assumes "kv_ok s" "sorted (now # ts)" "\<forall>t \<in> set (now # ts). cap_hour t = w"
    "counted s (CapDevice d w) MATCH_CAP_WINDOW_MS w now n"
  shows "counted (record_matches d ts s) (CapDevice d w) MATCH_CAP_WINDOW_MS w (last (now # ts)) (n + length ts)"
  using assms
proof (induction ts arbitrary: s now n)
  case Nil
  then show ?case by (simp add: record_matches_def)
next
  case (Cons t ts)
  have "counted s (CapDevice d w) MATCH_CAP_WINDOW_MS w t n"
    using Cons.prems(2,4) by (auto intro: counted_later)
  then have "counted (recordMatch t d s) (CapDevice d w) MATCH_CAP_WINDOW_MS w t (Suc n)"
    using counted_recordMatch Cons.prems(1,3) by simp
  then show ?case
    using Cons.IH [of "recordMatch t d s" t "Suc n"] Cons.prems recordMatch_ok [of s t d]
    by (simp add: record_matches_def)
qed

section \<open>The queue gate\<close>

datatype refusal_error = RefusedClosed | RefusedRate

record queue_refusal =
  q_error :: refusal_error
  q_message :: string

definition CAP_MESSAGE :: string where
  "CAP_MESSAGE = ''You have had a lot of matches this hour. Take a break and try again later.''"
definition MINUTE_CAP_MESSAGE :: string where
  "MINUTE_CAP_MESSAGE = ''You are skipping very fast. Wait a minute and try again.''"
definition FULL_MESSAGE :: string where
  "FULL_MESSAGE = ''A lot of people are waiting right now. Try again in a few minutes.''"
definition CLOSED_MESSAGE :: string where "CLOSED_MESSAGE = ''Matching is closed right now.''"

text \<open>Reasons of a re-queue the device did not cause.\<close>

definition passive_requeue :: "match_end_reason \<Rightarrow> bool" where
  "passive_requeue r \<longleftrightarrow> r \<in> {PartnerSkipped, PartnerLeft, PartnerDeclined}"

definition precheck :: "time_zones \<Rightarrow> flags_reader \<Rightarrow> millis \<Rightarrow> store \<Rightarrow> queue_refusal option" where
  "precheck tz fr now m =
     (let st = snd (status tz now fr); f = current fr in
      if \<not> is_open st then
        let hours = describeStaffedHours tz (staffed_hours f);
            msg = (case message st of Some t \<Rightarrow> t
                   | None \<Rightarrow> (case hours of Some hrs \<Rightarrow> ''Matching is open '' @ hrs @ ''. See you then.'' | None \<Rightarrow> CLOSED_MESSAGE)) in
        Some \<lparr>q_error = RefusedClosed, q_message = msg\<rparr>
      else if waitingCount m \<ge> max_waiting f then Some \<lparr>q_error = RefusedClosed, q_message = FULL_MESSAGE\<rparr>
      else None)"

definition gate_check :: "match_cap_limits \<Rightarrow> millis \<Rightarrow> kv \<Rightarrow> device_id \<Rightarrow> bool \<Rightarrow> queue_refusal option" where
  "gate_check limits now s d skips =
     (case overCap limits now s d skips of
        None \<Rightarrow> None
      | Some hit \<Rightarrow> Some \<lparr>q_error = RefusedRate, q_message = (if hit = MinuteHit then MINUTE_CAP_MESSAGE else CAP_MESSAGE)\<rparr>)"

definition admit ::
  "time_zones \<Rightarrow> match_cap_limits \<Rightarrow> flags_reader \<Rightarrow> millis \<Rightarrow> store \<Rightarrow> kv \<Rightarrow> device_id \<Rightarrow> queue_refusal option" where
  "admit tz limits fr now m s d =
     (case precheck tz fr now m of Some r \<Rightarrow> Some r | None \<Rightarrow> gate_check limits now s d True)"

definition requeue :: "match_cap_limits \<Rightarrow> millis \<Rightarrow> kv \<Rightarrow> device_id \<Rightarrow> match_end_reason \<Rightarrow> queue_refusal option" where
  "requeue limits now s d reason = gate_check limits now s d (\<not> passive_requeue reason)"

text \<open>Being skipped never idles a device on the per-minute cap.\<close>

lemma requeue_passive:
  "passive_requeue reason \<Longrightarrow> requeue limits now s d reason = Some r \<Longrightarrow>
   overCap limits now s d False = Some HourHit \<and> q_message r = CAP_MESSAGE"
  by (auto simp: requeue_def gate_check_def overCap_def Let_def split: option.splits if_splits)

lemma admit_None:
  "admit tz limits fr now m s d = None \<longleftrightarrow>
   precheck tz fr now m = None \<and> overCap limits now s d True = None"
  by (auto simp: admit_def gate_check_def split: option.splits)

end
