(* ===== verification/Wallet.thy ===== *)
theory Wallet
  imports MemoryStore Flags
begin

text \<open>
  The wallet store of a single instance (\<open>MemoryWalletStore\<close> in
  \<open>backend/src/billing/WalletStore.ts\<close>): the coin ledger, the premium unlocks, the claims that
  make a payment count once, and the orders. The balance itself is the coin map of the match
  store, which every operation here takes beside the wallet.
\<close>

section \<open>State\<close>

datatype ledger_reason = Earned | Purchase | UnlockSpend | AdminAdjust

datatype ledger_ref = RoomRef uuid | TextRef string | NoRef

record ledger_entry =
  le_id :: uuid
  le_deviceId :: device_id
  le_delta :: int
  le_reason :: ledger_reason
  le_ref :: ledger_ref
  le_at :: millis

datatype order_status = Created | Paid

record billing_order =
  o_orderId :: string
  o_deviceId :: device_id
  o_packId :: string
  o_coins :: int
  o_amount :: int
  o_currency :: string
  o_status :: order_status
  o_paymentId :: "string option"
  o_createdAt :: millis
  o_paidAt :: "millis option"

record wallet =
  ledger :: "(device_id, ledger_entry list \<times> millis) jmap"
  unlocks :: "(device_id, (premium_feature, millis) jmap \<times> millis) jmap"
  claims :: "(string, millis) jmap"
  sweepAt_ledger :: nat
  sweepAt_unlocks :: nat
  sweepAt_claims :: nat
  orders :: "(string, billing_order) jmap"
  unpaid :: "(string, millis) jmap"
  ledger_ids :: uuid

definition LEDGER_MAX :: nat where "LEDGER_MAX = 200"
definition ORDERS_MAX :: nat where "ORDERS_MAX = 2000"
definition UNPAID_ORDER_TTL_MS :: millis where "UNPAID_ORDER_TTL_MS = 86400000"
definition CLAIM_TTL_MS :: millis where "CLAIM_TTL_MS = 2 * 365 * 86400000"
definition WALLET_IDLE_TTL_MS :: millis where "WALLET_IDLE_TTL_MS = 365 * 86400000"

definition new_wallet :: wallet where
  "new_wallet = \<lparr>ledger = [], unlocks = [], claims = [], sweepAt_ledger = 1024, sweepAt_unlocks = 1024,
     sweepAt_claims = 1024, orders = [], unpaid = [], ledger_ids = 0\<rparr>"

section \<open>Ledger\<close>

text \<open>\<open>sweep\<close>: past \<open>at\<close> entries, drop the lapsed ones and set the next threshold.\<close>

definition sweep_map :: "nat \<Rightarrow> ('v \<Rightarrow> bool) \<Rightarrow> ('k, 'v) jmap \<Rightarrow> nat \<times> ('k, 'v) jmap" where
  "sweep_map sweep_at alive m =
     (if length m < sweep_at then (sweep_at, m)
      else let m' = jkeep alive m in (max 1024 (length m' * 2), m'))"

definition ledger_of :: "millis \<Rightarrow> wallet \<Rightarrow> device_id \<Rightarrow> ledger_entry list" where
  "ledger_of now u d = (case live now (ledger u) d of Some es \<Rightarrow> es | None \<Rightarrow> [])"

definition appendLedger :: "millis \<Rightarrow> ledger_entry \<Rightarrow> wallet \<Rightarrow> wallet" where
  "appendLedger now e u =
     (let entries = take LEDGER_MAX (e # ledger_of now u (le_deviceId e));
          l = jset (ledger u) (le_deviceId e) (entries, now + WALLET_IDLE_TTL_MS);
          (n, l') = sweep_map (sweepAt_ledger u) (\<lambda>v. now < snd v) l in
      u\<lparr>ledger := l', sweepAt_ledger := n\<rparr>)"

definition listLedger :: "millis \<Rightarrow> wallet \<Rightarrow> device_id \<Rightarrow> nat \<Rightarrow> ledger_entry list" where
  "listLedger now u d limit = take limit (ledger_of now u d)"

section \<open>Unlocks\<close>

definition features_of :: "millis \<Rightarrow> wallet \<Rightarrow> device_id \<Rightarrow> (premium_feature, millis) jmap" where
  "features_of now u d = (case live now (unlocks u) d of Some fs \<Rightarrow> fs | None \<Rightarrow> [])"

definition getUnlock :: "millis \<Rightarrow> wallet \<Rightarrow> device_id \<Rightarrow> premium_feature \<Rightarrow> millis option" where
  "getUnlock now u d f = jget (features_of now u d) f"

definition putUnlock :: "millis \<Rightarrow> device_id \<Rightarrow> premium_feature \<Rightarrow> millis \<Rightarrow> wallet \<Rightarrow> wallet" where
  "putUnlock now d f expiry u =
     (let fs = jset (features_of now u d) f expiry;
          us = jset (unlocks u) d (fs, Max (set (jvals fs)) + WALLET_IDLE_TTL_MS);
          (n, us') = sweep_map (sweepAt_unlocks u) (\<lambda>v. now < snd v) us in
      u\<lparr>unlocks := us', sweepAt_unlocks := n\<rparr>)"

definition setUnlock :: "millis \<Rightarrow> device_id \<Rightarrow> premium_feature \<Rightarrow> millis \<Rightarrow> wallet \<Rightarrow> wallet" where
  "setUnlock now d f expiry u = putUnlock now d f expiry u"

definition extendUnlock :: "millis \<Rightarrow> device_id \<Rightarrow> premium_feature \<Rightarrow> millis \<Rightarrow> wallet \<Rightarrow> wallet \<times> millis" where
  "extendUnlock now d f ms u =
     (let expiry = max now (case getUnlock now u d f of Some t \<Rightarrow> t | None \<Rightarrow> 0) + ms in
      (putUnlock now d f expiry u, expiry))"

definition listUnlocks :: "millis \<Rightarrow> wallet \<Rightarrow> device_id \<Rightarrow> (premium_feature, millis) jmap" where
  "listUnlocks now u d = features_of now u d"

section \<open>Claims\<close>

definition claimOnce :: "millis \<Rightarrow> string \<Rightarrow> wallet \<Rightarrow> wallet \<times> bool" where
  "claimOnce now k u =
     (if (case jget (claims u) k of Some t \<Rightarrow> t | None \<Rightarrow> 0) > now then (u, False)
      else
        let cs = jset (claims u) k (now + CLAIM_TTL_MS);
            (n, cs') = sweep_map (sweepAt_claims u) (\<lambda>t. now < t) cs in
        (u\<lparr>claims := cs', sweepAt_claims := n\<rparr>, True))"

definition releaseClaim :: "string \<Rightarrow> wallet \<Rightarrow> wallet" where
  "releaseClaim k u = u\<lparr>claims := jdel (claims u) k\<rparr>"

section \<open>Orders\<close>

definition drop_order :: "string \<Rightarrow> wallet \<Rightarrow> wallet" where
  "drop_order k u = u\<lparr>orders := jdel (orders u) k, unpaid := jdel (unpaid u) k\<rparr>"

fun evict_oldest :: "string list \<Rightarrow> wallet \<Rightarrow> wallet" where
  "evict_oldest [] u = u"
| "evict_oldest (k # ks) u = (if length (orders u) \<le> ORDERS_MAX then u else evict_oldest ks (drop_order k u))"

definition evict :: "millis \<Rightarrow> wallet \<Rightarrow> wallet" where
  "evict now u =
     (let expired = map fst (filter (\<lambda>p. snd p \<le> now) (unpaid u));
          u1 = fold drop_order expired u in
      evict_oldest (jkeys (unpaid u1)) u1)"

definition putOrder :: "millis \<Rightarrow> billing_order \<Rightarrow> wallet \<Rightarrow> wallet" where
  "putOrder now ord u =
     (let u1 = u\<lparr>orders := jset (orders u) (o_orderId ord) ord,
                 unpaid := (if o_status ord = Paid then jdel (unpaid u) (o_orderId ord)
                            else jset (unpaid u) (o_orderId ord) (now + UNPAID_ORDER_TTL_MS))\<rparr> in
      if length (orders u1) > ORDERS_MAX then evict now u1 else u1)"

definition getOrder :: "millis \<Rightarrow> string \<Rightarrow> wallet \<Rightarrow> wallet \<times> billing_order option" where
  "getOrder now k u =
     (case jget (unpaid u) k of
        Some t \<Rightarrow> if t \<le> now then (drop_order k u, None) else (u, jget (orders u) k)
      | None \<Rightarrow> (u, jget (orders u) k))"

definition listOrders :: "millis \<Rightarrow> wallet \<Rightarrow> nat \<Rightarrow> billing_order list" where
  "listOrders now u limit =
     take limit (sort_key (\<lambda>ord. - o_createdAt ord)
       (filter (\<lambda>ord. case jget (unpaid u) (o_orderId ord) of Some t \<Rightarrow> now < t | None \<Rightarrow> True) (jvals (orders u))))"

section \<open>Invariant and lemmas\<close>

definition wallet_ok :: "wallet \<Rightarrow> bool" where
  "wallet_ok u \<longleftrightarrow> jwf (ledger u) \<and> jwf (unlocks u) \<and> jwf (claims u) \<and> jwf (orders u) \<and> jwf (unpaid u)
     \<and> (\<forall>k ord. jget (orders u) k = Some ord \<longrightarrow> o_orderId ord = k)
     \<and> (\<forall>k ord. jget (orders u) k = Some ord \<longrightarrow> (o_status ord = Paid \<longleftrightarrow> jget (unpaid u) k = None))
     \<and> (\<forall>k. jget (orders u) k = None \<longrightarrow> jget (unpaid u) k = None)"

lemma sweep_map_wf: "jwf m \<Longrightarrow> jwf (snd (sweep_map n P m))"
  by (simp add: sweep_map_def Let_def)

lemma sweep_map_get:
  "jwf m \<Longrightarrow> jget m k = Some v \<Longrightarrow> P v \<Longrightarrow> jget (snd (sweep_map n P m)) k = Some v"
  by (simp add: sweep_map_def Let_def jget_jkeep)

lemma sweep_map_None: "jwf m \<Longrightarrow> jget m k = None \<Longrightarrow> jget (snd (sweep_map n P m)) k = None"
  by (simp add: sweep_map_def Let_def jget_jkeep)

lemma sweep_map_live:
  "jwf m \<Longrightarrow> now \<le> t \<Longrightarrow> live t (snd (sweep_map n (\<lambda>v. now < snd v) m)) k = live t m k"
  using live_keep_live [of m now t k] by (simp add: sweep_map_def Let_def keep_live_def)

lemma ledger_of_append:
  assumes "wallet_ok u" "now \<le> t" "t < now + WALLET_IDLE_TTL_MS"
  shows "ledger_of t (appendLedger now e u) d =
    (if d = le_deviceId e then take LEDGER_MAX (e # ledger_of now u d) else ledger_of t u d)"
  using assms sweep_map_live [of "jset (ledger u) (le_deviceId e) (take LEDGER_MAX (e # ledger_of now u (le_deviceId e)), now + WALLET_IDLE_TTL_MS)" now t]
  by (simp add: appendLedger_def Let_def split_beta ledger_of_def wallet_ok_def)

lemma appendLedger_frame [frame_simps]:
  "unlocks (appendLedger now e u) = unlocks u" "claims (appendLedger now e u) = claims u"
  "orders (appendLedger now e u) = orders u" "unpaid (appendLedger now e u) = unpaid u"
  "ledger_ids (appendLedger now e u) = ledger_ids u"
  by (simp_all add: appendLedger_def Let_def split_beta)

lemma appendLedger_ok [inv_intros]: "wallet_ok u \<Longrightarrow> wallet_ok (appendLedger now e u)"
  by (simp add: wallet_ok_def frame_simps) (simp add: appendLedger_def Let_def split_beta sweep_map_wf)

lemma putUnlock_frame [frame_simps]:
  "ledger (putUnlock now d f t u) = ledger u" "claims (putUnlock now d f t u) = claims u"
  "orders (putUnlock now d f t u) = orders u" "unpaid (putUnlock now d f t u) = unpaid u"
  "ledger_ids (putUnlock now d f t u) = ledger_ids u"
  by (simp_all add: putUnlock_def Let_def split_beta)

lemma putUnlock_ok [inv_intros]: "wallet_ok u \<Longrightarrow> wallet_ok (putUnlock now d f t u)"
  by (simp add: wallet_ok_def frame_simps) (simp add: putUnlock_def Let_def split_beta sweep_map_wf)

lemma getUnlock_put:
  assumes "wallet_ok u" "now \<le> t" "t < expiry + WALLET_IDLE_TTL_MS"
  shows "getUnlock t (putUnlock now d f expiry u) d f = Some expiry"
proof -
  let ?fs = "jset (features_of now u d) f expiry"
  have "(f, expiry) \<in> set ?fs" using jget_in [of ?fs f expiry] by simp
  then have "expiry \<in> set (jvals ?fs)" by (force simp: jvals_def)
  then have "expiry \<le> Max (set (jvals ?fs))" by simp
  then have "live t (jset (unlocks u) d (?fs, Max (set (jvals ?fs)) + WALLET_IDLE_TTL_MS)) d = Some ?fs"
    using assms(3) by simp
  then show ?thesis
    using assms(1,2) sweep_map_live [of "jset (unlocks u) d (?fs, Max (set (jvals ?fs)) + WALLET_IDLE_TTL_MS)" now t]
    by (simp add: getUnlock_def putUnlock_def Let_def split_beta features_of_def wallet_ok_def)
qed

lemma getUnlock_put_other_device:
  assumes "wallet_ok u" "now \<le> t" "d' \<noteq> d"
  shows "getUnlock t (putUnlock now d f expiry u) d' g = getUnlock t u d' g"
  using assms sweep_map_live [of "jset (unlocks u) d (jset (features_of now u d) f expiry,
      Max (set (jvals (jset (features_of now u d) f expiry))) + WALLET_IDLE_TTL_MS)" now t]
  by (simp add: getUnlock_def putUnlock_def Let_def split_beta features_of_def wallet_ok_def)

lemma claimOnce_frame [frame_simps]:
  "ledger (fst (claimOnce now k u)) = ledger u" "unlocks (fst (claimOnce now k u)) = unlocks u"
  "orders (fst (claimOnce now k u)) = orders u" "unpaid (fst (claimOnce now k u)) = unpaid u"
  "ledger_ids (fst (claimOnce now k u)) = ledger_ids u"
  by (simp_all add: claimOnce_def Let_def split_beta)

lemma claimOnce_ok [inv_intros]: "wallet_ok u \<Longrightarrow> wallet_ok (fst (claimOnce now k u))"
  by (simp add: wallet_ok_def frame_simps) (simp add: claimOnce_def Let_def split_beta sweep_map_wf)

lemma releaseClaim_ok [inv_intros]: "wallet_ok u \<Longrightarrow> wallet_ok (releaseClaim k u)"
  by (simp add: wallet_ok_def releaseClaim_def)

text \<open>A claim is held from the moment it is taken until its expiry or its release.\<close>

definition claimed :: "millis \<Rightarrow> wallet \<Rightarrow> string \<Rightarrow> bool" where
  "claimed now u k \<longleftrightarrow> (case jget (claims u) k of Some t \<Rightarrow> now < t | None \<Rightarrow> False)"

lemma claimOnce_result: "0 \<le> now \<Longrightarrow> snd (claimOnce now k u) \<longleftrightarrow> \<not> claimed now u k"
  by (auto simp: claimOnce_def claimed_def Let_def split_beta split: option.splits)

lemma claimed_after:
  assumes "wallet_ok u" "0 \<le> now" "now \<le> t"
  shows "claimed t (fst (claimOnce now k u)) j \<longleftrightarrow>
    (if j = k \<and> \<not> claimed now u k then t < now + CLAIM_TTL_MS else claimed t u j)"
proof (cases "claimed now u k")
  case True
  then show ?thesis by (auto simp: claimOnce_def claimed_def Let_def split_beta split: option.splits)
next
  case False
  let ?cs = "jset (claims u) k (now + CLAIM_TTL_MS)"
  have wf: "jwf ?cs" using assms(1) by (simp add: wallet_ok_def)
  have fresh: "\<not> (case jget (claims u) k of Some t \<Rightarrow> t | None \<Rightarrow> 0) > now"
    using False assms(2) by (auto simp: claimed_def split: option.splits)
  have swept: "jget (snd (sweep_map (sweepAt_claims u) (\<lambda>t. now < t) ?cs)) j =
      (case jget ?cs j of Some v \<Rightarrow> if length ?cs < sweepAt_claims u \<or> now < v then Some v else None | None \<Rightarrow> None)"
    using wf by (auto simp: sweep_map_def Let_def jget_jkeep split: option.splits)
  have cl: "claims (fst (claimOnce now k u)) = snd (sweep_map (sweepAt_claims u) (\<lambda>t. now < t) ?cs)"
    using fresh by (simp add: claimOnce_def Let_def split_beta)
  have "claimed t (fst (claimOnce now k u)) j \<longleftrightarrow> (case jget ?cs j of Some v \<Rightarrow> t < v | None \<Rightarrow> False)"
    unfolding claimed_def cl swept using assms(3) by (auto split: option.splits)
  then show ?thesis using False by (auto simp: claimed_def)
qed

lemma claimed_release: "claimed t (releaseClaim k u) j \<longleftrightarrow> j \<noteq> k \<and> claimed t u j"
  by (auto simp: claimed_def releaseClaim_def)

end
