(* ===== verification/Billing.thy ===== *)
theory Billing
  imports Wallet
begin

text \<open>
  Coins and premium unlocks (\<open>backend/src/billing/BillingService.ts\<close>): the balance and the
  unlocks the match service asks for, earning, admin adjustments, unlocking, orders, and the two
  ways a payment is credited. The Razorpay API is the parameter \<open>gateway\<close>; its HTTP calls may
  throw. A store call that throws is a \<open>fault\<close> of the attempt, so the error paths of \<open>credit\<close>
  are branches of the model.
\<close>

section \<open>Types\<close>

datatype billing_error =
  BillingDisabled | UnknownPack | OrderUnknown | BadSignature | PaymentMismatch | PaymentPending
| InsufficientCoins | Upstream

datatype payment_status = PCreated | PAuthorized | PCaptured | PRefunded | PFailed

record payment =
  pay_id :: string
  pay_order_id :: "string option"
  pay_amount :: int
  pay_currency :: string
  pay_status :: payment_status

text \<open>\<open>createOrder\<close> answers \<open>None\<close> when it throws; \<open>fetchPayment\<close> answers \<open>None\<close> when it throws and
  \<open>Some None\<close> for a payment that does not exist.\<close>

record gateway =
  keyId :: string
  gw_createOrder :: "int \<Rightarrow> string \<Rightarrow> string option"
  gw_fetchPayment :: "string \<Rightarrow> payment option option"
  gw_verifyCheckout :: "string \<Rightarrow> string \<Rightarrow> string \<Rightarrow> bool"

record payment_facts =
  f_paymentId :: string
  f_orderId :: string
  f_amount :: int
  f_currency :: string

text \<open>The state of the service: the match store (for the balance), the wallet, and the views pushed
  to live sockets, newest last.\<close>

record bank =
  bk_store :: store
  bk_wallet :: wallet
  pushed :: "(device_id \<times> wallet_view) list"

section \<open>Balance and entitlements\<close>

definition balance :: "int \<Rightarrow> store \<Rightarrow> device_id \<Rightarrow> int" where
  "balance initialCoins m d = (case getCoins m d of Some b \<Rightarrow> b | None \<Rightarrow> initialCoins)"

definition walletView :: "int \<Rightarrow> millis \<Rightarrow> store \<Rightarrow> wallet \<Rightarrow> device_id \<Rightarrow> wallet_view" where
  "walletView initialCoins now m u d =
     \<lparr>wv_coins = balance initialCoins m d, wv_unlocks = filter (\<lambda>p. snd p > now) (listUnlocks now u d)\<rparr>"

definition entitled :: "millis \<Rightarrow> wallet \<Rightarrow> device_id \<Rightarrow> premium_feature \<Rightarrow> bool" where
  "entitled now u d f = (case getUnlock now u d f of Some t \<Rightarrow> t > now | None \<Rightarrow> False)"

definition mayUseGenderFilter :: "flags \<Rightarrow> millis \<Rightarrow> wallet \<Rightarrow> device_id \<Rightarrow> bool" where
  "mayUseGenderFilter f now u d =
     (if \<not> premium_filters_enabled f then True else entitled now u d gender_filter_unlock)"

definition record_entry :: "millis \<Rightarrow> device_id \<Rightarrow> int \<Rightarrow> ledger_reason \<Rightarrow> ledger_ref \<Rightarrow> wallet \<Rightarrow> wallet" where
  "record_entry now d delta reason ref u =
     (appendLedger now \<lparr>le_id = ledger_ids u, le_deviceId = d, le_delta = delta, le_reason = reason, le_ref = ref, le_at = now\<rparr> u)
       \<lparr>ledger_ids := Suc (ledger_ids u)\<rparr>"

definition earn :: "int \<Rightarrow> millis \<Rightarrow> device_id \<Rightarrow> int \<Rightarrow> uuid \<Rightarrow> store \<times> wallet \<Rightarrow> (store \<times> wallet) \<times> int" where
  "earn initialCoins now d delta room = (\<lambda>(m, u).
     let (m1, b) = addCoins d delta initialCoins m in
     ((m1, record_entry now d delta Earned (RoomRef room) u), b))"

definition push :: "int \<Rightarrow> millis \<Rightarrow> device_id \<Rightarrow> bank \<Rightarrow> bank \<times> wallet_view" where
  "push initialCoins now d b =
     (let v = walletView initialCoins now (bk_store b) (bk_wallet b) d in (b\<lparr>pushed := pushed b @ [(d, v)]\<rparr>, v))"

definition adjust :: "int \<Rightarrow> millis \<Rightarrow> device_id \<Rightarrow> int \<Rightarrow> string \<Rightarrow> bank \<Rightarrow> bank \<times> wallet_view" where
  "adjust initialCoins now d delta note b =
     push initialCoins now d
       (b\<lparr>bk_store := fst (addCoins d delta initialCoins (bk_store b)),
          bk_wallet := record_entry now d delta AdminAdjust (TextRef note) (bk_wallet b)\<rparr>)"

text \<open>\<open>debit\<close>: take the coins, give them back when that went below zero.\<close>

definition debit :: "int \<Rightarrow> device_id \<Rightarrow> int \<Rightarrow> store \<Rightarrow> store \<times> int option" where
  "debit initialCoins d cost m =
     (let (m1, b) = addCoins d (- cost) initialCoins m in
      if b \<ge> 0 then (m1, Some b) else (fst (addCoins d cost initialCoins m1), None))"

definition unlock ::
  "int \<Rightarrow> flags \<Rightarrow> millis \<Rightarrow> device_id \<Rightarrow> premium_feature \<Rightarrow> int \<Rightarrow> bank \<Rightarrow> bank \<times> (billing_error + int \<times> millis)" where
  "unlock initialCoins f now d feature days b =
     (let cost = gender_filter_coins_per_day f * days;
          (m1, taken) = debit initialCoins d cost (bk_store b) in
      case taken of
        None \<Rightarrow> (b\<lparr>bk_store := m1\<rparr>, Inl InsufficientCoins)
      | Some bal \<Rightarrow>
          let (u1, expiry) = extendUnlock now d feature (days * 86400000) (bk_wallet b);
              u2 = record_entry now d (- cost) UnlockSpend (TextRef (''gender_filter:'' @ show_nat (nat days) @ ''d'')) u1;
              b1 = fst (push initialCoins now d (b\<lparr>bk_store := m1, bk_wallet := u2\<rparr>)) in
          (b1, Inr (bal, expiry)))"

section \<open>Purchases\<close>

definition packs_of :: "pack_parser \<Rightarrow> flags \<Rightarrow> coin_pack list" where
  "packs_of packs f =
     (case parse_packs packs (coin_packs f) of
        Some ps \<Rightarrow> ps
      | None \<Rightarrow> (case parse_packs packs (coin_packs FLAG_DEFAULTS) of Some ps \<Rightarrow> ps | None \<Rightarrow> []))"

definition createOrder ::
  "gateway option \<Rightarrow> pack_parser \<Rightarrow> flags \<Rightarrow> millis \<Rightarrow> device_id \<Rightarrow> string \<Rightarrow> bank \<Rightarrow> bank \<times> (billing_error + string \<times> int \<times> int)" where
  "createOrder gw packs f now d packId b =
     (case gw of
        None \<Rightarrow> (b, Inl BillingDisabled)
      | Some g \<Rightarrow>
          (case find (\<lambda>p. cp_id p = packId) (packs_of packs f) of
             None \<Rightarrow> (b, Inl UnknownPack)
           | Some pack \<Rightarrow>
               let amount = cp_inr pack * 100 in
               (case gw_createOrder g amount packId of
                  None \<Rightarrow> (b, Inl Upstream)
                | Some created \<Rightarrow>
                    let ord = \<lparr>o_orderId = created, o_deviceId = d, o_packId = packId, o_coins = cp_coins pack,
                               o_amount = amount, o_currency = ''INR'', o_status = Created, o_paymentId = None,
                               o_createdAt = now, o_paidAt = None\<rparr> in
                    (b\<lparr>bk_wallet := putOrder now ord (bk_wallet b)\<rparr>, Inr (created, amount, cp_coins pack)))))"

text \<open>Where a store call of \<open>credit\<close> throws, if one does.\<close>

datatype fault = NoFault | AddBalanceThrows | PutOrderThrows | LedgerThrows

datatype credit_result = Threw | Refused billing_error | Credited int bool

definition claim_key :: "billing_order \<Rightarrow> string" where
  "claim_key ord = ''order:'' @ o_orderId ord"

text \<open>
  The order is the copy read before, which may be stale. Its store writes after the coins moved
  are in one \<open>try\<close>: a failed order write skips the ledger entry, and neither undoes the credit.
\<close>

definition credit :: "int \<Rightarrow> millis \<Rightarrow> billing_order \<Rightarrow> payment_facts \<Rightarrow> fault \<Rightarrow> bank \<Rightarrow> bank \<times> credit_result" where
  "credit initialCoins now ord p flt b =
     (let d = o_deviceId ord in
      if f_amount p \<noteq> o_amount ord \<or> f_currency p \<noteq> o_currency ord then (b, Refused PaymentMismatch)
      else if o_status ord = Paid then (b, Credited (balance initialCoins (bk_store b) d) False)
      else
        let (u1, fresh) = claimOnce now (claim_key ord) (bk_wallet b) in
        if \<not> fresh then (b\<lparr>bk_wallet := u1\<rparr>, Credited (balance initialCoins (bk_store b) d) False)
        else if flt = AddBalanceThrows then (b\<lparr>bk_wallet := releaseClaim (claim_key ord) u1\<rparr>, Threw)
        else
          let (m1, total) = addCoins d (o_coins ord) initialCoins (bk_store b);
              u2 = (if flt = PutOrderThrows then u1
                    else putOrder now (ord\<lparr>o_status := Paid, o_paymentId := Some (f_paymentId p), o_paidAt := Some now\<rparr>) u1);
              u3 = (if flt = PutOrderThrows \<or> flt = LedgerThrows then u2
                    else record_entry now d (o_coins ord) Purchase (TextRef (f_paymentId p)) u2);
              b1 = fst (push initialCoins now d (b\<lparr>bk_store := m1, bk_wallet := u3\<rparr>)) in
          (b1, Credited total True))"

definition verifyCheckout ::
  "gateway option \<Rightarrow> int \<Rightarrow> millis \<Rightarrow> device_id \<Rightarrow> string \<Rightarrow> string \<Rightarrow> string \<Rightarrow> fault \<Rightarrow> bank \<Rightarrow> bank \<times> credit_result" where
  "verifyCheckout gw initialCoins now d orderId paymentId signature flt b =
     (case gw of
        None \<Rightarrow> (b, Refused BillingDisabled)
      | Some g \<Rightarrow>
          if \<not> gw_verifyCheckout g orderId paymentId signature then (b, Refused BadSignature)
          else
            let (u1, found) = getOrder now orderId (bk_wallet b); b1 = b\<lparr>bk_wallet := u1\<rparr> in
            (case found of
               None \<Rightarrow> (b1, Refused OrderUnknown)
             | Some ord \<Rightarrow>
                 if o_deviceId ord \<noteq> d then (b1, Refused PaymentMismatch)
                 else if o_status ord = Paid then (b1, Credited (balance initialCoins (bk_store b1) d) False)
                 else
                   (case gw_fetchPayment g paymentId of
                      None \<Rightarrow> (b1, Refused Upstream)
                    | Some None \<Rightarrow> (b1, Refused PaymentMismatch)
                    | Some (Some pay) \<Rightarrow>
                        if pay_order_id pay \<noteq> Some orderId then (b1, Refused PaymentMismatch)
                        else if pay_status pay = PAuthorized then (b1, Refused PaymentPending)
                        else if pay_status pay \<noteq> PCaptured then (b1, Refused PaymentMismatch)
                        else credit initialCoins now ord
                               \<lparr>f_paymentId = paymentId, f_orderId = orderId, f_amount = pay_amount pay, f_currency = pay_currency pay\<rparr> flt b1)))"

datatype webhook_outcome =
  WCredited | WIgnored | WBadSignature | WInvalid | WOrderUnknown | WPaymentMismatch | WThrew

text \<open>
  The body after \<open>JSON.parse\<close> and the schema: \<open>None\<close> when either fails, else the event and the
  payment entity if the payload has one.
\<close>

record webhook_event =
  ev_name :: string
  ev_payment :: "payment option"

definition handleWebhook ::
  "string option \<Rightarrow> bool \<Rightarrow> webhook_event option \<Rightarrow> int \<Rightarrow> millis \<Rightarrow> fault \<Rightarrow> bank \<Rightarrow> bank \<times> webhook_outcome" where
  "handleWebhook webhookSecret signature_ok body initialCoins now flt b =
     (if webhookSecret = None \<or> webhookSecret = Some '''' then (b, WBadSignature)
      else if \<not> signature_ok then (b, WBadSignature)
      else
        case body of
          None \<Rightarrow> (b, WInvalid)
        | Some ev \<Rightarrow>
            if ev_name ev \<noteq> ''payment.captured'' then (b, WIgnored)
            else
              (case ev_payment ev of
                 None \<Rightarrow> (b, WInvalid)
               | Some pay \<Rightarrow>
                   (case pay_order_id pay of
                      None \<Rightarrow> (b, WInvalid)
                    | Some orderId \<Rightarrow>
                        let (u1, found) = getOrder now orderId (bk_wallet b); b1 = b\<lparr>bk_wallet := u1\<rparr> in
                        (case found of
                           None \<Rightarrow> (b1, WOrderUnknown)
                         | Some ord \<Rightarrow>
                             let (b2, res) = credit initialCoins now ord
                                   \<lparr>f_paymentId = pay_id pay, f_orderId = orderId, f_amount = pay_amount pay, f_currency = pay_currency pay\<rparr> flt b1 in
                             (b2, (case res of
                                     Threw \<Rightarrow> WThrew
                                   | Refused e \<Rightarrow> if e = PaymentMismatch then WPaymentMismatch else WInvalid
                                   | Credited _ fresh \<Rightarrow> if fresh then WCredited else WIgnored))))))"

section \<open>Signatures: razorpay.ts\<close>

definition hex_digit :: "char \<Rightarrow> nat option" where
  "hex_digit c =
     (let n = of_char c :: nat in
      if 48 \<le> n \<and> n \<le> 57 then Some (n - 48)
      else if 97 \<le> n \<and> n \<le> 102 then Some (n - 87)
      else if 65 \<le> n \<and> n \<le> 70 then Some (n - 55)
      else None)"

text \<open>\<open>Buffer.from(s, "hex")\<close> of hex digits: a trailing odd digit is dropped.\<close>

fun hex_bytes :: "string \<Rightarrow> nat list" where
  "hex_bytes (a # b # s) =
     (case (hex_digit a, hex_digit b) of (Some x, Some y) \<Rightarrow> (16 * x + y) # hex_bytes s | _ \<Rightarrow> [])"
| "hex_bytes _ = []"

definition macEquals :: "string \<Rightarrow> string \<Rightarrow> bool" where
  "macEquals expectedHex givenHex =
     (if givenHex = [] \<or> \<not> list_all (\<lambda>c. hex_digit c \<noteq> None) givenHex \<or> length givenHex \<noteq> length expectedHex then False
      else hex_bytes expectedHex = hex_bytes givenHex)"

text \<open>\<open>hmac secret text\<close> is the lower-case hex HMAC-SHA256 of \<open>node:crypto\<close>.\<close>

type_synonym hasher_hex = "string \<Rightarrow> string \<Rightarrow> string"

definition verifyCheckoutSignature :: "hasher_hex \<Rightarrow> string \<Rightarrow> string \<Rightarrow> string \<Rightarrow> string \<Rightarrow> bool" where
  "verifyCheckoutSignature hmac keySecret orderId paymentId signature =
     macEquals (hmac keySecret (orderId @ ''|'' @ paymentId)) signature"

definition verifyWebhookSignature :: "hasher_hex \<Rightarrow> string \<Rightarrow> string \<Rightarrow> string option \<Rightarrow> bool" where
  "verifyWebhookSignature hmac webhookSecret rawBody signature =
     (case signature of None \<Rightarrow> False | Some s \<Rightarrow> macEquals (hmac webhookSecret rawBody) s)"

end
