(* ===== verification/BillingLemmas.thy ===== *)
theory BillingLemmas
  imports Billing
begin

text \<open>
  Lemmas about the wallet and the billing service: balances move by exactly the ledger's
  deltas, the wallet invariant is kept, paid orders survive eviction, and a claim guards a
  credit.
\<close>

section \<open>Balances\<close>

lemma balance_addCoins:
  "balance i (fst (addCoins d x i m)) d' = balance i m d' + (if d' = d then x else 0)"
  by (auto simp: balance_def addCoins_def getCoins_def Let_def split: option.splits)

lemma addCoins_result: "snd (addCoins d x i m) = balance i m d + x"
  by (simp add: addCoins_def balance_def getCoins_def Let_def split: option.splits)

lemma addCoins_frame [frame_simps]:
  "sessions (fst (addCoins d x i m)) = sessions m" "photos (fst (addCoins d x i m)) = photos m"
  "bindings (fst (addCoins d x i m)) = bindings m" "waiting (fst (addCoins d x i m)) = waiting m"
  "waitingSinces (fst (addCoins d x i m)) = waitingSinces m" "rooms (fst (addCoins d x i m)) = rooms m"
  "pendingRooms (fst (addCoins d x i m)) = pendingRooms m"
  by (simp_all add: addCoins_def Let_def)

lemma debit_cases:
  assumes "debit i d cost m = (m', r)"
  shows "(r = Some (balance i m d - cost) \<and> 0 \<le> balance i m d - cost \<and>
      (\<forall>d'. balance i m' d' = balance i m d' - (if d' = d then cost else 0))) \<or>
    (r = None \<and> balance i m d < cost \<and> (\<forall>d'. balance i m' d' = balance i m d'))"
proof -
  obtain m1 b where a: "addCoins d (- cost) i m = (m1, b)" by (cases "addCoins d (- cost) i m")
  have b: "b = balance i m d - cost" using addCoins_result [of d "- cost" i m] a by simp
  have m1: "balance i m1 d' = balance i m d' - (if d' = d then cost else 0)" for d'
    using balance_addCoins [of i d "- cost" m d'] a by simp
  show ?thesis
    using assms a b m1 balance_addCoins [of i d cost m1] by (auto simp: debit_def split: if_splits)
qed

section \<open>Ledger\<close>

lemma record_entry_frame [frame_simps]:
  "unlocks (record_entry now d x r f u) = unlocks u" "claims (record_entry now d x r f u) = claims u"
  "orders (record_entry now d x r f u) = orders u" "unpaid (record_entry now d x r f u) = unpaid u"
  by (simp_all add: record_entry_def appendLedger_frame)

lemma wallet_ok_ids: "wallet_ok (u\<lparr>ledger_ids := n\<rparr>) = wallet_ok u"
  by (simp add: wallet_ok_def)

lemma record_entry_ok [inv_intros]: "wallet_ok u \<Longrightarrow> wallet_ok (record_entry now d x r f u)"
  by (simp add: record_entry_def wallet_ok_ids appendLedger_ok)

lemma ledger_of_record:
  assumes "wallet_ok u"
  shows "ledger_of now (record_entry now d x r f u) d' =
    (if d' = d then take LEDGER_MAX
       (\<lparr>le_id = ledger_ids u, le_deviceId = d, le_delta = x, le_reason = r, le_ref = f, le_at = now\<rparr> # ledger_of now u d)
     else ledger_of now u d')"
proof -
  let ?e = "\<lparr>le_id = ledger_ids u, le_deviceId = d, le_delta = x, le_reason = r, le_ref = f, le_at = now\<rparr>"
  have "now < now + WALLET_IDLE_TTL_MS" by (simp add: WALLET_IDLE_TTL_MS_def)
  then have "ledger_of now (appendLedger now ?e u) d' =
      (if d' = d then take LEDGER_MAX (?e # ledger_of now u d) else ledger_of now u d')"
    using ledger_of_append [OF assms, of now now ?e d'] by auto
  then show ?thesis by (simp add: record_entry_def ledger_of_def)
qed

lemma getUnlock_record [simp]: "getUnlock t (record_entry now d x r f u) d' g = getUnlock t u d' g"
  by (simp add: getUnlock_def features_of_def record_entry_frame)

section \<open>Orders\<close>

lemma drop_order_ok [inv_intros]: "wallet_ok u \<Longrightarrow> wallet_ok (drop_order k u)"
  by (auto simp: wallet_ok_def drop_order_def)

lemma drop_order_paid:
  "jget (orders u) k = Some ord \<Longrightarrow> k \<noteq> j \<Longrightarrow> jget (orders (drop_order j u)) k = Some ord"
  by (simp add: drop_order_def)

lemma unpaid_drop_order: "jget (unpaid (drop_order j u)) k = None \<longleftrightarrow> k = j \<or> jget (unpaid u) k = None"
  by (auto simp: drop_order_def)

text \<open>Dropping orders that were unpaid before keeps the invariant and every paid order.\<close>

definition paid_kept :: "wallet \<Rightarrow> wallet \<Rightarrow> bool" where
  "paid_kept u u' \<longleftrightarrow> wallet_ok u' \<and> claims u' = claims u
     \<and> (\<forall>k ord. jget (orders u) k = Some ord \<longrightarrow> o_status ord = Paid \<longrightarrow> jget (orders u') k = Some ord)"

lemma paid_kept_refl: "wallet_ok u \<Longrightarrow> paid_kept u u"
  by (simp add: paid_kept_def)

lemma paid_kept_drop:
  assumes "paid_kept u u'" "\<forall>ord. jget (orders u) k = Some ord \<longrightarrow> o_status ord \<noteq> Paid"
  shows "paid_kept u (drop_order k u')"
proof -
  have "jget (orders (drop_order k u')) j = Some ord"
    if "jget (orders u) j = Some ord" "o_status ord = Paid" for j ord
  proof -
    have "j \<noteq> k" using assms(2) that by auto
    then show ?thesis using drop_order_paid assms(1) that by (auto simp: paid_kept_def)
  qed
  moreover have u': "wallet_ok u'" "claims u' = claims u"
    using assms(1) unfolding paid_kept_def by blast+
  have "claims (drop_order k u') = claims u'" by (simp add: drop_order_def)
  then have "claims (drop_order k u') = claims u" using u'(2) by (rule trans)
  moreover have "wallet_ok (drop_order k u')" using u'(1) by (rule drop_order_ok)
  ultimately show ?thesis unfolding paid_kept_def by blast
qed

lemma unpaid_not_paid: "wallet_ok u \<Longrightarrow> jget (unpaid u) k \<noteq> None \<Longrightarrow> jget (orders u) k = Some ord \<Longrightarrow> o_status ord \<noteq> Paid"
  by (auto simp: wallet_ok_def)

lemma paid_kept_fold:
  "paid_kept u u' \<Longrightarrow> \<forall>k \<in> set ks. \<forall>ord. jget (orders u) k = Some ord \<longrightarrow> o_status ord \<noteq> Paid \<Longrightarrow>
   paid_kept u (fold drop_order ks u')"
  by (induction ks arbitrary: u') (auto intro: paid_kept_drop)

lemma paid_kept_evict_oldest:
  "paid_kept u u' \<Longrightarrow> \<forall>k \<in> set ks. \<forall>ord. jget (orders u) k = Some ord \<longrightarrow> o_status ord \<noteq> Paid \<Longrightarrow>
   paid_kept u (evict_oldest ks u')"
  by (induction ks arbitrary: u') (auto intro: paid_kept_drop)

lemma fold_drop_unpaid: "jget (unpaid (fold drop_order ks u)) k \<noteq> None \<Longrightarrow> jget (unpaid u) k \<noteq> None"
proof (induction ks arbitrary: u)
  case (Cons j ks)
  have "jget (unpaid (drop_order j u)) k \<noteq> None"
    by (rule Cons.IH) (use Cons.prems in \<open>simp only: fold_simps(2), simp\<close>)
  then show ?case by (simp add: unpaid_drop_order)
qed simp

lemma evict_paid_kept:
  assumes "wallet_ok u"
  shows "paid_kept u (evict now u)"
proof -
  let ?ex = "map fst (filter (\<lambda>p. snd p \<le> now) (unpaid u))"
  have "jget (unpaid u) k \<noteq> None" if "k \<in> set ?ex" for k
    using that by (auto simp: jget_None_iff jkeys_def)
  then have 1: "paid_kept u (fold drop_order ?ex u)"
    using unpaid_not_paid [OF assms] by (intro paid_kept_fold paid_kept_refl assms) blast
  have "jget (unpaid u) k \<noteq> None" if "k \<in> set (jkeys (unpaid (fold drop_order ?ex u)))" for k
    using that fold_drop_unpaid by (fastforce simp: set_jkeys)
  then show ?thesis
    unfolding evict_def Let_def
    using unpaid_not_paid [OF assms] by (intro paid_kept_evict_oldest 1) blast
qed

lemma putOrder_paid_kept:
  assumes "wallet_ok u"
  shows "wallet_ok (putOrder now ord u) \<and> claims (putOrder now ord u) = claims u \<and>
    (o_status ord = Paid \<longrightarrow> jget (orders (putOrder now ord u)) (o_orderId ord) = Some ord) \<and>
    (\<forall>k ord'. k \<noteq> o_orderId ord \<longrightarrow> jget (orders u) k = Some ord' \<longrightarrow> o_status ord' = Paid \<longrightarrow>
       jget (orders (putOrder now ord u)) k = Some ord')"
proof -
  let ?u = "u\<lparr>orders := jset (orders u) (o_orderId ord) ord,
     unpaid := (if o_status ord = Paid then jdel (unpaid u) (o_orderId ord)
                else jset (unpaid u) (o_orderId ord) (now + UNPAID_ORDER_TTL_MS))\<rparr>"
  have ok: "wallet_ok ?u" using assms by (auto simp: wallet_ok_def)
  have "paid_kept ?u (putOrder now ord u)"
    using evict_paid_kept [OF ok, of now] paid_kept_refl [OF ok] by (simp add: putOrder_def Let_def)
  then show ?thesis by (auto simp: paid_kept_def)
qed

lemma getOrder_ok [inv_intros]: "wallet_ok u \<Longrightarrow> wallet_ok (fst (getOrder now k u))"
  by (auto simp: getOrder_def drop_order_ok split: option.splits)

lemma getOrder_claims [frame_simps]: "claims (fst (getOrder now k u)) = claims u"
  by (auto simp: getOrder_def drop_order_def split: option.splits)

lemma getOrder_id: "wallet_ok u \<Longrightarrow> snd (getOrder now k u) = Some ord \<Longrightarrow> o_orderId ord = k"
  by (auto simp: getOrder_def wallet_ok_def split: option.splits if_splits)

section \<open>One credit attempt\<close>

definition fresh_credit :: "credit_result \<Rightarrow> bool" where
  "fresh_credit r = (case r of Credited _ fresh \<Rightarrow> fresh | _ \<Rightarrow> False)"

lemma push_store [simp]: "bk_store (fst (push i now d b)) = bk_store b" "bk_wallet (fst (push i now d b)) = bk_wallet b"
  by (simp_all add: push_def Let_def)

lemma balance_cong: "coins m = coins m' \<Longrightarrow> balance i m d = balance i m' d"
  by (simp add: balance_def getCoins_def)

lemma credit_step:
  assumes "wallet_ok (bk_wallet b)" "0 \<le> now" "credit i now ord p flt b = (b', r)"
  shows "wallet_ok (bk_wallet b')"
    and "balance i (bk_store b') d = balance i (bk_store b) d
      + (if fresh_credit r \<and> d = o_deviceId ord then o_coins ord else 0)"
    and "now \<le> t \<Longrightarrow> claimed t (bk_wallet b') (claim_key ord) \<longleftrightarrow>
      (if fresh_credit r then t < now + CLAIM_TTL_MS
       else claimed t (bk_wallet b) (claim_key ord) \<and> (r = Threw \<longrightarrow> False))"
    and "fresh_credit r \<Longrightarrow> \<not> claimed now (bk_wallet b) (claim_key ord)"
    and "fresh_credit r \<Longrightarrow> f_amount p = o_amount ord \<and> f_currency p = o_currency ord \<and> o_status ord \<noteq> Paid"
proof -
  let ?k = "claim_key ord" and ?u = "bk_wallet b"
  obtain u1 fr where c: "claimOnce now ?k ?u = (u1, fr)" by (cases "claimOnce now ?k ?u")
  have fr: "fr \<longleftrightarrow> \<not> claimed now ?u ?k" using claimOnce_result [OF assms(2), of ?k ?u] c by simp
  have ok1: "wallet_ok u1" using claimOnce_ok [OF assms(1), of now ?k] c by simp
  have cl1: "claimed t u1 ?k \<longleftrightarrow> (if \<not> claimed now ?u ?k then t < now + CLAIM_TTL_MS else claimed t ?u ?k)"
    if "now \<le> t" for t
    using claimed_after [OF assms(1,2) that, of ?k ?k] c by simp
  have late: "\<not> claimed t ?u ?k" if "\<not> claimed now ?u ?k" "now \<le> t" for t
    using that by (auto simp: claimed_def split: option.splits)
  let ?ord = "ord\<lparr>o_status := Paid, o_paymentId := Some (f_paymentId p), o_paidAt := Some now\<rparr>"
  have ok2: "wallet_ok (putOrder now ?ord u1)" and cl2: "claims (putOrder now ?ord u1) = claims u1"
    using putOrder_paid_kept [OF ok1] by blast+
  consider "f_amount p \<noteq> o_amount ord \<or> f_currency p \<noteq> o_currency ord \<or> o_status ord = Paid"
    | "f_amount p = o_amount ord" "f_currency p = o_currency ord" "o_status ord \<noteq> Paid" "\<not> fr"
    | "f_amount p = o_amount ord" "f_currency p = o_currency ord" "o_status ord \<noteq> Paid" "fr" "flt = AddBalanceThrows"
    | "f_amount p = o_amount ord" "f_currency p = o_currency ord" "o_status ord \<noteq> Paid" "fr" "flt \<noteq> AddBalanceThrows"
    by blast
  then have "wallet_ok (bk_wallet b') \<and>
      balance i (bk_store b') d = balance i (bk_store b) d + (if fresh_credit r \<and> d = o_deviceId ord then o_coins ord else 0) \<and>
      (now \<le> t \<longrightarrow> (claimed t (bk_wallet b') ?k \<longleftrightarrow>
        (if fresh_credit r then t < now + CLAIM_TTL_MS else claimed t ?u ?k \<and> (r = Threw \<longrightarrow> False)))) \<and>
      (fresh_credit r \<longrightarrow> \<not> claimed now ?u ?k \<and> f_amount p = o_amount ord \<and> f_currency p = o_currency ord \<and> o_status ord \<noteq> Paid)"
  proof cases
    case 1
    then show ?thesis using assms by (auto simp: credit_def Let_def fresh_credit_def split: if_splits)
  next
    case 2
    then show ?thesis using assms c ok1 cl1 fr by (auto simp: credit_def Let_def fresh_credit_def)
  next
    case 3
    then show ?thesis
      using assms c ok1 fr late releaseClaim_ok [OF ok1, of ?k] claimed_release [of t ?k u1 ?k]
      by (auto simp: credit_def Let_def fresh_credit_def)
  next
    case 4
    have b': "r = Credited (snd (addCoins (o_deviceId ord) (o_coins ord) i (bk_store b))) True"
        "bk_store b' = fst (addCoins (o_deviceId ord) (o_coins ord) i (bk_store b))"
        "bk_wallet b' = (let u2 = (if flt = PutOrderThrows then u1 else putOrder now ?ord u1) in
           if flt = PutOrderThrows \<or> flt = LedgerThrows then u2
           else record_entry now (o_deviceId ord) (o_coins ord) Purchase (TextRef (f_paymentId p)) u2)"
      using 4 assms(3) c by (auto simp: credit_def Let_def split_beta)
    have "wallet_ok (bk_wallet b')" and cl: "claims (bk_wallet b') = claims u1"
      using ok1 ok2 cl2 by (auto simp: b' Let_def record_entry_ok record_entry_frame)
    moreover have "claimed t (bk_wallet b') ?k \<longleftrightarrow> claimed t u1 ?k" by (simp add: claimed_def cl)
    ultimately show ?thesis
      using 4 cl1 fr balance_addCoins [of i "o_deviceId ord" "o_coins ord" "bk_store b" d]
      by (simp add: b' fresh_credit_def)
  qed
  then show "wallet_ok (bk_wallet b')"
    and "balance i (bk_store b') d = balance i (bk_store b) d + (if fresh_credit r \<and> d = o_deviceId ord then o_coins ord else 0)"
    and "now \<le> t \<Longrightarrow> claimed t (bk_wallet b') ?k \<longleftrightarrow>
      (if fresh_credit r then t < now + CLAIM_TTL_MS else claimed t ?u ?k \<and> (r = Threw \<longrightarrow> False))"
    and "fresh_credit r \<Longrightarrow> \<not> claimed now ?u ?k"
    and "fresh_credit r \<Longrightarrow> f_amount p = o_amount ord \<and> f_currency p = o_currency ord \<and> o_status ord \<noteq> Paid"
    by blast+
qed

end
