(* ===== verification/MoneyTheorems.thy ===== *)
theory MoneyTheorems
  imports BillingLemmas
begin

text \<open>
  What the coin economy promises: a payment is credited once however often it is reported, a
  checkout or a webhook moves coins only for a captured payment of the right order, an unlock
  costs exactly its price, a paid order is never forgotten, and a signature comparison accepts
  exactly the expected digest.
\<close>

section \<open>Repeated attempts to credit\<close>

record attempt =
  at_now :: millis
  at_order :: billing_order
  at_facts :: payment_facts
  at_fault :: fault

fun credit_all :: "int \<Rightarrow> attempt list \<Rightarrow> bank \<Rightarrow> bank \<times> credit_result list" where
  "credit_all i [] b = (b, [])"
| "credit_all i (a # as) b =
     (let (b1, r) = credit i (at_now a) (at_order a) (at_facts a) (at_fault a) b;
          (b2, rs) = credit_all i as b1 in (b2, r # rs))"

text \<open>The attempts on order \<open>k\<close> that moved coins, and the coins a device got from all of them.\<close>

fun fresh_on :: "string \<Rightarrow> attempt list \<Rightarrow> credit_result list \<Rightarrow> nat" where
  "fresh_on k (a # as) (r # rs) = (if fresh_credit r \<and> o_orderId (at_order a) = k then 1 else 0) + fresh_on k as rs"
| "fresh_on k _ _ = 0"

fun coins_to :: "device_id \<Rightarrow> attempt list \<Rightarrow> credit_result list \<Rightarrow> int" where
  "coins_to d (a # as) (r # rs) =
     (if fresh_credit r \<and> o_deviceId (at_order a) = d then o_coins (at_order a) else 0) + coins_to d as rs"
| "coins_to d _ _ = 0"

text \<open>An attempt that the facts and the store allow to succeed.\<close>

definition creditable :: "string \<Rightarrow> attempt \<Rightarrow> bool" where
  "creditable k a \<longleftrightarrow> o_orderId (at_order a) = k \<and> o_status (at_order a) \<noteq> Paid
     \<and> f_amount (at_facts a) = o_amount (at_order a) \<and> f_currency (at_facts a) = o_currency (at_order a)
     \<and> at_fault a \<noteq> AddBalanceThrows"

lemma claim_key_eq [simp]: "claim_key a = claim_key b \<longleftrightarrow> o_orderId a = o_orderId b"
  by (simp add: claim_key_def)

lemma claimed_cong: "claims u = claims u' \<Longrightarrow> claimed t u k = claimed t u' k"
  by (simp add: claimed_def)

lemma claimed_earlier: "claimed t u k \<Longrightarrow> now \<le> t \<Longrightarrow> claimed now u k"
  by (auto simp: claimed_def split: option.splits)

text \<open>The rest of what an attempt does to the claims, beside \<open>credit_step\<close>.\<close>

lemma credit_claims:
  assumes "wallet_ok (bk_wallet b)" "0 \<le> now" "credit i now ord p flt b = (b', r)"
  shows "now \<le> t \<Longrightarrow> j \<noteq> claim_key ord \<Longrightarrow> claimed t (bk_wallet b') j = claimed t (bk_wallet b) j"
    and "r = Threw \<Longrightarrow> \<not> claimed now (bk_wallet b) (claim_key ord)"
    and "f_amount p = o_amount ord \<Longrightarrow> f_currency p = o_currency ord \<Longrightarrow> o_status ord \<noteq> Paid \<Longrightarrow> flt \<noteq> AddBalanceThrows
      \<Longrightarrow> fresh_credit r = (\<not> claimed now (bk_wallet b) (claim_key ord))"
proof -
  let ?k = "claim_key ord" and ?u = "bk_wallet b"
  obtain u1 fr where c: "claimOnce now ?k ?u = (u1, fr)" by (cases "claimOnce now ?k ?u")
  have fr: "fr \<longleftrightarrow> \<not> claimed now ?u ?k" using claimOnce_result [OF assms(2), of ?k ?u] c by simp
  have ok1: "wallet_ok u1" using claimOnce_ok [OF assms(1), of now ?k] c by simp
  have other: "claimed t u1 j = claimed t ?u j" if "now \<le> t" "j \<noteq> ?k" for t j
    using claimed_after [OF assms(1,2) that(1), of ?k j] that(2) c by simp
  have put: "claims (putOrder now o' u1) = claims u1" for o' using putOrder_paid_kept [OF ok1] by blast
  have keep: "claimed t (record_entry now d x rr f w) j = claimed t w j" "claimed t (putOrder now o' u1) j = claimed t u1 j"
    for t d x rr f w j o' by (simp_all add: claimed_def record_entry_frame put)
  show "claimed t (bk_wallet b') j = claimed t ?u j" if "now \<le> t" "j \<noteq> ?k"
    using assms(3) c other [OF that] that(2)
    by (auto simp: credit_def Let_def split_beta claimed_release keep split: if_splits)
  show "\<not> claimed now ?u ?k" if "r = Threw"
    using assms(3) c fr that by (auto simp: credit_def Let_def split_beta split: if_splits)
  show "fresh_credit r = (\<not> claimed now ?u ?k)"
    if "f_amount p = o_amount ord" "f_currency p = o_currency ord" "o_status ord \<noteq> Paid" "flt \<noteq> AddBalanceThrows"
    using assms(3) c fr that by (auto simp: credit_def Let_def split_beta fresh_credit_def split: if_splits)
qed

lemma credit_all_Cons:
  assumes "credit_all i (a # as) b = (b', rs)"
  obtains b1 r rs2 where "credit i (at_now a) (at_order a) (at_facts a) (at_fault a) b = (b1, r)"
    "credit_all i as b1 = (b', rs2)" "rs = r # rs2"
proof -
  obtain b1 r where 1: "credit i (at_now a) (at_order a) (at_facts a) (at_fault a) b = (b1, r)" by fastforce
  obtain b2 rs2 where 2: "credit_all i as b1 = (b2, rs2)" by fastforce
  show thesis by (rule that [OF 1, of rs2]) (use assms 1 2 in auto)
qed

lemma credit_all_ok:
  "wallet_ok (bk_wallet b) \<Longrightarrow> list_all (\<lambda>a. 0 \<le> at_now a) as \<Longrightarrow> credit_all i as b = (b', rs) \<Longrightarrow>
   wallet_ok (bk_wallet b') \<and> balance i (bk_store b') d = balance i (bk_store b) d + coins_to d as rs"
proof (induction as arbitrary: b rs)
  case (Cons a as)
  obtain b1 r rs2 where 1: "credit i (at_now a) (at_order a) (at_facts a) (at_fault a) b = (b1, r)"
      and 2: "credit_all i as b1 = (b', rs2)" "rs = r # rs2"
    using credit_all_Cons [OF Cons.prems(3)] .
  have t: "0 \<le> at_now a" "list_all (\<lambda>a. 0 \<le> at_now a) as" using Cons.prems(2) by auto
  show ?case
    using Cons.IH [OF credit_step(1) [OF Cons.prems(1) t(1) 1] t(2) 2(1)]
      credit_step(2) [OF Cons.prems(1) t(1) 1, of d] by (auto simp: 2(2))
qed simp

text \<open>While the claim is held past the last attempt, nothing is credited on that order.\<close>

lemma credit_all_claimed:
  "wallet_ok (bk_wallet b) \<Longrightarrow> list_all (\<lambda>a. 0 \<le> at_now a \<and> at_now a \<le> h) as \<Longrightarrow>
   claimed h (bk_wallet b) (''order:'' @ k) \<Longrightarrow> credit_all i as b = (b', rs) \<Longrightarrow> fresh_on k as rs = 0"
proof (induction as arbitrary: b rs)
  case (Cons a as)
  obtain b1 r rs2 where 1: "credit i (at_now a) (at_order a) (at_facts a) (at_fault a) b = (b1, r)"
      and 2: "credit_all i as b1 = (b', rs2)" "rs = r # rs2"
    using credit_all_Cons [OF Cons.prems(4)] .
  have t: "0 \<le> at_now a" "at_now a \<le> h" "list_all (\<lambda>a. 0 \<le> at_now a \<and> at_now a \<le> h) as" using Cons.prems(2) by auto
  note cs = credit_step [OF Cons.prems(1) t(1) 1] and cc = credit_claims [OF Cons.prems(1) t(1) 1]
  have now: "claimed (at_now a) (bk_wallet b) (''order:'' @ k)" using claimed_earlier [OF Cons.prems(3) t(2)] .
  have nf: "\<not> (fresh_credit r \<and> o_orderId (at_order a) = k)" using cs(4) now by (auto simp: claim_key_def)
  have nt: "\<not> (r = Threw \<and> o_orderId (at_order a) = k)" using cc(2) now by (auto simp: claim_key_def)
  have "claimed h (bk_wallet b1) (''order:'' @ k)"
  proof (cases "o_orderId (at_order a) = k")
    case True
    then show ?thesis using cs(3) [OF t(2)] nf nt Cons.prems(3) by (auto simp: claim_key_def)
  next
    case False
    then show ?thesis using cc(1) [OF t(2), of "''order:'' @ k"] Cons.prems(3) by (auto simp: claim_key_def)
  qed
  then show ?case using Cons.IH [OF cs(1) t(3) _ 2(1)] nf 2(2) by simp
qed simp

text \<open>Order \<open>k\<close> is unclaimed whenever an attempt is made, and a claim taken then is held at \<open>h\<close>.\<close>

definition unclaimed_at :: "millis \<Rightarrow> string \<Rightarrow> bank \<Rightarrow> attempt list \<Rightarrow> bool" where
  "unclaimed_at h k b as \<longleftrightarrow> list_all (\<lambda>a. 0 \<le> at_now a \<and> at_now a \<le> h \<and> h < at_now a + CLAIM_TTL_MS
     \<and> \<not> claimed (at_now a) (bk_wallet b) (''order:'' @ k)) as"

lemma unclaimed_at_Cons [simp]:
  "unclaimed_at h k b (a # as) \<longleftrightarrow> 0 \<le> at_now a \<and> at_now a \<le> h \<and> h < at_now a + CLAIM_TTL_MS
     \<and> \<not> claimed (at_now a) (bk_wallet b) (''order:'' @ k) \<and> unclaimed_at h k b as"
  by (simp add: unclaimed_at_def)

lemma credit_all_once:
  "wallet_ok (bk_wallet b) \<Longrightarrow> sorted (map at_now as) \<Longrightarrow> unclaimed_at h k b as \<Longrightarrow> credit_all i as b = (b', rs) \<Longrightarrow>
   fresh_on k as rs = (if list_ex (creditable k) as then 1 else 0)"
proof (induction as arbitrary: b rs)
  case (Cons a as)
  obtain b1 r rs2 where 1: "credit i (at_now a) (at_order a) (at_facts a) (at_fault a) b = (b1, r)"
      and 2: "credit_all i as b1 = (b', rs2)" "rs = r # rs2"
    using credit_all_Cons [OF Cons.prems(4)] .
  let ?t = "at_now a" and ?k = "''order:'' @ k"
  have t: "0 \<le> ?t" "?t \<le> h" "h < ?t + CLAIM_TTL_MS" "\<not> claimed ?t (bk_wallet b) ?k" "unclaimed_at h k b as"
      and srt: "sorted (map at_now as)" "\<forall>x \<in> set as. ?t \<le> at_now x"
    using Cons.prems(2,3) by auto
  note cs = credit_step [OF Cons.prems(1) t(1) 1] and cc = credit_claims [OF Cons.prems(1) t(1) 1]
  show ?case
  proof (cases "fresh_credit r \<and> o_orderId (at_order a) = k")
    case True
    have "claimed h (bk_wallet b1) ?k" using cs(3) [OF t(2)] True t(3) by (auto simp: claim_key_def)
    moreover have "list_all (\<lambda>a. 0 \<le> at_now a \<and> at_now a \<le> h) as"
      using t(5) by (auto simp: list_all_iff unclaimed_at_def)
    ultimately have "fresh_on k as rs2 = 0" using credit_all_claimed [OF cs(1) _ _ 2(1)] by blast
    moreover have "at_fault a \<noteq> AddBalanceThrows"
      using 1 True by (auto simp: credit_def Let_def split_beta fresh_credit_def split: if_splits)
    then have "creditable k a" using cs(5) True by (auto simp: creditable_def)
    ultimately show ?thesis using True by (simp add: 2(2))
  next
    case False
    have nc: "\<not> creditable k a" using False cc(3) t(4) by (auto simp: creditable_def claim_key_def)
    have "\<not> claimed s (bk_wallet b1) ?k" if "?t \<le> s" "\<not> claimed s (bk_wallet b) ?k" for s
    proof (cases "o_orderId (at_order a) = k")
      case True
      then show ?thesis using cs(3) [OF that(1)] False that(2) by (auto simp: claim_key_def)
    next
      case False
      then show ?thesis using cc(1) [OF that(1), of ?k] that(2) by (auto simp: claim_key_def)
    qed
    then have "unclaimed_at h k b1 as" using t(5) srt(2) by (auto simp: unclaimed_at_def list_all_iff)
    then show ?thesis using Cons.IH [OF cs(1) srt(1) _ 2(1)] False nc by (simp add: 2(2))
  qed
qed simp

section \<open>The paths that credit\<close>

lemma getOrder_found:
  "snd (getOrder now k u) = Some ord \<Longrightarrow> jget (orders u) k = Some ord"
  by (auto simp: getOrder_def split: option.splits if_splits)

lemma credit_moves:
  assumes "wallet_ok (bk_wallet b)" "0 \<le> now" "credit i now ord p flt b = (b', r)"
  shows "balance i (bk_store b') d = balance i (bk_store b) d + (if fresh_credit r \<and> d = o_deviceId ord then o_coins ord else 0)
    \<and> wallet_ok (bk_wallet b')
    \<and> (fresh_credit r \<longrightarrow> f_amount p = o_amount ord \<and> f_currency p = o_currency ord \<and> o_status ord \<noteq> Paid)"
  using credit_step(1,2,5) [OF assms] by blast

text \<open>What a checkout or a webhook is allowed to do to the balances.\<close>

definition moved_only :: "int \<Rightarrow> bank \<Rightarrow> bank \<Rightarrow> device_id \<Rightarrow> int \<Rightarrow> bool" where
  "moved_only i b b' d x \<longleftrightarrow>
     (\<forall>d'. balance i (bk_store b') d' = balance i (bk_store b) d' + (if d' = d then x else 0)) \<and> wallet_ok (bk_wallet b')"

lemma moved_nothing: "moved_only i b b' d 0 \<longleftrightarrow> (\<forall>d'. balance i (bk_store b') d' = balance i (bk_store b) d') \<and> wallet_ok (bk_wallet b')"
  by (simp add: moved_only_def)

text \<open>The order a credit went through for, with everything the payment had to satisfy.\<close>

definition paid_by :: "bank \<Rightarrow> string \<Rightarrow> payment \<Rightarrow> billing_order \<Rightarrow> bool" where
  "paid_by b orderId pay ord \<longleftrightarrow> jget (orders (bk_wallet b)) orderId = Some ord \<and> o_status ord \<noteq> Paid
     \<and> pay_order_id pay = Some orderId \<and> pay_amount pay = o_amount ord \<and> pay_currency pay = o_currency ord"

lemma verifyCheckout_cases:
  assumes "wallet_ok (bk_wallet b)" "0 \<le> now" "verifyCheckout gw i now d oid pid sig flt b = (b', r)"
  shows "(\<not> fresh_credit r \<and> moved_only i b b' d 0) \<or>
    (\<exists>g pay ord. fresh_credit r \<and> gw = Some g \<and> gw_verifyCheckout g oid pid sig \<and> gw_fetchPayment g pid = Some (Some pay)
       \<and> pay_status pay = PCaptured \<and> paid_by b oid pay ord \<and> o_deviceId ord = d \<and> moved_only i b b' d (o_coins ord))"
proof -
  obtain u1 found where go: "getOrder now oid (bk_wallet b) = (u1, found)" by fastforce
  have ok: "wallet_ok (bk_wallet (b\<lparr>bk_wallet := u1\<rparr>))" using getOrder_ok [OF assms(1), of now oid] go by simp
  show ?thesis
  proof (cases "\<exists>g ord pay. gw = Some g \<and> gw_verifyCheckout g oid pid sig \<and> found = Some ord \<and> o_deviceId ord = d
      \<and> o_status ord \<noteq> Paid \<and> gw_fetchPayment g pid = Some (Some pay) \<and> pay_order_id pay = Some oid \<and> pay_status pay = PCaptured")
    case True
    then obtain g ord pay where t: "gw = Some g" "gw_verifyCheckout g oid pid sig" "found = Some ord" "o_deviceId ord = d"
      "o_status ord \<noteq> Paid" "gw_fetchPayment g pid = Some (Some pay)" "pay_order_id pay = Some oid" "pay_status pay = PCaptured"
      by blast
    let ?p = "\<lparr>f_paymentId = pid, f_orderId = oid, f_amount = pay_amount pay, f_currency = pay_currency pay\<rparr>"
    have c: "credit i now ord ?p flt (b\<lparr>bk_wallet := u1\<rparr>) = (b', r)"
      using assms(3) go t by (simp add: verifyCheckout_def)
    have "jget (orders (bk_wallet b)) oid = Some ord" using getOrder_found [of now oid "bk_wallet b"] go t(3) by simp
    then show ?thesis
      using credit_moves [OF ok assms(2) c] t by (auto simp: moved_only_def paid_by_def)
  next
    case False
    then have "\<not> fresh_credit r \<and> bk_store b' = bk_store b \<and> bk_wallet b' \<in> {bk_wallet b, u1}"
      using assms(3) go by (auto simp: verifyCheckout_def fresh_credit_def Let_def split: option.splits if_splits)
    then show ?thesis using assms(1) ok by (auto simp: moved_only_def)
  qed
qed

lemma handleWebhook_cases:
  assumes "wallet_ok (bk_wallet b)" "0 \<le> now" "handleWebhook secret sig_ok body i now flt b = (b', r)"
  shows "(r \<noteq> WCredited \<and> moved_only i b b' d 0) \<or>
    (\<exists>ev pay oid ord. r = WCredited \<and> sig_ok \<and> secret \<noteq> None \<and> body = Some ev \<and> ev_name ev = ''payment.captured''
       \<and> ev_payment ev = Some pay \<and> paid_by b oid pay ord \<and> moved_only i b b' (o_deviceId ord) (o_coins ord))"
proof (cases "\<exists>ev pay oid. secret \<noteq> None \<and> secret \<noteq> Some '''' \<and> sig_ok \<and> body = Some ev \<and> ev_name ev = ''payment.captured''
    \<and> ev_payment ev = Some pay \<and> pay_order_id pay = Some oid \<and> snd (getOrder now oid (bk_wallet b)) \<noteq> None")
  case True
  then obtain ev pay oid ord where t: "secret \<noteq> None" "secret \<noteq> Some ''''" "sig_ok" "body = Some ev" "ev_name ev = ''payment.captured''"
    "ev_payment ev = Some pay" "pay_order_id pay = Some oid" "snd (getOrder now oid (bk_wallet b)) = Some ord" by blast
  obtain u1 where go: "getOrder now oid (bk_wallet b) = (u1, Some ord)" using t(8) by (cases "getOrder now oid (bk_wallet b)") simp
  have ok: "wallet_ok (bk_wallet (b\<lparr>bk_wallet := u1\<rparr>))" using getOrder_ok [OF assms(1), of now oid] go by simp
  let ?p = "\<lparr>f_paymentId = pay_id pay, f_orderId = oid, f_amount = pay_amount pay, f_currency = pay_currency pay\<rparr>"
  obtain b2 res where c: "credit i now ord ?p flt (b\<lparr>bk_wallet := u1\<rparr>) = (b2, res)" by fastforce
  have r: "b' = b2" "r = WCredited \<longleftrightarrow> fresh_credit res"
    using assms(3) go t c by (auto simp: handleWebhook_def fresh_credit_def split: credit_result.splits if_splits)
  have "jget (orders (bk_wallet b)) oid = Some ord" using getOrder_found [of now oid "bk_wallet b"] t(8) by simp
  then show ?thesis
    using credit_moves [OF ok assms(2) c] t r by (auto simp: moved_only_def paid_by_def)
next
  case False
  then show ?thesis
    using assms getOrder_ok [OF assms(1)]
    by (auto simp: handleWebhook_def moved_only_def split_beta split: option.splits if_splits)
qed

section \<open>The ledger agrees with the balance\<close>

definition in_books :: "int \<Rightarrow> millis \<Rightarrow> store \<Rightarrow> wallet \<Rightarrow> device_id \<Rightarrow> bool" where
  "in_books i now m u d \<longleftrightarrow> balance i m d = i + sum_list (map le_delta (ledger_of now u d))"

lemma in_books_record:
  assumes "wallet_ok u" "in_books i now m u d'" "length (ledger_of now u d) < LEDGER_MAX"
    "balance i m' d' = balance i m d' + (if d' = d then x else 0)"
  shows "in_books i now m' (record_entry now d x r f u) d'"
  using assms by (simp add: in_books_def ledger_of_record)

lemma in_books_cong:
  "ledger u' = ledger u \<Longrightarrow> (\<And>d. balance i m' d = balance i m d) \<Longrightarrow> in_books i now m' u' d = in_books i now m u d"
  by (simp add: in_books_def ledger_of_def)

lemma ledger_drop_order: "ledger (fold drop_order ks u) = ledger u" "ledger (evict_oldest ks u) = ledger u"
  by (induction ks arbitrary: u) (simp_all add: drop_order_def)

lemma putOrder_ledger [frame_simps]: "ledger (putOrder now ord u) = ledger u"
  by (simp add: putOrder_def Let_def evict_def ledger_drop_order)

text \<open>Taking \<open>x\<close> coins and entering \<open>x\<close> in a wallet with the same ledger.\<close>

lemma in_books_step:
  assumes "in_books i now m u d" "ledger u' = ledger u" "wallet_ok u'" "length (ledger_of now u d') < LEDGER_MAX"
    "\<And>d. balance i m' d = balance i m d + (if d = d' then x else 0)"
  shows "in_books i now m' (record_entry now d' x r f u') d"
proof -
  have "ledger_of now u' = ledger_of now u" using assms(2) by (simp add: ledger_of_def fun_eq_iff)
  then show ?thesis using assms by (intro in_books_record [where m = m]) (auto simp: in_books_def)
qed

lemma unlock_in_books:
  assumes "wallet_ok (bk_wallet b)" "in_books i now (bk_store b) (bk_wallet b) d" "length (ledger_of now (bk_wallet b) d') < LEDGER_MAX"
  shows "in_books i now (bk_store (fst (unlock i f now d' feature days b))) (bk_wallet (fst (unlock i f now d' feature days b))) d"
proof -
  let ?c = "gender_filter_coins_per_day f * days"
  obtain m1 taken where db: "debit i d' ?c (bk_store b) = (m1, taken)" by fastforce
  show ?thesis
  proof (cases taken)
    case None
    then show ?thesis
      using assms(2) debit_cases [OF db] db in_books_cong [of "bk_wallet b" "bk_wallet b" i m1 "bk_store b"]
      by (auto simp: unlock_def Let_def)
  next
    case (Some bal)
    have "in_books i now m1 (record_entry now d' (- ?c) r ref (fst (extendUnlock now d' feature ms (bk_wallet b)))) d" for r ref ms
      by (rule in_books_step [OF assms(2) _ _ assms(3)])
        (use debit_cases [OF db] Some assms(1) in \<open>auto simp: extendUnlock_def Let_def putUnlock_frame putUnlock_ok\<close>)
    then show ?thesis using db Some by (simp add: unlock_def Let_def split_beta)
  qed
qed

lemma credit_in_books:
  assumes "wallet_ok (bk_wallet b)" "in_books i now (bk_store b) (bk_wallet b) d"
    "length (ledger_of now (bk_wallet b) (o_deviceId ord)) < LEDGER_MAX"
  shows "in_books i now (bk_store (fst (credit i now ord p NoFault b))) (bk_wallet (fst (credit i now ord p NoFault b))) d"
proof -
  obtain u1 fr where c: "claimOnce now (claim_key ord) (bk_wallet b) = (u1, fr)" by fastforce
  have u1: "wallet_ok u1" "ledger u1 = ledger (bk_wallet b)"
    using claimOnce_ok [OF assms(1), of now "claim_key ord"] claimOnce_frame(1) [of now "claim_key ord" "bk_wallet b"] c by simp_all
  have "in_books i now (fst (addCoins (o_deviceId ord) (o_coins ord) i (bk_store b)))
      (record_entry now (o_deviceId ord) (o_coins ord) r ref (putOrder now o' u1)) d" for r ref o'
    using putOrder_paid_kept [OF u1(1)] u1(2)
    by (intro in_books_step [OF assms(2) _ _ assms(3)]) (auto simp: putOrder_ledger balance_addCoins)
  moreover have "in_books i now (bk_store b) u1 d" using assms(2) u1(2) in_books_cong [of u1 "bk_wallet b"] by simp
  ultimately show ?thesis using assms(2) c by (auto simp: credit_def Let_def split_beta)
qed

section \<open>Orders\<close>

lemma evict_oldest_bound:
  "set (jkeys (unpaid u)) \<subseteq> set ks \<Longrightarrow> length (orders (evict_oldest ks u)) \<le> ORDERS_MAX \<or> unpaid (evict_oldest ks u) = []"
proof (induction ks arbitrary: u)
  case (Cons k ks)
  have "set (jkeys (unpaid (drop_order k u))) \<subseteq> set ks"
    using Cons.prems by (auto simp: drop_order_def jkeys_def jdel_def)
  then show ?case using Cons.IH by simp
qed (simp add: jkeys_def)

lemma evict_bound: "length (orders (evict now u)) \<le> ORDERS_MAX \<or> unpaid (evict now u) = []"
  unfolding evict_def Let_def by (rule evict_oldest_bound) simp

lemma putOrder_bound: "length (orders (putOrder now ord u)) \<le> ORDERS_MAX \<or> unpaid (putOrder now ord u) = []"
  unfolding putOrder_def Let_def using evict_bound by (simp del: length_0_conv)

section \<open>Signatures\<close>

definition hex_string :: "string \<Rightarrow> bool" where
  "hex_string s \<longleftrightarrow> list_all (\<lambda>c. hex_digit c \<noteq> None) s"

lemma hex_digit_bound: "hex_digit c = Some n \<Longrightarrow> n < 16"
  by (auto simp: hex_digit_def Let_def split: if_splits)

lemma hex_pair_eq: "x < 16 \<Longrightarrow> y < 16 \<Longrightarrow> x' < 16 \<Longrightarrow> y' < (16::nat) \<Longrightarrow> 16 * x + y = 16 * x' + y' \<longleftrightarrow> x = x' \<and> y = y'"
  by (cases x x' rule: linorder_cases) auto

lemma hex_bytes_eq:
  "hex_string s \<Longrightarrow> hex_string t \<Longrightarrow> length s = length t \<Longrightarrow> even (length s) \<Longrightarrow>
   hex_bytes s = hex_bytes t \<longleftrightarrow> map hex_digit s = map hex_digit t"
proof (induction s arbitrary: t rule: hex_bytes.induct)
  case (1 a b s)
  then obtain c d t' where t: "t = c # d # t'" by (cases t; cases "tl t") auto
  obtain x y x' y' where h: "hex_digit a = Some x" "hex_digit b = Some y" "hex_digit c = Some x'" "hex_digit d = Some y'"
    using "1.prems" t by (auto simp: hex_string_def)
  note bd = h [THEN hex_digit_bound]
  have "hex_bytes s = hex_bytes t' \<longleftrightarrow> map hex_digit s = map hex_digit t'"
    using 1 t h by (auto simp: hex_string_def)
  then show ?case using h hex_pair_eq [OF bd(1,2,3,4)] by (auto simp: t)
qed auto

lemma macEquals_iff:
  assumes "hex_string expected" "even (length expected)" "expected \<noteq> []"
  shows "macEquals expected given \<longleftrightarrow> map hex_digit given = map hex_digit expected"
proof (cases "hex_string given \<and> length given = length expected")
  case True
  then show ?thesis
    using assms hex_bytes_eq [of expected given] by (auto simp: macEquals_def hex_string_def)
next
  case False
  have "hex_string given \<and> length given = length expected" if m: "map hex_digit given = map hex_digit expected"
  proof
    show "length given = length expected" using m by (rule map_eq_imp_length_eq)
    have "set (map hex_digit given) = set (map hex_digit expected)" using m by simp
    then show "hex_string given" using assms(1) unfolding hex_string_def list_all_iff by (metis imageE image_eqI list.set_map)
  qed
  then show ?thesis using False by (auto simp: macEquals_def hex_string_def)
qed

section \<open>Properties\<close>

lemma wallet_ok_new: "wallet_ok new_wallet"
  by (simp add: wallet_ok_def new_wallet_def jwf_def jkeys_def)

definition sample_order :: billing_order where
  "sample_order = \<lparr>o_orderId = ''o1'', o_deviceId = ''dev'', o_packId = ''small'', o_coins = 100, o_amount = 9900,
     o_currency = ''INR'', o_status = Created, o_paymentId = None, o_createdAt = 1000, o_paidAt = None\<rparr>"

definition sample_facts :: payment_facts where
  "sample_facts = \<lparr>f_paymentId = ''p1'', f_orderId = ''o1'', f_amount = 9900, f_currency = ''INR''\<rparr>"

definition sample_bank :: bank where
  "sample_bank = \<lparr>bk_store = new_store, bk_wallet = putOrder 1000 sample_order new_wallet, pushed = []\<rparr>"

definition sample_payment :: payment where
  "sample_payment = \<lparr>pay_id = ''p1'', pay_order_id = Some ''o1'', pay_amount = 9900, pay_currency = ''INR'', pay_status = PCaptured\<rparr>"

definition sample_gateway :: gateway where
  "sample_gateway = \<lparr>keyId = ''key'', gw_createOrder = (\<lambda>_ _. Some ''o1''), gw_fetchPayment = (\<lambda>_. Some (Some sample_payment)),
     gw_verifyCheckout = (\<lambda>_ _ s. s = ''good'')\<rparr>"

definition sample_attempts :: "attempt list" where
  "sample_attempts = map (\<lambda>(t, f). \<lparr>at_now = t, at_order = sample_order, at_facts = sample_facts, at_fault = f\<rparr>)
     [(2000, AddBalanceThrows), (3000, PutOrderThrows), (4000, NoFault)]"

lemma sample_bank_ok: "wallet_ok (bk_wallet sample_bank)"
  using putOrder_paid_kept [OF wallet_ok_new] by (simp add: sample_bank_def)



text \<open>
  C20: a checkout moves coins only when the gateway accepts the signature, the order is the caller's own and
  still unpaid, and the gateway reports a captured payment of that order over the right amount and currency;
  then exactly the order's coins go to that device. In every other case (errors, faults, repeats) no balance changes.
\<close>

theorem verifyCheckout_pays_only_for_captured:
  assumes "wallet_ok (bk_wallet b)" "0 \<le> now" "verifyCheckout gw i now d oid pid sig flt b = (b', r)"
  shows "(\<not> fresh_credit r \<and> moved_only i b b' d 0) \<or>
    (\<exists>g pay ord. fresh_credit r \<and> gw = Some g \<and> gw_verifyCheckout g oid pid sig \<and> gw_fetchPayment g pid = Some (Some pay)
       \<and> pay_status pay = PCaptured \<and> paid_by b oid pay ord \<and> o_deviceId ord = d \<and> moved_only i b b' d (o_coins ord))"
  by (rule verifyCheckout_cases [OF assms])

theorem verifyCheckout_pays_only_for_captured_witness:
  "snd (verifyCheckout (Some sample_gateway) 50 2000 ''dev'' ''o1'' ''p1'' ''good'' NoFault sample_bank) = Credited 150 True
   \<and> balance 50 (bk_store (fst (verifyCheckout (Some sample_gateway) 50 2000 ''dev'' ''o1'' ''p1'' ''good'' NoFault sample_bank))) ''dev'' = 150"
proof -
  obtain b' r where c: "verifyCheckout (Some sample_gateway) 50 2000 ''dev'' ''o1'' ''p1'' ''good'' NoFault sample_bank = (b', r)"
    by fastforce
  have r: "snd (verifyCheckout (Some sample_gateway) 50 2000 ''dev'' ''o1'' ''p1'' ''good'' NoFault sample_bank) = Credited 150 True"
    by code_simp
  have o: "jget (orders (bk_wallet sample_bank)) ''o1'' = Some sample_order" "balance 50 (bk_store sample_bank) ''dev'' = 50"
    by code_simp+
  have "balance 50 (bk_store b') ''dev'' = 150"
    using verifyCheckout_pays_only_for_captured [OF sample_bank_ok _ c] r c o
    by (auto simp: fresh_credit_def moved_only_def paid_by_def sample_order_def)
  then show ?thesis using r c by simp
qed

text \<open>
  C21: a webhook moves coins only when its signature was accepted and it reports a captured payment of a known,
  unpaid order over the right amount and currency, and then exactly that order's coins go to the order's device;
  every other outcome leaves every balance as it was.
\<close>

theorem handleWebhook_credits_only_captured:
  assumes "wallet_ok (bk_wallet b)" "0 \<le> now" "handleWebhook secret sig_ok body i now flt b = (b', r)"
  shows "(r \<noteq> WCredited \<and> moved_only i b b' d 0) \<or>
    (\<exists>ev pay oid ord. r = WCredited \<and> sig_ok \<and> secret \<noteq> None \<and> body = Some ev \<and> ev_name ev = ''payment.captured''
       \<and> ev_payment ev = Some pay \<and> paid_by b oid pay ord \<and> moved_only i b b' (o_deviceId ord) (o_coins ord))"
  using handleWebhook_cases [OF assms] by (auto simp: moved_only_def)

theorem handleWebhook_credits_only_captured_witness:
  "snd (handleWebhook (Some ''s'') True (Some \<lparr>ev_name = ''payment.failed'', ev_payment = Some sample_payment\<rparr>) 50 2000 NoFault sample_bank) = WIgnored
   \<and> moved_only 50 sample_bank (fst (handleWebhook (Some ''s'') True
       (Some \<lparr>ev_name = ''payment.failed'', ev_payment = Some sample_payment\<rparr>) 50 2000 NoFault sample_bank)) ''dev'' 0"
proof -
  let ?ev = "Some \<lparr>ev_name = ''payment.failed'', ev_payment = Some sample_payment\<rparr>"
  obtain b' r where c: "handleWebhook (Some ''s'') True ?ev 50 2000 NoFault sample_bank = (b', r)" by fastforce
  have r: "snd (handleWebhook (Some ''s'') True ?ev 50 2000 NoFault sample_bank) = WIgnored" by code_simp
  show ?thesis
    using handleWebhook_credits_only_captured [OF sample_bank_ok _ c, of "''dev''"] r c by auto
qed

text \<open>
  C22: an unlock either takes exactly the price (never below zero) and entitles the device until the price's
  number of days after the later of now and the running unlock, or, when the balance is short, is refused with
  every balance and the whole wallet as before.
\<close>

theorem unlock_takes_the_price:
  assumes "wallet_ok (bk_wallet b)" "unlock i f now d feature days b = (b', r)" "cost = gender_filter_coins_per_day f * days"
  shows "if balance i (bk_store b) d < cost then r = Inl InsufficientCoins \<and> bk_wallet b' = bk_wallet b
        \<and> (\<forall>d'. balance i (bk_store b') d' = balance i (bk_store b) d')
    else \<exists>expiry. r = Inr (balance i (bk_store b) d - cost, expiry) \<and> moved_only i b b' d (- cost)
        \<and> expiry = max now (case getUnlock now (bk_wallet b) d feature of Some t \<Rightarrow> t | None \<Rightarrow> 0) + days * 86400000
        \<and> (\<forall>t. now \<le> t \<and> t < expiry + WALLET_IDLE_TTL_MS \<longrightarrow> entitled t (bk_wallet b') d feature = (t < expiry))"
proof -
  obtain m1 taken where db: "debit i d cost (bk_store b) = (m1, taken)" by fastforce
  note cases = debit_cases [OF db]
  let ?x = "max now (case getUnlock now (bk_wallet b) d feature of Some t \<Rightarrow> t | None \<Rightarrow> 0) + days * 86400000"
  have ok: "wallet_ok (putUnlock now d feature ?x (bk_wallet b))" by (rule putUnlock_ok [OF assms(1)])
  show ?thesis
  proof (cases "balance i (bk_store b) d < cost")
    case True
    then show ?thesis using cases assms(2,3) db by (auto simp: unlock_def Let_def)
  next
    case False
    have w: "bk_wallet b' = record_entry now d (- cost) UnlockSpend (TextRef (''gender_filter:'' @ show_nat (nat days) @ ''d''))
        (putUnlock now d feature ?x (bk_wallet b))" "bk_store b' = m1" "r = Inr (balance i (bk_store b) d - cost, ?x)"
      using False cases assms(2,3) db by (auto simp: unlock_def Let_def extendUnlock_def)
    have "entitled t (bk_wallet b') d feature = (t < ?x)" if "now \<le> t" "t < ?x + WALLET_IDLE_TTL_MS" for t
      using getUnlock_put [OF assms(1) that] by (simp add: w(1) entitled_def)
    then show ?thesis
      using False cases w record_entry_ok [OF ok] by (simp add: moved_only_def)
  qed
qed

theorem unlock_takes_the_price_witness:
  "snd (unlock 50 FLAG_DEFAULTS 1000 ''dev'' gender_filter_unlock 100000 sample_bank) = Inl InsufficientCoins"
proof -
  obtain b' r where c: "unlock 50 FLAG_DEFAULTS 1000 ''dev'' gender_filter_unlock 100000 sample_bank = (b', r)" by fastforce
  have "balance 50 (bk_store sample_bank) ''dev'' < gender_filter_coins_per_day FLAG_DEFAULTS * 100000" by code_simp
  then show ?thesis using unlock_takes_the_price [OF sample_bank_ok c refl] c by simp
qed



text \<open>
  Storing an order keeps the wallet well formed, never loses a paid order (neither the one stored nor any
  other), and leaves at most \<open>ORDERS_MAX\<close> orders unless every order kept is paid.
\<close>

theorem putOrder_keeps_paid:
  assumes "wallet_ok u"
  shows "wallet_ok (putOrder now ord u)
    \<and> (o_status ord = Paid \<longrightarrow> jget (orders (putOrder now ord u)) (o_orderId ord) = Some ord)
    \<and> (\<forall>k o'. k \<noteq> o_orderId ord \<and> jget (orders u) k = Some o' \<and> o_status o' = Paid \<longrightarrow>
         jget (orders (putOrder now ord u)) k = Some o')
    \<and> (length (orders (putOrder now ord u)) \<le> ORDERS_MAX \<or> unpaid (putOrder now ord u) = [])"
  using putOrder_paid_kept [OF assms, of now ord] putOrder_bound [of now ord u] by blast

theorem putOrder_keeps_paid_witness:
  "jget (orders (putOrder 5 sample_order (putOrder 4 (sample_order\<lparr>o_orderId := ''o2'', o_status := Paid\<rparr>) new_wallet))) ''o2''
     = Some (sample_order\<lparr>o_orderId := ''o2'', o_status := Paid\<rparr>)"
proof -
  let ?o = "sample_order\<lparr>o_orderId := ''o2'', o_status := Paid\<rparr>"
  have 1: "wallet_ok (putOrder 4 ?o new_wallet)" using putOrder_paid_kept [OF wallet_ok_new] by blast
  have 2: "jget (orders (putOrder 4 ?o new_wallet)) ''o2'' = Some ?o" by code_simp
  show ?thesis using putOrder_keeps_paid [OF 1, of 5 sample_order] 2 by (simp add: sample_order_def)
qed

text \<open>
  The checkout signature is accepted exactly when the given string spells, in either letter case, the
  hex digest computed over \<open>orderId|paymentId\<close>; in particular no shorter or longer string passes.
\<close>

theorem checkout_signature_exact:
  assumes "\<And>k m. hex_string (hmac k m) \<and> length (hmac k m) = 64"
  shows "verifyCheckoutSignature hmac secret oid pid given \<longleftrightarrow> map hex_digit given = map hex_digit (hmac secret (oid @ ''|'' @ pid))"
  unfolding verifyCheckoutSignature_def by (rule macEquals_iff) (use assms [of secret "oid @ ''|'' @ pid"] in auto)

theorem checkout_signature_exact_witness:
  "verifyCheckoutSignature (\<lambda>_ _. replicate 64 CHR ''a'') ''k'' ''o1'' ''p1'' (replicate 64 CHR ''A'')"
  using checkout_signature_exact [of "\<lambda>_ _. replicate 64 CHR ''a''" "''k''" "''o1''" "''p1''" "replicate 64 CHR ''A''"]
  by (simp add: hex_string_def list_all_iff hex_digit_def)

end
