(* ===== verification/Signals.thy ===== *)
theory Signals
  imports Complex_Main Protocol
begin

text \<open>
  Soft abuse signals (\<open>backend/src/safety/signals.ts\<close>): the in-memory \<open>SignalStore\<close> and the
  \<open>SafetySignals\<close> service over it. The service fires its store updates without waiting for
  them; the in-memory store runs them before the call returns, so each is one state change
  here. Metrics and log lines are left out. The share of early skips is compared exactly: for
  counts below \<open>2^50\<close> the rounded quotient of two integers compares with the configured share
  as the exact one does.
\<close>

section \<open>Constants and configuration\<close>

definition RISK_WINDOW_MS :: millis where "RISK_WINDOW_MS = 86400000"
definition CALLS_TTL_MS :: millis where "CALLS_TTL_MS = 7 * 86400000"
definition LOW_PRIORITY_CACHE_MS :: millis where "LOW_PRIORITY_CACHE_MS = 1000"
definition NUDGE_COOLDOWN_MS :: millis where "NUDGE_COOLDOWN_MS = 60000"
definition DEDUPE_MAX :: nat where "DEDUPE_MAX = 50000"
definition ACCEPT_TIMEOUT_STRIKES :: nat where "ACCEPT_TIMEOUT_STRIKES = 3"
definition ACCEPT_TIMEOUT_WINDOW_MS :: millis where "ACCEPT_TIMEOUT_WINDOW_MS = 600000"
definition ACCEPT_TIMEOUT_COOLDOWN_MS :: millis where "ACCEPT_TIMEOUT_COOLDOWN_MS = 60000"

datatype signal_kind = VirtualCamera | NsfwBlur | NoFace | ModelUnavailable

datatype signal_target = AgainstSelf | AgainstPartner

fun SIGNAL_RISK :: "signal_kind \<Rightarrow> int \<times> signal_target" where
  "SIGNAL_RISK VirtualCamera = (3, AgainstSelf)"
| "SIGNAL_RISK NsfwBlur = (2, AgainstPartner)"
| "SIGNAL_RISK NoFace = (0, AgainstSelf)"
| "SIGNAL_RISK ModelUnavailable = (0, AgainstSelf)"

datatype nudge_kind = Solicitation | ContactSharing

fun NUDGE_RISK :: "nudge_kind \<Rightarrow> int" where
  "NUDGE_RISK Solicitation = 2"
| "NUDGE_RISK ContactSharing = 1"

text \<open>
  What a nudge is counted by: a room and a kind, or, for a hidden link, a room and the sender.
\<close>

datatype nudge_key = RoomNudge uuid nudge_kind | LinkNudge uuid socket_id

record signal_config =
  earlySkipMs :: millis
  earlySkipMinCalls :: nat
  earlySkipShare :: rat
  riskThreshold :: int
  lowPriorityMs :: millis

section \<open>The store\<close>

record call_stats =
  cs_calls :: nat
  cs_early :: nat

record signal_store =
  sg_risk :: "(device_id, int \<times> millis) jmap"
  sg_calls :: "(device_id, call_stats \<times> millis) jmap"
  sg_low :: "(device_id, millis) jmap"
  sg_expiries :: "(device_id, nat \<times> millis) jmap"
  sg_cooldowns :: "(device_id, millis) jmap"

definition new_signal_store :: signal_store where
  "new_signal_store = \<lparr>sg_risk = [], sg_calls = [], sg_low = [], sg_expiries = [], sg_cooldowns = []\<rparr>"

text \<open>After a write, a map that has outgrown \<open>DEDUPE_MAX\<close> drops its lapsed entries.\<close>

definition bounded :: "millis \<Rightarrow> ('k, 'v \<times> millis) jmap \<Rightarrow> ('k, 'v \<times> millis) jmap" where
  "bounded now m = (if DEDUPE_MAX < length m then keep_live now m else m)"

definition sg_addRisk :: "millis \<Rightarrow> device_id \<Rightarrow> int \<Rightarrow> millis \<Rightarrow> signal_store \<Rightarrow> signal_store \<times> int" where
  "sg_addRisk now d points windowMs s =
     (let total = (case live now (sg_risk s) d of Some p \<Rightarrow> p | None \<Rightarrow> 0) + points in
      (s\<lparr>sg_risk := bounded now (jset (sg_risk s) d (total, now + windowMs))\<rparr>, total))"

text \<open>
  \<open>touchCalls\<close> hands out the stored object for the caller to count in; here the caller's change
  \<open>f\<close> is applied to the entry as it is written.
\<close>

definition touchCalls :: "millis \<Rightarrow> device_id \<Rightarrow> (call_stats \<Rightarrow> call_stats) \<Rightarrow> signal_store \<Rightarrow> signal_store \<times> call_stats" where
  "touchCalls now d f s =
     (let c = f (case live now (sg_calls s) d of Some c \<Rightarrow> c | None \<Rightarrow> \<lparr>cs_calls = 0, cs_early = 0\<rparr>) in
      (s\<lparr>sg_calls := bounded now (jset (sg_calls s) d (c, now + CALLS_TTL_MS))\<rparr>, c))"

definition recordCall :: "millis \<Rightarrow> device_id \<Rightarrow> signal_store \<Rightarrow> signal_store" where
  "recordCall now d s = fst (touchCalls now d (\<lambda>c. c\<lparr>cs_calls := cs_calls c + 1\<rparr>) s)"

definition recordEarlySkip :: "millis \<Rightarrow> device_id \<Rightarrow> signal_store \<Rightarrow> signal_store \<times> call_stats" where
  "recordEarlySkip now d s = touchCalls now d (\<lambda>c. c\<lparr>cs_early := cs_early c + 1\<rparr>) s"

definition sg_setLowPriority :: "device_id \<Rightarrow> millis \<Rightarrow> signal_store \<Rightarrow> signal_store" where
  "sg_setLowPriority d t s =
     s\<lparr>sg_low := jset (sg_low s) d (max t (case jget (sg_low s) d of Some u \<Rightarrow> u | None \<Rightarrow> 0))\<rparr>"

definition sg_lowPriority :: "millis \<Rightarrow> signal_store \<Rightarrow> signal_store \<times> device_id list" where
  "sg_lowPriority now s =
     (let kept = jkeep (\<lambda>t. now < t) (sg_low s) in (s\<lparr>sg_low := kept\<rparr>, jkeys kept))"

definition recordAcceptTimeout :: "millis \<Rightarrow> device_id \<Rightarrow> millis \<Rightarrow> signal_store \<Rightarrow> signal_store \<times> nat" where
  "recordAcceptTimeout now d windowMs s =
     (let n = (case live now (sg_expiries s) d of Some c \<Rightarrow> c | None \<Rightarrow> 0) + 1 in
      (s\<lparr>sg_expiries := bounded now (jset (sg_expiries s) d (n, now + windowMs))\<rparr>, n))"

definition setAcceptCooldown :: "millis \<Rightarrow> device_id \<Rightarrow> millis \<Rightarrow> signal_store \<Rightarrow> signal_store" where
  "setAcceptCooldown now d t s =
     (let m = jset (sg_cooldowns s) d t in
      s\<lparr>sg_cooldowns := (if DEDUPE_MAX < length m then jkeep (\<lambda>u. now < u) m else m)\<rparr>)"

definition acceptCooldownUntil :: "millis \<Rightarrow> device_id \<Rightarrow> signal_store \<Rightarrow> signal_store \<times> millis option" where
  "acceptCooldownUntil now d s =
     (case jget (sg_cooldowns s) d of
        None \<Rightarrow> (s, None)
      | Some t \<Rightarrow> if t \<le> now then (s\<lparr>sg_cooldowns := jdel (sg_cooldowns s) d\<rparr>, None) else (s, Some t))"

section \<open>The service\<close>

text \<open>
  \<open>seenSignals\<close> and \<open>nudgedAt\<close> are keyed by strings joined with colons from fields without
  colons (socket ids, room ids, kinds), kept here as tuples.
\<close>

record signals =
  sig_store :: signal_store
  lowCache :: "(millis \<times> device_id list) option"
  seenSignals :: "(socket_id \<times> uuid \<times> signal_kind) list"
  nudgedAt :: "(nudge_key, millis) jmap"

definition new_signals :: signals where
  "new_signals = \<lparr>sig_store = new_signal_store, lowCache = None, seenSignals = [], nudgedAt = []\<rparr>"

definition lowPriority :: "millis \<Rightarrow> signals \<Rightarrow> signals \<times> device_id list" where
  "lowPriority now g =
     (case lowCache g of
        Some (t0, ds) \<Rightarrow>
          if now - t0 < LOW_PRIORITY_CACHE_MS then (g, ds)
          else (let (s, ds') = sg_lowPriority now (sig_store g) in (g\<lparr>sig_store := s, lowCache := Some (now, ds')\<rparr>, ds'))
      | None \<Rightarrow> (let (s, ds') = sg_lowPriority now (sig_store g) in (g\<lparr>sig_store := s, lowCache := Some (now, ds')\<rparr>, ds')))"

definition markLow :: "signal_config \<Rightarrow> millis \<Rightarrow> device_id \<Rightarrow> signals \<Rightarrow> signals" where
  "markLow c now d g =
     (let g1 = fst (lowPriority now g);
          g2 = g1\<lparr>sig_store := sg_setLowPriority d (now + lowPriorityMs c) (sig_store g1)\<rparr> in
      g2\<lparr>lowCache := map_option (\<lambda>(t0, ds). (t0, sadd d ds)) (lowCache g2)\<rparr>)"

definition callStarted :: "millis \<Rightarrow> device_id list \<Rightarrow> signals \<Rightarrow> signals" where
  "callStarted now ds g = g\<lparr>sig_store := fold (recordCall now) ds (sig_store g)\<rparr>"

definition early_share :: "signal_config \<Rightarrow> call_stats \<Rightarrow> bool" where
  "early_share c s \<longleftrightarrow> cs_calls s \<ge> earlySkipMinCalls c \<and>
     (cs_calls s = 0 \<or> earlySkipShare c \<le> of_nat (cs_early s) / of_nat (cs_calls s))"

definition skipped_early :: "signal_config \<Rightarrow> millis \<Rightarrow> device_id \<Rightarrow> millis \<Rightarrow> signals \<Rightarrow> signals" where
  "skipped_early c now d msSinceStart g =
     (if msSinceStart > earlySkipMs c then g
      else
        let (s, st) = recordEarlySkip now d (sig_store g); g1 = g\<lparr>sig_store := s\<rparr> in
        if early_share c st then markLow c now d g1 else g1)"

definition acceptTimedOut :: "millis \<Rightarrow> device_id \<Rightarrow> signals \<Rightarrow> signals" where
  "acceptTimedOut now d g =
     (let (s, n) = recordAcceptTimeout now d ACCEPT_TIMEOUT_WINDOW_MS (sig_store g) in
      if n < ACCEPT_TIMEOUT_STRIKES then g\<lparr>sig_store := s\<rparr>
      else g\<lparr>sig_store := setAcceptCooldown now d (now + ACCEPT_TIMEOUT_COOLDOWN_MS) s\<rparr>)"

definition acceptCooldownMs :: "millis \<Rightarrow> device_id \<Rightarrow> signals \<Rightarrow> signals \<times> millis" where
  "acceptCooldownMs now d g =
     (let (s, t) = acceptCooldownUntil now d (sig_store g) in
      (g\<lparr>sig_store := s\<rparr>, (case t of None \<Rightarrow> 0 | Some u \<Rightarrow> max 0 (u - now))))"

definition addRisk :: "signal_config \<Rightarrow> millis \<Rightarrow> device_id \<Rightarrow> int \<Rightarrow> signals \<Rightarrow> signals" where
  "addRisk c now d points g =
     (let (s, total) = sg_addRisk now d points RISK_WINDOW_MS (sig_store g); g1 = g\<lparr>sig_store := s\<rparr> in
      if riskThreshold c \<le> total then markLow c now d g1 else g1)"

definition firstTime :: "socket_id \<times> uuid \<times> signal_kind \<Rightarrow> signals \<Rightarrow> signals \<times> bool" where
  "firstTime k g =
     (if k \<in> set (seenSignals g) then (g, False)
      else
        let seen = (if DEDUPE_MAX \<le> length (seenSignals g) then [] else seenSignals g) in
        (g\<lparr>seenSignals := sadd k seen\<rparr>, True))"

definition moderation_signal ::
  "signal_config \<Rightarrow> millis \<Rightarrow> socket_id \<Rightarrow> uuid \<Rightarrow> signal_kind \<Rightarrow> device_id \<Rightarrow> device_id option \<Rightarrow> signals \<Rightarrow> signals" where
  "moderation_signal c now sock rm kind self partner g =
     (let (g1, fresh) = firstTime (sock, rm, kind) g in
      if \<not> fresh then g1
      else
        let (points, against) = SIGNAL_RISK kind;
            target = (if against = AgainstSelf then Some self else partner) in
        case target of
          Some t \<Rightarrow> if 0 < points \<and> t \<noteq> [] then addRisk c now t points g1 else g1
        | None \<Rightarrow> g1)"

definition shouldNudge :: "millis \<Rightarrow> nudge_key \<Rightarrow> signals \<Rightarrow> signals \<times> bool" where
  "shouldNudge now k g =
     (case jget (nudgedAt g) k of
        Some t \<Rightarrow> if now - t < NUDGE_COOLDOWN_MS then (g, False)
          else (g\<lparr>nudgedAt := jset (if DEDUPE_MAX < length (nudgedAt g) then jkeep (\<lambda>u. now - u < NUDGE_COOLDOWN_MS) (nudgedAt g) else nudgedAt g) k now\<rparr>, True)
      | None \<Rightarrow>
          (g\<lparr>nudgedAt := jset (if DEDUPE_MAX < length (nudgedAt g) then jkeep (\<lambda>u. now - u < NUDGE_COOLDOWN_MS) (nudgedAt g) else nudgedAt g) k now\<rparr>, True))"

section \<open>Facts\<close>

definition signals_ok :: "signal_store \<Rightarrow> bool" where
  "signals_ok s \<longleftrightarrow> jwf (sg_risk s) \<and> jwf (sg_calls s) \<and> jwf (sg_low s) \<and> jwf (sg_expiries s) \<and> jwf (sg_cooldowns s)"

lemma jwf_bounded [simp, intro]: "jwf m \<Longrightarrow> jwf (bounded now m)"
  by (simp add: bounded_def)

lemma live_bounded: "jwf m \<Longrightarrow> now \<le> t \<Longrightarrow> live t (bounded now m) k = live t m k"
  by (simp add: bounded_def live_keep_live)

text \<open>The strikes of a device at the given times, in order.\<close>

definition strike_all :: "device_id \<Rightarrow> millis list \<Rightarrow> signals \<Rightarrow> signals" where
  "strike_all d ts g = fold (\<lambda>t. acceptTimedOut t d) ts g"

definition on_cooldown :: "millis \<Rightarrow> device_id \<Rightarrow> signals \<Rightarrow> bool" where
  "on_cooldown now d g \<longleftrightarrow> snd (acceptCooldownMs now d g) > 0"

text \<open>Strikes that each come before the previous one's window has run out.\<close>

fun spaced :: "millis list \<Rightarrow> bool" where
  "spaced (t # u # ts) \<longleftrightarrow> t \<le> u \<and> u < t + ACCEPT_TIMEOUT_WINDOW_MS \<and> spaced (u # ts)"
| "spaced _ \<longleftrightarrow> True"

lemma recordAcceptTimeout_facts:
  assumes "jwf (sg_expiries s)"
  shows "snd (recordAcceptTimeout now d w s) = (case live now (sg_expiries s) d of Some c \<Rightarrow> c | None \<Rightarrow> 0) + 1"
    and "now \<le> t \<Longrightarrow> live t (sg_expiries (fst (recordAcceptTimeout now d w s))) d' =
      (if d' = d then (if now + w \<le> t then None else Some (snd (recordAcceptTimeout now d w s)))
       else live t (sg_expiries s) d')"
    and "jwf (sg_expiries (fst (recordAcceptTimeout now d w s)))"
    and "sg_cooldowns (fst (recordAcceptTimeout now d w s)) = sg_cooldowns s"
  using assms by (simp_all add: recordAcceptTimeout_def Let_def live_bounded)

lemma acceptTimedOut_facts:
  fixes d :: device_id
  assumes "jwf (sg_expiries (sig_store g))" "now \<le> t"
  defines "n \<equiv> (case live now (sg_expiries (sig_store g)) d of Some c \<Rightarrow> c | None \<Rightarrow> 0) + 1"
  shows "live t (sg_expiries (sig_store (acceptTimedOut now d g))) d =
      (if now + ACCEPT_TIMEOUT_WINDOW_MS \<le> t then None else Some n)"
    and "jwf (sg_expiries (sig_store (acceptTimedOut now d g)))"
    and "jwf (sg_cooldowns (sig_store g)) \<Longrightarrow> jwf (sg_cooldowns (sig_store (acceptTimedOut now d g)))"
    and "jwf (sg_cooldowns (sig_store g)) \<Longrightarrow> n \<ge> ACCEPT_TIMEOUT_STRIKES \<Longrightarrow>
      on_cooldown t d (acceptTimedOut now d g) \<longleftrightarrow> t < now + ACCEPT_TIMEOUT_COOLDOWN_MS"
proof -
  obtain s m where r: "recordAcceptTimeout now d ACCEPT_TIMEOUT_WINDOW_MS (sig_store g) = (s, m)"
    by (cases "recordAcceptTimeout now d ACCEPT_TIMEOUT_WINDOW_MS (sig_store g)")
  note f = recordAcceptTimeout_facts [OF assms(1), where now = now and d = d and w = ACCEPT_TIMEOUT_WINDOW_MS, unfolded r]
  have m: "m = n" using f(1) by (simp add: n_def)
  show "live t (sg_expiries (sig_store (acceptTimedOut now d g))) d =
      (if now + ACCEPT_TIMEOUT_WINDOW_MS \<le> t then None else Some n)"
    and "jwf (sg_expiries (sig_store (acceptTimedOut now d g)))"
    using f(2) [where t = t and d' = d] f(3) assms(2) m by (auto simp: acceptTimedOut_def r setAcceptCooldown_def Let_def)
  show "jwf (sg_cooldowns (sig_store g)) \<Longrightarrow> jwf (sg_cooldowns (sig_store (acceptTimedOut now d g)))"
    using f(4) by (auto simp: acceptTimedOut_def r setAcceptCooldown_def Let_def)
  assume "jwf (sg_cooldowns (sig_store g))" "n \<ge> ACCEPT_TIMEOUT_STRIKES"
  then have "jget (sg_cooldowns (sig_store (acceptTimedOut now d g))) d = Some (now + ACCEPT_TIMEOUT_COOLDOWN_MS)"
    using m f(4) by (auto simp: acceptTimedOut_def r setAcceptCooldown_def Let_def jget_jkeep ACCEPT_TIMEOUT_COOLDOWN_MS_def)
  then show "on_cooldown t d (acceptTimedOut now d g) \<longleftrightarrow> t < now + ACCEPT_TIMEOUT_COOLDOWN_MS"
    by (auto simp: on_cooldown_def acceptCooldownMs_def acceptCooldownUntil_def)
qed

lemma strike_all_Nil [simp]: "strike_all d [] g = g"
  by (simp add: strike_all_def)

lemma strike_all_Cons [simp]: "strike_all d (t # ts) g = strike_all d ts (acceptTimedOut t d g)"
  by (simp add: strike_all_def)

text \<open>
  The count restarts its window with every strike: after \<open>spaced\<close> strikes it is their number,
  and from the third on each starts a cooldown of a minute.
\<close>

lemma strike_all_count:
  assumes "jwf (sg_expiries (sig_store g))" "jwf (sg_cooldowns (sig_store g))" "spaced (t # ts)"
    "live t (sg_expiries (sig_store g)) d = (if k = 0 then None else Some k)"
    "k + length (t # ts) \<ge> ACCEPT_TIMEOUT_STRIKES" "last (t # ts) \<le> u"
  shows "on_cooldown u d (strike_all d (t # ts) g) \<longleftrightarrow> u < last (t # ts) + ACCEPT_TIMEOUT_COOLDOWN_MS"
  using assms
proof (induction ts arbitrary: t g k)
  case Nil
  have n: "(case live t (sg_expiries (sig_store g)) d of Some c \<Rightarrow> c | None \<Rightarrow> 0) + 1 = k + 1"
    using Nil.prems(4) by simp
  show ?case
    using acceptTimedOut_facts(4) [OF Nil.prems(1), of t u d, unfolded n] Nil.prems(2,5,6) by simp
next
  case (Cons t' ts)
  have n: "(case live t (sg_expiries (sig_store g)) d of Some c \<Rightarrow> c | None \<Rightarrow> 0) + 1 = k + 1"
    using Cons.prems(4) by simp
  have le: "t \<le> t'" "t' < t + ACCEPT_TIMEOUT_WINDOW_MS" and sp: "spaced (t' # ts)" using Cons.prems(3) by simp_all
  note f = acceptTimedOut_facts [OF Cons.prems(1) le(1), of d, unfolded n]
  have "live t' (sg_expiries (sig_store (acceptTimedOut t d g))) d = (if Suc k = 0 then None else Some (Suc k))"
    using f(1) le(2) by simp
  then show ?case
    using Cons.IH [OF f(2) f(3) [OF Cons.prems(2)] sp, of "Suc k"] Cons.prems(5,6) by simp
qed

text \<open>Low priority never ends earlier than it would have.\<close>

lemma setLowPriority_extends:
  "jget (sg_low s) d' = Some t \<Longrightarrow> \<exists>t'. jget (sg_low (sg_setLowPriority d u s)) d' = Some t' \<and> t \<le> t'"
  by (auto simp: sg_setLowPriority_def)

end
