(* ===== verification/RateLimit.thy ===== *)
theory RateLimit
  imports Complex_Main Geo
begin

text \<open>
  Token buckets and what is built on them: \<open>backend/src/rateLimit.ts\<close> (the bucket, eviction from a
  bounded map, the limiter of a socket), the packet budgets of \<open>backend/src/realtime/limitedParser.ts\<close>,
  the per-key buckets of \<open>backend/src/http/public.ts\<close>, the connection gate of
  \<open>backend/src/realtime/socket.ts\<close> and the overload detection of \<open>backend/src/shed/\<close>. Token counts
  are exact rationals here, floating-point numbers in the code. Metrics are left out.
\<close>

section \<open>The token bucket\<close>

record bucket_spec =
  capacity :: rat
  refillPerSec :: rat

record token_bucket =
  tb_spec :: bucket_spec
  tb_tokens :: rat
  tb_last :: millis

definition new_bucket :: "bucket_spec \<Rightarrow> millis \<Rightarrow> token_bucket" where
  "new_bucket spec now = \<lparr>tb_spec = spec, tb_tokens = capacity spec, tb_last = now\<rparr>"

definition elapsedSec :: "millis \<Rightarrow> token_bucket \<Rightarrow> rat" where
  "elapsedSec now b = of_int (max 0 (now - tb_last b)) / 1000"

definition take_tokens :: "millis \<Rightarrow> rat \<Rightarrow> token_bucket \<Rightarrow> token_bucket \<times> bool" where
  "take_tokens now cost b =
     (let filled = min (capacity (tb_spec b)) (tb_tokens b + elapsedSec now b * refillPerSec (tb_spec b));
          b1 = b\<lparr>tb_tokens := filled, tb_last := now\<rparr> in
      if filled < cost then (b1, False) else (b1\<lparr>tb_tokens := filled - cost\<rparr>, True))"

definition fill :: "millis \<Rightarrow> token_bucket \<Rightarrow> rat" where
  "fill now b = min 1 ((tb_tokens b + elapsedSec now b * refillPerSec (tb_spec b)) / capacity (tb_spec b))"

definition is_full :: "millis \<Rightarrow> token_bucket \<Rightarrow> bool" where
  "is_full now b \<longleftrightarrow> 1 \<le> fill now b"

text \<open>The tokens granted to a sequence of requests (time and cost), and the bucket after it.\<close>

fun granted :: "(millis \<times> rat) list \<Rightarrow> token_bucket \<Rightarrow> rat" where
  "granted [] b = 0"
| "granted ((t, cost) # rs) b =
     (let (b', ok) = take_tokens t cost b in (if ok then cost else 0) + granted rs b')"

definition bucket_ok :: "token_bucket \<Rightarrow> bool" where
  "bucket_ok b \<longleftrightarrow> 0 \<le> tb_tokens b \<and> tb_tokens b \<le> capacity (tb_spec b) \<and> 0 \<le> refillPerSec (tb_spec b)"

lemma take_tokens_ok:
  assumes "bucket_ok b" "0 \<le> cost"
  shows "bucket_ok (fst (take_tokens now cost b))"
    and "tb_spec (fst (take_tokens now cost b)) = tb_spec b"
    and "tb_last (fst (take_tokens now cost b)) = now"
proof -
  have "0 \<le> elapsedSec now b * refillPerSec (tb_spec b)"
    using assms by (simp add: elapsedSec_def bucket_ok_def)
  then show "bucket_ok (fst (take_tokens now cost b))"
    using assms by (auto simp: take_tokens_def Let_def bucket_ok_def)
qed (auto simp: take_tokens_def Let_def)

lemma take_tokens_balance:
  assumes "bucket_ok b" "tb_last b \<le> now"
  shows "tb_tokens (fst (take_tokens now cost b)) + (if snd (take_tokens now cost b) then cost else 0)
    \<le> tb_tokens b + of_int (now - tb_last b) / 1000 * refillPerSec (tb_spec b)"
  using assms by (auto simp: take_tokens_def Let_def elapsedSec_def)

lemma granted_bound:
  assumes "bucket_ok b" "\<forall>r \<in> set rs. 0 \<le> snd r" "sorted (tb_last b # map fst rs)"
  shows "granted rs b \<le> tb_tokens b + of_int (last (tb_last b # map fst rs) - tb_last b) / 1000 * refillPerSec (tb_spec b)"
  using assms
proof (induction rs arbitrary: b)
  case Nil
  then show ?case by (simp add: bucket_ok_def)
next
  case (Cons r rs)
  obtain t cost where r: "r = (t, cost)" by (cases r)
  obtain b' ok where tk: "take_tokens t cost b = (b', ok)" by (cases "take_tokens t cost b")
  have le: "tb_last b \<le> t" and cost: "0 \<le> cost" using Cons.prems r by auto
  note f = take_tokens_ok [OF Cons.prems(1) cost, of t, unfolded tk, simplified]
  have "granted rs b' \<le> tb_tokens b' + of_int (last (t # map fst rs) - t) / 1000 * refillPerSec (tb_spec b)"
    using Cons.IH [OF f(1)] Cons.prems(2,3) f(2,3) r by simp
  moreover have "tb_tokens b' + (if ok then cost else 0) \<le> tb_tokens b + of_int (t - tb_last b) / 1000 * refillPerSec (tb_spec b)"
    using take_tokens_balance [OF Cons.prems(1) le, of cost] tk by simp
  moreover have "of_int (last (t # map fst rs) - t) / 1000 * refillPerSec (tb_spec b) +
      of_int (t - tb_last b) / 1000 * refillPerSec (tb_spec b) =
      (of_int (last (t # map fst rs) - tb_last b) / 1000 * refillPerSec (tb_spec b) :: rat)"
    by (simp add: field_simps)
  ultimately show ?case using r tk by (simp split: if_splits)
qed

section \<open>Eviction from a bounded map\<close>

definition EVICTION_SCAN :: nat where "EVICTION_SCAN = 64"

text \<open>A score; \<open>None\<close> is \<open>Infinity\<close>.\<close>

definition above :: "rat option \<Rightarrow> rat option \<Rightarrow> bool" where
  "above s best = (case best of None \<Rightarrow> False | Some b \<Rightarrow> (case s of None \<Rightarrow> True | Some x \<Rightarrow> b < x))"

text \<open>\<open>victim\<close> holds the entry chosen so far and its score; \<open>seen\<close> counts the entries inspected.\<close>

fun choose_victim :: "('v \<Rightarrow> rat option) \<Rightarrow> nat \<Rightarrow> nat \<Rightarrow> ('k, 'v) jmap \<Rightarrow> ('k \<times> rat option) option \<Rightarrow> 'k option" where
  "choose_victim score scan seen [] victim = map_option fst victim"
| "choose_victim score scan seen ((key, v) # m) victim =
     (let s = score v;
          victim' = (case victim of None \<Rightarrow> Some (key, s) | Some (k, best) \<Rightarrow> if above s best then Some (key, s) else victim) in
      if s = None \<or> scan \<le> seen + 1 then map_option fst victim'
      else choose_victim score scan (seen + 1) m victim')"

definition evictOne :: "('v \<Rightarrow> rat option) \<Rightarrow> nat \<Rightarrow> ('k, 'v) jmap \<Rightarrow> ('k, 'v) jmap" where
  "evictOne score scan m = (case choose_victim score scan 0 m None of Some k \<Rightarrow> jdel m k | None \<Rightarrow> m)"

lemma choose_victim_key:
  "choose_victim score scan seen m victim = Some k \<Longrightarrow> k \<in> set (jkeys m) \<or> (\<exists>s. victim = Some (k, s))"
proof (induction score scan seen m victim rule: choose_victim.induct)
  case (2 score scan seen key v m victim)
  then show ?case by (auto simp: jkeys_def Let_def split: option.splits if_splits)
qed auto

lemma choose_victim_found: "m \<noteq> [] \<or> victim \<noteq> None \<Longrightarrow> choose_victim score scan seen m victim \<noteq> None"
proof (induction score scan seen m victim rule: choose_victim.induct)
  case (2 score scan seen key v m victim)
  then show ?case by (auto simp: Let_def split: option.splits if_splits)
qed auto

lemma length_jdel: "jwf m \<Longrightarrow> k \<in> set (jkeys m) \<Longrightarrow> length (jdel m k) = length m - 1"
proof (induction m)
  case (Cons p m)
  have wf: "jwf m" and new: "fst p \<notin> set (jkeys m)" using Cons.prems(1) by (auto simp: jwf_def jkeys_def)
  show ?case
  proof (cases "fst p = k")
    case True
    then have "jdel m k = m"
      unfolding jdel_def using new by (intro filter_True ballI) (metis image_eqI jkeys_def list.set_map)
    then show ?thesis using True by (simp add: jdel_def)
  next
    case False
    then have k: "k \<in> set (jkeys m)" using Cons.prems(2) by (auto simp: jkeys_def)
    then have "0 < length m" by (auto simp: jkeys_def)
    then show ?thesis using False Cons.IH [OF wf k] by (simp add: jdel_def)
  qed
qed (simp add: jkeys_def)

lemma evictOne_length: "jwf m \<Longrightarrow> m \<noteq> [] \<Longrightarrow> length (evictOne score scan m) = length m - 1"
  using choose_victim_found [of m None score scan 0] choose_victim_key [of score scan 0 m None]
  by (auto simp: evictOne_def length_jdel split: option.splits)

text \<open>
  No entry among those inspected scores higher than the victim; in particular an entry with
  an infinite score among them is taken first.
\<close>

lemma choose_victim_best:
  assumes "choose_victim score scan seen m victim = Some k" "jwf m" "\<forall>j s. victim = Some (j, s) \<longrightarrow> j \<notin> set (jkeys m)"
    "(key, v) \<in> set (take (scan - seen) m)" "score v = None"
  shows "(\<exists>w. jget m k = Some w \<and> score w = None) \<or> (\<exists>j. victim = Some (j, None))"
  using assms
proof (induction score scan seen m victim rule: choose_victim.induct)
  case (2 score scan seen key' v' m victim)
  let ?s = "score v'"
  let ?v' = "case victim of None \<Rightarrow> Some (key', ?s) | Some (k, best) \<Rightarrow> if above ?s best then Some (key', ?s) else victim"
  have wf: "jwf m" and new: "key' \<notin> set (jkeys m)" using 2(3) by (auto simp: jwf_def jkeys_def)
  show ?case
  proof (cases "?s = None \<or> scan \<le> seen + 1")
    case True
    have inf: "?s = None"
    proof (rule ccontr)
      assume fin: "?s \<noteq> None"
      then have "scan - seen = Suc 0 \<or> scan - seen = 0" using True by linarith
      then show False using 2(5,6) fin by (cases "scan - seen") auto
    qed
    have k: "map_option fst ?v' = Some k" using 2(2) True by (simp add: Let_def)
    show ?thesis
    proof (cases victim)
      case None
      then show ?thesis using k inf by simp
    next
      case (Some p)
      then show ?thesis using k inf by (cases p; cases "snd p") (auto simp: above_def)
    qed
  next
    case False
    have rec: "choose_victim score scan (seen + 1) m ?v' = Some k"
      using 2(2) False by (subst (asm) choose_victim.simps(2)) (simp only: Let_def if_False)
    have pos: "scan - seen = Suc (scan - (seen + 1))" using False by linarith
    have mem: "(key, v) \<in> set (take (scan - (seen + 1)) m)"
      using 2(5,6) False unfolding pos by auto
    have fresh: "\<forall>j s. ?v' = Some (j, s) \<longrightarrow> j \<notin> set (jkeys m)"
      using new 2(4) by (auto simp: jkeys_def split: option.splits if_splits)
    have "(\<exists>w. jget m k = Some w \<and> score w = None) \<or> (\<exists>j. ?v' = Some (j, None))"
      using 2(1) [OF refl refl False rec wf fresh mem 2(6)] by simp
    then show ?thesis
    proof
      assume "\<exists>w. jget m k = Some w \<and> score w = None"
      then obtain w where w: "jget m k = Some w" "score w = None" by blast
      then have "k \<noteq> key'" using new jget_Some_key by metis
      then show ?thesis using w by auto
    next
      assume "\<exists>j. ?v' = Some (j, None)"
      then show ?thesis using False by (auto split: option.splits if_splits)
    qed
  qed
qed simp

section \<open>The limiter of a socket\<close>

datatype event_class = CHello | CPreferences | CControl | CSignal | CChat | CTyping | CReport | CTelemetry

fun RATE_LIMITS :: "event_class \<Rightarrow> bucket_spec" where
  "RATE_LIMITS CHello = \<lparr>capacity = 5, refillPerSec = 1 / 2\<rparr>"
| "RATE_LIMITS CPreferences = \<lparr>capacity = 5, refillPerSec = 1\<rparr>"
| "RATE_LIMITS CControl = \<lparr>capacity = 10, refillPerSec = 2\<rparr>"
| "RATE_LIMITS CSignal = \<lparr>capacity = 200, refillPerSec = 50\<rparr>"
| "RATE_LIMITS CChat = \<lparr>capacity = 10, refillPerSec = 2\<rparr>"
| "RATE_LIMITS CTyping = \<lparr>capacity = 10, refillPerSec = 4\<rparr>"
| "RATE_LIMITS CReport = \<lparr>capacity = 3, refillPerSec = 1 / 20\<rparr>"
| "RATE_LIMITS CTelemetry = \<lparr>capacity = 20, refillPerSec = 1\<rparr>"

type_synonym socket_limiter = "(event_class, token_bucket) jmap"

definition limiter_allow :: "(event_class \<Rightarrow> bucket_spec) \<Rightarrow> millis \<Rightarrow> event_class \<Rightarrow> socket_limiter \<Rightarrow> socket_limiter \<times> bool" where
  "limiter_allow limits now cls m =
     (let b = (case jget m cls of Some b \<Rightarrow> b | None \<Rightarrow> new_bucket (limits cls) now);
          (b', ok) = take_tokens now 1 b in
      (jset m cls b', ok))"

section \<open>Packet budgets\<close>

definition PACKET_RATE_PER_CONNECTION :: bucket_spec where
  "PACKET_RATE_PER_CONNECTION = \<lparr>capacity = 400, refillPerSec = 100\<rparr>"
definition PACKET_BYTES_PER_CONNECTION :: bucket_spec where
  "PACKET_BYTES_PER_CONNECTION = \<lparr>capacity = 1048576, refillPerSec = 131072\<rparr>"

record decoder =
  dec_packets :: token_bucket
  dec_bytes :: token_bucket

definition new_decoder :: "millis \<Rightarrow> decoder" where
  "new_decoder now = \<lparr>dec_packets = new_bucket PACKET_RATE_PER_CONNECTION now, dec_bytes = new_bucket PACKET_BYTES_PER_CONNECTION now\<rparr>"

datatype packet_error = BinaryPacket | PacketTooBig | PacketRate | ByteRate

text \<open>
  A chunk that is not a string is \<open>None\<close>; a string is its UTF-8 bytes. \<open>binary\<close> holds the type
  characters of binary packets, which \<open>socket.io-parser\<close> defines.
\<close>

definition decoder_add :: "char set \<Rightarrow> nat \<Rightarrow> millis \<Rightarrow> string option \<Rightarrow> decoder \<Rightarrow> decoder \<times> packet_error option" where
  "decoder_add binary maxBytes now chunk d =
     (case chunk of
        None \<Rightarrow> (d, Some BinaryPacket)
      | Some s \<Rightarrow>
          if s \<noteq> [] \<and> hd s \<in> binary then (d, Some BinaryPacket)
          else if maxBytes < length s then (d, Some PacketTooBig)
          else
            let (p, ok) = take_tokens now 1 (dec_packets d); d1 = d\<lparr>dec_packets := p\<rparr> in
            if \<not> ok then (d1, Some PacketRate)
            else
              let (b, ok2) = take_tokens now (of_nat (length s)) (dec_bytes d1); d2 = d1\<lparr>dec_bytes := b\<rparr> in
              if \<not> ok2 then (d2, Some ByteRate) else (d2, None))"

section \<open>Buckets per key, bounded\<close>

record ip_limiter =
  il_spec :: bucket_spec
  il_maxKeys :: nat
  il_buckets :: "(string, token_bucket) jmap"

definition ipbuckets_allow :: "net_lib \<Rightarrow> millis \<Rightarrow> string option \<Rightarrow> ip_limiter \<Rightarrow> ip_limiter \<times> bool" where
  "ipbuckets_allow net now ip l =
     (let key = (case ip of None \<Rightarrow> ''unknown'' | Some a \<Rightarrow> b_ip (ipBuckets net a));
          (rest, b) = (case jget (il_buckets l) key of
              Some b \<Rightarrow> (jdel (il_buckets l) key, b)
            | None \<Rightarrow>
                (if il_maxKeys l \<le> length (il_buckets l)
                 then evictOne (\<lambda>b. if is_full now b then None else Some (fill now b)) EVICTION_SCAN (il_buckets l)
                 else il_buckets l,
                 new_bucket (il_spec l) now));
          (b', ok) = take_tokens now 1 b in
      (l\<lparr>il_buckets := jset rest key b'\<rparr>, ok))"

lemma length_jset_new: "jget m k = None \<Longrightarrow> length (jset m k v) = length m + 1"
  by (induction m) (auto split: if_splits)

lemma ipbuckets_bounded:
  assumes "jwf (il_buckets l)" "length (il_buckets l) \<le> il_maxKeys l" "0 < il_maxKeys l"
  shows "length (il_buckets (fst (ipbuckets_allow net now ip l))) \<le> il_maxKeys l"
    and "jwf (il_buckets (fst (ipbuckets_allow net now ip l)))"
proof -
  let ?key = "case ip of None \<Rightarrow> ''unknown'' | Some a \<Rightarrow> b_ip (ipBuckets net a)"
  let ?m = "il_buckets l" and ?sc = "\<lambda>b. if is_full now b then None else Some (fill now b)"
  have ev: "jwf (evictOne ?sc EVICTION_SCAN ?m)" using assms(1) by (auto simp: evictOne_def split: option.splits)
  have evk: "jget (evictOne ?sc EVICTION_SCAN ?m) ?key = None" if "jget ?m ?key = None"
    using that by (auto simp: evictOne_def split: option.splits)
  have "length (jset (jdel ?m ?key) ?key v) \<le> il_maxKeys l" if "jget ?m ?key = Some b" for v b
    using length_jdel [OF assms(1) jget_Some_key [OF that]] assms(2,3) by (simp add: length_jset_new)
  moreover have "length (jset ?m ?key v) \<le> il_maxKeys l" if "jget ?m ?key = None" "\<not> il_maxKeys l \<le> length ?m" for v
    using that by (simp add: length_jset_new)
  moreover have "length (jset (evictOne ?sc EVICTION_SCAN ?m) ?key v) \<le> il_maxKeys l"
    if "jget ?m ?key = None" "il_maxKeys l \<le> length ?m" for v
    using evictOne_length [OF assms(1), of ?sc EVICTION_SCAN] that assms(2,3) length_jset_new [OF evk [OF that(1)], of v]
    by auto
  ultimately show "length (il_buckets (fst (ipbuckets_allow net now ip l))) \<le> il_maxKeys l"
    by (auto simp: ipbuckets_allow_def Let_def split_beta split: option.split)
  show "jwf (il_buckets (fst (ipbuckets_allow net now ip l)))"
    using assms(1) ev by (auto simp: ipbuckets_allow_def Let_def split_beta split: option.split)
qed

end
