(* ===== verification/Admission.thy ===== *)
theory Admission
  imports RateLimit
begin

text \<open>
  Admission of new work: the connection gate of \<open>backend/src/realtime/socket.ts\<close>
  (\<open>ConnectionGate\<close>, with the origin check and the cap on sockets per session), the overload
  detection \<open>backend/src/shed/LoadMonitor.ts\<close> and the shedder \<open>backend/src/shed/Shedder.ts\<close>.
  The process statistics a load sample is read from are the argument of \<open>tick\<close>.
\<close>

section \<open>Counters per key\<close>

definition count_of :: "('k, nat) jmap \<Rightarrow> 'k \<Rightarrow> nat" where
  "count_of m k = (case jget m k of Some n \<Rightarrow> n | None \<Rightarrow> 0)"

definition increment :: "'k \<Rightarrow> ('k, nat) jmap \<Rightarrow> ('k, nat) jmap" where
  "increment k m = jset m k (count_of m k + 1)"

definition decrement :: "'k \<Rightarrow> ('k, nat) jmap \<Rightarrow> ('k, nat) jmap" where
  "decrement k m = (let left = (case jget m k of Some n \<Rightarrow> n | None \<Rightarrow> 1) - 1 in
     if left = 0 then jdel m k else jset m k left)"

text \<open>
  The contract of a counter: what a reading is after counting one up or down. Whoever counts a
  multiset of open things with it reads the number of them.
\<close>

locale counter =
  fixes reading :: "'m \<Rightarrow> 'k \<Rightarrow> nat"
    and up :: "'k \<Rightarrow> 'm \<Rightarrow> 'm"
    and down :: "'k \<Rightarrow> 'm \<Rightarrow> 'm"
  assumes reading_up: "reading (up k m) j = reading m j + (if j = k then 1 else 0)"
    and reading_down: "reading (down k m) j = reading m j - (if j = k then 1 else 0)"
begin

definition tallies :: "('a \<Rightarrow> 'k) \<Rightarrow> 'a list \<Rightarrow> 'm \<Rightarrow> bool" where
  "tallies key xs m \<longleftrightarrow> (\<forall>k. reading m k = length (filter (\<lambda>x. key x = k) xs))"

lemma tallies_up: "tallies key xs m \<Longrightarrow> tallies key (x # xs) (up (key x) m)"
  by (auto simp: tallies_def reading_up)

lemma length_filter_remove1:
  "x \<in> set xs \<Longrightarrow> length (filter P (remove1 x xs)) = length (filter P xs) - (if P x then 1 else 0)"
proof (induction xs)
  case (Cons y xs)
  show ?case
  proof (cases "x = y")
    case False
    then have x: "x \<in> set xs" using Cons.prems by simp
    have "P x \<Longrightarrow> 0 < length (filter P xs)" using x by (auto simp: filter_empty_conv)
    then show ?thesis using False Cons.IH [OF x] by auto
  qed simp
qed simp

lemma tallies_down: "tallies key xs m \<Longrightarrow> x \<in> set xs \<Longrightarrow> tallies key (remove1 x xs) (down (key x) m)"
  by (auto simp: tallies_def reading_down length_filter_remove1)

end

lemma count_of_increment: "count_of (increment k m) j = count_of m j + (if j = k then 1 else 0)"
  by (simp add: count_of_def increment_def)

lemma count_of_decrement: "count_of (decrement k m) j = count_of m j - (if j = k then 1 else 0)"
  by (simp add: count_of_def decrement_def Let_def split: option.split)

interpretation conn: counter count_of increment decrement
  by unfold_locales (simp_all add: count_of_increment count_of_decrement)

section \<open>The connection gate\<close>

definition originAllowed :: "string option \<Rightarrow> string list option \<Rightarrow> bool" where
  "originAllowed origin allowed = (case allowed of None \<Rightarrow> True | Some xs \<Rightarrow>
     (case origin of None \<Rightarrow> True | Some h \<Rightarrow> h \<in> set xs))"

datatype connection_refusal = TooManyConnections | ConnectRateLimited

record gate_config =
  maxConnectionsPerIp :: nat
  connectRatePerIp :: bucket_spec
  maxConnectionsPerNetwork :: nat

record connection_gate =
  cg_perIp :: "(string, nat) jmap"
  cg_perNetwork :: "(string, nat) jmap"
  cg_connectRate :: "(string, token_bucket) jmap"
  cg_networkRate :: ip_limiter
  cg_lastPrune :: millis

definition CONNECT_PRUNE_MS :: millis where "CONNECT_PRUNE_MS = 60000"

definition new_gate :: "bucket_spec \<Rightarrow> nat \<Rightarrow> millis \<Rightarrow> connection_gate" where
  "new_gate networkSpec maxKeys now =
     \<lparr>cg_perIp = [], cg_perNetwork = [], cg_connectRate = [],
      cg_networkRate = \<lparr>il_spec = networkSpec, il_maxKeys = maxKeys, il_buckets = []\<rparr>, cg_lastPrune = now\<rparr>"

definition gate_admit :: "gate_config \<Rightarrow> net_lib \<Rightarrow> millis \<Rightarrow> string \<Rightarrow> connection_gate \<Rightarrow> connection_gate \<times> connection_refusal option" where
  "gate_admit c net now rawIp g =
     (let b = ipBuckets net rawIp in
      if maxConnectionsPerIp c \<le> count_of (cg_perIp g) (b_ip b) \<or>
         maxConnectionsPerNetwork c \<le> count_of (cg_perNetwork g) (b_network b)
      then (g, Some TooManyConnections)
      else
        let g1 = (if CONNECT_PRUNE_MS \<le> now - cg_lastPrune g
                  then g\<lparr>cg_lastPrune := now, cg_connectRate := jkeep (\<lambda>t. \<not> is_full now t) (cg_connectRate g)\<rparr> else g);
            bucket = (case jget (cg_connectRate g1) (b_ip b) of Some t \<Rightarrow> t | None \<Rightarrow> new_bucket (connectRatePerIp c) now);
            (bucket', ok) = take_tokens now 1 bucket;
            g2 = g1\<lparr>cg_connectRate := jset (cg_connectRate g1) (b_ip b) bucket'\<rparr> in
        if \<not> ok then (g2, Some ConnectRateLimited)
        else
          let (l, ok2) = ipbuckets_allow net now (Some (b_network b)) (cg_networkRate g2);
              g3 = g2\<lparr>cg_networkRate := l\<rparr> in
          (g3, if ok2 then None else Some ConnectRateLimited))"

definition gate_opened :: "net_lib \<Rightarrow> string \<Rightarrow> connection_gate \<Rightarrow> connection_gate" where
  "gate_opened net rawIp g =
     (let b = ipBuckets net rawIp in
      g\<lparr>cg_perIp := increment (b_ip b) (cg_perIp g), cg_perNetwork := increment (b_network b) (cg_perNetwork g)\<rparr>)"

definition gate_closed :: "net_lib \<Rightarrow> string \<Rightarrow> connection_gate \<Rightarrow> connection_gate" where
  "gate_closed net rawIp g =
     (let b = ipBuckets net rawIp in
      g\<lparr>cg_perIp := decrement (b_ip b) (cg_perIp g), cg_perNetwork := decrement (b_network b) (cg_perNetwork g)\<rparr>)"

text \<open>
  The life of the gate with the addresses of the open connections: an admitted upgrade opens
  its connection in the same tick, a refused one leaves no connection, and a connection closes once.
\<close>

inductive gate_step :: "gate_config \<Rightarrow> net_lib \<Rightarrow> connection_gate \<times> string list \<Rightarrow> connection_gate \<times> string list \<Rightarrow> bool"
  for c net where
  connect: "gate_admit c net now ip g = (g', None) \<Longrightarrow> gate_step c net (g, conns) (gate_opened net ip g', ip # conns)"
| refuse: "gate_admit c net now ip g = (g', Some r) \<Longrightarrow> gate_step c net (g, conns) (g', conns)"
| close: "ip \<in> set conns \<Longrightarrow> gate_step c net (g, conns) (gate_closed net ip g, remove1 ip conns)"

inductive_cases gate_stepE: "gate_step c net (g, conns) s"

definition from_ip :: "net_lib \<Rightarrow> string \<Rightarrow> string list \<Rightarrow> nat" where
  "from_ip net k conns = length (filter (\<lambda>r. b_ip (ipBuckets net r) = k) conns)"

definition from_network :: "net_lib \<Rightarrow> string \<Rightarrow> string list \<Rightarrow> nat" where
  "from_network net k conns = length (filter (\<lambda>r. b_network (ipBuckets net r) = k) conns)"

definition gate_inv :: "gate_config \<Rightarrow> net_lib \<Rightarrow> connection_gate \<times> string list \<Rightarrow> bool" where
  "gate_inv c net s = (case s of (g, conns) \<Rightarrow>
     (\<forall>k. count_of (cg_perIp g) k = from_ip net k conns \<and> from_ip net k conns \<le> maxConnectionsPerIp c) \<and>
     (\<forall>k. count_of (cg_perNetwork g) k = from_network net k conns \<and> from_network net k conns \<le> maxConnectionsPerNetwork c))"

lemma gate_admit_counts:
  "cg_perIp (fst (gate_admit c net now ip g)) = cg_perIp g \<and> cg_perNetwork (fst (gate_admit c net now ip g)) = cg_perNetwork g"
  by (simp add: gate_admit_def Let_def split_beta)

lemma gate_admit_below:
  "gate_admit c net now ip g = (g', None) \<Longrightarrow>
   count_of (cg_perIp g) (b_ip (ipBuckets net ip)) < maxConnectionsPerIp c \<and>
   count_of (cg_perNetwork g) (b_network (ipBuckets net ip)) < maxConnectionsPerNetwork c"
  by (auto simp: gate_admit_def Let_def split: if_splits)

lemma gate_step_inv:
  assumes "gate_step c net s s'" "gate_inv c net s"
  shows "gate_inv c net s'"
  using assms
proof cases
  case (connect now ip g g' conns)
  have eq: "cg_perIp g' = cg_perIp g" "cg_perNetwork g' = cg_perNetwork g"
    using gate_admit_counts [of c net now ip g] connect(3) by simp_all
  then show ?thesis
    using assms(2) gate_admit_below [OF connect(3)] connect(1,2)
    by (auto simp: gate_inv_def gate_opened_def Let_def count_of_increment from_ip_def from_network_def)
next
  case (refuse now ip g g' r conns)
  have eq: "cg_perIp g' = cg_perIp g" "cg_perNetwork g' = cg_perNetwork g"
    using gate_admit_counts [of c net now ip g] refuse(3) by simp_all
  then show ?thesis using assms(2) refuse(1,2) by (simp add: gate_inv_def)
next
  case (close ip conns g)
  have 1: "conn.tallies (\<lambda>r. b_ip (ipBuckets net r)) conns (cg_perIp g)"
    and 2: "conn.tallies (\<lambda>r. b_network (ipBuckets net r)) conns (cg_perNetwork g)"
    using assms(2) close(1) by (simp_all add: gate_inv_def conn.tallies_def from_ip_def from_network_def)
  have "from_ip net k (remove1 ip conns) \<le> from_ip net k conns"
    and "from_network net k (remove1 ip conns) \<le> from_network net k conns" for k
    using conn.length_filter_remove1 [OF close(3)] by (simp_all add: from_ip_def from_network_def)
  then show ?thesis
    using conn.tallies_down [OF 1 close(3)] conn.tallies_down [OF 2 close(3)] assms(2) close(1,2)
    by (fastforce simp: gate_inv_def gate_closed_def Let_def conn.tallies_def from_ip_def from_network_def intro: le_trans)
qed

text \<open>The cap on open sockets of one session (middleware of \<open>attachHandlers\<close>).\<close>

definition MAX_SOCKETS_PER_SESSION :: nat where "MAX_SOCKETS_PER_SESSION = 3"

definition session_slot :: "device_id option \<Rightarrow> bool \<Rightarrow> (device_id, nat) jmap \<Rightarrow> (device_id, nat) jmap \<times> bool" where
  "session_slot d connOpen m =
     (case d of
        None \<Rightarrow> (m, True)
      | Some dev \<Rightarrow>
          if dev = [] \<or> \<not> connOpen then (m, True)
          else if MAX_SOCKETS_PER_SESSION \<le> count_of m dev then (m, False)
          else (jset m dev (count_of m dev + 1), True))"

definition session_slot_closed :: "device_id \<Rightarrow> (device_id, nat) jmap \<Rightarrow> (device_id, nat) jmap" where
  "session_slot_closed dev m =
     (let left = count_of m dev - 1 in if left = 0 then jdel m dev else jset m dev left)"

section \<open>Overload\<close>

record load_sample =
  loopDelayP99Ms :: rat
  heapUsedBytes :: nat
  heapLimitBytes :: nat

definition LOOP_DELAY_OVER_MS :: rat where "LOOP_DELAY_OVER_MS = 200"
definition HEAP_OVER_RATIO :: rat where "HEAP_OVER_RATIO = 4 / 5"
definition OVER_SAMPLES :: nat where "OVER_SAMPLES = 2"
definition LOOP_DELAY_CLEAR_MS :: rat where "LOOP_DELAY_CLEAR_MS = 100"
definition HEAP_CLEAR_RATIO :: rat where "HEAP_CLEAR_RATIO = 7 / 10"
definition CLEAR_SAMPLES :: nat where "CLEAR_SAMPLES = 5"

record load_monitor =
  lm_state :: bool
  lm_streak :: nat

definition heap_share :: "load_sample \<Rightarrow> rat" where
  "heap_share s = (if 0 < heapLimitBytes s then of_nat (heapUsedBytes s) / of_nat (heapLimitBytes s) else 0)"

text \<open>While calm, hot samples count; while overloaded, calm ones.\<close>

definition sample_counts :: "bool \<Rightarrow> load_sample \<Rightarrow> bool" where
  "sample_counts over s =
     (if over then loopDelayP99Ms s < LOOP_DELAY_CLEAR_MS \<and> heap_share s < HEAP_CLEAR_RATIO
      else LOOP_DELAY_OVER_MS < loopDelayP99Ms s \<or> HEAP_OVER_RATIO < heap_share s)"

definition samples_needed :: "bool \<Rightarrow> nat" where
  "samples_needed over = (if over then CLEAR_SAMPLES else OVER_SAMPLES)"

text \<open>One sample; the second component is the new state its listeners are told, if it changed.\<close>

definition tick :: "load_sample \<Rightarrow> load_monitor \<Rightarrow> load_monitor \<times> bool option" where
  "tick s m =
     (let streak = (if sample_counts (lm_state m) s then lm_streak m + 1 else 0) in
      if streak < samples_needed (lm_state m) then (m\<lparr>lm_streak := streak\<rparr>, None)
      else (\<lparr>lm_state = (\<not> lm_state m), lm_streak = 0\<rparr>, Some (\<not> lm_state m)))"

definition ticks :: "load_sample list \<Rightarrow> load_monitor \<Rightarrow> load_monitor" where
  "ticks ss m = fold (\<lambda>s m. fst (tick s m)) ss m"

text \<open>No change of state happens while the samples are taken.\<close>

fun steady :: "load_sample list \<Rightarrow> load_monitor \<Rightarrow> bool" where
  "steady [] m = True"
| "steady (s # ss) m = (snd (tick s m) = None \<and> steady ss (fst (tick s m)))"

text \<open>The longest run of consecutive elements with \<open>P\<close>, when \<open>k\<close> of them came just before.\<close>

fun longest_run :: "('a \<Rightarrow> bool) \<Rightarrow> nat \<Rightarrow> 'a list \<Rightarrow> nat" where
  "longest_run P k [] = k"
| "longest_run P k (x # xs) = (if P x then longest_run P (k + 1) xs else max k (longest_run P 0 xs))"

lemma longest_run_ge: "k \<le> longest_run P k xs"
  by (induction xs arbitrary: k) (auto intro: Suc_leD)

lemma samples_needed_pos: "0 < samples_needed over"
  by (simp add: samples_needed_def CLEAR_SAMPLES_def OVER_SAMPLES_def)

lemma steady_longest_run:
  "lm_streak m < samples_needed (lm_state m) \<Longrightarrow>
   steady ss m \<longleftrightarrow> longest_run (sample_counts (lm_state m)) (lm_streak m) ss < samples_needed (lm_state m)"
proof (induction ss arbitrary: m)
  case (Cons s ss)
  let ?P = "sample_counts (lm_state m)" and ?n = "samples_needed (lm_state m)"
  show ?case
  proof (cases "?P s")
    case True
    show ?thesis
    proof (cases "lm_streak m + 1 < ?n")
      case small: True
      then have "tick s m = (m\<lparr>lm_streak := lm_streak m + 1\<rparr>, None)" using True by (simp add: tick_def)
      then show ?thesis using Cons.IH [of "m\<lparr>lm_streak := lm_streak m + 1\<rparr>"] small True by simp
    next
      case False
      then have "snd (tick s m) \<noteq> None" using True by (simp add: tick_def)
      moreover have "?n \<le> longest_run ?P (lm_streak m + 1) ss"
        using False longest_run_ge [of "lm_streak m + 1" ?P ss] by linarith
      ultimately show ?thesis using True by simp
    qed
  next
    case False
    then have "tick s m = (m\<lparr>lm_streak := 0\<rparr>, None)" using samples_needed_pos by (simp add: tick_def)
    then show ?thesis
      using Cons.IH [of "m\<lparr>lm_streak := 0\<rparr>"] Cons.prems False samples_needed_pos by simp
  qed
qed simp

section \<open>Shedding\<close>

datatype socket_shed = Overloaded | ServerFull

record shedder =
  sh_maxConnectionsTotal :: nat
  sh_sessions :: token_bucket

definition admitSocket :: "load_monitor \<Rightarrow> nat \<Rightarrow> shedder \<Rightarrow> socket_shed option" where
  "admitSocket load n s =
     (if lm_state load then Some Overloaded
      else if sh_maxConnectionsTotal s \<le> n then Some ServerFull else None)"

definition admitSessionLoad :: "load_monitor \<Rightarrow> bool" where
  "admitSessionLoad load \<longleftrightarrow> \<not> lm_state load"

definition takeSession :: "millis \<Rightarrow> shedder \<Rightarrow> shedder \<times> bool" where
  "takeSession now s = (let (b, ok) = take_tokens now 1 (sh_sessions s) in (s\<lparr>sh_sessions := b\<rparr>, ok))"

end
