(* ===== verification/Turn.thy ===== *)
theory Turn
  imports SessionLimits
begin

text \<open>
  ICE servers of a matched call: the credential service \<open>backend/src/turn/TurnService.ts\<close>, its
  in-memory store \<open>turn/store.ts\<close>, the self-hosted providers \<open>turn/coturn.ts\<close> and the filter on
  what the Cloudflare API answers (\<open>turn/cloudflare.ts\<close>). The HMACs of \<open>node:crypto\<close> and the
  answer of the API are parameters (record \<open>turn_lib\<close>). Requests run one after the other here:
  two requests in flight for one device share one answer in the code, and the second is
  answered from the cache here.
\<close>

section \<open>Configuration and outside services\<close>

datatype turn_provider = NoTurn | Cloudflare | TurnSecret | TurnStatic

record turn_config =
  turnProvider :: turn_provider
  stunUrls :: "string list"
  turnUrls :: "string list"
  turnSecret :: "string option"
  turnUsername :: "string option"
  turnCredential :: "string option"
  turnTtlSeconds :: nat
  cfTurnApiToken :: "string option"
  turnCacheSeconds :: nat
  turnMaxPerDeviceHour :: nat
  turnMaxPerIpHour :: nat

text \<open>
  \<open>hmac_sha1\<close> (base64) and \<open>hmac_sha256\<close> (hex) take a key and a text. \<open>cf_answer\<close> is what the
  Cloudflare API answers at a time, its \<open>iceServers\<close> read as ice servers; \<open>None\<close> is an HTTP
  error, a timeout or a body that is not JSON. \<open>random_secret\<close> is the per-process secret.
\<close>

record turn_lib =
  hmac_sha1 :: "string \<Rightarrow> string \<Rightarrow> string"
  hmac_sha256 :: "string \<Rightarrow> string \<Rightarrow> string"
  cf_answer :: "millis \<Rightarrow> ice_server list option"
  random_secret :: string

definition DEVICE_IP_TTL_MS :: millis where "DEVICE_IP_TTL_MS = 86400000"
definition CAP_WINDOW_MS :: millis where "CAP_WINDOW_MS = 3600000"
definition IP_KEY_HEX_CHARS :: nat where "IP_KEY_HEX_CHARS = 32"
definition IP_KEY_DOMAIN :: string where "IP_KEY_DOMAIN = ''chizzy-turn-ip:''"
definition BLOCKED_ICE_PORT :: string where "BLOCKED_ICE_PORT = ''53''"
definition PRUNE_EVERY_WRITES :: nat where "PRUNE_EVERY_WRITES = 1000"

section \<open>The store\<close>

record ('k, 'v) expiring_map =
  xm_map :: "('k, 'v \<times> millis) jmap"
  xm_writes :: nat

definition xm_empty :: "('k, 'v) expiring_map" where
  "xm_empty = \<lparr>xm_map = [], xm_writes = 0\<rparr>"

definition xm_get :: "millis \<Rightarrow> ('k, 'v) expiring_map \<Rightarrow> 'k \<Rightarrow> 'v option" where
  "xm_get now x k = live now (xm_map x) k"

definition xm_set :: "millis \<Rightarrow> ('k, 'v) expiring_map \<Rightarrow> 'k \<Rightarrow> 'v \<Rightarrow> millis \<Rightarrow> ('k, 'v) expiring_map" where
  "xm_set now x k v ttlMs =
     (let m = jset (xm_map x) k (v, now + ttlMs); n = xm_writes x + 1 in
      \<lparr>xm_map = (if n mod PRUNE_EVERY_WRITES = 0 then keep_live now m else m), xm_writes = n\<rparr>)"

definition xm_ok :: "('k, 'v) expiring_map \<Rightarrow> bool" where
  "xm_ok x \<longleftrightarrow> jwf (xm_map x)"

interpretation xm: expiring_store xm_get xm_set xm_ok
  by unfold_locales (auto simp: xm_get_def xm_set_def xm_ok_def Let_def live_keep_live)

datatype hit_key = HitDev device_id | HitIp string

record turn_store =
  tn_cache :: "(device_id, ice_server list) expiring_map"
  tn_hits :: "(hit_key \<times> int, nat) expiring_map"
  tn_ips :: "(device_id, string) expiring_map"

definition new_turn_store :: turn_store where
  "new_turn_store = \<lparr>tn_cache = xm_empty, tn_hits = xm_empty, tn_ips = xm_empty\<rparr>"

definition getCached :: "millis \<Rightarrow> device_id \<Rightarrow> turn_store \<Rightarrow> ice_server list option" where
  "getCached now d s = xm_get now (tn_cache s) d"

definition setCached :: "millis \<Rightarrow> device_id \<Rightarrow> ice_server list \<Rightarrow> millis \<Rightarrow> turn_store \<Rightarrow> turn_store" where
  "setCached now d servers ttlMs s =
     (if 0 < ttlMs then s\<lparr>tn_cache := xm_set now (tn_cache s) d servers ttlMs\<rparr> else s)"

definition hits_now :: "millis \<Rightarrow> hit_key \<Rightarrow> millis \<Rightarrow> turn_store \<Rightarrow> nat" where
  "hits_now now k windowMs s = (case xm_get now (tn_hits s) (k, now div windowMs) of Some n \<Rightarrow> n | None \<Rightarrow> 0)"

definition hit :: "millis \<Rightarrow> hit_key \<Rightarrow> millis \<Rightarrow> turn_store \<Rightarrow> turn_store \<times> nat" where
  "hit now k windowMs s =
     (let n = hits_now now k windowMs s + 1 in
      (s\<lparr>tn_hits := xm_set now (tn_hits s) (k, now div windowMs) n (windowMs - now mod windowMs)\<rparr>, n))"

definition setDeviceIp :: "millis \<Rightarrow> device_id \<Rightarrow> string \<Rightarrow> millis \<Rightarrow> turn_store \<Rightarrow> turn_store" where
  "setDeviceIp now d ipHash ttlMs s = s\<lparr>tn_ips := xm_set now (tn_ips s) d ipHash ttlMs\<rparr>"

definition getDeviceIp :: "millis \<Rightarrow> device_id \<Rightarrow> turn_store \<Rightarrow> string option" where
  "getDeviceIp now d s = xm_get now (tn_ips s) d"

section \<open>Providers\<close>

definition nonempty :: "string option \<Rightarrow> string option" where
  "nonempty s = (case s of None \<Rightarrow> None | Some t \<Rightarrow> if t = [] then None else Some t)"

definition buildIceServers :: "turn_lib \<Rightarrow> turn_config \<Rightarrow> device_id \<Rightarrow> millis \<Rightarrow> ice_server list" where
  "buildIceServers lib c d nowMs =
     (let stun = (if stunUrls c \<noteq> [] then [\<lparr>urls = stunUrls c, username = None, credential = None\<rparr>] else []) in
      if turnUrls c = [] then stun
      else case nonempty (turnSecret c) of
        Some secret \<Rightarrow>
          let expiry = nowMs div 1000 + int (turnTtlSeconds c); user = show_nat (nat expiry) @ '':'' @ d in
          stun @ [\<lparr>urls = turnUrls c, username = Some user, credential = Some (hmac_sha1 lib secret user)\<rparr>]
      | None \<Rightarrow>
          (case (nonempty (turnUsername c), nonempty (turnCredential c)) of
             (Some user, Some cred) \<Rightarrow> stun @ [\<lparr>urls = turnUrls c, username = Some user, credential = Some cred\<rparr>]
           | _ \<Rightarrow> stun))"

text \<open>The pattern \<open>^(stuns?|turns?):[^?]*:53(\?|$)\<close>, letter case ignored.\<close>

definition ends_with :: "string \<Rightarrow> string \<Rightarrow> bool" where
  "ends_with suffix s \<longleftrightarrow> drop (length s - length suffix) s = suffix"

definition isPort53 :: "string \<Rightarrow> bool" where
  "isPort53 url \<longleftrightarrow>
     (\<exists>scheme \<in> set [''stun:'', ''stuns:'', ''turn:'', ''turns:''].
        starts_with scheme (lower url) \<and>
        ends_with ('':'' @ BLOCKED_ICE_PORT) (takeWhile (\<lambda>c. c \<noteq> CHR ''?'') (drop (length scheme) url)))"

definition dropPort53 :: "ice_server list \<Rightarrow> ice_server list" where
  "dropPort53 servers =
     filter (\<lambda>s. urls s \<noteq> []) (map (\<lambda>s. s\<lparr>urls := filter (\<lambda>u. \<not> isPort53 u) (urls s)\<rparr>) servers)"

definition credentialed :: "ice_server \<Rightarrow> bool" where
  "credentialed s \<longleftrightarrow> nonempty (username s) \<noteq> None \<and> nonempty (credential s) \<noteq> None"

text \<open>\<open>None\<close> is a throw.\<close>

definition fetchCloudflareIceServers :: "turn_lib \<Rightarrow> millis \<Rightarrow> ice_server list option" where
  "fetchCloudflareIceServers lib now =
     (case cf_answer lib now of
        None \<Rightarrow> None
      | Some raw \<Rightarrow>
          let servers = dropPort53 (filter (\<lambda>s. urls s \<noteq> []) raw) in
          if list_ex credentialed servers then Some servers else None)"

datatype generated = Servers "ice_server list" | NoServers | GenerateThrew

definition generate :: "turn_lib \<Rightarrow> turn_config \<Rightarrow> millis \<Rightarrow> device_id \<Rightarrow> generated" where
  "generate lib c now d =
     (case turnProvider c of
        Cloudflare \<Rightarrow> (case fetchCloudflareIceServers lib now of Some s \<Rightarrow> Servers s | None \<Rightarrow> GenerateThrew)
      | TurnSecret \<Rightarrow> Servers (buildIceServers lib (c\<lparr>stunUrls := []\<rparr>) d now)
      | TurnStatic \<Rightarrow> Servers (buildIceServers lib (c\<lparr>stunUrls := []\<rparr>) d now)
      | NoTurn \<Rightarrow> NoServers)"

section \<open>The service\<close>

record call_media =
  iceServers :: "ice_server list"
  maxBitrateKbps :: nat
  relayMaxBitrateKbps :: nat
  privateModeAllowed :: bool

datatype credential_result = TurnDisabled | TurnCached | TurnCapped | TurnNoIp | TurnIssued | TurnError | TurnNothing

definition ip_secret :: "turn_lib \<Rightarrow> turn_config \<Rightarrow> string" where
  "ip_secret lib c = (case cfTurnApiToken c of Some t \<Rightarrow> t | None \<Rightarrow>
     (case turnSecret c of Some t \<Rightarrow> t | None \<Rightarrow> random_secret lib))"

definition ipKeyFor :: "turn_lib \<Rightarrow> turn_config \<Rightarrow> net_lib \<Rightarrow> string \<Rightarrow> string" where
  "ipKeyFor lib c net ip = take IP_KEY_HEX_CHARS (hmac_sha256 lib (ip_secret lib c) (IP_KEY_DOMAIN @ b_ip (ipBuckets net ip)))"

definition stunServers :: "turn_config \<Rightarrow> ice_server list" where
  "stunServers c = (if stunUrls c \<noteq> [] then [\<lparr>urls = stunUrls c, username = None, credential = None\<rparr>] else [])"

definition rememberIp :: "turn_lib \<Rightarrow> turn_config \<Rightarrow> net_lib \<Rightarrow> millis \<Rightarrow> device_id \<Rightarrow> string \<Rightarrow> turn_store \<Rightarrow> turn_store" where
  "rememberIp lib c net now d ip s =
     (if turnProvider c = NoTurn then s else setDeviceIp now d (ipKeyFor lib c net ip) DEVICE_IP_TTL_MS s)"

definition issue ::
  "turn_lib \<Rightarrow> turn_config \<Rightarrow> millis \<Rightarrow> device_id \<Rightarrow> string option \<Rightarrow> turn_store \<Rightarrow> turn_store \<times> credential_result \<times> ice_server list option" where
  "issue lib c now d socketIpKey s =
     (case getCached now d s of
        Some servers \<Rightarrow> (s, TurnCached, Some servers)
      | None \<Rightarrow>
          (case nonempty (case getDeviceIp now d s of Some k \<Rightarrow> Some k | None \<Rightarrow> socketIpKey) of
             None \<Rightarrow> (s, TurnNoIp, None)
           | Some ipHash \<Rightarrow>
               let (s1, perDevice) = hit now (HitDev d) CAP_WINDOW_MS s;
                   (s2, perIp) = hit now (HitIp ipHash) CAP_WINDOW_MS s1 in
               if turnMaxPerDeviceHour c < perDevice \<or> turnMaxPerIpHour c < perIp then (s2, TurnCapped, None)
               else (case generate lib c now d of
                  Servers servers \<Rightarrow>
                    if servers = [] then (s2, TurnNothing, None)
                    else (setCached now d servers (int (turnCacheSeconds c) * 1000) s2, TurnIssued, Some servers)
                | NoServers \<Rightarrow> (s2, TurnNothing, None)
                | GenerateThrew \<Rightarrow> (s2, TurnError, None))))"

definition relayServers ::
  "turn_lib \<Rightarrow> turn_config \<Rightarrow> flags \<Rightarrow> millis \<Rightarrow> device_id \<Rightarrow> string option \<Rightarrow> turn_store \<Rightarrow> turn_store \<times> credential_result \<times> ice_server list option" where
  "relayServers lib c f now d socketIpKey s =
     (if turnProvider c = NoTurn then (s, TurnNothing, None)
      else if \<not> turn_enabled f then (s, TurnDisabled, None)
      else issue lib c now d socketIpKey s)"

definition callMedia ::
  "turn_lib \<Rightarrow> turn_config \<Rightarrow> flags \<Rightarrow> millis \<Rightarrow> device_id \<Rightarrow> string option \<Rightarrow> turn_store \<Rightarrow> turn_store \<times> call_media" where
  "callMedia lib c f now d socketIpKey s =
     (let (s', r, relay) = relayServers lib c f now d socketIpKey s in
      (s', \<lparr>iceServers = (case relay of Some rs \<Rightarrow> stunServers c @ rs | None \<Rightarrow> stunServers c),
            maxBitrateKbps = video_max_kbps f, relayMaxBitrateKbps = relay_video_max_kbps f,
            privateModeAllowed = (relay \<noteq> None \<and> private_mode_enabled f \<and> turn_enabled f)\<rparr>))"

section \<open>Facts\<close>

definition turn_ok :: "turn_store \<Rightarrow> bool" where
  "turn_ok s \<longleftrightarrow> xm_ok (tn_cache s) \<and> xm_ok (tn_hits s) \<and> xm_ok (tn_ips s)"

lemma hit_ok [inv_intros]: "turn_ok s \<Longrightarrow> turn_ok (fst (hit now k w s))"
  by (simp add: turn_ok_def hit_def Let_def xm.good_write)

lemma setCached_ok [inv_intros]: "turn_ok s \<Longrightarrow> turn_ok (setCached now d v ttl s)"
  by (simp add: turn_ok_def setCached_def xm.good_write)

lemma hits_setCached [simp]: "hits_now t k w (setCached now d v ttl s) = hits_now t k w s"
  by (simp add: hits_now_def setCached_def)

lemma window_rest: "0 < w \<Longrightarrow> t div w = now div w \<Longrightarrow> t < now + (w - now mod w)" for t now w :: int
proof -
  assume w: "0 < w" and eq: "t div w = now div w"
  have "t = w * (now div w) + t mod w" by (metis eq mult_div_mod_eq)
  moreover have "now = w * (now div w) + now mod w" by simp
  moreover have "t mod w < w" using w by simp
  ultimately show "t < now + (w - now mod w)" by linarith
qed

lemma hits_hit:
  assumes "turn_ok s" "0 < w" "now \<le> t" "t div w = now div w"
  shows "hits_now t j w (fst (hit now k w s)) = (if j = k then hits_now now k w s + 1 else hits_now t j w s)"
proof -
  have "\<not> now + (w - now mod w) \<le> t" using window_rest [OF assms(2,4)] by simp
  moreover have "xm_ok (tn_hits s)" using assms(1) by (simp add: turn_ok_def)
  ultimately show ?thesis
    using assms(3,4) by (simp add: hits_now_def [of t] hit_def Let_def xm.read_write)
qed

text \<open>A counter only reads less later once its window is over.\<close>

definition hits_kept :: "turn_store \<Rightarrow> hit_key \<Rightarrow> int \<Rightarrow> millis \<Rightarrow> nat \<Rightarrow> bool" where
  "hits_kept s k w now n \<longleftrightarrow> (\<forall>t. now \<le> t \<and> t div CAP_WINDOW_MS = w \<longrightarrow> hits_now t k CAP_WINDOW_MS s = n)"

lemma issue_facts:
  assumes "turn_ok s" "now div CAP_WINDOW_MS = w" "hits_kept s (HitDev d) w now n"
    "issue lib c now d' key s = (s', r, sv)"
  shows "turn_ok s'"
    and "\<exists>n'. hits_kept s' (HitDev d) w now n' \<and> n \<le> n' \<and>
      (d' = d \<and> r = TurnIssued \<longrightarrow> n' = n + 1 \<and> n' \<le> turnMaxPerDeviceHour c)"
proof -
  have W: "0 < CAP_WINDOW_MS" by (simp add: CAP_WINDOW_MS_def)
  have frame: "hits_kept (setCached now e v ttl x) k w now m \<longleftrightarrow> hits_kept x k w now m" for e v ttl x k m
    by (simp add: hits_kept_def)
  have h: "hits_kept (fst (hit now k CAP_WINDOW_MS x)) j w now (if j = k then hits_now now k CAP_WINDOW_MS x + 1 else m)"
    if "turn_ok x" "hits_kept x j w now m" for x j k m
    using hits_hit [OF that(1) W] that(2) assms(2) by (auto simp: hits_kept_def)
  have "turn_ok s' \<and> (\<exists>n'. hits_kept s' (HitDev d) w now n' \<and> n \<le> n' \<and>
      (d' = d \<and> r = TurnIssued \<longrightarrow> n' = n + 1 \<and> n' \<le> turnMaxPerDeviceHour c))"
  proof (cases "getCached now d' s = None \<and> nonempty (case getDeviceIp now d' s of Some k \<Rightarrow> Some k | None \<Rightarrow> key) \<noteq> None")
    case False
    then have "s' = s" "r \<noteq> TurnIssued" using assms(4) by (auto simp: issue_def split: option.splits)
    then show ?thesis using assms(1,3) by blast
  next
    case True
    then obtain ip where ip: "nonempty (case getDeviceIp now d' s of Some k \<Rightarrow> Some k | None \<Rightarrow> key) = Some ip" by blast
    obtain s1 p where s1: "hit now (HitDev d') CAP_WINDOW_MS s = (s1, p)" by (cases "hit now (HitDev d') CAP_WINDOW_MS s")
    obtain s2 q where s2: "hit now (HitIp ip) CAP_WINDOW_MS s1 = (s2, q)" by (cases "hit now (HitIp ip) CAP_WINDOW_MS s1")
    have ok1: "turn_ok s1" using hit_ok [OF assms(1)] s1 by (metis fst_conv)
    have ok2: "turn_ok s2" using hit_ok [OF ok1] s2 by (metis fst_conv)
    let ?n = "if d' = d then n + 1 else n"
    have now_n: "hits_now now (HitDev d) CAP_WINDOW_MS s = n" using assms(2,3) by (simp add: hits_kept_def)
    then have k1: "hits_kept s1 (HitDev d) w now ?n"
      using h [OF assms(1,3), of "HitDev d'"] s1 by (auto split: if_splits)
    have k2: "hits_kept s2 (HitDev d) w now ?n" using h [OF ok1 k1, of "HitIp ip"] s2 by simp
    have p: "d' = d \<Longrightarrow> p = n + 1" using s1 now_n by (auto simp: hit_def Let_def)
    have res: "(s', r, sv) = (if turnMaxPerDeviceHour c < p \<or> turnMaxPerIpHour c < q then (s2, TurnCapped, None)
        else (case generate lib c now d' of
            Servers servers \<Rightarrow> if servers = [] then (s2, TurnNothing, None)
              else (setCached now d' servers (int (turnCacheSeconds c) * 1000) s2, TurnIssued, Some servers)
          | NoServers \<Rightarrow> (s2, TurnNothing, None) | GenerateThrew \<Rightarrow> (s2, TurnError, None)))"
      using assms(4) True ip s1 s2 by (simp add: issue_def)
    then have s': "turn_ok s' \<and> hits_kept s' (HitDev d) w now ?n \<and> (r = TurnIssued \<longrightarrow> p \<le> turnMaxPerDeviceHour c)"
      using ok2 k2 by (auto simp: frame setCached_ok split: if_splits generated.splits)
    then show ?thesis using p by (intro conjI exI [of _ ?n]) auto
  qed
  then show "turn_ok s'" and "\<exists>n'. hits_kept s' (HitDev d) w now n' \<and> n \<le> n' \<and>
      (d' = d \<and> r = TurnIssued \<longrightarrow> n' = n + 1 \<and> n' \<le> turnMaxPerDeviceHour c)"
    by blast+
qed

text \<open>Requests at given times for given devices (with the key of their socket), and how many of one device's are issued.\<close>

fun issued_to :: "device_id \<Rightarrow> turn_lib \<Rightarrow> turn_config \<Rightarrow> (millis \<times> device_id \<times> string option) list \<Rightarrow> turn_store \<Rightarrow> nat" where
  "issued_to d lib c [] s = 0"
| "issued_to d lib c ((now, d', key) # rs) s =
     (let (s', r, _) = issue lib c now d' key s in
      (if d' = d \<and> r = TurnIssued then 1 else 0) + issued_to d lib c rs s')"

lemma issued_cap:
  assumes "turn_ok s" "sorted (now # map fst rs)" "\<forall>t \<in> set (now # map fst rs). t div CAP_WINDOW_MS = w"
    "hits_kept s (HitDev d) w now n"
  shows "issued_to d lib c rs s \<le> turnMaxPerDeviceHour c - n"
  using assms
proof (induction rs arbitrary: s now n)
  case (Cons x rs)
  obtain t d' key where x: "x = (t, d', key)" by (cases x)
  obtain s' r sv where iss: "issue lib c t d' key s = (s', r, sv)" by (cases "issue lib c t d' key s") auto
  have t: "now \<le> t" "t div CAP_WINDOW_MS = w" using Cons.prems(2,3) x by simp_all
  have kept: "hits_kept s (HitDev d) w t n" using Cons.prems(4) t(1) by (auto simp: hits_kept_def)
  obtain n' where n': "hits_kept s' (HitDev d) w t n'" "n \<le> n'"
      "d' = d \<and> r = TurnIssued \<longrightarrow> n' = n + 1 \<and> n' \<le> turnMaxPerDeviceHour c"
    using issue_facts(2) [OF Cons.prems(1) t(2) kept iss] by blast
  have "issued_to d lib c rs s' \<le> turnMaxPerDeviceHour c - n'"
    using Cons.IH [OF issue_facts(1) [OF Cons.prems(1) t(2) kept iss] _ _ n'(1)] Cons.prems(2,3) x by simp
  then show ?case using x iss n'(2,3) by (auto simp: diff_le_mono2 intro: order_trans)
qed simp

end
