(* ===== verification/Policy.thy ===== *)
theory Policy
  imports Complex_Main Protocol
begin

text \<open>
  The enforcement rules without state, \<open>backend/src/enforcement/policy.ts\<close>, with their numbers
  (\<open>enforcement/constants.ts\<close>) and the stored records (\<open>enforcement/types.ts\<close>). Weights and
  scores are exact rationals here, floating-point numbers in the code.
\<close>

section \<open>Constants\<close>

definition E_MINUTE :: millis where "E_MINUTE = 60000"
definition E_HOUR :: millis where "E_HOUR = 60 * E_MINUTE"
definition E_DAY :: millis where "E_DAY = 24 * E_HOUR"
definition E_YEAR :: millis where "E_YEAR = 365 * E_DAY"

datatype ladder_step = WarningStep | Duration "millis option"

definition AUTO_PAUSE_MS :: millis where "AUTO_PAUSE_MS = 10 * E_MINUTE"
definition LADDER :: "ladder_step list" where
  "LADDER = [WarningStep, Duration (Some 600000), Duration (Some 86400000), Duration (Some 604800000), Duration None]"
definition REPORTS_PER_HOUR :: nat where "REPORTS_PER_HOUR = 5"
definition REPORTS_PER_IP_PER_HOUR :: nat where "REPORTS_PER_IP_PER_HOUR = 30"
definition AUTO_PAUSE_WINDOW_MS :: millis where "AUTO_PAUSE_WINDOW_MS = E_DAY"
definition AUTO_PAUSE_THRESHOLD :: rat where "AUTO_PAUSE_THRESHOLD = 8 / 5"
definition HIGH_WEIGHT :: rat where "HIGH_WEIGHT = 7 / 10"
definition SHORT_CALL_MS :: millis where "SHORT_CALL_MS = 2000"
definition COMPLETED_CALL_MS :: millis where "COMPLETED_CALL_MS = 30000"
definition UNDERAGE_CORROBORATION_WINDOW_MS :: millis where "UNDERAGE_CORROBORATION_WINDOW_MS = 7 * E_DAY"
definition NSFW_THRESHOLD :: rat where "NSFW_THRESHOLD = 7 / 10"
definition MINOR_THRESHOLD :: rat where "MINOR_THRESHOLD = 1 / 2"
definition ACK_SLA_MS :: millis where "ACK_SLA_MS = E_DAY"
definition URGENT_RESOLVE_SLA_MS :: millis where "URGENT_RESOLVE_SLA_MS = 3 * E_DAY"
definition RESOLVE_SLA_MS :: millis where "RESOLVE_SLA_MS = 15 * E_DAY"
definition APPEAL_DUE_MS :: millis where "APPEAL_DUE_MS = 2 * E_DAY"
definition FULL_WEIGHT_AGE_HOURS :: rat where "FULL_WEIGHT_AGE_HOURS = 72"
definition FULL_WEIGHT_CALLS :: rat where "FULL_WEIGHT_CALLS = 10"
definition NEUTRAL_UPHELD_SHARE :: rat where "NEUTRAL_UPHELD_SHARE = 1 / 2"
definition DISMISSED_FOR_ZERO_WEIGHT :: int where "DISMISSED_FOR_ZERO_WEIGHT = 3"
definition UPHELD_SHARE_FLOOR :: rat where "UPHELD_SHARE_FLOOR = 1 / 4"
definition WEIGHT_SCALE :: rat where "WEIGHT_SCALE = 1000"

section \<open>Stored records\<close>

datatype report_status = OpenReport | Acknowledged | Dismissed | Actioned | Escalated

datatype chat_from = ByReporter | ByReported

record chat_line =
  cl_from :: chat_from
  cl_text :: string
  cl_ts :: millis

record device_network =
  dn_ip :: "string option"
  dn_country :: "string option"

record stored_report =
  sp_id :: uuid
  sp_createdAt :: millis
  sp_roomId :: uuid
  sp_reason :: report_reason
  sp_reporterDevice :: device_id
  sp_reporterNetwork :: "string option"
  sp_reportedDevice :: device_id
  sp_reporterWeight :: rat
  sp_details :: "string option"
  sp_chat :: "chat_line list"
  sp_evidenceId :: "uuid option"
  sp_evidenceSha256 :: "string option"
  sp_restricted :: bool
  sp_nsfwScore :: "rat option"
  sp_minorScore :: "rat option"
  sp_status :: report_status
  sp_shortCall :: bool
  sp_humanViewed :: bool
  sp_legalHold :: bool
  sp_preservedUntil :: "millis option"
  sp_acknowledgedAt :: "millis option"
  sp_decidedAt :: "millis option"
  sp_restrictionId :: "uuid option"
  sp_reportedNetwork :: "device_network option"

record stored_restriction = restriction +
  sr_deviceId :: device_id
  sr_fingerprintHash :: "string option"
  sr_reportId :: "uuid option"
  sr_auto :: bool
  sr_liftedAt :: "millis option"

record stored_appeal =
  sa_id :: uuid
  sa_restrictionId :: uuid
  sa_deviceId :: device_id
  sa_text :: string
  sa_createdAt :: millis
  sa_dueAt :: millis
  sa_status :: appeal_status
  sa_decidedAt :: "millis option"
  sa_note :: "string option"

datatype takedown_kind = Csam | Ncii | Impersonation | OtherTakedown

record stored_takedown =
  st_id :: uuid
  st_kind :: takedown_kind
  st_contactEmail :: string
  st_description :: string
  st_location :: "string option"
  st_isAffectedPerson :: bool
  st_createdAt :: millis
  st_dueAt :: millis
  st_open :: bool
  st_resolution :: "string option"
  st_restricted :: bool
  st_resolvedAt :: "millis option"

record device_stats =
  ds_firstSeen :: "millis option"
  ds_completedCalls :: int
  ds_upheld :: int
  ds_dismissed :: int
  ds_minorFlag :: bool

record last_room =
  lr_roomId :: uuid
  lr_devices :: "device_id \<times> device_id"
  lr_activeSince :: "millis option"
  lr_endedAt :: millis

section \<open>Rules\<close>

fun REASON_RANK :: "report_reason \<Rightarrow> int" where
  "REASON_RANK underage = 0"
| "REASON_RANK nudity = 1"
| "REASON_RANK harassment = 2"
| "REASON_RANK hate = 2"
| "REASON_RANK violence = 2"
| "REASON_RANK inappropriate = 3"
| "REASON_RANK spam = 4"
| "REASON_RANK fake = 4"
| "REASON_RANK other_reason = 5"

datatype severity = Critical | High | Medium | Low

fun SEVERITY_RANK :: "severity \<Rightarrow> int" where
  "SEVERITY_RANK Critical = 0"
| "SEVERITY_RANK High = 1"
| "SEVERITY_RANK Medium = 2"
| "SEVERITY_RANK Low = 3"

definition severityOf :: "report_reason \<Rightarrow> bool \<Rightarrow> severity" where
  "severityOf r restricted =
     (if restricted \<or> r = underage then Critical
      else if r = nudity then High
      else if r \<in> {harassment, hate, violence, inappropriate} then Medium
      else Low)"

definition queueRank :: "report_reason \<Rightarrow> bool \<Rightarrow> int \<times> int" where
  "queueRank r restricted = (SEVERITY_RANK (severityOf r restricted), if restricted then - 1 else REASON_RANK r)"

definition reportSla :: "report_reason \<Rightarrow> bool \<Rightarrow> millis \<Rightarrow> millis \<times> millis" where
  "reportSla r restricted created =
     (created + ACK_SLA_MS,
      created + (if restricted \<or> r = nudity \<or> r = underage then URGENT_RESOLVE_SLA_MS else RESOLVE_SLA_MS))"

fun TAKEDOWN_SLA_MS :: "takedown_kind \<Rightarrow> millis" where
  "TAKEDOWN_SLA_MS Csam = E_DAY"
| "TAKEDOWN_SLA_MS Ncii = 2 * E_DAY"
| "TAKEDOWN_SLA_MS Impersonation = 15 * E_DAY"
| "TAKEDOWN_SLA_MS OtherTakedown = 15 * E_DAY"

definition takedownDueAt :: "takedown_kind \<Rightarrow> millis \<Rightarrow> millis" where
  "takedownDueAt k created = created + TAKEDOWN_SLA_MS k"

definition restrictionReasonFor :: "report_reason \<Rightarrow> bool \<Rightarrow> restriction_reason" where
  "restrictionReasonFor r restricted =
     (if restricted \<and> r \<noteq> underage then RMinorSafety
      else case r of
        fake \<Rightarrow> RFakeVideo | inappropriate \<Rightarrow> ROther | spam \<Rightarrow> RSpam | nudity \<Rightarrow> RNudity | harassment \<Rightarrow> RHarassment
      | hate \<Rightarrow> RHate | violence \<Rightarrow> RViolence | underage \<Rightarrow> RUnderage | other_reason \<Rightarrow> ROther)"

definition evidenceShowable :: "restriction_reason \<Rightarrow> bool \<Rightarrow> bool \<Rightarrow> bool" where
  "evidenceShowable r hasFrame restricted \<longleftrightarrow>
     hasFrame \<and> \<not> restricted \<and> r \<noteq> RNudity \<and> r \<noteq> RMinorSafety \<and> r \<noteq> RUnderage"

definition kindFor :: "millis option \<Rightarrow> restriction_kind" where
  "kindFor d = (case d of Some ms \<Rightarrow> if ms < E_DAY then Pause else Ban | None \<Rightarrow> Ban)"

datatype ladder_action = Warn | Restrict

definition ladderStep :: "ladder_action \<Rightarrow> nat \<Rightarrow> ladder_step" where
  "ladderStep a confirmed =
     (case a of Warn \<Rightarrow> WarningStep | Restrict \<Rightarrow> LADDER ! min (max confirmed 1) (length LADDER - 1))"

text \<open>\<open>Math.round\<close> rounds a half up.\<close>

definition js_round :: "rat \<Rightarrow> int" where
  "js_round x = \<lfloor>x + 1 / 2\<rfloor>"

definition upheld_share :: "device_stats \<Rightarrow> rat" where
  "upheld_share s = (let decided = ds_upheld s + ds_dismissed s in
     if 0 < decided then of_int (ds_upheld s) / of_int decided else NEUTRAL_UPHELD_SHARE)"

definition reporterWeight :: "device_stats \<Rightarrow> millis \<Rightarrow> rat" where
  "reporterWeight s now =
     (if DISMISSED_FOR_ZERO_WEIGHT \<le> ds_dismissed s \<and> upheld_share s < UPHELD_SHARE_FLOOR then 0
      else
        let ageHours = (case ds_firstSeen s of None \<Rightarrow> 0 | Some f \<Rightarrow> of_int (max 0 (now - f)) / of_int E_HOUR);
            age = min 1 (ageHours / FULL_WEIGHT_AGE_HOURS);
            calls = min 1 (of_int (ds_completedCalls s) / FULL_WEIGHT_CALLS);
            w = 1 / 20 + 3 / 10 * age + 3 / 10 * calls + 7 / 20 * upheld_share s in
        of_int (js_round (min 1 (max 0 w) * WEIGHT_SCALE)) / WEIGHT_SCALE)"

definition reportWeight :: "rat \<Rightarrow> bool \<Rightarrow> rat" where
  "reportWeight w shortCall = (if shortCall then w / 2 else w)"

record frame_scores =
  fs_nsfw :: rat
  fs_minor :: rat

definition routeRestricted :: "report_reason \<Rightarrow> frame_scores option \<Rightarrow> bool \<Rightarrow> bool" where
  "routeRestricted r scores minorSignal =
     (let minorFromFrame = (case scores of Some s \<Rightarrow> MINOR_THRESHOLD \<le> fs_minor s | None \<Rightarrow> False) in
      if r = underage then True
      else if r = nudity \<and> (minorFromFrame \<or> minorSignal) then True
      else (case scores of Some s \<Rightarrow> NSFW_THRESHOLD \<le> fs_nsfw s \<and> minorFromFrame | None \<Rightarrow> False))"

section \<open>Facts\<close>

lemma js_round_bounds: "0 \<le> x \<Longrightarrow> x \<le> of_int n \<Longrightarrow> 0 \<le> js_round x \<and> js_round x \<le> n"
  unfolding js_round_def by (auto simp: floor_le_iff)

lemma reporterWeight_range: "0 \<le> reporterWeight s now \<and> reporterWeight s now \<le> 1"
proof -
  have "0 \<le> js_round (min 1 (max 0 w) * WEIGHT_SCALE) \<and> js_round (min 1 (max 0 w) * WEIGHT_SCALE) \<le> 1000" for w
    by (rule js_round_bounds) (simp_all add: WEIGHT_SCALE_def)
  then show ?thesis
    by (auto simp: reporterWeight_def Let_def WEIGHT_SCALE_def divide_le_eq)
qed

text \<open>One step is at least as long as another; a permanent one is longest.\<close>

fun step_le :: "ladder_step \<Rightarrow> ladder_step \<Rightarrow> bool" where
  "step_le (Duration (Some a)) (Duration (Some b)) \<longleftrightarrow> a \<le> b"
| "step_le (Duration _) (Duration None) \<longleftrightarrow> True"
| "step_le WarningStep _ \<longleftrightarrow> True"
| "step_le _ _ \<longleftrightarrow> False"

lemma ladderStep_at:
  "ladderStep Restrict n =
     (if n \<le> 1 then Duration (Some 600000) else if n = 2 then Duration (Some 86400000)
      else if n = 3 then Duration (Some 604800000) else Duration None)"
proof -
  consider "n \<le> 1" | "n = 2" | "n = 3" | "4 \<le> n" by linarith
  then show ?thesis by cases (auto simp: ladderStep_def LADDER_def max_def min_def)
qed

lemma ladder_escalates: "n \<le> m \<Longrightarrow> step_le (ladderStep Restrict n) (ladderStep Restrict m)"
  by (simp add: ladderStep_at)

end
