(* ===== verification/Evidence.thy ===== *)
theory Evidence
  imports Policy
begin

text \<open>
  Evidence frames (\<open>backend/src/enforcement/evidence.ts\<close>): the data URL a reporter sends is
  checked and decoded, and the bytes are kept in one of two areas of a directory. A file system
  is a map from area and id to bytes here; ids are server-made UUIDs, which always match the id
  pattern. SHA-256 is a parameter. The S3 variant is not modelled.
\<close>

definition EVIDENCE_MAX_BYTES :: nat where "EVIDENCE_MAX_BYTES = 98304"
definition EVIDENCE_MIN_BYTES :: nat where "EVIDENCE_MIN_BYTES = 4"
definition JPEG_DATA_URL_PREFIX :: string where "JPEG_DATA_URL_PREFIX = ''data:image/jpeg;base64,''"
definition JPEG_MAGIC :: string where "JPEG_MAGIC = [CHR 0xFF, CHR 0xD8, CHR 0xFF]"

section \<open>Base64\<close>

definition BASE64 :: string where
  "BASE64 = ''ABCDEFGHIJKLMNOPQRSTUVWXYZabcdefghijklmnopqrstuvwxyz0123456789+/''"

fun position :: "'a \<Rightarrow> 'a list \<Rightarrow> nat option" where
  "position x [] = None"
| "position x (y # ys) = (if x = y then Some 0 else map_option Suc (position x ys))"

definition sextet :: "char \<Rightarrow> nat option" where
  "sextet c = position c BASE64"

text \<open>Four digits make three bytes; a last group of two or three digits makes one or two.\<close>

fun decode_sextets :: "nat list \<Rightarrow> nat list" where
  "decode_sextets (a # b # c # d # r) =
     (a * 4 + b div 16) # (b mod 16 * 16 + c div 4) # (c mod 4 * 64 + d) # decode_sextets r"
| "decode_sextets [a, b, c] = [a * 4 + b div 16, b mod 16 * 16 + c div 4]"
| "decode_sextets [a, b] = [a * 4 + b div 16]"
| "decode_sextets _ = []"

fun encode_sextets :: "nat list \<Rightarrow> nat list" where
  "encode_sextets (x # y # z # r) =
     (x div 4) # (x mod 4 * 16 + y div 16) # (y mod 16 * 4 + z div 64) # (z mod 64) # encode_sextets r"
| "encode_sextets [x, y] = [x div 4, x mod 4 * 16 + y div 16, y mod 16 * 4]"
| "encode_sextets [x] = [x div 4, x mod 4 * 16]"
| "encode_sextets [] = []"

definition pad_count :: "nat \<Rightarrow> nat" where
  "pad_count n = (if n mod 3 = 0 then 0 else 3 - n mod 3)"

definition base64 :: "string \<Rightarrow> string" where
  "base64 bytes = map (\<lambda>n. BASE64 ! n) (encode_sextets (map of_char bytes)) @ replicate (pad_count (length bytes)) (CHR ''='')"

text \<open>The digits of a text that matches \<open>^[A-Za-z0-9+/]+={0,2}$\<close>.\<close>

definition base64_digits :: "string \<Rightarrow> nat list option" where
  "base64_digits s =
     (let body = takeWhile (\<lambda>c. c \<noteq> CHR ''='') s; pad = dropWhile (\<lambda>c. c \<noteq> CHR ''='') s in
      if body \<noteq> [] \<and> length pad \<le> 2 \<and> list_all (\<lambda>c. c = CHR ''='') pad \<and> list_all (\<lambda>c. sextet c \<noteq> None) body
      then Some (map (\<lambda>c. the (sextet c)) body) else None)"

section \<open>The frame\<close>

record evidence_frame =
  ef_bytes :: string
  ef_sha256 :: string

definition isJpeg :: "string \<Rightarrow> bool" where
  "isJpeg bytes \<longleftrightarrow> take (length JPEG_MAGIC) bytes = JPEG_MAGIC"

definition parseEvidenceFrame :: "(string \<Rightarrow> string) \<Rightarrow> string \<Rightarrow> evidence_frame option" where
  "parseEvidenceFrame sha dataUrl =
     (if take (length JPEG_DATA_URL_PREFIX) dataUrl \<noteq> JPEG_DATA_URL_PREFIX then None
      else
        let b64 = drop (length JPEG_DATA_URL_PREFIX) dataUrl in
        if b64 = [] \<or> length b64 mod 4 \<noteq> 0 then None
        else case base64_digits b64 of
          None \<Rightarrow> None
        | Some ds \<Rightarrow>
            let bytes = map char_of (decode_sextets ds) in
            if length bytes < EVIDENCE_MIN_BYTES \<or> EVIDENCE_MAX_BYTES < length bytes then None
            else if \<not> isJpeg bytes then None
            else Some \<lparr>ef_bytes = bytes, ef_sha256 = sha bytes\<rparr>)"

definition toDataUrl :: "string \<Rightarrow> string" where
  "toDataUrl bytes = JPEG_DATA_URL_PREFIX @ base64 bytes"

section \<open>The store\<close>

type_synonym evidence_disk = "(bool \<times> uuid, string) jmap"

text \<open>Write once; \<open>False\<close> is a throw.\<close>

definition ev_put :: "uuid \<Rightarrow> string \<Rightarrow> bool \<Rightarrow> evidence_disk \<Rightarrow> evidence_disk \<times> bool" where
  "ev_put i bytes restricted m =
     (case jget m (restricted, i) of
        None \<Rightarrow> (jset m (restricted, i) bytes, True)
      | Some old \<Rightarrow> (m, old = bytes))"

datatype ev_read = Bytes string | Missing | Corrupt

definition ev_get :: "uuid \<Rightarrow> bool \<Rightarrow> evidence_disk \<Rightarrow> ev_read" where
  "ev_get i restricted m =
     (case jget m (restricted, i) of
        None \<Rightarrow> Missing
      | Some b \<Rightarrow> if EVIDENCE_MAX_BYTES < length b \<or> \<not> isJpeg b then Corrupt else Bytes b)"

definition ev_delete :: "uuid \<Rightarrow> bool \<Rightarrow> evidence_disk \<Rightarrow> evidence_disk" where
  "ev_delete i restricted m = jdel m (restricted, i)"

section \<open>Facts\<close>

lemma sextet_BASE64: "n < 64 \<Longrightarrow> sextet (BASE64 ! n) = Some n"
proof -
  have "\<forall>n \<in> set [0..<64]. sextet (BASE64 ! n) = Some n" by code_simp
  then show "n < 64 \<Longrightarrow> sextet (BASE64 ! n) = Some n" by simp
qed

lemma BASE64_no_pad: "n < 64 \<Longrightarrow> BASE64 ! n \<noteq> CHR ''=''"
proof -
  have "\<forall>n \<in> set [0..<64]. BASE64 ! n \<noteq> CHR ''=''" by code_simp
  then show "n < 64 \<Longrightarrow> BASE64 ! n \<noteq> CHR ''=''" by simp
qed

lemma digits: "b < k \<Longrightarrow> (a * k + b) div k = (a::nat)" "b < k \<Longrightarrow> (a * k + b) mod k = (b::nat)"
  by simp_all

lemma div_below: "x < 256 \<Longrightarrow> x div 4 < (64::nat)" "x < 256 \<Longrightarrow> x div 16 < (16::nat)" "x < 256 \<Longrightarrow> x div 64 < (4::nat)"
  by (simp_all add: div_less_iff_less_mult)

lemma byte_group:
  fixes x y z :: nat
  shows "y < 256 \<Longrightarrow> x mod 4 * 16 + y div 16 < 64"
    and "z < 256 \<Longrightarrow> y mod 16 * 4 + z div 64 < 64"
    and "x mod 4 * 16 < 64" and "y mod 16 * 4 < 64" and "z mod 64 < 64"
proof -
  have m: "x mod 4 < 4" "y mod 16 < 16" by simp_all
  show "y < 256 \<Longrightarrow> x mod 4 * 16 + y div 16 < 64" using m(1) div_below(2) [of y] by linarith
  show "z < 256 \<Longrightarrow> y mod 16 * 4 + z div 64 < 64" using m(2) div_below(3) [of z] by linarith
  show "x mod 4 * 16 < 64" "y mod 16 * 4 < 64" using m by linarith+
qed simp

lemma byte_back: "x div 4 * 4 + (x mod 4 * 16 + y div 16) div 16 = (x::nat)" if "y < 256" for x y
  unfolding digits(1) [OF div_below(2) [OF that]] by (rule div_mult_mod_eq)

lemma byte_back2: "(x mod 4 * 16 + y div 16) mod 16 * 16 + (y mod 16 * 4 + z div 64) div 4 = (y::nat)" if "y < 256" "z < 256" for x y z
  unfolding digits(2) [OF div_below(2) [OF that(1)]] digits(1) [OF div_below(3) [OF that(2)]] by (rule div_mult_mod_eq)

lemma byte_back3: "(y mod 16 * 4 + z div 64) mod 4 * 64 + z mod 64 = (z::nat)" if "z < 256" for y z
  unfolding digits(2) [OF div_below(3) [OF that]] by (rule div_mult_mod_eq)

lemma decode_encode: "\<forall>b \<in> set bs. b < 256 \<Longrightarrow> decode_sextets (encode_sextets bs) = bs"
proof (induction bs rule: encode_sextets.induct)
  case (1 x y z r)
  then have "y < 256" "z < 256" "decode_sextets (encode_sextets r) = r" by simp_all
  then show ?case
    by (simp only: encode_sextets.simps decode_sextets.simps byte_back byte_back2 byte_back3)
next
  case (2 x y)
  then have "y < 256" by simp
  then show ?case using byte_back [of y x] byte_back2 [of y 0 x] by simp
next
  case (3 x)
  show ?case using byte_back [of 0 x] by simp
qed simp

lemma encode_small: "\<forall>b \<in> set bs. b < 256 \<Longrightarrow> n \<in> set (encode_sextets bs) \<Longrightarrow> n < 64"
proof (induction bs rule: encode_sextets.induct)
  case (1 x y z r)
  then have "x < 256" "y < 256" "z < 256" "n \<in> set (encode_sextets r) \<Longrightarrow> n < 64" by simp_all
  then show ?case
    using 1(3) div_below(1) byte_group(1) [of y x] byte_group(2) [of z y] byte_group(5) [of z]
    by (simp only: encode_sextets.simps list.set insert_iff) blast
next
  case (2 x y)
  then have "x < 256" "y < 256" by simp_all
  then show ?case
    using 2(2) div_below(1) byte_group(1) [of y x] byte_group(4) [of y]
    by (simp only: encode_sextets.simps list.set insert_iff empty_iff) blast
next
  case (3 x)
  then have "x < 256" by simp
  then show ?case
    using 3(2) div_below(1) byte_group(3) [of x] by (simp only: encode_sextets.simps list.set insert_iff empty_iff) blast
qed simp

lemma encode_length: "(length (encode_sextets bs) + pad_count (length bs)) mod 4 = 0"
proof (induction bs rule: encode_sextets.induct)
  case (1 x y z r)
  have "length (x # y # z # r) mod 3 = length r mod 3" by (simp add: numeral_3_eq_3 [symmetric])
  then have "pad_count (length (x # y # z # r)) = pad_count (length r)" by (simp only: pad_count_def)
  moreover have "length (encode_sextets (x # y # z # r)) = length (encode_sextets r) + 4" by simp
  ultimately have "length (encode_sextets (x # y # z # r)) + pad_count (length (x # y # z # r)) =
      length (encode_sextets r) + pad_count (length r) + 4" by linarith
  then show ?case using 1 by (simp only: mod_add_self2)
qed (simp_all add: pad_count_def)

lemma split_at_pad:
  "p \<notin> set xs \<Longrightarrow> takeWhile (\<lambda>c. c \<noteq> p) (xs @ replicate n p) = xs"
  "p \<notin> set xs \<Longrightarrow> dropWhile (\<lambda>c. c \<noteq> p) (xs @ replicate n p) = replicate n p"
proof -
  have "takeWhile (\<lambda>c. c \<noteq> p) (replicate n p) = [] \<and> dropWhile (\<lambda>c. c \<noteq> p) (replicate n p) = replicate n p"
    by (cases n) simp_all
  then show "p \<notin> set xs \<Longrightarrow> takeWhile (\<lambda>c. c \<noteq> p) (xs @ replicate n p) = xs"
    and "p \<notin> set xs \<Longrightarrow> dropWhile (\<lambda>c. c \<noteq> p) (xs @ replicate n p) = replicate n p"
    by (induction xs) auto
qed

lemma base64_digits_base64:
  assumes "bytes \<noteq> []"
  shows "base64_digits (base64 bytes) = Some (encode_sextets (map of_char bytes))"
proof -
  let ?ns = "encode_sextets (map of_char bytes)" and ?pad = "replicate (pad_count (length bytes)) (CHR ''='')"
  have small: "n < 64" if "n \<in> set ?ns" for n
    using encode_small [OF _ that] by (auto simp: nat_of_char_less_256)
  have ne: "?ns \<noteq> []" using assms by (cases "map of_char bytes :: nat list" rule: encode_sextets.cases) auto
  have body: "takeWhile (\<lambda>c. c \<noteq> CHR ''='') (base64 bytes) = map (\<lambda>n. BASE64 ! n) ?ns"
    and pad: "dropWhile (\<lambda>c. c \<noteq> CHR ''='') (base64 bytes) = ?pad"
    unfolding base64_def using small BASE64_no_pad by (intro split_at_pad; force)+
  have "map (\<lambda>c. the (sextet c)) (map (\<lambda>n. BASE64 ! n) ?ns) = ?ns"
    using small sextet_BASE64 by (simp add: map_idI)
  moreover have "list_all (\<lambda>c. sextet c \<noteq> None) (map (\<lambda>n. BASE64 ! n) ?ns)"
    using small sextet_BASE64 by (auto simp: list_all_iff)
  moreover have "length ?pad \<le> 2" by (auto simp: pad_count_def)
  ultimately show ?thesis unfolding base64_digits_def Let_def body pad using ne by (simp add: list_all_iff)
qed

lemma parse_toDataUrl:
  assumes "EVIDENCE_MIN_BYTES \<le> length bytes" "length bytes \<le> EVIDENCE_MAX_BYTES" "isJpeg bytes"
  shows "parseEvidenceFrame sha (toDataUrl bytes) = Some \<lparr>ef_bytes = bytes, ef_sha256 = sha bytes\<rparr>"
proof -
  have ne: "bytes \<noteq> []" using assms(1) by (auto simp: EVIDENCE_MIN_BYTES_def)
  have len: "length (base64 bytes) mod 4 = 0" using encode_length [of "map of_char bytes"] by (simp add: base64_def)
  have ne2: "base64 bytes \<noteq> []" using base64_digits_base64 [OF ne] by (auto simp: base64_digits_def Let_def)
  have "map char_of (decode_sextets (encode_sextets (map of_char bytes))) = bytes"
    by (subst decode_encode) (auto simp: nat_of_char_less_256 o_def)
  then show ?thesis
    using assms len ne2 base64_digits_base64 [OF ne] by (simp add: parseEvidenceFrame_def toDataUrl_def)
qed

end
