(* ===== verification/EnfStore.thy ===== *)
theory EnfStore
  imports Evidence Turn "HOL-Library.Product_Lexorder"
begin

text \<open>
  The in-memory document store of the enforcement module
  (\<open>backend/src/enforcement/MemoryEnforcementStore.ts\<close>, contract \<open>EnforcementStore.ts\<close>). One
  generic map of documents and one of expiring values become one typed map per kind of key
  (\<open>KEY\<close> and \<open>COLLECTIONS\<close> in \<open>enforcement/constants.ts\<close>): key strings of different kinds
  differ in their prefix. JSON copies in and out make every value a copy, as values are here.
  Ids are random, so where scores tie the order of ids is arbitrary in the code; it is the
  order in which they were drawn here.
\<close>

section \<open>Score maps and collections\<close>

record range_options =
  ro_min :: "int option"
  ro_max :: "int option"
  ro_reverse :: bool
  ro_limit :: "nat option"

definition all_range :: range_options where
  "all_range = \<lparr>ro_min = None, ro_max = None, ro_reverse = False, ro_limit = None\<rparr>"

definition inRange :: "int \<Rightarrow> range_options \<Rightarrow> bool" where
  "inRange score opts \<longleftrightarrow>
     (case ro_min opts of None \<Rightarrow> True | Some m \<Rightarrow> m \<le> score) \<and> (case ro_max opts of None \<Rightarrow> True | Some m \<Rightarrow> score \<le> m)"

definition rangeOf :: "(uuid, int) jmap \<Rightarrow> range_options \<Rightarrow> uuid list" where
  "rangeOf scores opts =
     (let ids = map snd (sort (map (\<lambda>(i, s). (s, i)) (filter (\<lambda>(i, s). inRange s opts) scores)));
          ids' = (if ro_reverse opts then rev ids else ids) in
      case ro_limit opts of None \<Rightarrow> ids' | Some n \<Rightarrow> take n ids')"

record 'd collection =
  c_docs :: "(uuid, 'd) jmap"
  c_scores :: "(uuid, int) jmap"

definition c_empty :: "'d collection" where "c_empty = \<lparr>c_docs = [], c_scores = []\<rparr>"

definition c_put :: "uuid \<Rightarrow> 'd \<Rightarrow> int \<Rightarrow> 'd collection \<Rightarrow> 'd collection" where
  "c_put i doc score c = \<lparr>c_docs = jset (c_docs c) i doc, c_scores = jset (c_scores c) i score\<rparr>"

definition c_get :: "'d collection \<Rightarrow> uuid \<Rightarrow> 'd option" where
  "c_get c i = jget (c_docs c) i"

definition c_getMany :: "'d collection \<Rightarrow> uuid list \<Rightarrow> 'd option list" where
  "c_getMany c ids = map (c_get c) ids"

definition c_range :: "'d collection \<Rightarrow> range_options \<Rightarrow> uuid list" where
  "c_range c opts = rangeOf (c_scores c) opts"

definition c_delete :: "uuid \<Rightarrow> 'd collection \<Rightarrow> 'd collection" where
  "c_delete i c = \<lparr>c_docs = jdel (c_docs c) i, c_scores = jdel (c_scores c) i\<rparr>"

lemma c_get_put [simp, lookup_simps]: "c_get (c_put i d s c) j = (if j = i then Some d else c_get c j)"
  by (simp add: c_get_def c_put_def)

lemma c_get_delete [simp, lookup_simps]: "c_get (c_delete i c) j = (if j = i then None else c_get c j)"
  by (simp add: c_get_def c_delete_def)

interpretation coll: keyed_store c_get "\<lambda>c i d. c_put i d 0 c" "\<lambda>c i. c_delete i c"
  by unfold_locales simp_all

lemma set_rangeOf:
  "ro_limit opts = None \<Longrightarrow> set (rangeOf scores opts) = {i. \<exists>s. (i, s) \<in> set scores \<and> inRange s opts}"
  by (force simp: rangeOf_def Let_def)

section \<open>Keys\<close>

datatype index_key =
  OpenReports
| PendingAppeals
| ReportsAgainst device_id
| Restrictions device_id
| RestrictionsByFingerprint string

datatype claim_key =
  RoomReport uuid device_id
| AppealClaim uuid
| RetentionClaim int
| AdminRequest string

datatype hit_counter =
  ReportRate device_id
| ReportIpRate string
| AppealIpRate string
| AppealDeviceRate device_id
| TakedownIpRate string

datatype device_field = FirstSeen | CompletedCalls | UpheldCount | DismissedCount | MinorFlag

record network_ban =
  nb_restrictionId :: uuid
  nb_until :: millis

text \<open>The note of an automatic pause names its report and reason; other notes are an administrator's text.\<close>

datatype audit_note = NoteText string | AutoNote "uuid option" restriction_reason

record audit_entry =
  au_id :: uuid
  au_ts :: millis
  au_action :: string
  au_target :: uuid
  au_note :: "audit_note option"
  au_ip :: "string option"

definition SWEEP_EVERY_WRITES :: nat where "SWEEP_EVERY_WRITES = 1000"

record enf_store =
  es_report :: "stored_report collection"
  es_restriction :: "stored_restriction collection"
  es_appeal :: "stored_appeal collection"
  es_takedown :: "stored_takedown collection"
  es_audit :: "audit_entry collection"
  es_indexes :: "(index_key, (uuid, int) jmap) jmap"
  es_claims :: "(claim_key, unit \<times> millis) jmap"
  es_hits :: "(hit_counter, nat \<times> millis) jmap"
  es_network :: "(device_id, device_network \<times> millis) jmap"
  es_lastRoom :: "(uuid, last_room \<times> millis) jmap"
  es_fingerprint :: "(device_id, string \<times> millis) jmap"
  es_lastAuto :: "(device_id, millis \<times> millis) jmap"
  es_networkBan :: "(string, network_ban \<times> millis) jmap"
  es_fields :: "(device_id, (device_field, int) jmap \<times> millis) jmap"
  es_writes :: nat

definition new_enf_store :: enf_store where
  "new_enf_store = \<lparr>es_report = c_empty, es_restriction = c_empty, es_appeal = c_empty, es_takedown = c_empty,
     es_audit = c_empty, es_indexes = [], es_claims = [], es_hits = [], es_network = [], es_lastRoom = [],
     es_fingerprint = [], es_lastAuto = [], es_networkBan = [], es_fields = [], es_writes = 0\<rparr>"

section \<open>Operations\<close>

text \<open>Counts a write to an expiring map; every \<open>SWEEP_EVERY_WRITES\<close> the lapsed entries go.\<close>

definition wrote :: "millis \<Rightarrow> enf_store \<Rightarrow> enf_store" where
  "wrote now s =
     (let n = es_writes s + 1 in
      if n mod SWEEP_EVERY_WRITES \<noteq> 0 then s\<lparr>es_writes := n\<rparr>
      else s\<lparr>es_writes := n, es_claims := keep_live now (es_claims s), es_hits := keep_live now (es_hits s),
             es_network := keep_live now (es_network s), es_lastRoom := keep_live now (es_lastRoom s),
             es_fingerprint := keep_live now (es_fingerprint s), es_lastAuto := keep_live now (es_lastAuto s),
             es_networkBan := keep_live now (es_networkBan s), es_fields := keep_live now (es_fields s)\<rparr>)"

definition addToIndex :: "index_key \<Rightarrow> uuid \<Rightarrow> int \<Rightarrow> enf_store \<Rightarrow> enf_store" where
  "addToIndex k i score s =
     (let scores = (case jget (es_indexes s) k of Some m \<Rightarrow> m | None \<Rightarrow> []) in
      s\<lparr>es_indexes := jset (es_indexes s) k (jset scores i score)\<rparr>)"

definition removeFromIndex :: "index_key \<Rightarrow> uuid \<Rightarrow> enf_store \<Rightarrow> enf_store" where
  "removeFromIndex k i s =
     (case jget (es_indexes s) k of
        None \<Rightarrow> s
      | Some m \<Rightarrow> let m' = jdel m i in
          s\<lparr>es_indexes := (if m' = [] then jdel (es_indexes s) k else jset (es_indexes s) k m')\<rparr>)"

definition indexRange :: "index_key \<Rightarrow> range_options \<Rightarrow> enf_store \<Rightarrow> uuid list" where
  "indexRange k opts s = (case jget (es_indexes s) k of None \<Rightarrow> [] | Some m \<Rightarrow> rangeOf m opts)"

definition indexCount :: "index_key \<Rightarrow> range_options \<Rightarrow> enf_store \<Rightarrow> nat" where
  "indexCount k opts s =
     (case jget (es_indexes s) k of None \<Rightarrow> 0 | Some m \<Rightarrow> length (filter (\<lambda>(i, sc). inRange sc opts) m))"

definition es_claim :: "millis \<Rightarrow> claim_key \<Rightarrow> millis \<Rightarrow> enf_store \<Rightarrow> enf_store \<times> bool" where
  "es_claim now k ttlMs s =
     (if live now (es_claims s) k \<noteq> None then (s, False)
      else (wrote now (s\<lparr>es_claims := jset (es_claims s) k ((), now + ttlMs)\<rparr>), True))"

definition es_hit :: "millis \<Rightarrow> hit_counter \<Rightarrow> millis \<Rightarrow> enf_store \<Rightarrow> enf_store \<times> nat" where
  "es_hit now k windowMs s =
     (case jget (es_hits s) k of
        Some (n, e) \<Rightarrow>
          if now < e then (s\<lparr>es_hits := jset (es_hits s) k (n + 1, e)\<rparr>, n + 1)
          else (wrote now (s\<lparr>es_hits := jset (es_hits s) k (1, now + windowMs)\<rparr>), 1)
      | None \<Rightarrow> (wrote now (s\<lparr>es_hits := jset (es_hits s) k (1, now + windowMs)\<rparr>), 1))"

definition set_network :: "millis \<Rightarrow> device_id \<Rightarrow> device_network \<Rightarrow> millis \<Rightarrow> enf_store \<Rightarrow> enf_store" where
  "set_network now d v ttlMs s = wrote now (s\<lparr>es_network := jset (es_network s) d (v, now + ttlMs)\<rparr>)"

definition set_lastRoom :: "millis \<Rightarrow> uuid \<Rightarrow> last_room \<Rightarrow> millis \<Rightarrow> enf_store \<Rightarrow> enf_store" where
  "set_lastRoom now r v ttlMs s = wrote now (s\<lparr>es_lastRoom := jset (es_lastRoom s) r (v, now + ttlMs)\<rparr>)"

definition set_fingerprint :: "millis \<Rightarrow> device_id \<Rightarrow> string \<Rightarrow> millis \<Rightarrow> enf_store \<Rightarrow> enf_store" where
  "set_fingerprint now d v ttlMs s = wrote now (s\<lparr>es_fingerprint := jset (es_fingerprint s) d (v, now + ttlMs)\<rparr>)"

definition set_lastAuto :: "millis \<Rightarrow> device_id \<Rightarrow> millis \<Rightarrow> millis \<Rightarrow> enf_store \<Rightarrow> enf_store" where
  "set_lastAuto now d v ttlMs s = wrote now (s\<lparr>es_lastAuto := jset (es_lastAuto s) d (v, now + ttlMs)\<rparr>)"

definition set_networkBan :: "millis \<Rightarrow> string \<Rightarrow> network_ban \<Rightarrow> millis \<Rightarrow> enf_store \<Rightarrow> enf_store" where
  "set_networkBan now n v ttlMs s = wrote now (s\<lparr>es_networkBan := jset (es_networkBan s) n (v, now + ttlMs)\<rparr>)"

definition getFields :: "millis \<Rightarrow> device_id \<Rightarrow> enf_store \<Rightarrow> (device_field, int) jmap" where
  "getFields now d s = (case live now (es_fields s) d of Some r \<Rightarrow> r | None \<Rightarrow> [])"

definition incrField :: "millis \<Rightarrow> device_id \<Rightarrow> device_field \<Rightarrow> int \<Rightarrow> millis \<Rightarrow> enf_store \<Rightarrow> enf_store" where
  "incrField now d f by ttlMs s =
     (let r = getFields now d s; v = (case jget r f of Some n \<Rightarrow> n | None \<Rightarrow> 0) + by in
      wrote now (s\<lparr>es_fields := jset (es_fields s) d (jset r f v, now + ttlMs)\<rparr>))"

definition setFieldIfAbsent :: "millis \<Rightarrow> device_id \<Rightarrow> device_field \<Rightarrow> int \<Rightarrow> millis \<Rightarrow> enf_store \<Rightarrow> enf_store" where
  "setFieldIfAbsent now d f v ttlMs s =
     (let r = getFields now d s; r' = (if jget r f = None then jset r f v else r) in
      wrote now (s\<lparr>es_fields := jset (es_fields s) d (r', now + ttlMs)\<rparr>))"

section \<open>Facts\<close>

definition es_ok :: "enf_store \<Rightarrow> bool" where
  "es_ok s \<longleftrightarrow> jwf (es_claims s) \<and> jwf (es_hits s) \<and> jwf (es_network s) \<and> jwf (es_lastRoom s) \<and> jwf (es_fingerprint s) \<and>
     jwf (es_lastAuto s) \<and> jwf (es_networkBan s) \<and> jwf (es_fields s)"

lemma wrote_docs [frame_simps, simp]:
  "es_report (wrote now s) = es_report s" "es_restriction (wrote now s) = es_restriction s"
  "es_appeal (wrote now s) = es_appeal s" "es_takedown (wrote now s) = es_takedown s"
  "es_audit (wrote now s) = es_audit s" "es_indexes (wrote now s) = es_indexes s"
  by (simp_all add: wrote_def Let_def)

lemma wrote_ok [inv_intros]: "es_ok s \<Longrightarrow> es_ok (wrote now s)"
  by (simp add: es_ok_def wrote_def Let_def)

lemma wrote_live:
  assumes "es_ok s" "now \<le> t"
  shows "live t (es_claims (wrote now s)) k1 = live t (es_claims s) k1"
    and "live t (es_hits (wrote now s)) k2 = live t (es_hits s) k2"
    and "live t (es_network (wrote now s)) d = live t (es_network s) d"
    and "live t (es_lastRoom (wrote now s)) r = live t (es_lastRoom s) r"
    and "live t (es_fingerprint (wrote now s)) d = live t (es_fingerprint s) d"
    and "live t (es_lastAuto (wrote now s)) d = live t (es_lastAuto s) d"
    and "live t (es_networkBan (wrote now s)) n = live t (es_networkBan s) n"
    and "live t (es_fields (wrote now s)) d = live t (es_fields s) d"
  using assms by (simp_all add: wrote_def Let_def es_ok_def live_keep_live)

lemma set_rangeOf_all: "set (rangeOf m all_range) = set (jkeys m)"
  by (force simp: set_rangeOf all_range_def inRange_def jkeys_def)

definition indexed :: "index_key \<Rightarrow> enf_store \<Rightarrow> uuid set" where
  "indexed k s = set (indexRange k all_range s)"

lemma indexed_add [simp]: "indexed j (addToIndex k i sc s) = (if j = k then insert i (indexed j s) else indexed j s)"
  by (auto simp: indexed_def indexRange_def addToIndex_def set_rangeOf_all jkeys_jset split: option.splits)
     (auto simp: jkeys_def)

lemma indexed_remove [simp]: "indexed j (removeFromIndex k i s) = (if j = k then indexed j s - {i} else indexed j s)"
proof -
  have *: "set (jkeys (jdel m i)) = set (jkeys m) - {i}" for m :: "(uuid, int) jmap"
    by (auto simp: jkeys_def jdel_def)
  have "set (jkeys m) - {i} = {}" if "jdel m i = []" for m :: "(uuid, int) jmap"
    using * [of m] that by (simp add: jkeys_def)
  then show ?thesis
    using * by (auto simp: indexed_def indexRange_def removeFromIndex_def set_rangeOf_all Let_def split: option.splits)
qed

text \<open>A counter within its window: each hit is one more, and the window runs from the first.\<close>

lemma es_hit_count:
  "es_ok s \<Longrightarrow> snd (es_hit now k w s) = (case live now (es_hits s) k of Some n \<Rightarrow> n | None \<Rightarrow> 0) + 1"
  by (auto simp: es_hit_def live_def split: option.splits)

lemma es_claim_once:
  assumes "es_ok s" "now \<le> t" "t < now + ttl"
  shows "snd (es_claim t k ttl' (fst (es_claim now k ttl s))) = False \<or> live now (es_claims s) k \<noteq> None"
proof (cases "live now (es_claims s) k")
  case None
  have "es_ok (s\<lparr>es_claims := jset (es_claims s) k ((), now + ttl)\<rparr>)" using assms(1) by (simp add: es_ok_def)
  from wrote_live(1) [OF this assms(2), of k]
  show ?thesis using None assms(3) by (simp add: es_claim_def)
qed simp

end
