(* ===== verification/Enforcement.thy ===== *)
theory Enforcement
  imports EnfStore
begin

text \<open>
  Reports, restrictions, appeals, takedowns, escalation and retention
  (\<open>backend/src/enforcement/EnforcementService.ts\<close>) over the in-memory store and the evidence
  directory. Each operation runs as one state change; the calls to matchmaking
  (\<open>RestrictionSink\<close>) are appended to \<open>en_calls\<close> in order, and the match service carries them
  out. Parameters (record \<open>enf_env\<close>) are the keyed hash behind the pseudonyms, the frame
  classifier, Turnstile and the network functions of Node.
\<close>

section \<open>State\<close>

datatype sink_call = Applied device_id restriction | Lifted device_id "restriction option"

record enf =
  en_store :: enf_store
  en_disk :: evidence_disk
  en_ids :: uuid
  en_calls :: "sink_call list"

record enf_env =
  ee_hmac :: "string \<Rightarrow> string \<Rightarrow> string"
  ee_salt :: string
  ee_net :: net_lib
  ee_classifier :: "(string \<Rightarrow> frame_scores option) option"
  ee_turnstile :: "string \<Rightarrow> string option \<Rightarrow> bool"
  ee_reportAfterEndMs :: millis

definition new_enf :: enf where
  "new_enf = \<lparr>en_store = new_enf_store, en_disk = [], en_ids = 0, en_calls = []\<rparr>"

definition DEVICE_TTL_MS :: millis where "DEVICE_TTL_MS = E_YEAR"
definition FINGERPRINT_TTL_MS :: millis where "FINGERPRINT_TTL_MS = 180 * E_DAY"
definition NETWORK_TTL_MS :: millis where "NETWORK_TTL_MS = E_DAY"
definition NETWORK_BAN_TTL_MS :: millis where "NETWORK_BAN_TTL_MS = 6 * E_HOUR"
definition LAST_ROOM_GRACE_MS :: millis where "LAST_ROOM_GRACE_MS = 5000"
definition PERMANENT_SCORE :: int where "PERMANENT_SCORE = 9007199254740991"
definition APPEALS_PER_IP_PER_HOUR :: nat where "APPEALS_PER_IP_PER_HOUR = 10"
definition APPEALS_PER_DEVICE_PER_DAY :: nat where "APPEALS_PER_DEVICE_PER_DAY = 5"
definition APPEAL_CLAIM_TTL_MS :: millis where "APPEAL_CLAIM_TTL_MS = 2 * E_YEAR"
definition TAKEDOWNS_PER_IP_PER_HOUR :: nat where "TAKEDOWNS_PER_IP_PER_HOUR = 5"
definition ADMIN_LIST_LIMIT :: nat where "ADMIN_LIST_LIMIT = 500"
definition ADMIN_IDEMPOTENCY_TTL_MS :: millis where "ADMIN_IDEMPOTENCY_TTL_MS = E_DAY"
definition RETENTION_MS :: millis where "RETENTION_MS = E_YEAR"
definition CSAM_PRESERVE_MS :: millis where "CSAM_PRESERVE_MS = E_YEAR"
definition PSEUDONYM_HEX_CHARS :: nat where "PSEUDONYM_HEX_CHARS = 16"

definition from_min :: "int \<Rightarrow> range_options" where "from_min m = all_range\<lparr>ro_min := Some m\<rparr>"
definition up_to :: "int \<Rightarrow> range_options" where "up_to m = all_range\<lparr>ro_max := Some m\<rparr>"

section \<open>Pure helpers\<close>

definition toPublic :: "stored_restriction \<Rightarrow> restriction" where
  "toPublic r = restriction.truncate r"

definition isActive :: "stored_restriction \<Rightarrow> millis \<Rightarrow> bool" where
  "isActive r now \<longleftrightarrow> re_kind r \<noteq> Warning \<and> sr_liftedAt r = None \<and> (case re_until r of None \<Rightarrow> True | Some u \<Rightarrow> now < u)"

definition beats :: "stored_restriction \<Rightarrow> stored_restriction option \<Rightarrow> bool" where
  "beats r best =
     (case best of None \<Rightarrow> True
      | Some b \<Rightarrow> (case re_until r of None \<Rightarrow> True
          | Some u \<Rightarrow> (case re_until b of None \<Rightarrow> False | Some v \<Rightarrow> v < u)))"

fun strongest_from :: "stored_restriction option \<Rightarrow> stored_restriction list \<Rightarrow> stored_restriction option" where
  "strongest_from best [] = best"
| "strongest_from best (r # rs) =
     (let best' = (if beats r best then Some r else best) in
      if (case best' of Some b \<Rightarrow> re_until b = None | None \<Rightarrow> False) then best' else strongest_from best' rs)"

definition strongest :: "stored_restriction list \<Rightarrow> stored_restriction option" where
  "strongest rs = strongest_from None rs"

definition restrictionEnd :: "stored_restriction \<Rightarrow> int" where
  "restrictionEnd r = (case sr_liftedAt r of Some t \<Rightarrow> t | None \<Rightarrow> (case re_until r of Some u \<Rightarrow> u | None \<Rightarrow> PERMANENT_SCORE))"

definition reporterKey :: "stored_report \<Rightarrow> string" where
  "reporterKey r = (case sp_reporterNetwork r of Some n \<Rightarrow> n | None \<Rightarrow> sp_reporterDevice r)"

definition pseudonym :: "enf_env \<Rightarrow> device_id \<Rightarrow> string" where
  "pseudonym e d = take PSEUDONYM_HEX_CHARS (ee_hmac e (ee_salt e) d)"

definition network_of :: "enf_env \<Rightarrow> string \<Rightarrow> string" where
  "network_of e ip = pseudonym e (b_ip (ipBuckets (ee_net e) ip))"

section \<open>Matchmaking hooks\<close>

definition on_store :: "(enf_store \<Rightarrow> enf_store) \<Rightarrow> enf \<Rightarrow> enf" where
  "on_store f s = s\<lparr>en_store := f (en_store s)\<rparr>"

definition noteDeviceSeen :: "millis \<Rightarrow> device_id \<Rightarrow> enf \<Rightarrow> enf" where
  "noteDeviceSeen now d = on_store (setFieldIfAbsent now d FirstSeen now DEVICE_TTL_MS)"

definition noteDeviceNetwork :: "millis \<Rightarrow> device_id \<Rightarrow> string option \<Rightarrow> string option \<Rightarrow> enf \<Rightarrow> enf" where
  "noteDeviceNetwork now d ip ctry = on_store (set_network now d \<lparr>dn_ip = ip, dn_country = ctry\<rparr> NETWORK_TTL_MS)"

definition flagMinorRisk :: "millis \<Rightarrow> device_id \<Rightarrow> enf \<Rightarrow> enf" where
  "flagMinorRisk now d = on_store (incrField now d MinorFlag 1 DEVICE_TTL_MS)"

definition roomEnded :: "enf_env \<Rightarrow> millis \<Rightarrow> last_room \<Rightarrow> enf \<Rightarrow> enf" where
  "roomEnded e now r =
     on_store (\<lambda>s.
       let s1 = set_lastRoom now (lr_roomId r) r (ee_reportAfterEndMs e + LAST_ROOM_GRACE_MS) s;
           completed = (case lr_activeSince r of None \<Rightarrow> False | Some a \<Rightarrow> COMPLETED_CALL_MS \<le> lr_endedAt r - a) in
       if completed
       then incrField now (snd (lr_devices r)) CompletedCalls 1 DEVICE_TTL_MS
              (incrField now (fst (lr_devices r)) CompletedCalls 1 DEVICE_TTL_MS s1)
       else s1)"

definition lastRoom :: "millis \<Rightarrow> uuid \<Rightarrow> enf \<Rightarrow> last_room option" where
  "lastRoom now rm s = live now (es_lastRoom (en_store s)) rm"

datatype admit_result = AdmitOk | AdmitRateLimited | AdmitDuplicate

definition admitReport :: "enf_env \<Rightarrow> millis \<Rightarrow> device_id \<Rightarrow> uuid \<Rightarrow> string option \<Rightarrow> enf \<Rightarrow> enf \<times> admit_result" where
  "admitReport e now reporter rm ip s =
     (let (s1, n) = es_hit now (ReportRate reporter) E_HOUR (en_store s) in
      if REPORTS_PER_HOUR < n then (s\<lparr>en_store := s1\<rparr>, AdmitRateLimited)
      else
        let (s2, m) = (case nonempty ip of
              None \<Rightarrow> (s1, 0)
            | Some a \<Rightarrow> es_hit now (ReportIpRate (network_of e a)) E_HOUR s1) in
        if REPORTS_PER_IP_PER_HOUR < m then (s\<lparr>en_store := s2\<rparr>, AdmitRateLimited)
        else
          let (s3, fresh) = es_claim now (RoomReport rm reporter) E_DAY s2 in
          (s\<lparr>en_store := s3\<rparr>, if fresh then AdmitOk else AdmitDuplicate))"

definition some_of :: "'a option list \<Rightarrow> 'a list" where
  "some_of xs = map the (filter (\<lambda>x. x \<noteq> None) xs)"

definition activeOf :: "millis \<Rightarrow> uuid list \<Rightarrow> enf_store \<Rightarrow> stored_restriction option" where
  "activeOf now ids s = strongest (filter (\<lambda>r. isActive r now) (some_of (c_getMany (es_restriction s) ids)))"

definition activeForDevice :: "millis \<Rightarrow> device_id \<Rightarrow> string option \<Rightarrow> enf \<Rightarrow> enf \<times> restriction option" where
  "activeForDevice now d fingerprintHash s =
     (let st = (case nonempty fingerprintHash of Some h \<Rightarrow> set_fingerprint now d h FINGERPRINT_TTL_MS (en_store s) | None \<Rightarrow> en_store s);
          fingerprint = (case fingerprintHash of Some h \<Rightarrow> Some h | None \<Rightarrow> live now (es_fingerprint st) d);
          own = indexRange (Restrictions d) all_range st;
          ids = (case nonempty fingerprint of
                   Some h \<Rightarrow> fold sadd (indexRange (RestrictionsByFingerprint h) all_range st) own
                 | None \<Rightarrow> own) in
      (s\<lparr>en_store := st\<rparr>, map_option toPublic (activeOf now ids st)))"

definition activeForNetwork :: "enf_env \<Rightarrow> millis \<Rightarrow> string \<Rightarrow> enf \<Rightarrow> restriction option" where
  "activeForNetwork e now ip s =
     (case live now (es_networkBan (en_store s)) (network_of e ip) of
        None \<Rightarrow> None
      | Some mark \<Rightarrow>
          if nb_until mark \<le> now then None
          else case c_get (es_restriction (en_store s)) (nb_restrictionId mark) of
            None \<Rightarrow> None
          | Some r \<Rightarrow>
              if re_kind r \<noteq> Ban \<or> \<not> isActive r now then None
              else Some ((toPublic r)\<lparr>re_until := Some (nb_until mark), re_evidenceAvailable := False, re_appealable := False\<rparr>))"

definition deviceStats :: "millis \<Rightarrow> device_id \<Rightarrow> enf_store \<Rightarrow> device_stats" where
  "deviceStats now d s =
     (let f = getFields now d s; num = (\<lambda>k. case jget f k of Some n \<Rightarrow> n | None \<Rightarrow> 0) in
      \<lparr>ds_firstSeen = jget f FirstSeen, ds_completedCalls = num CompletedCalls, ds_upheld = num UpheldCount,
       ds_dismissed = num DismissedCount, ds_minorFlag = (0 < num MinorFlag)\<rparr>)"

section \<open>Restrictions\<close>

definition draw :: "enf \<Rightarrow> enf \<times> uuid" where
  "draw s = (s\<lparr>en_ids := en_ids s + 1\<rparr>, en_ids s)"

definition audit :: "millis \<Rightarrow> string \<Rightarrow> uuid \<Rightarrow> audit_note option \<Rightarrow> string option \<Rightarrow> enf \<Rightarrow> enf" where
  "audit now action target note ip s =
     (let (s1, i) = draw s;
          entry = \<lparr>au_id = i, au_ts = now, au_action = action, au_target = target, au_note = note, au_ip = ip\<rparr> in
      on_store (\<lambda>st. st\<lparr>es_audit := c_put i entry now (es_audit st)\<rparr>) s1)"

definition put_report :: "stored_report \<Rightarrow> enf_store \<Rightarrow> enf_store" where
  "put_report r st = st\<lparr>es_report := c_put (sp_id r) r (sp_createdAt r) (es_report st)\<rparr>"

definition put_restriction :: "stored_restriction \<Rightarrow> enf_store \<Rightarrow> enf_store" where
  "put_restriction r st = st\<lparr>es_restriction := c_put (re_id r) r (restrictionEnd r) (es_restriction st)\<rparr>"

definition banNetwork :: "enf_env \<Rightarrow> millis \<Rightarrow> device_id \<Rightarrow> stored_restriction \<Rightarrow> enf \<Rightarrow> enf" where
  "banNetwork e now d r s =
     (case live now (es_network (en_store s)) d of
        None \<Rightarrow> s
      | Some dn \<Rightarrow>
          (case nonempty (dn_ip dn) of
             None \<Rightarrow> s
           | Some ip \<Rightarrow>
               let ends = min (case re_until r of Some u \<Rightarrow> u | None \<Rightarrow> PERMANENT_SCORE) (now + NETWORK_BAN_TTL_MS) in
               on_store (set_networkBan now (network_of e ip) \<lparr>nb_restrictionId = re_id r, nb_until = ends\<rparr> (ends - now)) s))"

definition made_restriction ::
  "millis \<Rightarrow> uuid \<Rightarrow> device_id \<Rightarrow> restriction_reason \<Rightarrow> ladder_step \<Rightarrow> bool \<Rightarrow> string option \<Rightarrow> stored_report \<Rightarrow> stored_restriction" where
  "made_restriction now i d reason step auto fp rep =
     \<lparr>re_id = i, re_reason = reason,
      re_kind = (case step of WarningStep \<Rightarrow> Warning | Duration ms \<Rightarrow> kindFor ms),
      re_until = (case step of WarningStep \<Rightarrow> Some now | Duration ms \<Rightarrow> map_option (\<lambda>x. now + x) ms),
      re_createdAt = now,
      re_evidenceAvailable = evidenceShowable reason (sp_evidenceId rep \<noteq> None) (sp_restricted rep),
      re_appeal = \<lparr>ap_status = AppealNone, ap_submittedAt = None, ap_decidedAt = None\<rparr>, re_appealable = True,
      sr_deviceId = d, sr_fingerprintHash = fp, sr_reportId = Some (sp_id rep), sr_auto = auto, sr_liftedAt = None\<rparr>"

text \<open>
  Every caller passes the report the restriction comes from, and reads its \<open>restrictionId\<close> from
  the store afterwards.
\<close>

definition restrict ::
  "enf_env \<Rightarrow> millis \<Rightarrow> device_id \<Rightarrow> restriction_reason \<Rightarrow> ladder_step \<Rightarrow> bool \<Rightarrow> stored_report \<Rightarrow> enf \<Rightarrow> enf \<times> restriction" where
  "restrict e now d reason step auto rep s =
     (let (s1, i) = draw s;
          r = made_restriction now i d reason step auto (live now (es_fingerprint (en_store s1)) d) rep;
          s2 = on_store (addToIndex (Restrictions d) i now) (on_store (put_restriction r) s1);
          s3 = (case nonempty (sr_fingerprintHash r) of
                  Some h \<Rightarrow> if step \<noteq> WarningStep then on_store (addToIndex (RestrictionsByFingerprint h) i now) s2 else s2
                | None \<Rightarrow> s2);
          s4 = (if re_kind r = Ban then banNetwork e now d r s3 else s3);
          s5 = on_store (put_report (rep\<lparr>sp_restrictionId := Some i\<rparr>)) s4;
          s6 = (if (reason = RUnderage \<or> reason = RMinorSafety) \<and> \<not> auto then flagMinorRisk now d s5 else s5);
          s7 = (if auto then audit now ''auto.pause'' i (Some (AutoNote (Some (sp_id rep)) reason)) None s6 else s6);
          view = toPublic r in
      (s7\<lparr>en_calls := en_calls s7 @ [Applied d view]\<rparr>, view))"

definition lift_restriction :: "millis \<Rightarrow> stored_restriction \<Rightarrow> enf \<Rightarrow> enf" where
  "lift_restriction now r s =
     (if sr_liftedAt r \<noteq> None then s
      else
        let s1 = on_store (put_restriction (r\<lparr>sr_liftedAt := Some now\<rparr>)) s;
            (s2, remaining) = activeForDevice now (sr_deviceId r) None s1 in
        s2\<lparr>en_calls := en_calls s2 @ [Lifted (sr_deviceId r) remaining]\<rparr>)"

section \<open>Reports\<close>

record report_input =
  ri_roomId :: uuid
  ri_reporterDevice :: device_id
  ri_reporterIp :: "string option"
  ri_reportedDevice :: device_id
  ri_reason :: report_reason
  ri_details :: "string option"
  ri_frame :: "evidence_frame option"
  ri_chat :: "(bool \<times> string \<times> millis) list"
  ri_activeSince :: "millis option"
  ri_endedAt :: "millis option"

definition underageReporters :: "device_id \<Rightarrow> string \<Rightarrow> millis \<Rightarrow> enf_store \<Rightarrow> nat" where
  "underageReporters d exclude now s =
     (let ids = indexRange (ReportsAgainst d) (from_min (now - UNDERAGE_CORROBORATION_WINDOW_MS)) s;
          rs = some_of (c_getMany (es_report s) ids);
          keys = map reporterKey (filter (\<lambda>r. sp_reason r = underage \<and> sp_status r \<noteq> Dismissed \<and> reporterKey r \<noteq> exclude) rs) in
      length (remdups keys))"

text \<open>Each reporter's heaviest report counts, in the order the reporters come up.\<close>

definition weigh :: "stored_report \<Rightarrow> (string, rat) jmap \<Rightarrow> (string, rat) jmap" where
  "weigh r m =
     (if sp_status r = Dismissed then m
      else jset m (reporterKey r)
             (max (case jget m (reporterKey r) of Some w \<Rightarrow> w | None \<Rightarrow> 0) (reportWeight (sp_reporterWeight r) (sp_shortCall r))))"

definition report_total :: "device_id \<Rightarrow> int \<Rightarrow> enf_store \<Rightarrow> rat" where
  "report_total d since s =
     sum_list (jvals (fold weigh (some_of (c_getMany (es_report s) (indexRange (ReportsAgainst d) (from_min since) s))) []))"

definition autoAction :: "enf_env \<Rightarrow> millis \<Rightarrow> stored_report \<Rightarrow> device_stats \<Rightarrow> nat \<Rightarrow> enf \<Rightarrow> enf \<times> restriction option" where
  "autoAction e clk rep reportedStats otherUnderage s =
     (let d = sp_reportedDevice rep; (s0, active) = activeForDevice clk d None s; now = sp_createdAt rep in
      if active \<noteq> None then (s0, None)
      else if sp_reason rep = underage then
        (if HIGH_WEIGHT \<le> sp_reporterWeight rep \<or> 0 < otherUnderage \<or> ds_minorFlag reportedStats
         then (let (s1, v) = restrict e clk d RUnderage (Duration (Some AUTO_PAUSE_MS)) True rep s0 in (s1, Some v))
         else (s0, None))
      else
        let lastAuto = (case live clk (es_lastAuto (en_store s0)) d of Some t \<Rightarrow> t | None \<Rightarrow> 0);
            since = max (now - AUTO_PAUSE_WINDOW_MS) (lastAuto + 1) in
        if report_total d since (en_store s0) < AUTO_PAUSE_THRESHOLD then (s0, None)
        else
          let s1 = on_store (set_lastAuto clk d now AUTO_PAUSE_WINDOW_MS) s0;
              (s2, v) = restrict e clk d (restrictionReasonFor (sp_reason rep) (sp_restricted rep)) (Duration (Some AUTO_PAUSE_MS)) True rep s1 in
          (s2, Some v))"

text \<open>
  \<open>evidence_fails\<close>: writing the frame threw; the report is kept without it. (A failure of the
  report's own write is the memory store's, which has none.)
\<close>

text \<open>Its frame, if any, goes to the evidence directory before the record is written.\<close>

definition store_frame :: "bool \<Rightarrow> bool \<Rightarrow> evidence_frame option \<Rightarrow> enf \<Rightarrow> enf \<times> uuid option" where
  "store_frame evidence_fails restricted frame s =
     (case frame of
        None \<Rightarrow> (s, None)
      | Some f \<Rightarrow>
          let (s1, j) = draw s in
          if evidence_fails then (s1, None)
          else let (disk, done) = ev_put j (ef_bytes f) restricted (en_disk s1) in
               (s1\<lparr>en_disk := disk\<rparr>, if done then Some j else None))"

definition frame_scores_of :: "enf_env \<Rightarrow> evidence_frame option \<Rightarrow> frame_scores option" where
  "frame_scores_of e frame =
     (case frame of None \<Rightarrow> None | Some f \<Rightarrow> (case ee_classifier e of None \<Rightarrow> None | Some c \<Rightarrow> c (ef_bytes f)))"

definition reporter_network :: "enf_env \<Rightarrow> report_input \<Rightarrow> string option" where
  "reporter_network e inp = map_option (network_of e) (nonempty (ri_reporterIp inp))"

definition other_underage :: "enf_env \<Rightarrow> millis \<Rightarrow> report_input \<Rightarrow> enf_store \<Rightarrow> nat" where
  "other_underage e now inp st =
     underageReporters (ri_reportedDevice inp)
       (case reporter_network e inp of Some n \<Rightarrow> n | None \<Rightarrow> ri_reporterDevice inp) now st"

definition made_report ::
  "enf_env \<Rightarrow> millis \<Rightarrow> report_input \<Rightarrow> enf_store \<Rightarrow> uuid \<Rightarrow> bool \<Rightarrow> uuid option \<Rightarrow> stored_report" where
  "made_report e now inp st i restricted evidence =
     (let scores = frame_scores_of e (ri_frame inp);
          ended = (case ri_endedAt inp of Some t \<Rightarrow> t | None \<Rightarrow> now) in
      \<lparr>sp_id = i, sp_createdAt = now, sp_roomId = ri_roomId inp, sp_reason = ri_reason inp,
       sp_reporterDevice = ri_reporterDevice inp, sp_reporterNetwork = reporter_network e inp,
       sp_reportedDevice = ri_reportedDevice inp,
       sp_reporterWeight = reporterWeight (deviceStats now (ri_reporterDevice inp) st) now,
       sp_details = nonempty (map_option trim (ri_details inp)),
       sp_chat = map (\<lambda>(me, t, ts). \<lparr>cl_from = (if me then ByReporter else ByReported), cl_text = t, cl_ts = ts\<rparr>) (ri_chat inp),
       sp_evidenceId = evidence,
       sp_evidenceSha256 = (case (evidence, ri_frame inp) of (Some _, Some f) \<Rightarrow> Some (ef_sha256 f) | _ \<Rightarrow> None),
       sp_restricted = restricted, sp_nsfwScore = map_option fs_nsfw scores, sp_minorScore = map_option fs_minor scores,
       sp_status = OpenReport,
       sp_shortCall = (case ri_activeSince inp of None \<Rightarrow> True | Some a \<Rightarrow> ended - a < SHORT_CALL_MS),
       sp_humanViewed = False, sp_legalHold = False, sp_preservedUntil = None, sp_acknowledgedAt = None,
       sp_decidedAt = None, sp_restrictionId = None,
       sp_reportedNetwork = (if restricted then live now (es_network st) (ri_reportedDevice inp) else None)\<rparr>)"

definition file_report :: "stored_report \<Rightarrow> enf \<Rightarrow> enf" where
  "file_report rep s =
     on_store (addToIndex OpenReports (sp_id rep) (sp_createdAt rep))
       (on_store (addToIndex (ReportsAgainst (sp_reportedDevice rep)) (sp_id rep) (sp_createdAt rep)) (on_store (put_report rep) s))"

definition submitReport :: "enf_env \<Rightarrow> millis \<Rightarrow> bool \<Rightarrow> report_input \<Rightarrow> enf \<Rightarrow> enf \<times> uuid \<times> restriction option" where
  "submitReport e now evidence_fails inp s =
     (let (s1, i) = draw s; st = en_store s1;
          reportedStats = deviceStats now (ri_reportedDevice inp) st;
          others = other_underage e now inp st;
          restricted = routeRestricted (ri_reason inp) (frame_scores_of e (ri_frame inp)) (ds_minorFlag reportedStats \<or> 0 < others);
          (s2, evidence) = store_frame evidence_fails restricted (ri_frame inp) s1;
          rep = made_report e now inp st i restricted evidence;
          (s3, v) = autoAction e now rep reportedStats others (file_report rep s2) in
      (s3, i, v))"

end
