(* ===== verification/EnforcementAdmin.thy ===== *)
theory EnforcementAdmin
  imports Enforcement
begin

text \<open>
  The public and administrative half of \<open>backend/src/enforcement/EnforcementService.ts\<close>:
  reading one's restriction, appeals, takedown tickets, the review queue and its decisions,
  escalation with its legal hold, the audit log and the retention sweep. A read of corrupt
  evidence throws in the code; the operations below return \<open>AdminThrew\<close> then.
\<close>

section \<open>Public API\<close>

definition owns :: "millis \<Rightarrow> stored_restriction \<Rightarrow> device_id \<Rightarrow> enf_store \<Rightarrow> bool" where
  "owns now r d s =
     (if sr_deviceId r = d then True
      else case nonempty (sr_fingerprintHash r) of
        None \<Rightarrow> False
      | Some h \<Rightarrow> live now (es_fingerprint s) d = Some h)"

datatype admin_error = NotFound | Conflict | RestrictedItem | AdminThrew

definition restrictionView :: "millis \<Rightarrow> uuid \<Rightarrow> device_id \<Rightarrow> enf \<Rightarrow> admin_error + (restriction \<times> string option) option" where
  "restrictionView now i d s =
     (case c_get (es_restriction (en_store s)) i of
        None \<Rightarrow> Inr None
      | Some r \<Rightarrow>
          if \<not> owns now r d (en_store s) then Inr None
          else
            let rep = (if re_evidenceAvailable r
                       then (case sr_reportId r of Some j \<Rightarrow> c_get (es_report (en_store s)) j | None \<Rightarrow> None) else None);
                frame = (case rep of
                   None \<Rightarrow> None
                 | Some rp \<Rightarrow> if \<not> sp_restricted rp \<and> evidenceShowable (re_reason r) True False then sp_evidenceId rp else None) in
            case frame of
              None \<Rightarrow> Inr (Some (toPublic r, None))
            | Some ev \<Rightarrow>
                (case ev_get ev False (en_disk s) of
                   Bytes b \<Rightarrow> Inr (Some (toPublic r, Some (toDataUrl b)))
                 | Missing \<Rightarrow> Inr (Some (toPublic r, None))
                 | Corrupt \<Rightarrow> Inl AdminThrew))"

datatype appeal_response = AppealOk uuid | AppealRateLimited | AppealNotFound | NotAppealable | AlreadyAppealed

definition submitAppeal :: "enf_env \<Rightarrow> millis \<Rightarrow> uuid \<Rightarrow> device_id \<Rightarrow> string \<Rightarrow> string option \<Rightarrow> enf \<Rightarrow> enf \<times> appeal_response" where
  "submitAppeal e now rid d txt ip s =
     (let (st, n) = (case nonempty ip of None \<Rightarrow> (en_store s, 0) | Some a \<Rightarrow> es_hit now (AppealIpRate (network_of e a)) E_HOUR (en_store s));
          s1 = s\<lparr>en_store := st\<rparr> in
      if APPEALS_PER_IP_PER_HOUR < n then (s1, AppealRateLimited)
      else case c_get (es_restriction st) rid of
        None \<Rightarrow> (s1, AppealNotFound)
      | Some r \<Rightarrow>
          if \<not> owns now r d st then (s1, AppealNotFound)
          else
            let (st2, m) = es_hit now (AppealDeviceRate d) E_DAY st; s2 = s1\<lparr>en_store := st2\<rparr> in
            if APPEALS_PER_DEVICE_PER_DAY < m then (s2, AppealRateLimited)
            else if \<not> re_appealable r then (s2, NotAppealable)
            else if ap_status (re_appeal r) \<noteq> AppealNone then (s2, AlreadyAppealed)
            else
              let (st3, fresh) = es_claim now (AppealClaim (re_id r)) APPEAL_CLAIM_TTL_MS st2; s3 = s2\<lparr>en_store := st3\<rparr> in
              if \<not> fresh then (s3, AlreadyAppealed)
              else
                let (s4, i) = draw s3;
                    a = \<lparr>sa_id = i, sa_restrictionId = rid, sa_deviceId = d, sa_text = txt, sa_createdAt = now,
                         sa_dueAt = now + APPEAL_DUE_MS, sa_status = AppealPending, sa_decidedAt = None, sa_note = None\<rparr>;
                    s5 = on_store (addToIndex PendingAppeals i (sa_dueAt a))
                           (on_store (\<lambda>st. st\<lparr>es_appeal := c_put i a now (es_appeal st)\<rparr>) s4);
                    r' = r\<lparr>re_appeal := \<lparr>ap_status = AppealPending, ap_submittedAt = Some now, ap_decidedAt = None\<rparr>\<rparr> in
                (on_store (put_restriction r') s5, AppealOk i))"

record takedown_request =
  tr_kind :: takedown_kind
  tr_contactEmail :: string
  tr_description :: string
  tr_location :: "string option"
  tr_isAffectedPerson :: bool
  tr_turnstileToken :: string

datatype takedown_response = TakedownOk uuid | TakedownRateLimited | TurnstileFailed

definition submitTakedown :: "enf_env \<Rightarrow> millis \<Rightarrow> takedown_request \<Rightarrow> string option \<Rightarrow> enf \<Rightarrow> enf \<times> takedown_response" where
  "submitTakedown e now req ip s =
     (let (st, n) = (case nonempty ip of None \<Rightarrow> (en_store s, 0) | Some a \<Rightarrow> es_hit now (TakedownIpRate (network_of e a)) E_HOUR (en_store s));
          s1 = s\<lparr>en_store := st\<rparr> in
      if TAKEDOWNS_PER_IP_PER_HOUR < n then (s1, TakedownRateLimited)
      else if \<not> ee_turnstile e (tr_turnstileToken req) ip then (s1, TurnstileFailed)
      else
        let (s2, i) = draw s1;
            t = \<lparr>st_id = i, st_kind = tr_kind req, st_contactEmail = tr_contactEmail req, st_description = tr_description req,
                 st_location = nonempty (map_option trim (tr_location req)), st_isAffectedPerson = tr_isAffectedPerson req,
                 st_createdAt = now, st_dueAt = takedownDueAt (tr_kind req) now, st_open = True, st_resolution = None,
                 st_restricted = (tr_kind req = Csam), st_resolvedAt = None\<rparr> in
        (on_store (\<lambda>st. st\<lparr>es_takedown := c_put i t now (es_takedown st)\<rparr>) s2, TakedownOk i))"

section \<open>Admin views\<close>

definition claimAdminRequest :: "millis \<Rightarrow> string \<Rightarrow> enf \<Rightarrow> enf \<times> bool" where
  "claimAdminRequest now k s = (let (st, b) = es_claim now (AdminRequest k) ADMIN_IDEMPOTENCY_TTL_MS (en_store s) in (s\<lparr>en_store := st\<rparr>, b))"

definition listAudit :: "nat \<Rightarrow> millis option \<Rightarrow> enf \<Rightarrow> audit_entry list" where
  "listAudit limit before s =
     (let opts = \<lparr>ro_min = None, ro_max = map_option (\<lambda>b. b - 1) before, ro_reverse = True, ro_limit = Some limit\<rparr> in
      some_of (c_getMany (es_audit (en_store s)) (c_range (es_audit (en_store s)) opts)))"

record admin_report =
  ar_id :: uuid
  ar_createdAt :: millis
  ar_reason :: report_reason
  ar_severity :: severity
  ar_status :: report_status
  ar_roomId :: uuid
  ar_reporter :: string
  ar_reported :: string
  ar_reporterWeight :: rat
  ar_details :: "string option"
  ar_hasFrame :: bool
  ar_chat :: "chat_line list"
  ar_restricted :: bool
  ar_nsfwScore :: "rat option"
  ar_ackDueAt :: millis
  ar_resolveDueAt :: millis
  ar_priorReportsAgainst :: nat

definition toAdmin :: "enf_env \<Rightarrow> enf_store \<Rightarrow> stored_report \<Rightarrow> admin_report" where
  "toAdmin e st r =
     (let (ack, resolve) = reportSla (sp_reason r) (sp_restricted r) (sp_createdAt r) in
      \<lparr>ar_id = sp_id r, ar_createdAt = sp_createdAt r, ar_reason = sp_reason r,
       ar_severity = severityOf (sp_reason r) (sp_restricted r), ar_status = sp_status r, ar_roomId = sp_roomId r,
       ar_reporter = pseudonym e (sp_reporterDevice r), ar_reported = pseudonym e (sp_reportedDevice r),
       ar_reporterWeight = sp_reporterWeight r, ar_details = sp_details r, ar_hasFrame = (sp_evidenceId r \<noteq> None),
       ar_chat = sp_chat r, ar_restricted = sp_restricted r, ar_nsfwScore = sp_nsfwScore r, ar_ackDueAt = ack,
       ar_resolveDueAt = resolve,
       ar_priorReportsAgainst = indexCount (ReportsAgainst (sp_reportedDevice r)) (up_to (sp_createdAt r - 1)) st\<rparr>)"

text \<open>The status filter of the queue: the open queue, all reports, or one status.\<close>

datatype queue_filter = OpenQueue | AllReports | OnlyStatus report_status

definition due_at :: "admin_report \<Rightarrow> millis" where
  "due_at a = (if ar_status a = OpenReport then ar_ackDueAt a else ar_resolveDueAt a)"

definition queue_key :: "admin_report \<Rightarrow> int \<times> int \<times> int" where
  "queue_key a = (let (sv, rk) = queueRank (ar_reason a) (ar_restricted a) in (sv, rk, due_at a))"

definition latest_first :: range_options where
  "latest_first = \<lparr>ro_min = None, ro_max = None, ro_reverse = True, ro_limit = Some ADMIN_LIST_LIMIT\<rparr>"

definition review_queue :: "enf_env \<Rightarrow> queue_filter \<Rightarrow> enf \<Rightarrow> admin_report list" where
  "review_queue e filt s =
     (let st = en_store s;
          recent = some_of (c_getMany (es_report st) (c_range (es_report st) latest_first));
          open_queue = sort_key queue_key
            (map (toAdmin e st) (some_of (c_getMany (es_report st) (indexRange OpenReports (all_range\<lparr>ro_limit := Some ADMIN_LIST_LIMIT\<rparr>) st)))) in
      case filt of
        OpenQueue \<Rightarrow> open_queue
      | AllReports \<Rightarrow> map (toAdmin e st) recent
      | OnlyStatus x \<Rightarrow> if x = OpenReport then open_queue else map (toAdmin e st) (filter (\<lambda>r. sp_status r = x) recent))"

definition evidenceImage :: "millis \<Rightarrow> uuid \<Rightarrow> string option \<Rightarrow> enf \<Rightarrow> enf \<times> (admin_error + string)" where
  "evidenceImage now i ip s =
     (case c_get (es_report (en_store s)) i of
        None \<Rightarrow> (s, Inl NotFound)
      | Some r \<Rightarrow>
          if sp_restricted r then (audit now ''report.evidence_denied'' i (Some (NoteText ''restricted item'')) ip s, Inl RestrictedItem)
          else case sp_evidenceId r of
            None \<Rightarrow> (s, Inl NotFound)
          | Some ev \<Rightarrow>
              (case ev_get ev False (en_disk s) of
                 Missing \<Rightarrow> (s, Inl NotFound)
               | Corrupt \<Rightarrow> (s, Inl AdminThrew)
               | Bytes b \<Rightarrow>
                   let s1 = audit now ''report.view_evidence'' i None ip s in
                   (if sp_humanViewed r then s1 else on_store (put_report (r\<lparr>sp_humanViewed := True\<rparr>)) s1, Inr b)))"

section \<open>Decisions\<close>

definition decide :: "millis \<Rightarrow> stored_report \<Rightarrow> report_status \<Rightarrow> bool \<Rightarrow> enf \<Rightarrow> enf \<times> stored_report" where
  "decide now r st upheld s =
     (let r' = r\<lparr>sp_status := st, sp_decidedAt := (case sp_decidedAt r of Some t \<Rightarrow> Some t | None \<Rightarrow> Some now)\<rparr>;
          s1 = on_store (removeFromIndex OpenReports (sp_id r)) (on_store (put_report r') s) in
      (if sp_decidedAt r = None
       then on_store (incrField now (sp_reporterDevice r) (if upheld then UpheldCount else DismissedCount) 1 DEVICE_TTL_MS) s1
       else s1, r'))"

definition confirmedCount :: "device_id \<Rightarrow> enf_store \<Rightarrow> nat" where
  "confirmedCount d st =
     length (filter (\<lambda>r. \<not> sr_auto r \<and> sr_liftedAt r = None)
       (some_of (c_getMany (es_restriction st) (indexRange (Restrictions d) all_range st))))"

record csam_packet =
  cp_reportId :: uuid
  cp_generatedAt :: millis
  cp_incidentAt :: millis
  cp_reason :: report_reason
  cp_classifierScore :: "rat option"
  cp_humanViewed :: bool
  cp_reportedDevice :: string
  cp_reportedIpAddress :: "string option"
  cp_reportedCountry :: "string option"
  cp_evidenceSha256 :: "string option"
  cp_evidencePreservedUntil :: "millis option"
  cp_chat :: "chat_line list"

text \<open>
  Moving the evidence to the restricted area first: a missing file is passed over, a corrupt
  one or a write that is refused throws before anything else happened.
\<close>

definition move_evidence :: "stored_report \<Rightarrow> enf \<Rightarrow> enf option" where
  "move_evidence r s =
     (case (sp_restricted r, sp_evidenceId r) of
        (False, Some ev) \<Rightarrow>
          (case ev_get ev False (en_disk s) of
             Corrupt \<Rightarrow> None
           | Missing \<Rightarrow> Some (s\<lparr>en_disk := ev_delete ev False (en_disk s)\<rparr>)
           | Bytes b \<Rightarrow>
               let (disk, done) = ev_put ev b True (en_disk s) in
               if done then Some (s\<lparr>en_disk := ev_delete ev False disk\<rparr>) else None)
      | _ \<Rightarrow> Some s)"

definition escalate :: "enf_env \<Rightarrow> millis \<Rightarrow> uuid \<Rightarrow> string option \<Rightarrow> string option \<Rightarrow> enf \<Rightarrow> enf \<times> (admin_error + csam_packet \<times> restriction option)" where
  "escalate e now i ip note s =
     (case c_get (es_report (en_store s)) i of
        None \<Rightarrow> (s, Inl NotFound)
      | Some r \<Rightarrow>
          (case move_evidence r s of
             None \<Rightarrow> (s, Inl AdminThrew)
           | Some s1 \<Rightarrow>
               let r1 = r\<lparr>sp_restricted := True, sp_legalHold := True,
                     sp_preservedUntil := Some (max (case sp_preservedUntil r of Some t \<Rightarrow> t | None \<Rightarrow> 0) (now + CSAM_PRESERVE_MS)),
                     sp_reportedNetwork := (case sp_reportedNetwork r of Some n \<Rightarrow> Some n
                       | None \<Rightarrow> live now (es_network (en_store s1)) (sp_reportedDevice r))\<rparr>;
                   already = (sp_status r = Escalated);
                   (s2, r2) = decide now r1 Escalated True s1;
                   (s3, v) = (if already then (s2, None)
                              else let (s', v) = restrict e now (sp_reportedDevice r2) RMinorSafety (Duration None) False r2 s2 in (s', Some v));
                   packet = \<lparr>cp_reportId = sp_id r2, cp_generatedAt = now, cp_incidentAt = sp_createdAt r2,
                     cp_reason = sp_reason r2, cp_classifierScore = sp_nsfwScore r2, cp_humanViewed = sp_humanViewed r2,
                     cp_reportedDevice = pseudonym e (sp_reportedDevice r2),
                     cp_reportedIpAddress = (case sp_reportedNetwork r2 of Some n \<Rightarrow> dn_ip n | None \<Rightarrow> None),
                     cp_reportedCountry = (case sp_reportedNetwork r2 of Some n \<Rightarrow> dn_country n | None \<Rightarrow> None),
                     cp_evidenceSha256 = sp_evidenceSha256 r2, cp_evidencePreservedUntil = sp_preservedUntil r2,
                     cp_chat = sp_chat r2\<rparr> in
               (audit now ''report.escalate_csam'' i (map_option NoteText note) ip s3, Inr (packet, v))))"

datatype report_action =
  Acknowledge | Dismiss
| WarnDevice "restriction_reason option"
| RestrictDevice "restriction_reason option" "millis option option"
| EscalateCsam

definition action_name :: "report_action \<Rightarrow> string" where
  "action_name a = (case a of Acknowledge \<Rightarrow> ''report.acknowledge'' | Dismiss \<Rightarrow> ''report.dismiss''
     | WarnDevice _ \<Rightarrow> ''report.warn'' | RestrictDevice _ _ \<Rightarrow> ''report.restrict'' | EscalateCsam \<Rightarrow> ''report.escalate_csam'')"

definition linked_pause :: "stored_report \<Rightarrow> enf \<Rightarrow> stored_restriction option" where
  "linked_pause r s = (case sp_restrictionId r of None \<Rightarrow> None | Some j \<Rightarrow> c_get (es_restriction (en_store s)) j)"

definition human_restrict ::
  "enf_env \<Rightarrow> millis \<Rightarrow> stored_report \<Rightarrow> restriction_reason option \<Rightarrow> ladder_step \<Rightarrow> enf \<Rightarrow> enf \<times> restriction" where
  "human_restrict e now r reason step s =
     (let (s1, r1) = decide now r Actioned True s in
      restrict e now (sp_reportedDevice r1) (case reason of Some x \<Rightarrow> x | None \<Rightarrow> restrictionReasonFor (sp_reason r) (sp_restricted r))
        step False r1 s1)"

definition actOnReport ::
  "enf_env \<Rightarrow> millis \<Rightarrow> uuid \<Rightarrow> report_action \<Rightarrow> string option \<Rightarrow> string option \<Rightarrow> enf \<Rightarrow>
   enf \<times> (admin_error + admin_report option \<times> restriction option \<times> csam_packet option)" where
  "actOnReport e now i act note ip s =
     (let view = (\<lambda>x. map_option (toAdmin e (en_store x)) (c_get (es_report (en_store x)) i));
          finish = (\<lambda>x v. let y = audit now (action_name act) i (map_option NoteText note) ip x in (y, Inr (view y, v, None))) in
      if act = EscalateCsam then
        (case escalate e now i ip note s of
           (s1, Inl err) \<Rightarrow> (s1, Inl err)
         | (s1, Inr (packet, v)) \<Rightarrow> (s1, Inr (view s1, v, Some packet)))
      else case c_get (es_report (en_store s)) i of
        None \<Rightarrow> (s, Inl NotFound)
      | Some r \<Rightarrow>
          (case act of
             Acknowledge \<Rightarrow>
               if sp_status r \<noteq> OpenReport then (s, Inl Conflict)
               else finish (on_store (put_report (r\<lparr>sp_status := Acknowledged, sp_acknowledgedAt := Some now\<rparr>)) s) None
           | Dismiss \<Rightarrow>
               let (s1, r1) = decide now r Dismissed False s in
               finish (case linked_pause r1 s1 of Some l \<Rightarrow> if sr_auto l then lift_restriction now l s1 else s1 | None \<Rightarrow> s1) None
           | WarnDevice reason \<Rightarrow>
               let (s1, v) = human_restrict e now r reason (ladderStep Warn (confirmedCount (sp_reportedDevice r) (en_store s))) s in
               finish s1 (Some v)
           | RestrictDevice reason dur \<Rightarrow>
               let step = (case dur of Some d \<Rightarrow> Duration d
                           | None \<Rightarrow> ladderStep Restrict (confirmedCount (sp_reportedDevice r) (en_store s)));
                   (s1, v) = human_restrict e now r reason step s in
               finish s1 (Some v)
           | EscalateCsam \<Rightarrow> (s, Inl NotFound)))"

definition releaseHold :: "enf_env \<Rightarrow> millis \<Rightarrow> uuid \<Rightarrow> string option \<Rightarrow> string option \<Rightarrow> enf \<Rightarrow> enf \<times> (admin_error + admin_report)" where
  "releaseHold e now i note ip s =
     (case c_get (es_report (en_store s)) i of
        None \<Rightarrow> (s, Inl NotFound)
      | Some r \<Rightarrow>
          if \<not> sp_legalHold r then (s, Inl Conflict)
          else
            let r' = r\<lparr>sp_legalHold := False, sp_preservedUntil := None\<rparr>;
                s1 = audit now ''report.release_hold'' i (map_option NoteText note) ip (on_store (put_report r') s) in
            (s1, Inr (toAdmin e (en_store s1) r')))"

section \<open>Appeals and takedowns\<close>

record admin_appeal =
  aa_id :: uuid
  aa_restrictionId :: uuid
  aa_restriction :: restriction
  aa_text :: string
  aa_createdAt :: millis
  aa_dueAt :: millis
  aa_status :: appeal_status

definition appeal_view :: "stored_appeal \<Rightarrow> stored_restriction \<Rightarrow> admin_appeal" where
  "appeal_view a r = \<lparr>aa_id = sa_id a, aa_restrictionId = sa_restrictionId a, aa_restriction = toPublic r,
     aa_text = sa_text a, aa_createdAt = sa_createdAt a, aa_dueAt = sa_dueAt a, aa_status = sa_status a\<rparr>"

text \<open>Open work first by due time, the rest by age.\<close>

definition work_key :: "bool \<Rightarrow> millis \<Rightarrow> millis \<Rightarrow> int \<times> int" where
  "work_key pending due created = (if pending then (0, due) else (1, - created))"

definition listAppeals :: "enf \<Rightarrow> admin_appeal list" where
  "listAppeals s =
     (let st = en_store s;
          appeals = some_of (c_getMany (es_appeal st) (c_range (es_appeal st) latest_first));
          views = some_of (map (\<lambda>a. map_option (appeal_view a) (c_get (es_restriction st) (sa_restrictionId a))) appeals) in
      sort_key (\<lambda>a. work_key (aa_status a = AppealPending) (aa_dueAt a) (aa_createdAt a)) views)"

definition decideAppeal :: "millis \<Rightarrow> uuid \<Rightarrow> bool \<Rightarrow> string option \<Rightarrow> string option \<Rightarrow> enf \<Rightarrow> enf \<times> (admin_error + admin_appeal)" where
  "decideAppeal now i overturn note ip s =
     (case c_get (es_appeal (en_store s)) i of
        None \<Rightarrow> (s, Inl NotFound)
      | Some a \<Rightarrow>
          if sa_status a \<noteq> AppealPending then (s, Inl Conflict)
          else case c_get (es_restriction (en_store s)) (sa_restrictionId a) of
            None \<Rightarrow> (s, Inl NotFound)
          | Some r \<Rightarrow>
              let result = (if overturn then AppealOverturned else AppealUpheld);
                  a' = a\<lparr>sa_status := result, sa_decidedAt := Some now, sa_note := note\<rparr>;
                  s1 = on_store (removeFromIndex PendingAppeals (sa_id a))
                         (on_store (\<lambda>st. st\<lparr>es_appeal := c_put (sa_id a) a' (sa_createdAt a) (es_appeal st)\<rparr>) s);
                  r' = r\<lparr>re_appeal := \<lparr>ap_status = result, ap_submittedAt = Some (sa_createdAt a), ap_decidedAt = Some now\<rparr>\<rparr>;
                  s2 = on_store (put_restriction r') s1;
                  s3 = (if overturn then lift_restriction now r' s2 else s2);
                  s4 = audit now (if overturn then ''appeal.overturn'' else ''appeal.uphold'') i (map_option NoteText note) ip s3 in
              (s4, (case c_get (es_restriction (en_store s4)) (re_id r) of
                      Some fresh \<Rightarrow> Inr (appeal_view a' fresh) | None \<Rightarrow> Inl AdminThrew)))"

definition listTakedowns :: "enf \<Rightarrow> stored_takedown list" where
  "listTakedowns s =
     (let st = en_store s in
      sort_key (\<lambda>t. work_key (st_open t) (st_dueAt t) (st_createdAt t))
        (some_of (c_getMany (es_takedown st) (c_range (es_takedown st) latest_first))))"

definition resolveTakedown :: "millis \<Rightarrow> uuid \<Rightarrow> string \<Rightarrow> string option \<Rightarrow> enf \<Rightarrow> enf \<times> (admin_error + stored_takedown)" where
  "resolveTakedown now i resolution ip s =
     (case c_get (es_takedown (en_store s)) i of
        None \<Rightarrow> (s, Inl NotFound)
      | Some t \<Rightarrow>
          if \<not> st_open t then (s, Inl Conflict)
          else
            let t' = t\<lparr>st_open := False, st_resolution := Some resolution, st_resolvedAt := Some now\<rparr>;
                s1 = on_store (\<lambda>st. st\<lparr>es_takedown := c_put (st_id t) t' (st_createdAt t) (es_takedown st)\<rparr>) s in
            (audit now ''takedown.resolve'' i None ip s1, Inr t'))"

section \<open>Retention\<close>

definition held :: "millis \<Rightarrow> stored_report option \<Rightarrow> bool" where
  "held now r = (case r of None \<Rightarrow> False
     | Some x \<Rightarrow> sp_legalHold x \<and> (case sp_preservedUntil x of None \<Rightarrow> True | Some t \<Rightarrow> now < t))"

text \<open>\<open>stuck\<close>: evidence ids whose deletion throws.\<close>

definition sweep_report :: "(uuid \<Rightarrow> bool) \<Rightarrow> millis \<Rightarrow> uuid \<Rightarrow> enf \<Rightarrow> enf" where
  "sweep_report stuck now i s =
     (let r = c_get (es_report (en_store s)) i in
      if held now r then s
      else
        let ev = (case r of Some x \<Rightarrow> sp_evidenceId x | None \<Rightarrow> None);
            gone = (case (r, ev) of (Some x, Some v) \<Rightarrow> s\<lparr>en_disk := ev_delete v (sp_restricted x) (en_disk s)\<rparr> | _ \<Rightarrow> s) in
        if (case ev of Some v \<Rightarrow> stuck v | None \<Rightarrow> False) then s
        else
          let s1 = (case r of Some x \<Rightarrow> on_store (removeFromIndex (ReportsAgainst (sp_reportedDevice x)) i) gone | None \<Rightarrow> gone) in
          on_store (\<lambda>st. st\<lparr>es_report := c_delete i (es_report st)\<rparr>) (on_store (removeFromIndex OpenReports i) s1))"

definition sweep_restriction :: "uuid \<Rightarrow> enf \<Rightarrow> enf" where
  "sweep_restriction i s =
     (let s1 = (case c_get (es_restriction (en_store s)) i of
            None \<Rightarrow> s
          | Some r \<Rightarrow>
              let s' = on_store (removeFromIndex (Restrictions (sr_deviceId r)) i) s in
              (case nonempty (sr_fingerprintHash r) of
                 Some h \<Rightarrow> on_store (removeFromIndex (RestrictionsByFingerprint h) i) s' | None \<Rightarrow> s')) in
      on_store (\<lambda>st. st\<lparr>es_restriction := c_delete i (es_restriction st)\<rparr>) s1)"

definition sweep_appeal :: "uuid \<Rightarrow> enf \<Rightarrow> enf" where
  "sweep_appeal i s =
     (let st = en_store s in
      if (case c_get (es_appeal st) i of Some a \<Rightarrow> c_get (es_restriction st) (sa_restrictionId a) \<noteq> None | None \<Rightarrow> False) then s
      else on_store (\<lambda>st. st\<lparr>es_appeal := c_delete i (es_appeal st)\<rparr>) (on_store (removeFromIndex PendingAppeals i) s))"

definition sweep_takedown :: "millis \<Rightarrow> uuid \<Rightarrow> enf \<Rightarrow> enf" where
  "sweep_takedown cutoff i s =
     (if (case c_get (es_takedown (en_store s)) i of
            Some t \<Rightarrow> (case st_resolvedAt t of None \<Rightarrow> True | Some x \<Rightarrow> cutoff < x) | None \<Rightarrow> False) then s
      else on_store (\<lambda>st. st\<lparr>es_takedown := c_delete i (es_takedown st)\<rparr>) s)"

definition sweep_audit :: "millis \<Rightarrow> uuid \<Rightarrow> enf \<Rightarrow> enf" where
  "sweep_audit now i s =
     (if (case c_get (es_audit (en_store s)) i of
            Some a \<Rightarrow> held now (c_get (es_report (en_store s)) (au_target a)) | None \<Rightarrow> False) then s
      else on_store (\<lambda>st. st\<lparr>es_audit := c_delete i (es_audit st)\<rparr>) s)"

definition sweepRetention :: "(uuid \<Rightarrow> bool) \<Rightarrow> millis \<Rightarrow> enf \<Rightarrow> enf" where
  "sweepRetention stuck now s =
     (let cutoff = now - RETENTION_MS;
          s1 = fold (sweep_report stuck now) (c_range (es_report (en_store s)) (up_to cutoff)) s;
          s2 = fold sweep_restriction (c_range (es_restriction (en_store s1)) (up_to cutoff)) s1;
          s3 = fold sweep_appeal (c_range (es_appeal (en_store s2)) (up_to cutoff)) s2;
          s4 = fold (sweep_takedown cutoff) (c_range (es_takedown (en_store s3)) (up_to cutoff)) s3 in
      fold (sweep_audit now) (c_range (es_audit (en_store s4)) (up_to cutoff)) s4)"

text \<open>The hourly check: one instance a day takes the claim and sweeps.\<close>

definition retention_tick :: "(uuid \<Rightarrow> bool) \<Rightarrow> millis \<Rightarrow> enf \<Rightarrow> enf \<times> bool" where
  "retention_tick stuck now s =
     (let (st, mine) = es_claim now (RetentionClaim (now div E_DAY)) E_DAY (en_store s); s1 = s\<lparr>en_store := st\<rparr> in
      if mine then (sweepRetention stuck now s1, True) else (s1, False))"

end
