(* ===== verification/MatchState.thy ===== *)
theory MatchState
  imports Relax Signals BillingLemmas Enforcement
begin

text \<open>
  The state of the match service (\<open>backend/src/match/MatchService.ts\<close>) with everything it calls:
  the match store, the wallet, the flags, the key-value store behind the queue gate, the abuse
  signals, the TURN store and the enforcement service, and the service's own bookkeeping. What
  goes out to sockets is a log of events, newest last. A locked section of the code runs without
  another one in between, so each is one function on this state; it reads the clock once here.
  The gate and the enforcement service, optional for tests, are present as \<open>server.ts\<close> wires them.
\<close>

section \<open>Configuration and parameters\<close>

record match_config =
  mc_instanceId :: string
  mc_matchAcceptTimeoutMs :: millis
  mc_matchAcceptGraceMs :: millis
  mc_recheckIntervalMs :: millis
  mc_recheckPairBudget :: nat
  mc_heartbeatIntervalMs :: millis
  mc_instanceTtlMs :: millis
  mc_coinIntervalMs :: millis
  mc_coinsPerInterval :: int
  mc_initialCoins :: int
  mc_friendAfterMs :: millis
  mc_declineBlockMs :: millis
  mc_skipBlockMs :: millis
  mc_reportBlockMs :: millis
  mc_reportAfterEndMs :: millis
  mc_chatGuardMs :: millis
  mc_photoBudget :: int
  mc_ladder :: ladder
  mc_signals :: signal_config
  mc_turn :: turn_config
  mc_caps :: match_cap_limits

record guarded_text =
  g_text :: string
  g_redacted :: bool
  g_contactSharing :: bool
  g_solicitation :: bool

text \<open>
  The chat and name guard is a parameter: every statement holds for any guard. \<open>env_tz\<close> and
  \<open>env_net\<close> are the time zones and address functions of Node, \<open>env_sha\<close> is SHA-256.
\<close>

record env =
  env_cfg :: match_config
  env_tz :: time_zones
  env_net :: net_lib
  env_turn :: turn_lib
  env_enf :: enf_env
  env_sha :: "string \<Rightarrow> string"
  env_guardName :: "string \<Rightarrow> device_id \<Rightarrow> string option"
  env_guardChat :: "string \<Rightarrow> bool \<Rightarrow> guarded_text"

definition PERMANENT_BAN_MS :: millis where "PERMANENT_BAN_MS = 100 * 365 * 86400000"
definition BLOCK_MEMORY_MS :: millis where "BLOCK_MEMORY_MS = 86400000"
definition TELEMETRY_ROOMS_MAX :: nat where "TELEMETRY_ROOMS_MAX = 20"

section \<open>Events\<close>

datatype nudge_shown = LinkHidden | Nudge nudge_kind

datatype event =
  QueueWaiting int "nat option"
| MatchFound uuid bool millis millis "topic list" match_mode public_profile
| PartnerAccepted uuid
| MatchEnded uuid match_end_reason
| CallStart uuid bool call_media
| ServerError error_code string
| WalletUpdate wallet_view
| CoinsUpdate int int
| FriendsNew uuid
| ChatMessage uuid uuid string millis bool
| ChatTyping uuid bool
| RtcSignal uuid string
| SafetyNudge uuid nudge_shown
| SessionReplaced
| SessionRestricted restriction
| ServerShutdown

datatype ack_reply =
  HelloOk int "ice_server list" match_mode gender_filter bool
| AckError error_code "string option" "restriction option"
| SimpleOk
| ReportOk uuid
| ChatOk uuid millis bool

datatype out = Emit socket_id event | Ack socket_id ack_reply | Disconnect socket_id

section \<open>State\<close>

record rewards =
  rw_roomId :: uuid
  rw_connectedSince :: millis
  rw_partnerDevice :: device_id
  rw_intervalsAwarded :: int
  rw_friended :: bool

record local_socket =
  ls_deviceId :: device_id
  ls_orphaned :: bool
  ls_telemetryRooms :: "uuid list"
  ls_rewards :: "rewards option"

record relax_entry =
  rx_since :: millis
  rx_step :: int
  rx_low :: bool

text \<open>
  \<open>w_starts\<close> holds the calls whose media is being fetched (\<open>startCall\<close>, outside the lock) and
  \<open>w_media\<close> those whose media is there and that wait for the lock. \<open>w_uuid\<close> is the next id
  \<open>randomUUID\<close> draws.
\<close>

record world =
  w_store :: store
  w_wallet :: wallet
  w_flags :: flags_reader
  w_kv :: kv
  w_sig :: signals
  w_turn :: turn_store
  w_enf :: enf
  w_local :: "(socket_id, local_socket) jmap"
  w_photoBytes :: "(socket_id, nat) jmap"
  w_photoTotal :: int
  w_relaxing :: "(socket_id, relax_entry) jmap"
  w_online :: nat
  w_lastOnlineAt :: millis
  w_dirty :: "socket_id list"
  w_wakeAt :: "(socket_id, millis) jmap"
  w_stopped :: bool
  w_lastRecheckAt :: millis
  w_recheckCursor :: nat
  w_lastReapAt :: millis
  w_uuid :: uuid
  w_starts :: "(room \<times> (string option \<times> string option)) list"
  w_media :: "(room \<times> call_media \<times> call_media) list"
  w_out :: "out list"

definition new_world :: "flags \<Rightarrow> world" where
  "new_world f = \<lparr>w_store = new_store, w_wallet = new_wallet, w_flags = \<lparr>flag_value = f, statusMemo = None\<rparr>, w_kv = new_kv,
     w_sig = new_signals, w_turn = new_turn_store, w_enf = new_enf, w_local = [], w_photoBytes = [], w_photoTotal = 0,
     w_relaxing = [], w_online = 0, w_lastOnlineAt = 0, w_dirty = [], w_wakeAt = [], w_stopped = False,
     w_lastRecheckAt = 0, w_recheckCursor = 0, w_lastReapAt = 0, w_uuid = 0, w_starts = [], w_media = [], w_out = []\<rparr>"

definition on_match :: "(store \<Rightarrow> store) \<Rightarrow> world \<Rightarrow> world" where
  "on_match f w = w\<lparr>w_store := f (w_store w)\<rparr>"

definition emit :: "socket_id \<Rightarrow> event \<Rightarrow> world \<Rightarrow> world" where
  "emit s ev w = w\<lparr>w_out := w_out w @ [Emit s ev]\<rparr>"

definition ack :: "socket_id \<Rightarrow> ack_reply \<Rightarrow> world \<Rightarrow> world" where
  "ack s a w = w\<lparr>w_out := w_out w @ [Ack s a]\<rparr>"

definition disconnect_socket :: "socket_id \<Rightarrow> world \<Rightarrow> world" where
  "disconnect_socket s w = w\<lparr>w_out := w_out w @ [Disconnect s]\<rparr>"

definition mark_dirty :: "socket_id \<Rightarrow> world \<Rightarrow> world" where
  "mark_dirty s w = w\<lparr>w_dirty := sadd s (w_dirty w)\<rparr>"

definition session_of :: "world \<Rightarrow> socket_id \<Rightarrow> session option" where
  "session_of w s = getSession (w_store w) s"

definition room_of :: "world \<Rightarrow> uuid \<Rightarrow> room option" where
  "room_of w r = getRoom (w_store w) r"

definition candidate_of :: "session \<Rightarrow> candidate" where
  "candidate_of s = \<lparr>c_deviceId = deviceId s, c_gender = gender (profile s), c_language = language (profile s),
     c_topics = topics (profile s), c_preferences = preferences_of s\<rparr>"

lemmas world_ops = on_match_def emit_def ack_def disconnect_socket_def mark_dirty_def session_of_def room_of_def

text \<open>Sending and marking do not touch the store.\<close>

lemma emit_frame [simp, frame_simps]:
  "w_store (emit s ev w) = w_store w" "w_uuid (emit s ev w) = w_uuid w" "w_local (emit s ev w) = w_local w"
  "w_starts (emit s ev w) = w_starts w" "w_media (emit s ev w) = w_media w" "w_dirty (emit s ev w) = w_dirty w"
  by (simp_all add: emit_def)

lemma ack_frame [simp, frame_simps]:
  "w_store (ack s a w) = w_store w" "w_uuid (ack s a w) = w_uuid w" "w_local (ack s a w) = w_local w"
  "w_starts (ack s a w) = w_starts w" "w_media (ack s a w) = w_media w" "w_dirty (ack s a w) = w_dirty w"
  by (simp_all add: ack_def)

lemma disconnect_frame [simp, frame_simps]:
  "w_store (disconnect_socket s w) = w_store w" "w_uuid (disconnect_socket s w) = w_uuid w"
  "w_starts (disconnect_socket s w) = w_starts w" "w_media (disconnect_socket s w) = w_media w"
  by (simp_all add: disconnect_socket_def)

lemma mark_dirty_frame [simp, frame_simps]:
  "w_store (mark_dirty s w) = w_store w" "w_uuid (mark_dirty s w) = w_uuid w" "w_local (mark_dirty s w) = w_local w"
  "w_starts (mark_dirty s w) = w_starts w" "w_media (mark_dirty s w) = w_media w"
  by (simp_all add: mark_dirty_def)

lemma on_match_frame [simp, frame_simps]:
  "w_store (on_match f w) = f (w_store w)" "w_uuid (on_match f w) = w_uuid w" "w_local (on_match f w) = w_local w"
  "w_starts (on_match f w) = w_starts w" "w_media (on_match f w) = w_media w" "w_dirty (on_match f w) = w_dirty w"
  by (simp_all add: on_match_def)

end
