(* ===== verification/Match.thy ===== *)
theory Match
  imports MatchState
begin

text \<open>
  The internals of the match service that run under the lock
  (\<open>backend/src/match/MatchService.ts\<close>, from \<open>activeRoom\<close> to \<open>createRoomLocked\<close>): queueing,
  ending a room, removing a session, pair blocks, the relaxation tick and the match pass.
\<close>

definition now_flags :: "world \<Rightarrow> flags" where
  "now_flags w = current (w_flags w)"

definition may_filter :: "millis \<Rightarrow> world \<Rightarrow> device_id \<Rightarrow> bool" where
  "may_filter now w d = mayUseGenderFilter (now_flags w) now (w_wallet w) d"

definition wallet_view_of :: "env \<Rightarrow> millis \<Rightarrow> world \<Rightarrow> device_id \<Rightarrow> wallet_view" where
  "wallet_view_of e now w d = walletView (mc_initialCoins (env_cfg e)) now (w_store w) (w_wallet w) d"

definition effectiveMode :: "world \<Rightarrow> match_mode \<Rightarrow> match_mode" where
  "effectiveMode w requested = (if default_mode (now_flags w) = preview then preview else requested)"

section \<open>Membership\<close>

definition activeRoom :: "world \<Rightarrow> socket_id \<Rightarrow> uuid \<Rightarrow> (room \<times> side) option" where
  "activeRoom w s rid =
     (case session_of w s of
        None \<Rightarrow> None
      | Some x \<Rightarrow>
          if state x \<noteq> Active \<or> roomId x \<noteq> Some rid then None
          else case room_of w rid of
            None \<Rightarrow> None
          | Some rm \<Rightarrow> if room_state rm \<noteq> RActive then None else map_option (\<lambda>i. (rm, i)) (index_of (members rm) s))"

definition activePartner :: "world \<Rightarrow> socket_id \<Rightarrow> uuid \<Rightarrow> socket_id option" where
  "activePartner w s rid = map_option (\<lambda>(rm, i). pick (other i) (members rm)) (activeRoom w s rid)"

definition memberRoom :: "world \<Rightarrow> socket_id \<Rightarrow> uuid \<Rightarrow> (room \<times> side) option" where
  "memberRoom w s rid =
     (case session_of w s of
        None \<Rightarrow> None
      | Some x \<Rightarrow>
          if roomId x \<noteq> Some rid then None
          else case room_of w rid of None \<Rightarrow> None | Some rm \<Rightarrow> map_option (\<lambda>i. (rm, i)) (index_of (members rm) s))"

section \<open>Queueing\<close>

definition waitingPayload :: "int \<Rightarrow> world \<Rightarrow> event" where
  "waitingPayload step w =
     (if online_count_threshold (now_flags w) \<le> w_online w then QueueWaiting (max 0 step) (Some (w_online w))
      else QueueWaiting (max 0 step) None)"

text \<open>The gender filter is re-checked on every (re)queue.\<close>

definition recheck_filter :: "env \<Rightarrow> millis \<Rightarrow> session \<Rightarrow> world \<Rightarrow> world \<times> session" where
  "recheck_filter e now s w =
     (if genderFilter (preferences_of s) \<noteq> AllGenders \<and> \<not> may_filter now w (deviceId s)
      then (emit (socketId s) (WalletUpdate (wallet_view_of e now w (deviceId s)))
              (emit (socketId s) (ServerError premium_required ''the gender filter unlock has expired'') w),
            s\<lparr>preferences_of := (preferences_of s)\<lparr>genderFilter := AllGenders\<rparr>\<rparr>)
      else (w, s))"

definition queued :: "millis \<Rightarrow> session \<Rightarrow> session" where
  "queued since s = s\<lparr>state := Waiting, roomId := None, waitingSince := Some since\<rparr>"

definition enqueueLocked :: "env \<Rightarrow> millis \<Rightarrow> session \<Rightarrow> millis option \<Rightarrow> world \<Rightarrow> world" where
  "enqueueLocked e now s0 since0 w0 =
     (let (w, s) = recheck_filter e now s0 w0;
          since = (case since0 of Some t \<Rightarrow> t | None \<Rightarrow> now);
          w1 = mark_dirty (socketId s) (on_match (addWaiting (socketId s) since) (on_match (putSession (queued since s)) w));
          (sg, lows) = lowPriority now (w_sig w1);
          low = (deviceId s \<in> set lows);
          w2 = w1\<lparr>w_sig := sg, w_relaxing := jset (w_relaxing w1) (socketId s)
                 \<lparr>rx_since = since, rx_step = (if low then HELD else 0), rx_low = low\<rparr>\<rparr> in
      emit (socketId s) (waitingPayload 0 w2) w2)"

definition idled :: "session \<Rightarrow> session" where
  "idled s = s\<lparr>state := Idle, roomId := None, waitingSince := None\<rparr>"

section \<open>Rooms\<close>

definition noteRoomEnded :: "env \<Rightarrow> millis \<Rightarrow> room \<Rightarrow> world \<Rightarrow> world" where
  "noteRoomEnded e now rm w =
     w\<lparr>w_enf := roomEnded (env_enf e) now
        \<lparr>lr_roomId = room_id rm, lr_devices = devices rm,
         lr_activeSince = (if room_state rm = RActive then activeSince rm else None), lr_endedAt = now\<rparr> (w_enf w)\<rparr>"

definition refusal_code :: "refusal_error \<Rightarrow> error_code" where
  "refusal_code r = (case r of RefusedClosed \<Rightarrow> matching_closed | RefusedRate \<Rightarrow> rate_limited)"

text \<open>What \<open>endRoomLocked\<close> does for one member, with the session read before the loop.\<close>

definition end_member ::
  "env \<Rightarrow> millis \<Rightarrow> uuid \<Rightarrow> socket_id \<Rightarrow> session option \<Rightarrow> match_end_reason option \<Rightarrow> world \<Rightarrow> world" where
  "end_member e now rid sock s0 reason w =
     (case reason of
        None \<Rightarrow> w
      | Some why \<Rightarrow>
          let w1 = emit sock (MatchEnded rid why) w in
          (case s0 of
             None \<Rightarrow> w1
           | Some s \<Rightarrow>
               if roomId s \<noteq> Some rid then w1
               else
                 let idle = (why = AcceptTimeout);
                     capped = (if idle then None else requeue (mc_caps (env_cfg e)) now (w_kv w1) (deviceId s) why) in
                 if idle \<or> capped \<noteq> None \<or> getBan now (w_store w1) (deviceId s) \<noteq> None then
                   (let w2 = on_match (putSession (idled s)) w1 in
                    case capped of
                      Some q \<Rightarrow> emit sock (ServerError (refusal_code (q_error q)) (q_message q)) w2
                    | None \<Rightarrow> w2)
                 else enqueueLocked e now s None w1))"

definition endRoomLocked ::
  "env \<Rightarrow> millis \<Rightarrow> room \<Rightarrow> match_end_reason option \<times> match_end_reason option \<Rightarrow> world \<Rightarrow> world" where
  "endRoomLocked e now rm reasons w =
     (let w1 = noteRoomEnded e now rm (on_match (deleteRoom (room_id rm)) w);
          s1 = session_of w1 (fst (members rm)); s2 = session_of w1 (snd (members rm)) in
      end_member e now (room_id rm) (snd (members rm)) s2 (snd reasons)
        (end_member e now (room_id rm) (fst (members rm)) s1 (fst reasons) w1))"

text \<open>Reasons keyed by socket: one for the member at a side, one for the other member.\<close>

definition reasons_for :: "side \<Rightarrow> match_end_reason option \<Rightarrow> match_end_reason option \<Rightarrow> match_end_reason option \<times> match_end_reason option" where
  "reasons_for i mine theirs = (case i of Fst \<Rightarrow> (mine, theirs) | Snd \<Rightarrow> (theirs, mine))"

definition releasePhoto :: "socket_id \<Rightarrow> world \<Rightarrow> world" where
  "releasePhoto s w =
     w\<lparr>w_photoTotal := w_photoTotal w - (case jget (w_photoBytes w) s of Some n \<Rightarrow> int n | None \<Rightarrow> 0),
       w_photoBytes := jdel (w_photoBytes w) s\<rparr>"

definition removeSessionLocked :: "env \<Rightarrow> millis \<Rightarrow> session \<Rightarrow> match_end_reason \<Rightarrow> world \<Rightarrow> world" where
  "removeSessionLocked e now s partnerReason w =
     (let sock = socketId s;
          w1 = (case roomId s of
                  None \<Rightarrow> w
                | Some rid \<Rightarrow>
                    (case room_of w rid of
                       None \<Rightarrow> w
                     | Some rm \<Rightarrow>
                         (case index_of (members rm) sock of
                            None \<Rightarrow> w
                          | Some i \<Rightarrow> endRoomLocked e now rm (reasons_for i None (Some partnerReason)) w)));
          w2 = on_match (removeWaiting sock) w1;
          w3 = on_match (deleteSession sock) (w2\<lparr>w_relaxing := jdel (w_relaxing w2) sock\<rparr>);
          w4 = releasePhoto sock w3 in
      on_match (clearDeviceSocket (deviceId s) sock) w4)"

definition replaceLocked :: "env \<Rightarrow> millis \<Rightarrow> socket_id \<Rightarrow> world \<Rightarrow> world" where
  "replaceLocked e now old w =
     (let w1 = emit old SessionReplaced w;
          w2 = (case session_of w1 old of Some s \<Rightarrow> removeSessionLocked e now s PartnerUnavailable w1 | None \<Rightarrow> w1) in
      disconnect_socket old (w2\<lparr>w_local := jdel (w_local w2) old\<rparr>))"

definition blockPairLocked :: "env \<Rightarrow> millis \<Rightarrow> device_id \<times> device_id \<Rightarrow> millis \<Rightarrow> bool \<Rightarrow> store \<Rightarrow> store" where
  "blockPairLocked e now ds durationMs escalate m =
     (let existing = getBlock now m (fst ds) (snd ds);
          skips = (case existing of Some b \<Rightarrow> skipCount b | None \<Rightarrow> 0) + (if escalate then 1 else 0);
          duration = (if escalate then mc_skipBlockMs (env_cfg e) * skips else durationMs);
          ends = max (case existing of Some b \<Rightarrow> block_until b | None \<Rightarrow> 0) (now + duration) in
      setBlock now (fst ds) (snd ds) \<lparr>block_until = ends, skipCount = skips\<rparr> (ends - now + BLOCK_MEMORY_MS) m)"

text \<open>\<open>call:start\<close> follows from \<open>startCall\<close>, whose turn comes later (\<open>fetch_media\<close>, \<open>start_call\<close>).\<close>

definition activate_session :: "uuid \<Rightarrow> session option \<Rightarrow> store \<Rightarrow> store" where
  "activate_session rid s m =
     (case s of Some x \<Rightarrow> if roomId x = Some rid then putSession (x\<lparr>state := Active\<rparr>) m else m | None \<Rightarrow> m)"

definition activateRoomLocked :: "millis \<Rightarrow> room \<Rightarrow> world \<Rightarrow> world" where
  "activateRoomLocked now rm w =
     (let rm' = rm\<lparr>room_state := RActive, activeSince := Some now\<rparr>;
          w1 = on_match (putRoom rm') w;
          s1 = session_of w1 (fst (members rm)); s2 = session_of w1 (snd (members rm));
          w2 = on_match (activate_session (room_id rm) s2) (on_match (activate_session (room_id rm) s1) w1);
          key = (\<lambda>s. case s of Some x \<Rightarrow> ipKey x | None \<Rightarrow> None) in
      w2\<lparr>w_sig := callStarted now [fst (devices rm), snd (devices rm)] (w_sig w2),
         w_starts := w_starts w2 @ [(rm', key s1, key s2)]\<rparr>)"

text \<open>\<open>startCall\<close>: media for both sides outside the lock, then \<open>call:start\<close> under it.\<close>

definition fetch_media :: "env \<Rightarrow> millis \<Rightarrow> world \<Rightarrow> world" where
  "fetch_media e now w =
     (case w_starts w of
        [] \<Rightarrow> w
      | (rm, kA, kB) # rest \<Rightarrow>
          let (t1, mA) = callMedia (env_turn e) (mc_turn (env_cfg e)) (now_flags w) now (fst (devices rm)) kA (w_turn w);
              (t2, mB) = callMedia (env_turn e) (mc_turn (env_cfg e)) (now_flags w) now (snd (devices rm)) kB t1 in
          if w_stopped w then w\<lparr>w_starts := rest, w_turn := t2\<rparr>
          else w\<lparr>w_starts := rest, w_turn := t2, w_media := w_media w @ [(rm, mA, mB)]\<rparr>)"

definition start_call :: "room \<times> call_media \<times> call_media \<Rightarrow> world \<Rightarrow> world" where
  "start_call job w =
     (let (rm, mA, mB) = job; w1 = w\<lparr>w_media := remove1 job (w_media w)\<rparr> in
      case room_of w (room_id rm) of
        None \<Rightarrow> w1
      | Some cur \<Rightarrow>
          if room_state cur \<noteq> RActive \<or> activeSince cur \<noteq> activeSince rm then w1
          else emit (snd (members rm)) (CallStart (room_id rm) False mB)
                 (emit (fst (members rm)) (CallStart (room_id rm) True mA) w1))"

definition session_pending :: "uuid \<Rightarrow> session \<Rightarrow> session" where
  "session_pending rid s = s\<lparr>state := Pending, roomId := Some rid, waitingSince := None\<rparr>"

definition settle_matched :: "uuid \<Rightarrow> session \<Rightarrow> world \<Rightarrow> world" where
  "settle_matched rid s w =
     (let w1 = on_match (removeWaiting (socketId s)) (on_match (putSession (session_pending rid s)) w) in
      w1\<lparr>w_relaxing := jdel (w_relaxing w1) (socketId s)\<rparr>)"

definition new_room :: "env \<Rightarrow> millis \<Rightarrow> world \<Rightarrow> session \<Rightarrow> session \<Rightarrow> room" where
  "new_room e now w a b =
     \<lparr>room_id = w_uuid w, room_state = RPending, members = (socketId a, socketId b), devices = (deviceId a, deviceId b),
      accepted = (effectiveMode w (mode a) = instant, effectiveMode w (mode b) = instant), createdAt = now,
      expiresAt = now + mc_matchAcceptTimeoutMs (env_cfg e), activeSince = None, connectedSides = None, connectedSince = None\<rparr>"

definition createRoomLocked :: "env \<Rightarrow> session \<Rightarrow> session \<Rightarrow> millis \<Rightarrow> world \<Rightarrow> world" where
  "createRoomLocked e a b now w =
     (let rm = new_room e now w a b; rid = room_id rm;
          modeA = effectiveMode w (mode a); modeB = effectiveMode w (mode b);
          w1 = on_match (putRoom rm) (w\<lparr>w_uuid := w_uuid w + 1\<rparr>);
          w2 = settle_matched rid b (settle_matched rid a w1);
          isFriend = areFriends (w_store w2) (deviceId a) (deviceId b);
          photoA = getPhoto (w_store w2) (socketId a); photoB = getPhoto (w_store w2) (socketId b);
          w3 = w2\<lparr>w_kv := recordMatch now (deviceId b) (recordMatch now (deviceId a) (w_kv w2))\<rparr>;
          shared = filter (\<lambda>t. t \<in> set (topics (profile b))) (topics (profile a));
          found = (\<lambda>m p ph. MatchFound rid isFriend (expiresAt rm) now shared m (publicProfile p ph));
          w4 = emit (socketId b) (found modeB (profile a) photoA) (emit (socketId a) (found modeA (profile b) photoB) w3) in
      if fst (accepted rm) \<and> snd (accepted rm) then activateRoomLocked now rm w4
      else if fst (accepted rm) then emit (socketId b) (PartnerAccepted rid) w4
      else if snd (accepted rm) then emit (socketId a) (PartnerAccepted rid) w4
      else w4)"

section \<open>The relaxation tick\<close>

definition relax_one :: "millis \<Rightarrow> (socket_id \<times> int) \<times> session option \<Rightarrow> world \<Rightarrow> world" where
  "relax_one now job w =
     (let ((sock, step), s) = job in
      case jget (w_relaxing w) sock of
        None \<Rightarrow> w
      | Some entry \<Rightarrow>
          (case s of
             Some x \<Rightarrow>
               if state x \<noteq> Waiting \<or> waitingSince x \<noteq> Some (rx_since entry) then w\<lparr>w_relaxing := jdel (w_relaxing w) sock\<rparr>
               else
                 let shownBefore = max 0 (rx_step entry);
                     w1 = mark_dirty sock (w\<lparr>w_relaxing := jset (w_relaxing w) sock (entry\<lparr>rx_step := step\<rparr>)\<rparr>);
                     w2 = (if step > shownBefore then emit sock (waitingPayload step w1) w1 else w1) in
                 if step \<ge> MAX_STEP then w2\<lparr>w_relaxing := jdel (w_relaxing w2) sock\<rparr> else w2
           | None \<Rightarrow> w\<lparr>w_relaxing := jdel (w_relaxing w) sock\<rparr>))"

definition relaxTickLocked :: "env \<Rightarrow> millis \<Rightarrow> world \<Rightarrow> world" where
  "relaxTickLocked e now w =
     (let steps = map (\<lambda>(sock, r). (sock, r, relaxStep (now - rx_since r) (mc_ladder (env_cfg e)) (rx_low r))) (w_relaxing w);
          changed = map (\<lambda>(sock, r, st). (sock, st)) (filter (\<lambda>(sock, r, st). rx_step r < st) steps);
          loaded = getSessions (w_store w) (map fst changed) in
      fold (relax_one now) (zip changed loaded) w)"

section \<open>The match pass\<close>

datatype pass_mode = DirtyPass | RecheckPass | FullPass

definition addRecheckSlice :: "env \<Rightarrow> session list \<Rightarrow> socket_id list \<Rightarrow> world \<Rightarrow> world \<times> socket_id list" where
  "addRecheckSlice e ws focus w =
     (let count = max 1 (mc_recheckPairBudget (env_cfg e) div length ws) in
      if length ws \<le> count then (w\<lparr>w_recheckCursor := 0\<rparr>, fold (\<lambda>s f. sadd (socketId s) f) ws focus)
      else
        let start = w_recheckCursor w mod length ws in
        (w\<lparr>w_recheckCursor := start + count\<rparr>,
         fold (\<lambda>k f. sadd (socketId (ws ! ((start + k) mod length ws))) f) [0..<count] focus))"

text \<open>Drops queue entries whose session is gone or no longer waiting, and keeps the others' sessions.\<close>

fun load_waiting :: "(socket_id \<times> session option) list \<Rightarrow> world \<Rightarrow> world \<times> session list" where
  "load_waiting [] w = (w, [])"
| "load_waiting ((sock, s) # rest) w =
     (case s of
        Some x \<Rightarrow>
          if state x = Waiting then (let (w', xs) = load_waiting rest w in (w', x # xs))
          else load_waiting rest (on_match (removeWaiting sock) w)
      | None \<Rightarrow> load_waiting rest (on_match (removeWaiting sock) w))"

definition note_wake :: "socket_id \<Rightarrow> millis \<Rightarrow> world \<Rightarrow> world" where
  "note_wake sock t w =
     (case jget (w_wakeAt w) sock of
        Some u \<Rightarrow> if t < u then w\<lparr>w_wakeAt := jset (w_wakeAt w) sock t\<rparr> else w
      | None \<Rightarrow> w\<lparr>w_wakeAt := jset (w_wakeAt w) sock t\<rparr>)"

text \<open>
  The checks of a pair, first those on the two sessions and their ladder steps, then the bans
  (read once per device in the code, which answers the same throughout a pass).
\<close>

definition may_pair :: "int \<Rightarrow> int \<Rightarrow> session \<Rightarrow> session \<Rightarrow> bool" where
  "may_pair stepA stepB a b =
     (let step = pairStep stepA stepB in
      step \<noteq> HELD \<and> isCompatible (candidate_of a) (candidate_of b) \<and>
      meetsPreferences (candidate_of a) (candidate_of b) step)"

definition is_banned :: "millis \<Rightarrow> world \<Rightarrow> device_id \<Rightarrow> bool" where
  "is_banned now w d \<longleftrightarrow> getBan now (w_store w) d \<noteq> None"

definition blocked_until :: "millis \<Rightarrow> world \<Rightarrow> session \<Rightarrow> session \<Rightarrow> millis option" where
  "blocked_until now w a b =
     (case getBlock now (w_store w) (deviceId a) (deviceId b) of
        Some k \<Rightarrow> if now < block_until k then Some (block_until k) else None
      | None \<Rightarrow> None)"

text \<open>The inner loop: the partners of index \<open>i\<close>, in order, until one is taken.\<close>

fun try_partners ::
  "env \<Rightarrow> millis \<Rightarrow> session list \<Rightarrow> int list \<Rightarrow> nat \<Rightarrow> nat list \<Rightarrow> nat list \<times> world \<Rightarrow> nat list \<times> world" where
  "try_partners e now ws steps i [] tw = tw"
| "try_partners e now ws steps i (j # js) tw =
     (let (taken, w) = tw; a = ws ! i; b = ws ! j in
      if j \<in> set taken then try_partners e now ws steps i js tw
      else if \<not> may_pair (steps ! i) (steps ! j) a b then try_partners e now ws steps i js tw
      else if is_banned now w (deviceId a) \<or> is_banned now w (deviceId b) then try_partners e now ws steps i js tw
      else case blocked_until now w a b of
        Some t \<Rightarrow> try_partners e now ws steps i js (taken, note_wake (socketId a) t w)
      | None \<Rightarrow> (i # j # taken, createRoomLocked e a b now w))"

definition partners_of :: "session list \<Rightarrow> socket_id list option \<Rightarrow> nat \<Rightarrow> nat list" where
  "partners_of ws focus i =
     (let n = length ws in
      case focus of
        None \<Rightarrow> [i + 1..<n]
      | Some f \<Rightarrow>
          if socketId (ws ! i) \<in> set f then [i + 1..<n]
          else filter (\<lambda>j. i < j \<and> socketId (ws ! j) \<in> set f) [0..<n])"

text \<open>The outer loop, from index \<open>i\<close> on.\<close>

fun pair_from ::
  "env \<Rightarrow> millis \<Rightarrow> session list \<Rightarrow> int list \<Rightarrow> socket_id list option \<Rightarrow> nat list \<Rightarrow> nat list \<times> world \<Rightarrow> nat list \<times> world" where
  "pair_from e now ws steps focus [] tw = tw"
| "pair_from e now ws steps focus (i # is) tw =
     pair_from e now ws steps focus is
       (if i \<in> set (fst tw) \<or> steps ! i = HELD then tw
        else try_partners e now ws steps i (partners_of ws focus i) tw)"

definition steps_of :: "env \<Rightarrow> millis \<Rightarrow> device_id list \<Rightarrow> session list \<Rightarrow> int list" where
  "steps_of e now lows ws =
     map (\<lambda>s. relaxStep (now - (case waitingSince s of Some t \<Rightarrow> t | None \<Rightarrow> now)) (mc_ladder (env_cfg e)) (deviceId s \<in> set lows)) ws"

definition pair_all :: "env \<Rightarrow> millis \<Rightarrow> session list \<Rightarrow> socket_id list option \<Rightarrow> world \<Rightarrow> world" where
  "pair_all e now ws focus w =
     (let (sg, lows) = lowPriority now (w_sig w) in
      snd (pair_from e now ws (steps_of e now lows ws) focus [0..<length ws] ([], w\<lparr>w_sig := sg\<rparr>)))"

definition matchPassLocked :: "env \<Rightarrow> millis \<Rightarrow> pass_mode \<Rightarrow> world \<Rightarrow> world" where
  "matchPassLocked e now md w0 =
     (let (fr, st) = status (env_tz e) now (w_flags w0); w = w0\<lparr>w_flags := fr\<rparr> in
      if \<not> is_open st then w
      else
        let focus = (if md = FullPass then None else Some (w_dirty w)); w1 = w\<lparr>w_dirty := []\<rparr> in
        if focus = Some [] \<and> md = DirtyPass then w1
        else
          let ids = listWaiting (w_store w1) in
          if length ids < 2 then w1
          else
            let (w2, ws) = load_waiting (zip ids (getSessions (w_store w1) ids)) w1;
                w3 = (if md = RecheckPass then w2\<lparr>w_wakeAt := filter (\<lambda>p. fst p \<in> set (map socketId ws)) (w_wakeAt w2)\<rparr> else w2) in
            if length ws < 2 then w3
            else
              let (w4, focus') = (case focus of
                    Some f \<Rightarrow> if md = RecheckPass then (let (w', f') = addRecheckSlice e ws f w3 in (w', Some f')) else (w3, focus)
                  | None \<Rightarrow> (w3, None)) in
              if focus' = Some [] then w4 else pair_all e now ws focus' w4)"

end
