(* ===== verification/MatchHandlers.thy ===== *)
theory MatchHandlers
  imports Match
begin

text \<open>
  The handlers of the match service (\<open>backend/src/match/MatchService.ts\<close>): the client events, the
  calls from enforcement, the sweeper with its reaping, expiry and rewards, and shutdown. A
  handler that works outside the lock before or after its locked section is the composition of
  those parts, and the locked section alone is a definition of its own: other sections may run
  in between.
\<close>

section \<open>session:hello\<close>

record hello_payload =
  hp_deviceId :: device_id
  hp_profile :: session_profile
  hp_photo :: "string option"
  hp_preferences :: preferences
  hp_mode :: match_mode

definition refuse_hello :: "queue_refusal \<Rightarrow> ack_reply" where
  "refuse_hello q = AckError (refusal_code (q_error q)) (Some (q_message q)) None"

text \<open>Before the lock: the answer when refused, or the preferences and address key to go on with.\<close>

definition hello_pre ::
  "env \<Rightarrow> millis \<Rightarrow> socket_id \<Rightarrow> hello_payload \<Rightarrow> string option \<Rightarrow> world \<Rightarrow> world \<times> (ack_reply + preferences \<times> string option)" where
  "hello_pre e now sock p ip w =
     (if w_stopped w then (w, Inl (AckError internal (Some ''server shutting down'') None))
      else
        let d = hp_deviceId p; (en, r) = activeForDevice now d None (w_enf w); w1 = w\<lparr>w_enf := en\<rparr> in
        case r of
          Some res \<Rightarrow> (w1, Inl (AckError banned None (Some res)))
        | None \<Rightarrow>
            if getBan now (w_store w1) d \<noteq> None then (w1, Inl (AckError banned None None))
            else
              let refused = (if jget (w_local w1) sock = None then precheck (env_tz e) (w_flags w1) now (w_store w1) else None) in
              case refused of
                Some q \<Rightarrow> (w1, Inl (refuse_hello q))
              | None \<Rightarrow>
                  let w2 = (case nonempty ip of
                        Some a \<Rightarrow> w1\<lparr>w_turn := rememberIp (env_turn e) (mc_turn (env_cfg e)) (env_net e) now d a (w_turn w1)\<rparr>
                      | None \<Rightarrow> w1);
                      w3 = w2\<lparr>w_enf := noteDeviceSeen now d (w_enf w2)\<rparr>;
                      prefs = (if genderFilter (hp_preferences p) \<noteq> AllGenders \<and> \<not> may_filter now w3 d
                               then (hp_preferences p)\<lparr>genderFilter := AllGenders\<rparr> else hp_preferences p);
                      key = (case nonempty ip of Some a \<Rightarrow> Some (ipKeyFor (env_turn e) (mc_turn (env_cfg e)) (env_net e) a) | None \<Rightarrow> None) in
                  (w3, Inr (prefs, key)))"

definition cooldown_message :: "millis \<Rightarrow> string" where
  "cooldown_message ms =
     ''You let '' @ show_nat ACCEPT_TIMEOUT_STRIKES @ '' matches expire. You can search again in '' @ show_nat (nat ((ms + 999) div 1000)) @ '' s.''"

definition guarded_profile :: "env \<Rightarrow> hello_payload \<Rightarrow> session_profile" where
  "guarded_profile e p =
     (case env_guardName e (name (hp_profile p)) (hp_deviceId p) of
        Some n \<Rightarrow> (hp_profile p)\<lparr>name := n\<rparr> | None \<Rightarrow> hp_profile p)"

text \<open>The cooldown and the gate, asked only for hellos that would join the queue.\<close>

definition hello_gate :: "env \<Rightarrow> millis \<Rightarrow> device_id \<Rightarrow> session option \<Rightarrow> world \<Rightarrow> world \<times> ack_reply option" where
  "hello_gate e now d sess w =
     (if (case sess of None \<Rightarrow> True | Some s \<Rightarrow> state s = Idle) then
        (let (sg, ms) = acceptCooldownMs now d (w_sig w); w1 = w\<lparr>w_sig := sg\<rparr> in
         if 0 < ms then (w1, Some (AckError rate_limited (Some (cooldown_message ms)) None))
         else (w1, map_option refuse_hello (admit (env_tz e) (mc_caps (env_cfg e)) (w_flags w1) now (w_store w1) (w_kv w1) d)))
      else (w, None))"

text \<open>The session a hello stores: a fresh idle one, or the live one with the new profile.\<close>

definition hello_session ::
  "env \<Rightarrow> millis \<Rightarrow> socket_id \<Rightarrow> hello_payload \<Rightarrow> preferences \<Rightarrow> string option \<Rightarrow> session option \<Rightarrow> session" where
  "hello_session e now sock p prefs key sess =
     (case sess of
        None \<Rightarrow>
          \<lparr>socketId = sock, deviceId = hp_deviceId p, instanceId = mc_instanceId (env_cfg e), profile = guarded_profile e p,
           preferences_of = prefs, mode = hp_mode p, state = Idle, roomId = None, waitingSince = None, connectedAt = now,
           ipKey = nonempty key\<rparr>
      | Some s \<Rightarrow> s\<lparr>profile := guarded_profile e p, preferences_of := prefs, mode := hp_mode p,
                   ipKey := (case nonempty key of Some k \<Rightarrow> Some k | None \<Rightarrow> ipKey s)\<rparr>)"

definition store_photo :: "env \<Rightarrow> socket_id \<Rightarrow> string option \<Rightarrow> world \<Rightarrow> world \<times> bool" where
  "store_photo e sock photo w =
     (let w1 = releasePhoto sock w in
      case photo of
        Some ph \<Rightarrow>
          if w_photoTotal w1 + int (length ph) \<le> mc_photoBudget (env_cfg e)
          then (on_match (setPhoto sock (Some ph))
                  (w1\<lparr>w_photoBytes := jset (w_photoBytes w1) sock (length ph), w_photoTotal := w_photoTotal w1 + int (length ph)\<rparr>), True)
          else (on_match (setPhoto sock None) w1, False)
      | None \<Rightarrow> (on_match (setPhoto sock None) w1, False))"

text \<open>A new session retires the device's previous socket and takes its binding.\<close>

definition claim_device :: "env \<Rightarrow> millis \<Rightarrow> device_id \<Rightarrow> socket_id \<Rightarrow> world \<Rightarrow> world" where
  "claim_device e now d sock w =
     (let w1 = (case getDeviceSocket (w_store w) d of
            Some prev \<Rightarrow> if prev \<noteq> sock then replaceLocked e now prev w else w
          | None \<Rightarrow> w) in
      on_match (setDeviceSocket d sock) w1)"

definition hello_admitted ::
  "env \<Rightarrow> millis \<Rightarrow> socket_id \<Rightarrow> hello_payload \<Rightarrow> preferences \<Rightarrow> string option \<Rightarrow> session option \<Rightarrow> world \<Rightarrow> world" where
  "hello_admitted e now sock p prefs key sess w =
     (let d = hp_deviceId p;
          w1 = (if sess = None then claim_device e now d sock w else w);
          s = hello_session e now sock p prefs key sess;
          (w2, fits) = store_photo e sock (hp_photo p) (on_match (putSession s) w1);
          w3 = w2\<lparr>w_local := jset (w_local w2) sock
                  (case jget (w_local w2) sock of Some l \<Rightarrow> l
                   | None \<Rightarrow> \<lparr>ls_deviceId = d, ls_orphaned = False, ls_telemetryRooms = [], ls_rewards = None\<rparr>)\<rparr>;
          w4 = ack sock (HelloOk (balance (mc_initialCoins (env_cfg e)) (w_store w3) d) (stunServers (mc_turn (env_cfg e)))
                 (effectiveMode w3 (hp_mode p)) (genderFilter prefs) (hp_photo p \<noteq> None \<and> \<not> fits)) w3;
          w5 = emit sock (WalletUpdate (wallet_view_of e now w4 d)) w4 in
      if state s = Idle \<or> state s = Waiting
      then matchPassLocked e now DirtyPass (enqueueLocked e now s (if state s = Waiting then waitingSince s else None) w5)
      else w5)"

definition hello_locked ::
  "env \<Rightarrow> millis \<Rightarrow> bool \<Rightarrow> socket_id \<Rightarrow> hello_payload \<Rightarrow> preferences \<Rightarrow> string option \<Rightarrow> world \<Rightarrow> world" where
  "hello_locked e now connectedHere sock p prefs key w =
     (if \<not> connectedHere then ack sock (AckError bad_state None None) w
      else
        let sess = session_of w sock in
        if (case sess of Some s \<Rightarrow> deviceId s \<noteq> hp_deviceId p | None \<Rightarrow> False)
        then ack sock (AckError bad_state (Some ''deviceId cannot change on a live socket'') None) w
        else (case hello_gate e now (hp_deviceId p) sess w of
            (w1, Some refused) \<Rightarrow> ack sock refused w1
          | (w1, None) \<Rightarrow> hello_admitted e now sock p prefs key sess w1))"

definition hello :: "env \<Rightarrow> millis \<Rightarrow> bool \<Rightarrow> socket_id \<Rightarrow> hello_payload \<Rightarrow> string option \<Rightarrow> world \<Rightarrow> world" where
  "hello e now connectedHere sock p ip w =
     (case hello_pre e now sock p ip w of
        (w1, Inl a) \<Rightarrow> ack sock a w1
      | (w1, Inr (prefs, key)) \<Rightarrow> hello_locked e now connectedHere sock p prefs key w1)"

section \<open>Events of a live session\<close>

definition updatePreferences :: "env \<Rightarrow> millis \<Rightarrow> socket_id \<Rightarrow> preferences \<Rightarrow> world \<Rightarrow> world" where
  "updatePreferences e now sock prefs w =
     (case session_of w sock of
        None \<Rightarrow> ack sock (AckError bad_state (Some ''send session:hello first'') None) w
      | Some s \<Rightarrow>
          if genderFilter prefs \<noteq> AllGenders \<and> \<not> may_filter now w (deviceId s)
          then ack sock (AckError premium_required (Some ''unlock the gender filter to use it'') None) w
          else if genderFilter (preferences_of s) = genderFilter prefs \<and> languageFilter (preferences_of s) = languageFilter prefs
          then ack sock SimpleOk w
          else
            let w1 = ack sock SimpleOk (on_match (putSession (s\<lparr>preferences_of := prefs\<rparr>)) w) in
            if state s = Waiting then matchPassLocked e now DirtyPass (mark_dirty sock w1) else w1)"

definition accept :: "env \<Rightarrow> millis \<Rightarrow> socket_id \<Rightarrow> uuid \<Rightarrow> world \<Rightarrow> world" where
  "accept e now sock rid w =
     (case memberRoom w sock rid of
        None \<Rightarrow> w
      | Some (rm, i) \<Rightarrow>
          if room_state rm \<noteq> RPending then w
          else if expiresAt rm + mc_matchAcceptGraceMs (env_cfg e) < now
          then emit sock (ServerError not_in_room ''the match expired'') w
          else if pick i (accepted rm) then w
          else
            let rm' = rm\<lparr>accepted := set_at i True (accepted rm)\<rparr> in
            if \<not> fst (accepted rm') \<or> \<not> snd (accepted rm')
            then emit (pick (other i) (members rm')) (PartnerAccepted rid) (on_match (putRoom rm') w)
            else activateRoomLocked now rm' w)"

definition record_skip :: "millis \<Rightarrow> device_id \<Rightarrow> world \<Rightarrow> world" where
  "record_skip now d w = w\<lparr>w_kv := recordSkip now d (w_kv w)\<rparr>"

definition decline :: "env \<Rightarrow> millis \<Rightarrow> socket_id \<Rightarrow> uuid \<Rightarrow> world \<Rightarrow> world" where
  "decline e now sock rid w =
     (case memberRoom w sock rid of
        None \<Rightarrow> w
      | Some (rm, i) \<Rightarrow>
          if room_state rm \<noteq> RPending then w
          else
            let w1 = on_match (blockPairLocked e now (devices rm) (mc_declineBlockMs (env_cfg e)) False) w;
                w2 = record_skip now (pick i (devices rm)) w1;
                w3 = endRoomLocked e now rm (reasons_for i (Some Declined) (Some PartnerDeclined)) w2 in
            matchPassLocked e now DirtyPass w3)"

definition call_connected :: "millis \<Rightarrow> socket_id \<Rightarrow> uuid \<Rightarrow> world \<Rightarrow> world" where
  "call_connected now sock rid w =
     (case memberRoom w sock rid of
        None \<Rightarrow> w
      | Some (rm, i) \<Rightarrow>
          if room_state rm \<noteq> RActive then w
          else
            let c = (case connectedSides rm of Some c \<Rightarrow> c | None \<Rightarrow> (False, False)) in
            if pick i c then w
            else
              let c' = set_at i True c;
                  rm' = rm\<lparr>connectedSides := Some c', connectedSince := (if fst c' \<and> snd c' then Some now else connectedSince rm)\<rparr> in
              on_match (putRoom rm') w)"

definition skip :: "env \<Rightarrow> millis \<Rightarrow> socket_id \<Rightarrow> uuid option \<Rightarrow> world \<Rightarrow> world" where
  "skip e now sock named w =
     (case session_of w sock of
        None \<Rightarrow> w
      | Some s \<Rightarrow>
          (case roomId s of
             None \<Rightarrow> w
           | Some rid \<Rightarrow>
               if named \<noteq> None \<and> named \<noteq> Some rid then w
               else (case memberRoom w sock rid of
                   None \<Rightarrow> w
                 | Some (rm, i) \<Rightarrow>
                     let w1 = (case (room_state rm, activeSince rm) of
                           (RActive, Some t) \<Rightarrow> w\<lparr>w_sig := skipped_early (mc_signals (env_cfg e)) now (pick (other i) (devices rm)) (now - t) (w_sig w)\<rparr>
                         | _ \<Rightarrow> w);
                         w2 = on_match (blockPairLocked e now (devices rm) 0 True) w1;
                         w3 = record_skip now (deviceId s) w2;
                         w4 = endRoomLocked e now rm (reasons_for i (Some Skipped) (Some PartnerSkipped)) w3 in
                     matchPassLocked e now DirtyPass w4)))"

definition call_failed :: "env \<Rightarrow> millis \<Rightarrow> socket_id \<Rightarrow> uuid \<Rightarrow> world \<Rightarrow> world" where
  "call_failed e now sock rid w =
     (case memberRoom w sock rid of
        None \<Rightarrow> w
      | Some (rm, i) \<Rightarrow>
          if room_state rm \<noteq> RActive then w
          else
            let w1 = on_match (blockPairLocked e now (devices rm) (mc_declineBlockMs (env_cfg e)) False) w;
                w2 = endRoomLocked e now rm (Some ConnectionFailed, Some ConnectionFailed) w1 in
            matchPassLocked e now DirtyPass w2)"

definition telemetry :: "socket_id \<Rightarrow> uuid \<Rightarrow> world \<Rightarrow> world" where
  "telemetry sock rid w =
     (case jget (w_local w) sock of
        None \<Rightarrow> w
      | Some l \<Rightarrow>
          if rid \<in> set (ls_telemetryRooms l) then w
          else
            let rs = ls_telemetryRooms l @ [rid];
                rs' = (if TELEMETRY_ROOMS_MAX < length rs then tl rs else rs) in
            w\<lparr>w_local := jset (w_local w) sock (l\<lparr>ls_telemetryRooms := rs'\<rparr>)\<rparr>)"

definition moderationSignal :: "env \<Rightarrow> millis \<Rightarrow> socket_id \<Rightarrow> uuid \<Rightarrow> signal_kind \<Rightarrow> world \<Rightarrow> world" where
  "moderationSignal e now sock rid kind w =
     (case session_of w sock of
        None \<Rightarrow> w
      | Some s \<Rightarrow>
          if roomId s \<noteq> Some rid then w
          else
            let partner = (case room_of w rid of
                  None \<Rightarrow> None
                | Some rm \<Rightarrow> map_option (\<lambda>i. pick (other i) (devices rm)) (index_of (members rm) sock)) in
            w\<lparr>w_sig := moderation_signal (mc_signals (env_cfg e)) now sock rid kind (deviceId s) partner (w_sig w)\<rparr>)"

section \<open>Relays\<close>

definition relay_signal :: "socket_id \<Rightarrow> uuid \<Rightarrow> string \<Rightarrow> world \<Rightarrow> world" where
  "relay_signal sock rid data w =
     (case activePartner w sock rid of Some p \<Rightarrow> emit p (RtcSignal rid data) w | None \<Rightarrow> w)"

definition typing :: "socket_id \<Rightarrow> uuid \<Rightarrow> bool \<Rightarrow> world \<Rightarrow> world" where
  "typing sock rid b w =
     (case activePartner w sock rid of Some p \<Rightarrow> emit p (ChatTyping rid b) w | None \<Rightarrow> w)"

definition nudge_link :: "millis \<Rightarrow> socket_id \<Rightarrow> uuid \<Rightarrow> world \<Rightarrow> world" where
  "nudge_link now sock rid w =
     (case shouldNudge now (LinkNudge rid sock) (w_sig w) of
        (sg, True) \<Rightarrow> emit sock (SafetyNudge rid LinkHidden) (w\<lparr>w_sig := sg\<rparr>)
      | (sg, False) \<Rightarrow> w\<lparr>w_sig := sg\<rparr>)"

definition nudge_kind_of :: "env \<Rightarrow> millis \<Rightarrow> socket_id \<Rightarrow> socket_id \<Rightarrow> device_id \<Rightarrow> uuid \<Rightarrow> nudge_kind \<Rightarrow> world \<Rightarrow> world" where
  "nudge_kind_of e now sock partner d rid kind w =
     (case shouldNudge now (RoomNudge rid kind) (w_sig w) of
        (sg, True) \<Rightarrow>
          emit partner (SafetyNudge rid (Nudge kind)) (emit sock (SafetyNudge rid (Nudge kind))
            (w\<lparr>w_sig := addRisk (mc_signals (env_cfg e)) now d (NUDGE_RISK kind) sg\<rparr>))
      | (sg, False) \<Rightarrow> w\<lparr>w_sig := sg\<rparr>)"

definition chat :: "env \<Rightarrow> millis \<Rightarrow> socket_id \<Rightarrow> uuid \<Rightarrow> string \<Rightarrow> world \<Rightarrow> world" where
  "chat e now sock rid txt w =
     (case activeRoom w sock rid of
        None \<Rightarrow> ack sock (AckError not_in_room None None) w
      | Some (rm, i) \<Rightarrow>
          let partner = pick (other i) (members rm); mid = w_uuid w;
              redact = (now - (case activeSince rm of Some t \<Rightarrow> t | None \<Rightarrow> now) < mc_chatGuardMs (env_cfg e));
              g = env_guardChat e txt redact;
              w1 = ack sock (ChatOk mid now (g_redacted g))
                     (emit partner (ChatMessage rid mid (g_text g) now (g_redacted g)) (w\<lparr>w_uuid := mid + 1\<rparr>));
              w2 = (if g_redacted g then nudge_link now sock rid w1 else w1);
              w3 = (if g_contactSharing g then nudge_kind_of e now sock partner (pick i (devices rm)) rid ContactSharing w2 else w2) in
          if g_solicitation g then nudge_kind_of e now sock partner (pick i (devices rm)) rid Solicitation w3 else w3)"

section \<open>Reports\<close>

record report_payload =
  rq_roomId :: uuid
  rq_reason :: report_reason
  rq_details :: "string option"
  rq_frame :: "string option"
  rq_chat :: "(bool \<times> string \<times> millis) list"

record report_target =
  rt_reportedDevice :: device_id
  rt_devices :: "device_id \<times> device_id"
  rt_activeSince :: "millis option"
  rt_endedAt :: "millis option"

definition report_target_ended :: "env \<Rightarrow> millis \<Rightarrow> session \<Rightarrow> uuid \<Rightarrow> world \<Rightarrow> report_target option" where
  "report_target_ended e now s rid w =
     (case lastRoom now rid (w_enf w) of
        None \<Rightarrow> None
      | Some l \<Rightarrow>
          (case index_of (lr_devices l) (deviceId s) of
             None \<Rightarrow> None
           | Some i \<Rightarrow>
               if mc_reportAfterEndMs (env_cfg e) < now - lr_endedAt l then None
               else Some \<lparr>rt_reportedDevice = pick (other i) (lr_devices l), rt_devices = lr_devices l,
                          rt_activeSince = lr_activeSince l, rt_endedAt = Some (lr_endedAt l)\<rparr>))"

definition reportTarget :: "env \<Rightarrow> millis \<Rightarrow> session \<Rightarrow> uuid \<Rightarrow> world \<Rightarrow> report_target option" where
  "reportTarget e now s rid w =
     (case (if roomId s = Some rid then room_of w rid else None) of
        Some rm \<Rightarrow>
          (case index_of (members rm) (socketId s) of
             Some i \<Rightarrow> Some \<lparr>rt_reportedDevice = pick (other i) (devices rm), rt_devices = devices rm,
                 rt_activeSince = (if room_state rm = RActive then activeSince rm else None), rt_endedAt = None\<rparr>
           | None \<Rightarrow> report_target_ended e now s rid w)
      | None \<Rightarrow> report_target_ended e now s rid w)"

definition report_pre ::
  "env \<Rightarrow> millis \<Rightarrow> socket_id \<Rightarrow> report_payload \<Rightarrow> string option \<Rightarrow> world \<Rightarrow> world \<times> (ack_reply + session \<times> evidence_frame option \<times> report_target)" where
  "report_pre e now sock p ip w =
     (case session_of w sock of
        None \<Rightarrow> (w, Inl (AckError bad_state (Some ''send session:hello first'') None))
      | Some s \<Rightarrow>
          let frame = (case nonempty (rq_frame p) of None \<Rightarrow> None | Some u \<Rightarrow> Some (parseEvidenceFrame (env_sha e) u)) in
          if frame = Some None then (w, Inl (AckError invalid_payload (Some ''evidence frame must be a JPEG'') None))
          else case reportTarget e now s (rq_roomId p) w of
            None \<Rightarrow> (w, Inl (AckError not_in_room None None))
          | Some t \<Rightarrow>
              let (en, res) = admitReport (env_enf e) now (deviceId s) (rq_roomId p) ip (w_enf w); w1 = w\<lparr>w_enf := en\<rparr> in
              (case res of
                 AdmitRateLimited \<Rightarrow> (w1, Inl (AckError rate_limited None None))
               | AdmitDuplicate \<Rightarrow> (w1, Inl (AckError bad_state (Some ''already reported'') None))
               | AdmitOk \<Rightarrow> (w1, Inr (s, (case frame of Some f \<Rightarrow> f | None \<Rightarrow> None), t))))"

definition report_locked :: "env \<Rightarrow> millis \<Rightarrow> socket_id \<Rightarrow> uuid \<Rightarrow> device_id \<times> device_id \<Rightarrow> world \<Rightarrow> world" where
  "report_locked e now sock rid targetDevices w =
     (case memberRoom w sock rid of
        None \<Rightarrow> on_match (blockPairLocked e now targetDevices (mc_reportBlockMs (env_cfg e)) False) w
      | Some (rm, i) \<Rightarrow>
          let w1 = on_match (blockPairLocked e now (devices rm) (mc_reportBlockMs (env_cfg e)) False) w;
              w2 = endRoomLocked e now rm (reasons_for i (Some Reported) (Some PartnerSkipped)) w1 in
          matchPassLocked e now DirtyPass w2)"

definition report_submit ::
  "env \<Rightarrow> millis \<Rightarrow> bool \<Rightarrow> socket_id \<Rightarrow> report_payload \<Rightarrow> string option \<Rightarrow> session \<Rightarrow> evidence_frame option \<Rightarrow> report_target \<Rightarrow> world \<Rightarrow> world \<times> uuid" where
  "report_submit e now evidence_fails sock p ip s frame t w =
     (let (en, i, r) = submitReport (env_enf e) now evidence_fails
            \<lparr>ri_roomId = rq_roomId p, ri_reporterDevice = deviceId s, ri_reporterIp = ip, ri_reportedDevice = rt_reportedDevice t,
             ri_reason = rq_reason p, ri_details = rq_details p, ri_frame = frame, ri_chat = rq_chat p,
             ri_activeSince = rt_activeSince t, ri_endedAt = rt_endedAt t\<rparr> (w_enf w) in
      (w\<lparr>w_enf := en\<rparr>, i))"

section \<open>Restrictions\<close>

definition mirror_until :: "millis \<Rightarrow> restriction \<Rightarrow> millis" where
  "mirror_until now r = (case re_until r of Some u \<Rightarrow> u | None \<Rightarrow> now + PERMANENT_BAN_MS)"

definition evict_restricted :: "env \<Rightarrow> millis \<Rightarrow> socket_id \<Rightarrow> session \<Rightarrow> world \<Rightarrow> world" where
  "evict_restricted e now sock s w =
     (let w1 = (case roomId s of
            None \<Rightarrow> w
          | Some rid \<Rightarrow>
              (case room_of w rid of
                 None \<Rightarrow> w
               | Some rm \<Rightarrow>
                   (case index_of (members rm) sock of
                      None \<Rightarrow> w
                    | Some i \<Rightarrow> endRoomLocked e now rm (reasons_for i (Some Restricted) (Some PartnerSkipped)) w)));
          w2 = (case session_of w1 sock of
                  Some fresh \<Rightarrow> if state fresh \<noteq> Idle then on_match (putSession (idled fresh)) w1 else w1
                | None \<Rightarrow> w1) in
      on_match (removeWaiting sock) w2)"

definition restriction_locked :: "env \<Rightarrow> millis \<Rightarrow> device_id \<Rightarrow> restriction \<Rightarrow> world \<Rightarrow> world" where
  "restriction_locked e now d r w =
     (case getDeviceSocket (w_store w) d of
        None \<Rightarrow> w
      | Some sock \<Rightarrow>
          (case session_of w sock of
             None \<Rightarrow> w
           | Some s \<Rightarrow>
               let w1 = (if re_kind r \<noteq> Warning then evict_restricted e now sock s w else w) in
               matchPassLocked e now DirtyPass (emit sock (SessionRestricted r) w1)))"

definition restriction_ban :: "millis \<Rightarrow> device_id \<Rightarrow> restriction \<Rightarrow> world \<Rightarrow> world" where
  "restriction_ban now d r w =
     (if re_kind r \<noteq> Warning then on_match (setBan now d (mirror_until now r)) w else w)"

definition restrictionApplied :: "env \<Rightarrow> millis \<Rightarrow> device_id \<Rightarrow> restriction \<Rightarrow> world \<Rightarrow> world" where
  "restrictionApplied e now d r w = restriction_locked e now d r (restriction_ban now d r w)"

definition restrictionLifted :: "millis \<Rightarrow> device_id \<Rightarrow> restriction option \<Rightarrow> world \<Rightarrow> world" where
  "restrictionLifted now d remaining w =
     on_match (setBan now d (case remaining of
        Some r \<Rightarrow> if re_kind r \<noteq> Warning then mirror_until now r else 0 | None \<Rightarrow> 0)) w"

fun run_sink :: "env \<Rightarrow> millis \<Rightarrow> sink_call \<Rightarrow> world \<Rightarrow> world" where
  "run_sink e now (Applied d r) w = restrictionApplied e now d r w"
| "run_sink e now (Lifted d r) w = restrictionLifted now d r w"

text \<open>Carries out the calls enforcement made, in order.\<close>

definition deliver_calls :: "env \<Rightarrow> millis \<Rightarrow> world \<Rightarrow> world" where
  "deliver_calls e now w =
     fold (run_sink e now) (en_calls (w_enf w)) (w\<lparr>w_enf := (w_enf w)\<lparr>en_calls := []\<rparr>\<rparr>)"

definition report :: "env \<Rightarrow> millis \<Rightarrow> bool \<Rightarrow> socket_id \<Rightarrow> report_payload \<Rightarrow> string option \<Rightarrow> world \<Rightarrow> world" where
  "report e now evidence_fails sock p ip w =
     (case report_pre e now sock p ip w of
        (w1, Inl a) \<Rightarrow> ack sock a w1
      | (w1, Inr (s, frame, t)) \<Rightarrow>
          let w2 = report_locked e now sock (rq_roomId p) (rt_devices t) w1;
              (w3, i) = report_submit e now evidence_fails sock p ip s frame t w2 in
          ack sock (ReportOk i) (deliver_calls e now w3))"

section \<open>Leaving\<close>

definition forget_local :: "socket_id \<Rightarrow> world \<Rightarrow> world" where
  "forget_local sock w = releasePhoto sock (w\<lparr>w_local := jdel (w_local w) sock\<rparr>)"

definition disconnect_locked :: "env \<Rightarrow> millis \<Rightarrow> socket_id \<Rightarrow> world \<Rightarrow> world" where
  "disconnect_locked e now sock w =
     (let w1 = w\<lparr>w_local := jdel (w_local w) sock, w_wakeAt := jdel (w_wakeAt w) sock\<rparr> in
      case session_of w1 sock of
        None \<Rightarrow> w1
      | Some s \<Rightarrow> matchPassLocked e now DirtyPass (removeSessionLocked e now s PartnerLeft w1))"

definition disconnect :: "env \<Rightarrow> millis \<Rightarrow> socket_id \<Rightarrow> world \<Rightarrow> world" where
  "disconnect e now sock w = disconnect_locked e now sock (forget_local sock w)"

section \<open>The sweeper\<close>

definition remove_if_present :: "env \<Rightarrow> millis \<Rightarrow> match_end_reason \<Rightarrow> socket_id \<Rightarrow> world \<Rightarrow> world" where
  "remove_if_present e now why sock w =
     (case session_of w sock of Some s \<Rightarrow> removeSessionLocked e now s why w | None \<Rightarrow> w)"

definition reap_instance :: "env \<Rightarrow> millis \<Rightarrow> string \<Rightarrow> world \<Rightarrow> world" where
  "reap_instance e now i w =
     on_match (forgetInstance i)
       (fold (remove_if_present e now PartnerUnavailable) (listInstanceSessions (w_store w) i) w)"

definition reapDeadInstancesLocked :: "env \<Rightarrow> millis \<Rightarrow> world \<Rightarrow> world" where
  "reapDeadInstancesLocked e now w =
     fold (reap_instance e now) (filter (\<lambda>i. i \<noteq> mc_instanceId (env_cfg e)) (listDeadInstances now (w_store w))) w"

definition remove_ghost :: "env \<Rightarrow> millis \<Rightarrow> (socket_id \<Rightarrow> bool) \<Rightarrow> socket_id \<Rightarrow> world \<Rightarrow> world" where
  "remove_ghost e now isConnected sock w =
     (if isConnected sock then w
      else
        let s = session_of w sock;
            w1 = w\<lparr>w_local := jdel (w_local w) sock, w_wakeAt := jdel (w_wakeAt w) sock\<rparr> in
        case s of None \<Rightarrow> w1 | Some x \<Rightarrow> removeSessionLocked e now x PartnerLeft w1)"

definition removeGhostSessionsLocked :: "env \<Rightarrow> millis \<Rightarrow> (socket_id \<Rightarrow> bool) \<Rightarrow> world \<Rightarrow> world" where
  "removeGhostSessionsLocked e now isConnected w =
     fold (remove_ghost e now isConnected) (listInstanceSessions (w_store w) (mc_instanceId (env_cfg e))) w"

definition timeout_reason :: "bool \<Rightarrow> match_end_reason" where
  "timeout_reason acc = (if acc then Timeout else AcceptTimeout)"

definition strike_absent :: "millis \<Rightarrow> room \<Rightarrow> world \<Rightarrow> world" where
  "strike_absent now rm w =
     (let g1 = (if fst (accepted rm) then w_sig w else acceptTimedOut now (fst (devices rm)) (w_sig w));
          g2 = (if snd (accepted rm) then g1 else acceptTimedOut now (snd (devices rm)) g1) in
      w\<lparr>w_sig := g2\<rparr>)"

definition expire_room :: "env \<Rightarrow> millis \<Rightarrow> uuid \<Rightarrow> world \<Rightarrow> world" where
  "expire_room e now rid w =
     (case room_of w rid of
        None \<Rightarrow> w
      | Some rm \<Rightarrow>
          if room_state rm \<noteq> RPending then w
          else
            let w1 = on_match (blockPairLocked e now (devices rm) (mc_declineBlockMs (env_cfg e)) False) w;
                w2 = strike_absent now rm w1 in
            endRoomLocked e now rm (Some (timeout_reason (fst (accepted rm))), Some (timeout_reason (snd (accepted rm)))) w2)"

definition wake_due :: "millis \<Rightarrow> world \<Rightarrow> world" where
  "wake_due now w =
     (let due = map fst (filter (\<lambda>p. snd p \<le> now) (w_wakeAt w)) in
      w\<lparr>w_wakeAt := filter (\<lambda>p. now < snd p) (w_wakeAt w), w_dirty := fold sadd due (w_dirty w)\<rparr>)"

definition sweep_locked :: "env \<Rightarrow> millis \<Rightarrow> (socket_id \<Rightarrow> bool) \<Rightarrow> world \<Rightarrow> world" where
  "sweep_locked e now isConnected w =
     (let c = env_cfg e;
          w1 = (if mc_heartbeatIntervalMs c \<le> now - w_lastReapAt w
                then removeGhostSessionsLocked e now isConnected (reapDeadInstancesLocked e now (w\<lparr>w_lastReapAt := now\<rparr>)) else w);
          w2 = fold (expire_room e now) (listExpiredPendingRooms (w_store w1) (now - mc_matchAcceptGraceMs c)) w1;
          w3 = wake_due now w2;
          recheck = (mc_recheckIntervalMs c \<le> now - w_lastRecheckAt w3);
          w4 = (if recheck then w3\<lparr>w_lastRecheckAt := now\<rparr> else w3) in
      matchPassLocked e now (if recheck then RecheckPass else DirtyPass) (relaxTickLocked e now w4))"

definition set_local :: "socket_id \<Rightarrow> local_socket \<Rightarrow> world \<Rightarrow> world" where
  "set_local sock l w = w\<lparr>w_local := jset (w_local w) sock l\<rparr>"

text \<open>The rewards record a socket earns on, made from the stored room once both sides are connected.\<close>

definition rewards_for :: "socket_id \<Rightarrow> uuid \<Rightarrow> local_socket \<Rightarrow> world \<Rightarrow> rewards option" where
  "rewards_for sock rid l w =
     (case ls_rewards l of
        Some r \<Rightarrow> if rw_roomId r = rid then Some r else None
      | None \<Rightarrow> None)"

definition fresh_rewards :: "socket_id \<Rightarrow> uuid \<Rightarrow> world \<Rightarrow> rewards option" where
  "fresh_rewards sock rid w =
     (case room_of w rid of
        None \<Rightarrow> None
      | Some rm \<Rightarrow>
          (case (room_state rm, connectedSince rm, index_of (members rm) sock) of
             (RActive, Some t, Some i) \<Rightarrow>
               Some \<lparr>rw_roomId = room_id rm, rw_connectedSince = t, rw_partnerDevice = pick (other i) (devices rm),
                     rw_intervalsAwarded = 0, rw_friended = False\<rparr>
           | _ \<Rightarrow> None))"

definition award :: "env \<Rightarrow> millis \<Rightarrow> socket_id \<Rightarrow> device_id \<Rightarrow> local_socket \<Rightarrow> rewards \<Rightarrow> world \<Rightarrow> world" where
  "award e now sock d l r w =
     (let c = env_cfg e; elapsed = now - rw_connectedSince r; due = elapsed div mc_coinIntervalMs c;
          (w1, r1) = (if rw_intervalsAwarded r < due then
              (let delta = (due - rw_intervalsAwarded r) * mc_coinsPerInterval c;
                   ((m, u), bal) = earn (mc_initialCoins c) now d delta (rw_roomId r) (w_store w, w_wallet w) in
               (emit sock (CoinsUpdate bal delta) (w\<lparr>w_store := m, w_wallet := u\<rparr>), r\<lparr>rw_intervalsAwarded := due\<rparr>))
            else (w, r));
          (w2, r2) = (if \<not> rw_friended r1 \<and> mc_friendAfterMs c \<le> elapsed then
              (emit sock (FriendsNew (rw_roomId r1)) (on_match (addFriends d (rw_partnerDevice r1)) w1), r1\<lparr>rw_friended := True\<rparr>)
            else (w1, r1)) in
      set_local sock (l\<lparr>ls_rewards := Some r2\<rparr>) w2)"

definition reward_one :: "env \<Rightarrow> millis \<Rightarrow> socket_id \<times> session option \<Rightarrow> world \<Rightarrow> world" where
  "reward_one e now job w =
     (let (sock, sess) = job in
      case jget (w_local w) sock of
        None \<Rightarrow> w
      | Some l \<Rightarrow>
          (case sess of
             None \<Rightarrow>
               if \<not> ls_orphaned l then set_local sock (l\<lparr>ls_orphaned := True\<rparr>) w
               else disconnect_socket sock (emit sock ServerShutdown (forget_local sock w))
           | Some s \<Rightarrow>
               let l1 = l\<lparr>ls_orphaned := False\<rparr> in
               (case (state s, roomId s) of
                  (Active, Some rid) \<Rightarrow>
                    (case rewards_for sock rid l1 w of
                       Some r \<Rightarrow> award e now sock (deviceId s) l1 r w
                     | None \<Rightarrow>
                         (case fresh_rewards sock rid w of
                            Some r \<Rightarrow> award e now sock (deviceId s) l1 r w
                          | None \<Rightarrow> set_local sock l1 w))
                | _ \<Rightarrow> set_local sock (l1\<lparr>ls_rewards := None\<rparr>) w)))"

definition tickRewards :: "env \<Rightarrow> millis \<Rightarrow> world \<Rightarrow> world" where
  "tickRewards e now w =
     (let ids = jkeys (w_local w) in fold (reward_one e now) (zip ids (getSessions (w_store w) ids)) w)"

definition refresh_online :: "env \<Rightarrow> millis \<Rightarrow> world \<Rightarrow> world" where
  "refresh_online e now w =
     (if mc_heartbeatIntervalMs (env_cfg e) \<le> now - w_lastOnlineAt w
      then w\<lparr>w_lastOnlineAt := now, w_online := st_sessions (stats (w_store w))\<rparr> else w)"

definition sweep :: "env \<Rightarrow> millis \<Rightarrow> (socket_id \<Rightarrow> bool) \<Rightarrow> world \<Rightarrow> world" where
  "sweep e now isConnected w =
     (if w_stopped w then w else refresh_online e now (tickRewards e now (sweep_locked e now isConnected w)))"

definition beat :: "env \<Rightarrow> millis \<Rightarrow> world \<Rightarrow> world" where
  "beat e now w = on_match (heartbeat now (mc_instanceId (env_cfg e)) (mc_instanceTtlMs (env_cfg e))) w"

section \<open>Shutdown\<close>

definition shutdown_locked :: "env \<Rightarrow> millis \<Rightarrow> socket_id list \<Rightarrow> world \<Rightarrow> world" where
  "shutdown_locked e now ids w =
     (let loaded = getSessions (w_store w) ids;
          w1 = fold (\<lambda>s w. case s of Some x \<Rightarrow> removeSessionLocked e now x PartnerUnavailable w | None \<Rightarrow> w) loaded w;
          w2 = fold (remove_if_present e now PartnerUnavailable) (listInstanceSessions (w_store w1) (mc_instanceId (env_cfg e))) w1 in
      on_match (forgetInstance (mc_instanceId (env_cfg e))) (matchPassLocked e now DirtyPass w2))"

definition shutdown :: "env \<Rightarrow> millis \<Rightarrow> world \<Rightarrow> world" where
  "shutdown e now w =
     (if w_stopped w then w
      else
        let ids = jkeys (w_local w);
            w1 = fold (\<lambda>s. emit s ServerShutdown) ids (w\<lparr>w_stopped := True\<rparr>);
            w2 = shutdown_locked e now ids w1 in
        w2\<lparr>w_local := []\<rparr>)"

end
