(* ===== verification/MatchInv.thy ===== *)
theory MatchInv
  imports MatchHandlers
begin

text \<open>
  The invariant of the match store: the states of sessions, rooms, the queue and the device
  bindings agree. While a room is being ended its members are loose for a moment (their
  sessions still name the deleted room), so the invariant is stated with a set \<open>X\<close> of loose
  sockets; between locked sections it is empty.
\<close>

section \<open>Reads after writes\<close>

lemma getSession_ops [simp, lookup_simps]:
  "getSession (putSession x m) s = (if s = socketId x then Some x else getSession m s)"
  "getSession (deleteSession k m) s = (if s = k then None else getSession m s)"
  "getSession (deleteRoom r m) s = getSession m s"
  "getSession (putRoom rm m) s = getSession m s"
  "getSession (setPhoto k ph m) s = getSession m s"
  "getSession (setDeviceSocket d k m) s = getSession m s"
  "getSession (clearDeviceSocket d k m) s = getSession m s"
  "getSession (setBan now d t m) s = getSession m s"
  "getSession (setBlock now a b blk ret m) s = getSession m s"
  "getSession (heartbeat now i ttl m) s = getSession m s"
  "getSession (forgetInstance i m) s = getSession m s"
  "getSession (addFriends d d' m) s = getSession m s"
  by (auto simp: store_op_defs setBan_def setBlock_def Let_def heartbeat_def forgetInstance_def addFriends_def split: option.splits)

lemma queue_frame [simp, frame_simps]:
  "waiting (putSession x m) = waiting m" "waitingSinces (putSession x m) = waitingSinces m"
  "waiting (deleteSession k m) = waiting m" "waitingSinces (deleteSession k m) = waitingSinces m"
  "waiting (deleteRoom r m) = waiting m" "waitingSinces (deleteRoom r m) = waitingSinces m"
  "waiting (putRoom rm m) = waiting m" "waitingSinces (putRoom rm m) = waitingSinces m"
  "waiting (setPhoto k ph m) = waiting m" "waitingSinces (setPhoto k ph m) = waitingSinces m"
  "waiting (setDeviceSocket d k m) = waiting m" "waitingSinces (setDeviceSocket d k m) = waitingSinces m"
  "waiting (clearDeviceSocket d k m) = waiting m" "waitingSinces (clearDeviceSocket d k m) = waitingSinces m"
  by (auto simp: store_op_defs split: option.splits)

lemma queue_part_frame [simp, frame_simps]:
  "sessions (removeWaiting k m) = sessions m" "sessions (addWaiting k t m) = sessions m"
  "rooms (removeWaiting k m) = rooms m" "rooms (addWaiting k t m) = rooms m"
  "pendingRooms (removeWaiting k m) = pendingRooms m" "pendingRooms (addWaiting k t m) = pendingRooms m"
  "bindings (removeWaiting k m) = bindings m" "bindings (addWaiting k t m) = bindings m"
  "photos (removeWaiting k m) = photos m" "photos (addWaiting k t m) = photos m"
  "bans (removeWaiting k m) = bans m" "bans (addWaiting k t m) = bans m"
  "blocks (removeWaiting k m) = blocks m" "blocks (addWaiting k t m) = blocks m"
  by (auto simp: removeWaiting_def addWaiting_def removeFromQueue_def Let_def split: option.splits)

lemma getSession_queue [simp, lookup_simps]:
  "getSession (removeWaiting k m) s = getSession m s" "getSession (addWaiting k t m) s = getSession m s"
  by (simp_all add: getSession_def)

lemma getRoom_ops [simp, lookup_simps]:
  "getRoom (putRoom rm m) r = (if r = room_id rm then Some rm else getRoom m r)"
  "getRoom (deleteRoom k m) r = (if r = k then None else getRoom m r)"
  "getRoom (putSession x m) r = getRoom m r"
  "getRoom (deleteSession s m) r = getRoom m r"
  "getRoom (setPhoto s ph m) r = getRoom m r"
  "getRoom (setDeviceSocket d s m) r = getRoom m r"
  "getRoom (clearDeviceSocket d s m) r = getRoom m r"
  "getRoom (removeWaiting s m) r = getRoom m r"
  "getRoom (addWaiting s t m) r = getRoom m r"
  by (auto simp: store_op_defs split: option.splits)

lemma pendingRooms_ops [simp, lookup_simps]:
  "jget (pendingRooms (putRoom rm m)) r =
     (if r = room_id rm then (if room_state rm = RPending then Some (expiresAt rm) else None) else jget (pendingRooms m) r)"
  "jget (pendingRooms (deleteRoom k m)) r = (if r = k then None else jget (pendingRooms m) r)"
  "pendingRooms (putSession x m) = pendingRooms m"
  "pendingRooms (deleteSession s m) = pendingRooms m"
  "pendingRooms (setPhoto s ph m) = pendingRooms m"
  "pendingRooms (setDeviceSocket d s m) = pendingRooms m"
  "pendingRooms (clearDeviceSocket d s m) = pendingRooms m"
  by (auto simp: store_op_defs split: option.splits)

lemma bindings_ops [simp, lookup_simps]:
  "getDeviceSocket (setDeviceSocket d s m) d' = (if d' = d then Some s else getDeviceSocket m d')"
  "getDeviceSocket (clearDeviceSocket d s m) d' = (if d' = d \<and> getDeviceSocket m d = Some s then None else getDeviceSocket m d')"
  "getDeviceSocket (putSession x m) d' = getDeviceSocket m d'"
  "getDeviceSocket (deleteSession s m) d' = getDeviceSocket m d'"
  "getDeviceSocket (setPhoto s ph m) d' = getDeviceSocket m d'"
  "getDeviceSocket (putRoom rm m) d' = getDeviceSocket m d'"
  "getDeviceSocket (deleteRoom k m) d' = getDeviceSocket m d'"
  "getDeviceSocket (removeWaiting s m) d' = getDeviceSocket m d'"
  "getDeviceSocket (addWaiting s t m) d' = getDeviceSocket m d'"
  by (auto simp: store_op_defs split: option.splits)

lemma photo_ops [simp, lookup_simps]:
  "getPhoto (setPhoto s ph m) k = (if k = s then ph else getPhoto m k)"
  "getPhoto (deleteSession s m) k = (if k = s then None else getPhoto m k)"
  "getPhoto (putSession x m) k = getPhoto m k"
  "getPhoto (putRoom rm m) k = getPhoto m k"
  "getPhoto (deleteRoom r m) k = getPhoto m k"
  "getPhoto (setDeviceSocket d s m) k = getPhoto m k"
  "getPhoto (clearDeviceSocket d s m) k = getPhoto m k"
  "getPhoto (removeWaiting s m) k = getPhoto m k"
  "getPhoto (addWaiting s t m) k = getPhoto m k"
  by (auto simp: store_op_defs split: option.splits)

lemma since_of_frame [simp, lookup_simps]:
  "since_of (putSession x m) s = since_of m s" "since_of (deleteSession k m) s = since_of m s"
  "since_of (deleteRoom r m) s = since_of m s" "since_of (putRoom rm m) s = since_of m s"
  "since_of (setPhoto k ph m) s = since_of m s" "since_of (setDeviceSocket d k m) s = since_of m s"
  "since_of (clearDeviceSocket d k m) s = since_of m s"
  by (simp_all add: since_of_def)

lemma queue_ok_frame [simp]:
  "queue_ok (putSession x m) = queue_ok m" "queue_ok (deleteSession k m) = queue_ok m"
  "queue_ok (deleteRoom r m) = queue_ok m" "queue_ok (putRoom rm m) = queue_ok m"
  "queue_ok (setPhoto k ph m) = queue_ok m" "queue_ok (setDeviceSocket d k m) = queue_ok m"
  "queue_ok (clearDeviceSocket d k m) = queue_ok m"
  by (simp_all add: queue_ok_def)

lemma queue_ok_remove [simp, intro]: "queue_ok m \<Longrightarrow> queue_ok (removeWaiting k m)"
  by (simp add: removeWaiting_def removeFromQueue_ok)

section \<open>The invariant\<close>

text \<open>The fields of a session that its state determines.\<close>

definition shape :: "session \<Rightarrow> bool" where
  "shape x \<longleftrightarrow>
     (case state x of
        Idle \<Rightarrow> roomId x = None \<and> waitingSince x = None
      | Waiting \<Rightarrow> roomId x = None \<and> waitingSince x \<noteq> None
      | _ \<Rightarrow> roomId x \<noteq> None \<and> waitingSince x = None)"

definition sessions_ok :: "socket_id set \<Rightarrow> store \<Rightarrow> bool" where
  "sessions_ok X m \<longleftrightarrow> (\<forall>s x. getSession m s = Some x \<longrightarrow> socketId x = s \<and> (s \<notin> X \<longrightarrow> shape x))"

text \<open>A socket is in the queue exactly when its session waits, under the same time.\<close>

definition queue_sync :: "socket_id set \<Rightarrow> store \<Rightarrow> bool" where
  "queue_sync X m \<longleftrightarrow>
     (\<forall>s. since_of m s = (if s \<in> X then None else case getSession m s of None \<Rightarrow> None | Some x \<Rightarrow> waitingSince x))"

definition seated :: "socket_id set \<Rightarrow> store \<Rightarrow> bool" where
  "seated X m \<longleftrightarrow>
     (\<forall>s x rid. getSession m s = Some x \<longrightarrow> s \<notin> X \<longrightarrow> roomId x = Some rid \<longrightarrow>
        (\<exists>rm i. getRoom m rid = Some rm \<and> pick i (members rm) = s))"

definition seat :: "socket_id set \<Rightarrow> store \<Rightarrow> room \<Rightarrow> side \<Rightarrow> bool" where
  "seat X m rm i \<longleftrightarrow>
     pick i (members rm) \<notin> X \<and>
     (\<exists>x. getSession m (pick i (members rm)) = Some x \<and> roomId x = Some (room_id rm) \<and>
          deviceId x = pick i (devices rm) \<and> state x = session_state_of (room_state rm))"

definition room_flags :: "room \<Rightarrow> bool" where
  "room_flags rm \<longleftrightarrow>
     (case room_state rm of
        RPending \<Rightarrow> activeSince rm = None \<and> connectedSides rm = None \<and> connectedSince rm = None
      | RActive \<Rightarrow> fst (accepted rm) \<and> snd (accepted rm) \<and> activeSince rm \<noteq> None \<and>
          (connectedSince rm \<noteq> None \<longrightarrow> connectedSides rm = Some (True, True)))"

definition rooms_ok :: "socket_id set \<Rightarrow> uuid \<Rightarrow> store \<Rightarrow> bool" where
  "rooms_ok X u m \<longleftrightarrow>
     (\<forall>rid rm. getRoom m rid = Some rm \<longrightarrow>
        room_id rm = rid \<and> rid < u \<and> room_flags rm \<and> fst (members rm) \<noteq> snd (members rm) \<and>
        seat X m rm Fst \<and> seat X m rm Snd)"

definition pending_ok :: "store \<Rightarrow> bool" where
  "pending_ok m \<longleftrightarrow>
     (\<forall>rid. jget (pendingRooms m) rid =
        (case getRoom m rid of Some rm \<Rightarrow> if room_state rm = RPending then Some (expiresAt rm) else None | None \<Rightarrow> None))"

definition bindings_ok :: "store \<Rightarrow> bool" where
  "bindings_ok m \<longleftrightarrow>
     (\<forall>d s. getDeviceSocket m d = Some s \<longleftrightarrow> (\<exists>x. getSession m s = Some x \<and> deviceId x = d))"

definition photos_ok :: "store \<Rightarrow> bool" where
  "photos_ok m \<longleftrightarrow> (\<forall>s. getPhoto m s \<noteq> None \<longrightarrow> getSession m s \<noteq> None)"

definition inv_but :: "socket_id set \<Rightarrow> uuid \<Rightarrow> store \<Rightarrow> bool" where
  "inv_but X u m \<longleftrightarrow>
     queue_ok m \<and> sessions_ok X m \<and> queue_sync X m \<and> seated X m \<and> rooms_ok X u m \<and> pending_ok m \<and>
     bindings_ok m \<and> photos_ok m"

text \<open>A room that both sides have accepted is no longer pending.\<close>

definition undecided :: "store \<Rightarrow> bool" where
  "undecided m \<longleftrightarrow>
     (\<forall>rid rm. getRoom m rid = Some rm \<longrightarrow> room_state rm = RPending \<longrightarrow> \<not> (fst (accepted rm) \<and> snd (accepted rm)))"

lemmas inv_parts = sessions_ok_def queue_sync_def seated_def rooms_ok_def seat_def pending_ok_def bindings_ok_def photos_ok_def

lemma inv_butI:
  "queue_ok m \<Longrightarrow> sessions_ok X m \<Longrightarrow> queue_sync X m \<Longrightarrow> seated X m \<Longrightarrow> rooms_ok X u m \<Longrightarrow> pending_ok m \<Longrightarrow>
   bindings_ok m \<Longrightarrow> photos_ok m \<Longrightarrow> inv_but X u m"
  by (simp add: inv_but_def)

lemma inv_butD:
  assumes "inv_but X u m"
  shows "queue_ok m" "sessions_ok X m" "queue_sync X m" "seated X m" "rooms_ok X u m" "pending_ok m" "bindings_ok m" "photos_ok m"
  using assms by (simp_all add: inv_but_def)

lemma rooms_okD:
  assumes "rooms_ok X u m" "getRoom m rid = Some rm"
  shows "room_id rm = rid" "rid < u" "room_flags rm" "fst (members rm) \<noteq> snd (members rm)" "seat X m rm i"
  using assms by (cases i; auto simp: rooms_ok_def)+

lemma sessions_okD: "sessions_ok X m \<Longrightarrow> getSession m s = Some x \<Longrightarrow> socketId x = s"
  "sessions_ok X m \<Longrightarrow> getSession m s = Some x \<Longrightarrow> s \<notin> X \<Longrightarrow> shape x"
  by (auto simp: sessions_ok_def)

lemma seatedD:
  "seated X m \<Longrightarrow> getSession m s = Some x \<Longrightarrow> s \<notin> X \<Longrightarrow> roomId x = Some rid \<Longrightarrow>
   \<exists>rm i. getRoom m rid = Some rm \<and> pick i (members rm) = s"
  unfolding seated_def by blast

text \<open>A session no room holds: loose, or not in a room.\<close>

definition free :: "socket_id set \<Rightarrow> store \<Rightarrow> socket_id \<Rightarrow> bool" where
  "free X m s \<longleftrightarrow> (\<exists>x. getSession m s = Some x \<and> (s \<in> X \<or> roomId x = None))"

lemma free_not_member:
  assumes "rooms_ok X u m" "free X m s" "getRoom m rid = Some rm"
  shows "pick i (members rm) \<noteq> s"
  using rooms_okD(5) [OF assms(1,3), of i] assms(2) by (auto simp: seat_def free_def)

lemma bound_device: "bindings_ok m \<Longrightarrow> getSession m s = Some x \<Longrightarrow> getDeviceSocket m (deviceId x) = Some s"
  by (auto simp: bindings_ok_def)

lemma one_session_per_device:
  "bindings_ok m \<Longrightarrow> getSession m s = Some x \<Longrightarrow> getSession m t = Some y \<Longrightarrow> deviceId x = deviceId y \<Longrightarrow> s = t"
  by (metis bound_device option.inject)

text \<open>Only the fields the invariant reads matter.\<close>

definition same_core :: "store \<Rightarrow> store \<Rightarrow> bool" where
  "same_core m m' \<longleftrightarrow> sessions m' = sessions m \<and> photos m' = photos m \<and> bindings m' = bindings m \<and> waiting m' = waiting m \<and>
     waitingSinces m' = waitingSinces m \<and> rooms m' = rooms m \<and> pendingRooms m' = pendingRooms m"

lemma inv_but_cong:
  assumes "same_core m m'"
  shows "inv_but X u m' = inv_but X u m" "undecided m' = undecided m"
proof -
  have "getSession m' = getSession m" "getRoom m' = getRoom m" "getDeviceSocket m' = getDeviceSocket m"
    "getPhoto m' = getPhoto m" "since_of m' = since_of m" "queue_ok m' = queue_ok m" "pendingRooms m' = pendingRooms m"
    using assms by (auto simp: same_core_def store_op_defs since_of_def queue_ok_def)
  then show "inv_but X u m' = inv_but X u m" "undecided m' = undecided m"
    unfolding inv_but_def inv_parts undecided_def by simp_all
qed

lemma same_core_ops [simp, intro]:
  "same_core m (setBan now d t m)" "same_core m (setBlock now a b blk ret m)" "same_core m (heartbeat now i ttl m)"
  "same_core m (forgetInstance i m)" "same_core m (addFriends d d' m)" "same_core m (fst (addCoins d x y m))" "same_core m m"
  by (auto simp: same_core_def setBan_def setBlock_def heartbeat_def forgetInstance_def addFriends_def addCoins_def Let_def)

lemma inv_but_mono: "inv_but X u m \<Longrightarrow> u \<le> v \<Longrightarrow> inv_but X v m"
  by (auto simp: inv_but_def rooms_ok_def dest: order_less_le_trans)

section \<open>The store operations and the invariant\<close>

lemma other_side: "pick i p = pick j p \<Longrightarrow> fst p \<noteq> snd p \<Longrightarrow> i = j"
  by (cases p; cases i; cases j) auto

lemma ex_side: "(\<exists>i. P i) \<longleftrightarrow> P Fst \<or> P Snd"
  by (metis side.exhaust)

lemma delete_room_inv:
  assumes I: "inv_but {} u m" and rm: "getRoom m rid = Some rm"
  shows "inv_but {fst (members rm), snd (members rm)} u (deleteRoom rid m)"
proof -
  note parts = inv_butD [OF I]
  let ?X = "{fst (members rm), snd (members rm)}" and ?m = "deleteRoom rid m"
  have mem: "s \<in> ?X \<longleftrightarrow> (\<exists>i. pick i (members rm) = s)" for s
    by (cases "members rm") (auto simp: ex_side)
  have seat: "\<exists>x. getSession m s = Some x \<and> roomId x = Some rid \<and> shape x \<and> waitingSince x = None" if s: "s \<in> ?X" for s
  proof -
    obtain i where i: "pick i (members rm) = s" using iffD1 [OF mem s] by blast
    obtain x where x: "getSession m s = Some x" "roomId x = Some rid" "state x = session_state_of (room_state rm)"
      using rooms_okD(1) [OF parts(5) rm] rooms_okD(5) [OF parts(5) rm, of i] i by (auto simp: seat_def)
    then have "shape x" using sessions_okD(2) [OF parts(2) x(1)] by simp
    then show ?thesis using x by (cases "room_state rm") (auto simp: shape_def)
  qed
  show ?thesis
  proof (rule inv_butI)
    show "queue_ok ?m" using parts(1) by simp
    show "sessions_ok ?X ?m" using parts(2) by (auto simp: sessions_ok_def)
    show "queue_sync ?X ?m"
    proof -
      have "since_of m s = None" if "s \<in> ?X" for s
        using seat [OF that] parts(3) by (auto simp: queue_sync_def)
      then show ?thesis using parts(3) by (simp add: queue_sync_def)
    qed
    show "seated ?X ?m"
    proof -
      have "\<exists>rm' i. getRoom ?m r = Some rm' \<and> pick i (members rm') = s"
        if x: "getSession ?m s = Some x" and s: "s \<notin> ?X" and r: "roomId x = Some r" for s x r
      proof -
        have "getSession m s = Some x" using x by simp
        then obtain rm' i where rm': "getRoom m r = Some rm'" "pick i (members rm') = s"
          using seatedD [OF parts(4) _ _ r, of s] by blast
        have "r \<noteq> rid"
        proof
          assume "r = rid"
          then have "pick i (members rm) = s" using rm rm' by simp
          then show False using iffD2 [OF mem, of s] s by blast
        qed
        then show ?thesis using rm' by auto
      qed
      then show ?thesis by (simp add: seated_def)
    qed
    show "rooms_ok ?X u ?m"
    proof -
      have "room_id rm' = r \<and> r < u \<and> room_flags rm' \<and> fst (members rm') \<noteq> snd (members rm') \<and> seat ?X ?m rm' Fst \<and> seat ?X ?m rm' Snd"
        if r: "getRoom ?m r = Some rm'" for r rm'
      proof -
        have rm': "getRoom m r = Some rm'" "r \<noteq> rid" using r by (auto split: if_splits)
        have "seat ?X ?m rm' i" for i
        proof -
          have "seat {} m rm' i" using rooms_okD(5) [OF parts(5) rm'(1)] .
          then obtain x where x: "getSession m (pick i (members rm')) = Some x" "roomId x = Some r"
              "deviceId x = pick i (devices rm')" "state x = session_state_of (room_state rm')"
            using rooms_okD(1) [OF parts(5) rm'(1)] by (auto simp: seat_def)
          then have "pick i (members rm') \<notin> ?X" using seat rm'(2) by fastforce
          then show ?thesis using x rooms_okD(1) [OF parts(5) rm'(1)] by (simp add: seat_def)
        qed
        then show ?thesis using rooms_okD(1-4) [OF parts(5) rm'(1)] by blast
      qed
      then show ?thesis unfolding rooms_ok_def by blast
    qed
    show "pending_ok ?m" using parts(6) by (simp add: pending_ok_def)
    show "bindings_ok ?m" using parts(7) by (simp add: bindings_ok_def)
    show "photos_ok ?m" using parts(8) by (simp add: photos_ok_def)
  qed
qed

text \<open>Replacing the session of a free socket by one that is in no room, queued or not.\<close>

definition set_free :: "socket_id \<Rightarrow> session \<Rightarrow> store \<Rightarrow> store" where
  "set_free s y m = (case waitingSince y of Some t \<Rightarrow> addWaiting s t (putSession y m) | None \<Rightarrow> removeWaiting s (putSession y m))"

lemma since_of_set_free:
  "queue_ok m \<Longrightarrow> since_of (set_free s y m) k = (if k = s then waitingSince y else since_of m k)"
  by (auto simp: set_free_def since_of_add since_of_remove split: option.splits)

lemma set_free_reads [simp]:
  "getSession (set_free s y m) k = (if k = socketId y then Some y else getSession m k)"
  "getRoom (set_free s y m) r = getRoom m r" "getDeviceSocket (set_free s y m) d = getDeviceSocket m d"
  "getPhoto (set_free s y m) k = getPhoto m k" "pendingRooms (set_free s y m) = pendingRooms m"
  by (auto simp: set_free_def split: option.splits)

lemma set_free_inv:
  assumes I: "inv_but X u m" and s: "free X m s" and x: "getSession m s = Some x"
    and y: "socketId y = s" "deviceId y = deviceId x" "roomId y = None" "shape y"
  shows "inv_but (X - {s}) u (set_free s y m)"
proof -
  note parts = inv_butD [OF I]
  show ?thesis
  proof (rule inv_butI)
    show "queue_ok (set_free s y m)"
      using parts(1) by (auto simp: set_free_def addWaiting_ok split: option.splits)
    show "sessions_ok (X - {s}) (set_free s y m)" using parts(2) y by (auto simp: sessions_ok_def)
    show "queue_sync (X - {s}) (set_free s y m)"
      using parts(3) y(1) by (auto simp: queue_sync_def since_of_set_free [OF parts(1)])
    show "seated (X - {s}) (set_free s y m)" using parts(4) y by (auto simp: seated_def)
    show "rooms_ok (X - {s}) u (set_free s y m)"
    proof -
      have "seat (X - {s}) (set_free s y m) rm i" if rm: "getRoom m rid = Some rm" for rid rm i
        using rooms_okD(5) [OF parts(5) rm, of i] free_not_member [OF parts(5) s rm, of i] y(1) by (auto simp: seat_def)
      then show ?thesis using rooms_okD(1-4) [OF parts(5)] unfolding rooms_ok_def set_free_reads by blast
    qed
    show "pending_ok (set_free s y m)" using parts(6) by (simp add: pending_ok_def)
    show "bindings_ok (set_free s y m)" using parts(7) x y by (auto simp: bindings_ok_def)
    show "photos_ok (set_free s y m)" using parts(8) by (auto simp: photos_ok_def)
  qed
qed

text \<open>Dropping the session of a free socket with all that is stored for it.\<close>

definition drop_session :: "session \<Rightarrow> store \<Rightarrow> store" where
  "drop_session x m =
     clearDeviceSocket (deviceId x) (socketId x) (deleteSession (socketId x) (removeWaiting (socketId x) m))"

lemma drop_session_reads [simp]:
  "getSession (drop_session x m) k = (if k = socketId x then None else getSession m k)"
  "getRoom (drop_session x m) r = getRoom m r" "pendingRooms (drop_session x m) = pendingRooms m"
  "getPhoto (drop_session x m) k = (if k = socketId x then None else getPhoto m k)"
  by (simp_all add: drop_session_def)

lemma drop_session_inv:
  assumes I: "inv_but X u m" and s: "free X m s" and x: "getSession m s = Some x'" "socketId x = s" "deviceId x = deviceId x'"
  shows "inv_but (X - {s}) u (drop_session x m)"
proof -
  note parts = inv_butD [OF I]
  have q: "since_of (drop_session x m) k = (if k = s then None else since_of m k)" for k
    using x(2) by (simp add: drop_session_def since_of_remove [OF parts(1)])
  show ?thesis
  proof (rule inv_butI)
    show "queue_ok (drop_session x m)" using parts(1) by (simp add: drop_session_def)
    show "sessions_ok (X - {s}) (drop_session x m)" using parts(2) x(2) by (auto simp: sessions_ok_def)
    show "queue_sync (X - {s}) (drop_session x m)" using parts(3) x(2) by (auto simp: queue_sync_def q)
    show "seated (X - {s}) (drop_session x m)" using parts(4) x(2) by (auto simp: seated_def)
    show "rooms_ok (X - {s}) u (drop_session x m)"
    proof -
      have "seat (X - {s}) (drop_session x m) rm i" if rm: "getRoom m rid = Some rm" for rid rm i
        using rooms_okD(5) [OF parts(5) rm, of i] free_not_member [OF parts(5) s rm, of i] x(2) by (auto simp: seat_def)
      then show ?thesis using rooms_okD(1-4) [OF parts(5)] unfolding rooms_ok_def drop_session_reads by blast
    qed
    show "pending_ok (drop_session x m)" using parts(6) by (simp add: pending_ok_def)
    show "bindings_ok (drop_session x m)"
    proof -
      have b: "getDeviceSocket m (deviceId x) = Some s" using bound_device [OF parts(7) x(1)] x(3) by simp
      have old: "getDeviceSocket m d = Some k \<longleftrightarrow> (\<exists>z. getSession m k = Some z \<and> deviceId z = d)" for d k
        using parts(7) by (simp add: bindings_ok_def)
      have new: "getDeviceSocket (drop_session x m) d = (if d = deviceId x then None else getDeviceSocket m d)" for d
        using b x(2) by (simp add: drop_session_def)
      have only: "k = s" if "getSession m k = Some z" "deviceId z = deviceId x" for k z
        using one_session_per_device [OF parts(7) that(1) x(1)] that(2) x(3) by simp
      have "getDeviceSocket (drop_session x m) d = Some k \<longleftrightarrow> (\<exists>z. getSession (drop_session x m) k = Some z \<and> deviceId z = d)" for d k
      proof (cases "d = deviceId x")
        case True
        then have "\<not> (\<exists>z. getSession (drop_session x m) k = Some z \<and> deviceId z = d)" using only [of k] x(2) by auto
        then show ?thesis using True by (simp add: new)
      next
        case False
        have "(\<exists>z. getSession (drop_session x m) k = Some z \<and> deviceId z = d) \<longleftrightarrow> (\<exists>z. getSession m k = Some z \<and> deviceId z = d)"
          using x False by auto
        then show ?thesis using False by (simp add: new old)
      qed
      then show ?thesis unfolding bindings_ok_def by blast
    qed
    show "photos_ok (drop_session x m)" using parts(8) x(2) by (auto simp: photos_ok_def)
  qed
qed

end
