(* ===== verification/MatchRooms.thy ===== *)
theory MatchRooms
  imports MatchInv
begin

text \<open>
  The store operations that open, change and activate rooms and that create or update a
  session, and the invariant of \<open>MatchInv\<close>.
\<close>

section \<open>Opening a room\<close>

definition settle_store :: "uuid \<Rightarrow> session \<Rightarrow> store \<Rightarrow> store" where
  "settle_store rid s m = removeWaiting (socketId s) (putSession (session_pending rid s) m)"

lemma settle_store_reads [simp]:
  "getSession (settle_store rid s m) k = (if k = socketId s then Some (session_pending rid s) else getSession m k)"
  "getRoom (settle_store rid s m) r = getRoom m r" "getDeviceSocket (settle_store rid s m) d = getDeviceSocket m d"
  "getPhoto (settle_store rid s m) k = getPhoto m k" "pendingRooms (settle_store rid s m) = pendingRooms m"
  "queue_ok m \<Longrightarrow> queue_ok (settle_store rid s m)"
  "queue_ok m \<Longrightarrow> since_of (settle_store rid s m) k = (if k = socketId s then None else since_of m k)"
  by (auto simp: settle_store_def session_pending_def since_of_remove)

lemma session_pending_fields [simp]:
  "socketId (session_pending rid s) = socketId s" "deviceId (session_pending rid s) = deviceId s"
  "state (session_pending rid s) = Pending" "roomId (session_pending rid s) = Some rid"
  "waitingSince (session_pending rid s) = None" "shape (session_pending rid s)"
  by (simp_all add: session_pending_def shape_def)

lemma open_room_inv:
  assumes I: "inv_but {} u m"
    and a: "getSession m (socketId a) = Some a" "state a = Waiting"
    and b: "getSession m (socketId b) = Some b" "state b = Waiting"
    and ne: "socketId a \<noteq> socketId b"
    and rm: "room_id rm = u" "room_state rm = RPending" "members rm = (socketId a, socketId b)"
      "devices rm = (deviceId a, deviceId b)" "room_flags rm"
  shows "inv_but {} (Suc u) (settle_store u b (settle_store u a (putRoom rm m)))"
proof -
  note parts = inv_butD [OF I]
  let ?m = "settle_store u b (settle_store u a (putRoom rm m))"
  have noroom: "getRoom m u = None"
  proof (cases "getRoom m u")
    case (Some r)
    then show ?thesis using rooms_okD(2) [OF parts(5) Some] by simp
  qed simp
  have fr: "free {} m (socketId a)" "free {} m (socketId b)"
    using sessions_okD(2) [OF parts(2) a(1)] sessions_okD(2) [OF parts(2) b(1)] a b by (auto simp: free_def shape_def)
  show ?thesis
  proof (rule inv_butI)
    show "queue_ok ?m" using parts(1) by simp
    show "sessions_ok {} ?m" using parts(2) by (auto simp: sessions_ok_def)
    show "queue_sync {} ?m" using parts(1,3) by (auto simp: queue_sync_def)
    show "seated {} ?m"
    proof -
      have "\<exists>r i. getRoom ?m rid = Some r \<and> pick i (members r) = s"
        if x: "getSession ?m s = Some x" "roomId x = Some rid" for s x rid
      proof (cases "s = socketId a \<or> s = socketId b")
        case True
        then have "rid = u" using x by (auto split: if_splits)
        then show ?thesis using True rm(1,3) by (auto simp: ex_side)
      next
        case False
        then have old: "getSession m s = Some x" using x(1) by simp
        then obtain r i where r: "getRoom m rid = Some r" "pick i (members r) = s"
          using seatedD [OF parts(4) old _ x(2)] by blast
        then have "rid \<noteq> u" using noroom by auto
        then show ?thesis using r rm(1) by auto
      qed
      then show ?thesis unfolding seated_def by blast
    qed
    show "rooms_ok {} (Suc u) ?m"
    proof -
      have new: "seat {} ?m rm i" for i using ne rm by (cases i) (auto simp: seat_def)
      have old: "seat {} ?m r i" if r: "getRoom m rid = Some r" for rid r i
        using rooms_okD(5) [OF parts(5) r, of i] free_not_member [OF parts(5) fr(1) r, of i] free_not_member [OF parts(5) fr(2) r, of i]
        by (auto simp: seat_def)
      have "room_id r = rid \<and> rid < Suc u \<and> room_flags r \<and> fst (members r) \<noteq> snd (members r) \<and> seat {} ?m r Fst \<and> seat {} ?m r Snd"
        if r: "getRoom ?m rid = Some r" for rid r
      proof (cases "rid = u")
        case True
        then show ?thesis using r rm new ne by simp
      next
        case False
        then have "getRoom m rid = Some r" using r rm(1) by simp
        then show ?thesis using rooms_okD(1-4) [OF parts(5)] old less_SucI by blast
      qed
      then show ?thesis unfolding rooms_ok_def by blast
    qed
    show "pending_ok ?m" using parts(6) rm(1,2) by (auto simp: pending_ok_def)
    show "bindings_ok ?m"
    proof -
      have "(\<exists>x. getSession ?m s = Some x \<and> deviceId x = d) \<longleftrightarrow> (\<exists>x. getSession m s = Some x \<and> deviceId x = d)" for s d
        using a(1) b(1) by auto
      then show ?thesis using parts(7) by (simp add: bindings_ok_def)
    qed
    show "photos_ok ?m" using parts(8) by (auto simp: photos_ok_def)
  qed
qed

section \<open>Changing a room\<close>

lemma put_room_inv:
  assumes I: "inv_but X u m" and old: "getRoom m (room_id rm) = Some rm0"
    and rm: "members rm = members rm0" "devices rm = devices rm0" "room_state rm = room_state rm0" "room_flags rm"
  shows "inv_but X u (putRoom rm m)"
proof -
  note parts = inv_butD [OF I]
  note o = rooms_okD [OF parts(5) old]
  show ?thesis
  proof (rule inv_butI)
    show "seated X (putRoom rm m)"
    proof -
      have "\<exists>r i. getRoom (putRoom rm m) rid = Some r \<and> pick i (members r) = s"
        if x: "getSession m s = Some x" "s \<notin> X" "roomId x = Some rid" for s x rid
      proof -
        obtain r i where r: "getRoom m rid = Some r" "pick i (members r) = s" using seatedD [OF parts(4) x] by blast
        then show ?thesis using old rm(1) by (cases "rid = room_id rm") auto
      qed
      then show ?thesis by (simp add: seated_def)
    qed
    show "rooms_ok X u (putRoom rm m)"
    proof -
      have new: "seat X (putRoom rm m) rm i" for i using o(1) o(5) [of i] rm by (simp add: seat_def)
      have keep: "seat X (putRoom rm m) r i" if "getRoom m rid = Some r" for rid r i
        using rooms_okD(5) [OF parts(5) that, of i] by (simp add: seat_def)
      have "room_id r = rid \<and> rid < u \<and> room_flags r \<and> fst (members r) \<noteq> snd (members r) \<and>
          seat X (putRoom rm m) r Fst \<and> seat X (putRoom rm m) r Snd" if r: "getRoom (putRoom rm m) rid = Some r" for rid r
      proof (cases "rid = room_id rm")
        case True
        then show ?thesis using r new o rm by simp
      next
        case False
        then have "getRoom m rid = Some r" using r by simp
        then show ?thesis using rooms_okD(1-4) [OF parts(5)] keep by blast
      qed
      then show ?thesis unfolding rooms_ok_def by blast
    qed
    show "pending_ok (putRoom rm m)" using parts(6) by (auto simp: pending_ok_def)
  qed (use parts in \<open>simp_all add: sessions_ok_def queue_sync_def bindings_ok_def photos_ok_def\<close>)
qed

section \<open>Activating a room\<close>

definition activate_store :: "room \<Rightarrow> store \<Rightarrow> store" where
  "activate_store rm m =
     (let m1 = putRoom rm m in
      activate_session (room_id rm) (getSession m1 (snd (members rm)))
        (activate_session (room_id rm) (getSession m1 (fst (members rm))) m1))"

lemma activate_inv:
  assumes I: "inv_but {} u m" and old: "getRoom m (room_id rm) = Some rm0"
    and rm: "members rm = members rm0" "devices rm = devices rm0" "room_state rm = RActive" "room_flags rm"
  shows "inv_but {} u (activate_store rm m)"
    and "getRoom (activate_store rm m) r = (if r = room_id rm then Some rm else getRoom m r)"
    and "s \<noteq> fst (members rm) \<Longrightarrow> s \<noteq> snd (members rm) \<Longrightarrow> getSession (activate_store rm m) s = getSession m s"
proof -
  note parts = inv_butD [OF I]
  note o = rooms_okD [OF parts(5) old]
  let ?a = "fst (members rm)" and ?b = "snd (members rm)" and ?m = "activate_store rm m"
  obtain x where x: "getSession m ?a = Some x" "roomId x = Some (room_id rm)" "deviceId x = fst (devices rm)"
    using o(5) [of Fst] rm o(1) by (auto simp: seat_def pick_pair)
  obtain y where y: "getSession m ?b = Some y" "roomId y = Some (room_id rm)" "deviceId y = snd (devices rm)"
    using o(5) [of Snd] rm o(1) by (auto simp: seat_def pick_pair)
  have ne: "?a \<noteq> ?b" using o(4) rm(1) by simp
  have soc: "socketId x = ?a" "socketId y = ?b" using sessions_okD(1) [OF parts(2)] x(1) y(1) by blast+
  have w: "waitingSince x = None" "waitingSince y = None"
    using sessions_okD(2) [OF parts(2) x(1)] sessions_okD(2) [OF parts(2) y(1)] x(2) y(2)
    by (auto simp: shape_def split: session_state.splits)
  let ?x = "x\<lparr>state := Active\<rparr>" and ?y = "y\<lparr>state := Active\<rparr>"
  have m: "?m = putSession ?y (putSession ?x (putRoom rm m))"
    using x y soc ne by (simp add: activate_store_def activate_session_def)
  have g: "getSession ?m s = (if s = ?b then Some ?y else if s = ?a then Some ?x else getSession m s)" for s
    using soc by (simp add: m)
  show room: "getRoom ?m r = (if r = room_id rm then Some rm else getRoom m r)" for r by (simp add: m)
  show "s \<noteq> ?a \<Longrightarrow> s \<noteq> ?b \<Longrightarrow> getSession ?m s = getSession m s" by (simp add: g)
  have sh: "shape ?x" "shape ?y" using x(2) y(2) w by (simp_all add: shape_def)
  show "inv_but {} u ?m"
  proof (rule inv_butI)
    show "queue_ok ?m" using parts(1) by (simp add: m)
    show "sessions_ok {} ?m" using parts(2) sh soc unfolding sessions_ok_def g by auto
    show "queue_sync {} ?m"
    proof -
      have "since_of ?m s = since_of m s" for s by (simp add: m)
      then show ?thesis using parts(3) x(1) y(1) unfolding queue_sync_def g by auto
    qed
    show "seated {} ?m"
    proof -
      have "\<exists>r i. getRoom ?m rid = Some r \<and> pick i (members r) = s"
        if z: "getSession ?m s = Some z" "roomId z = Some rid" for s z rid
      proof -
        obtain z' where z': "getSession m s = Some z'" "roomId z' = Some rid"
          using z x y by (auto simp: g split: if_splits)
        obtain r i where r: "getRoom m rid = Some r" "pick i (members r) = s" using seatedD [OF parts(4) z'(1) _ z'(2)] by blast
        then show ?thesis using old rm(1) room by (cases "rid = room_id rm") auto
      qed
      then show ?thesis unfolding seated_def by blast
    qed
    show "rooms_ok {} u ?m"
    proof -
      have new: "seat {} ?m rm i" for i using x y rm(3) ne by (cases i) (simp_all add: seat_def g pick_pair)
      have keep: "seat {} ?m r i" if r: "getRoom m rid = Some r" and "rid \<noteq> room_id rm" for rid r i
      proof -
        obtain z where z: "getSession m (pick i (members r)) = Some z" "roomId z = Some rid"
            "deviceId z = pick i (devices r)" "state z = session_state_of (room_state r)"
          using rooms_okD(5) [OF parts(5) r, of i] rooms_okD(1) [OF parts(5) r] by (auto simp: seat_def)
        then have "pick i (members r) \<noteq> ?a" "pick i (members r) \<noteq> ?b" using x y that(2) by auto
        then show ?thesis using z rooms_okD(1) [OF parts(5) r] by (simp add: seat_def g)
      qed
      have "room_id r = rid \<and> rid < u \<and> room_flags r \<and> fst (members r) \<noteq> snd (members r) \<and> seat {} ?m r Fst \<and> seat {} ?m r Snd"
        if r: "getRoom ?m rid = Some r" for rid r
      proof (cases "rid = room_id rm")
        case True
        then show ?thesis using r new o rm room by simp
      next
        case False
        then have "getRoom m rid = Some r" using r room by simp
        then show ?thesis using rooms_okD(1-4) [OF parts(5)] keep [OF _ False] by blast
      qed
      then show ?thesis unfolding rooms_ok_def by blast
    qed
    show "pending_ok ?m" using parts(6) by (auto simp: pending_ok_def m)
    show "bindings_ok ?m"
    proof -
      have "(\<exists>z. getSession ?m s = Some z \<and> deviceId z = d) \<longleftrightarrow> (\<exists>z. getSession m s = Some z \<and> deviceId z = d)" for s d
        using x(1) y(1) by (auto simp: g)
      then show ?thesis using parts(7) by (simp add: bindings_ok_def m)
    qed
    show "photos_ok ?m" using parts(8) x(1) y(1) unfolding photos_ok_def g by (auto simp: m)
  qed
qed

section \<open>Sessions made and changed\<close>

lemma new_session_inv:
  assumes I: "inv_but {} u m" and s: "getSession m s = None" and d: "getDeviceSocket m d = None"
    and y: "socketId y = s" "deviceId y = d" "state y = Idle" "roomId y = None" "waitingSince y = None"
  shows "inv_but {} u (putSession y (setDeviceSocket d s m))"
proof -
  note parts = inv_butD [OF I]
  let ?m = "putSession y (setDeviceSocket d s m)"
  have mem: "pick i (members rm) \<noteq> s" if "getRoom m rid = Some rm" for rid rm i
    using rooms_okD(5) [OF parts(5) that, of i] s by (auto simp: seat_def)
  show ?thesis
  proof (rule inv_butI)
    show "sessions_ok {} ?m" using parts(2) y by (auto simp: sessions_ok_def shape_def)
    show "queue_sync {} ?m" using parts(3) s y by (auto simp: queue_sync_def)
    show "seated {} ?m" using parts(4) y by (auto simp: seated_def)
    show "rooms_ok {} u ?m"
    proof -
      have "seat {} ?m rm i" if "getRoom m rid = Some rm" for rid rm i
        using rooms_okD(5) [OF parts(5) that, of i] mem [OF that, of i] y(1) by (auto simp: seat_def)
      then show ?thesis using rooms_okD(1-4) [OF parts(5)] unfolding rooms_ok_def getRoom_ops by blast
    qed
    show "bindings_ok ?m"
    proof -
      have old: "getDeviceSocket m e = Some k \<longleftrightarrow> (\<exists>z. getSession m k = Some z \<and> deviceId z = e)" for e k
        using parts(7) by (simp add: bindings_ok_def)
      have none: "getSession m k = Some z \<Longrightarrow> deviceId z \<noteq> d" for k z using bound_device [OF parts(7), of k z] d by auto
      have "getDeviceSocket ?m e = Some k \<longleftrightarrow> (\<exists>z. getSession ?m k = Some z \<and> deviceId z = e)" for e k
      proof (cases "k = s")
        case True
        then show ?thesis using y s old [of e s] by auto
      next
        case False
        then show ?thesis using old [of e k] none [of k] y(1) by auto
      qed
      then show ?thesis unfolding bindings_ok_def by blast
    qed
    show "photos_ok ?m" using parts(8) by (auto simp: photos_ok_def)
  qed (use parts in \<open>simp_all add: pending_ok_def\<close>)
qed

lemma update_session_inv:
  assumes I: "inv_but {} u m" and s: "getSession m s = Some x"
    and y: "socketId y = s" "deviceId y = deviceId x" "state y = state x" "roomId y = roomId x" "waitingSince y = waitingSince x"
  shows "inv_but {} u (putSession y m)"
proof -
  note parts = inv_butD [OF I]
  let ?m = "putSession y m"
  show ?thesis
  proof (rule inv_butI)
    have "shape y" using sessions_okD(2) [OF parts(2) s] unfolding shape_def y(3-5) by simp
    then show "sessions_ok {} ?m" using parts(2) y(1) by (auto simp: sessions_ok_def)
    show "queue_sync {} ?m" using parts(3) s y by (auto simp: queue_sync_def)
    show "seated {} ?m"
      using seatedD [OF parts(4)] s y unfolding seated_def by (auto split: if_splits)
    show "rooms_ok {} u ?m"
    proof -
      have "seat {} ?m rm i" if "getRoom m rid = Some rm" for rid rm i
        using rooms_okD(5) [OF parts(5) that, of i] s y by (auto simp: seat_def)
      then show ?thesis using rooms_okD(1-4) [OF parts(5)] unfolding rooms_ok_def getRoom_ops by blast
    qed
    show "bindings_ok ?m"
    proof -
      have "(\<exists>z. getSession ?m k = Some z \<and> deviceId z = d) \<longleftrightarrow> (\<exists>z. getSession m k = Some z \<and> deviceId z = d)" for k d
        using s y by auto
      then show ?thesis using parts(7) by (simp add: bindings_ok_def)
    qed
    show "photos_ok ?m" using parts(8) by (auto simp: photos_ok_def)
  qed (use parts in \<open>simp_all add: pending_ok_def\<close>)
qed

lemma set_photo_inv: "inv_but X u m \<Longrightarrow> getSession m s \<noteq> None \<Longrightarrow> inv_but X u (setPhoto s ph m)"
  by (auto simp: inv_but_def inv_parts)

end
