(* ===== verification/MatchSafe.thy ===== *)
theory MatchSafe
  imports MatchRooms
begin

text \<open>
  The internals of the match service keep the invariant: queueing, ending a room, removing a
  session, opening a room and the match pass.
\<close>

definition winv :: "world \<Rightarrow> bool" where
  "winv w \<longleftrightarrow> inv_but {} (w_uuid w) (w_store w) \<and> undecided (w_store w)"

definition same_rooms :: "store \<Rightarrow> store \<Rightarrow> bool" where
  "same_rooms m m' \<longleftrightarrow> (\<forall>r. getRoom m' r = getRoom m r)"

lemma undecided_rooms: "same_rooms m m' \<Longrightarrow> undecided m' = undecided m"
  by (simp add: undecided_def same_rooms_def)

lemma winv_parts:
  assumes "winv w"
  shows "inv_but {} (w_uuid w) (w_store w)" "undecided (w_store w)" "queue_ok (w_store w)" "sessions_ok {} (w_store w)"
    "queue_sync {} (w_store w)" "seated {} (w_store w)" "rooms_ok {} (w_uuid w) (w_store w)" "bindings_ok (w_store w)"
  using assms by (auto simp: winv_def inv_but_def)

lemma winv_core: "same_core (w_store w) (w_store w') \<Longrightarrow> w_uuid w' = w_uuid w \<Longrightarrow> winv w' = winv w"
  using inv_but_cong [of "w_store w" "w_store w'"] by (simp add: winv_def)

lemma winv_store_eq: "w_store w' = w_store w \<Longrightarrow> w_uuid w' = w_uuid w \<Longrightarrow> winv w' = winv w"
  by (simp add: winv_def)

section \<open>Queueing\<close>

lemma recheck_filter_frame [simp]:
  "w_store (fst (recheck_filter e now s w)) = w_store w" "w_uuid (fst (recheck_filter e now s w)) = w_uuid w"
  "w_starts (fst (recheck_filter e now s w)) = w_starts w" "w_media (fst (recheck_filter e now s w)) = w_media w"
  by (simp_all add: recheck_filter_def)

lemma recheck_filter_session:
  assumes "recheck_filter e now s w = (w', s')"
  shows "socketId s' = socketId s" "deviceId s' = deviceId s" "state s' = state s" "roomId s' = roomId s"
    "waitingSince s' = waitingSince s" "mode s' = mode s" "profile s' = profile s"
  using assms by (auto simp: recheck_filter_def split: if_splits)

text \<open>What queueing does to the store: the session, with its filter re-checked, waits.\<close>

definition requeued :: "env \<Rightarrow> millis \<Rightarrow> session \<Rightarrow> millis option \<Rightarrow> world \<Rightarrow> session" where
  "requeued e now s since w = queued (case since of Some t \<Rightarrow> t | None \<Rightarrow> now) (snd (recheck_filter e now s w))"

lemma requeued_fields [simp]:
  "socketId (requeued e now s since w) = socketId s" "deviceId (requeued e now s since w) = deviceId s"
  "state (requeued e now s since w) = Waiting" "roomId (requeued e now s since w) = None"
  "waitingSince (requeued e now s since w) = Some (case since of Some t \<Rightarrow> t | None \<Rightarrow> now)"
  "shape (requeued e now s since w)"
proof -
  obtain w' s' where r: "recheck_filter e now s w = (w', s')" by (cases "recheck_filter e now s w")
  show "socketId (requeued e now s since w) = socketId s" "deviceId (requeued e now s since w) = deviceId s"
    using recheck_filter_session [OF r] r by (simp_all add: requeued_def queued_def)
qed (simp_all add: requeued_def queued_def shape_def)

lemma enqueue_store:
  "w_store (enqueueLocked e now s since w) = set_free (socketId s) (requeued e now s since w) (w_store w)"
  "w_uuid (enqueueLocked e now s since w) = w_uuid w"
  "w_starts (enqueueLocked e now s since w) = w_starts w" "w_media (enqueueLocked e now s since w) = w_media w"
proof -
  obtain w' s' where r: "recheck_filter e now s w = (w', s')" by (cases "recheck_filter e now s w")
  have f: "w_store w' = w_store w" "w_uuid w' = w_uuid w" "w_starts w' = w_starts w" "w_media w' = w_media w"
    using recheck_filter_frame [of e now s w] r by simp_all
  show "w_store (enqueueLocked e now s since w) = set_free (socketId s) (requeued e now s since w) (w_store w)"
    and "w_uuid (enqueueLocked e now s since w) = w_uuid w"
    and "w_starts (enqueueLocked e now s since w) = w_starts w" "w_media (enqueueLocked e now s since w) = w_media w"
    using recheck_filter_session [OF r] f
    by (simp_all add: enqueueLocked_def r requeued_def Let_def split_beta set_free_def queued_def)
qed

lemma enqueue_inv:
  assumes "inv_but X u (w_store w)" "free X (w_store w) (socketId s)" "getSession (w_store w) (socketId s) = Some x"
    "deviceId s = deviceId x"
  shows "inv_but (X - {socketId s}) u (w_store (enqueueLocked e now s since w))"
  unfolding enqueue_store using set_free_inv [OF assms(1,2,3)] assms(4) by simp

section \<open>Ending a room\<close>

lemma idled_fields [simp]:
  "socketId (idled s) = socketId s" "deviceId (idled s) = deviceId s" "state (idled s) = Idle" "roomId (idled s) = None"
  "waitingSince (idled s) = None" "shape (idled s)"
  by (simp_all add: idled_def shape_def)

text \<open>
  Putting an idle session for a loose socket: it is not in the queue, so the removal that
  \<open>set_free\<close> adds changes nothing.
\<close>

lemma remove_absent: "queue_ok m \<Longrightarrow> since_of m s = None \<Longrightarrow> removeWaiting s m = m"
proof -
  assume "queue_ok m" "since_of m s = None"
  then have "jget (waitingSinces m) s = None" by (simp add: queue_ok_def since_of_def)
  then show "removeWaiting s m = m" by (simp add: removeWaiting_def removeFromQueue_def)
qed

lemma put_idled_inv:
  assumes I: "inv_but X u m" and x: "getSession m s = Some x" "s \<in> X" "socketId y = s" "deviceId y = deviceId x"
  shows "inv_but (X - {s}) u (putSession (idled y) m)"
proof -
  have q: "queue_ok m" "since_of m s = None" using inv_butD(1,3) [OF I] x(2) by (auto simp: queue_sync_def)
  have "set_free s (idled y) m = putSession (idled y) m"
    using remove_absent [of "putSession (idled y) m" s] q by (simp add: set_free_def)
  moreover have "free X m s" using x(1,2) by (auto simp: free_def)
  ultimately show ?thesis using set_free_inv [OF I _ x(1), of "idled y"] x(3,4) by simp
qed

text \<open>One member: with a reason it ends up idle or waiting, without one it is left alone.\<close>

lemma end_member_none [simp]: "end_member e now rid sock s0 None w = w"
  by (simp add: end_member_def)

lemma end_member_cases:
  assumes "getSession (w_store w) sock = Some s" "roomId s = Some rid" "socketId s = sock"
  shows "w_store (end_member e now rid sock (Some s) (Some why) w) = putSession (idled s) (w_store w) \<or>
         (\<exists>y. w_store (end_member e now rid sock (Some s) (Some why) w) = set_free sock y (w_store w) \<and> socketId y = sock \<and>
            deviceId y = deviceId s \<and> state y = Waiting \<and> roomId y = None \<and> shape y \<and> why \<noteq> AcceptTimeout \<and>
            getBan now (w_store w) (deviceId s) = None)"
    and "w_uuid (end_member e now rid sock (Some s) (Some why) w) = w_uuid w"
    and "w_starts (end_member e now rid sock (Some s) (Some why) w) = w_starts w"
    and "w_media (end_member e now rid sock (Some s) (Some why) w) = w_media w"
  using assms by (auto simp: end_member_def Let_def enqueue_store split: option.split)

lemma end_member_inv:
  assumes I: "inv_but X u (w_store w)" and x: "getSession (w_store w) sock = Some s" "roomId s = Some rid" "sock \<in> X"
  shows "inv_but (X - {sock}) u (w_store (end_member e now rid sock (Some s) (Some why) w))"
    and "\<exists>y. getSession (w_store (end_member e now rid sock (Some s) (Some why) w)) sock = Some y \<and> roomId y = None \<and>
           deviceId y = deviceId s \<and> (state y = Idle \<or> state y = Waiting)"
    and "k \<noteq> sock \<Longrightarrow> getSession (w_store (end_member e now rid sock (Some s) (Some why) w)) k = getSession (w_store w) k"
    and "getRoom (w_store (end_member e now rid sock (Some s) (Some why) w)) r = getRoom (w_store w) r"
proof -
  have soc: "socketId s = sock" using sessions_okD(1) [OF inv_butD(2) [OF I] x(1)] .
  have fr: "free X (w_store w) sock" using x(1,3) by (auto simp: free_def)
  let ?m = "w_store (end_member e now rid sock (Some s) (Some why) w)"
  consider "?m = putSession (idled s) (w_store w)"
    | y where "?m = set_free sock y (w_store w)" "socketId y = sock" "deviceId y = deviceId s" "state y = Waiting"
        "roomId y = None" "shape y"
    using end_member_cases(1) [OF x(1,2) soc, of e now why] by blast
  then have "inv_but (X - {sock}) u ?m \<and> (\<exists>y. getSession ?m sock = Some y \<and> roomId y = None \<and> deviceId y = deviceId s \<and>
      (state y = Idle \<or> state y = Waiting)) \<and> (k \<noteq> sock \<longrightarrow> getSession ?m k = getSession (w_store w) k) \<and> getRoom ?m r = getRoom (w_store w) r"
  proof cases
    case 1
    then show ?thesis using put_idled_inv [OF I x(1,3) soc] soc by simp
  next
    case 2
    then show ?thesis using set_free_inv [OF I fr x(1)] by simp
  qed
  then show "inv_but (X - {sock}) u ?m"
    and "\<exists>y. getSession ?m sock = Some y \<and> roomId y = None \<and> deviceId y = deviceId s \<and> (state y = Idle \<or> state y = Waiting)"
    and "k \<noteq> sock \<Longrightarrow> getSession ?m k = getSession (w_store w) k" and "getRoom ?m r = getRoom (w_store w) r"
    by blast+
qed

text \<open>
  How a locked section that only ends rooms changes the others: rooms can only go, and a
  session stays with its device, in its room or in none when that room is gone.
\<close>

definition fades :: "store \<Rightarrow> store \<Rightarrow> bool" where
  "fades m m' \<longleftrightarrow>
     (\<forall>r rm. getRoom m' r = Some rm \<longrightarrow> getRoom m r = Some rm) \<and>
     (\<forall>k y. getSession m' k = Some y \<longrightarrow>
        (\<exists>x. getSession m k = Some x \<and> deviceId y = deviceId x \<and>
           (roomId y = roomId x \<or> roomId y = None \<and> (\<forall>r. roomId x = Some r \<longrightarrow> getRoom m' r = None))))"

lemma fades_refl [simp]: "fades m m"
  by (auto simp: fades_def)

lemma fades_trans:
  assumes 1: "fades m1 m2" and 2: "fades m2 m3"
  shows "fades m1 m3"
  unfolding fades_def
proof (intro conjI allI impI)
  fix r rm
  assume "getRoom m3 r = Some rm"
  then show "getRoom m1 r = Some rm" using 1 2 by (simp add: fades_def)
next
  fix k z
  assume "getSession m3 k = Some z"
  then obtain y where y: "getSession m2 k = Some y" "deviceId z = deviceId y"
      "roomId z = roomId y \<or> roomId z = None \<and> (\<forall>r. roomId y = Some r \<longrightarrow> getRoom m3 r = None)"
    using 2 unfolding fades_def by blast
  then obtain x where x: "getSession m1 k = Some x" "deviceId y = deviceId x"
      "roomId y = roomId x \<or> roomId y = None \<and> (\<forall>r. roomId x = Some r \<longrightarrow> getRoom m2 r = None)"
    using 1 unfolding fades_def by blast
  have gone: "getRoom m2 r = None \<Longrightarrow> getRoom m3 r = None" for r
    using 2 unfolding fades_def by (metis not_None_eq)
  have "roomId z = roomId x \<or> roomId z = None \<and> (\<forall>r. roomId x = Some r \<longrightarrow> getRoom m3 r = None)"
  proof (cases "roomId y = roomId x")
    case True
    then show ?thesis using y(3) by auto
  next
    case False
    then have "roomId y = None" "\<forall>r. roomId x = Some r \<longrightarrow> getRoom m2 r = None" using x(3) by auto
    moreover have "roomId z = None" using y(3) \<open>roomId y = None\<close> by auto
    ultimately show ?thesis using gone by blast
  qed
  then show "\<exists>x. getSession m1 k = Some x \<and> deviceId z = deviceId x \<and>
      (roomId z = roomId x \<or> roomId z = None \<and> (\<forall>r. roomId x = Some r \<longrightarrow> getRoom m3 r = None))"
    using x(1,2) y(2) by auto
qed

definition loose :: "room \<Rightarrow> match_end_reason option \<times> match_end_reason option \<Rightarrow> socket_id set" where
  "loose rm reasons =
     (if fst reasons = None then {fst (members rm)} else {}) \<union> (if snd reasons = None then {snd (members rm)} else {})"

lemma noteRoomEnded_frame [simp]:
  "w_store (noteRoomEnded e now rm w) = w_store w" "w_uuid (noteRoomEnded e now rm w) = w_uuid w"
  "w_starts (noteRoomEnded e now rm w) = w_starts w" "w_media (noteRoomEnded e now rm w) = w_media w"
  by (simp_all add: noteRoomEnded_def)

lemma end_room:
  fixes e :: env and now :: millis and reasons :: "match_end_reason option \<times> match_end_reason option"
  assumes I: "inv_but {} u (w_store w)" and rm: "getRoom (w_store w) (room_id rm) = Some rm"
  defines "w' \<equiv> endRoomLocked e now rm reasons w"
  shows "inv_but (loose rm reasons) u (w_store w')"
    and "w_uuid w' = w_uuid w" "w_starts w' = w_starts w" "w_media w' = w_media w"
    and "getRoom (w_store w') r = (if r = room_id rm then None else getRoom (w_store w) r)"
    and "k \<noteq> fst (members rm) \<Longrightarrow> k \<noteq> snd (members rm) \<Longrightarrow> getSession (w_store w') k = getSession (w_store w) k"
    and "pick i reasons = None \<Longrightarrow> getSession (w_store w') (pick i (members rm)) = getSession (w_store w) (pick i (members rm))"
    and "pick i reasons \<noteq> None \<Longrightarrow> \<exists>y. getSession (w_store w') (pick i (members rm)) = Some y \<and> roomId y = None \<and>
           deviceId y = pick i (devices rm) \<and> (state y = Idle \<or> state y = Waiting)"
proof -
  note parts = inv_butD [OF I]
  note o = rooms_okD [OF parts(5) rm]
  let ?a = "fst (members rm)" and ?b = "snd (members rm)" and ?id = "room_id rm"
  obtain x where x: "getSession (w_store w) ?a = Some x" "roomId x = Some ?id" "deviceId x = fst (devices rm)"
    using o(5) [of Fst] by (auto simp: seat_def pick_pair)
  obtain y where y: "getSession (w_store w) ?b = Some y" "roomId y = Some ?id" "deviceId y = snd (devices rm)"
    using o(5) [of Snd] by (auto simp: seat_def pick_pair)
  have ne: "?a \<noteq> ?b" using o(4) .
  define w1 where "w1 = noteRoomEnded e now rm (on_match (deleteRoom ?id) w)"
  have s1: "w_store w1 = deleteRoom ?id (w_store w)" and u1: "w_uuid w1 = w_uuid w" "w_starts w1 = w_starts w" "w_media w1 = w_media w"
    by (simp_all add: w1_def)
  have I1: "inv_but {?a, ?b} u (w_store w1)" unfolding s1 by (rule delete_room_inv [OF I rm])
  have x1: "getSession (w_store w1) ?a = Some x" and y1: "getSession (w_store w1) ?b = Some y" using x(1) y(1) by (simp_all add: s1)
  define w2 where "w2 = end_member e now ?id ?a (Some x) (fst reasons) w1"
  have w': "w' = end_member e now ?id ?b (Some y) (snd reasons) w2"
    using x1 y1 by (simp add: w'_def endRoomLocked_def Let_def w2_def session_of_def flip: w1_def)
  have 2: "inv_but (if fst reasons = None then {?a, ?b} else {?b}) u (w_store w2) \<and> w_uuid w2 = w_uuid w \<and>
      w_starts w2 = w_starts w \<and> w_media w2 = w_media w \<and>
      (\<forall>k. k \<noteq> ?a \<longrightarrow> getSession (w_store w2) k = getSession (w_store w1) k) \<and>
      (\<forall>r. getRoom (w_store w2) r = getRoom (w_store w1) r) \<and>
      (if fst reasons = None then getSession (w_store w2) ?a = Some x
       else \<exists>z. getSession (w_store w2) ?a = Some z \<and> roomId z = None \<and> deviceId z = deviceId x \<and> (state z = Idle \<or> state z = Waiting))"
  proof (cases "fst reasons")
    case None
    then show ?thesis using I1 x1 u1 by (simp add: w2_def)
  next
    case (Some why)
    have sx: "socketId x = ?a" using sessions_okD(1) [OF parts(2) x(1)] .
    have "?a \<in> {?a, ?b}" by simp
    note f = end_member_inv [OF I1 x1 x(2) this, where e = e and now = now and why = why]
    have "{?a, ?b} - {?a} = {?b}" using ne by auto
    then show ?thesis
      using f end_member_cases(2-4) [OF x1 x(2) sx, of e now why] u1 Some by (simp add: w2_def)
  qed
  have y2: "getSession (w_store w2) ?b = Some y" using 2 y1 ne by simp
  have sy: "socketId y = ?b" using sessions_okD(1) [OF parts(2) y(1)] .
  have 3: "inv_but (loose rm reasons) u (w_store w') \<and> w_uuid w' = w_uuid w \<and>
      w_starts w' = w_starts w \<and> w_media w' = w_media w \<and>
      (\<forall>k. k \<noteq> ?b \<longrightarrow> getSession (w_store w') k = getSession (w_store w2) k) \<and>
      (\<forall>r. getRoom (w_store w') r = getRoom (w_store w2) r) \<and>
      (if snd reasons = None then getSession (w_store w') ?b = Some y
       else \<exists>z. getSession (w_store w') ?b = Some z \<and> roomId z = None \<and> deviceId z = deviceId y \<and> (state z = Idle \<or> state z = Waiting))"
  proof (cases "snd reasons")
    case None
    have "loose rm reasons = (if fst reasons = None then {?a, ?b} else {?b})" using None by (auto simp: loose_def)
    moreover have "w' = w2" using None by (simp add: w')
    ultimately show ?thesis using conjunct1 [OF 2] 2 y2 None by simp
  next
    case (Some why)
    have "?b \<in> (if fst reasons = None then {?a, ?b} else {?b})" by simp
    note f = end_member_inv [OF conjunct1 [OF 2] y2 y(2) this, where e = e and now = now and why = why]
    have "(if fst reasons = None then {?a, ?b} else {?b}) - {?b} = loose rm reasons"
      using Some ne by (auto simp: loose_def)
    then show ?thesis
      using f end_member_cases(2-4) [OF y2 y(2) sy, of e now why] 2 Some by (simp add: w')
  qed
  show "inv_but (loose rm reasons) u (w_store w')" and "w_uuid w' = w_uuid w" "w_starts w' = w_starts w" "w_media w' = w_media w"
    using 3 by blast+
  show "getRoom (w_store w') r = (if r = ?id then None else getRoom (w_store w) r)" using 2 3 by (simp add: s1)
  show "k \<noteq> ?a \<Longrightarrow> k \<noteq> ?b \<Longrightarrow> getSession (w_store w') k = getSession (w_store w) k" using 2 3 by (simp add: s1)
  show "pick i reasons = None \<Longrightarrow> getSession (w_store w') (pick i (members rm)) = getSession (w_store w) (pick i (members rm))"
    using 2 3 x y ne by (cases i) (simp_all add: pick_pair)
  have fa: "\<exists>z. getSession (w_store w') ?a = Some z \<and> roomId z = None \<and> deviceId z = fst (devices rm) \<and>
      (state z = Idle \<or> state z = Waiting)" if "fst reasons \<noteq> None"
  proof -
    have "\<exists>z. getSession (w_store w2) ?a = Some z \<and> roomId z = None \<and> deviceId z = deviceId x \<and> (state z = Idle \<or> state z = Waiting)"
      using 2 that by simp
    moreover have "getSession (w_store w') ?a = getSession (w_store w2) ?a" using 3 ne by simp
    ultimately show ?thesis using x(3) by simp
  qed
  have fb: "\<exists>z. getSession (w_store w') ?b = Some z \<and> roomId z = None \<and> deviceId z = snd (devices rm) \<and>
      (state z = Idle \<or> state z = Waiting)" if "snd reasons \<noteq> None"
  proof -
    have "\<exists>z. getSession (w_store w') ?b = Some z \<and> roomId z = None \<and> deviceId z = deviceId y \<and> (state z = Idle \<or> state z = Waiting)"
      using 3 that by simp
    then show ?thesis using y(3) by simp
  qed
  show "pick i reasons \<noteq> None \<Longrightarrow> \<exists>y. getSession (w_store w') (pick i (members rm)) = Some y \<and> roomId y = None \<and>
      deviceId y = pick i (devices rm) \<and> (state y = Idle \<or> state y = Waiting)"
  proof (cases i)
    case Fst
    assume "pick i reasons \<noteq> None"
    then have "fst reasons \<noteq> None" unfolding Fst pick_pair .
    then show ?thesis unfolding Fst pick_pair by (rule fa)
  next
    case Snd
    assume "pick i reasons \<noteq> None"
    then have "snd reasons \<noteq> None" unfolding Snd pick_pair .
    then show ?thesis unfolding Snd pick_pair by (rule fb)
  qed
qed

lemma end_room_fades:
  assumes I: "inv_but {} u (w_store w)" and rm: "getRoom (w_store w) (room_id rm) = Some rm"
  shows "fades (w_store w) (w_store (endRoomLocked e now rm reasons w))"
  unfolding fades_def
proof (intro conjI allI impI)
  fix r rm'
  assume "getRoom (w_store (endRoomLocked e now rm reasons w)) r = Some rm'"
  then show "getRoom (w_store w) r = Some rm'" using end_room(5) [OF I rm, of e now reasons r] by (auto split: if_splits)
next
  fix k z
  assume z: "getSession (w_store (endRoomLocked e now rm reasons w)) k = Some z"
  let ?m' = "w_store (endRoomLocked e now rm reasons w)"
  note parts = inv_butD [OF I]
  show "\<exists>x. getSession (w_store w) k = Some x \<and> deviceId z = deviceId x \<and>
      (roomId z = roomId x \<or> roomId z = None \<and> (\<forall>r. roomId x = Some r \<longrightarrow> getRoom ?m' r = None))"
  proof (cases "\<exists>i. pick i (members rm) = k \<and> pick i reasons \<noteq> None")
    case True
    then obtain i where i: "pick i (members rm) = k" "pick i reasons \<noteq> None" by blast
    obtain y where y: "getSession ?m' k = Some y" "roomId y = None" "deviceId y = pick i (devices rm)"
      using end_room(8) [OF I rm i(2), of e now] i(1) by blast
    obtain x where x: "getSession (w_store w) k = Some x" "roomId x = Some (room_id rm)" "deviceId x = pick i (devices rm)"
      using rooms_okD(5) [OF parts(5) rm, of i] i(1) by (auto simp: seat_def)
    have "getRoom ?m' (room_id rm) = None" using end_room(5) [OF I rm, of e now reasons "room_id rm"] by simp
    then show ?thesis using x y z by auto
  next
    case False
    have "getSession ?m' k = getSession (w_store w) k"
    proof (cases "k = fst (members rm) \<or> k = snd (members rm)")
      case mem: True
      then obtain i where i: "pick i (members rm) = k" by (metis pick_pair)
      then have "pick i reasons = None" using False by blast
      then show ?thesis using end_room(7) [OF I rm, of i reasons e now] i by simp
    next
      case nm: False
      then show ?thesis using end_room(6) [OF I rm, of k e now reasons] by simp
    qed
    then have "getSession (w_store w) k = Some z" using z by simp
    then show ?thesis by blast
  qed
qed

lemma end_room_undecided:
  assumes I: "inv_but {} u (w_store w)" and rm: "getRoom (w_store w) (room_id rm) = Some rm" and U: "undecided (w_store w)"
  shows "undecided (w_store (endRoomLocked e now rm reasons w))"
  using U end_room_fades [OF I rm, of e now reasons] by (auto simp: undecided_def fades_def)

text \<open>With a reason for both members, ending a room keeps the invariant.\<close>

lemma end_room_winv:
  assumes w: "winv w" and rm: "getRoom (w_store w) rid = Some rm" and r: "fst reasons \<noteq> None" "snd reasons \<noteq> None"
  shows "winv (endRoomLocked e now rm reasons w)"
proof -
  note I = winv_parts(1) [OF w]
  have rm': "getRoom (w_store w) (room_id rm) = Some rm" using rooms_okD(1) [OF winv_parts(7) [OF w] rm] rm by simp
  have "loose rm reasons = {}" using r by (simp add: loose_def)
  then show ?thesis
    using end_room(1,2) [OF I rm', where e = e and now = now and reasons = reasons] end_room_undecided [OF I rm' winv_parts(2) [OF w]] by (simp add: winv_def)
qed

section \<open>Removing a session\<close>

text \<open>
  A session value that is the stored one, or an older reading of it whose room has been
  ended since.
\<close>

definition tracks :: "store \<Rightarrow> session \<Rightarrow> bool" where
  "tracks m s \<longleftrightarrow>
     (\<exists>x. getSession m (socketId s) = Some x \<and> deviceId s = deviceId x \<and>
        (roomId s = roomId x \<or> roomId x = None \<and> (\<forall>r. roomId s = Some r \<longrightarrow> getRoom m r = None)))"

lemma tracks_current: "winv w \<Longrightarrow> getSession (w_store w) k = Some s \<Longrightarrow> tracks (w_store w) s"
  using sessions_okD(1) [OF winv_parts(4)] by (fastforce simp: tracks_def)

lemma tracks_fades:
  assumes t: "tracks m s" and f: "fades m m'" and k: "getSession m' (socketId s) \<noteq> None"
  shows "tracks m' s"
proof -
  obtain y where y: "getSession m' (socketId s) = Some y" using k by blast
  obtain x where x: "getSession m (socketId s) = Some x" "deviceId y = deviceId x"
      "roomId y = roomId x \<or> roomId y = None \<and> (\<forall>r. roomId x = Some r \<longrightarrow> getRoom m' r = None)"
    using f y unfolding fades_def by blast
  have gone: "getRoom m r = None \<Longrightarrow> getRoom m' r = None" for r
    using f unfolding fades_def by (metis not_None_eq)
  have "deviceId s = deviceId x" "roomId s = roomId x \<or> roomId x = None \<and> (\<forall>r. roomId s = Some r \<longrightarrow> getRoom m r = None)"
    using t x(1) by (auto simp: tracks_def)
  then have "roomId s = roomId y \<or> roomId y = None \<and> (\<forall>r. roomId s = Some r \<longrightarrow> getRoom m' r = None)"
    using x(3) gone by auto
  then show ?thesis using y x(2) \<open>deviceId s = deviceId x\<close> by (auto simp: tracks_def)
qed

definition end_of_session :: "env \<Rightarrow> millis \<Rightarrow> session \<Rightarrow> match_end_reason \<Rightarrow> world \<Rightarrow> world" where
  "end_of_session e now s why w =
     (case roomId s of
        None \<Rightarrow> w
      | Some rid \<Rightarrow>
          (case room_of w rid of
             None \<Rightarrow> w
           | Some rm \<Rightarrow>
               (case index_of (members rm) (socketId s) of
                  None \<Rightarrow> w
                | Some i \<Rightarrow> endRoomLocked e now rm (reasons_for i None (Some why)) w)))"

lemma remove_store:
  "w_store (removeSessionLocked e now s why w) = drop_session s (w_store (end_of_session e now s why w))"
  "w_uuid (removeSessionLocked e now s why w) = w_uuid (end_of_session e now s why w)"
  "w_starts (removeSessionLocked e now s why w) = w_starts (end_of_session e now s why w)"
  "w_media (removeSessionLocked e now s why w) = w_media (end_of_session e now s why w)"
  by (simp_all add: removeSessionLocked_def Let_def end_of_session_def [symmetric] releasePhoto_def drop_session_def on_match_def)

lemma reasons_for_pick [simp]: "pick i (reasons_for i a b) = a" "pick (other i) (reasons_for i a b) = b"
  by (cases i; simp add: reasons_for_def)+

lemma index_of_members:
  "fst p \<noteq> snd p \<Longrightarrow> pick i p = s \<Longrightarrow> index_of p s = Some i"
  by (cases p; cases i) (auto simp: index_of_def)

lemma end_of_session:
  fixes e :: env and now :: millis and why :: match_end_reason
  assumes w: "winv w" and t: "tracks (w_store w) s"
  defines "w1 \<equiv> end_of_session e now s why w"
  shows "\<exists>X. X \<subseteq> {socketId s} \<and> inv_but X (w_uuid w) (w_store w1) \<and> free X (w_store w1) (socketId s)"
    and "w_uuid w1 = w_uuid w \<and> w_starts w1 = w_starts w \<and> w_media w1 = w_media w"
    and "undecided (w_store w1)" and "fades (w_store w) (w_store w1)"
    and "getSession (w_store w) k \<noteq> None \<Longrightarrow> getSession (w_store w1) k \<noteq> None"
    and "getSession (w_store w1) (socketId s) = getSession (w_store w) (socketId s)"
proof -
  note I = winv_parts(1) [OF w]
  let ?k = "socketId s"
  obtain x where x: "getSession (w_store w) ?k = Some x" "deviceId s = deviceId x"
      "roomId s = roomId x \<or> roomId x = None \<and> (\<forall>r. roomId s = Some r \<longrightarrow> getRoom (w_store w) r = None)"
    using t by (auto simp: tracks_def)
  have "(\<exists>X. X \<subseteq> {?k} \<and> inv_but X (w_uuid w) (w_store w1) \<and> free X (w_store w1) ?k) \<and>
      (w_uuid w1 = w_uuid w \<and> w_starts w1 = w_starts w \<and> w_media w1 = w_media w) \<and>
      undecided (w_store w1) \<and> fades (w_store w) (w_store w1) \<and>
      (getSession (w_store w) k \<noteq> None \<longrightarrow> getSession (w_store w1) k \<noteq> None) \<and>
      getSession (w_store w1) ?k = getSession (w_store w) ?k"
  proof (cases "roomId x")
    case None
    then have "w1 = w" using x(3) by (auto simp: w1_def end_of_session_def room_of_def split: option.split)
    moreover have "free {} (w_store w) ?k" using x(1) None by (auto simp: free_def)
    ultimately show ?thesis using I winv_parts(2) [OF w] by (intro conjI exI [of _ "{}"]) auto
  next
    case (Some rid)
    have rs: "roomId s = Some rid" using x(3) Some by auto
    obtain rm i where rm: "getRoom (w_store w) rid = Some rm" "pick i (members rm) = ?k"
      using seatedD [OF winv_parts(6) [OF w] x(1) _ Some] by blast
    have id: "room_id rm = rid" and ne: "fst (members rm) \<noteq> snd (members rm)"
      using rooms_okD(1,4) [OF winv_parts(7) [OF w] rm(1)] by simp_all
    have rm': "getRoom (w_store w) (room_id rm) = Some rm" using rm(1) id by simp
    let ?rs = "reasons_for i None (Some why)"
    have w1: "w1 = endRoomLocked e now rm ?rs w"
      using rs rm(1) index_of_members [OF ne rm(2)] by (simp add: w1_def end_of_session_def room_of_def)
    have l: "loose rm ?rs = {?k}" using rm(2) by (cases i) (simp_all add: loose_def reasons_for_def pick_pair)
    have kept: "getSession (w_store w1) ?k = Some x"
      using end_room(7) [OF I rm', of i ?rs e now] rm(2) x(1) by (simp add: w1)
    have "getSession (w_store w1) k \<noteq> None" if "getSession (w_store w) k \<noteq> None" for k
    proof (cases "k = pick (other i) (members rm)")
      case True
      then show ?thesis using end_room(8) [OF I rm', of "other i" ?rs e now] by (auto simp: w1)
    next
      case False
      then have "k = ?k \<or> (k \<noteq> fst (members rm) \<and> k \<noteq> snd (members rm))" using rm(2) by (cases i) (auto simp: pick_pair)
      then show ?thesis using kept that end_room(6) [OF I rm', of k e now ?rs] by (auto simp: w1)
    qed
    moreover have "free {?k} (w_store w1) ?k" using kept by (simp add: free_def)
    ultimately show ?thesis
      using end_room(1-4) [OF I rm', where e = e and now = now and reasons = ?rs] l end_room_undecided [OF I rm' winv_parts(2) [OF w]]
        end_room_fades [OF I rm', of e now ?rs] kept x(1)
      by (intro conjI exI [of _ "{?k}"]) (simp_all add: w1)
  qed
  then show "\<exists>X. X \<subseteq> {?k} \<and> inv_but X (w_uuid w) (w_store w1) \<and> free X (w_store w1) ?k"
    and "w_uuid w1 = w_uuid w \<and> w_starts w1 = w_starts w \<and> w_media w1 = w_media w"
    and "undecided (w_store w1)" and "fades (w_store w) (w_store w1)"
    and "getSession (w_store w) k \<noteq> None \<Longrightarrow> getSession (w_store w1) k \<noteq> None"
    and "getSession (w_store w1) ?k = getSession (w_store w) ?k"
    by blast+
qed

lemma drop_fades: "fades m (drop_session x m)"
  by (auto simp: fades_def)

lemma remove_session:
  fixes e :: env and now :: millis and why :: match_end_reason
  assumes w: "winv w" and t: "tracks (w_store w) s"
  defines "w' \<equiv> removeSessionLocked e now s why w"
  shows "winv w'"
    and "w_uuid w' = w_uuid w" "w_starts w' = w_starts w" "w_media w' = w_media w"
    and "getSession (w_store w') (socketId s) = None"
    and "k \<noteq> socketId s \<Longrightarrow> getSession (w_store w) k \<noteq> None \<Longrightarrow> getSession (w_store w') k \<noteq> None"
    and "fades (w_store w) (w_store w')"
proof -
  define w1 where "w1 = end_of_session e now s why w"
  note E = end_of_session [OF w t, where e = e and now = now and why = why, folded w1_def]
  obtain X where X: "X \<subseteq> {socketId s}" "inv_but X (w_uuid w) (w_store w1)" "free X (w_store w1) (socketId s)"
    using E(1) by blast
  have st: "w_store w' = drop_session s (w_store w1)" "w_uuid w' = w_uuid w1" "w_starts w' = w_starts w1" "w_media w' = w_media w1"
    unfolding w'_def w1_def by (rule remove_store)+
  obtain x where x: "getSession (w_store w1) (socketId s) = Some x" "deviceId s = deviceId x"
    using t E(6) by (auto simp: tracks_def)
  have "X - {socketId s} = {}" using X(1) by auto
  then have "inv_but {} (w_uuid w) (w_store w')"
    using drop_session_inv [OF X(2,3) x(1) refl x(2)] by (simp only: st)
  moreover have "undecided (w_store w')" using E(3) by (simp add: st undecided_def)
  ultimately show "winv w'" using E(2) by (simp add: winv_def st)
  show "w_uuid w' = w_uuid w" "w_starts w' = w_starts w" "w_media w' = w_media w" using E(2) by (simp_all add: st)
  show "getSession (w_store w') (socketId s) = None" by (simp add: st)
  show "k \<noteq> socketId s \<Longrightarrow> getSession (w_store w) k \<noteq> None \<Longrightarrow> getSession (w_store w') k \<noteq> None"
    using E(5) [of k] by (simp add: st)
  show "fades (w_store w) (w_store w')" unfolding st by (rule fades_trans [OF E(4) drop_fades])
qed

end
