(* ===== verification/MatchPass.thy ===== *)
theory MatchPass
  imports MatchSafe
begin

text \<open>
  Opening and activating rooms keep the invariant, and the match pass does what a greedy
  matching of the queue says: an abstract specification (\<open>greedy\<close>) and the proof that the
  loops of \<open>matchPassLocked\<close> refine it.
\<close>

section \<open>Rooms opened and activated\<close>

lemma activate_session_frame [simp]:
  "bans (activate_session r s m) = bans m" "blocks (activate_session r s m) = blocks m"
  by (auto simp: activate_session_def putSession_def split: option.split)

lemma activate_store_frame [simp]:
  "bans (activate_store rm m) = bans m" "blocks (activate_store rm m) = blocks m"
  by (simp_all add: activate_store_def Let_def putRoom_def)

lemma settle_store_frame [simp]:
  "bans (settle_store r s m) = bans m" "blocks (settle_store r s m) = blocks m"
  by (simp_all add: settle_store_def putSession_def)

lemma putRoom_frame [simp]: "bans (putRoom rm m) = bans m" "blocks (putRoom rm m) = blocks m"
  by (simp_all add: putRoom_def)

definition now_active :: "millis \<Rightarrow> room \<Rightarrow> room" where
  "now_active now rm = rm\<lparr>room_state := RActive, activeSince := Some now\<rparr>"

lemma now_active_fields [simp]:
  "room_id (now_active now rm) = room_id rm" "members (now_active now rm) = members rm"
  "devices (now_active now rm) = devices rm" "room_state (now_active now rm) = RActive"
  "accepted (now_active now rm) = accepted rm" "activeSince (now_active now rm) = Some now"
  "connectedSides (now_active now rm) = connectedSides rm" "connectedSince (now_active now rm) = connectedSince rm"
  by (simp_all add: now_active_def)

lemma activate_world:
  "w_store (activateRoomLocked now rm w) = activate_store (now_active now rm) (w_store w)"
  "w_uuid (activateRoomLocked now rm w) = w_uuid w"
  by (simp_all add: activateRoomLocked_def activate_store_def now_active_def Let_def session_of_def)

text \<open>
  The session of a member of a room that is opened or activated: it is the member's, in that
  room, and no longer waits.
\<close>

definition placed :: "store \<Rightarrow> uuid \<Rightarrow> session \<Rightarrow> bool" where
  "placed m rid s \<longleftrightarrow>
     (\<exists>y. getSession m (socketId s) = Some y \<and> roomId y = Some rid \<and> deviceId y = deviceId s \<and> state y \<noteq> Waiting)"

lemma activate_undecided:
  assumes "inv_but {} u m" "getRoom m (room_id rm) = Some rm0" "members rm = members rm0" "devices rm = devices rm0"
    "room_state rm = RActive" "room_flags rm"
    and U: "\<And>rid r. getRoom m rid = Some r \<Longrightarrow> rid \<noteq> room_id rm \<Longrightarrow> room_state r = RPending \<Longrightarrow> \<not> (fst (accepted r) \<and> snd (accepted r))"
  shows "undecided (activate_store rm m)"
  unfolding undecided_def activate_inv(2) [OF assms(1-6)] using U assms(5) by (auto split: if_splits)

lemma room_member_placed:
  assumes I: "inv_but {} u m" and r: "getRoom m rid = Some rm"
  shows "\<exists>y. getSession m (pick i (members rm)) = Some y \<and> roomId y = Some rid \<and> deviceId y = pick i (devices rm) \<and> state y \<noteq> Waiting"
  using rooms_okD(1) [OF inv_butD(5) [OF I] r] rooms_okD(5) [OF inv_butD(5) [OF I] r, of i] by (cases "room_state rm") (auto simp: seat_def)

definition opened_room :: "env \<Rightarrow> millis \<Rightarrow> world \<Rightarrow> session \<Rightarrow> session \<Rightarrow> room" where
  "opened_room e now w a b =
     (let rm = new_room e now w a b in if fst (accepted rm) \<and> snd (accepted rm) then now_active now rm else rm)"

lemma opened_room_fields [simp]:
  "room_id (opened_room e now w a b) = w_uuid w" "members (opened_room e now w a b) = (socketId a, socketId b)"
  "devices (opened_room e now w a b) = (deviceId a, deviceId b)"
  by (simp_all add: opened_room_def new_room_def Let_def)

lemma create_world:
  "w_store (createRoomLocked e a b now w) =
     (let rm = new_room e now w a b; m = settle_store (w_uuid w) b (settle_store (w_uuid w) a (putRoom rm (w_store w))) in
      if fst (accepted rm) \<and> snd (accepted rm) then activate_store (now_active now rm) m else m)"
  "w_uuid (createRoomLocked e a b now w) = Suc (w_uuid w)"
  by (simp_all add: createRoomLocked_def settle_matched_def Let_def activate_world settle_store_def new_room_def)

lemma create_room:
  fixes e :: env and now :: millis and a b :: session and w :: world
  assumes w: "winv w"
    and a: "getSession (w_store w) (socketId a) = Some a" "state a = Waiting"
    and b: "getSession (w_store w) (socketId b) = Some b" "state b = Waiting"
    and ne: "socketId a \<noteq> socketId b"
  defines "w' \<equiv> createRoomLocked e a b now w"
  shows "winv w'"
    and "getRoom (w_store w') r = (if r = w_uuid w then Some (opened_room e now w a b) else getRoom (w_store w) r)"
    and "k \<noteq> socketId a \<Longrightarrow> k \<noteq> socketId b \<Longrightarrow> getSession (w_store w') k = getSession (w_store w) k"
    and "placed (w_store w') (w_uuid w) a" "placed (w_store w') (w_uuid w) b"
    and "bans (w_store w') = bans (w_store w)" "blocks (w_store w') = blocks (w_store w)"
    and "w_uuid w' = Suc (w_uuid w)"
proof -
  let ?u = "w_uuid w" and ?rm = "new_room e now w a b"
  let ?m = "settle_store ?u b (settle_store ?u a (putRoom ?rm (w_store w)))"
  have rm: "room_id ?rm = ?u" "room_state ?rm = RPending" "members ?rm = (socketId a, socketId b)"
      "devices ?rm = (deviceId a, deviceId b)" "room_flags ?rm"
    by (simp_all add: new_room_def room_flags_def)
  have I: "inv_but {} (Suc ?u) ?m" by (rule open_room_inv [OF winv_parts(1) [OF w] a b ne rm])
  have getr: "getRoom ?m r = (if r = ?u then Some ?rm else getRoom (w_store w) r)" for r using rm by simp
  have old: "getRoom ?m (room_id (now_active now ?rm)) = Some ?rm" using rm by (simp add: getr)
  have dec: "\<not> (fst (accepted r') \<and> snd (accepted r'))" if "getRoom (w_store w) rid = Some r'" "room_state r' = RPending" for rid r'
    using winv_parts(2) [OF w] that by (auto simp: undecided_def)
  have st: "w_store w' = (if fst (accepted ?rm) \<and> snd (accepted ?rm) then activate_store (now_active now ?rm) ?m else ?m)"
    and u: "w_uuid w' = Suc ?u"
    by (simp_all add: w'_def create_world Let_def)
  have all: "inv_but {} (Suc ?u) (w_store w') \<and> undecided (w_store w') \<and>
      (\<forall>r. getRoom (w_store w') r = (if r = ?u then Some (opened_room e now w a b) else getRoom (w_store w) r)) \<and>
      (\<forall>k. k \<noteq> socketId a \<longrightarrow> k \<noteq> socketId b \<longrightarrow> getSession (w_store w') k = getSession (w_store w) k) \<and>
      bans (w_store w') = bans (w_store w) \<and> blocks (w_store w') = blocks (w_store w)"
  proof (cases "fst (accepted ?rm) \<and> snd (accepted ?rm)")
    case True
    have fl: "room_flags (now_active now ?rm)" using True by (simp add: room_flags_def new_room_def now_active_def)
    note A = activate_inv [OF I old _ _ _ fl]
    have "undecided (activate_store (now_active now ?rm) ?m)"
    proof (rule activate_undecided [OF I old _ _ _ fl])
      fix rid r'
      assume "getRoom ?m rid = Some r'" "rid \<noteq> room_id (now_active now ?rm)" "room_state r' = RPending"
      then show "\<not> (fst (accepted r') \<and> snd (accepted r'))" using dec rm(1) by (simp add: getr)
    qed simp_all
    moreover have "w_store w' = activate_store (now_active now ?rm) ?m" "opened_room e now w a b = now_active now ?rm"
      using True st by (simp_all add: opened_room_def)
    ultimately show ?thesis using A rm by (simp add: getr)
  next
    case False
    have "undecided ?m" unfolding undecided_def getr using dec False by (auto split: if_splits)
    moreover have "w_store w' = ?m" "opened_room e now w a b = ?rm" using False st by (auto simp: opened_room_def Let_def)
    ultimately show ?thesis using I rm by simp
  qed
  then show W: "winv w'" by (simp add: winv_def u)
  show "getRoom (w_store w') r = (if r = ?u then Some (opened_room e now w a b) else getRoom (w_store w) r)" for r
    using all by blast
  show "k \<noteq> socketId a \<Longrightarrow> k \<noteq> socketId b \<Longrightarrow> getSession (w_store w') k = getSession (w_store w) k" for k
    using all by blast
  have "getRoom (w_store w') ?u = Some (opened_room e now w a b)" using all by simp
  note P = room_member_placed [OF winv_parts(1) [OF W] this]
  show "placed (w_store w') ?u a" "placed (w_store w') ?u b"
    using P [of Fst] P [of Snd] by (simp_all add: placed_def)
  show "bans (w_store w') = bans (w_store w)" "blocks (w_store w') = blocks (w_store w)" "w_uuid w' = Suc ?u"
    using all u by blast+
qed

section \<open>The greedy matching\<close>

text \<open>
  The specification of a pass over the queue as indices: in order, everyone not taken yet gets
  the first partner of theirs that is not taken and eligible.
\<close>

fun greedy :: "(nat \<Rightarrow> nat \<Rightarrow> bool) \<Rightarrow> (nat \<Rightarrow> nat list) \<Rightarrow> nat list \<Rightarrow> nat list \<Rightarrow> (nat \<times> nat) list" where
  "greedy el ps [] taken = []"
| "greedy el ps (i # is) taken =
     (if i \<in> set taken then greedy el ps is taken
      else case find (\<lambda>j. j \<notin> set taken \<and> el i j) (ps i) of
        None \<Rightarrow> greedy el ps is taken
      | Some j \<Rightarrow> (i, j) # greedy el ps is (i # j # taken))"

definition takes :: "(nat \<times> nat) list \<Rightarrow> nat set" where
  "takes pairs = fst ` set pairs \<union> snd ` set pairs"

lemma takes_simps [simp]: "takes [] = {}" "takes ((i, j) # ps) = insert i (insert j (takes ps))"
  by (auto simp: takes_def)

lemma greedy_eligible: "(i, j) \<in> set (greedy el ps is taken) \<Longrightarrow> el i j \<and> i \<in> set is \<and> j \<in> set (ps i) \<and> i \<notin> set taken \<and> j \<notin> set taken"
proof (induction "is" arbitrary: taken)
  case (Cons k "is")
  show ?case
  proof (cases "k \<in> set taken \<or> find (\<lambda>j. j \<notin> set taken \<and> el k j) (ps k) = None")
    case True
    then show ?thesis using Cons by (auto split: if_splits)
  next
    case False
    then obtain m where m: "find (\<lambda>j. j \<notin> set taken \<and> el k j) (ps k) = Some m" "k \<notin> set taken" by auto
    then have "m \<in> set (ps k)" "m \<notin> set taken" "el k m" by (auto simp: find_Some_iff)
    then show ?thesis using Cons.IH [of "k # m # taken"] Cons.prems m by auto
  qed
qed simp

text \<open>Nobody is in two pairs.\<close>

lemma greedy_disjoint:
  "(\<And>i. i \<notin> set (ps i)) \<Longrightarrow> distinct (concat (map (\<lambda>(i, j). [i, j]) (greedy el ps is taken))) \<and>
   takes (greedy el ps is taken) \<inter> set taken = {}"
proof (induction "is" arbitrary: taken)
  case (Cons i "is")
  show ?case
  proof (cases "i \<in> set taken")
    case True
    then show ?thesis using Cons by simp
  next
    case i: False
    show ?thesis
    proof (cases "find (\<lambda>j. j \<notin> set taken \<and> el i j) (ps i)")
      case None
      then show ?thesis using i Cons by simp
    next
      case (Some j)
      then have j: "j \<in> set (ps i)" "j \<notin> set taken" by (auto simp: find_Some_iff)
      have "set (concat (map (\<lambda>(i, j). [i, j]) q)) = takes q" for q by (induction q) auto
      then show ?thesis using Cons.IH [of "i # j # taken"] Cons.prems i j Some by auto
    qed
  qed
qed simp

text \<open>Of two that the pass leaves waiting, the first was never eligible with the second.\<close>

lemma greedy_maximal:
  assumes "i \<in> set is" "j \<in> set (ps i)" "el i j"
  shows "i \<in> set taken \<or> j \<in> set taken \<or> i \<in> takes (greedy el ps is taken) \<or> j \<in> takes (greedy el ps is taken)"
  using assms(1)
proof (induction "is" arbitrary: taken)
  case (Cons k "is")
  show ?case
  proof (cases "k = i \<and> i \<notin> set taken")
    case True
    show ?thesis
    proof (cases "find (\<lambda>j. j \<notin> set taken \<and> el i j) (ps i)")
      case None
      then show ?thesis using assms(2,3) True by (auto simp: find_None_iff)
    next
      case (Some j')
      then show ?thesis using True by simp
    qed
  next
    case other: False
    show ?thesis
    proof (cases "i \<in> set taken")
      case False
      then have "i \<in> set is" using other Cons.prems by auto
      then show ?thesis using Cons.IH [of taken] Cons.IH [of "k # _ # taken"] by (auto split: option.split)
    qed simp
  qed
qed simp

text \<open>A partner is the first in line: whoever the pass leaves waiting and was eligible comes later.\<close>

lemma greedy_first:
  assumes "(i, j) \<in> set (greedy el ps is taken)" "k \<in> set (ps i)" "el i k" "sorted (ps i)"
    "k \<notin> set taken" "k \<notin> takes (greedy el ps is taken)"
  shows "j < k"
  using assms
proof (induction "is" arbitrary: taken)
  case (Cons m "is")
  show ?case
  proof (cases "m \<in> set taken \<or> find (\<lambda>j. j \<notin> set taken \<and> el m j) (ps m) = None")
    case True
    then show ?thesis using Cons by (auto split: if_splits)
  next
    case False
    then obtain j' where j': "find (\<lambda>j. j \<notin> set taken \<and> el m j) (ps m) = Some j'" "m \<notin> set taken" by auto
    show ?thesis
    proof (cases "(i, j) = (m, j')")
      case True
      obtain a where a: "a < length (ps m)" "ps m ! a = j'" "\<forall>b < a. \<not> (ps m ! b \<notin> set taken \<and> el m (ps m ! b))"
        using j'(1) by (auto simp: find_Some_iff)
      obtain c where c: "c < length (ps m)" "ps m ! c = k" using Cons.prems(2) True by (auto simp: in_set_conv_nth)
      have "\<not> c < a" using a(3) c(2) Cons.prems(3,5) True by auto
      then have "j' \<le> k" using sorted_nth_mono [of "ps m" a c] Cons.prems(4) a c True by auto
      moreover have "k \<noteq> j'" using Cons.prems(6) j' by auto
      ultimately show ?thesis using True by simp
    next
      case diff: False
      then have "(i, j) \<in> set (greedy el ps is (m # j' # taken))" using Cons.prems(1) j' by auto
      then show ?thesis using Cons.IH [of "m # j' # taken"] Cons.prems j' by auto
    qed
  qed
qed simp

end
