(* ===== verification/MatchGreedy.thy ===== *)
theory MatchGreedy
  imports MatchPass
begin

text \<open>
  The loops of \<open>matchPassLocked\<close> carry out the greedy matching: for every pair of the
  specification a room is opened, in order, and nobody else's session changes.
\<close>

section \<open>How a world may evolve\<close>

text \<open>
  The rooms of the calls whose media is being fetched or is about to be announced. A room of the
  same id has the same members for good, so a job made for a room stays right about them.
\<close>

definition jobs :: "world \<Rightarrow> room set" where
  "jobs w = fst ` set (w_starts w) \<union> fst ` set (w_media w)"

lemma jobs_frame [simp, frame_simps]:
  "jobs (w\<lparr>w_store := m\<rparr>) = jobs w" "jobs (w\<lparr>w_wallet := u\<rparr>) = jobs w" "jobs (w\<lparr>w_flags := f\<rparr>) = jobs w"
  "jobs (w\<lparr>w_kv := k\<rparr>) = jobs w" "jobs (w\<lparr>w_sig := g\<rparr>) = jobs w" "jobs (w\<lparr>w_turn := t\<rparr>) = jobs w"
  "jobs (w\<lparr>w_enf := en\<rparr>) = jobs w" "jobs (w\<lparr>w_local := l\<rparr>) = jobs w" "jobs (w\<lparr>w_photoBytes := pb\<rparr>) = jobs w"
  "jobs (w\<lparr>w_photoTotal := pt\<rparr>) = jobs w" "jobs (w\<lparr>w_relaxing := rx\<rparr>) = jobs w" "jobs (w\<lparr>w_online := n\<rparr>) = jobs w"
  "jobs (w\<lparr>w_lastOnlineAt := t1\<rparr>) = jobs w" "jobs (w\<lparr>w_dirty := ds\<rparr>) = jobs w" "jobs (w\<lparr>w_wakeAt := wk\<rparr>) = jobs w"
  "jobs (w\<lparr>w_stopped := b\<rparr>) = jobs w" "jobs (w\<lparr>w_lastRecheckAt := t2\<rparr>) = jobs w" "jobs (w\<lparr>w_recheckCursor := c\<rparr>) = jobs w"
  "jobs (w\<lparr>w_lastReapAt := t3\<rparr>) = jobs w" "jobs (w\<lparr>w_uuid := i\<rparr>) = jobs w" "jobs (w\<lparr>w_out := out\<rparr>) = jobs w"
  by (simp_all add: jobs_def)

lemma jobs_ops [simp, frame_simps]:
  "jobs (emit s ev w) = jobs w" "jobs (ack s a w) = jobs w" "jobs (disconnect_socket s w) = jobs w"
  "jobs (mark_dirty s w) = jobs w" "jobs (on_match f w) = jobs w"
  by (simp_all add: jobs_def)

definition same_pair :: "room \<Rightarrow> room \<Rightarrow> bool" where
  "same_pair rm rm' \<longleftrightarrow> members rm = members rm' \<and> devices rm = devices rm'"

definition evolves :: "world \<Rightarrow> world \<Rightarrow> bool" where
  "evolves w w' \<longleftrightarrow>
     w_uuid w \<le> w_uuid w' \<and>
     (\<forall>r cur'. r < w_uuid w \<longrightarrow> getRoom (w_store w') r = Some cur' \<longrightarrow> (\<exists>cur. getRoom (w_store w) r = Some cur \<and> same_pair cur' cur)) \<and>
     (\<forall>rm \<in> jobs w'. rm \<in> jobs w \<or>
        (room_id rm < w_uuid w' \<and> (\<forall>cur. getRoom (w_store w') (room_id rm) = Some cur \<longrightarrow> same_pair cur rm)))"

lemma evolves_refl [simp]: "evolves w w"
  by (auto simp: evolves_def same_pair_def)

lemma evolvesD:
  assumes "evolves w w'"
  shows "w_uuid w \<le> w_uuid w'"
    and "r < w_uuid w \<Longrightarrow> getRoom (w_store w') r = Some c \<Longrightarrow> \<exists>b. getRoom (w_store w) r = Some b \<and> same_pair c b"
    and "rm \<in> jobs w' \<Longrightarrow> rm \<notin> jobs w \<Longrightarrow> room_id rm < w_uuid w'"
    and "rm \<in> jobs w' \<Longrightarrow> rm \<notin> jobs w \<Longrightarrow> getRoom (w_store w') (room_id rm) = Some c \<Longrightarrow> same_pair c rm"
  using assms unfolding evolves_def by blast+

lemma same_pair_trans: "same_pair a b \<Longrightarrow> same_pair b c \<Longrightarrow> same_pair a c"
  by (simp add: same_pair_def)

lemma evolves_trans:
  assumes 1: "evolves w1 w2" and 2: "evolves w2 w3"
  shows "evolves w1 w3"
proof -
  have u: "w_uuid w1 \<le> w_uuid w2" "w_uuid w2 \<le> w_uuid w3" using evolvesD(1) [OF 1] evolvesD(1) [OF 2] .
  have earlier: "\<exists>cur. getRoom (w_store w1) r = Some cur \<and> same_pair c cur" if r: "r < w_uuid w1" "getRoom (w_store w3) r = Some c" for r c
  proof -
    have "r < w_uuid w2" using r u by simp
    from evolvesD(2) [OF 2 this r(2)] obtain b where b: "getRoom (w_store w2) r = Some b" "same_pair c b" by blast
    from evolvesD(2) [OF 1 r(1) b(1)] same_pair_trans [OF b(2)] show ?thesis by blast
  qed
  have "rm \<in> jobs w1 \<or> (room_id rm < w_uuid w3 \<and> (\<forall>cur. getRoom (w_store w3) (room_id rm) = Some cur \<longrightarrow> same_pair cur rm))"
    if rm: "rm \<in> jobs w3" for rm
  proof (cases "rm \<in> jobs w2")
    case False
    then show ?thesis using evolvesD(3,4) [OF 2 rm] by blast
  next
    case True
    show ?thesis
    proof (cases "rm \<in> jobs w1")
      case False
      note n = evolvesD(3,4) [OF 1 True False]
      have "same_pair cur rm" if c: "getRoom (w_store w3) (room_id rm) = Some cur" for cur
        using evolvesD(2) [OF 2 n(1) c] n(2) same_pair_trans by blast
      then show ?thesis using n(1) u by simp
    qed simp
  qed
  then show ?thesis using u earlier unfolding evolves_def by (meson order_trans)
qed

lemma evolves_frame:
  assumes "w_store w' = w_store w" "w_uuid w' = w_uuid w" "jobs w' \<subseteq> jobs w"
  shows "evolves w w'"
  using assms by (auto simp: evolves_def same_pair_def)

lemma create_jobs:
  "\<exists>k. w_starts (createRoomLocked e a b now w) = w_starts w @
     (if fst (accepted (new_room e now w a b)) \<and> snd (accepted (new_room e now w a b))
      then [(now_active now (new_room e now w a b), k)] else [])"
  "w_media (createRoomLocked e a b now w) = w_media w"
  by (simp_all add: createRoomLocked_def Let_def settle_matched_def activateRoomLocked_def now_active_def)

lemma create_evolves:
  assumes "winv w" "getSession (w_store w) (socketId a) = Some a" "state a = Waiting"
    "getSession (w_store w) (socketId b) = Some b" "state b = Waiting" "socketId a \<noteq> socketId b"
  shows "evolves w (createRoomLocked e a b now w)"
proof -
  note C = create_room [OF assms, where e = e and now = now]
  let ?w = "createRoomLocked e a b now w"
  have "rm \<in> jobs w \<or> (room_id rm < w_uuid ?w \<and> (\<forall>cur. getRoom (w_store ?w) (room_id rm) = Some cur \<longrightarrow> same_pair cur rm))"
    if "rm \<in> jobs ?w" for rm
  proof -
    have "rm \<in> jobs w \<or> rm = now_active now (new_room e now w a b)"
      using that create_jobs(1) [of e a b now w] create_jobs(2) [of e a b now w] by (auto simp: jobs_def split: if_splits)
    moreover have "room_id (new_room e now w a b) = w_uuid w" "members (new_room e now w a b) = (socketId a, socketId b)"
      "devices (new_room e now w a b) = (deviceId a, deviceId b)" by (simp_all add: new_room_def)
    ultimately show ?thesis using C(2,8) by (auto simp: same_pair_def)
  qed
  then show ?thesis using C(2,8) unfolding evolves_def by (auto simp: same_pair_def)
qed

section \<open>The state of a pass\<close>

text \<open>The pairs that may be matched, read once at the start of the pass.\<close>

definition eligible :: "millis \<Rightarrow> world \<Rightarrow> session list \<Rightarrow> int list \<Rightarrow> nat \<Rightarrow> nat \<Rightarrow> bool" where
  "eligible now w ws steps i j \<longleftrightarrow>
     may_pair (steps ! i) (steps ! j) (ws ! i) (ws ! j) \<and> \<not> is_banned now w (deviceId (ws ! i)) \<and>
     \<not> is_banned now w (deviceId (ws ! j)) \<and> blocked_until now w (ws ! i) (ws ! j) = None"

text \<open>A queue as the pass reads it: stored sessions that wait, each once.\<close>

definition queue_of :: "store \<Rightarrow> session list \<Rightarrow> bool" where
  "queue_of m ws \<longleftrightarrow>
     distinct (map socketId ws) \<and> (\<forall>s \<in> set ws. getSession m (socketId s) = Some s \<and> state s = Waiting)"

text \<open>The room opened for a pair.\<close>

definition room_for :: "world \<Rightarrow> uuid \<Rightarrow> session \<Rightarrow> session \<Rightarrow> bool" where
  "room_for w rid a b \<longleftrightarrow>
     (\<exists>rm. getRoom (w_store w) rid = Some rm \<and> members rm = (socketId a, socketId b) \<and> devices rm = (deviceId a, deviceId b)) \<and>
     placed (w_store w) rid a \<and> placed (w_store w) rid b"

text \<open>Where a pass that started at \<open>w0\<close> stands after the given pairs.\<close>

definition paired :: "world \<Rightarrow> session list \<Rightarrow> (nat \<times> nat) list \<Rightarrow> world \<Rightarrow> bool" where
  "paired w0 ws pairs w \<longleftrightarrow>
     winv w \<and> evolves w0 w \<and> bans (w_store w) = bans (w_store w0) \<and> blocks (w_store w) = blocks (w_store w0) \<and>
     w_uuid w = w_uuid w0 + length pairs \<and>
     (\<forall>s. (\<forall>k \<in> takes pairs. s \<noteq> socketId (ws ! k)) \<longrightarrow> getSession (w_store w) s = getSession (w_store w0) s) \<and>
     (\<forall>r. r < w_uuid w0 \<longrightarrow> getRoom (w_store w) r = getRoom (w_store w0) r) \<and>
     (\<forall>n < length pairs. room_for w (w_uuid w0 + n) (ws ! fst (pairs ! n)) (ws ! snd (pairs ! n)))"

lemma takes_append [simp]: "takes (xs @ ys) = takes xs \<union> takes ys"
  by (auto simp: takes_def)

lemma socket_index:
  "queue_of m ws \<Longrightarrow> i < length ws \<Longrightarrow> j < length ws \<Longrightarrow> socketId (ws ! i) = socketId (ws ! j) \<longleftrightarrow> i = j"
  by (auto simp: queue_of_def distinct_conv_nth)

lemma pairedD:
  assumes "paired w0 ws pairs w"
  shows "winv w" "bans (w_store w) = bans (w_store w0)" "blocks (w_store w) = blocks (w_store w0)"
    "w_uuid w = w_uuid w0 + length pairs"
    "(\<And>k. k \<in> takes pairs \<Longrightarrow> s \<noteq> socketId (ws ! k)) \<Longrightarrow> getSession (w_store w) s = getSession (w_store w0) s"
    "r < w_uuid w0 \<Longrightarrow> getRoom (w_store w) r = getRoom (w_store w0) r"
    "n < length pairs \<Longrightarrow> room_for w (w_uuid w0 + n) (ws ! fst (pairs ! n)) (ws ! snd (pairs ! n))"
    "evolves w0 w"
  using assms unfolding paired_def by blast+

lemma paired_start: "winv w \<Longrightarrow> paired w ws [] w"
  by (simp add: paired_def)

lemma paired_cong:
  assumes "paired w0 ws pairs w" "w_store w' = w_store w" "w_uuid w' = w_uuid w" "jobs w' = jobs w"
  shows "paired w0 ws pairs w'"
proof -
  have "evolves w w'" using assms by (intro evolves_frame) simp_all
  then show ?thesis
    using assms(1-3) winv_store_eq [OF assms(2,3)] evolves_trans [of w0 w w'] by (simp add: paired_def room_for_def)
qed

lemma note_wake_frame [simp, frame_simps]:
  "w_store (note_wake s t w) = w_store w" "w_uuid (note_wake s t w) = w_uuid w" "jobs (note_wake s t w) = jobs w"
  by (simp_all add: note_wake_def split: option.split)

lemma untaken_kept:
  assumes q: "queue_of (w_store w0) ws" and p: "paired w0 ws pairs w" and k: "k < length ws" "k \<notin> takes pairs"
    and small: "\<forall>n \<in> takes pairs. n < length ws"
  shows "getSession (w_store w) (socketId (ws ! k)) = Some (ws ! k)" "state (ws ! k) = Waiting"
proof -
  have "ws ! k \<in> set ws" using k(1) by simp
  then have old: "getSession (w_store w0) (socketId (ws ! k)) = Some (ws ! k)" and st: "state (ws ! k) = Waiting"
    using q by (auto simp: queue_of_def)
  have "socketId (ws ! k) \<noteq> socketId (ws ! n)" if "n \<in> takes pairs" for n
    using socket_index [OF q k(1), of n] that k(2) small by auto
  then show "getSession (w_store w) (socketId (ws ! k)) = Some (ws ! k)" using pairedD(5) [OF p] old by metis
  show "state (ws ! k) = Waiting" by (rule st)
qed

text \<open>Opening the next room.\<close>

lemma paired_next:
  assumes q: "queue_of (w_store w0) ws" and p: "paired w0 ws pairs w" and small: "\<forall>n \<in> takes pairs. n < length ws"
    and i: "i < length ws" "i \<notin> takes pairs" and j: "j < length ws" "j \<notin> takes pairs" and ne: "i \<noteq> j"
  shows "paired w0 ws (pairs @ [(i, j)]) (createRoomLocked e (ws ! i) (ws ! j) now w)"
proof -
  let ?a = "ws ! i" and ?b = "ws ! j" and ?w = "createRoomLocked e (ws ! i) (ws ! j) now w"
  note A = untaken_kept [OF q p i small] and B = untaken_kept [OF q p j small] and P = pairedD [OF p]
  have d: "socketId ?a \<noteq> socketId ?b" using socket_index [OF q i(1) j(1)] ne by simp
  note C = create_room [OF P(1) A B d, where e = e and now = now]
  have sess: "getSession (w_store ?w) s = getSession (w_store w0) s" if "\<forall>k \<in> takes (pairs @ [(i, j)]). s \<noteq> socketId (ws ! k)" for s
    using C(3) [of s] P(5) [of s] that by auto
  have old: "room_for ?w (w_uuid w0 + n) (ws ! fst (pairs ! n)) (ws ! snd (pairs ! n))" if n: "n < length pairs" for n
  proof -
    let ?x = "fst (pairs ! n)" and ?y = "snd (pairs ! n)"
    have t: "?x \<in> takes pairs" "?y \<in> takes pairs" using n by (auto simp: takes_def)
    have xy: "?x < length ws" "?y < length ws" using t small by auto
    have "socketId (ws ! k) \<noteq> socketId ?a \<and> socketId (ws ! k) \<noteq> socketId ?b" if "k \<in> takes pairs" for k
      using socket_index [OF q _ i(1), of k] socket_index [OF q _ j(1), of k] small that i(2) j(2) by auto
    then have "getSession (w_store ?w) (socketId (ws ! ?x)) = getSession (w_store w) (socketId (ws ! ?x))"
      "getSession (w_store ?w) (socketId (ws ! ?y)) = getSession (w_store w) (socketId (ws ! ?y))"
      using t C(3) by auto
    moreover have "getRoom (w_store ?w) (w_uuid w0 + n) = getRoom (w_store w) (w_uuid w0 + n)" using C(2) P(4) n by simp
    ultimately show ?thesis using P(7) [OF n] by (simp add: room_for_def placed_def)
  qed
  have new: "room_for ?w (w_uuid w0 + length pairs) ?a ?b" using C(2) [of "w_uuid w"] C(4,5) P(4) by (simp add: room_for_def)
  have rooms: "room_for ?w (w_uuid w0 + n) (ws ! fst ((pairs @ [(i, j)]) ! n)) (ws ! snd ((pairs @ [(i, j)]) ! n))"
    if "n < length (pairs @ [(i, j)])" for n
    using old [of n] new that by (auto simp: nth_append less_Suc_eq)
  have rest: "getRoom (w_store ?w) r = getRoom (w_store w0) r" if "r < w_uuid w0" for r using C(2) [of r] P(4,6) that by auto
  show ?thesis
    unfolding paired_def
    using C(1,6-8) P(2-4) sess rest rooms evolves_trans [OF P(8) create_evolves [OF P(1) A B d]] by auto
qed

section \<open>The loops\<close>

lemma checks_kept:
  assumes "paired w0 ws pairs w"
  shows "is_banned now w d = is_banned now w0 d" "blocked_until now w a b = blocked_until now w0 a b"
  using pairedD(2,3) [OF assms] by (simp_all add: is_banned_def getBan_def blocked_until_def getBlock_def)

lemma try_partners_refines:
  assumes q: "queue_of (w_store w0) ws"
  shows "paired w0 ws pairs w \<Longrightarrow> \<forall>n \<in> takes pairs. n < length ws \<Longrightarrow> takes pairs = set taken \<Longrightarrow>
    i < length ws \<Longrightarrow> i \<notin> set taken \<Longrightarrow> \<forall>j \<in> set js. j < length ws \<and> j \<noteq> i \<Longrightarrow>
    (case find (\<lambda>j. j \<notin> set taken \<and> eligible now w0 ws steps i j) js of
       None \<Rightarrow> fst (try_partners e now ws steps i js (taken, w)) = taken \<and> paired w0 ws pairs (snd (try_partners e now ws steps i js (taken, w)))
     | Some j \<Rightarrow> fst (try_partners e now ws steps i js (taken, w)) = i # j # taken \<and>
         paired w0 ws (pairs @ [(i, j)]) (snd (try_partners e now ws steps i js (taken, w))))"
proof (induction js arbitrary: w)
  case Nil
  then show ?case by simp
next
  case (Cons j js)
  note K = checks_kept [OF Cons.prems(1), of now]
  have rest: "\<forall>j \<in> set js. j < length ws \<and> j \<noteq> i" using Cons.prems(6) by simp
  note IH = Cons.IH [OF _ Cons.prems(2-5) rest]
  show ?case
  proof (cases "j \<in> set taken \<or> \<not> eligible now w0 ws steps i j")
    case skip: True
    show ?thesis
    proof (cases "j \<notin> set taken \<and> may_pair (steps ! i) (steps ! j) (ws ! i) (ws ! j) \<and> \<not> is_banned now w (deviceId (ws ! i)) \<and>
        \<not> is_banned now w (deviceId (ws ! j))")
      case True
      then obtain t where t: "blocked_until now w (ws ! i) (ws ! j) = Some t" using skip K by (auto simp: eligible_def)
      have "paired w0 ws pairs (note_wake (socketId (ws ! i)) t w)" by (rule paired_cong [OF Cons.prems(1)]) simp_all
      note N = IH [OF this]
      have "try_partners e now ws steps i (j # js) (taken, w) = try_partners e now ws steps i js (taken, note_wake (socketId (ws ! i)) t w)"
        using True t by simp
      moreover have "find (\<lambda>j. j \<notin> set taken \<and> eligible now w0 ws steps i j) (j # js) = find (\<lambda>j. j \<notin> set taken \<and> eligible now w0 ws steps i j) js"
        using skip by auto
      ultimately show ?thesis using N by (simp only:)
    next
      case False
      have "try_partners e now ws steps i (j # js) (taken, w) = try_partners e now ws steps i js (taken, w)"
        using False by (auto simp: Let_def)
      moreover have "find (\<lambda>j. j \<notin> set taken \<and> eligible now w0 ws steps i j) (j # js) = find (\<lambda>j. j \<notin> set taken \<and> eligible now w0 ws steps i j) js"
        using skip by auto
      ultimately show ?thesis using IH [OF Cons.prems(1)] by (simp only:)
    qed
  next
    case False
    then have "j \<notin> takes pairs" "i \<notin> takes pairs" "j < length ws" "i \<noteq> j" using Cons.prems by auto
    then have "paired w0 ws (pairs @ [(i, j)]) (createRoomLocked e (ws ! i) (ws ! j) now w)"
      using paired_next [OF q Cons.prems(1,2)] Cons.prems(4) by blast
    then show ?thesis using False K by (simp add: eligible_def Let_def)
  qed
qed

lemma held_not_eligible: "steps ! i = HELD \<Longrightarrow> \<not> eligible now w ws steps i j"
  by (simp add: eligible_def may_pair_def pairStep_def)

lemma find_none_held: "steps ! i = HELD \<Longrightarrow> find (\<lambda>j. j \<notin> t \<and> eligible now w ws steps i j) js = None"
  using held_not_eligible by (simp add: find_None_iff)

lemma pair_from_refines:
  assumes q: "queue_of (w_store w0) ws" and ps: "\<And>i j. i < length ws \<Longrightarrow> j \<in> set (partners_of ws focus i) \<Longrightarrow> i < j \<and> j < length ws"
  shows "paired w0 ws pairs w \<Longrightarrow> \<forall>n \<in> takes pairs. n < length ws \<Longrightarrow> takes pairs = set taken \<Longrightarrow> \<forall>i \<in> set us. i < length ws \<Longrightarrow>
    paired w0 ws (pairs @ greedy (eligible now w0 ws steps) (partners_of ws focus) us taken)
      (snd (pair_from e now ws steps focus us (taken, w)))"
proof (induction us arbitrary: pairs taken w)
  case Nil
  then show ?case by simp
next
  case (Cons i us)
  have i: "i < length ws" and rest: "\<forall>i \<in> set us. i < length ws" using Cons.prems(4) by auto
  note IH = Cons.IH [OF _ _ _ rest]
  show ?case
  proof (cases "i \<in> set taken \<or> steps ! i = HELD")
    case True
    then have "greedy (eligible now w0 ws steps) (partners_of ws focus) (i # us) taken = greedy (eligible now w0 ws steps) (partners_of ws focus) us taken"
      using find_none_held [of steps i "set taken"] by auto
    then show ?thesis using IH [OF Cons.prems(1-3)] True by simp
  next
    case False
    have js: "\<forall>j \<in> set (partners_of ws focus i). j < length ws \<and> j \<noteq> i" using ps [OF i] by auto
    obtain t' w' where tp: "try_partners e now ws steps i (partners_of ws focus i) (taken, w) = (t', w')" by fastforce
    note R = try_partners_refines [OF q Cons.prems(1-3) i _ js, where now = now and steps = steps and e = e]
    have pf: "pair_from e now ws steps focus (i # us) (taken, w) = pair_from e now ws steps focus us (t', w')" using False tp by simp
    show ?thesis
    proof (cases "find (\<lambda>j. j \<notin> set taken \<and> eligible now w0 ws steps i j) (partners_of ws focus i)")
      case None
      then have "t' = taken" "paired w0 ws pairs w'" using R False tp by auto
      then show ?thesis using IH [OF _ Cons.prems(2,3)] None False pf by simp
    next
      case (Some j)
      then have "t' = i # j # taken" and p: "paired w0 ws (pairs @ [(i, j)]) w'" using R False tp by auto
      moreover have "j < length ws" using Some js by (auto simp: find_Some_iff)
      ultimately show ?thesis using IH [OF p, of t'] Cons.prems(2,3) Some False pf i by simp
    qed
  qed
qed

lemma partners_of_range: "i < length ws \<Longrightarrow> j \<in> set (partners_of ws focus i) \<Longrightarrow> i < j \<and> j < length ws"
  by (auto simp: partners_of_def Let_def split: option.splits if_splits)

lemma partners_of_sorted: "sorted (partners_of ws focus i)"
  by (auto simp: partners_of_def Let_def intro: sorted_wrt_filter split: option.split)

section \<open>The pass\<close>

definition pass_steps :: "env \<Rightarrow> millis \<Rightarrow> world \<Rightarrow> session list \<Rightarrow> int list" where
  "pass_steps e now w ws = steps_of e now (snd (lowPriority now (w_sig w))) ws"

definition pass_pairs :: "env \<Rightarrow> millis \<Rightarrow> world \<Rightarrow> session list \<Rightarrow> socket_id list option \<Rightarrow> (nat \<times> nat) list" where
  "pass_pairs e now w ws focus = greedy (eligible now w ws (pass_steps e now w ws)) (partners_of ws focus) [0..<length ws] []"

lemma pair_all_refines:
  assumes "winv w" "queue_of (w_store w) ws"
  shows "paired w ws (pass_pairs e now w ws focus) (pair_all e now ws focus w)"
proof -
  obtain sg lows where lp: "lowPriority now (w_sig w) = (sg, lows)" by fastforce
  let ?w = "w\<lparr>w_sig := sg\<rparr>"
  have "paired w ws [] ?w" by (rule paired_cong [OF paired_start [OF assms(1)]]) simp_all
  then show ?thesis
    using pair_from_refines [OF assms(2) partners_of_range, where pairs = "[]" and w = ?w and taken = "[]" and us = "[0..<length ws]" and now = now
        and steps = "pass_steps e now w ws" and focus = focus and e = e]
    by (simp add: pair_all_def pass_pairs_def pass_steps_def lp)
qed

text \<open>Under the invariant every queue entry has its waiting session, and the pass keeps them all.\<close>

lemma queued_waits:
  assumes "winv w" "s \<in> set (listWaiting (w_store w))"
  shows "\<exists>x. getSession (w_store w) s = Some x \<and> state x = Waiting \<and> socketId x = s"
proof -
  note P = winv_parts [OF assms(1)]
  have "since_of (w_store w) s \<noteq> None" using assms(2) by (simp add: listWaiting_iff)
  then obtain x where x: "getSession (w_store w) s = Some x" "waitingSince x \<noteq> None"
    using P(5) by (auto simp: queue_sync_def split: option.splits)
  then show ?thesis
    using sessions_okD [OF P(4) x(1)] by (auto simp: shape_def split: session_state.splits)
qed

definition waiting_sessions :: "store \<Rightarrow> session list" where
  "waiting_sessions m = map (\<lambda>s. the (getSession m s)) (listWaiting m)"

lemma load_waiting_all:
  "\<forall>p \<in> set js. \<exists>x. snd p = Some x \<and> state x = Waiting \<Longrightarrow> load_waiting js w = (w, map (the \<circ> snd) js)"
  by (induction js arbitrary: w) (auto simp: Let_def split_beta)

lemma load_queue:
  assumes "winv w"
  shows "load_waiting (zip (listWaiting (w_store w)) (getSessions (w_store w) (listWaiting (w_store w)))) w = (w, waiting_sessions (w_store w))"
    and "queue_of (w_store w) (waiting_sessions (w_store w))"
proof -
  let ?m = "w_store w" and ?ids = "listWaiting (w_store w)"
  have z: "zip ?ids (getSessions ?m ?ids) = map (\<lambda>s. (s, getSession ?m s)) ?ids"
    by (simp add: getSessions_def zip_map2 zip_same_conv_map)
  show "load_waiting (zip ?ids (getSessions ?m ?ids)) w = (w, waiting_sessions ?m)"
    unfolding z using queued_waits [OF assms] by (subst load_waiting_all) (fastforce simp: waiting_sessions_def)+
  have "map socketId (waiting_sessions ?m) = ?ids"
    unfolding waiting_sessions_def map_map using queued_waits [OF assms] by (intro map_idI) force
  moreover have "distinct ?ids" using winv_parts(3) [OF assms] by (simp add: queue_ok_def jwf_def jkeys_def listWaiting_def)
  moreover have "getSession ?m (socketId s) = Some s \<and> state s = Waiting" if "s \<in> set (waiting_sessions ?m)" for s
    using that queued_waits [OF assms] by (force simp: waiting_sessions_def)
  ultimately show "queue_of ?m (waiting_sessions ?m)" by (simp add: queue_of_def)
qed

end
