(* ===== verification/MatchKeeps.thy ===== *)
theory MatchKeeps
  imports MatchGreedy
begin

text \<open>
  Every locked section of the match service keeps the invariant. \<open>keeps w w'\<close> is what a section
  (or a part of one) guarantees; it composes, so a handler's proof is the chain of its parts.
\<close>

section \<open>The whole pass\<close>

text \<open>The focus the pass ends up with.\<close>

definition pass_focus :: "env \<Rightarrow> pass_mode \<Rightarrow> world \<Rightarrow> session list \<Rightarrow> socket_id list option" where
  "pass_focus e md w ws =
     (case md of
        FullPass \<Rightarrow> None
      | RecheckPass \<Rightarrow> Some (snd (addRecheckSlice e ws (w_dirty w) w))
      | DirtyPass \<Rightarrow> Some (w_dirty w))"

text \<open>The pairs a call of \<open>matchPassLocked\<close> matches.\<close>

definition matched_pairs :: "env \<Rightarrow> millis \<Rightarrow> pass_mode \<Rightarrow> world \<Rightarrow> (nat \<times> nat) list" where
  "matched_pairs e now md w =
     (let ws = waiting_sessions (w_store w) in
      if is_open (snd (status (env_tz e) now (w_flags w))) then pass_pairs e now w ws (pass_focus e md w ws) else [])"

lemma greedy_nothing: "\<forall>i \<in> set us. ps i = [] \<Longrightarrow> greedy el ps us taken = []"
  by (induction us arbitrary: taken) auto

lemma pass_pairs_short: "length ws < 2 \<Longrightarrow> pass_pairs e now w ws focus = []"
proof -
  assume l: "length ws < 2"
  have "partners_of ws focus i = []" if i: "i < length ws" for i
  proof -
    have "\<not> j \<in> set (partners_of ws focus i)" for j using partners_of_range [OF i, of j focus] l by linarith
    then show ?thesis by (metis list.set_intros(1) neq_Nil_conv)
  qed
  then show ?thesis unfolding pass_pairs_def by (intro greedy_nothing) simp
qed

lemma pass_pairs_nofocus: "pass_pairs e now w ws (Some []) = []"
  unfolding pass_pairs_def by (rule greedy_nothing) (simp add: partners_of_def)

lemma paired_cong0:
  assumes "paired w0 ws pairs w" "w_store w0' = w_store w0" "w_uuid w0' = w_uuid w0" "jobs w0' = jobs w0"
  shows "paired w0' ws pairs w"
proof -
  have "evolves w0' w = evolves w0 w" unfolding evolves_def assms(2-4) by (rule refl)
  then have "paired w0' ws pairs w = paired w0 ws pairs w" unfolding paired_def assms(2,3) by (simp only:)
  then show ?thesis using assms(1) by simp
qed

lemma pass_pairs_cong:
  "w_store w' = w_store w \<Longrightarrow> w_sig w' = w_sig w \<Longrightarrow> pass_pairs e now w' ws focus = pass_pairs e now w ws focus"
  by (simp add: pass_pairs_def pass_steps_def eligible_def [abs_def] is_banned_def blocked_until_def)

text \<open>Worlds that agree on what a pass reads and keeps.\<close>

definition pass_same :: "world \<Rightarrow> world \<Rightarrow> bool" where
  "pass_same w w' \<longleftrightarrow> w_store w' = w_store w \<and> w_uuid w' = w_uuid w \<and> jobs w' = jobs w \<and> w_sig w' = w_sig w"

lemma pass_same_trans: "pass_same w1 w2 \<Longrightarrow> pass_same w2 w3 \<Longrightarrow> pass_same w1 w3"
  by (simp add: pass_same_def)

lemma slice_same:
  "pass_same w (fst (addRecheckSlice e ws f w))"
  "w_recheckCursor w' = w_recheckCursor w \<Longrightarrow> snd (addRecheckSlice e ws f w') = snd (addRecheckSlice e ws f w)"
  by (simp_all add: addRecheckSlice_def Let_def pass_same_def)

lemma pair_all_same:
  assumes "winv w" "pass_same w w'" "ws = waiting_sessions (w_store w)"
  shows "paired w ws (pass_pairs e now w ws focus) (pair_all e now ws focus w')"
proof -
  have s: "w_store w' = w_store w" "w_uuid w' = w_uuid w" "jobs w' = jobs w" "w_sig w' = w_sig w" using assms(2) by (auto simp: pass_same_def)
  have "winv w'" using assms(1) winv_store_eq [OF s(1,2)] by simp
  moreover have "queue_of (w_store w') ws" using load_queue(2) [OF assms(1)] by (simp add: assms(3) s(1))
  ultimately have "paired w' ws (pass_pairs e now w' ws focus) (pair_all e now ws focus w')" by (rule pair_all_refines)
  then show ?thesis using paired_cong0 [of w' ws _ _ w] pass_pairs_cong [OF s(1,4)] s by simp
qed

lemma paired_nothing: "winv w \<Longrightarrow> pass_same w w' \<Longrightarrow> paired w ws [] w'"
  using paired_cong [OF paired_start, of w w'] by (simp add: pass_same_def)

text \<open>
  Under the invariant a pass either matches nobody or runs the pairing over the whole queue, in a
  world that differs from the first only in what the pairing neither reads nor keeps.
\<close>

lemma match_pass_shape:
  assumes w: "winv w"
  obtains w5 focus where "pass_same w w5"
    "matchPassLocked e now md w = w5 \<and> matched_pairs e now md w = [] \<or>
     matchPassLocked e now md w = pair_all e now (waiting_sessions (w_store w)) focus w5 \<and>
       matched_pairs e now md w = pass_pairs e now w (waiting_sessions (w_store w)) focus"
proof -
  let ?ws = "waiting_sessions (w_store w)"
  obtain fr st where st: "status (env_tz e) now (w_flags w) = (fr, st)" by fastforce
  let ?w = "w\<lparr>w_flags := fr\<rparr>" and ?w1 = "w\<lparr>w_flags := fr, w_dirty := []\<rparr>"
  have len: "length ?ws = length (listWaiting (w_store w))" by (simp add: waiting_sessions_def)
  have same: "pass_same w ?w" "pass_same w ?w1" by (simp_all add: pass_same_def)
  have lw: "load_waiting (zip (listWaiting (w_store ?w1)) (getSessions (w_store ?w1) (listWaiting (w_store ?w1)))) ?w1 = (?w1, ?ws)"
    using load_queue(1) [of ?w1] w winv_store_eq [of ?w1 w] by simp
  show thesis
  proof (cases "is_open st")
    case False
    show thesis by (rule that [OF same(1), of None]) (use False st in \<open>simp add: matched_pairs_def matchPassLocked_def Let_def\<close>)
  next
    case open': True
    let ?f = "pass_focus e md w ?ws"
    have mp: "matched_pairs e now md w = pass_pairs e now w ?ws ?f" using open' st by (simp add: matched_pairs_def Let_def)
    show thesis
    proof (cases "w_dirty w = [] \<and> md = DirtyPass \<or> length ?ws < 2")
      case True
      then have "matched_pairs e now md w = []"
        using pass_pairs_short pass_pairs_nofocus by (auto simp: mp pass_focus_def)
      moreover have "matchPassLocked e now md w = ?w1"
        using True open' st lw len by (auto simp: matchPassLocked_def Let_def)
      ultimately show thesis using that [OF same(2)] by blast
    next
      case False
      define w3 where "w3 = (if md = RecheckPass then ?w1\<lparr>w_wakeAt := filter (\<lambda>p. fst p \<in> set (map socketId ?ws)) (w_wakeAt ?w1)\<rparr> else ?w1)"
      have w3: "pass_same w w3" "w_recheckCursor w3 = w_recheckCursor w" by (simp_all add: w3_def pass_same_def)
      obtain w4 f' where w4: "addRecheckSlice e ?ws (w_dirty w) w3 = (w4, f')" by fastforce
      have s4: "pass_same w w4" "f' = snd (addRecheckSlice e ?ws (w_dirty w) w)"
        using pass_same_trans [OF w3(1) slice_same(1) [of w3 e ?ws "w_dirty w"]] slice_same(2) [OF w3(2), of e ?ws "w_dirty w"]
        by (simp_all add: w4)
      define w5 where "w5 = (if md = RecheckPass then w4 else w3)"
      have s5: "pass_same w w5" using s4 w3 by (simp add: w5_def)
      have big: "\<not> length (listWaiting (w_store w)) < 2" "\<not> length ?ws < 2" using False len by auto
      have fo: "\<not> (w_dirty w = [] \<and> md = DirtyPass)" using False by blast
      have "matchPassLocked e now md w = (if ?f = Some [] then w5 else pair_all e now ?ws ?f w5)"
      proof (cases md)
        case DirtyPass
        then show ?thesis
          using big fo open' st lw by (simp add: matchPassLocked_def Let_def pass_focus_def w5_def w3_def)
      next
        case RecheckPass
        then show ?thesis
          using big open' st lw w4 s4(2) by (simp add: matchPassLocked_def Let_def pass_focus_def w5_def w3_def)
      next
        case FullPass
        then show ?thesis
          using big open' st lw by (simp add: matchPassLocked_def Let_def pass_focus_def w5_def w3_def)
      qed
      then show thesis using that [OF s5, of ?f] pass_pairs_nofocus by (auto simp: mp)
    qed
  qed
qed

lemma match_pass_refines:
  assumes w: "winv w"
  shows "paired w (waiting_sessions (w_store w)) (matched_pairs e now md w) (matchPassLocked e now md w)"
proof -
  obtain w5 focus where s: "pass_same w w5"
    and c: "matchPassLocked e now md w = w5 \<and> matched_pairs e now md w = [] \<or>
     matchPassLocked e now md w = pair_all e now (waiting_sessions (w_store w)) focus w5 \<and>
       matched_pairs e now md w = pass_pairs e now w (waiting_sessions (w_store w)) focus"
    by (rule match_pass_shape [OF w, of e now md])
  from c show ?thesis using paired_nothing [OF w s] pair_all_same [OF w s refl, of e now focus] by auto
qed

section \<open>What a section keeps\<close>

definition keeps :: "world \<Rightarrow> world \<Rightarrow> bool" where
  "keeps w w' \<longleftrightarrow> (winv w \<longrightarrow> winv w' \<and> evolves w w')"

lemma keepsI: "(winv w \<Longrightarrow> winv w' \<and> evolves w w') \<Longrightarrow> keeps w w'"
  by (simp add: keeps_def)

lemma keepsD: "keeps w w' \<Longrightarrow> winv w \<Longrightarrow> winv w'" "keeps w w' \<Longrightarrow> winv w \<Longrightarrow> evolves w w'"
  by (simp_all add: keeps_def)

lemma keeps_refl [simp]: "keeps w w"
  by (simp add: keeps_def)

lemma keeps_trans: "keeps w1 w2 \<Longrightarrow> keeps w2 w3 \<Longrightarrow> keeps w1 w3"
  using evolves_trans by (auto simp: keeps_def)

lemma keeps_core:
  assumes "same_core (w_store w) (w_store w')" "w_uuid w' = w_uuid w" "jobs w' \<subseteq> jobs w"
  shows "keeps w w'"
proof (rule keepsI)
  assume w: "winv w"
  have "getRoom (w_store w') = getRoom (w_store w)" using assms(1) by (auto simp: same_core_def getRoom_def)
  then have "evolves w w'" using assms(2,3) by (auto simp: evolves_def same_pair_def)
  then show "winv w' \<and> evolves w w'" using w winv_core [OF assms(1,2)] by simp
qed

lemma keeps_frame: "w_store w' = w_store w \<Longrightarrow> w_uuid w' = w_uuid w \<Longrightarrow> jobs w' \<subseteq> jobs w \<Longrightarrow> keeps w w'"
  by (rule keeps_core) simp_all

lemma keeps_uuid: "w_store w' = w_store w \<Longrightarrow> w_uuid w \<le> w_uuid w' \<Longrightarrow> jobs w' \<subseteq> jobs w \<Longrightarrow> keeps w w'"
  using inv_but_mono by (fastforce simp: keeps_def winv_def evolves_def same_pair_def)

lemma keeps_pass: "keeps w (matchPassLocked e now md w)"
  using pairedD(1,8) [OF match_pass_refines] by (simp add: keeps_def)

text \<open>Rooms only go, and the jobs stay.\<close>

lemma evolves_fades:
  assumes "fades (w_store w) (w_store w')" "w_uuid w' = w_uuid w" "jobs w' = jobs w"
  shows "evolves w w'"
  using assms by (auto simp: evolves_def fades_def same_pair_def)

lemma keeps_end:
  assumes "getRoom (w_store w) rid = Some rm" "fst reasons \<noteq> None" "snd reasons \<noteq> None"
  shows "keeps w (endRoomLocked e now rm reasons w)"
proof (rule keepsI)
  assume w: "winv w"
  have rm: "getRoom (w_store w) (room_id rm) = Some rm" using rooms_okD(1) [OF winv_parts(7) [OF w] assms(1)] assms(1) by simp
  note E = end_room [OF winv_parts(1) [OF w] rm, where e = e and now = now and reasons = reasons]
  have "evolves w (endRoomLocked e now rm reasons w)"
    using end_room_fades [OF winv_parts(1) [OF w] rm] E(2-4) by (intro evolves_fades) (simp_all add: jobs_def)
  then show "winv (endRoomLocked e now rm reasons w) \<and> evolves w (endRoomLocked e now rm reasons w)"
    using end_room_winv [OF w assms] by blast
qed

lemma keeps_remove:
  assumes "winv w \<Longrightarrow> tracks (w_store w) s"
  shows "keeps w (removeSessionLocked e now s why w)"
proof (rule keepsI)
  assume w: "winv w"
  note R = remove_session [OF w assms [OF w], where e = e and now = now and why = why]
  have "evolves w (removeSessionLocked e now s why w)" using R(2-4,7) by (intro evolves_fades) (simp_all add: jobs_def)
  then show "winv (removeSessionLocked e now s why w) \<and> evolves w (removeSessionLocked e now s why w)" using R(1) by blast
qed

text \<open>Sessions put or queued leave the rooms alone.\<close>

lemma evolves_rooms:
  assumes "\<And>r. getRoom (w_store w') r = getRoom (w_store w) r" "w_uuid w' = w_uuid w" "jobs w' = jobs w"
  shows "evolves w w'"
  using assms by (auto simp: evolves_def same_pair_def)

lemma undecided_same: "(\<And>r. getRoom m' r = getRoom m r) \<Longrightarrow> undecided m' = undecided m"
  by (simp add: undecided_def)

lemma keeps_rooms:
  assumes "winv w \<Longrightarrow> inv_but {} (w_uuid w) (w_store w')" "\<And>r. getRoom (w_store w') r = getRoom (w_store w) r"
    "w_uuid w' = w_uuid w" "jobs w' = jobs w"
  shows "keeps w w'"
proof (rule keepsI)
  assume w: "winv w"
  have "undecided (w_store w')" using undecided_same [OF assms(2)] winv_parts(2) [OF w] by simp
  then show "winv w' \<and> evolves w w'" using assms(1) [OF w] evolves_rooms [OF assms(2-4)] assms(3) by (simp add: winv_def)
qed

lemma keeps_enqueue:
  assumes "getSession (w_store w) (socketId s) = Some x" "state x = Idle \<or> state x = Waiting" "deviceId s = deviceId x"
  shows "keeps w (enqueueLocked e now s since w)"
proof (rule keeps_rooms)
  show "inv_but {} (w_uuid w) (w_store (enqueueLocked e now s since w))" if w: "winv w"
  proof -
    have "free {} (w_store w) (socketId s)"
      using assms(1,2) sessions_okD(2) [OF winv_parts(4) [OF w] assms(1)] by (auto simp: free_def shape_def)
    then show ?thesis using enqueue_inv [OF winv_parts(1) [OF w] _ assms(1,3)] by simp
  qed
qed (simp_all add: enqueue_store jobs_def)

lemma keeps_put_session:
  assumes "getSession (w_store w) s = Some x" "socketId y = s" "deviceId y = deviceId x" "state y = state x" "roomId y = roomId x"
    "waitingSince y = waitingSince x"
  shows "keeps w (on_match (putSession y) w)"
  by (rule keeps_rooms) (use update_session_inv [OF winv_parts(1) assms] in simp_all)

lemma keeps_put_room:
  assumes "getRoom (w_store w) (room_id rm) = Some rm0" "same_pair rm rm0" "room_state rm = room_state rm0" "room_flags rm"
    "room_state rm = RPending \<Longrightarrow> \<not> (fst (accepted rm) \<and> snd (accepted rm))"
  shows "keeps w (on_match (putRoom rm) w)"
proof (rule keepsI)
  assume w: "winv w"
  let ?w = "on_match (putRoom rm) w"
  have "inv_but {} (w_uuid w) (putRoom rm (w_store w))"
    using put_room_inv [OF winv_parts(1) [OF w] assms(1)] assms(2-4) by (simp add: same_pair_def)
  moreover have "undecided (putRoom rm (w_store w))" using winv_parts(2) [OF w] assms(5) by (auto simp: undecided_def)
  moreover have "evolves w ?w"
  proof -
    have "same_pair cur j" if "j \<in> jobs ?w" "j \<notin> jobs w" for cur j using that by simp
    then show ?thesis using assms(1,2) by (auto simp: evolves_def same_pair_def)
  qed
  ultimately show "winv ?w \<and> evolves w ?w" by (simp add: winv_def)
qed

lemma keeps_activate:
  assumes "getRoom (w_store w) (room_id rm) = Some rm0" "same_pair rm rm0" "fst (accepted rm)" "snd (accepted rm)"
    "connectedSince rm = None"
  shows "keeps w (activateRoomLocked now rm w)"
proof (rule keepsI)
  assume w: "winv w"
  note I = winv_parts(1) [OF w]
  let ?rm = "now_active now rm" and ?w = "activateRoomLocked now rm w"
  have old: "getRoom (w_store w) (room_id ?rm) = Some rm0" "members ?rm = members rm0" "devices ?rm = devices rm0"
      "room_state ?rm = RActive" "room_flags ?rm"
    using assms by (simp_all add: same_pair_def room_flags_def)
  note A = activate_inv [OF I old]
  have dec: "\<not> (fst (accepted r) \<and> snd (accepted r))" if "getRoom (w_store w) rid = Some r" "room_state r = RPending" for rid r
    using winv_parts(2) [OF w] that by (auto simp: undecided_def)
  have "undecided (w_store ?w)" unfolding activate_world by (rule activate_undecided [OF I old dec])
  moreover have "evolves w ?w"
  proof -
    have new: "j \<in> jobs w \<or> j = ?rm" if "j \<in> jobs ?w" for j
      using that by (auto simp: activateRoomLocked_def Let_def jobs_def now_active_def)
    have less: "room_id rm < w_uuid w" using rooms_okD(2) [OF winv_parts(7) [OF w] assms(1)] .
    have "j \<in> jobs w \<or> (room_id j < w_uuid ?w \<and> (\<forall>cur. getRoom (w_store ?w) (room_id j) = Some cur \<longrightarrow> same_pair cur j))"
      if "j \<in> jobs ?w" for j
      using new [OF that] less A(2) by (auto simp: activate_world same_pair_def)
    moreover have "\<exists>cur. getRoom (w_store w) r = Some cur \<and> same_pair cur' cur" if "getRoom (w_store ?w) r = Some cur'" for r cur'
      using that A(2) [of r] assms(1,2) by (auto simp: activate_world same_pair_def split: if_splits)
    ultimately show ?thesis unfolding evolves_def by (simp add: activate_world)
  qed
  ultimately show "winv ?w \<and> evolves w ?w" using A(1) by (simp add: winv_def activate_world)
qed

end
