(* ===== verification/MatchStep.thy ===== *)
theory MatchStep
  imports MatchKeeps
begin

text \<open>
  Each handler keeps the invariant, and the service as a transition system: one step is one
  handler's part that runs without interruption, in any order, with any arguments.
\<close>

section \<open>Parts of handlers\<close>

lemma keeps_fold: "(\<And>x w. x \<in> set xs \<Longrightarrow> keeps w (f x w)) \<Longrightarrow> keeps w (fold f xs w)"
  by (induction xs arbitrary: w) (auto intro: keeps_trans)

lemma keeps_emit: "keeps w (emit s ev w)"
  by (rule keeps_frame) simp_all

lemma keeps_ack: "keeps w (ack s a w)"
  by (rule keeps_frame) simp_all

lemma keeps_block: "keeps w (on_match (blockPairLocked e now ds t b) w)"
  by (rule keeps_core) (simp_all add: blockPairLocked_def Let_def)

lemma getRoom_block [simp]: "getRoom (blockPairLocked e now ds t b m) r = getRoom m r"
  by (simp add: blockPairLocked_def Let_def setBlock_def getRoom_def)

lemma keeps_skip_record: "keeps w (record_skip now d w)"
  by (rule keeps_frame) (simp_all add: record_skip_def)

lemma record_skip_store [simp]: "w_store (record_skip now d w) = w_store w"
  by (simp add: record_skip_def)

lemma memberRoom_some:
  assumes "memberRoom w sock rid = Some (rm, i)"
  shows "getRoom (w_store w) rid = Some rm" "pick i (members rm) = sock"
    "\<exists>s. getSession (w_store w) sock = Some s \<and> roomId s = Some rid"
  using assms by (auto simp: memberRoom_def session_of_def room_of_def index_of_pick split: option.splits if_splits)

lemma activeRoom_some:
  assumes "activeRoom w sock rid = Some (rm, i)"
  shows "getRoom (w_store w) rid = Some rm" "pick i (members rm) = sock" "room_state rm = RActive"
    "\<exists>s. getSession (w_store w) sock = Some s \<and> roomId s = Some rid \<and> state s = Active"
  using assms by (auto simp: activeRoom_def session_of_def room_of_def index_of_pick split: option.splits if_splits)

text \<open>Ending a stored room after parts that leave the rooms alone, then a pass.\<close>

lemma keeps_end_pass:
  assumes "keeps w w1" "getRoom (w_store w1) rid = Some rm" "fst reasons \<noteq> None" "snd reasons \<noteq> None"
  shows "keeps w (matchPassLocked e now DirtyPass (endRoomLocked e now rm reasons w1))"
  by (rule keeps_trans [OF keeps_trans [OF assms(1) keeps_end [OF assms(2-4)]] keeps_pass])

lemma reasons_for_some [simp]: "fst (reasons_for i (Some a) (Some b)) \<noteq> None" "snd (reasons_for i (Some a) (Some b)) \<noteq> None"
  by (cases i; simp add: reasons_for_def)+

section \<open>Handlers of a live session\<close>

lemma keeps_updatePreferences: "keeps w (updatePreferences e now sock prefs w)"
proof (cases "session_of w sock")
  case None
  then show ?thesis by (simp add: updatePreferences_def keeps_ack)
next
  case (Some s)
  let ?w1 = "on_match (putSession (s\<lparr>preferences_of := prefs\<rparr>)) w"
  have 1: "keeps w ?w1"
  proof (rule keepsI)
    assume w: "winv w"
    have s: "getSession (w_store w) sock = Some s" using Some by (simp add: session_of_def)
    show "winv ?w1 \<and> evolves w ?w1"
      using keepsD [OF keeps_put_session [OF s, of "s\<lparr>preferences_of := prefs\<rparr>"]] sessions_okD(1) [OF winv_parts(4) [OF w] s] w by simp
  qed
  have 2: "keeps w (ack sock SimpleOk ?w1)" by (rule keeps_trans [OF 1 keeps_ack])
  have 3: "keeps w (matchPassLocked e now DirtyPass (mark_dirty sock (ack sock SimpleOk ?w1)))"
    by (rule keeps_trans [OF keeps_trans [OF 2 keeps_frame] keeps_pass]) simp_all
  show ?thesis using Some 2 3 by (simp add: updatePreferences_def keeps_ack Let_def)
qed

lemma keeps_accept: "keeps w (accept e now sock rid w)"
proof (cases "memberRoom w sock rid")
  case None
  then show ?thesis by (simp add: accept_def)
next
  case (Some p)
  then obtain rm i where m: "memberRoom w sock rid = Some (rm, i)" by (cases p) auto
  note M = memberRoom_some [OF m]
  let ?rm = "rm\<lparr>accepted := set_at i True (accepted rm)\<rparr>"
  show ?thesis
  proof (rule keepsI)
    assume w: "winv w"
    note R = rooms_okD [OF winv_parts(7) [OF w] M(1)]
    have old: "getRoom (w_store w) (room_id ?rm) = Some rm" "same_pair ?rm rm" using M(1) R(1) by (simp_all add: same_pair_def)
    have put: "keeps w (on_match (putRoom ?rm) w)" if "room_state rm = RPending" "\<not> (fst (accepted ?rm) \<and> snd (accepted ?rm))"
      by (rule keeps_put_room [OF old]) (use that R(3) in \<open>auto simp: room_flags_def\<close>)
    have act: "keeps w (activateRoomLocked now ?rm w)" if "room_state rm = RPending" "fst (accepted ?rm)" "snd (accepted ?rm)"
      by (rule keeps_activate [OF old]) (use that R(3) in \<open>auto simp: room_flags_def\<close>)
    have "keeps w (accept e now sock rid w)"
      using put act keeps_trans [OF put keeps_emit] m by (auto simp: accept_def Let_def keeps_emit)
    then show "winv (accept e now sock rid w) \<and> evolves w (accept e now sock rid w)" using w by (simp add: keeps_def)
  qed
qed

lemma keeps_decline: "keeps w (decline e now sock rid w)"
proof (cases "memberRoom w sock rid")
  case (Some p)
  then obtain rm i where m: "memberRoom w sock rid = Some (rm, i)" by (cases p) auto
  have "keeps w (matchPassLocked e now DirtyPass (endRoomLocked e now rm (reasons_for i (Some Declined) (Some PartnerDeclined))
      (record_skip now (pick i (devices rm)) (on_match (blockPairLocked e now (devices rm) (mc_declineBlockMs (env_cfg e)) False) w))))"
    by (rule keeps_end_pass [where rid = rid, OF keeps_trans [OF keeps_block keeps_skip_record]]) (simp_all add: memberRoom_some(1) [OF m])
  then show ?thesis using m by (simp add: decline_def Let_def)
qed (simp add: decline_def)

lemma keeps_call_failed: "keeps w (call_failed e now sock rid w)"
proof (cases "memberRoom w sock rid")
  case (Some p)
  then obtain rm i where m: "memberRoom w sock rid = Some (rm, i)" by (cases p) auto
  have "keeps w (matchPassLocked e now DirtyPass (endRoomLocked e now rm (Some ConnectionFailed, Some ConnectionFailed)
      (on_match (blockPairLocked e now (devices rm) (mc_declineBlockMs (env_cfg e)) False) w)))"
    by (rule keeps_end_pass [where rid = rid, OF keeps_block]) (simp_all add: memberRoom_some(1) [OF m])
  then show ?thesis using m by (simp add: call_failed_def Let_def)
qed (simp add: call_failed_def)

lemma keeps_call_connected: "keeps w (call_connected now sock rid w)"
proof (cases "memberRoom w sock rid")
  case (Some p)
  then obtain rm i where m: "memberRoom w sock rid = Some (rm, i)" by (cases p) auto
  note M = memberRoom_some [OF m]
  let ?c = "case connectedSides rm of Some c \<Rightarrow> c | None \<Rightarrow> (False, False)"
  let ?rm = "rm\<lparr>connectedSides := Some (set_at i True ?c),
     connectedSince := (if fst (set_at i True ?c) \<and> snd (set_at i True ?c) then Some now else connectedSince rm)\<rparr>"
  show ?thesis
  proof (rule keepsI)
    assume w: "winv w"
    note R = rooms_okD [OF winv_parts(7) [OF w] M(1)]
    have put: "keeps w (on_match (putRoom ?rm) w)" if "room_state rm = RActive" "\<not> pick i ?c"
    proof (rule keeps_put_room)
      show "getRoom (w_store w) (room_id ?rm) = Some rm" using M(1) R(1) by simp
      have "connectedSince rm = None" using R(3) that by (cases i) (auto simp: room_flags_def pick_pair)
      then show "room_flags ?rm" using R(3) that(1) by (auto simp: room_flags_def prod_eq_iff)
    qed (use that(1) in \<open>simp_all add: same_pair_def\<close>)
    then have "keeps w (call_connected now sock rid w)" using m by (simp add: call_connected_def Let_def)
    then show "winv (call_connected now sock rid w) \<and> evolves w (call_connected now sock rid w)" using w by (simp add: keeps_def)
  qed
qed (simp add: call_connected_def)

lemma keeps_skip: "keeps w (skip e now sock named w)"
proof (cases "session_of w sock")
  case (Some s)
  show ?thesis
  proof (cases "roomId s")
    case rid: (Some rid)
    show ?thesis
    proof (cases "memberRoom w sock rid")
      case m0: (Some p)
      then obtain rm i where m: "memberRoom w sock rid = Some (rm, i)" by (cases p) auto
      define w1 where "w1 = (case (room_state rm, activeSince rm) of
          (RActive, Some t) \<Rightarrow> w\<lparr>w_sig := skipped_early (mc_signals (env_cfg e)) now (pick (other i) (devices rm)) (now - t) (w_sig w)\<rparr>
        | _ \<Rightarrow> w)"
      have s1: "w_store w1 = w_store w" "w_uuid w1 = w_uuid w" "jobs w1 = jobs w"
        by (simp_all add: w1_def split: room_state.split option.split)
      have "keeps w w1" by (rule keeps_frame) (simp_all add: s1)
      then have "keeps w (matchPassLocked e now DirtyPass (endRoomLocked e now rm (reasons_for i (Some Skipped) (Some PartnerSkipped))
          (record_skip now (deviceId s) (on_match (blockPairLocked e now (devices rm) 0 True) w1))))"
        by (intro keeps_end_pass [where rid = rid, OF keeps_trans [OF _ keeps_trans [OF keeps_block keeps_skip_record]]])
          (simp_all add: memberRoom_some(1) [OF m] s1)
      then show ?thesis using Some rid m by (simp add: skip_def Let_def w1_def)
    qed (use Some rid in \<open>simp add: skip_def\<close>)
  qed (use Some in \<open>simp add: skip_def\<close>)
qed (simp add: skip_def)

section \<open>Handlers that do not touch the store\<close>

lemma keeps_telemetry: "keeps w (telemetry sock rid w)"
  by (rule keeps_frame) (simp_all add: telemetry_def Let_def split: option.split)

lemma keeps_moderationSignal: "keeps w (moderationSignal e now sock rid kind w)"
  by (rule keeps_frame) (simp_all add: moderationSignal_def Let_def split: option.split)

lemma keeps_relay_signal: "keeps w (relay_signal sock rid data w)"
  by (simp add: relay_signal_def keeps_emit split: option.split)

lemma keeps_typing: "keeps w (typing sock rid b w)"
  by (simp add: typing_def keeps_emit split: option.split)

lemma nudge_frame [simp]:
  "w_store (nudge_link now sock rid w) = w_store w" "w_uuid (nudge_link now sock rid w) = w_uuid w" "jobs (nudge_link now sock rid w) = jobs w"
  "w_store (nudge_kind_of e now sock p d rid k w) = w_store w" "w_uuid (nudge_kind_of e now sock p d rid k w) = w_uuid w"
  "jobs (nudge_kind_of e now sock p d rid k w) = jobs w"
  by (simp_all add: nudge_link_def nudge_kind_of_def split: prod.split bool.split)

lemma keeps_chat: "keeps w (chat e now sock rid txt w)"
proof (cases "activeRoom w sock rid")
  case (Some p)
  then show ?thesis by (intro keeps_uuid) (simp_all add: chat_def Let_def split_beta)
qed (simp add: chat_def keeps_ack)

section \<open>Reports and restrictions\<close>

lemma report_pre_frame [simp]:
  "w_store (fst (report_pre e now sock p ip w)) = w_store w" "w_uuid (fst (report_pre e now sock p ip w)) = w_uuid w"
  "jobs (fst (report_pre e now sock p ip w)) = jobs w"
  by (simp_all add: report_pre_def Let_def split: option.split prod.split admit_result.split)

lemma keeps_report_pre: "keeps w (fst (report_pre e now sock p ip w))"
  by (rule keeps_frame) simp_all

lemma keeps_report_locked: "keeps w (report_locked e now sock rid ds w)"
proof (cases "memberRoom w sock rid")
  case (Some p)
  then obtain rm i where m: "memberRoom w sock rid = Some (rm, i)" by (cases p) auto
  have "keeps w (matchPassLocked e now DirtyPass (endRoomLocked e now rm (reasons_for i (Some Reported) (Some PartnerSkipped))
      (on_match (blockPairLocked e now (devices rm) (mc_reportBlockMs (env_cfg e)) False) w)))"
    by (rule keeps_end_pass [where rid = rid, OF keeps_block]) (simp_all add: memberRoom_some(1) [OF m])
  then show ?thesis using m by (simp add: report_locked_def Let_def)
qed (simp add: report_locked_def keeps_block)

lemma keeps_report_submit: "keeps w (fst (report_submit e now fails sock p ip s frame t w))"
  by (rule keeps_frame) (simp_all add: report_submit_def split: prod.split)

text \<open>Taking a member out of its room and the queue, without removing its session.\<close>

lemma set_free_idled: "set_free s (idled y) m = removeWaiting s (putSession (idled y) m)"
  by (simp add: set_free_def)

lemma keeps_idle:
  assumes "getSession (w_store w) sock = Some x" "state x = Idle \<or> state x = Waiting"
  shows "keeps w (on_match (removeWaiting sock) (if state x \<noteq> Idle then on_match (putSession (idled x)) w else w))"
proof (rule keeps_rooms)
  show "inv_but {} (w_uuid w) (w_store (on_match (removeWaiting sock) (if state x \<noteq> Idle then on_match (putSession (idled x)) w else w)))"
    if w: "winv w"
  proof -
    note P = winv_parts [OF w]
    have x: "socketId x = sock" "shape x" using sessions_okD [OF P(4) assms(1)] by simp_all
    have free: "free {} (w_store w) sock" using assms x(2) by (auto simp: free_def shape_def)
    show ?thesis
    proof (cases "state x = Idle")
      case True
      then have "waitingSince x = None" using x(2) by (simp add: shape_def)
      then have "since_of (w_store w) sock = None" using P(5) assms(1) by (simp add: queue_sync_def)
      then show ?thesis using remove_absent [OF P(3)] P(1) True by simp
    next
      case False
      then show ?thesis using set_free_inv [OF P(1) free assms(1), of "idled x"] x(1) by (simp add: set_free_idled)
    qed
  qed
qed simp_all

lemma keeps_evict:
  assumes s: "session_of w sock = Some s"
  shows "keeps w (evict_restricted e now sock s w)"
proof (rule keepsI)
  assume w: "winv w"
  note P = winv_parts [OF w]
  have gs: "getSession (w_store w) sock = Some s" using s by (simp add: session_of_def)
  have finish: "keeps w (on_match (removeWaiting sock) (case session_of w1 sock of
      Some fresh \<Rightarrow> if state fresh \<noteq> Idle then on_match (putSession (idled fresh)) w1 else w1 | None \<Rightarrow> w1))"
    if "keeps w w1" "session_of w1 sock = Some x" "state x = Idle \<or> state x = Waiting" for w1 x
    using keeps_trans [OF that(1) keeps_idle [of w1 sock x]] that(2,3) by (simp add: session_of_def)
  have "keeps w (evict_restricted e now sock s w)"
  proof (cases "roomId s")
    case None
    then have "state s = Idle \<or> state s = Waiting" using sessions_okD(2) [OF P(4) gs] by (cases "state s") (auto simp: shape_def)
    then show ?thesis using finish [OF keeps_refl s] None by (simp add: evict_restricted_def Let_def)
  next
    case (Some rid)
    obtain rm i where rm: "getRoom (w_store w) rid = Some rm" "pick i (members rm) = sock"
      using seatedD [OF P(6) gs _ Some] by blast
    note R = rooms_okD [OF P(7) rm(1)]
    have rm': "getRoom (w_store w) (room_id rm) = Some rm" using rm(1) R(1) by simp
    let ?w1 = "endRoomLocked e now rm (reasons_for i (Some Restricted) (Some PartnerSkipped)) w"
    have k: "keeps w ?w1" by (rule keeps_end [OF rm(1)]) simp_all
    obtain y where y: "getSession (w_store ?w1) sock = Some y" "state y = Idle \<or> state y = Waiting"
      using end_room(8) [OF P(1) rm', of i "reasons_for i (Some Restricted) (Some PartnerSkipped)" e now] rm(2) by auto
    then have "session_of ?w1 sock = Some y" by (simp add: session_of_def)
    from finish [OF k this y(2)] show ?thesis
      using Some rm(1) index_of_members [OF R(4) rm(2)] by (simp add: evict_restricted_def Let_def room_of_def)
  qed
  then show "winv (evict_restricted e now sock s w) \<and> evolves w (evict_restricted e now sock s w)" using w by (simp add: keeps_def)
qed

lemma keeps_restriction_locked: "keeps w (restriction_locked e now d r w)"
proof (cases "getDeviceSocket (w_store w) d")
  case (Some sock)
  show ?thesis
  proof (cases "session_of w sock")
    case s: (Some s)
    have "keeps w (if re_kind r \<noteq> Warning then evict_restricted e now sock s w else w)" using keeps_evict [OF s] by simp
    from keeps_trans [OF keeps_trans [OF this keeps_emit] keeps_pass] show ?thesis
      using Some s by (simp add: restriction_locked_def Let_def)
  qed (use Some in \<open>simp add: restriction_locked_def\<close>)
qed (simp add: restriction_locked_def)

lemma keeps_restriction_ban: "keeps w (restriction_ban now d r w)"
  by (rule keeps_core) (simp_all add: restriction_ban_def)

lemma keeps_restrictionApplied: "keeps w (restrictionApplied e now d r w)"
  unfolding restrictionApplied_def by (rule keeps_trans [OF keeps_restriction_ban keeps_restriction_locked])

lemma keeps_restrictionLifted: "keeps w (restrictionLifted now d r w)"
  by (rule keeps_core) (simp_all add: restrictionLifted_def)

lemma keeps_run_sink: "keeps w (run_sink e now c w)"
  by (cases c) (simp_all add: keeps_restrictionApplied keeps_restrictionLifted)

lemma keeps_deliver_calls: "keeps w (deliver_calls e now w)"
  unfolding deliver_calls_def by (rule keeps_trans [OF keeps_frame keeps_fold [OF keeps_run_sink]]) simp_all

section \<open>Leaving\<close>

lemma keeps_remove_current:
  assumes "session_of w sock = Some s"
  shows "keeps w (removeSessionLocked e now s why w)"
  using keeps_remove tracks_current assms by (simp add: session_of_def)

lemma forget_local_frame [simp]:
  "w_store (forget_local sock w) = w_store w" "w_uuid (forget_local sock w) = w_uuid w" "jobs (forget_local sock w) = jobs w"
  by (simp_all add: forget_local_def releasePhoto_def)

lemma keeps_forget_local: "keeps w (forget_local sock w)"
  by (rule keeps_frame) simp_all

lemma keeps_disconnect_locked: "keeps w (disconnect_locked e now sock w)"
proof -
  let ?w1 = "w\<lparr>w_local := jdel (w_local w) sock, w_wakeAt := jdel (w_wakeAt w) sock\<rparr>"
  have 1: "keeps w ?w1" by (rule keeps_frame) simp_all
  show ?thesis
    using 1 keeps_trans [OF 1 keeps_trans [OF keeps_remove_current keeps_pass]]
    by (auto simp: disconnect_locked_def Let_def split: option.split)
qed

lemma keeps_remove_if_present: "keeps w (remove_if_present e now why sock w)"
  by (auto simp: remove_if_present_def intro: keeps_remove_current split: option.split)

section \<open>The sweeper\<close>

lemma keeps_forget_instance: "keeps w (on_match (forgetInstance i) w)"
  by (rule keeps_core) simp_all

lemma keeps_reap: "keeps w (reapDeadInstancesLocked e now w)"
  unfolding reapDeadInstancesLocked_def reap_instance_def
  by (intro keeps_fold keeps_trans [OF keeps_fold [OF keeps_remove_if_present] keeps_forget_instance])

lemma keeps_ghosts: "keeps w (removeGhostSessionsLocked e now isConnected w)"
  unfolding removeGhostSessionsLocked_def
proof (rule keeps_fold)
  fix sock and w :: world
  let ?w1 = "w\<lparr>w_local := jdel (w_local w) sock, w_wakeAt := jdel (w_wakeAt w) sock\<rparr>"
  have 1: "keeps w ?w1" by (rule keeps_frame) simp_all
  have "keeps w (removeSessionLocked e now x PartnerLeft ?w1)" if "session_of w sock = Some x" for x
    by (rule keeps_trans [OF 1 keeps_remove_current [of _ sock]]) (use that in \<open>simp add: session_of_def\<close>)
  then show "keeps w (remove_ghost e now isConnected sock w)"
    using 1 by (auto simp: remove_ghost_def Let_def split: option.split)
qed

lemma keeps_expire_room: "keeps w (expire_room e now rid w)"
proof (cases "room_of w rid")
  case (Some rm)
  let ?w1 = "strike_absent now rm (on_match (blockPairLocked e now (devices rm) (mc_declineBlockMs (env_cfg e)) False) w)"
  have "keeps w ?w1" by (rule keeps_trans [OF keeps_block keeps_frame]) (simp_all add: strike_absent_def Let_def)
  moreover have "getRoom (w_store ?w1) rid = Some rm" using Some by (simp add: strike_absent_def Let_def room_of_def)
  ultimately have "keeps w (endRoomLocked e now rm (Some (timeout_reason (fst (accepted rm))), Some (timeout_reason (snd (accepted rm)))) ?w1)"
    using keeps_trans keeps_end by simp
  then show ?thesis using Some by (simp add: expire_room_def Let_def)
qed (simp add: expire_room_def)

lemma relax_one_frame [simp]:
  "w_store (relax_one now job w) = w_store w" "w_uuid (relax_one now job w) = w_uuid w" "jobs (relax_one now job w) = jobs w"
  by (simp_all add: relax_one_def Let_def split: prod.split option.split)

lemma keeps_relaxTick: "keeps w (relaxTickLocked e now w)"
  unfolding relaxTickLocked_def Let_def by (intro keeps_fold keeps_frame) simp_all

lemma keeps_sweep_locked: "keeps w (sweep_locked e now isConnected w)"
proof -
  let ?c = "env_cfg e"
  define w1 where "w1 = (if mc_heartbeatIntervalMs ?c \<le> now - w_lastReapAt w
      then removeGhostSessionsLocked e now isConnected (reapDeadInstancesLocked e now (w\<lparr>w_lastReapAt := now\<rparr>)) else w)"
  define w2 where "w2 = fold (expire_room e now) (listExpiredPendingRooms (w_store w1) (now - mc_matchAcceptGraceMs ?c)) w1"
  define w3 where "w3 = wake_due now w2"
  define w4 where "w4 = (if mc_recheckIntervalMs ?c \<le> now - w_lastRecheckAt w3 then w3\<lparr>w_lastRecheckAt := now\<rparr> else w3)"
  have "keeps w (w\<lparr>w_lastReapAt := now\<rparr>)" by (rule keeps_frame) simp_all
  then have 1: "keeps w w1" unfolding w1_def using keeps_trans [OF keeps_trans [OF _ keeps_reap] keeps_ghosts] by simp
  have 2: "keeps w1 w2" unfolding w2_def by (rule keeps_fold) (rule keeps_expire_room)
  have 3: "keeps w2 w3" unfolding w3_def by (rule keeps_frame) (simp_all add: wake_due_def Let_def)
  have 4: "keeps w3 w4" unfolding w4_def by (rule keeps_frame) simp_all
  have "keeps w (matchPassLocked e now md (relaxTickLocked e now w4))" for md
    by (rule keeps_trans [OF keeps_trans [OF keeps_trans [OF keeps_trans [OF 1 2] keeps_trans [OF 3 4]] keeps_relaxTick] keeps_pass])
  then show ?thesis
    unfolding sweep_locked_def Let_def w1_def [symmetric] w2_def [symmetric] w3_def [symmetric] w4_def [symmetric] .
qed

text \<open>Rewards change balances and friends only.\<close>

lemma same_core_trans: "same_core a b \<Longrightarrow> same_core b c \<Longrightarrow> same_core a c"
  by (simp add: same_core_def)

lemma award_frame:
  "same_core (w_store w) (w_store (award e now sock d l r w))" "w_uuid (award e now sock d l r w) = w_uuid w"
  "jobs (award e now sock d l r w) = jobs w"
proof -
  have "same_core m (addFriends a b (fst (addCoins d x y m)))" for m a b x y
    using same_core_trans [OF same_core_ops(6) same_core_ops(5)] .
  then show "same_core (w_store w) (w_store (award e now sock d l r w))"
    by (auto simp: award_def Let_def earn_def set_local_def split_beta)
qed (simp_all add: award_def Let_def earn_def set_local_def split_beta)

lemma set_local_frame [simp]:
  "w_store (set_local sock l w) = w_store w" "w_uuid (set_local sock l w) = w_uuid w" "jobs (set_local sock l w) = jobs w"
  by (simp_all add: set_local_def)

lemma keeps_reward_one: "keeps w (reward_one e now job w)"
proof -
  have "same_core (w_store w) (w_store (reward_one e now job w)) \<and> w_uuid (reward_one e now job w) = w_uuid w \<and>
      jobs (reward_one e now job w) = jobs w"
    by (auto simp: reward_one_def Let_def award_frame split: prod.split option.split session_state.split)
  then show ?thesis by (intro keeps_core) simp_all
qed

lemma keeps_tickRewards: "keeps w (tickRewards e now w)"
  unfolding tickRewards_def Let_def by (rule keeps_fold) (rule keeps_reward_one)

lemma keeps_refresh_online: "keeps w (refresh_online e now w)"
  by (rule keeps_frame) (simp_all add: refresh_online_def)

lemma keeps_beat: "keeps w (beat e now w)"
  by (rule keeps_core) (simp_all add: beat_def)

section \<open>session:hello\<close>

lemma hello_pre_frame [simp]:
  "w_store (fst (hello_pre e now sock p ip w)) = w_store w" "w_uuid (fst (hello_pre e now sock p ip w)) = w_uuid w"
  "jobs (fst (hello_pre e now sock p ip w)) = jobs w"
  by (simp_all add: hello_pre_def Let_def split: option.split prod.split)

lemma keeps_hello_pre: "keeps w (fst (hello_pre e now sock p ip w))"
  by (rule keeps_frame) simp_all

lemma hello_gate_frame [simp]:
  "w_store (fst (hello_gate e now d sess w)) = w_store w" "w_uuid (fst (hello_gate e now d sess w)) = w_uuid w"
  "jobs (fst (hello_gate e now d sess w)) = jobs w"
  by (simp_all add: hello_gate_def Let_def split: option.split prod.split)

text \<open>After the previous socket of the device is retired, nothing is bound to the device.\<close>

definition retired :: "env \<Rightarrow> millis \<Rightarrow> device_id \<Rightarrow> socket_id \<Rightarrow> world \<Rightarrow> world" where
  "retired e now d sock w =
     (case getDeviceSocket (w_store w) d of Some prev \<Rightarrow> if prev \<noteq> sock then replaceLocked e now prev w else w | None \<Rightarrow> w)"

lemma claim_device_retired: "claim_device e now d sock w = on_match (setDeviceSocket d sock) (retired e now d sock w)"
  by (simp add: claim_device_def retired_def Let_def)

lemma replace_store:
  assumes "session_of w old = Some s"
  shows "w_store (replaceLocked e now old w) = w_store (removeSessionLocked e now s PartnerUnavailable (emit old SessionReplaced w))"
    "w_uuid (replaceLocked e now old w) = w_uuid (removeSessionLocked e now s PartnerUnavailable (emit old SessionReplaced w))"
    "jobs (replaceLocked e now old w) = jobs (removeSessionLocked e now s PartnerUnavailable (emit old SessionReplaced w))"
  using assms by (simp_all add: replaceLocked_def Let_def session_of_def)

lemma fades_device: "fades m m' \<Longrightarrow> getSession m' k = Some y \<Longrightarrow> \<exists>x. getSession m k = Some x \<and> deviceId y = deviceId x"
  unfolding fades_def by blast

lemma retired_free:
  assumes w: "winv w" and s: "getSession (w_store w) sock = None"
  shows "winv (retired e now d sock w)" "evolves w (retired e now d sock w)"
    "getSession (w_store (retired e now d sock w)) sock = None" "getDeviceSocket (w_store (retired e now d sock w)) d = None"
proof -
  note P = winv_parts [OF w]
  let ?w = "retired e now d sock w"
  have "winv ?w \<and> evolves w ?w \<and> getSession (w_store ?w) sock = None \<and> getDeviceSocket (w_store ?w) d = None"
  proof (cases "getDeviceSocket (w_store w) d")
    case None
    then show ?thesis using w s by (simp add: retired_def)
  next
    case (Some prev)
    obtain x where x: "getSession (w_store w) prev = Some x" "deviceId x = d" using P(8) Some by (auto simp: bindings_ok_def)
    have ne: "prev \<noteq> sock" using x(1) s by auto
    have sx: "session_of w prev = Some x" "socketId x = prev" using x(1) sessions_okD(1) [OF P(4) x(1)] by (simp_all add: session_of_def)
    let ?e = "emit prev SessionReplaced w" and ?r = "removeSessionLocked e now x PartnerUnavailable (emit prev SessionReplaced w)"
    have we: "winv ?e" using w winv_store_eq [of ?e w] by simp
    have t: "tracks (w_store ?e) x" using tracks_current [OF w x(1)] by simp
    note R = remove_session [OF we t, where e = e and now = now and why = PartnerUnavailable]
    have st: "w_store ?w = w_store ?r" "w_uuid ?w = w_uuid ?r" "jobs ?w = jobs ?r"
      using Some ne replace_store [OF sx(1), of e now] by (simp_all add: retired_def)
    have W: "winv ?w" using R(1) winv_store_eq [OF st(1,2)] by simp
    have f: "fades (w_store w) (w_store ?w)" using R(7) by (simp add: st)
    have "jobs ?r = jobs w" using R(3,4) by (simp add: jobs_def)
    then have "evolves w ?w" using f R(2) by (intro evolves_fades) (simp_all add: st)
    moreover have gone: "getSession (w_store ?w) k = None" if "getSession (w_store w) k = None" for k
      using f that unfolding fades_def by (metis not_None_eq)
    moreover have "getDeviceSocket (w_store ?w) d = None"
    proof (rule ccontr)
      assume "getDeviceSocket (w_store ?w) d \<noteq> None"
      then obtain k y where y: "getSession (w_store ?w) k = Some y" "deviceId y = d"
        using winv_parts(8) [OF W] by (auto simp: bindings_ok_def)
      then obtain z where z: "getSession (w_store w) k = Some z" "deviceId z = d" using fades_device [OF f y(1)] by auto
      have "k = prev" using one_session_per_device [OF P(8) z(1) x(1)] z(2) x(2) by simp
      then show False using y(1) R(5) sx(2) by (simp add: st)
    qed
    ultimately show ?thesis using W s by blast
  qed
  then show "winv ?w" "evolves w ?w" "getSession (w_store ?w) sock = None" "getDeviceSocket (w_store ?w) d = None" by blast+
qed

lemma hello_session_fields:
  "sess = None \<Longrightarrow> socketId (hello_session e now sock p prefs key sess) = sock \<and> deviceId (hello_session e now sock p prefs key sess) = hp_deviceId p \<and>
     state (hello_session e now sock p prefs key sess) = Idle \<and> roomId (hello_session e now sock p prefs key sess) = None \<and>
     waitingSince (hello_session e now sock p prefs key sess) = None"
  "sess = Some s \<Longrightarrow> socketId (hello_session e now sock p prefs key sess) = socketId s \<and> deviceId (hello_session e now sock p prefs key sess) = deviceId s \<and>
     state (hello_session e now sock p prefs key sess) = state s \<and> roomId (hello_session e now sock p prefs key sess) = roomId s \<and>
     waitingSince (hello_session e now sock p prefs key sess) = waitingSince s"
  by (simp_all add: hello_session_def)

text \<open>Storing the hello's session, new or updated.\<close>

lemma keeps_hello_session:
  assumes "session_of w sock = sess" "w1 = (if sess = None then claim_device e now (hp_deviceId p) sock w else w)"
    "s = hello_session e now sock p prefs key sess"
  shows "keeps w (on_match (putSession s) w1)"
proof (rule keepsI)
  assume w: "winv w"
  show "winv (on_match (putSession s) w1) \<and> evolves w (on_match (putSession s) w1)"
  proof (cases sess)
    case (Some x)
    have x: "getSession (w_store w) sock = Some x" using assms(1) Some by (simp add: session_of_def)
    have "socketId x = sock" using sessions_okD(1) [OF winv_parts(4) [OF w] x] .
    then have "keeps w (on_match (putSession s) w)"
      using hello_session_fields(2) [OF Some, of e now sock p prefs key] by (intro keeps_put_session [OF x]) (simp_all add: assms(3))
    then show ?thesis using w Some assms(2) by (simp add: keeps_def)
  next
    case None
    have n: "getSession (w_store w) sock = None" using assms(1) None by (simp add: session_of_def)
    let ?r = "retired e now (hp_deviceId p) sock w"
    note R = retired_free [OF w n, where e = e and now = now and d = "hp_deviceId p"]
    have st: "w_store (on_match (putSession s) w1) = putSession s (setDeviceSocket (hp_deviceId p) sock (w_store ?r))"
      "w_uuid (on_match (putSession s) w1) = w_uuid ?r" "jobs (on_match (putSession s) w1) = jobs ?r"
      using None assms(2) by (simp_all add: claim_device_retired)
    have "inv_but {} (w_uuid ?r) (putSession s (setDeviceSocket (hp_deviceId p) sock (w_store ?r)))"
      using hello_session_fields(1) [OF None, of e now sock p prefs key]
      by (intro new_session_inv [OF winv_parts(1) [OF R(1)] R(3,4)]) (simp_all add: assms(3))
    moreover have "undecided (w_store (on_match (putSession s) w1))"
      unfolding st(1) using winv_parts(2) [OF R(1)] by (simp add: undecided_def)
    moreover have "evolves ?r (on_match (putSession s) w1)" by (rule evolves_rooms; unfold st; simp)
    ultimately show ?thesis using evolves_trans [OF R(2)] unfolding winv_def st by blast
  qed
qed

lemma store_photo_frame:
  "w_uuid (fst (store_photo e sock photo w)) = w_uuid w" "jobs (fst (store_photo e sock photo w)) = jobs w"
  "getSession (w_store (fst (store_photo e sock photo w))) k = getSession (w_store w) k"
  "\<exists>ph. w_store (fst (store_photo e sock photo w)) = setPhoto sock ph (w_store w)"
  by (auto simp: store_photo_def Let_def releasePhoto_def split: option.split)

lemma keeps_store_photo:
  assumes "getSession (w_store w) sock \<noteq> None"
  shows "keeps w (fst (store_photo e sock photo w))"
proof -
  obtain ph where "w_store (fst (store_photo e sock photo w)) = setPhoto sock ph (w_store w)" using store_photo_frame(4) by blast
  then show ?thesis
    using set_photo_inv [OF winv_parts(1) assms] by (intro keeps_rooms) (simp_all add: store_photo_frame)
qed

lemma keeps_hello_admitted:
  assumes sess: "session_of w sock = sess" "\<And>x. sess = Some x \<Longrightarrow> socketId x = sock"
  shows "keeps w (hello_admitted e now sock p prefs key sess w)"
proof -
  let ?d = "hp_deviceId p"
  define w1 where "w1 = (if sess = None then claim_device e now ?d sock w else w)"
  define s where "s = hello_session e now sock p prefs key sess"
  have soc: "socketId s = sock" using hello_session_fields [of sess] sess(2) by (cases sess) (auto simp: s_def)
  obtain w2 fits where w2: "store_photo e sock (hp_photo p) (on_match (putSession s) w1) = (w2, fits)" by fastforce
  note F = store_photo_frame [of e sock "hp_photo p" "on_match (putSession s) w1", unfolded w2 fst_conv]
  define w3 where "w3 = w2\<lparr>w_local := jset (w_local w2) sock (case jget (w_local w2) sock of Some l \<Rightarrow> l
      | None \<Rightarrow> \<lparr>ls_deviceId = ?d, ls_orphaned = False, ls_telemetryRooms = [], ls_rewards = None\<rparr>)\<rparr>"
  define w5 where "w5 = emit sock (WalletUpdate (wallet_view_of e now (ack sock (HelloOk (balance (mc_initialCoins (env_cfg e)) (w_store w3) ?d)
      (stunServers (mc_turn (env_cfg e))) (effectiveMode w3 (hp_mode p)) (genderFilter prefs) (hp_photo p \<noteq> None \<and> \<not> fits)) w3) ?d))
      (ack sock (HelloOk (balance (mc_initialCoins (env_cfg e)) (w_store w3) ?d)
        (stunServers (mc_turn (env_cfg e))) (effectiveMode w3 (hp_mode p)) (genderFilter prefs) (hp_photo p \<noteq> None \<and> \<not> fits)) w3)"
  have 1: "keeps w (on_match (putSession s) w1)" by (rule keeps_hello_session [OF sess(1) w1_def s_def])
  have "getSession (w_store (on_match (putSession s) w1)) sock \<noteq> None" using soc by simp
  from keeps_store_photo [OF this, of e "hp_photo p"] have 2: "keeps (on_match (putSession s) w1) w2" by (simp add: w2)
  have 5: "keeps w2 w5" by (rule keeps_frame) (simp_all add: w5_def w3_def)
  have st: "getSession (w_store w5) (socketId s) = Some s" using F(3) soc by (simp add: w5_def w3_def)
  have 6: "keeps w5 (matchPassLocked e now DirtyPass (enqueueLocked e now s since w5))" if "state s = Idle \<or> state s = Waiting" for since
    by (rule keeps_trans [OF keeps_enqueue [OF st that refl] keeps_pass])
  have def: "hello_admitted e now sock p prefs key sess w =
      (if state s = Idle \<or> state s = Waiting
       then matchPassLocked e now DirtyPass (enqueueLocked e now s (if state s = Waiting then waitingSince s else None) w5) else w5)"
    by (simp add: hello_admitted_def Let_def w2 w5_def w3_def flip: w1_def s_def)
  show ?thesis
    unfolding def using 6 keeps_trans [OF 1 keeps_trans [OF 2 5]] keeps_trans [OF keeps_trans [OF 1 keeps_trans [OF 2 5]]] by simp
qed

lemma keeps_hello_locked: "keeps w (hello_locked e now here sock p prefs key w)"
proof (rule keepsI)
  assume w: "winv w"
  have "keeps w (hello_locked e now here sock p prefs key w)"
  proof (cases "\<not> here \<or> (case session_of w sock of Some s \<Rightarrow> deviceId s \<noteq> hp_deviceId p | None \<Rightarrow> False)")
    case True
    then show ?thesis by (auto simp: hello_locked_def Let_def keeps_ack)
  next
    case False
    obtain w1 r where g: "hello_gate e now (hp_deviceId p) (session_of w sock) w = (w1, r)" by fastforce
    have f: "w_store w1 = w_store w" "w_uuid w1 = w_uuid w" "jobs w1 = jobs w"
      using hello_gate_frame [of e now "hp_deviceId p" "session_of w sock" w] g by simp_all
    have 1: "keeps w w1" by (rule keeps_frame) (simp_all add: f)
    have "keeps w1 (hello_admitted e now sock p prefs key (session_of w sock) w1)"
      by (rule keeps_hello_admitted) (use f sessions_okD(1) [OF winv_parts(4) [OF w]] in \<open>auto simp: session_of_def\<close>)
    then show ?thesis
      using False g keeps_trans [OF 1 keeps_ack] keeps_trans [OF 1] by (auto simp: hello_locked_def Let_def split: option.split)
  qed
  then show "winv (hello_locked e now here sock p prefs key w) \<and> evolves w (hello_locked e now here sock p prefs key w)"
    using w by (simp add: keeps_def)
qed

section \<open>Media and call:start\<close>

lemma keeps_fetch_media: "keeps w (fetch_media e now w)"
proof (cases "w_starts w")
  case (Cons job rest)
  obtain rm kA kB where j: "job = (rm, kA, kB)" by (cases job) auto
  show ?thesis using Cons j by (intro keeps_frame) (auto simp: fetch_media_def split_beta Let_def jobs_def)
qed (simp add: fetch_media_def)

lemma keeps_start_call: "keeps w (start_call job w)"
proof -
  have "set (remove1 job (w_media w)) \<subseteq> set (w_media w)" by (rule set_remove1_subset)
  then have "jobs (w\<lparr>w_media := remove1 job (w_media w)\<rparr>) \<subseteq> jobs w" by (auto simp: jobs_def)
  then show ?thesis
    by (intro keeps_frame) (simp_all add: start_call_def split_beta Let_def split: option.split)
qed

section \<open>Shutdown\<close>

text \<open>
  The sessions removed on shutdown were all read before the first was removed, so a value may
  be stale: its room ended by an earlier removal, or the session itself removed already.
\<close>

definition stale :: "store \<Rightarrow> session \<Rightarrow> bool" where
  "stale m s \<longleftrightarrow> tracks m s \<or> getSession m (socketId s) = None \<and> (\<forall>r. roomId s = Some r \<longrightarrow> getRoom m r = None)"

lemma stale_fades:
  assumes "stale m s" "fades m m'" "seated {} m" "rooms_ok {} u m'"
  shows "stale m' s"
proof (cases "getSession m' (socketId s)")
  case (Some y)
  then have "getSession m (socketId s) \<noteq> None" using fades_device [OF assms(2)] by fastforce
  then have "tracks m s" using assms(1) by (auto simp: stale_def)
  then show ?thesis using tracks_fades [OF _ assms(2)] Some by (simp add: stale_def)
next
  case None
  have room: "getRoom m r = Some rm" if "getRoom m' r = Some rm" for r rm using assms(2) that by (simp add: fades_def)
  have "getRoom m' r = None" if r: "roomId s = Some r" for r
  proof (rule ccontr)
    assume "getRoom m' r \<noteq> None"
    then obtain rm where rm: "getRoom m' r = Some rm" by blast
    then have old: "getRoom m r = Some rm" by (rule room)
    then obtain x where x: "getSession m (socketId s) = Some x" "roomId x = Some r"
      using assms(1) r by (auto simp: stale_def tracks_def)
    then obtain i where "pick i (members rm) = socketId s" using seatedD [OF assms(3) x(1) _ x(2)] old by auto
    then show False using rooms_okD(5) [OF assms(4) rm, of i] None by (simp add: seat_def)
  qed
  then show ?thesis using None by (simp add: stale_def)
qed

lemma jdel_none: "jget q s = None \<Longrightarrow> jdel q s = q"
  by (induction q) (auto simp: jdel_def split: if_splits)

lemma remove_stale:
  assumes w: "winv w" and s: "stale (w_store w) s"
  shows "winv (removeSessionLocked e now s why w)" "fades (w_store w) (w_store (removeSessionLocked e now s why w))"
    "evolves w (removeSessionLocked e now s why w)"
proof -
  let ?w = "removeSessionLocked e now s why w"
  have "winv ?w \<and> fades (w_store w) (w_store ?w) \<and> evolves w ?w"
  proof (cases "tracks (w_store w) s")
    case True
    then show ?thesis using remove_session(1,7) [OF w True] keeps_remove [of w s] w by (simp add: keeps_def)
  next
    case False
    then have n: "getSession (w_store w) (socketId s) = None" "\<forall>r. roomId s = Some r \<longrightarrow> getRoom (w_store w) r = None"
      using s by (auto simp: stale_def)
    note P = winv_parts [OF w]
    have e0: "end_of_session e now s why w = w" using n(2) by (auto simp: end_of_session_def room_of_def split: option.split)
    have q: "removeWaiting (socketId s) (w_store w) = w_store w"
      using remove_absent [OF P(3)] P(5) n(1) by (simp add: queue_sync_def)
    have "getPhoto (w_store w) (socketId s) = None" using inv_butD(8) [OF P(1)] n(1) by (auto simp: photos_ok_def)
    then have d: "deleteSession (socketId s) (w_store w) = w_store w"
      using n(1) by (simp add: deleteSession_def getSession_def getPhoto_def jdel_none)
    have "getDeviceSocket (w_store w) (deviceId s) \<noteq> Some (socketId s)" using P(8) n(1) by (auto simp: bindings_ok_def)
    then have "w_store ?w = w_store w" "w_uuid ?w = w_uuid w" "jobs ?w = jobs w"
      using remove_store [of e now s why w] q d by (simp_all add: e0 drop_session_def clearDeviceSocket_def getDeviceSocket_def jobs_def)
    then show ?thesis using w winv_store_eq [of ?w w] evolves_frame [of ?w w] by simp
  qed
  then show "winv ?w" "fades (w_store w) (w_store ?w)" "evolves w ?w" by blast+
qed

lemma remove_all_loaded:
  "winv w \<Longrightarrow> \<forall>s \<in> set ss. \<forall>x. s = Some x \<longrightarrow> stale (w_store w) x \<Longrightarrow>
   winv (fold (\<lambda>s w. case s of Some x \<Rightarrow> removeSessionLocked e now x why w | None \<Rightarrow> w) ss w) \<and>
   evolves w (fold (\<lambda>s w. case s of Some x \<Rightarrow> removeSessionLocked e now x why w | None \<Rightarrow> w) ss w)"
proof (induction ss arbitrary: w)
  case (Cons s ss)
  show ?case
  proof (cases s)
    case None
    then show ?thesis using Cons by simp
  next
    case (Some x)
    have x: "stale (w_store w) x" using Cons.prems(2) Some by simp
    note R = remove_stale [OF Cons.prems(1) x, where e = e and now = now and why = why]
    have "\<forall>s \<in> set ss. \<forall>y. s = Some y \<longrightarrow> stale (w_store (removeSessionLocked e now x why w)) y"
      using Cons.prems stale_fades [OF _ R(2) winv_parts(6) [OF Cons.prems(1)] winv_parts(7) [OF R(1)]] by auto
    from Cons.IH [OF R(1) this] show ?thesis using Some evolves_trans [OF R(3)] by simp
  qed
qed simp

lemma keeps_shutdown_locked: "keeps w (shutdown_locked e now ids w)"
proof -
  define w1 where "w1 = fold (\<lambda>s w. case s of Some x \<Rightarrow> removeSessionLocked e now x PartnerUnavailable w | None \<Rightarrow> w)
    (getSessions (w_store w) ids) w"
  have 1: "keeps w w1"
  proof (rule keepsI)
    assume w: "winv w"
    have "\<forall>s \<in> set (getSessions (w_store w) ids). \<forall>x. s = Some x \<longrightarrow> stale (w_store w) x"
      using tracks_current [OF w] by (auto simp: getSessions_def stale_def)
    from remove_all_loaded [OF w this] show "winv w1 \<and> evolves w w1" by (simp add: w1_def)
  qed
  have "keeps w1 (on_match (forgetInstance (mc_instanceId (env_cfg e)))
      (matchPassLocked e now DirtyPass (fold (remove_if_present e now PartnerUnavailable) (listInstanceSessions (w_store w1) (mc_instanceId (env_cfg e))) w1)))"
    by (rule keeps_trans [OF keeps_trans [OF keeps_fold [OF keeps_remove_if_present] keeps_pass] keeps_forget_instance])
  from keeps_trans [OF 1 this] show ?thesis by (simp add: shutdown_locked_def Let_def flip: w1_def)
qed

section \<open>The service as a transition system\<close>

text \<open>
  One step is one part of a handler that no other part interrupts; handlers that work outside
  the lock are the sequence of their parts, and other steps may come in between. Nothing is
  assumed of the arguments: \<open>client\<close> steps come with any payload, the clock may read anything.
\<close>

inductive step :: "env \<Rightarrow> world \<Rightarrow> world \<Rightarrow> bool" for e :: env where
  hello_begins: "step e w (fst (hello_pre e now sock p ip w))"
| hello_refused: "step e w (ack sock a w)"
| hello_lock: "step e w (hello_locked e now here sock p prefs key w)"
| preferences: "step e w (updatePreferences e now sock prefs w)"
| accepts: "step e w (accept e now sock rid w)"
| declines: "step e w (decline e now sock rid w)"
| connects: "step e w (call_connected now sock rid w)"
| skips: "step e w (skip e now sock named w)"
| fails: "step e w (call_failed e now sock rid w)"
| telemeters: "step e w (telemetry sock rid w)"
| moderates: "step e w (moderationSignal e now sock rid kind w)"
| signals_on: "step e w (relay_signal sock rid data w)"
| types: "step e w (typing sock rid b w)"
| chats: "step e w (chat e now sock rid txt w)"
| report_begins: "step e w (fst (report_pre e now sock rp ip w))"
| report_lock: "step e w (report_locked e now sock rid ds w)"
| report_ends: "step e w (fst (report_submit e now no_disk sock rp ip s frame t w))"
| enforcement_calls: "step e w (deliver_calls e now w)"
| restricts: "step e w (restrictionApplied e now d r w)"
| lifts: "step e w (restrictionLifted now d remaining w)"
| leaves: "step e w (forget_local sock w)"
| disconnect_lock: "step e w (disconnect_locked e now sock w)"
| beats: "step e w (beat e now w)"
| sweep_lock: "step e w (sweep_locked e now isConnected w)"
| sweep_rewards: "step e w (tickRewards e now w)"
| sweep_online: "step e w (refresh_online e now w)"
| media: "step e w (fetch_media e now w)"
| call_starts: "step e w (start_call job w)"
| shutdown_begins: "step e w (fold (\<lambda>s. emit s ServerShutdown) ids (w\<lparr>w_stopped := True\<rparr>))"
| shutdown_lock: "step e w (shutdown_locked e now ids w)"
| shutdown_ends: "step e w (w\<lparr>w_local := []\<rparr>)"

inductive_cases step_elim: "step e w w'"

inductive reachable :: "env \<Rightarrow> world \<Rightarrow> world \<Rightarrow> bool" for e :: env where
  here: "reachable e w w"
| next_step: "reachable e w w1 \<Longrightarrow> step e w1 w2 \<Longrightarrow> reachable e w w2"

lemmas keeps_handlers =
  keeps_hello_pre keeps_ack keeps_hello_locked keeps_updatePreferences keeps_accept keeps_decline keeps_call_connected keeps_skip
  keeps_call_failed keeps_telemetry keeps_moderationSignal keeps_relay_signal keeps_typing keeps_chat keeps_report_pre
  keeps_report_locked keeps_report_submit keeps_deliver_calls keeps_restrictionApplied keeps_restrictionLifted
  keeps_forget_local keeps_disconnect_locked keeps_beat keeps_sweep_locked keeps_tickRewards keeps_refresh_online
  keeps_fetch_media keeps_start_call keeps_shutdown_locked

lemma fold_emit_frame [simp]:
  "w_store (fold (\<lambda>s. emit s ev) ids w) = w_store w" "w_uuid (fold (\<lambda>s. emit s ev) ids w) = w_uuid w"
  "jobs (fold (\<lambda>s. emit s ev) ids w) = jobs w"
  by (induction ids arbitrary: w) simp_all

lemma keeps_step: "step e w w' \<Longrightarrow> keeps w w'"
  by (induction rule: step.induct) (auto intro: keeps_handlers keeps_frame)

lemma reachable_keeps: "reachable e w w' \<Longrightarrow> keeps w w'"
  by (induction rule: reachable.induct) (auto intro: keeps_trans keeps_step)

lemma winv_new: "winv (new_world f)"
proof -
  have "inv_but {} u new_store" for u
    by (intro inv_butI) (simp_all add: queue_ok_def inv_parts new_store_def getSession_def getRoom_def getDeviceSocket_def getPhoto_def
        since_of_def jwf_def jkeys_def)
  then show ?thesis by (simp add: winv_def new_world_def undecided_def new_store_def getRoom_def)
qed

lemma reachable_winv: "reachable e (new_world f) w \<Longrightarrow> winv w"
  using reachable_keeps keepsD(1) winv_new by blast

lemma reachable_jobs:
  assumes "reachable e (new_world f) w" "rm \<in> jobs w" "getRoom (w_store w) (room_id rm) = Some cur"
  shows "same_pair cur rm"
proof -
  have "evolves (new_world f) w" using reachable_keeps [OF assms(1)] keepsD(2) winv_new by blast
  moreover have "rm \<notin> jobs (new_world f)" by (simp add: jobs_def new_world_def)
  ultimately show ?thesis using evolvesD(4) assms(2,3) by blast
qed

end
