(* ===== verification/MatchSample.thy ===== *)
theory MatchSample
  imports MatchStep
begin

text \<open>
  A concrete environment and concrete worlds reached in it, on which the theorems about the
  match service are instantiated.
\<close>

lemma bounded_by_int [code]: "bounded now m = (if 50000 < int (length m) then keep_live now m else m)"
  by (simp add: bounded_def DEDUPE_MAX_def)

definition sample_net :: net_lib where
  "sample_net = \<lparr>isIPv4 = (\<lambda>s. length (split_on CHR ''.'' s) = 4), isIPv6 = (\<lambda>s. CHR '':'' \<in> set s)\<rparr>"

definition sample_config :: match_config where
  "sample_config =
     \<lparr>mc_instanceId = ''i1'', mc_matchAcceptTimeoutMs = 15000, mc_matchAcceptGraceMs = 1500, mc_recheckIntervalMs = 10000,
      mc_recheckPairBudget = 8, mc_heartbeatIntervalMs = 5000, mc_instanceTtlMs = 20000, mc_coinIntervalMs = 60000,
      mc_coinsPerInterval = 10, mc_initialCoins = 50, mc_friendAfterMs = 300000, mc_declineBlockMs = 60000,
      mc_skipBlockMs = 300000, mc_reportBlockMs = 86400000, mc_reportAfterEndMs = 120000, mc_chatGuardMs = 30000,
      mc_photoBudget = 1000000,
      mc_ladder = \<lparr>relaxTopicsAfterMs = 5000, relaxLanguageAfterMs = 10000, lowPriorityDelayMs = 20000\<rparr>,
      mc_signals = \<lparr>earlySkipMs = 5000, earlySkipMinCalls = 2, earlySkipShare = 1 / 2, riskThreshold = 10, lowPriorityMs = 600000\<rparr>,
      mc_turn = \<lparr>turnProvider = NoTurn, stunUrls = [''stun:x''], turnUrls = [], turnSecret = None, turnUsername = None,
        turnCredential = None, turnTtlSeconds = 6, cfTurnApiToken = None, turnCacheSeconds = 6, turnMaxPerDeviceHour = 5,
        turnMaxPerIpHour = 5\<rparr>,
      mc_caps = \<lparr>perDevicePerHour = 6, perIpPerHour = 6, perDevicePerMinute = 5\<rparr>\<rparr>"

definition sample_env :: env where
  "sample_env =
     \<lparr>env_cfg = sample_config, env_tz = (\<lambda>z. Some (\<lambda>t. nat (t div 60000 mod 1440))), env_net = sample_net,
      env_turn = \<lparr>hmac_sha1 = (\<lambda>k m. k @ m), hmac_sha256 = (\<lambda>k m. k @ m), cf_answer = (\<lambda>_. None), random_secret = ''r''\<rparr>,
      env_enf = \<lparr>ee_hmac = (\<lambda>k m. k @ m), ee_salt = ''salt'', ee_net = sample_net, ee_classifier = None,
        ee_turnstile = (\<lambda>_ _. True), ee_reportAfterEndMs = 120000\<rparr>,
      env_sha = (\<lambda>s. s), env_guardName = (\<lambda>_ _. None),
      env_guardChat = (\<lambda>t _. \<lparr>g_text = t, g_redacted = False, g_contactSharing = False, g_solicitation = False\<rparr>)\<rparr>"

definition sample_hello :: "device_id \<Rightarrow> gender \<Rightarrow> match_mode \<Rightarrow> hello_payload" where
  "sample_hello d g m =
     \<lparr>hp_deviceId = d, hp_profile = \<lparr>name = d, country = ''IN'', language = ''en'', gender = g, topics = [music]\<rparr>,
      hp_photo = None, hp_preferences = \<lparr>genderFilter = AllGenders, languageFilter = ''any''\<rparr>, hp_mode = m\<rparr>"

definition joined :: "millis \<Rightarrow> socket_id \<Rightarrow> hello_payload \<Rightarrow> world \<Rightarrow> world" where
  "joined now sock p w = hello_locked sample_env now True sock p (hp_preferences p) None w"

definition sample_flags :: flags where
  "sample_flags = FLAG_DEFAULTS\<lparr>max_waiting := 5, online_count_threshold := 3, video_max_kbps := 9, relay_video_max_kbps := 5, default_mode := preview\<rparr>"

text \<open>One person waits; a second joins and the two are matched, the room waiting for both to accept.\<close>

definition world_waiting :: world where
  "world_waiting = joined 1000 ''s1'' (sample_hello ''d1'' female preview) (new_world sample_flags)"

definition world_matched :: world where
  "world_matched = joined 2000 ''s2'' (sample_hello ''d2'' male preview) world_waiting"

text \<open>Two people without a topic in common wait side by side until the ladder drops the topics.\<close>

definition world_apart :: world where
  "world_apart = joined 2000 ''s2'' ((sample_hello ''d2'' male preview)\<lparr>hp_profile := \<lparr>name = ''d2'', country = ''IN'', language = ''en'',
     gender = male, topics = [sports]\<rparr>\<rparr>) world_waiting"

text \<open>In instant mode the match is a call at once.\<close>

definition world_live :: world where
  "world_live = joined 2000 ''s2'' (sample_hello ''d2'' male instant)
     (joined 1000 ''s1'' (sample_hello ''d1'' female instant) (new_world (sample_flags\<lparr>default_mode := instant\<rparr>)))"

end
