(* ===== verification/MatchTheorems.thy ===== *)
theory MatchTheorems
  imports MatchSample
begin

text \<open>
  The properties of the match service: what holds of every reachable state, what a match pass
  decides, and what the handlers guarantee to the people in a room.
\<close>

section \<open>The sample worlds\<close>

lemma waiting_reached: "reachable sample_env (new_world sample_flags) world_waiting"
  unfolding world_waiting_def joined_def by (rule next_step [OF here hello_lock])

lemma matched_reached: "reachable sample_env (new_world sample_flags) world_matched"
  unfolding world_matched_def joined_def by (rule next_step [OF waiting_reached hello_lock])

lemma live_reached: "reachable sample_env (new_world (sample_flags\<lparr>default_mode := instant\<rparr>)) world_live"
  unfolding world_live_def joined_def by (rule next_step [OF next_step [OF here hello_lock] hello_lock])

lemma apart_reached: "reachable sample_env (new_world sample_flags) world_apart"
  unfolding world_apart_def joined_def by (rule next_step [OF waiting_reached hello_lock])

definition seen :: "world \<Rightarrow> socket_id \<Rightarrow> (session_state \<times> uuid option \<times> device_id) option" where
  "seen w s = map_option (\<lambda>x. (state x, roomId x, deviceId x)) (session_of w s)"

lemma seen_some: "seen w s = Some (st, r, d) \<longleftrightarrow> (\<exists>x. session_of w s = Some x \<and> state x = st \<and> roomId x = r \<and> deviceId x = d)"
  by (auto simp: seen_def)

lemma matched_view: "seen world_matched ''s1'' = Some (Pending, Some 0, ''d1'') \<and> seen world_matched ''s2'' = Some (Pending, Some 0, ''d2'')"
  by code_simp

lemma waiting_view: "seen world_waiting ''s1'' = Some (Waiting, None, ''d1'') \<and> listWaiting (w_store world_waiting) = [''s1'']"
  by code_simp

lemma live_view: "seen world_live ''s1'' = Some (Active, Some 0, ''d1'') \<and> activePartner world_live ''s1'' 0 = Some ''s2'' \<and> length (w_starts world_live) = 1"
  by code_simp

lemma apart_view:
  "matched_pairs sample_env 9000 DirtyPass world_apart = [] \<and> matched_pairs sample_env 9000 FullPass world_apart = [(0, 1)]
   \<and> matched_pairs sample_env 9000 RecheckPass world_apart = [(0, 1)]
   \<and> map socketId (waiting_sessions (w_store world_apart)) = [''s1'', ''s2''] \<and> w_uuid world_apart = 0"
  by code_simp

section \<open>Every reachable state\<close>

lemma queue_times:
  assumes "winv w"
  shows "map snd (waiting (w_store w)) = map (\<lambda>s. the (waitingSince (the (session_of w s)))) (listWaiting (w_store w))"
proof -
  note P = winv_parts [OF assms]
  have "snd p = the (waitingSince (the (session_of w (fst p))))" if "p \<in> set (waiting (w_store w))" for p
  proof -
    have "jget (waiting (w_store w)) (fst p) = Some (snd p)"
      using P(3) that in_jget [of "waiting (w_store w)" "fst p" "snd p"] by (simp add: queue_ok_def)
    then have "since_of (w_store w) (fst p) = Some (snd p)" by (simp add: since_of_def)
    then obtain x where "getSession (w_store w) (fst p) = Some x" "waitingSince x = Some (snd p)"
      using P(5) by (auto simp: queue_sync_def split: option.splits)
    then show ?thesis by (simp add: session_of_def)
  qed
  then show ?thesis by (simp add: listWaiting_def)
qed

text \<open>
  C5: in every reachable state the waiting queue holds each socket at most once, in the order of the
  time its session began to wait, and it holds exactly the sockets whose session waits.
\<close>

theorem queue_holds_the_waiting:
  assumes "reachable e (new_world f) w"
  shows "distinct (listWaiting (w_store w))
    \<and> (\<forall>s. s \<in> set (listWaiting (w_store w)) = (\<exists>x. session_of w s = Some x \<and> state x = Waiting))
    \<and> sorted (map (\<lambda>s. the (waitingSince (the (session_of w s)))) (listWaiting (w_store w)))"
proof -
  have w: "winv w" by (rule reachable_winv [OF assms])
  note P = winv_parts [OF w]
  have d: "distinct (listWaiting (w_store w))" using P(3) by (simp add: queue_ok_def jwf_def jkeys_def listWaiting_def)
  have m: "s \<in> set (listWaiting (w_store w)) = (\<exists>x. session_of w s = Some x \<and> state x = Waiting)" for s
  proof
    show "s \<in> set (listWaiting (w_store w)) \<Longrightarrow> \<exists>x. session_of w s = Some x \<and> state x = Waiting"
      using queued_waits [OF w] by (fastforce simp: session_of_def)
    assume "\<exists>x. session_of w s = Some x \<and> state x = Waiting"
    then obtain x where x: "getSession (w_store w) s = Some x" "state x = Waiting" by (auto simp: session_of_def)
    then have "waitingSince x \<noteq> None" using sessions_okD(2) [OF P(4) x(1)] by (simp add: shape_def)
    then show "s \<in> set (listWaiting (w_store w))" using P(5) x(1) by (simp add: listWaiting_iff queue_sync_def)
  qed
  have "sorted (map (\<lambda>s. the (waitingSince (the (session_of w s)))) (listWaiting (w_store w)))"
    using P(3) queue_times [OF w] by (simp add: queue_ok_def)
  then show ?thesis using d m by blast
qed

theorem queue_holds_the_waiting_witness:
  "set (listWaiting (w_store world_waiting)) = {''s1''} \<and> ''s2'' \<notin> set (listWaiting (w_store world_matched))"
proof
  show "set (listWaiting (w_store world_waiting)) = {''s1''}" using waiting_view by simp
  obtain x where x: "session_of world_matched ''s2'' = Some x" "state x = Pending" using matched_view by (auto simp: seen_some)
  have "''s2'' \<in> set (listWaiting (w_store world_matched)) = (\<exists>x. session_of world_matched ''s2'' = Some x \<and> state x = Waiting)"
    using queue_holds_the_waiting [OF matched_reached] by blast
  then show "''s2'' \<notin> set (listWaiting (w_store world_matched))" using x by simp
qed

text \<open>
  C10: in every reachable state a device has at most one session, and the device's binding names the
  socket of that session exactly when there is one.
\<close>

theorem one_session_each_device:
  assumes "reachable e (new_world f) w"
  shows "(getDeviceSocket (w_store w) d = Some s) = (\<exists>x. session_of w s = Some x \<and> deviceId x = d)
    \<and> (\<forall>t x y. session_of w s = Some x \<and> session_of w t = Some y \<and> deviceId x = deviceId y \<longrightarrow> s = t)"
proof (intro conjI allI impI)
  note B = winv_parts(8) [OF reachable_winv [OF assms]]
  show "(getDeviceSocket (w_store w) d = Some s) = (\<exists>x. session_of w s = Some x \<and> deviceId x = d)"
    using B unfolding bindings_ok_def session_of_def by blast
  show "s = t" if "session_of w s = Some x \<and> session_of w t = Some y \<and> deviceId x = deviceId y" for t x y
    using one_session_per_device [OF B, of s x t y] that by (simp add: session_of_def)
qed

theorem one_session_each_device_witness: "getDeviceSocket (w_store world_matched) ''d1'' = Some ''s1''"
  using one_session_each_device [OF matched_reached, of "''d1''" "''s1''"] matched_view by (auto simp: seen_some)

text \<open>
  C1: in every reachable state a session that is in a room sits in exactly one room, on one side of it; the
  other side holds a different socket and device whose session is in the same room and in the same state, and
  that state is the room's.
\<close>

theorem rooms_are_mutual:
  assumes "reachable e (new_world f) w" "session_of w s = Some x" "roomId x = Some rid"
  shows "\<exists>rm i y. room_of w rid = Some rm \<and> pick i (members rm) = s \<and> pick i (devices rm) = deviceId x
    \<and> session_of w (pick (other i) (members rm)) = Some y \<and> pick (other i) (members rm) \<noteq> s \<and> roomId y = Some rid
    \<and> deviceId y = pick (other i) (devices rm) \<and> deviceId y \<noteq> deviceId x
    \<and> state x = session_state_of (room_state rm) \<and> state y = state x
    \<and> (\<forall>r rm' j. room_of w r = Some rm' \<and> pick j (members rm') = s \<longrightarrow> r = rid)"
proof -
  have w: "winv w" by (rule reachable_winv [OF assms(1)])
  note P = winv_parts [OF w]
  have x: "getSession (w_store w) s = Some x" using assms(2) by (simp add: session_of_def)
  obtain rm i where rm: "getRoom (w_store w) rid = Some rm" "pick i (members rm) = s"
    using seatedD [OF P(6) x _ assms(3)] by blast
  note R = rooms_okD [OF P(7) rm(1)]
  obtain y where y: "getSession (w_store w) (pick (other i) (members rm)) = Some y" "roomId y = Some rid"
      "deviceId y = pick (other i) (devices rm)" "state y = session_state_of (room_state rm)"
    using R(5) [of "other i"] R(1) by (auto simp: seat_def)
  have sx: "deviceId x = pick i (devices rm)" "state x = session_state_of (room_state rm)"
    using R(5) [of i] rm(2) x by (auto simp: seat_def)
  have ne: "pick (other i) (members rm) \<noteq> s"
    using R(4) rm(2) other_side [of "other i" "members rm" i] by auto
  have dev: "deviceId y \<noteq> deviceId x" using one_session_per_device [OF P(8) y(1) x] ne by auto
  have "r = rid" if "room_of w r = Some rm'" "pick j (members rm') = s" for r rm' j
    using rooms_okD(1) [OF P(7), of r rm'] rooms_okD(5) [OF P(7), of r rm' j] that x assms(3) by (auto simp: seat_def room_of_def)
  then have only: "\<forall>r rm' j. room_of w r = Some rm' \<and> pick j (members rm') = s \<longrightarrow> r = rid" by blast
  show ?thesis
    by (intro exI [of _ rm] exI [of _ i] exI [of _ y] conjI only)
      (use rm y sx ne dev in \<open>simp_all add: room_of_def session_of_def\<close>)
qed

theorem rooms_are_mutual_witness:
  "\<exists>rm i y. room_of world_matched 0 = Some rm \<and> pick i (members rm) = ''s1'' \<and> session_of world_matched (pick (other i) (members rm)) = Some y
     \<and> state y = Pending"
proof -
  obtain x where x: "session_of world_matched ''s1'' = Some x" "state x = Pending" "roomId x = Some 0"
    using matched_view by (auto simp: seen_some)
  from rooms_are_mutual [OF matched_reached x(1,3)]
  obtain rm i y where "room_of world_matched 0 = Some rm" "pick i (members rm) = ''s1''"
    "session_of world_matched (pick (other i) (members rm)) = Some y" "state y = state x" by blast
  then show ?thesis unfolding x(2) by blast
qed

section \<open>The match pass\<close>

lemma pairs_range: "(i, j) \<in> set (matched_pairs e now md w) \<Longrightarrow> i < j \<and> j < length (waiting_sessions (w_store w))"
proof -
  assume a: "(i, j) \<in> set (matched_pairs e now md w)"
  let ?ws = "waiting_sessions (w_store w)"
  have "(i, j) \<in> set (pass_pairs e now w ?ws (pass_focus e md w ?ws))"
    using a by (auto simp: matched_pairs_def Let_def split: if_splits)
  then have "i < length ?ws" "j \<in> set (partners_of ?ws (pass_focus e md w ?ws) i)"
    unfolding pass_pairs_def by (auto dest: greedy_eligible)
  then show ?thesis by (rule partners_of_range)
qed

lemma pairs_disjoint: "distinct (concat (map (\<lambda>(i, j). [i, j]) (matched_pairs e now md w)))"
proof (cases "is_open (snd (status (env_tz e) now (w_flags w)))")
  case True
  let ?ws = "waiting_sessions (w_store w)"
  have ne: "i \<notin> set (partners_of ?ws fo i)" for i fo
    by (auto simp: partners_of_def Let_def split: option.split)
  show ?thesis using True greedy_disjoint [OF ne] by (simp add: matched_pairs_def pass_pairs_def Let_def)
qed (simp add: matched_pairs_def)

text \<open>What a pass leaves behind: the rooms of the pairs, everyone else and every other room as before.\<close>

lemma pass_facts:
  fixes e :: env and now :: millis and md :: pass_mode and w :: world
  assumes w: "winv w"
  defines "ws \<equiv> waiting_sessions (w_store w)" and "pairs \<equiv> matched_pairs e now md w" and "w' \<equiv> matchPassLocked e now md w"
  shows "n < length pairs \<Longrightarrow> room_for w' (w_uuid w + n) (ws ! fst (pairs ! n)) (ws ! snd (pairs ! n))"
    and "\<forall>(i, j) \<in> set pairs. i < j \<and> j < length ws"
    and "k < length ws \<Longrightarrow> k \<notin> takes pairs \<Longrightarrow> session_of w' (socketId (ws ! k)) = Some (ws ! k)"
    and "r \<notin> {w_uuid w..<w_uuid w + length pairs} \<Longrightarrow> room_of w' r = room_of w r"
proof -
  have p: "paired w ws pairs w'" unfolding ws_def pairs_def w'_def by (rule match_pass_refines [OF w])
  note P = pairedD [OF p]
  show "n < length pairs \<Longrightarrow> room_for w' (w_uuid w + n) (ws ! fst (pairs ! n)) (ws ! snd (pairs ! n))" by (rule P(7))
  show range: "\<forall>(i, j) \<in> set pairs. i < j \<and> j < length ws" using pairs_range unfolding ws_def pairs_def by blast
  then have small: "\<forall>n \<in> takes pairs. n < length ws" by (fastforce simp: takes_def)
  show "session_of w' (socketId (ws ! k)) = Some (ws ! k)" if "k < length ws" "k \<notin> takes pairs"
    using untaken_kept(1) [OF _ p that small] load_queue(2) [OF w] by (simp add: session_of_def ws_def)
  show "room_of w' r = room_of w r" if r: "r \<notin> {w_uuid w..<w_uuid w + length pairs}"
  proof (cases "r < w_uuid w")
    case True
    then show ?thesis using P(6) by (simp add: room_of_def)
  next
    case False
    then have big: "w_uuid w' \<le> r" "w_uuid w \<le> r" using r P(4) by auto
    have "getRoom (w_store v) r = None" if "winv v" "w_uuid v \<le> r" for v
      using rooms_okD(2) [OF winv_parts(7) [OF that(1)]] that(2) by (metis not_None_eq not_le)
    then show ?thesis using big P(1) w by (simp add: room_of_def)
  qed
qed

definition waits :: "world \<Rightarrow> socket_id \<Rightarrow> bool" where
  "waits w s \<longleftrightarrow> (\<exists>x. session_of w s = Some x \<and> state x = Waiting)"

lemma queue_waits:
  assumes "winv w" "k < length (waiting_sessions (w_store w))"
  defines "s \<equiv> waiting_sessions (w_store w) ! k"
  shows "session_of w (socketId s) = Some s" "state s = Waiting" "waitingSince s \<noteq> None"
proof -
  show s: "session_of w (socketId s) = Some s" "state s = Waiting"
    using load_queue(2) [OF assms(1)] assms(2) by (auto simp: queue_of_def session_of_def s_def)
  then show "waitingSince s \<noteq> None"
    using sessions_okD [OF winv_parts(4) [OF assms(1)], of "socketId s" s] by (auto simp: session_of_def shape_def)
qed

lemma takes_nth: "k \<in> takes pairs \<longleftrightarrow> (\<exists>n < length pairs. k = fst (pairs ! n) \<or> k = snd (pairs ! n))"
  by (auto simp: takes_def in_set_conv_nth image_iff) (metis fst_conv nth_mem prod.collapse snd_conv)+

lemma pass_leaves:
  assumes w: "winv w" and k: "k < length (waiting_sessions (w_store w))"
  shows "waits (matchPassLocked e now md w) (socketId (waiting_sessions (w_store w) ! k)) \<longleftrightarrow> k \<notin> takes (matched_pairs e now md w)"
proof (cases "k \<in> takes (matched_pairs e now md w)")
  case True
  then obtain n where n: "n < length (matched_pairs e now md w)" "k = fst (matched_pairs e now md w ! n) \<or> k = snd (matched_pairs e now md w ! n)"
    by (auto simp: takes_nth)
  show ?thesis using pass_facts(1) [OF w n(1)] n(2) True by (auto simp: room_for_def placed_def waits_def session_of_def)
next
  case False
  then show ?thesis using pass_facts(3) [OF w k False] queue_waits(2) [OF w k] by (simp add: waits_def)
qed

lemma fresh_room:
  assumes w: "winv w" and r: "room_of w r = None" "room_of (matchPassLocked e now md w) r = Some rm"
  defines "ws \<equiv> waiting_sessions (w_store w)" and "pairs \<equiv> matched_pairs e now md w"
  obtains i j where "(i, j) \<in> set pairs" "members rm = (socketId (ws ! i), socketId (ws ! j))" "i < j" "j < length ws"
proof -
  have "r \<in> {w_uuid w..<w_uuid w + length pairs}" using pass_facts(4) [OF w, of r e now md] r by (auto simp: pairs_def)
  then have n: "r - w_uuid w < length pairs" "w_uuid w + (r - w_uuid w) = r" by auto
  let ?p = "pairs ! (r - w_uuid w)"
  have p: "?p \<in> set pairs" using n(1) by simp
  have "members rm = (socketId (ws ! fst ?p), socketId (ws ! snd ?p))"
    using pass_facts(1) [OF w, of "r - w_uuid w" e now md] n r(2) by (auto simp: room_for_def room_of_def ws_def pairs_def)
  then show thesis using that [of "fst ?p" "snd ?p"] p pass_facts(2) [OF w, of e now md] by (auto simp: ws_def pairs_def)
qed

text \<open>
  C2: a match pass is the greedy matching of the queue: it opens, in order, one room for each pair the
  greedy specification picks, both members placed in it; nobody is in two pairs; the sessions of everyone
  else in the queue and all other rooms are untouched.
\<close>

theorem match_pass_is_greedy:
  assumes "reachable e (new_world f) w" "ws = waiting_sessions (w_store w)" "pairs = matched_pairs e now md w"
    "w' = matchPassLocked e now md w"
  shows "(\<forall>n < length pairs. room_for w' (w_uuid w + n) (ws ! fst (pairs ! n)) (ws ! snd (pairs ! n)))
    \<and> distinct (concat (map (\<lambda>(i, j). [i, j]) pairs)) \<and> (\<forall>(i, j) \<in> set pairs. i < j \<and> j < length ws)
    \<and> (\<forall>k < length ws. k \<notin> takes pairs \<longrightarrow> session_of w' (socketId (ws ! k)) = Some (ws ! k))
    \<and> (\<forall>r. r \<notin> {w_uuid w..<w_uuid w + length pairs} \<longrightarrow> room_of w' r = room_of w r)"
  using pass_facts [OF reachable_winv [OF assms(1)]] pairs_disjoint [of e now md w] unfolding assms(2-4) by blast

theorem match_pass_is_greedy_witness:
  "\<exists>rm. room_of (matchPassLocked sample_env 9000 FullPass world_apart) 0 = Some rm \<and> members rm = (''s1'', ''s2'')"
proof -
  let ?ws = "waiting_sessions (w_store world_apart)"
  have ws: "map socketId ?ws = [''s1'', ''s2'']" and pairs: "matched_pairs sample_env 9000 FullPass world_apart = [(0, 1)]"
    and u: "w_uuid world_apart = 0" using apart_view by simp_all
  then have "length ?ws = 2" by (metis length_map length_Cons list.size(3) numeral_2_eq_2)
  then have soc: "socketId (?ws ! 0) = ''s1''" "socketId (?ws ! 1) = ''s2''"
    using arg_cong [OF ws, of "\<lambda>l. l ! 0"] arg_cong [OF ws, of "\<lambda>l. l ! 1"] by simp_all
  have "room_for (matchPassLocked sample_env 9000 FullPass world_apart) 0 (?ws ! 0) (?ws ! 1)"
    using match_pass_is_greedy [OF apart_reached refl refl refl, of 9000 FullPass] pairs u by simp
  then show ?thesis using soc by (auto simp: room_for_def room_of_def)
qed

definition relaxed_step :: "env \<Rightarrow> millis \<Rightarrow> world \<Rightarrow> session \<Rightarrow> int" where
  "relaxed_step e now w s =
     relaxStep (now - the (waitingSince s)) (mc_ladder (env_cfg e)) (deviceId s \<in> set (snd (lowPriority now (w_sig w))))"

lemma pass_step:
  assumes "winv w" "k < length (waiting_sessions (w_store w))"
  shows "pass_steps e now w (waiting_sessions (w_store w)) ! k = relaxed_step e now w (waiting_sessions (w_store w) ! k)"
  using queue_waits(3) [OF assms] assms(2) by (auto simp: pass_steps_def steps_of_def relaxed_step_def)

text \<open>
  C3: whoever a pass puts into a new room was waiting and may be matched: matching is open, neither is held
  back or banned, neither has blocked the other, both sides' filters admit the other, and the preferences hold
  at the pair's ladder step.
\<close>

theorem match_pass_respects_rules:
  assumes "reachable e (new_world f) w" "room_of w r = None" "room_of (matchPassLocked e now md w) r = Some rm"
  shows "\<exists>a b st. session_of w (fst (members rm)) = Some a \<and> session_of w (snd (members rm)) = Some b
    \<and> state a = Waiting \<and> state b = Waiting \<and> deviceId a \<noteq> deviceId b
    \<and> is_open (snd (status (env_tz e) now (w_flags w)))
    \<and> accepts (candidate_of a) (candidate_of b) \<and> accepts (candidate_of b) (candidate_of a)
    \<and> st = pairStep (relaxed_step e now w a) (relaxed_step e now w b) \<and> st \<noteq> HELD
    \<and> meetsPreferences (candidate_of a) (candidate_of b) st
    \<and> getBan now (w_store w) (deviceId a) = None \<and> getBan now (w_store w) (deviceId b) = None
    \<and> (\<forall>k. getBlock now (w_store w) (deviceId a) (deviceId b) = Some k \<longrightarrow> block_until k \<le> now)"
proof -
  note w = reachable_winv [OF assms(1)]
  obtain i j where ij: "(i, j) \<in> set (matched_pairs e now md w)" "i < j" "j < length (waiting_sessions (w_store w))"
    "members rm = (socketId (waiting_sessions (w_store w) ! i), socketId (waiting_sessions (w_store w) ! j))"
    using fresh_room [OF w assms(2,3)] by metis
  define a where "a = waiting_sessions (w_store w) ! i"
  define b where "b = waiting_sessions (w_store w) ! j"
  have i: "i < length (waiting_sessions (w_store w))" using ij by simp
  have o: "is_open (snd (status (env_tz e) now (w_flags w)))" using ij(1) by (auto simp: matched_pairs_def Let_def split: if_splits)
  have el: "eligible now w (waiting_sessions (w_store w)) (pass_steps e now w (waiting_sessions (w_store w))) i j"
    using ij(1) o by (auto simp: matched_pairs_def pass_pairs_def Let_def dest: greedy_eligible)
  then have m: "may_pair (relaxed_step e now w a) (relaxed_step e now w b) a b"
    by (simp add: eligible_def pass_step [OF w] i ij(3) a_def b_def)
  then have c: "isCompatible (candidate_of a) (candidate_of b)" by (simp add: may_pair_def Let_def)
  have "deviceId a \<noteq> deviceId b" using isCompatible_devices [OF c] by (simp add: candidate_of_def)
  moreover have "\<forall>k. getBlock now (w_store w) (deviceId a) (deviceId b) = Some k \<longrightarrow> block_until k \<le> now"
    and "getBan now (w_store w) (deviceId a) = None" "getBan now (w_store w) (deviceId b) = None"
    using el by (auto simp: eligible_def is_banned_def blocked_until_def a_def b_def split: option.splits if_splits)
  ultimately show ?thesis
    using queue_waits [OF w i] queue_waits [OF w ij(3)] ij(4) o isCompatible_accepts [OF c] m
    by (intro exI [of _ a] exI [of _ b] exI [of _ "pairStep (relaxed_step e now w a) (relaxed_step e now w b)"])
      (simp add: a_def b_def may_pair_def Let_def)
qed

theorem match_pass_respects_rules_witness:
  "\<exists>rm a b. room_of (matchPassLocked sample_env 9000 FullPass world_apart) 0 = Some rm
     \<and> session_of world_apart (fst (members rm)) = Some a \<and> session_of world_apart (snd (members rm)) = Some b
     \<and> accepts (candidate_of a) (candidate_of b)"
proof -
  have "winv world_apart" by (rule reachable_winv [OF apart_reached])
  from pass_facts(1) [OF this, of 0 sample_env 9000 FullPass] apart_view
  obtain rm where rm: "room_of (matchPassLocked sample_env 9000 FullPass world_apart) 0 = Some rm"
    by (auto simp: room_for_def room_of_def)
  have "room_of world_apart 0 = None" by code_simp
  from match_pass_respects_rules [OF apart_reached this rm] rm show ?thesis by blast
qed

text \<open>
  C4: a pass on an open service leaves no two people waiting who could have been matched, if one of them was in
  focus (a full pass has everyone in focus). And partners come in the order of the queue: if one of two eligible
  people opens a room while the other is left waiting, then with somebody who stands before the other.
\<close>

theorem match_pass_leaves_no_pair:
  assumes "reachable e (new_world f) w" "is_open (snd (status (env_tz e) now (w_flags w)))"
    "ws = waiting_sessions (w_store w)" "w' = matchPassLocked e now md w"
    "i < j" "j < length ws" "eligible now w ws (pass_steps e now w ws) i j"
    "\<And>f. pass_focus e md w ws = Some f \<Longrightarrow> socketId (ws ! i) \<in> set f \<or> socketId (ws ! j) \<in> set f"
  shows "\<not> (waits w' (socketId (ws ! i)) \<and> waits w' (socketId (ws ! j)))
    \<and> (\<forall>r rm. waits w' (socketId (ws ! j)) \<and> room_of w r = None \<and> room_of w' r = Some rm \<and> fst (members rm) = socketId (ws ! i)
         \<longrightarrow> (\<exists>k. i < k \<and> k < j \<and> snd (members rm) = socketId (ws ! k)))"
proof -
  note w = reachable_winv [OF assms(1)]
  let ?el = "eligible now w ws (pass_steps e now w ws)" and ?f = "pass_focus e md w ws" and ?pairs = "matched_pairs e now md w"
  have p: "?pairs = greedy ?el (partners_of ws ?f) [0..<length ws] []"
    using assms(2,3) by (simp add: matched_pairs_def pass_pairs_def Let_def)
  have j: "j \<in> set (partners_of ws ?f i)"
    using assms(5,6,8) by (auto simp: partners_of_def Let_def split: option.split)
  have wt: "waits w' (socketId (ws ! k)) \<longleftrightarrow> k \<notin> takes ?pairs" if "k < length ws" for k
    using pass_leaves [OF w] that unfolding assms(3,4) by blast
  have "i \<in> takes ?pairs \<or> j \<in> takes ?pairs"
    using greedy_maximal [of i "[0..<length ws]" j "partners_of ws ?f" ?el "[]", OF _ j assms(7)] assms(5,6) by (simp add: p)
  moreover have "\<exists>k. i < k \<and> k < j \<and> snd (members rm) = socketId (ws ! k)"
    if r: "waits w' (socketId (ws ! j))" "room_of w r = None" "room_of w' r = Some rm" "fst (members rm) = socketId (ws ! i)" for r rm
  proof -
    obtain x k where xk: "(x, k) \<in> set ?pairs" "members rm = (socketId (ws ! x), socketId (ws ! k))" "x < k" "k < length ws"
      using fresh_room [OF w r(2)] r(3) unfolding assms(3,4) by metis
    have "x = i" using socket_index [OF load_queue(2) [OF w], of x i] xk r(4) assms(3,5,6) by auto
    moreover have "j \<notin> takes ?pairs" using wt [OF assms(6)] r(1) by simp
    ultimately have "k < j"
      using greedy_first [where el = ?el and i = i and k = j and ps = "partners_of ws ?f" and j = k and taken = "[]", OF _ j assms(7) partners_of_sorted] xk
      by (simp add: p)
    then show ?thesis using xk \<open>x = i\<close> by auto
  qed
  moreover have "i < length ws" using assms(5,6) by simp
  ultimately show ?thesis using wt [OF assms(6)] wt [of i] by blast
qed

theorem match_pass_leaves_no_pair_witness:
  "\<not> (waits (matchPassLocked sample_env 9000 FullPass world_apart) (socketId (waiting_sessions (w_store world_apart) ! 0))
     \<and> waits (matchPassLocked sample_env 9000 FullPass world_apart) (socketId (waiting_sessions (w_store world_apart) ! 1)))"
proof -
  have 1: "is_open (snd (status (env_tz sample_env) 9000 (w_flags world_apart)))" "1 < length (waiting_sessions (w_store world_apart))"
    "eligible 9000 world_apart (waiting_sessions (w_store world_apart)) (pass_steps sample_env 9000 world_apart (waiting_sessions (w_store world_apart))) 0 1"
    by code_simp+
  show ?thesis
    using match_pass_leaves_no_pair [OF apart_reached 1(1) refl refl _ 1(2,3), of FullPass] by (simp add: pass_focus_def)
qed

lemma upt_append_split: "k \<le> n \<Longrightarrow> [0..<n] = [0..<k] @ [k..<n]"
  using upt_add_eq_append [of 0 k "n - k"] by simp

lemma find_filter: "(\<And>x. P x \<Longrightarrow> x \<in> set xs \<Longrightarrow> Q x) \<Longrightarrow> find P (filter Q xs) = find P xs"
  by (induction xs) auto

text \<open>
  C18: a pass over the dirty sessions only opens the rooms of a full pass, provided no two sessions outside the
  dirty set could be matched with each other (which is what marking a session dirty whenever it changes is for).
\<close>

theorem dirty_pass_equals_full:
  assumes "winv w" "ws = waiting_sessions (w_store w)"
    "\<And>i j. i < j \<Longrightarrow> j < length ws \<Longrightarrow> eligible now w ws (pass_steps e now w ws) i j \<Longrightarrow>
       socketId (ws ! i) \<in> set (w_dirty w) \<or> socketId (ws ! j) \<in> set (w_dirty w)"
  shows "map_option members (room_of (matchPassLocked e now DirtyPass w) r) = map_option members (room_of (matchPassLocked e now FullPass w) r)"
proof -
  let ?el = "eligible now w ws (pass_steps e now w ws)" and ?f = "Some (w_dirty w)"
  have find: "find (\<lambda>j. j \<notin> set t \<and> ?el i j) (partners_of ws ?f i) = find (\<lambda>j. j \<notin> set t \<and> ?el i j) (partners_of ws None i)"
    if i: "i < length ws" for i t
  proof (cases "socketId (ws ! i) \<in> set (w_dirty w)")
    case False
    have "filter (\<lambda>j. i < j \<and> Q j) [0..<length ws] = filter Q [i + 1..<length ws]" for Q
    proof -
      have "[0..<length ws] = [0..<i + 1] @ [i + 1..<length ws]" using upt_append_split [of "i + 1" "length ws"] i by simp
      then have "filter (\<lambda>j. i < j \<and> Q j) [0..<length ws] = filter (\<lambda>j. i < j \<and> Q j) [0..<i + 1] @ filter (\<lambda>j. i < j \<and> Q j) [i + 1..<length ws]"
        by (simp only: filter_append)
      moreover have "filter (\<lambda>j. i < j \<and> Q j) [0..<i + 1] = []" by (auto simp: filter_empty_conv)
      moreover have "filter (\<lambda>j. i < j \<and> Q j) [i + 1..<length ws] = filter Q [i + 1..<length ws]" by (rule filter_cong) auto
      ultimately show ?thesis by simp
    qed
    then have "partners_of ws ?f i = filter (\<lambda>j. socketId (ws ! j) \<in> set (w_dirty w)) (partners_of ws None i)"
      using False by (simp add: partners_of_def Let_def)
    moreover have "socketId (ws ! j) \<in> set (w_dirty w)" if "j \<notin> set t \<and> ?el i j" "j \<in> set (partners_of ws None i)" for j
      using assms(3) [of i j] that False by (auto simp: partners_of_def Let_def)
    ultimately show ?thesis using find_filter [of "\<lambda>j. j \<notin> set t \<and> ?el i j" "partners_of ws None i"] by simp
  qed (simp add: partners_of_def Let_def)
  have "greedy ?el (partners_of ws ?f) us t = greedy ?el (partners_of ws None) us t" if "\<forall>i \<in> set us. i < length ws" for us t
    using that by (induction us arbitrary: t) (auto simp: find split: option.split)
  then have same: "matched_pairs e now DirtyPass w = matched_pairs e now FullPass w"
    by (simp add: matched_pairs_def pass_pairs_def pass_focus_def Let_def flip: assms(2))
  let ?p = "matched_pairs e now FullPass w"
  show ?thesis
  proof (cases "r \<in> {w_uuid w..<w_uuid w + length ?p}")
    case True
    then have n: "r - w_uuid w < length ?p" "w_uuid w + (r - w_uuid w) = r" by auto
    show ?thesis
      using pass_facts(1) [OF assms(1), of "r - w_uuid w" e now DirtyPass] pass_facts(1) [OF assms(1), of "r - w_uuid w" e now FullPass] n
      by (auto simp: same room_for_def room_of_def)
  next
    case False
    then show ?thesis using pass_facts(4) [OF assms(1), of r e now] by (simp add: same)
  qed
qed

theorem dirty_pass_equals_full_witness:
  "map_option members (room_of (matchPassLocked sample_env 9000 DirtyPass (mark_dirty ''s2'' world_apart)) 0)
    = map_option members (room_of (matchPassLocked sample_env 9000 FullPass (mark_dirty ''s2'' world_apart)) 0)"
proof (rule dirty_pass_equals_full [OF _ refl])
  let ?w = "mark_dirty ''s2'' world_apart"
  show "winv ?w" using reachable_winv [OF apart_reached] winv_store_eq [of ?w world_apart] by simp
  have ws: "map socketId (waiting_sessions (w_store ?w)) = [''s1'', ''s2'']" using apart_view by simp
  show "socketId (waiting_sessions (w_store ?w) ! i) \<in> set (w_dirty ?w) \<or> socketId (waiting_sessions (w_store ?w) ! j) \<in> set (w_dirty ?w)"
    if ij: "i < j" "j < length (waiting_sessions (w_store ?w))" for i j
  proof -
    have "length (waiting_sessions (w_store ?w)) = 2" using arg_cong [OF ws, of length] by simp
    then have "j = 1" using ij by simp
    then have "socketId (waiting_sessions (w_store ?w) ! j) = ''s2''" using arg_cong [OF ws, of "\<lambda>l. l ! 1"] ij by simp
    then show ?thesis by (simp add: mark_dirty_def sadd_def)
  qed
qed

end
