(* ===== verification/CallTheorems.thy ===== *)
theory CallTheorems
  imports MatchTheorems
begin

text \<open>
  What the handlers of the match service guarantee to the two people of a room: who hears
  them, when the call starts, that a parted pair does not meet again at once, that no match
  hangs, and that a restricted device is out.
\<close>

section \<open>Relays\<close>

text \<open>Both people of an active room.\<close>

definition together :: "world \<Rightarrow> uuid \<Rightarrow> socket_id \<Rightarrow> socket_id \<Rightarrow> bool" where
  "together w rid s p \<longleftrightarrow>
     (\<exists>rm i. room_of w rid = Some rm \<and> room_state rm = RActive \<and> pick i (members rm) = s \<and> pick (other i) (members rm) = p) \<and>
     (\<exists>x y. session_of w s = Some x \<and> session_of w p = Some y \<and> state x = Active \<and> state y = Active \<and>
        roomId x = Some rid \<and> roomId y = Some rid \<and> deviceId x \<noteq> deviceId y)"

lemma activeRoom_together:
  assumes w: "winv w" and a: "activeRoom w sock rid = Some (rm, i)"
  shows "together w rid sock (pick (other i) (members rm))"
proof -
  note P = winv_parts [OF w] and A = activeRoom_some [OF a]
  obtain x where x: "getSession (w_store w) sock = Some x" "roomId x = Some rid" "state x = Active" using A(4) by blast
  note R = rooms_okD [OF P(7) A(1)]
  obtain y where y: "getSession (w_store w) (pick (other i) (members rm)) = Some y" "roomId y = Some rid" "state y = Active"
    using R(5) [of "other i"] R(1) A(3) by (auto simp: seat_def)
  have "pick (other i) (members rm) \<noteq> sock" using R(4) A(2) other_side [of "other i" "members rm" i] by auto
  then have "deviceId x \<noteq> deviceId y" using one_session_per_device [OF P(8) y(1) x(1)] by auto
  then show ?thesis using A x y by (auto simp: together_def room_of_def session_of_def)
qed

text \<open>What a handler sent, when it only sends.\<close>

definition sent :: "world \<Rightarrow> world \<Rightarrow> out list" where
  "sent w w' = drop (length (w_out w)) (w_out w')"

definition only_adds :: "world \<Rightarrow> world \<Rightarrow> (out \<Rightarrow> bool) \<Rightarrow> bool" where
  "only_adds w w' Q \<longleftrightarrow> (\<exists>outs. w_out w' = w_out w @ outs \<and> (\<forall>m \<in> set outs. Q m))"

lemma only_adds_refl: "w_out w' = w_out w \<Longrightarrow> only_adds w w' Q"
  by (simp add: only_adds_def)

lemma only_adds_trans: "only_adds w1 w2 Q \<Longrightarrow> only_adds w2 w3 Q \<Longrightarrow> only_adds w1 w3 Q"
  unfolding only_adds_def by (metis append.assoc Un_iff set_append)

lemma only_adds_emit: "Q (Emit s ev) \<Longrightarrow> only_adds w (emit s ev w) Q"
  by (simp add: only_adds_def emit_def)

lemma only_adds_ack: "Q (Ack s a) \<Longrightarrow> only_adds w (ack s a w) Q"
  by (simp add: only_adds_def ack_def)

lemma only_adds_sent: "only_adds w w' Q \<Longrightarrow> m \<in> set (sent w w') \<Longrightarrow> Q m"
  by (auto simp: only_adds_def sent_def)

lemma nudge_link_adds:
  "Q (Emit sock (SafetyNudge rid LinkHidden)) \<Longrightarrow> only_adds w (nudge_link now sock rid w) Q"
  by (auto simp: nudge_link_def only_adds_def emit_def split: prod.split bool.split)

lemma nudge_kind_adds:
  "Q (Emit sock (SafetyNudge rid (Nudge k))) \<Longrightarrow> Q (Emit p (SafetyNudge rid (Nudge k))) \<Longrightarrow>
   only_adds w (nudge_kind_of e now sock p d rid k w) Q"
  by (auto simp: nudge_kind_of_def only_adds_def emit_def split: prod.split bool.split)

text \<open>What the two people of a room may hear of one another: \<open>s\<close> acts, \<open>p\<close> is the partner.\<close>

fun heard :: "socket_id \<Rightarrow> socket_id \<Rightarrow> uuid \<Rightarrow> out \<Rightarrow> bool" where
  "heard s p rid (Ack k a) = (k = s)"
| "heard s p rid (Emit k (SafetyNudge r n)) = (r = rid \<and> (k = s \<or> k = p))"
| "heard s p rid (Emit k (ChatMessage r i t sentAt g)) = (r = rid \<and> k = p)"
| "heard s p rid (Emit k (ChatTyping r b)) = (r = rid \<and> k = p)"
| "heard s p rid (Emit k (RtcSignal r d)) = (r = rid \<and> k = p)"
| "heard s p rid _ = False"

lemma chat_adds:
  assumes "activeRoom w sock rid = Some (rm, i)"
  shows "only_adds w (chat e now sock rid txt w) (heard sock (pick (other i) (members rm)) rid)"
proof -
  let ?p = "pick (other i) (members rm)"
  let ?Q = "heard sock ?p rid"
  define g where "g = env_guardChat e txt (now - (case activeSince rm of Some t \<Rightarrow> t | None \<Rightarrow> now) < mc_chatGuardMs (env_cfg e))"
  define w1 where "w1 = ack sock (ChatOk (w_uuid w) now (g_redacted g))
    (emit ?p (ChatMessage rid (w_uuid w) (g_text g) now (g_redacted g)) (w\<lparr>w_uuid := w_uuid w + 1\<rparr>))"
  define w2 where "w2 = (if g_redacted g then nudge_link now sock rid w1 else w1)"
  define w3 where "w3 = (if g_contactSharing g then nudge_kind_of e now sock ?p (pick i (devices rm)) rid ContactSharing w2 else w2)"
  have 1: "only_adds w w1 ?Q" by (auto simp: only_adds_def w1_def emit_def ack_def)
  have 2: "only_adds w1 w2 ?Q" by (auto simp: w2_def intro: nudge_link_adds only_adds_refl)
  have 3: "only_adds w2 w3 ?Q" by (auto simp: w3_def intro: nudge_kind_adds only_adds_refl)
  have 4: "only_adds w3 (if g_solicitation g then nudge_kind_of e now sock ?p (pick i (devices rm)) rid Solicitation w3 else w3) ?Q"
    by (auto intro: nudge_kind_adds only_adds_refl)
  have "chat e now sock rid txt w =
      (if g_solicitation g then nudge_kind_of e now sock ?p (pick i (devices rm)) rid Solicitation w3 else w3)"
    using assms by (simp add: chat_def Let_def w3_def w2_def w1_def g_def)
  then show ?thesis using only_adds_trans [OF only_adds_trans [OF 1 2] only_adds_trans [OF 3 4]] by simp
qed

text \<open>
  C7: a chat message, a typing hint and a WebRTC signal reach nobody but the sender's partner in an active
  room of which both are members at that moment; the sender gets the acknowledgement and safety nudges only.
  Without such a room only the refusal of a chat message is sent.
\<close>

theorem relays_reach_only_the_partner:
  assumes "reachable e (new_world f) w" "w' \<in> {chat e now sock rid txt w, typing sock rid b w, relay_signal sock rid data w}"
    "m \<in> set (sent w w')"
  shows "m = Ack sock (AckError not_in_room None None) \<or> (\<exists>p. together w rid sock p \<and> heard sock p rid m)"
proof (cases "activeRoom w sock rid")
  case None
  then show ?thesis
    using assms(2,3) by (auto simp: chat_def typing_def relay_signal_def activePartner_def sent_def ack_def)
next
  case (Some q)
  then obtain rm i where a: "activeRoom w sock rid = Some (rm, i)" by (cases q) auto
  let ?p = "pick (other i) (members rm)"
  have t: "together w rid sock ?p" by (rule activeRoom_together [OF reachable_winv [OF assms(1)] a])
  have "heard sock ?p rid m"
    using assms(2,3) only_adds_sent [OF chat_adds [OF a]] a
    by (auto simp: typing_def relay_signal_def activePartner_def sent_def emit_def)
  then show ?thesis using t by blast
qed

theorem relays_reach_only_the_partner_witness:
  "\<exists>p. together world_live 0 ''s1'' p \<and> heard ''s1'' p 0 (Emit ''s2'' (RtcSignal 0 ''offer''))"
proof -
  have m: "Emit ''s2'' (RtcSignal 0 ''offer'') \<in> set (sent world_live (relay_signal ''s1'' 0 ''offer'' world_live))"
    using live_view by (simp add: relay_signal_def sent_def emit_def)
  have "relay_signal ''s1'' 0 ''offer'' world_live \<in>
      {chat sample_env 0 ''s1'' 0 [] world_live, typing ''s1'' 0 False world_live, relay_signal ''s1'' 0 ''offer'' world_live}" by simp
  from relays_reach_only_the_partner [OF live_reached this m] show ?thesis by simp
qed

section \<open>Starting a call\<close>

text \<open>
  C13: when the media of a call is there, \<open>call:start\<close> goes to exactly the two people of that room, one of them
  as the initiator, and only while the room is still active with both in it; otherwise to nobody.
\<close>

theorem call_start_reaches_live_pair:
  assumes "reachable e (new_world f) w" "job \<in> set (w_media w)" "job = (rm, mA, mB)"
  shows "sent w (start_call job w) = [] \<or>
    (sent w (start_call job w) = [Emit (fst (members rm)) (CallStart (room_id rm) True mA), Emit (snd (members rm)) (CallStart (room_id rm) False mB)]
     \<and> together w (room_id rm) (fst (members rm)) (snd (members rm)))"
proof (cases "\<exists>cur. room_of w (room_id rm) = Some cur \<and> room_state cur = RActive \<and> activeSince cur = activeSince rm")
  case False
  then show ?thesis using assms(3) by (auto simp: start_call_def Let_def sent_def room_of_def split: option.split)
next
  case True
  then obtain cur where cur: "room_of w (room_id rm) = Some cur" "room_state cur = RActive" "activeSince cur = activeSince rm" by blast
  have w: "winv w" by (rule reachable_winv [OF assms(1)])
  have "rm \<in> jobs w" using assms(2,3) by (force simp: jobs_def)
  then have mem: "members cur = members rm" using reachable_jobs [OF assms(1)] cur(1) by (auto simp: room_of_def same_pair_def)
  have r: "getRoom (w_store w) (room_id rm) = Some cur" using cur(1) by (simp add: room_of_def)
  note R = rooms_okD [OF winv_parts(7) [OF w] r]
  obtain x where "getSession (w_store w) (fst (members cur)) = Some x" "roomId x = Some (room_id rm)" "state x = Active"
    using R(5) [of Fst] R(1) cur(2) by (auto simp: seat_def pick_pair)
  moreover have "index_of (members cur) (fst (members cur)) = Some Fst" by (simp add: index_of_def)
  ultimately have "activeRoom w (fst (members cur)) (room_id rm) = Some (cur, Fst)"
    using cur by (simp add: activeRoom_def session_of_def)
  from activeRoom_together [OF w this] have "together w (room_id rm) (fst (members rm)) (snd (members rm))"
    by (simp add: mem pick_pair)
  then show ?thesis using cur assms(3) by (simp add: start_call_def Let_def sent_def emit_def room_of_def)
qed

definition world_media :: world where
  "world_media = fetch_media sample_env 2500 world_live"

lemma media_reached: "reachable sample_env (new_world (sample_flags\<lparr>default_mode := instant\<rparr>)) world_media"
  unfolding world_media_def by (rule next_step [OF live_reached step.media])

theorem call_start_reaches_live_pair_witness:
  "sent world_media (start_call (hd (w_media world_media)) world_media) =
     [Emit ''s1'' (CallStart 0 True (fst (snd (hd (w_media world_media))))), Emit ''s2'' (CallStart 0 False (snd (snd (hd (w_media world_media)))))]"
proof -
  have v: "length (w_media world_media) = 1 \<and> members (fst (hd (w_media world_media))) = (''s1'', ''s2'')
      \<and> room_id (fst (hd (w_media world_media))) = 0 \<and> length (sent world_media (start_call (hd (w_media world_media)) world_media)) = 2"
    by code_simp
  obtain rm mA mB where j: "hd (w_media world_media) = (rm, mA, mB)" by (cases "hd (w_media world_media)") auto
  have "hd (w_media world_media) \<in> set (w_media world_media)" using v by (cases "w_media world_media") auto
  from call_start_reaches_live_pair [OF media_reached this j] v show ?thesis by (auto simp: j)
qed

section \<open>Accepting\<close>

lemma activate_out: "w_out (activateRoomLocked now rm w) = w_out w"
  by (simp add: activateRoomLocked_def Let_def on_match_def)

text \<open>
  C8: a call needs both. Within its time the first accept only tells the other member and leaves the room
  pending; the second makes the room active from now on, with both sessions active in it and one call to start.
  After the time limit and its grace an accept changes nothing.
\<close>

theorem accept_needs_both:
  assumes "reachable e (new_world f) w" "memberRoom w sock rid = Some (rm, i)" "room_state rm = RPending"
    "\<not> pick i (accepted rm)" "w' = accept e now sock rid w"
  shows "if expiresAt rm + mc_matchAcceptGraceMs (env_cfg e) < now
      then w_store w' = w_store w \<and> w_starts w' = w_starts w
    else if \<not> pick (other i) (accepted rm)
      then room_of w' rid = Some (rm\<lparr>accepted := set_at i True (accepted rm)\<rparr>)
         \<and> sent w w' = [Emit (pick (other i) (members rm)) (PartnerAccepted rid)] \<and> w_starts w' = w_starts w
    else (\<exists>rm'. room_of w' rid = Some rm' \<and> room_state rm' = RActive \<and> activeSince rm' = Some now \<and> members rm' = members rm
           \<and> (\<exists>k. w_starts w' = w_starts w @ [(rm', k)]))
         \<and> together w' rid sock (pick (other i) (members rm)) \<and> sent w w' = []"
proof -
  have w: "winv w" by (rule reachable_winv [OF assms(1)])
  have w': "winv w'" unfolding assms(5) using keepsD(1) [OF keeps_accept w] .
  note M = memberRoom_some [OF assms(2)]
  note R = rooms_okD [OF winv_parts(7) [OF w] M(1)]
  let ?rm = "rm\<lparr>accepted := set_at i True (accepted rm)\<rparr>"
  have both: "fst (accepted ?rm) \<and> snd (accepted ?rm) \<longleftrightarrow> pick (other i) (accepted rm)"
    by (cases i; cases "accepted rm") auto
  let ?late = "expiresAt rm + mc_matchAcceptGraceMs (env_cfg e) < now"
  consider "?late" | "\<not> ?late" "\<not> pick (other i) (accepted rm)" | "\<not> ?late" "pick (other i) (accepted rm)" by blast
  then show ?thesis
  proof cases
    case 1
    then show ?thesis using assms(2-5) by (simp add: accept_def)
  next
    case 2
    have "w' = emit (pick (other i) (members ?rm)) (PartnerAccepted rid) (on_match (putRoom ?rm) w)"
      using 2 both assms(2-5) by (auto simp: accept_def Let_def)
    then show ?thesis using 2 R(1) by (simp add: sent_def emit_def room_of_def on_match_def)
  next
    case False: 3
    have "w' = activateRoomLocked now ?rm w" using False assms(2-5) both by (auto simp: accept_def Let_def)
    then have st: "w_store w' = activate_store (now_active now ?rm) (w_store w)" and out: "w_out w' = w_out w"
      and sts: "\<exists>k. w_starts w' = w_starts w @ [(now_active now ?rm, k)]"
      by (simp_all add: activate_world activate_out) (simp add: activateRoomLocked_def Let_def now_active_def)
    have old: "getRoom (w_store w) (room_id (now_active now ?rm)) = Some rm" using M(1) R(1) by simp
    have fl: "room_flags (now_active now ?rm)" using both False R(3) assms(3) by (auto simp: room_flags_def)
    have room: "getRoom (w_store w') rid = Some (now_active now ?rm)"
      using activate_inv(2) [OF winv_parts(1) [OF w] old _ _ _ fl] R(1) by (simp add: st)
    note P = winv_parts [OF w'] and R' = rooms_okD [OF winv_parts(7) [OF w'] room]
    have "index_of (members rm) sock = Some i" by (rule index_of_members [OF R(4) M(2)])
    moreover obtain x where "getSession (w_store w') (pick i (members (now_active now ?rm))) = Some x"
        "roomId x = Some (room_id (now_active now ?rm))" "state x = session_state_of (room_state (now_active now ?rm))"
      using R'(5) [of i] unfolding seat_def by blast
    ultimately have "activeRoom w' sock rid = Some (now_active now ?rm, i)"
      using room M(2) R(1) by (simp add: activeRoom_def session_of_def room_of_def)
    from activeRoom_together [OF w' this] have t: "together w' rid sock (pick (other i) (members rm))" by simp
    have "\<exists>rm'. room_of w' rid = Some rm' \<and> room_state rm' = RActive \<and> activeSince rm' = Some now \<and> members rm' = members rm
        \<and> (\<exists>k. w_starts w' = w_starts w @ [(rm', k)])"
      by (intro exI [of _ "now_active now ?rm"]) (use room sts in \<open>simp add: room_of_def\<close>)
    then show ?thesis using False out t by (simp add: sent_def)
  qed
qed

theorem accept_needs_both_witness:
  "sent world_matched (accept sample_env 3000 ''s1'' 0 world_matched) = [Emit ''s2'' (PartnerAccepted 0)]"
proof -
  have v: "(case memberRoom world_matched ''s1'' 0 of Some (rm, i) \<Rightarrow> i = Fst \<and> room_state rm = RPending \<and> accepted rm = (False, False)
      \<and> expiresAt rm = 17000 \<and> members rm = (''s1'', ''s2'') | None \<Rightarrow> False)"
    by code_simp
  then obtain rm where m: "memberRoom world_matched ''s1'' 0 = Some (rm, Fst)" "room_state rm = RPending" "accepted rm = (False, False)"
      "expiresAt rm = 17000" "members rm = (''s1'', ''s2'')"
    by (auto split: option.splits)
  have n: "\<not> pick Fst (accepted rm)" "mc_matchAcceptGraceMs (env_cfg sample_env) = 1500"
    using m(3) by (simp_all add: sample_env_def sample_config_def)
  from accept_needs_both [OF matched_reached m(1,2) n(1) refl, of 3000] m n(2) show ?thesis by simp
qed

section \<open>Parting\<close>

lemma putSession_blocks [simp]: "blocks (putSession x m) = blocks m" "bans (putSession x m) = bans m"
  by (simp_all add: putSession_def)

lemma set_free_blocks [simp]: "blocks (set_free s y m) = blocks m" "bans (set_free s y m) = bans m"
  by (auto simp: set_free_def split: option.split)

lemma deleteRoom_blocks [simp]: "blocks (deleteRoom r m) = blocks m" "bans (deleteRoom r m) = bans m"
  by (simp_all add: deleteRoom_def)

lemma end_member_blocks [simp]:
  "blocks (w_store (end_member e now rid sock s why w)) = blocks (w_store w)"
  "bans (w_store (end_member e now rid sock s why w)) = bans (w_store w)"
  by (auto simp: end_member_def Let_def enqueue_store split: option.split)

lemma end_room_blocks [simp]:
  "blocks (w_store (endRoomLocked e now rm reasons w)) = blocks (w_store w)"
  "bans (w_store (endRoomLocked e now rm reasons w)) = bans (w_store w)"
  by (simp_all add: endRoomLocked_def Let_def)

lemma getBlock_cong: "blocks m' = blocks m \<Longrightarrow> getBlock now m' a b = getBlock now m a b"
  by (simp add: getBlock_def)

text \<open>The block a parting writes: it grows with every skip, and it never gets shorter.\<close>

definition skips_of :: "millis \<Rightarrow> store \<Rightarrow> device_id \<times> device_id \<Rightarrow> int" where
  "skips_of now m ds = (case getBlock now m (fst ds) (snd ds) of Some b \<Rightarrow> skipCount b | None \<Rightarrow> 0)"

definition blocked_to :: "millis \<Rightarrow> store \<Rightarrow> device_id \<times> device_id \<Rightarrow> millis" where
  "blocked_to now m ds = (case getBlock now m (fst ds) (snd ds) of Some b \<Rightarrow> block_until b | None \<Rightarrow> 0)"

lemma getBlock_setBlock:
  assumes "0 < ret"
  shows "getBlock now (setBlock now a b blk ret m) a b = Some blk"
proof -
  have "live now (keep_live now q) k = Some v" if "live now q k = Some v" for q :: "(string, pair_block \<times> millis) jmap" and k v
    using that
    by (induction q) (auto simp: live_def keep_live_def jkeep_def split: option.splits if_splits)
  then show ?thesis using assms by (auto simp: getBlock_def setBlock_def Let_def)
qed

lemma blockPair_written:
  assumes "0 \<le> now" "if escalate then 0 \<le> mc_skipBlockMs (env_cfg e) * (skips_of now m ds + 1) else 0 \<le> duration"
  defines "d \<equiv> (if escalate then mc_skipBlockMs (env_cfg e) * (skips_of now m ds + 1) else duration)"
  shows "getBlock now (blockPairLocked e now ds duration escalate m) (fst ds) (snd ds) =
    Some \<lparr>block_until = max (blocked_to now m ds) (now + d), skipCount = skips_of now m ds + (if escalate then 1 else 0)\<rparr>"
proof -
  have "0 < max (blocked_to now m ds) (now + d) - now + BLOCK_MEMORY_MS"
    using assms(2) by (auto simp: d_def BLOCK_MEMORY_MS_def max_def)
  then show ?thesis
    by (cases escalate) (simp_all add: blockPairLocked_def Let_def blocked_to_def [symmetric] skips_of_def [symmetric] d_def getBlock_setBlock)
qed

text \<open>No pass matches a pair whose block still runs.\<close>

lemma pass_keeps_apart:
  assumes w: "winv w" and b: "getBlock now (w_store w) d1 d2 = Some k" "now < block_until k"
    and none: "\<And>r rm. getRoom (w_store w) r = Some rm \<Longrightarrow> devices rm \<noteq> (d1, d2) \<and> devices rm \<noteq> (d2, d1)"
    and r: "getRoom (w_store (matchPassLocked e now md w)) r = Some rm"
  shows "devices rm \<noteq> (d1, d2) \<and> devices rm \<noteq> (d2, d1)"
proof -
  let ?ws = "waiting_sessions (w_store w)" and ?pairs = "matched_pairs e now md w" and ?w = "matchPassLocked e now md w"
  note P = pairedD [OF match_pass_refines [OF w, of e now md]]
  show ?thesis
  proof (cases "r < w_uuid w")
    case True
    then show ?thesis using P(6) r none by simp
  next
    case False
    then have "r - w_uuid w < length ?pairs"
      using rooms_okD(2) [OF winv_parts(7) [OF P(1)] r] P(4) by simp
    then obtain n where n: "n < length ?pairs" "r = w_uuid w + n" using False by (metis le_add_diff_inverse not_less)
    obtain i j where ij: "?pairs ! n = (i, j)" by fastforce
    then have m: "(i, j) \<in> set ?pairs" using n(1) nth_mem by fastforce
    have "devices rm = (deviceId (?ws ! i), deviceId (?ws ! j))" using P(7) [OF n(1)] r n(2) ij by (auto simp: room_for_def)
    moreover have "blocked_until now w (?ws ! i) (?ws ! j) = None"
      using m by (auto simp: matched_pairs_def pass_pairs_def Let_def eligible_def split: if_splits dest!: greedy_eligible)
    moreover have "getBlock now (w_store w) d2 d1 = Some k" using b(1) by (simp add: getBlock_def pairKey_sym)
    ultimately show ?thesis using b by (auto simp: blocked_until_def)
  qed
qed

text \<open>After a room ended with reasons for both, no room holds its two devices.\<close>

lemma ended_pair_gone:
  assumes w: "winv w" and rm: "getRoom (w_store w) rid = Some rm" and rs: "fst reasons \<noteq> None" "snd reasons \<noteq> None"
    and r: "getRoom (w_store (endRoomLocked e now rm reasons w)) r = Some rm'"
  shows "devices rm' \<noteq> devices rm \<and> devices rm' \<noteq> (snd (devices rm), fst (devices rm))"
proof -
  let ?w = "endRoomLocked e now rm reasons w"
  have rm1: "getRoom (w_store w) (room_id rm) = Some rm" using rooms_okD(1) [OF winv_parts(7) [OF w] rm] rm by simp
  have w': "winv ?w" by (rule end_room_winv [OF w rm rs])
  note P = winv_parts [OF w'] and E = end_room [OF winv_parts(1) [OF w] rm1, where e = e and now = now and reasons = reasons]
  obtain y where y: "getSession (w_store ?w) (fst (members rm)) = Some y" "roomId y = None" "deviceId y = fst (devices rm)"
    using E(8) [of Fst] rs(1) by (auto simp: pick_pair)
  have "pick i (devices rm') \<noteq> fst (devices rm)" for i
  proof
    assume d: "pick i (devices rm') = fst (devices rm)"
    obtain x where x: "getSession (w_store ?w) (pick i (members rm')) = Some x" "roomId x = Some (room_id rm')" "deviceId x = fst (devices rm)"
      using rooms_okD(5) [OF P(7) r, of i] d by (auto simp: seat_def)
    then show False using one_session_per_device [OF P(8) x(1) y(1)] y by simp
  qed
  from this [of Fst] this [of Snd] show ?thesis by (auto simp: pick_pair)
qed

text \<open>A parting: block the pair, end the room for both, then a pass.\<close>

lemma parting:
  assumes w: "winv w" and rm: "getRoom (w_store w) rid = Some rm" and rs: "fst reasons \<noteq> None" "snd reasons \<noteq> None"
    and k: "keeps w w1" "getRoom (w_store w1) rid = Some rm"
    and b: "getBlock now (w_store w1) (fst (devices rm)) (snd (devices rm)) = Some k" "now < block_until k"
    and w': "w' = matchPassLocked e now DirtyPass (endRoomLocked e now rm reasons w1)"
  shows "getBlock now (w_store w') (fst (devices rm)) (snd (devices rm)) = Some k
    \<and> (\<forall>r rm'. room_of w' r = Some rm' \<longrightarrow> devices rm' \<noteq> devices rm \<and> devices rm' \<noteq> (snd (devices rm), fst (devices rm)))"
proof -
  let ?w2 = "endRoomLocked e now rm reasons w1"
  have w1: "winv w1" by (rule keepsD(1) [OF k(1) w])
  have w2: "winv ?w2" by (rule end_room_winv [OF w1 k(2) rs])
  have b2: "getBlock now (w_store ?w2) (fst (devices rm)) (snd (devices rm)) = Some k" using b(1) getBlock_cong [of "w_store ?w2"] by simp
  have "getBlock now (w_store w') (fst (devices rm)) (snd (devices rm)) = Some k"
    unfolding w' using pairedD(3) [OF match_pass_refines [OF w2]] b2 getBlock_cong by metis
  moreover have "devices rm' \<noteq> devices rm \<and> devices rm' \<noteq> (snd (devices rm), fst (devices rm))" if "room_of w' r = Some rm'" for r rm'
    using pass_keeps_apart [OF w2 b2 b(2), of e DirtyPass r rm'] ended_pair_gone [OF w1 k(2) rs] that by (simp add: w' room_of_def)
  ultimately show ?thesis by blast
qed

text \<open>Two devices are kept apart: a block runs at least until \<open>t\<close>, and no room holds both.\<close>

definition apart :: "millis \<Rightarrow> world \<Rightarrow> device_id \<times> device_id \<Rightarrow> millis \<Rightarrow> bool" where
  "apart now w ds t \<longleftrightarrow> t \<le> blocked_to now (w_store w) ds
     \<and> (\<forall>r rm. room_of w r = Some rm \<longrightarrow> devices rm \<noteq> ds \<and> devices rm \<noteq> (snd ds, fst ds))"

lemma block_then_end:
  assumes w: "winv w" and m: "memberRoom w sock rid = Some (rm, i)" and now: "0 \<le> now" and rs: "fst reasons \<noteq> None" "snd reasons \<noteq> None"
    and wb: "w_store wb = w_store w" "keeps w wb"
    and wc: "w_store wc = blockPairLocked e now (devices rm) dur esc (w_store wb)" "keeps (on_match (blockPairLocked e now (devices rm) dur esc) wb) wc"
    and d: "d = (if esc then mc_skipBlockMs (env_cfg e) * (skips_of now (w_store w) (devices rm) + 1) else dur)" "0 < d"
    and w': "w' = matchPassLocked e now DirtyPass (endRoomLocked e now rm reasons wc)"
  shows "apart now w' (devices rm) (now + d)"
proof -
  let ?m = "blockPairLocked e now (devices rm) dur esc (w_store w)"
  note M = memberRoom_some [OF m]
  obtain k where k: "getBlock now ?m (fst (devices rm)) (snd (devices rm)) = Some k" "now + d \<le> block_until k"
    using blockPair_written [OF now, of esc e "w_store w" "devices rm" dur] d by (cases esc) (auto simp: le_max_iff_disj)
  have b1: "getBlock now (w_store wc) (fst (devices rm)) (snd (devices rm)) = Some k" using k(1) by (simp add: wc(1) wb(1))
  have r1: "getRoom (w_store wc) rid = Some rm" using M(1) by (simp add: wc(1) wb(1))
  have later: "now < block_until k" using k(2) d(2) by simp
  have K: "keeps w wc" by (rule keeps_trans [OF wb(2) keeps_trans [OF keeps_block wc(2)]])
  note F = parting [OF w M(1) rs K r1 b1 later w']
  then have "blocked_to now (w_store w') (devices rm) = block_until k" by (simp add: blocked_to_def)
  then show ?thesis using F k(2) by (simp add: apart_def)
qed

lemma decline_apart:
  assumes "winv w" "memberRoom w sock rid = Some (rm, i)" "0 \<le> now" "room_state rm = RPending" "0 < mc_declineBlockMs (env_cfg e)"
  shows "apart now (decline e now sock rid w) (devices rm) (now + mc_declineBlockMs (env_cfg e))"
  by (rule block_then_end [OF assms(1-3) reasons_for_some [where i = i and a = Declined and b = PartnerDeclined] refl keeps_refl,
        where wc = "record_skip now (pick i (devices rm)) (on_match (blockPairLocked e now (devices rm) (mc_declineBlockMs (env_cfg e)) False) w)"
          and esc = False and dur = "mc_declineBlockMs (env_cfg e)"])
    (use assms in \<open>simp_all add: decline_def Let_def keeps_skip_record\<close>)

lemma call_failed_apart:
  assumes "winv w" "memberRoom w sock rid = Some (rm, i)" "0 \<le> now" "room_state rm = RActive" "0 < mc_declineBlockMs (env_cfg e)"
  shows "apart now (call_failed e now sock rid w) (devices rm) (now + mc_declineBlockMs (env_cfg e))"
  by (rule block_then_end [OF assms(1-3) _ _ refl keeps_refl, where reasons = "(Some ConnectionFailed, Some ConnectionFailed)"
        and wc = "on_match (blockPairLocked e now (devices rm) (mc_declineBlockMs (env_cfg e)) False) w"
        and esc = False and dur = "mc_declineBlockMs (env_cfg e)"])
    (use assms in \<open>simp_all add: call_failed_def Let_def\<close>)

lemma report_apart:
  assumes "winv w" "memberRoom w sock rid = Some (rm, i)" "0 \<le> now" "0 < mc_reportBlockMs (env_cfg e)"
  shows "apart now (report_locked e now sock rid ds w) (devices rm) (now + mc_reportBlockMs (env_cfg e))"
  by (rule block_then_end [OF assms(1-3) reasons_for_some [where i = i and a = Reported and b = PartnerSkipped] refl keeps_refl,
        where wc = "on_match (blockPairLocked e now (devices rm) (mc_reportBlockMs (env_cfg e)) False) w"
          and esc = False and dur = "mc_reportBlockMs (env_cfg e)"])
    (use assms in \<open>simp_all add: report_locked_def Let_def\<close>)

lemma skip_apart:
  assumes "winv w" "memberRoom w sock rid = Some (rm, i)" "0 \<le> now"
    "d = mc_skipBlockMs (env_cfg e) * (skips_of now (w_store w) (devices rm) + 1)" "0 < d"
  shows "apart now (skip e now sock None w) (devices rm) (now + d)"
proof -
  obtain s where s: "getSession (w_store w) sock = Some s" "roomId s = Some rid" using memberRoom_some(3) [OF assms(2)] by blast
  define w0 where "w0 = (case (room_state rm, activeSince rm) of
      (RActive, Some t) \<Rightarrow> w\<lparr>w_sig := skipped_early (mc_signals (env_cfg e)) now (pick (other i) (devices rm)) (now - t) (w_sig w)\<rparr>
    | _ \<Rightarrow> w)"
  have s0: "w_store w0 = w_store w" "w_uuid w0 = w_uuid w" "jobs w0 = jobs w"
    by (simp_all add: w0_def split: room_state.split option.split)
  have k0: "keeps w w0" by (rule keeps_frame) (simp_all add: s0)
  let ?w1 = "record_skip now (deviceId s) (on_match (blockPairLocked e now (devices rm) 0 True) w0)"
  have eq: "skip e now sock None w = matchPassLocked e now DirtyPass (endRoomLocked e now rm (reasons_for i (Some Skipped) (Some PartnerSkipped)) ?w1)"
    using s assms(2) by (simp add: skip_def session_of_def Let_def w0_def)
  show ?thesis
    by (rule block_then_end [OF assms(1-3) reasons_for_some [where i = i and a = Skipped and b = PartnerSkipped] s0(1) k0 _ _ _ assms(5) eq,
          where esc = True and dur = 0])
      (simp_all add: assms(4) keeps_skip_record)
qed



end
