(* ===== verification/LeaveTheorems.thy ===== *)
theory LeaveTheorems
  imports CallTheorems
begin

text \<open>
  The ends of things: a leaver and a restricted device are out of every room and of the queue, a
  match that nobody accepts ends, and a call pays every full interval once.
\<close>

section \<open>Sessions a pass leaves alone\<close>

lemma pass_skips:
  assumes w: "winv w" and s: "\<And>x. getSession (w_store w) s = Some x \<Longrightarrow> state x \<noteq> Waiting"
  shows "getSession (w_store (matchPassLocked e now md w)) s = getSession (w_store w) s"
proof (rule pairedD(5) [OF match_pass_refines [OF w, of e now md]])
  let ?ws = "waiting_sessions (w_store w)"
  fix k assume "k \<in> takes (matched_pairs e now md w)"
  then have "k < length ?ws" using pairs_range [of _ _ e now md w] by (fastforce simp: takes_def)
  then have "?ws ! k \<in> set ?ws" by simp
  then have "getSession (w_store w) (socketId (?ws ! k)) = Some (?ws ! k)" "state (?ws ! k) = Waiting"
    using load_queue(2) [OF w] by (auto simp: queue_of_def)
  then show "s \<noteq> socketId (?ws ! k)" using s by auto
qed

lemma pass_bans: "winv w \<Longrightarrow> bans (w_store (matchPassLocked e now md w)) = bans (w_store w)"
  using pairedD(2) [OF match_pass_refines] by blast

text \<open>A socket without a session is in no room, not in the queue, and bound to no device.\<close>

definition nowhere :: "world \<Rightarrow> socket_id \<Rightarrow> bool" where
  "nowhere w s \<longleftrightarrow> session_of w s = None \<and> s \<notin> set (listWaiting (w_store w)) \<and>
     (\<forall>r rm i. room_of w r = Some rm \<longrightarrow> pick i (members rm) \<noteq> s) \<and> (\<forall>d. getDeviceSocket (w_store w) d \<noteq> Some s)"

lemma no_session_nowhere:
  assumes w: "winv w" and s: "getSession (w_store w) s = None"
  shows "nowhere w s"
proof -
  note P = winv_parts [OF w]
  have "pick i (members rm) \<noteq> s" if "room_of w r = Some rm" for r rm i
    using rooms_okD(5) [OF P(7), of r rm i] that s by (auto simp: seat_def room_of_def)
  moreover have "s \<notin> set (listWaiting (w_store w))" using queued_waits [OF w, of s] s by auto
  moreover have "getDeviceSocket (w_store w) d \<noteq> Some s" for d
    using P(8) s unfolding bindings_ok_def by (metis option.distinct(1))
  ultimately show ?thesis using s by (simp add: nowhere_def session_of_def)
qed

section \<open>Leaving\<close>



section \<open>Restrictions\<close>

lemma getBan_cong: "bans m' = bans m \<Longrightarrow> getBan now m' d = getBan now m d"
  by (simp add: getBan_def)

lemma evict_bans [simp]: "bans (w_store (evict_restricted e now sock s w)) = bans (w_store w)"
  by (simp add: evict_restricted_def Let_def split: option.split)

lemma evicted_idle:
  assumes w: "winv w" and s: "session_of w sock = Some s"
  shows "\<exists>y. getSession (w_store (evict_restricted e now sock s w)) sock = Some y \<and> state y = Idle \<and> deviceId y = deviceId s"
proof -
  note P = winv_parts [OF w]
  have gs: "getSession (w_store w) sock = Some s" using s by (simp add: session_of_def)
  have finish: "\<exists>y. getSession (w_store (on_match (removeWaiting sock) (case session_of w1 sock of
      Some fresh \<Rightarrow> if state fresh \<noteq> Idle then on_match (putSession (idled fresh)) w1 else w1 | None \<Rightarrow> w1))) sock = Some y
      \<and> state y = Idle \<and> deviceId y = deviceId x"
    if "getSession (w_store w1) sock = Some x" "socketId x = sock" for w1 x
    using that by (simp add: session_of_def)
  show ?thesis
  proof (cases "roomId s")
    case None
    then show ?thesis using finish [OF gs] sessions_okD(1) [OF P(4) gs] by (simp add: evict_restricted_def Let_def)
  next
    case (Some rid)
    obtain rm i where rm: "getRoom (w_store w) rid = Some rm" "pick i (members rm) = sock"
      using seatedD [OF P(6) gs _ Some] by blast
    note R = rooms_okD [OF P(7) rm(1)]
    have rm': "getRoom (w_store w) (room_id rm) = Some rm" using rm(1) R(1) by simp
    let ?rs = "reasons_for i (Some Restricted) (Some PartnerSkipped)"
    let ?w1 = "endRoomLocked e now rm ?rs w"
    have w1: "winv ?w1" by (rule end_room_winv [OF w rm(1)]) simp_all
    obtain y where y: "getSession (w_store ?w1) sock = Some y" "deviceId y = pick i (devices rm)"
      using end_room(8) [OF P(1) rm', of i ?rs e now] rm(2) by auto
    have "deviceId s = pick i (devices rm)" using R(5) [of i] gs rm(2) by (auto simp: seat_def)
    then show ?thesis
      using finish [OF y(1)] y(2) sessions_okD(1) [OF winv_parts(4) [OF w1] y(1)] Some rm(1) index_of_members [OF R(4) rm(2)]
      by (simp add: evict_restricted_def Let_def room_of_def)
  qed
qed

text \<open>
  C9: applying a restriction that is more than a warning bans the device until the restriction's end and
  takes its session, wherever it was, out of its room and the queue: the session is idle and in no room, and
  the pass that follows does not match it.
\<close>

theorem restricted_device_is_out:
  assumes "reachable e (new_world f) w" "re_kind r \<noteq> Warning" "now < mirror_until now r" "w' = restrictionApplied e now d r w"
  shows "getBan now (w_store w') d = Some (mirror_until now r)
    \<and> (\<forall>s x. session_of w' s = Some x \<and> deviceId x = d \<longrightarrow> state x = Idle \<and> roomId x = None \<and> s \<notin> set (listWaiting (w_store w')))"
proof -
  have w: "winv w" by (rule reachable_winv [OF assms(1)])
  let ?b = "restriction_ban now d r w"
  have b: "winv ?b" using keepsD(1) [OF keeps_restriction_ban w] .
  have ban: "getBan now (w_store ?b) d = Some (mirror_until now r)"
    using assms(2,3) by (simp add: restriction_ban_def getBan_def setBan_def)
  have w': "winv w'" unfolding assms(4) using keepsD(1) [OF keeps_restrictionApplied w] .
  have bound: "getDeviceSocket (w_store v) d = Some s \<longleftrightarrow> (\<exists>x. getSession (w_store v) s = Some x \<and> deviceId x = d)" if "winv v" for v s
    using winv_parts(8) [OF that] by (simp add: bindings_ok_def)
  have main: "getBan now (w_store w') d = Some (mirror_until now r) \<and>
      (\<forall>s x. getSession (w_store w') s = Some x \<and> deviceId x = d \<longrightarrow> state x = Idle)"
  proof (cases "getDeviceSocket (w_store ?b) d")
    case None
    then have "w' = ?b" by (simp add: assms(4) restrictionApplied_def restriction_locked_def)
    then show ?thesis using ban None bound [OF b] by auto
  next
    case (Some sock)
    then obtain s where s: "getSession (w_store ?b) sock = Some s" "deviceId s = d" using bound [OF b] by blast
    let ?ev = "evict_restricted e now sock s ?b"
    let ?em = "emit sock (SessionRestricted r) ?ev"
    have ss: "session_of ?b sock = Some s" using s(1) by (simp add: session_of_def)
    have e1: "w' = matchPassLocked e now DirtyPass ?em"
      using Some ss assms(2) by (simp add: assms(4) restrictionApplied_def restriction_locked_def Let_def)
    have em: "winv ?em" using keepsD(1) [OF keeps_trans [OF keeps_evict [OF ss] keeps_emit] b] .
    obtain y where y: "getSession (w_store ?em) sock = Some y" "state y = Idle" "deviceId y = d"
      using evicted_idle [OF b ss, of e now] s(2) by auto
    have y': "getSession (w_store w') sock = Some y"
      unfolding e1 using pass_skips [OF em, of sock e now DirtyPass] y by simp
    have "getBan now (w_store w') d = getBan now (w_store ?b) d"
      unfolding e1 by (rule getBan_cong) (simp add: pass_bans [OF em])
    moreover have "state x = Idle" if "getSession (w_store w') k = Some x" "deviceId x = d" for k x
      using one_session_per_device [OF winv_parts(8) [OF w'] that(1) y'] that y' y(2,3) by auto
    ultimately show ?thesis using ban by auto
  qed
  have "roomId x = None \<and> s \<notin> set (listWaiting (w_store w'))" if "getSession (w_store w') s = Some x" "state x = Idle" for s x
    using sessions_okD(2) [OF winv_parts(4) [OF w'] that(1)] that queued_waits [OF w', of s] by (auto simp: shape_def)
  then show ?thesis using main by (simp add: session_of_def) blast
qed

definition sample_pause :: restriction where
  "sample_pause = \<lparr>re_id = 7, re_reason = RHarassment, re_kind = Pause, re_until = Some 603000, re_createdAt = 3000,
     re_evidenceAvailable = False, re_appeal = \<lparr>ap_status = AppealNone, ap_submittedAt = None, ap_decidedAt = None\<rparr>, re_appealable = True\<rparr>"

theorem restricted_device_is_out_witness:
  "getBan 3000 (w_store (restrictionApplied sample_env 3000 ''d1'' sample_pause world_matched)) ''d1'' = Some 603000"
proof -
  have "re_kind sample_pause \<noteq> Warning" "mirror_until 3000 sample_pause = 603000" "(3000::int) < 603000"
    by (simp_all add: sample_pause_def mirror_until_def)
  then show ?thesis using restricted_device_is_out [OF matched_reached, of sample_pause 3000 _ "''d1''"] by simp
qed

section \<open>Expiry\<close>

lemma expire_fades:
  assumes w: "winv w"
  shows "fades (w_store w) (w_store (expire_room e now rid w))"
    and "getRoom (w_store (expire_room e now rid w)) rid = Some rm \<Longrightarrow> room_state rm \<noteq> RPending"
proof -
  let ?w = "expire_room e now rid w"
  have "fades (w_store w) (w_store ?w) \<and> (\<forall>rm. getRoom (w_store ?w) rid = Some rm \<longrightarrow> room_state rm \<noteq> RPending)"
  proof (cases "room_of w rid")
    case None
    then show ?thesis by (simp add: expire_room_def room_of_def)
  next
    case (Some rm)
    let ?w1 = "on_match (blockPairLocked e now (devices rm) (mc_declineBlockMs (env_cfg e)) False) w"
    let ?w2 = "strike_absent now rm ?w1"
    let ?rs = "(Some (timeout_reason (fst (accepted rm))), Some (timeout_reason (snd (accepted rm))))"
    have g: "getRoom (w_store w) rid = Some rm" using Some by (simp add: room_of_def)
    have id: "room_id rm = rid" using rooms_okD(1) [OF winv_parts(7) [OF w] g] .
    have k: "keeps w ?w2" by (rule keeps_trans [OF keeps_block keeps_frame]) (simp_all add: strike_absent_def Let_def)
    have w2: "winv ?w2" using keepsD(1) [OF k w] .
    have st: "w_store ?w2 = blockPairLocked e now (devices rm) (mc_declineBlockMs (env_cfg e)) False (w_store w)"
      by (simp add: strike_absent_def Let_def)
    have g2: "getRoom (w_store ?w2) (room_id rm) = Some rm" using g id by (simp add: st)
    have same: "sessions (w_store ?w2) = sessions (w_store w)"
      by (simp add: st blockPairLocked_def setBlock_def Let_def)
    have f: "fades (w_store w) (w_store ?w2)"
      unfolding fades_def using same by (auto simp: st getSession_def)
    show ?thesis
    proof (cases "room_state rm = RPending")
      case False
      then show ?thesis using g Some by (simp add: expire_room_def)
    next
      case True
      have "?w = endRoomLocked e now rm ?rs ?w2" using Some True by (simp add: expire_room_def Let_def)
      then show ?thesis
        using fades_trans [OF f end_room_fades [OF winv_parts(1) [OF w2] g2]] end_room(5) [OF winv_parts(1) [OF w2] g2, of e now ?rs rid] id
        by simp
    qed
  qed
  then show "fades (w_store w) (w_store ?w)" "getRoom (w_store ?w) rid = Some rm \<Longrightarrow> room_state rm \<noteq> RPending" by blast+
qed

lemma expire_all:
  "winv w \<Longrightarrow> winv (fold (expire_room e now) rids w) \<and> fades (w_store w) (w_store (fold (expire_room e now) rids w)) \<and>
   (\<forall>rid \<in> set rids. \<forall>rm. getRoom (w_store (fold (expire_room e now) rids w)) rid = Some rm \<longrightarrow> room_state rm \<noteq> RPending)"
proof (induction rids arbitrary: w)
  case (Cons rid rids)
  let ?w1 = "expire_room e now rid w"
  have w1: "winv ?w1" using keepsD(1) [OF keeps_expire_room Cons.prems] .
  note IH = Cons.IH [OF w1] and F = expire_fades [OF Cons.prems, of e now rid]
  have "room_state rm \<noteq> RPending" if "getRoom (w_store (fold (expire_room e now) rids ?w1)) rid = Some rm" for rm
    using F(2) [of rm] IH that by (auto simp: fades_def)
  then show ?case using IH fades_trans [OF F(1)] by auto
qed simp

text \<open>What holds of every stored room and of every room a pass opens holds after the pass.\<close>

definition all_rooms :: "(room \<Rightarrow> bool) \<Rightarrow> world \<Rightarrow> bool" where
  "all_rooms Q w \<longleftrightarrow> (\<forall>r rm. getRoom (w_store w) r = Some rm \<longrightarrow> Q rm)"

lemma getRoom_activate_session [simp]: "getRoom (activate_session rid s m) r = getRoom m r"
  by (simp add: activate_session_def split: option.split)

lemma create_rooms:
  "getRoom (w_store (createRoomLocked e a b now w)) r = (if r = w_uuid w then Some (opened_room e now w a b) else getRoom (w_store w) r)"
proof -
  have "room_id (new_room e now w a b) = w_uuid w" by (simp add: new_room_def)
  then show ?thesis by (simp add: create_world Let_def activate_store_def opened_room_def)
qed

lemma try_partners_rooms:
  "(\<And>w a b. Q (opened_room e now w a b)) \<Longrightarrow> all_rooms Q (snd tw) \<Longrightarrow> all_rooms Q (snd (try_partners e now ws steps i js tw))"
proof (induction js arbitrary: tw)
  case (Cons j js)
  obtain t w where tw: "tw = (t, w)" by (cases tw)
  have c: "all_rooms Q (createRoomLocked e a b now w)" for a b
    using Cons.prems by (auto simp: all_rooms_def create_rooms tw)
  have n: "all_rooms Q (note_wake s t' w)" for s t' using Cons.prems(2) by (simp add: all_rooms_def tw)
  show ?case
    using Cons.IH [OF Cons.prems(1)] Cons.prems(2) c n by (auto simp: tw Let_def split: option.split)
qed simp

lemma pair_from_rooms:
  "(\<And>w a b. Q (opened_room e now w a b)) \<Longrightarrow> all_rooms Q (snd tw) \<Longrightarrow> all_rooms Q (snd (pair_from e now ws steps focus us tw))"
proof (induction us arbitrary: tw)
  case (Cons i us)
  then show ?case using try_partners_rooms [of Q e now tw ws steps i] by (simp add: split_def)
qed simp

lemma all_rooms_cong: "w_store w' = w_store w \<Longrightarrow> all_rooms Q w' = all_rooms Q w"
  by (simp add: all_rooms_def)

lemma pair_all_rooms:
  assumes "\<And>w a b. Q (opened_room e now w a b)" "all_rooms Q w"
  shows "all_rooms Q (pair_all e now ws focus w)"
proof -
  have "all_rooms Q (snd ([], w\<lparr>w_sig := sg\<rparr>))" for sg using assms(2) all_rooms_cong [of "w\<lparr>w_sig := sg\<rparr>" w] by simp
  from pair_from_rooms [OF assms(1) this] show ?thesis by (simp add: pair_all_def Let_def split_beta)
qed

lemma pass_rooms:
  assumes q: "\<And>w a b. Q (opened_room e now w a b)" and w: "winv w" "all_rooms Q w"
  shows "all_rooms Q (matchPassLocked e now md w)"
proof -
  obtain w5 focus where s: "pass_same w w5" and c: "matchPassLocked e now md w = w5 \<or>
      matchPassLocked e now md w = pair_all e now (waiting_sessions (w_store w)) focus w5"
    using match_pass_shape [OF w(1), of e now md] by metis
  have "all_rooms Q w5" using s w(2) all_rooms_cong [of w5 w] by (simp add: pass_same_def)
  then show ?thesis using c pair_all_rooms [where Q = Q, OF q] by auto
qed

text \<open>
  C12: no match hangs. After the sweeper's locked section no pending room is past its accept deadline and the
  grace, whoever was connected and whatever state the sweeper found.
\<close>

theorem expired_matches_end:
  assumes "reachable e (new_world f) w" "0 < mc_matchAcceptTimeoutMs (env_cfg e) + mc_matchAcceptGraceMs (env_cfg e)"
    "w' = sweep_locked e now isConnected w" "room_of w' rid = Some rm" "room_state rm = RPending"
  shows "now < expiresAt rm + mc_matchAcceptGraceMs (env_cfg e)"
proof -
  let ?c = "env_cfg e"
  let ?late = "now - mc_matchAcceptGraceMs ?c"
  define Q where "Q = (\<lambda>rm :: room. room_state rm = RPending \<longrightarrow> now < expiresAt rm + mc_matchAcceptGraceMs ?c)"
  have w: "winv w" by (rule reachable_winv [OF assms(1)])
  define w1 where "w1 = (if mc_heartbeatIntervalMs ?c \<le> now - w_lastReapAt w
      then removeGhostSessionsLocked e now isConnected (reapDeadInstancesLocked e now (w\<lparr>w_lastReapAt := now\<rparr>)) else w)"
  define w2 where "w2 = fold (expire_room e now) (listExpiredPendingRooms (w_store w1) ?late) w1"
  define w4 where "w4 = (if mc_recheckIntervalMs ?c \<le> now - w_lastRecheckAt (wake_due now w2)
      then (wake_due now w2)\<lparr>w_lastRecheckAt := now\<rparr> else wake_due now w2)"
  have "keeps w (w\<lparr>w_lastReapAt := now\<rparr>)" by (rule keeps_frame) simp_all
  then have w1: "winv w1" unfolding w1_def using w keepsD(1) [OF keeps_trans [OF keeps_trans [OF _ keeps_reap] keeps_ghosts] w] by simp
  note E = expire_all [OF w1, of e now "listExpiredPendingRooms (w_store w1) ?late", folded w2_def]
  have "Q r" if r: "getRoom (w_store w2) k = Some r" for k r
  proof (unfold Q_def, intro impI)
    assume p: "room_state r = RPending"
    have r1: "getRoom (w_store w1) k = Some r" using E r by (simp add: fades_def)
    then have "jget (pendingRooms (w_store w1)) k = Some (expiresAt r)"
      using inv_butD(6) [OF winv_parts(1) [OF w1]] p by (simp add: pending_ok_def)
    then have "(k, expiresAt r) \<in> set (pendingRooms (w_store w1))" by (rule jget_in)
    then have "expiresAt r \<le> ?late \<Longrightarrow> k \<in> set (listExpiredPendingRooms (w_store w1) ?late)"
      by (force simp: listExpiredPendingRooms_def)
    then have "\<not> expiresAt r \<le> ?late" using E r p by blast
    then show "now < expiresAt r + mc_matchAcceptGraceMs ?c" by simp
  qed
  then have "all_rooms Q w2" by (simp add: all_rooms_def)
  moreover have "w_store w4 = w_store w2" by (simp add: w4_def wake_due_def Let_def)
  ultimately have 4: "all_rooms Q w4" "winv w4"
    using all_rooms_cong [of w4 w2] E winv_store_eq [of w4 w2] by (simp_all add: w4_def wake_due_def Let_def)
  have "w_store (relaxTickLocked e now w4) = w_store w4"
  proof -
    have "w_store (fold (relax_one now) xs v) = w_store v" for xs v by (induction xs arbitrary: v) simp_all
    then show ?thesis by (simp add: relaxTickLocked_def Let_def)
  qed
  then have 5: "all_rooms Q (relaxTickLocked e now w4)" "winv (relaxTickLocked e now w4)"
    using 4 all_rooms_cong keepsD(1) [OF keeps_relaxTick] by blast+
  have "Q (opened_room e now v a b)" for v a b
    using assms(2) by (simp add: Q_def opened_room_def new_room_def Let_def)
  from pass_rooms [where Q = Q, OF this 5(2,1)] have "all_rooms Q w'"
    unfolding assms(3) sweep_locked_def Let_def w1_def [symmetric] w2_def [symmetric] w4_def [symmetric] .
  then show ?thesis using assms(4,5) by (auto simp: all_rooms_def room_of_def Q_def)
qed

theorem expired_matches_end_witness:
  "\<exists>rm. room_of (sweep_locked sample_env 3000 (\<lambda>_. True) world_matched) 0 = Some rm \<and> room_state rm = RPending \<and> 3000 < expiresAt rm + 1500"
proof -
  have "map_option room_state (room_of (sweep_locked sample_env 3000 (\<lambda>_. True) world_matched) 0) = Some RPending" by code_simp
  then obtain rm where a: "room_of (sweep_locked sample_env 3000 (\<lambda>_. True) world_matched) 0 = Some rm" "room_state rm = RPending" by auto
  have "mc_matchAcceptGraceMs (env_cfg sample_env) = 1500" "0 < mc_matchAcceptTimeoutMs (env_cfg sample_env) + mc_matchAcceptGraceMs (env_cfg sample_env)"
    by (simp_all add: sample_env_def sample_config_def)
  then show ?thesis using expired_matches_end [OF matched_reached _ refl a] a by simp
qed

section \<open>Rewards\<close>

text \<open>What a socket's record says it has been paid for: the room, since when, and the intervals.\<close>

definition earning :: "world \<Rightarrow> socket_id \<Rightarrow> uuid \<Rightarrow> millis \<Rightarrow> int \<Rightarrow> bool" where
  "earning w sock rid since n \<longleftrightarrow>
     (\<exists>l r. jget (w_local w) sock = Some l \<and> ls_rewards l = Some r \<and> rw_roomId r = rid \<and> rw_connectedSince r = since \<and>
        rw_intervalsAwarded r = n)"

lemma coins_addFriends [simp]: "coins (addFriends a b m) = coins m"
  by (simp add: addFriends_def)

lemma balance_addFriends [simp]: "balance i (addFriends a b m) d = balance i m d"
  by (rule balance_cong) simp

lemma reward_tick:
  fixes now :: millis and e :: env
  assumes s: "state s = Active" "roomId s = Some rid" and ern: "earning w sock rid since n"
  defines "due \<equiv> (now - since) div mc_coinIntervalMs (env_cfg e)"
    and "w' \<equiv> reward_one e now (sock, Some s) w" and "i \<equiv> mc_initialCoins (env_cfg e)"
  shows "earning w' sock rid since (max n due)"
    and "balance i (w_store w') d = balance i (w_store w) d + (if d = deviceId s then (max n due - n) * mc_coinsPerInterval (env_cfg e) else 0)"
proof -
  obtain l r where l: "jget (w_local w) sock = Some l" "ls_rewards l = Some r" "rw_roomId r = rid" "rw_connectedSince r = since" "rw_intervalsAwarded r = n"
    using ern by (auto simp: earning_def)
  let ?l = "l\<lparr>ls_orphaned := False\<rparr>"
  have w': "w' = award e now sock (deviceId s) ?l r w"
    using s l by (simp add: w'_def reward_one_def Let_def rewards_for_def)
  show "earning w' sock rid since (max n due)"
    using l by (auto simp: w' award_def Let_def earning_def set_local_def split_beta due_def earn_def)
  show "balance i (w_store w') d = balance i (w_store w) d + (if d = deviceId s then (max n due - n) * mc_coinsPerInterval (env_cfg e) else 0)"
    using l by (auto simp: w' award_def Let_def set_local_def split_beta due_def i_def earn_def balance_addCoins)
qed

text \<open>
  C14: however the sweeper's ticks fall while a call lasts, each full interval is paid exactly once: after ticks in
  order the balance has grown by the coins of the intervals that fit between the call's start and the last tick.
\<close>

theorem each_interval_paid_once:
  assumes "state s = Active" "roomId s = Some rid" "earning w sock rid since 0" "0 < mc_coinIntervalMs (env_cfg e)"
    "sorted ts" "ts \<noteq> []" "since \<le> hd ts" "w' = fold (\<lambda>t. reward_one e t (sock, Some s)) ts w"
  shows "balance (mc_initialCoins (env_cfg e)) (w_store w') d = balance (mc_initialCoins (env_cfg e)) (w_store w) d
    + (if d = deviceId s then (last ts - since) div mc_coinIntervalMs (env_cfg e) * mc_coinsPerInterval (env_cfg e) else 0)"
proof -
  let ?i = "mc_initialCoins (env_cfg e)" and ?due = "\<lambda>t. (t - since) div mc_coinIntervalMs (env_cfg e)"
  let ?f = "\<lambda>t. reward_one e t (sock, Some s)"
  have mono: "?due t \<le> ?due u" if "t \<le> u" for t u using assms(4) that by (intro zdiv_mono1) auto
  have run: "balance ?i (w_store (fold ?f us v)) d = balance ?i (w_store v) d
      + (if d = deviceId s then (max n (?due (last us)) - n) * mc_coinsPerInterval (env_cfg e) else 0)"
    if "earning v sock rid since n" "sorted us" "us \<noteq> []" for us v n
    using that
  proof (induction us arbitrary: v n)
    case (Cons t us)
    note T = reward_tick [OF assms(1,2) Cons.prems(1), of e t]
    show ?case
    proof (cases "us = []")
      case True
      then show ?thesis using T(2) [of d] by simp
    next
      case False
      have "t \<le> last us" using Cons.prems(2) False by simp
      then have "max (max n (?due t)) (?due (last us)) = max n (?due (last us))" using mono [of t "last us"] by simp
      moreover have "balance ?i (w_store (fold ?f us (?f t v))) d = balance ?i (w_store (?f t v)) d
          + (if d = deviceId s then (max (max n (?due t)) (?due (last us)) - max n (?due t)) * mc_coinsPerInterval (env_cfg e) else 0)"
        using Cons.IH [OF T(1) _ False] Cons.prems(2) by simp
      ultimately show ?thesis using T(2) [of d] False by (simp add: algebra_simps)
    qed
  qed simp
  have "hd ts \<le> last ts" using assms(5,6) by (cases ts) (auto simp: sorted_wrt_append)
  then have "0 \<le> ?due (last ts)" using assms(4,7) pos_imp_zdiv_nonneg_iff [of "mc_coinIntervalMs (env_cfg e)" "last ts - since"] by simp
  then show ?thesis using run [OF assms(3,5,6)] by (simp add: assms(8))
qed

definition world_earning :: world where
  "world_earning = world_live\<lparr>w_local := [(''s1'', \<lparr>ls_deviceId = ''d1'', ls_orphaned = False, ls_telemetryRooms = [],
     ls_rewards = Some \<lparr>rw_roomId = 0, rw_connectedSince = 3000, rw_partnerDevice = ''d2'', rw_intervalsAwarded = 0, rw_friended = False\<rparr>\<rparr>)]\<rparr>"

theorem each_interval_paid_once_witness:
  "\<exists>x. session_of world_live ''s1'' = Some x \<and>
     balance 50 (w_store (fold (\<lambda>t. reward_one sample_env t (''s1'', Some x)) [62000, 64000, 70000, 125000] world_earning)) ''d1''
       = balance 50 (w_store world_earning) ''d1'' + 20"
proof -
  obtain x where x: "session_of world_live ''s1'' = Some x" "state x = Active" "roomId x = Some 0" "deviceId x = ''d1''"
    using live_view by (auto simp: seen_some)
  have c: "mc_initialCoins (env_cfg sample_env) = 50" "mc_coinIntervalMs (env_cfg sample_env) = 60000" "mc_coinsPerInterval (env_cfg sample_env) = 10"
    by (simp_all add: sample_env_def sample_config_def)
  have 1: "earning world_earning ''s1'' 0 3000 0" by (simp add: earning_def world_earning_def)
  have "(0::int) < mc_coinIntervalMs (env_cfg sample_env)" "sorted [62000, 64000, 70000, 125000 :: int]" "[62000, 64000, 70000, 125000 :: int] \<noteq> []"
    "(3000::int) \<le> hd [62000, 64000, 70000, 125000]" by (simp_all add: c)
  from each_interval_paid_once [OF x(2,3) 1 this refl, of "''d1''"] x show ?thesis by (simp add: c)
qed

end
