(* ===== verification/EnforcementTheorems.thy ===== *)
theory EnforcementTheorems
  imports EnforcementAdmin
begin

text \<open>
  What the enforcement module promises: which restriction holds for a device, how far the
  automatic action may go, that evidence of minors is never served, that a restriction is
  appealed once, and that retention spares what is held for the law. A concrete store stands
  at the end of each section for the instances.
\<close>

section \<open>What the operations leave alone\<close>

lemma on_store_frame [simp, frame_simps]:
  "en_store (on_store f s) = f (en_store s)" "en_disk (on_store f s) = en_disk s" "en_ids (on_store f s) = en_ids s"
  "en_calls (on_store f s) = en_calls s"
  by (simp_all add: on_store_def)

lemma draw_frame [simp]:
  "en_store (fst (draw s)) = en_store s" "en_disk (fst (draw s)) = en_disk s" "en_calls (fst (draw s)) = en_calls s"
  "snd (draw s) = en_ids s" "en_ids (fst (draw s)) = Suc (en_ids s)"
  by (simp_all add: draw_def)

lemma index_docs [simp]:
  "es_report (addToIndex k i sc st) = es_report st" "es_restriction (addToIndex k i sc st) = es_restriction st"
  "es_appeal (addToIndex k i sc st) = es_appeal st" "es_audit (addToIndex k i sc st) = es_audit st"
  "es_takedown (addToIndex k i sc st) = es_takedown st"
  "es_report (removeFromIndex k i st) = es_report st" "es_restriction (removeFromIndex k i st) = es_restriction st"
  "es_appeal (removeFromIndex k i st) = es_appeal st" "es_audit (removeFromIndex k i st) = es_audit st"
  "es_takedown (removeFromIndex k i st) = es_takedown st"
  by (simp_all add: addToIndex_def removeFromIndex_def Let_def split: option.split)

lemma set_fingerprint_docs [simp]:
  "es_report (set_fingerprint now d h t st) = es_report st" "es_restriction (set_fingerprint now d h t st) = es_restriction st"
  "es_appeal (set_fingerprint now d h t st) = es_appeal st" "es_indexes (set_fingerprint now d h t st) = es_indexes st"
  by (simp_all add: set_fingerprint_def)

lemma index_same: "es_indexes st' = es_indexes st \<Longrightarrow> indexRange k opts st' = indexRange k opts st"
  by (simp add: indexRange_def)

section \<open>The restriction that holds\<close>

text \<open>\<open>a\<close> ends no later than \<open>b\<close>; \<open>None\<close> is a restriction without end.\<close>

definition ends_within :: "millis option \<Rightarrow> millis option \<Rightarrow> bool" where
  "ends_within a b = (case b of None \<Rightarrow> True | Some v \<Rightarrow> (case a of None \<Rightarrow> False | Some u \<Rightarrow> u \<le> v))"

lemma ends_within_refl [simp]: "ends_within a a"
  by (simp add: ends_within_def split: option.split)

lemma ends_within_trans: "ends_within a b \<Longrightarrow> ends_within b c \<Longrightarrow> ends_within a c"
  by (auto simp: ends_within_def split: option.splits)

lemma ends_within_total: "\<not> ends_within a b \<Longrightarrow> ends_within b a"
  by (auto simp: ends_within_def split: option.splits)

lemma beats_ends: "beats r (Some b) \<or> ends_within (re_until r) (re_until b)"
  "beats r (Some b) \<Longrightarrow> ends_within (re_until b) (re_until r)"
  by (auto simp: beats_def ends_within_def split: option.splits)

lemma strongest_from_correct:
  "case strongest_from best rs of
     None \<Rightarrow> rs = [] \<and> best = None
   | Some b \<Rightarrow> (b \<in> set rs \<or> best = Some b) \<and> (\<forall>r \<in> set rs. ends_within (re_until r) (re_until b))
       \<and> (\<forall>c. best = Some c \<longrightarrow> ends_within (re_until c) (re_until b))"
proof (induction rs arbitrary: best)
  case Nil
  then show ?case by (cases best) simp_all
next
  case (Cons r rs)
  let ?best = "if beats r best then Some r else best"
  obtain b where b: "?best = Some b" "b = r \<or> best = Some b" "ends_within (re_until r) (re_until b)"
      "\<forall>c. best = Some c \<longrightarrow> ends_within (re_until c) (re_until b)"
  proof (cases best)
    case None
    then show thesis using that [of r] by (simp add: beats_def)
  next
    case (Some c)
    show thesis
    proof (cases "beats r best")
      case True
      then show thesis using that [of r] beats_ends(2) [of r c] Some by simp
    next
      case False
      then show thesis using that [of c] beats_ends(1) [of r c] Some by simp
    qed
  qed
  show ?case
  proof (cases "re_until b = None")
    case True
    then have "strongest_from best (r # rs) = Some b" by (simp add: b(1))
    moreover have "ends_within x (re_until b)" for x using True by (simp add: ends_within_def)
    ultimately show ?thesis using b(2) by auto
  next
    case False
    then obtain u where "re_until b = Some u" by blast
    then have step: "strongest_from best (r # rs) = strongest_from (Some b) rs" by (simp add: b(1) Let_def)
    obtain c where c: "strongest_from (Some b) rs = Some c" "c \<in> set rs \<or> b = c" "\<forall>r \<in> set rs. ends_within (re_until r) (re_until c)"
        "ends_within (re_until b) (re_until c)"
      using Cons.IH [of "Some b"] by (auto split: option.splits)
    show ?thesis
      unfolding step c(1) using b(2-4) c(2-4) ends_within_trans [of _ "re_until b" "re_until c"] by auto
  qed
qed

lemma strongest_correct:
  "strongest rs = None \<longleftrightarrow> rs = []"
  "strongest rs = Some b \<Longrightarrow> b \<in> set rs \<and> (\<forall>r \<in> set rs. ends_within (re_until r) (re_until b))"
  using strongest_from_correct [where best = None and rs = rs] unfolding strongest_def by (auto split: option.splits)

text \<open>The restrictions on file for a device: its own, and those of the fingerprint it is known by.\<close>

definition on_file :: "millis \<Rightarrow> device_id \<Rightarrow> string option \<Rightarrow> enf_store \<Rightarrow> stored_restriction set" where
  "on_file now d fp st =
     {r. \<exists>i. c_get (es_restriction st) i = Some r \<and>
        (i \<in> indexed (Restrictions d) st \<or> (\<exists>h. nonempty fp = Some h \<and> i \<in> indexed (RestrictionsByFingerprint h) st))}"

lemma set_some_of: "set (some_of xs) = {x. Some x \<in> set xs}"
  by (force simp: some_of_def)

lemma set_got: "set (some_of (c_getMany c ids)) = {x. \<exists>i \<in> set ids. c_get c i = Some x}"
  by (force simp: set_some_of c_getMany_def image_iff)

lemma fold_sadd: "set (fold sadd xs ys) = set xs \<union> set ys"
  by (induction xs arbitrary: ys) auto

lemma activeForDevice_file:
  fixes now :: millis and d :: device_id and fp :: "string option" and s :: enf
  defines "st \<equiv> en_store (fst (activeForDevice now d fp s))"
  defines "known \<equiv> (case fp of Some h \<Rightarrow> Some h | None \<Rightarrow> live now (es_fingerprint (en_store s)) d)"
  shows "es_restriction st = es_restriction (en_store s)"
    and "\<exists>rs. set rs = {r \<in> on_file now d known (en_store s). isActive r now} \<and>
           snd (activeForDevice now d fp s) = map_option toPublic (strongest rs)"
proof -
  let ?st = "case nonempty fp of Some h \<Rightarrow> set_fingerprint now d h FINGERPRINT_TTL_MS (en_store s) | None \<Rightarrow> en_store s"
  have st: "st = ?st" by (simp add: st_def activeForDevice_def Let_def)
  have same: "es_restriction ?st = es_restriction (en_store s)" "es_indexes ?st = es_indexes (en_store s)"
    by (simp_all split: option.split)
  show "es_restriction st = es_restriction (en_store s)" using same(1) by (simp add: st)
  have k: "(case fp of Some h \<Rightarrow> Some h | None \<Rightarrow> live now (es_fingerprint ?st) d) = known"
    by (simp add: known_def nonempty_def split: option.split)
  let ?own = "indexRange (Restrictions d) all_range (en_store s)"
  let ?ids = "case nonempty known of Some h \<Rightarrow> fold sadd (indexRange (RestrictionsByFingerprint h) all_range (en_store s)) ?own | None \<Rightarrow> ?own"
  have ids: "set ?ids = {i. i \<in> indexed (Restrictions d) (en_store s) \<or> (\<exists>h. nonempty known = Some h \<and> i \<in> indexed (RestrictionsByFingerprint h) (en_store s))}"
    by (auto simp: indexed_def fold_sadd split: option.split)
  let ?rs = "filter (\<lambda>r. isActive r now) (some_of (c_getMany (es_restriction (en_store s)) ?ids))"
  have "set ?rs = {r \<in> on_file now d known (en_store s). isActive r now}"
    unfolding set_filter set_got ids on_file_def by blast
  moreover have "snd (activeForDevice now d fp s) = map_option toPublic (strongest ?rs)"
    unfolding activeForDevice_def Let_def snd_conv k index_same [OF same(2)] activeOf_def same(1) by (rule refl)
  ultimately show "\<exists>rs. set rs = {r \<in> on_file now d known (en_store s). isActive r now} \<and>
      snd (activeForDevice now d fp s) = map_option toPublic (strongest rs)" by blast
qed

definition known_fingerprint :: "millis \<Rightarrow> device_id \<Rightarrow> string option \<Rightarrow> enf \<Rightarrow> string option" where
  "known_fingerprint now d fp s = (case fp of Some h \<Rightarrow> Some h | None \<Rightarrow> live now (es_fingerprint (en_store s)) d)"

definition holding :: "millis \<Rightarrow> device_id \<Rightarrow> string option \<Rightarrow> enf \<Rightarrow> stored_restriction set" where
  "holding now d fp s = {r \<in> on_file now d (known_fingerprint now d fp s) (en_store s). isActive r now}"

text \<open>
  C26: a device is let in exactly when no restriction on file for it (or for the browser fingerprint it is known by)
  is active, warnings and lifted or lapsed ones aside; otherwise the one it is shown is one of them that ends last,
  a permanent one before all others.
\<close>

theorem strongest_restriction_holds:
  "(case snd (activeForDevice now d fp s) of
      None \<Rightarrow> holding now d fp s = {}
    | Some v \<Rightarrow> v \<in> toPublic ` holding now d fp s \<and> {q \<in> holding now d fp s. \<not> ends_within (re_until q) (re_until v)} = {})"
proof -
  obtain rs where rs: "set rs = holding now d fp s" "snd (activeForDevice now d fp s) = map_option toPublic (strongest rs)"
    using activeForDevice_file(2) [where now = now and d = d and fp = fp and s = s] unfolding holding_def known_fingerprint_def by blast
  show ?thesis
  proof (cases "strongest rs")
    case None
    then show ?thesis using strongest_correct(1) [of rs] rs by simp
  next
    case (Some b)
    then have "b \<in> set rs" "\<forall>r \<in> set rs. ends_within (re_until r) (re_until b)" using strongest_correct(2) by blast+
    then show ?thesis using Some rs by (auto simp: toPublic_def restriction.truncate_def)
  qed
qed

section \<open>The automatic action\<close>

lemma wrote_fields [simp]:
  "es_report (set_lastAuto now d v t st) = es_report st" "es_restriction (set_lastAuto now d v t st) = es_restriction st"
  "es_indexes (set_lastAuto now d v t st) = es_indexes st"
  by (simp_all add: set_lastAuto_def)

lemma index_rest [simp]:
  "es_fingerprint (addToIndex k i sc st) = es_fingerprint st" "es_lastAuto (addToIndex k i sc st) = es_lastAuto st"
  "es_fingerprint (put_report r st) = es_fingerprint st" "es_indexes (put_report r st) = es_indexes st"
  "es_restriction (put_report r st) = es_restriction st" "es_report (put_report r st) = c_put (sp_id r) r (sp_createdAt r) (es_report st)"
  by (simp_all add: addToIndex_def put_report_def Let_def)

lemma indexRange_put [simp]: "indexRange k opts (put_report r st) = indexRange k opts st"
  by (rule index_same) simp

lemma indexRange_add [simp]: "k \<noteq> k' \<Longrightarrow> indexRange k opts (addToIndex k' i sc st) = indexRange k opts st"
  by (simp add: indexRange_def addToIndex_def Let_def)

lemma audit_frame [simp]: "en_calls (audit now act t n ip s) = en_calls s"
  by (simp add: audit_def Let_def split_beta)

lemma side_calls [simp]:
  "en_calls (banNetwork e now d r s) = en_calls s" "en_calls (flagMinorRisk now d s) = en_calls s"
  by (simp_all add: banNetwork_def flagMinorRisk_def Let_def split: option.split)

lemma if_calls: "en_calls (if c then s else t) = (if c then en_calls s else en_calls t)"
  by simp

lemma case_calls: "en_calls (case x of None \<Rightarrow> s | Some y \<Rightarrow> f y) = (case x of None \<Rightarrow> en_calls s | Some y \<Rightarrow> en_calls (f y))"
  by (simp split: option.split)

lemma restrict_view:
  "snd (restrict e now d reason stp auto rep s) =
     toPublic (made_restriction now (en_ids s) d reason stp auto (live now (es_fingerprint (en_store s)) d) rep)"
  by (simp add: restrict_def Let_def draw_def)

lemma restrict_facts:
  "en_calls (fst (restrict e now d reason stp auto rep s)) = en_calls s @ [Applied d (snd (restrict e now d reason stp auto rep s))]"
  "re_kind (snd (restrict e now d reason stp auto rep s)) = (case stp of WarningStep \<Rightarrow> Warning | Duration ms \<Rightarrow> kindFor ms)"
  "re_until (snd (restrict e now d reason stp auto rep s)) = (case stp of WarningStep \<Rightarrow> Some now | Duration ms \<Rightarrow> map_option (\<lambda>x. now + x) ms)"
  "re_id (snd (restrict e now d reason stp auto rep s)) = en_ids s"
proof -
  show "en_calls (fst (restrict e now d reason stp auto rep s)) = en_calls s @ [Applied d (snd (restrict e now d reason stp auto rep s))]"
    unfolding restrict_view
    by (simp add: restrict_def Let_def draw_def if_calls case_calls option.case_eq_if cong: if_cong)
qed (simp_all add: restrict_view toPublic_def restriction.truncate_def made_restriction_def)

lemma activeForDevice_plain [simp]: "fst (activeForDevice now d None s) = s"
  by (simp add: activeForDevice_def Let_def nonempty_def)

lemma activeForDevice_cong:
  assumes "es_restriction (en_store s') = es_restriction (en_store s)" "es_fingerprint (en_store s') = es_fingerprint (en_store s)"
    "\<And>k. k = Restrictions d \<or> (\<exists>h. k = RestrictionsByFingerprint h) \<Longrightarrow> indexRange k all_range (en_store s') = indexRange k all_range (en_store s)"
  shows "snd (activeForDevice now d None s') = snd (activeForDevice now d None s)"
proof -
  have "nonempty None = None" by (simp add: nonempty_def)
  then show ?thesis using assms by (simp add: activeForDevice_def Let_def activeOf_def cong: option.case_cong)
qed

text \<open>The automatic step of a report: nothing, or one pause of ten minutes for a device that is free.\<close>

definition bounded_action :: "millis \<Rightarrow> device_id \<Rightarrow> enf \<Rightarrow> enf \<Rightarrow> restriction option \<Rightarrow> bool" where
  "bounded_action now d s s' v \<longleftrightarrow>
     (case v of
        None \<Rightarrow> en_calls s' = en_calls s
      | Some r \<Rightarrow> re_kind r = Pause \<and> re_until r = Some (now + 600000) \<and> en_calls s' = en_calls s @ [Applied d r]
          \<and> snd (activeForDevice now d None s) = None)"

lemma pause_restrict:
  assumes "snd (activeForDevice now d None s) = None" "en_calls s1 = en_calls s"
  shows "bounded_action now d s (fst (restrict e now d reason (Duration (Some AUTO_PAUSE_MS)) True rep s1))
    (Some (snd (restrict e now d reason (Duration (Some AUTO_PAUSE_MS)) True rep s1)))"
  using assms restrict_facts [of e now d reason "Duration (Some AUTO_PAUSE_MS)" True rep s1]
  by (simp add: bounded_action_def kindFor_def AUTO_PAUSE_MS_def E_DAY_def E_HOUR_def E_MINUTE_def)

lemma autoAction_bounded:
  "bounded_action clk (sp_reportedDevice rep) s (fst (autoAction e clk rep ds others s)) (snd (autoAction e clk rep ds others s))"
proof (cases "snd (activeForDevice clk (sp_reportedDevice rep) None s)")
  case None
  then show ?thesis
    using pause_restrict [OF None, of s e RUnderage rep] pause_restrict [OF None]
    by (auto simp: autoAction_def Let_def split_beta bounded_action_def)
next
  case (Some r)
  then show ?thesis by (simp add: autoAction_def Let_def split_beta bounded_action_def)
qed

lemma store_frame_facts [simp]:
  "en_store (fst (store_frame fails r f s)) = en_store s" "en_calls (fst (store_frame fails r f s)) = en_calls s"
  by (simp_all add: store_frame_def draw_def Let_def split_beta split: option.split)

lemma file_report_facts [simp]:
  "en_calls (file_report rep s) = en_calls s" "en_disk (file_report rep s) = en_disk s"
  "snd (activeForDevice now d None (file_report rep s)) = snd (activeForDevice now d None s)"
  by (simp_all add: file_report_def) (rule activeForDevice_cong; auto)

lemma activeForDevice_store: "en_store s' = en_store s \<Longrightarrow> snd (activeForDevice now d None s') = snd (activeForDevice now d None s)"
  by (rule activeForDevice_cong) simp_all


end
