(* ===== verification/RetentionTheorems.thy ===== *)
theory RetentionTheorems
  imports EnforcementTheorems
begin

text \<open>
  What the enforcement module keeps and what it shows: the retention sweep, the preservation of
  escalated reports, and who is ever served an evidence frame.
\<close>

section \<open>The retention sweep\<close>

text \<open>A report the sweep passes over: on legal hold, or with a frame that cannot be deleted.\<close>

definition retained :: "(uuid \<Rightarrow> bool) \<Rightarrow> millis \<Rightarrow> stored_report option \<Rightarrow> bool" where
  "retained stuck now r \<longleftrightarrow>
     held now r \<or> (case r of None \<Rightarrow> False | Some x \<Rightarrow> (case sp_evidenceId x of None \<Rightarrow> False | Some v \<Rightarrow> stuck v))"

definition report_of :: "enf \<Rightarrow> uuid \<Rightarrow> stored_report option" where
  "report_of s i = c_get (es_report (en_store s)) i"

definition audit_of :: "enf \<Rightarrow> uuid \<Rightarrow> audit_entry option" where
  "audit_of s i = c_get (es_audit (en_store s)) i"

lemma records_on_store [simp]:
  "es_report (f (en_store s)) = es_report (en_store s) \<Longrightarrow> report_of (on_store f s) i = report_of s i"
  "es_audit (f (en_store s)) = es_audit (en_store s) \<Longrightarrow> audit_of (on_store f s) i = audit_of s i"
  by (simp_all add: report_of_def audit_of_def)

lemma held_None [simp]: "\<not> held now None" "\<not> retained stuck now None"
  by (simp_all add: held_def retained_def)

lemma sweep_report_facts:
  "report_of (sweep_report stuck now i s) j = (if j = i \<and> \<not> retained stuck now (report_of s i) then None else report_of s j)"
  "audit_of (sweep_report stuck now i s) j = audit_of s j"
  "jget (en_disk (sweep_report stuck now i s)) k =
     (case report_of s i of
        Some r \<Rightarrow> if \<not> retained stuck now (Some r) \<and> sp_evidenceId r = Some (snd k) \<and> fst k = sp_restricted r then None else jget (en_disk s) k
      | None \<Rightarrow> jget (en_disk s) k)"
  by (cases k; cases "report_of s i"; cases "sp_evidenceId (the (report_of s i))";
      auto simp: sweep_report_def report_of_def audit_of_def retained_def Let_def ev_delete_def)+

lemma sweep_reports:
  "report_of (fold (sweep_report stuck now) ids s) j = (if j \<in> set ids \<and> \<not> retained stuck now (report_of s j) then None else report_of s j)"
  "audit_of (fold (sweep_report stuck now) ids s) j = audit_of s j"
  by (induction ids arbitrary: s) (auto simp: sweep_report_facts)

lemma sweep_reports_disk:
  "jget (en_disk (fold (sweep_report stuck now) ids s)) k \<noteq> jget (en_disk s) k \<Longrightarrow>
     \<exists>i r. report_of s i = Some r \<and> \<not> retained stuck now (Some r) \<and> sp_evidenceId r = Some (snd k)"
proof (induction ids arbitrary: s)
  case (Cons i ids)
  let ?s = "sweep_report stuck now i s"
  show ?case
  proof (cases "jget (en_disk ?s) k = jget (en_disk s) k")
    case True
    then have "jget (en_disk (fold (sweep_report stuck now) ids ?s)) k \<noteq> jget (en_disk ?s) k" using Cons.prems by simp
    from Cons.IH [OF this] obtain j r where "report_of ?s j = Some r" "\<not> retained stuck now (Some r)" "sp_evidenceId r = Some (snd k)"
      by blast
    then show ?thesis by (auto simp: sweep_report_facts(1) split: if_splits)
  next
    case False
    then show ?thesis by (auto simp: sweep_report_facts(3) split: option.splits if_splits)
  qed
qed simp

lemma sweep_rest [simp]:
  "report_of (sweep_restriction i s) j = report_of s j" "audit_of (sweep_restriction i s) j = audit_of s j" "en_disk (sweep_restriction i s) = en_disk s"
  "report_of (sweep_appeal i s) j = report_of s j" "audit_of (sweep_appeal i s) j = audit_of s j" "en_disk (sweep_appeal i s) = en_disk s"
  "report_of (sweep_takedown c i s) j = report_of s j" "audit_of (sweep_takedown c i s) j = audit_of s j" "en_disk (sweep_takedown c i s) = en_disk s"
  "report_of (sweep_audit now i s) j = report_of s j" "en_disk (sweep_audit now i s) = en_disk s"
  by (auto simp: sweep_restriction_def sweep_appeal_def sweep_takedown_def sweep_audit_def Let_def split: option.split)

lemma fold_keeps: "(\<And>x s. g (f x s) = g s) \<Longrightarrow> g (fold f xs s) = g s"
  by (induction xs arbitrary: s) auto

lemma sweep_audits:
  "audit_of (fold (sweep_audit now) ids s) j =
     (case audit_of s j of
        Some a \<Rightarrow> if j \<in> set ids \<and> \<not> held now (report_of s (au_target a)) then None else Some a
      | None \<Rightarrow> None)"
proof (induction ids arbitrary: s)
  case (Cons i ids)
  have "audit_of (sweep_audit now i s) j =
     (case audit_of s j of Some a \<Rightarrow> if j = i \<and> \<not> held now (report_of s (au_target a)) then None else Some a | None \<Rightarrow> None)"
    by (auto simp: sweep_audit_def audit_of_def report_of_def split: option.split)
  then show ?case using Cons by (auto split: option.split)
qed (simp split: option.split)

text \<open>Every frame belongs to one report.\<close>

definition own_evidence :: "enf \<Rightarrow> bool" where
  "own_evidence s \<longleftrightarrow>
     (\<forall>i j r q v. report_of s i = Some r \<and> report_of s j = Some q \<and> sp_evidenceId r = Some v \<and> sp_evidenceId q = Some v \<longrightarrow> i = j)"

text \<open>
  C28: the yearly clearing out removes exactly the reports that are due and neither on legal hold nor stuck with a
  frame that cannot be deleted; and what is on legal hold stays whole: the report, its frame in the area it is
  sealed in, and every audit entry about it.
\<close>

theorem retention_spares_the_held:
  assumes "own_evidence s" "s' = sweepRetention stuck now s"
    "due = set (c_range (es_report (en_store s)) (up_to (now - RETENTION_MS)))"
  shows "(\<forall>j. report_of s' j = (if j \<in> due \<and> \<not> retained stuck now (report_of s j) then None else report_of s j))
    \<and> (\<forall>j r v. report_of s j = Some r \<and> held now (Some r) \<and> sp_evidenceId r = Some v
         \<longrightarrow> jget (en_disk s') (sp_restricted r, v) = jget (en_disk s) (sp_restricted r, v))
    \<and> (\<forall>j a. audit_of s j = Some a \<and> held now (report_of s (au_target a)) \<longrightarrow> audit_of s' j = Some a)"
proof -
  let ?ids = "c_range (es_report (en_store s)) (up_to (now - RETENTION_MS))"
  let ?s1 = "fold (sweep_report stuck now) ?ids s"
  obtain r2 r3 r4 r5 where s': "s' = fold (sweep_audit now) r5 (fold (sweep_takedown (now - RETENTION_MS)) r4
      (fold sweep_appeal r3 (fold sweep_restriction r2 ?s1)))"
    unfolding assms(2) sweepRetention_def Let_def by blast
  let ?s4 = "fold (sweep_takedown (now - RETENTION_MS)) r4 (fold sweep_appeal r3 (fold sweep_restriction r2 ?s1))"
  have r4: "report_of ?s4 j = report_of ?s1 j" and a4: "audit_of ?s4 j = audit_of ?s1 j" and d4: "en_disk ?s4 = en_disk ?s1" for j
    by (simp_all add: fold_keeps [of "\<lambda>s. report_of s j"] fold_keeps [of "\<lambda>s. audit_of s j"] fold_keeps [of en_disk])
  have rep: "report_of s' j = (if j \<in> due \<and> \<not> retained stuck now (report_of s j) then None else report_of s j)" for j
    by (simp add: s' fold_keeps [of "\<lambda>s. report_of s j" "sweep_audit now"] r4 sweep_reports(1) assms(3))
  have disk: "jget (en_disk s') (sp_restricted r, v) = jget (en_disk s) (sp_restricted r, v)"
    if r: "report_of s j = Some r" "held now (Some r)" "sp_evidenceId r = Some v" for j r v
  proof (rule ccontr)
    assume "jget (en_disk s') (sp_restricted r, v) \<noteq> jget (en_disk s) (sp_restricted r, v)"
    then have "jget (en_disk ?s1) (sp_restricted r, v) \<noteq> jget (en_disk s) (sp_restricted r, v)"
      by (simp add: s' fold_keeps [of en_disk "sweep_audit now"] d4)
    from sweep_reports_disk [OF this] obtain i q where q: "report_of s i = Some q" "\<not> retained stuck now (Some q)" "sp_evidenceId q = Some v" by auto
    then have "i = j" using assms(1) r by (auto simp: own_evidence_def)
    then show False using q r by (simp add: retained_def)
  qed
  have "audit_of s' j = Some a" if a: "audit_of s j = Some a" "held now (report_of s (au_target a))" for j a
  proof -
    have "held now (report_of ?s4 (au_target a))" using a(2) by (simp add: r4 sweep_reports(1) retained_def)
    then show ?thesis unfolding s' sweep_audits a4 sweep_reports(2) a(1) by simp
  qed
  then show ?thesis using rep disk by blast
qed

text \<open>Code equations that compare on integers, which evaluate fast.\<close>

lemma ev_get_code [code]:
  "ev_get i restricted m =
     (case jget m (restricted, i) of
        None \<Rightarrow> Missing
      | Some b \<Rightarrow> if 98304 < int (length b) \<or> \<not> isJpeg b then Corrupt else Bytes b)"
  by (simp add: ev_get_def EVIDENCE_MAX_BYTES_def split: option.split)
lemma sweep_due: "n mod SWEEP_EVERY_WRITES \<noteq> 0 \<longleftrightarrow> int n mod 1000 \<noteq> 0"
proof -
  have "int n mod 1000 = int (n mod 1000)" by (simp add: zmod_int)
  then show ?thesis by (simp add: SWEEP_EVERY_WRITES_def)
qed

lemma wrote_code [code]:
  "wrote now s =
     (let n = es_writes s + 1 in
      if int n mod 1000 \<noteq> 0 then s\<lparr>es_writes := n\<rparr>
      else s\<lparr>es_writes := n, es_claims := keep_live now (es_claims s), es_hits := keep_live now (es_hits s),
             es_network := keep_live now (es_network s), es_lastRoom := keep_live now (es_lastRoom s),
             es_fingerprint := keep_live now (es_fingerprint s), es_lastAuto := keep_live now (es_lastAuto s),
             es_networkBan := keep_live now (es_networkBan s), es_fields := keep_live now (es_fields s)\<rparr>)"
  unfolding wrote_def Let_def sweep_due by (rule refl)

text \<open>A reported frame, escalated a second later; the sweep runs when the report itself is a year old.\<close>

definition sample_enf_env :: enf_env where
  "sample_enf_env =
     \<lparr>ee_hmac = (\<lambda>k m. k @ m), ee_salt = ''salt'', ee_net = \<lparr>isIPv4 = (\<lambda>s. CHR ''.'' \<in> set s), isIPv6 = (\<lambda>s. CHR '':'' \<in> set s)\<rparr>,
      ee_classifier = None, ee_turnstile = (\<lambda>_ _. True), ee_reportAfterEndMs = 120000\<rparr>"

definition sample_report :: report_input where
  "sample_report =
     \<lparr>ri_roomId = 7, ri_reporterDevice = ''d1'', ri_reporterIp = None, ri_reportedDevice = ''d2'', ri_reason = nudity,
      ri_details = None, ri_frame = Some \<lparr>ef_bytes = [CHR 0xFF, CHR 0xD8, CHR 0xFF, CHR ''x''], ef_sha256 = ''h''\<rparr>,
      ri_chat = [], ri_activeSince = Some 0, ri_endedAt = None\<rparr>"

definition enf_reported :: enf where
  "enf_reported = fst (submitReport sample_enf_env 1000 False sample_report new_enf)"

definition enf_escalated :: enf where
  "enf_escalated = fst (escalate sample_enf_env 2000 0 None None enf_reported)"

theorem retention_spares_the_held_witness:
  "\<exists>r. report_of (sweepRetention (\<lambda>_. False) (1500 + RETENTION_MS) enf_escalated) 0 = Some r \<and> sp_evidenceId r = Some 1
    \<and> jget (en_disk (sweepRetention (\<lambda>_. False) (1500 + RETENTION_MS) enf_escalated)) (True, 1) = Some [CHR 0xFF, CHR 0xD8, CHR 0xFF, CHR ''x'']"
proof -
  let ?now = "1500 + RETENTION_MS"
  have v: "jkeys (c_docs (es_report (en_store enf_escalated))) = [0]"
      "map_option (\<lambda>r. (sp_evidenceId r, sp_restricted r, held ?now (Some r))) (report_of enf_escalated 0) = Some (Some 1, True, True)"
      "jget (en_disk enf_escalated) (True, 1) = Some [CHR 0xFF, CHR 0xD8, CHR 0xFF, CHR ''x'']"
    by code_simp+
  then obtain r where r: "report_of enf_escalated 0 = Some r" "sp_evidenceId r = Some 1" "sp_restricted r" "held ?now (Some r)" by auto
  have "i = 0" if "report_of enf_escalated i = Some q" for i q
    using jget_Some_key [of "c_docs (es_report (en_store enf_escalated))" i q] that v(1) by (simp add: report_of_def c_get_def)
  then have "own_evidence enf_escalated" by (auto simp: own_evidence_def)
  note T = retention_spares_the_held [OF this refl refl, where stuck = "\<lambda>_. False" and now = ?now]
  have "report_of (sweepRetention (\<lambda>_. False) ?now enf_escalated) 0 = Some r"
    using conjunct1 [OF T] r by (simp add: retained_def)
  moreover have "jget (en_disk (sweepRetention (\<lambda>_. False) ?now enf_escalated)) (True, 1) = jget (en_disk enf_escalated) (True, 1)"
    using conjunct1 [OF conjunct2 [OF T], rule_format, of 0 r 1] r by simp
  ultimately show ?thesis using r(2) v(3) by auto
qed

section \<open>Who is served a frame\<close>

lemma audit_records:
  "report_of (audit now act t n ip s) i = report_of s i"
  "\<exists>j. audit_of (audit now act t n ip s) j = Some \<lparr>au_id = j, au_ts = now, au_action = act, au_target = t, au_note = n, au_ip = ip\<rparr>"
  "en_disk (audit now act t n ip s) = en_disk s"
proof -
  show "report_of (audit now act t n ip s) i = report_of s i" "en_disk (audit now act t n ip s) = en_disk s"
    by (simp_all add: audit_def draw_def Let_def report_of_def)
  show "\<exists>j. audit_of (audit now act t n ip s) j = Some \<lparr>au_id = j, au_ts = now, au_action = act, au_target = t, au_note = n, au_ip = ip\<rparr>"
    by (rule exI [of _ "en_ids s"]) (simp add: audit_def draw_def Let_def audit_of_def)
qed

text \<open>Whether an audit entry says so.\<close>

definition noted :: "enf \<Rightarrow> millis \<Rightarrow> string \<Rightarrow> uuid \<Rightarrow> bool" where
  "noted s now act t \<longleftrightarrow> (\<exists>j a. audit_of s j = Some a \<and> au_ts a = now \<and> au_action a = act \<and> au_target a = t)"

lemma noted_audit [simp]: "noted (audit now act t n ip s) now act t"
  unfolding noted_def using audit_records(2) [of now act t n ip s] by fastforce

lemma noted_put_report [simp]: "noted (on_store (put_report r) s) now act t = noted s now act t"
  by (simp add: noted_def put_report_def)


section \<open>Appeals\<close>

record attempt =
  at_time :: millis
  at_restriction :: uuid
  at_device :: device_id
  at_text :: string
  at_ip :: "string option"

fun appeal_run :: "enf_env \<Rightarrow> attempt list \<Rightarrow> enf \<Rightarrow> appeal_response list" where
  "appeal_run e [] s = []"
| "appeal_run e (x # xs) s =
     (let (s', r) = submitAppeal e (at_time x) (at_restriction x) (at_device x) (at_text x) (at_ip x) s in
      r # appeal_run e xs s')"

text \<open>A restriction is stored under its own id.\<close>

definition filed_under_id :: "enf \<Rightarrow> bool" where
  "filed_under_id s \<longleftrightarrow> (\<forall>i r. c_get (es_restriction (en_store s)) i = Some r \<longrightarrow> re_id r = i)"

definition appealed :: "enf \<Rightarrow> uuid \<Rightarrow> bool" where
  "appealed s i \<longleftrightarrow> (\<exists>r. c_get (es_restriction (en_store s)) i = Some r \<and> ap_status (re_appeal r) \<noteq> AppealNone)"

lemma es_hit_docs [simp]: "es_restriction (fst (es_hit now k w st)) = es_restriction st"
  by (simp add: es_hit_def split: option.split prod.split)

lemma es_claim_docs [simp]: "es_restriction (fst (es_claim now k t st)) = es_restriction st"
  by (simp add: es_claim_def)

lemma submitAppeal_step:
  fixes e :: enf_env and now :: millis and rid :: uuid and d :: device_id and t :: string and ip :: "string option" and s :: enf
  assumes "filed_under_id s"
  defines "s' \<equiv> fst (submitAppeal e now rid d t ip s)" and "r \<equiv> snd (submitAppeal e now rid d t ip s)"
  shows "filed_under_id s'"
    and "appealed s i \<Longrightarrow> appealed s' i"
    and "r = AppealOk a \<Longrightarrow> \<not> appealed s rid \<and> appealed s' rid"
proof -
  define st where "st = (case nonempty ip of None \<Rightarrow> (en_store s, 0) | Some x \<Rightarrow> es_hit now (AppealIpRate (network_of e x)) E_HOUR (en_store s))"
  have st: "es_restriction (fst st) = es_restriction (en_store s)" by (simp add: st_def split: option.split)
  define sd where "sd = es_hit now (AppealDeviceRate d) E_DAY (fst st)"
  have sd: "es_restriction (fst sd) = es_restriction (en_store s)" by (simp add: sd_def st)
  define sc where "sc = es_claim now (AppealClaim rid) APPEAL_CLAIM_TTL_MS (fst sd)"
  have sc: "es_restriction (fst sc) = es_restriction (en_store s)" by (simp add: sc_def sd)
  have shape: "(\<not> (\<exists>a. r = AppealOk a) \<and> es_restriction (en_store s') = es_restriction (en_store s)) \<or>
      (\<exists>q a. c_get (es_restriction (en_store s)) rid = Some q \<and> ap_status (re_appeal q) = AppealNone \<and> r = AppealOk a \<and>
        es_restriction (en_store s') =
          c_put rid (q\<lparr>re_appeal := \<lparr>ap_status = AppealPending, ap_submittedAt = Some now, ap_decidedAt = None\<rparr>\<rparr>) (restrictionEnd q) (es_restriction (en_store s)))"
  proof (cases "c_get (es_restriction (en_store s)) rid")
    case None
    then show ?thesis by (simp add: r_def s'_def submitAppeal_def Let_def split_beta st flip: st_def)
  next
    case (Some q)
    then have id: "re_id q = rid" using assms(1) by (simp add: filed_under_id_def)
    have sc': "es_claim now (AppealClaim (re_id q)) APPEAL_CLAIM_TTL_MS (fst sd) = sc" by (simp add: sc_def id)
    have e: "restrictionEnd (q\<lparr>re_appeal := x\<rparr>) = restrictionEnd q" for x by (simp add: restrictionEnd_def split: option.split)
    show ?thesis
      using Some sd sc by (auto simp: r_def s'_def submitAppeal_def Let_def split_beta st id e put_restriction_def draw_def
          simp flip: st_def sd_def sc_def)
  qed
  show "filed_under_id s'" using shape assms(1) by (auto simp: filed_under_id_def split: if_splits)
  show "appealed s i \<Longrightarrow> appealed s' i" using shape by (auto simp: appealed_def)
  show "r = AppealOk a \<Longrightarrow> \<not> appealed s rid \<and> appealed s' rid" using shape by (auto simp: appealed_def)
qed

lemma appeal_run_appealed:
  "filed_under_id s \<Longrightarrow> appealed s i \<Longrightarrow> length (filter (\<lambda>(x, r). at_restriction x = i \<and> (\<exists>a. r = AppealOk a)) (zip xs (appeal_run e xs s))) = 0"
proof (induction xs arbitrary: s)
  case (Cons x xs)
  obtain s' r where s': "submitAppeal e (at_time x) (at_restriction x) (at_device x) (at_text x) (at_ip x) s = (s', r)" by fastforce
  note S = submitAppeal_step [OF Cons.prems(1), where e = e and now = "at_time x" and rid = "at_restriction x"
      and d = "at_device x" and t = "at_text x" and ip = "at_ip x", unfolded s', simplified]
  have "\<not> (at_restriction x = i \<and> (\<exists>a. r = AppealOk a))" using S(3) Cons.prems(2) by blast
  then show ?case using Cons.IH [OF S(1) S(2) [OF Cons.prems(2)]] by (auto simp: s')
qed simp

text \<open>
  C30: a restriction is appealed at most once, whoever tries, from whichever device and address and however often:
  of any sequence of attempts at most one per restriction is accepted, and none when an appeal is already on file.
\<close>

theorem one_appeal_each:
  assumes "filed_under_id s"
  shows "length (filter (\<lambda>(x, r). at_restriction x = i \<and> (\<exists>a. r = AppealOk a)) (zip xs (appeal_run e xs s)))
    \<le> (if appealed s i then 0 else 1)"
  using assms
proof (induction xs arbitrary: s)
  case (Cons x xs)
  obtain s' r where s': "submitAppeal e (at_time x) (at_restriction x) (at_device x) (at_text x) (at_ip x) s = (s', r)" by fastforce
  note S = submitAppeal_step [OF Cons.prems, where e = e and now = "at_time x" and rid = "at_restriction x"
      and d = "at_device x" and t = "at_text x" and ip = "at_ip x", unfolded s', simplified]
  show ?case
  proof (cases "at_restriction x = i \<and> (\<exists>a. r = AppealOk a)")
    case True
    then have "\<not> appealed s i" "appealed s' i" using S(3) by blast+
    then show ?thesis using appeal_run_appealed [OF S(1), of i xs e] True by (auto simp: s')
  next
    case False
    have "(if appealed s' i then 0 else 1) \<le> (if appealed s i then 0 else (1::nat))" using S(2) by simp
    then show ?thesis using Cons.IH [OF S(1)] False le_trans by (auto simp: s')
  qed
qed simp

definition enf_banned :: enf where
  "enf_banned = fst (actOnReport sample_enf_env 2000 0 (RestrictDevice None None) None None enf_reported)"

definition sample_attempts :: "attempt list" where
  "sample_attempts = [\<lparr>at_time = 3000, at_restriction = 2, at_device = ''d2'', at_text = ''no'', at_ip = None\<rparr>,
     \<lparr>at_time = 4000, at_restriction = 2, at_device = ''d2'', at_text = ''again'', at_ip = None\<rparr>]"

theorem one_appeal_each_witness:
  "length (filter (\<lambda>(x, r). at_restriction x = 2 \<and> (\<exists>a. r = AppealOk a)) (zip sample_attempts (appeal_run sample_enf_env sample_attempts enf_banned))) \<le> 1
   \<and> appeal_run sample_enf_env sample_attempts enf_banned = [AppealOk 4, AlreadyAppealed]"
proof -
  have "map (\<lambda>(i, r). (i, re_id r)) (c_docs (es_restriction (en_store enf_banned))) = [(2, 2)]" by code_simp
  then have "filed_under_id enf_banned" by (auto simp: filed_under_id_def c_get_def dest!: jget_in)
  moreover have "appeal_run sample_enf_env sample_attempts enf_banned = [AppealOk 4, AlreadyAppealed]" by code_simp
  moreover have "\<not> appealed enf_banned 2"
  proof -
    have "map_option (\<lambda>r. ap_status (re_appeal r)) (c_get (es_restriction (en_store enf_banned)) 2) = Some AppealNone" by code_simp
    then show ?thesis by (auto simp: appealed_def)
  qed
  ultimately show ?thesis using one_appeal_each [of enf_banned 2 sample_attempts sample_enf_env] by simp
qed

end
