(* ===== verification/ReportTheorems.thy ===== *)
theory ReportTheorems
  imports RetentionTheorems
begin

text \<open>
  What it takes for reports to pause a device by themselves, and the way of a reported frame from
  the data URL of the reporter's browser to the disk and back.
\<close>

section \<open>One network\<close>

definition against :: "device_id \<Rightarrow> enf_store \<Rightarrow> stored_report set" where
  "against d st = {r. \<exists>i \<in> indexed (ReportsAgainst d) st. c_get (es_report st) i = Some r}"

lemma indexRange_indexed: "ro_limit opts = None \<Longrightarrow> set (indexRange k opts st) \<subseteq> indexed k st"
  by (cases "jget (es_indexes st) k") (force simp: indexed_def indexRange_def set_rangeOf set_rangeOf_all jkeys_def)+

lemma indexed_put_report [simp]: "indexed k (put_report r st) = indexed k st"
  by (simp add: indexed_def)

lemma weigh_one:
  assumes "\<forall>r \<in> set rs. reporterKey r = k \<and> sp_reporterWeight r \<le> 1" "m = [] \<or> (\<exists>w \<le> 1. m = [(k, w)])"
  shows "fold weigh rs m = [] \<or> (\<exists>w \<le> 1. fold weigh rs m = [(k, w)])"
  using assms
proof (induction rs arbitrary: m)
  case (Cons r rs)
  have "reportWeight (sp_reporterWeight r) (sp_shortCall r) \<le> 1" using Cons.prems(1) by (simp add: reportWeight_def)
  then have "weigh r m = [] \<or> (\<exists>w \<le> 1. weigh r m = [(k, w)])"
    using Cons.prems by (auto simp: weigh_def Let_def)
  then show ?case using Cons.IH [of "weigh r m"] Cons.prems(1) by simp
qed simp

lemma one_key_total:
  assumes "\<forall>r \<in> against d st. reporterKey r = k \<and> sp_reporterWeight r \<le> 1"
  shows "report_total d since st \<le> 1"
proof -
  let ?rs = "some_of (c_getMany (es_report st) (indexRange (ReportsAgainst d) (from_min since) st))"
  have "ro_limit (from_min since) = None" by (simp add: from_min_def all_range_def)
  then have "set ?rs \<subseteq> against d st" unfolding set_got against_def using indexRange_indexed by blast
  then have "\<forall>r \<in> set ?rs. reporterKey r = k \<and> sp_reporterWeight r \<le> 1" using assms by blast
  from weigh_one [OF this, of "[]"] show ?thesis by (auto simp: report_total_def jvals_def)
qed

lemma against_filed:
  assumes "en_store s2 = en_store s" "sp_reportedDevice rep = d"
  shows "against d (en_store (file_report rep s2)) \<subseteq> insert rep (against d (en_store s))"
  using assms by (auto simp: against_def file_report_def split: if_splits)

text \<open>
  One person, or one network with however many browsers, cannot have anybody paused by reports alone: while all
  reports on file against a device come from the reporter's own network (or, without an address, device), a further
  one from there takes no automatic action, unless it is an underage report, which has rules of its own.
\<close>

theorem one_network_cannot_pause:
  assumes "ri_reason inp \<noteq> underage"
    "me = (case reporter_network e inp of Some n \<Rightarrow> n | None \<Rightarrow> ri_reporterDevice inp)"
    "\<forall>r \<in> against (ri_reportedDevice inp) (en_store s). reporterKey r = me \<and> sp_reporterWeight r \<le> 1"
  shows "snd (snd (submitReport e now fails inp s)) = None \<and> en_calls (fst (submitReport e now fails inp s)) = en_calls s"
proof -
  obtain s1 i where d: "draw s = (s1, i)" by fastforce
  then have s1: "en_store s1 = en_store s" "en_calls s1 = en_calls s" using draw_frame [of s] by simp_all
  let ?stats = "deviceStats now (ri_reportedDevice inp) (en_store s1)" and ?others = "other_underage e now inp (en_store s1)"
  let ?r = "routeRestricted (ri_reason inp) (frame_scores_of e (ri_frame inp)) (ds_minorFlag ?stats \<or> 0 < ?others)"
  obtain s2 ev where f: "store_frame fails ?r (ri_frame inp) s1 = (s2, ev)" by fastforce
  then have s2: "en_store s2 = en_store s" "en_calls s2 = en_calls s" using store_frame_facts [of fails ?r "ri_frame inp" s1] s1 by simp_all
  let ?rep = "made_report e now inp (en_store s1) i ?r ev"
  have rep: "sp_reportedDevice ?rep = ri_reportedDevice inp" "sp_reason ?rep = ri_reason inp" "reporterKey ?rep = me" "sp_reporterWeight ?rep \<le> 1"
    using conjunct2 [OF reporterWeight_range] by (simp_all add: made_report_def Let_def reporterKey_def assms(2) split: option.split)
  have "\<forall>r \<in> against (ri_reportedDevice inp) (en_store (file_report ?rep s2)). reporterKey r = me \<and> sp_reporterWeight r \<le> 1"
    using against_filed [OF s2(1) rep(1)] assms(3) rep(3,4) by blast
  then have "report_total (ri_reportedDevice inp) t (en_store (file_report ?rep s2)) \<le> 1" for t by (rule one_key_total)
  then have "report_total (ri_reportedDevice inp) t (en_store (file_report ?rep s2)) < AUTO_PAUSE_THRESHOLD" for t
    by (rule le_less_trans) (simp add: AUTO_PAUSE_THRESHOLD_def)
  then have "autoAction e now ?rep ?stats ?others (file_report ?rep s2) = (file_report ?rep s2, None)"
    by (simp add: autoAction_def Let_def split_beta rep assms(1))
  then show ?thesis using s2(2) by (simp add: submitReport_def d f Let_def split_beta)
qed

text \<open>The same person reports again, without a frame, from a second browser behind the same address.\<close>

definition sample_again :: report_input where
  "sample_again = sample_report\<lparr>ri_reporterDevice := ''d9'', ri_reporterIp := Some ''1.2.3.4'', ri_reason := spam, ri_frame := None\<rparr>"

definition enf_twice :: enf where
  "enf_twice = fst (submitReport sample_enf_env 1000 False (sample_report\<lparr>ri_reporterIp := Some ''1.2.3.4''\<rparr>) new_enf)"

theorem one_network_cannot_pause_witness:
  "snd (snd (submitReport sample_enf_env 5000 False sample_again enf_twice)) = None \<and> against ''d2'' (en_store enf_twice) \<noteq> {}"
proof -
  let ?me = "case reporter_network sample_enf_env sample_again of Some n \<Rightarrow> n | None \<Rightarrow> ri_reporterDevice sample_again"
  have k: "map (\<lambda>(i, r). (i, reporterKey r = ?me, sp_reporterWeight r)) (c_docs (es_report (en_store enf_twice))) = [(0, True, 9 / 40)]"
    and x: "indexRange (ReportsAgainst ''d2'') all_range (en_store enf_twice) = [0]" by code_simp+
  then have "\<forall>r \<in> against ''d2'' (en_store enf_twice). reporterKey r = ?me \<and> sp_reporterWeight r \<le> 1"
    by (auto simp: against_def c_get_def dest!: jget_in)
  then have "snd (snd (submitReport sample_enf_env 5000 False sample_again enf_twice)) = None"
    using one_network_cannot_pause [OF _ refl, of sample_again enf_twice sample_enf_env 5000 False] by (simp add: sample_again_def sample_report_def)
  moreover obtain r where "c_docs (es_report (en_store enf_twice)) = [(0, r)]" using k by (auto simp: map_eq_Cons_conv)
  then have "against ''d2'' (en_store enf_twice) \<noteq> {}" using x by (auto simp: against_def indexed_def c_get_def)
  ultimately show ?thesis by blast
qed

section \<open>A frame's way\<close>

text \<open>
  C31: a JPEG frame of an acceptable size survives its whole way: the data URL of its bytes parses back to exactly
  these bytes and their hash, what is written to an area of the disk under a fresh id is read back from there and
  from nowhere else, and writing the same bytes again (a retry) changes nothing.
\<close>

theorem frame_round_trip:
  assumes "EVIDENCE_MIN_BYTES \<le> length bytes" "length bytes \<le> EVIDENCE_MAX_BYTES" "isJpeg bytes"
    "jget disk (area, i) = None" "(disk', done) = ev_put i bytes area disk"
  shows "parseEvidenceFrame sha (toDataUrl bytes) = Some \<lparr>ef_bytes = bytes, ef_sha256 = sha bytes\<rparr>
    \<and> done \<and> ev_get i area disk' = Bytes bytes \<and> ev_put i bytes area disk' = (disk', True)
    \<and> ev_get i (\<not> area) disk' = ev_get i (\<not> area) disk \<and> ev_get i area (ev_delete i area disk') = Missing"
  using parse_toDataUrl [OF assms(1-3)] assms by (simp add: ev_put_def ev_get_def ev_delete_def)

theorem frame_round_trip_witness:
  "parseEvidenceFrame (\<lambda>b. b) (toDataUrl [CHR 0xFF, CHR 0xD8, CHR 0xFF, CHR ''x'']) =
     Some \<lparr>ef_bytes = [CHR 0xFF, CHR 0xD8, CHR 0xFF, CHR ''x''], ef_sha256 = [CHR 0xFF, CHR 0xD8, CHR 0xFF, CHR ''x'']\<rparr>"
  using frame_round_trip [of "[CHR 0xFF, CHR 0xD8, CHR 0xFF, CHR ''x'']" "[]" True 1 _ _ "\<lambda>b. b", OF _ _ _ _ prod.collapse]
  by (simp add: EVIDENCE_MIN_BYTES_def EVIDENCE_MAX_BYTES_def isJpeg_def JPEG_MAGIC_def)

end
