(* ===== verification/LimitTheorems.thy ===== *)
theory LimitTheorems
  imports SessionLimits RateLimit WaitQueue "HOL-Library.Multiset"
begin

text \<open>
  The waiting queue against its reference definition, the caps and rates that keep one person
  from taking more than their share, and the opening hours.
\<close>

section \<open>The queue is a stable sort\<close>

datatype queue_op = Join socket_id millis | Leave socket_id

fun queue_step :: "queue_op \<Rightarrow> store \<Rightarrow> store" where
  "queue_step (Join s t) m = addWaiting s t m"
| "queue_step (Leave s) m = removeWaiting s m"

text \<open>The reference: a plain list, joined at its end.\<close>

fun plain_step :: "queue_op \<Rightarrow> (socket_id \<times> millis) list \<Rightarrow> (socket_id \<times> millis) list" where
  "plain_step (Join s t) q = filter (\<lambda>e. fst e \<noteq> s) q @ [(s, t)]"
| "plain_step (Leave s) q = filter (\<lambda>e. fst e \<noteq> s) q"

lemma sort_key_append: "sort_key snd (xs @ [(s, t)]) = stable_insert s t (sort_key snd xs)" for t :: millis
proof (rule properties_for_sort_key)
  let ?q = "sort_key snd xs"
  show "mset (stable_insert s t ?q) = mset (xs @ [(s, t)])"
  proof -
    have "mset (takeWhile (\<lambda>e. snd e \<le> t) ?q) + mset (dropWhile (\<lambda>e. snd e \<le> t) ?q) = mset xs"
      by (metis mset_append mset_sort takeWhile_dropWhile_id)
    then show ?thesis by (simp add: stable_insert_def)
  qed
  show "sorted (map snd (stable_insert s t ?q))" by (rule sorted_stable_insert) simp
  fix k
  have late: "snd e \<noteq> t" if "e \<in> set (dropWhile (\<lambda>e. snd e \<le> t) ?q)" for e
  proof -
    let ?d = "dropWhile (\<lambda>e. snd e \<le> t) ?q"
    have "map snd ?d = dropWhile (\<lambda>u. u \<le> t) (map snd ?q)" by (simp add: dropWhile_map comp_def)
    then have "sorted (map snd ?d)" using sorted_dropWhile [of "map snd ?q"] by simp
    moreover have "t < snd (hd ?d)" using hd_dropWhile [of "\<lambda>e. snd e \<le> t" ?q] that by fastforce
    ultimately have "t < snd e" using that by (cases ?d) auto
    then show ?thesis by simp
  qed
  let ?P = "\<lambda>y :: socket_id \<times> millis. snd k = snd y" and ?a = "takeWhile (\<lambda>e. snd e \<le> t) ?q" and ?b = "dropWhile (\<lambda>e. snd e \<le> t) ?q"
  have ab: "filter ?P ?a @ filter ?P ?b = filter ?P xs"
  proof -
    have "filter ?P ?q = filter ?P xs" using sort_key_stable [of snd "snd k" xs] by (simp add: eq_commute [of "snd k"])
    then show ?thesis by (simp flip: filter_append)
  qed
  have "snd k = t \<Longrightarrow> filter ?P ?b = []" unfolding filter_empty_conv using late by metis
  then show "filter ?P (stable_insert s t ?q) = filter ?P (xs @ [(s, t)])"
    using ab by (cases "snd k = t") (simp_all add: stable_insert_def)
qed

text \<open>
  C39: the queue with its binary searches and its second index is, after any sequence of joins and leaves, the list
  of those who are in it in the order they joined, sorted stably by the time they wait since: first come, first
  served, and whoever comes back with an old time gets their old place.
\<close>

theorem queue_is_a_stable_sort:
  "waiting (fold queue_step ops new_store) = sort_key snd (fold plain_step ops [])"
proof -
  have "queue_ok m \<Longrightarrow> waiting m = sort_key snd q \<Longrightarrow> waiting (fold queue_step ops m) = sort_key snd (fold plain_step ops q)" for m q
  proof (induction ops arbitrary: m q)
    case (Cons p ops)
    have "queue_ok (queue_step p m) \<and> waiting (queue_step p m) = sort_key snd (plain_step p q)"
      using Cons.prems by (cases p) (simp_all add: addWaiting_ok addWaiting_waiting removeWaiting_def removeFromQueue_ok removeFromQueue_waiting
          jdel_def filter_sort sort_key_append)
    then show ?case using Cons.IH by simp
  qed simp
  then show ?thesis by (simp add: queue_ok_def new_store_def)
qed

section \<open>Caps and rates\<close>

text \<open>
  C40: no sequence of requests gets more out of a token bucket than what it holds plus what flows in meanwhile, so
  never more than its capacity and the rate times the time that passed, whatever the requests cost and however they
  are timed.
\<close>

theorem bucket_rate_holds:
  assumes "bucket_ok b" "\<forall>r \<in> set rs. 0 \<le> snd r" "sorted (tb_last b # map fst rs)"
  shows "granted rs b \<le> capacity (tb_spec b) + of_int (last (tb_last b # map fst rs) - tb_last b) / 1000 * refillPerSec (tb_spec b)"
  using granted_bound [OF assms] assms(1) by (simp add: bucket_ok_def)

theorem bucket_rate_holds_witness:
  "granted [(0, 3), (100, 3), (900, 3)] (new_bucket \<lparr>capacity = 5, refillPerSec = 2\<rparr> 0) \<le> 5 + 900 / 1000 * 2"
  using bucket_rate_holds [of "new_bucket \<lparr>capacity = 5, refillPerSec = 2\<rparr> 0" "[(0, 3), (100, 3), (900, 3)]"]
  by (simp add: bucket_ok_def new_bucket_def)

lemma at_least_counted: "0 < n \<Longrightarrow> at_least (Some (Num n)) k \<longleftrightarrow> k \<le> n"
  by (simp add: at_least_def kv_number_def)

text \<open>
  The hourly cap is exact for a device whose hour starts fresh: after fewer matches than the cap the device's
  own count never refuses it, and from the cap on every request to queue in that hour is refused, on any address
  and whether it skips or is skipped, until the hour is over.
\<close>

theorem hourly_cap_is_exact:
  assumes "kv_ok s" "sorted (now # ts)" "\<forall>t \<in> set (now # ts). cap_hour t = w" "last (now # ts) \<le> t" "cap_hour t = w"
    "counted s (CapDevice d w) MATCH_CAP_WINDOW_MS w now 0" "0 < perDevicePerHour limits"
  shows "if perDevicePerHour limits \<le> length ts
    then overCap limits t (record_matches d ts s) d skips = Some HourHit
    else \<not> at_least (kv_live t (record_matches d ts s) (CapDevice d (cap_hour t))) (perDevicePerHour limits)"
proof -
  have "counted (record_matches d ts s) (CapDevice d w) MATCH_CAP_WINDOW_MS w (last (now # ts)) (length ts)"
    using counted_record_matches [OF assms(1-3,6)] by simp
  then have k: "kv_live t (record_matches d ts s) (CapDevice d w) = (if ts = [] then None else Some (Num (length ts)))"
    using assms(4,5) by (auto simp: counted_def cap_hour_def)
  show ?thesis
    using k assms(5,7) at_least_counted [of "length ts" "perDevicePerHour limits"]
    by (auto simp: overCap_def Let_def at_least_def kv_number_def)
qed

theorem hourly_cap_is_exact_witness:
  "overCap \<lparr>perDevicePerHour = 2, perIpPerHour = 100, perDevicePerMinute = 100\<rparr> 3000 (record_matches ''d1'' [1000, 2000] new_kv) ''d1'' False = Some HourHit"
  using hourly_cap_is_exact [of new_kv 0 "[1000, 2000]" 0 3000 "''d1''" "\<lparr>perDevicePerHour = 2, perIpPerHour = 100, perDevicePerMinute = 100\<rparr>" False]
  by (simp add: kv_ok_def new_kv_def counted_def kv_live_def cap_hour_def MATCH_CAP_WINDOW_MS_def)

end
