(* ===== verification/ServiceTheorems.thy ===== *)
theory ServiceTheorems
  imports Flags
begin

text \<open>
  The opening hours as the client sees them: a service that is closed by its staffed hours tells truthfully when it
  opens again, and the one window for which that fails.
\<close>

section \<open>The first opening minute\<close>

lemma minute_of_opening: "(now - now mod MINUTE_MS + int i * MINUTE_MS) div MINUTE_MS = now div MINUTE_MS + int i"
proof -
  have "now - now mod MINUTE_MS + int i * MINUTE_MS = (now div MINUTE_MS + int i) * MINUTE_MS"
    unfolding startOfMinute_eq by (simp add: distrib_right)
  then show ?thesis by (simp add: MINUTE_MS_def)
qed

lemma closed_until_reopening:
  assumes tz: "minute_wise tz" and closed: "\<not> is_open (matchingStatus tz f now)"
    and t: "reopensAt (matchingStatus tz f now) = Some t" and u: "now \<le> u" "u < t"
  shows "\<not> is_open (matchingStatus tz f u)"
proof -
  let ?at = "\<lambda>i. now - now mod MINUTE_MS + int i * MINUTE_MS"
  from closed t obtain w where on: "matching_enabled f" and w: "parseStaffedHours tz (staffed_hours f) = Some w"
      and hours: "staffed_hours f \<noteq> ''''"
      and found: "find (\<lambda>t. insideWindow w (localMinutes tz t (w_timeZone w))) (map ?at [1..<MINUTES_PER_DAY + 1]) = Some t"
    by (auto simp: matchingStatus_def Let_def split: if_splits option.splits)
  from found obtain n where n: "n < MINUTES_PER_DAY" "t = ?at (1 + n)"
      and before: "\<forall>j < n. \<not> insideWindow w (localMinutes tz (?at (1 + j)) (w_timeZone w))"
    unfolding find_Some_iff by (auto simp del: upt_Suc)
  define k where "k = nat (u div MINUTE_MS - now div MINUTE_MS)"
  have "now div MINUTE_MS \<le> u div MINUTE_MS" using u(1) by (simp add: MINUTE_MS_def zdiv_mono1)
  then have k: "u div MINUTE_MS = now div MINUTE_MS + int k" by (simp add: k_def)
  have "t = (now div MINUTE_MS + int (1 + n)) * MINUTE_MS"
    unfolding n(2) startOfMinute_eq by (simp add: distrib_right)
  then have "u div MINUTE_MS < now div MINUTE_MS + int (1 + n)" using u(2) by (simp add: MINUTE_MS_def)
  then have less: "k < 1 + n" using k by linarith
  show ?thesis
  proof (cases k)
    case 0
    then show ?thesis using closed matchingStatus_minute [OF tz, of u now f] k by simp
  next
    case (Suc j)
    have "u div MINUTE_MS = ?at (1 + j) div MINUTE_MS" using k Suc minute_of_opening [of now "1 + j"] by simp
    then have "localMinutes tz u (w_timeZone w) = localMinutes tz (?at (1 + j)) (w_timeZone w)"
      by (rule localMinutes_minute [OF tz])
    then have "\<not> insideWindow w (localMinutes tz u (w_timeZone w))" using before less Suc by simp
    then show ?thesis using on w hours by (simp add: matchingStatus_def Let_def)
  qed
qed

section \<open>The window that is never open\<close>

text \<open>\<open>24:00-00:00\<close> passes the parser, whose test for equal ends compares 1440 with 0, and is never open.\<close>

lemma midnight_to_midnight_never_opens:
  assumes "parseStaffedHours tz (staffed_hours f) = Some w" "empty_window w"
    and "\<forall>t. localMinutes tz t (w_timeZone w) < MINUTES_PER_DAY" "matching_enabled f"
  shows "\<not> is_open (matchingStatus tz f now) \<and> reopensAt (matchingStatus tz f now) = None"
proof -
  have "\<not> insideWindow w (localMinutes tz t (w_timeZone w))" for t
    using assms(2,3) by (simp add: insideWindow_def empty_window_def not_le)
  moreover have "staffed_hours f \<noteq> ''''" using assms(1) by (auto simp: parseStaffedHours_def trim_def)
  ultimately show ?thesis using assms by (simp add: matchingStatus_def Let_def find_None_iff)
qed

lemma midnight_to_midnight_is_parsed:
  "parseStaffedHours (\<lambda>z. Some (\<lambda>t. nat (t div MINUTE_MS mod 1440))) ''24:00-00:00 Asia/Kolkata''
     = Some \<lparr>w_start = 1440, w_end = 0, w_timeZone = ''Asia/Kolkata''\<rparr>"
  by code_simp

section \<open>The properties\<close>


definition utc_clock :: time_zones where
  "utc_clock zone = (if zone = ''Etc/UTC'' then Some (\<lambda>t. nat (t div MINUTE_MS mod 1440)) else None)"

definition evening_flags :: flags where
  "evening_flags = FLAG_DEFAULTS\<lparr>matching_enabled := True, staffed_hours := ''20:00-24:00 Etc/UTC''\<rparr>"

definition evening_reader :: flags_reader where
  "evening_reader = \<lparr>flag_value = evening_flags, statusMemo = None\<rparr>"

lemma utc_clock_ok: "minute_wise utc_clock" "fixed_offset utc_clock 0 ''Etc/UTC''"
  by (auto simp: minute_wise_def fixed_offset_def utc_clock_def localMinutes_def MINUTES_PER_DAY_def split: if_splits)

lemma evening_window: "parseStaffedHours utc_clock ''20:00-24:00 Etc/UTC'' = Some \<lparr>w_start = 1200, w_end = 1440, w_timeZone = ''Etc/UTC''\<rparr>"
  by code_simp

lemma evening_reader_fields:
  "memo_ok tz evening_reader" "staffed_hours (current evening_reader) = ''20:00-24:00 Etc/UTC''" "matching_enabled (current evening_reader)"
  by (simp_all add: memo_ok_def evening_reader_def evening_flags_def current_def)

lemma closed_at_midnight: "\<not> is_open (snd (status utc_clock 0 evening_reader))"
  by (simp add: status_correct [OF utc_clock_ok(1) evening_reader_fields(1)] matchingStatus_def evening_window Let_def
      insideWindow_def localMinutes_def utc_clock_def evening_reader_fields [unfolded current_def]
      del: upt_Suc)


end
