(* ===== verification/Backoff.thy ===== *)
theory Backoff
  imports Prelude Complex_Main
begin

text \<open>
  Retry timing of the client (\<open>new-frontend/src/lib/backoff.ts\<close>): the jittered delay, the
  \<open>Retry-After\<close> header and the \<open>Backoff\<close> class with its cap per minute. What \<open>Math.random()\<close>
  draws is an argument, a real from 0 up to 1.
\<close>

definition RETRY_BASE_MS :: int where "RETRY_BASE_MS = 2000"
definition RETRY_MAX_MS :: int where "RETRY_MAX_MS = 30000"
definition RETRY_MIN_MS :: int where "RETRY_MIN_MS = 250"
definition RETRY_AFTER_MAX_MS :: int where "RETRY_AFTER_MAX_MS = 300000"
definition RETRY_MAX_PER_MINUTE :: nat where "RETRY_MAX_PER_MINUTE = 6"
definition RETRY_WINDOW_MS :: int where "RETRY_WINDOW_MS = 60000"
definition BUSY_AFTER_FAILURES :: nat where "BUSY_AFTER_FAILURES = 2"

lemmas retry_constants = RETRY_BASE_MS_def RETRY_MAX_MS_def RETRY_MIN_MS_def RETRY_AFTER_MAX_MS_def
  RETRY_MAX_PER_MINUTE_def RETRY_WINDOW_MS_def BUSY_AFTER_FAILURES_def

text \<open>\<open>Math.round\<close>.\<close>

definition nearest :: "real \<Rightarrow> int" where
  "nearest x = \<lfloor>x + 1 / 2\<rfloor>"

definition delay_ceiling :: "nat \<Rightarrow> int" where
  "delay_ceiling failures = min RETRY_MAX_MS (RETRY_BASE_MS * 2 ^ min failures 16)"

text \<open>The two draws are those of the backoff and of the spread after a \<open>Retry-After\<close>.\<close>

definition backoffDelay :: "nat \<Rightarrow> millis option \<Rightarrow> real \<Rightarrow> real \<Rightarrow> millis" where
  "backoffDelay fails retryAfterMs r1 r2 =
     (let ceiling = delay_ceiling fails;
          backoff = real_of_int RETRY_MIN_MS + r1 * real_of_int (max 0 (ceiling - RETRY_MIN_MS)) in
      case retryAfterMs of
        None \<Rightarrow> nearest backoff
      | Some ra \<Rightarrow>
          if \<not> ra > 0 then nearest backoff
          else
            let floor_ms = min ra RETRY_AFTER_MAX_MS in
            nearest (max backoff (real_of_int floor_ms + r2 * real_of_int floor_ms * (1 / 4))))"

text \<open>\<open>Date.parse\<close> is an argument: the time of an HTTP date, if the text is one.\<close>

fun digits_value :: "nat \<Rightarrow> string \<Rightarrow> nat" where
  "digits_value acc [] = acc"
| "digits_value acc (c # cs) = digits_value (acc * 10 + (of_char c - 48)) cs"

definition parseRetryAfter :: "(string \<Rightarrow> millis option) \<Rightarrow> string option \<Rightarrow> millis \<Rightarrow> millis option" where
  "parseRetryAfter date_parse value now =
     (case value of
        None \<Rightarrow> None
      | Some v \<Rightarrow>
          let t = trim v in
          if t = '''' then None
          else if list_all (\<lambda>c. c \<in> set ''0123456789'') t then Some (int (digits_value 0 t) * 1000)
          else case date_parse t of None \<Rightarrow> None | Some d \<Rightarrow> Some (max 0 (d - now)))"

section \<open>The \<open>Backoff\<close> class\<close>

record backoff =
  failureCount :: nat
  attempts :: "millis list"

definition new_backoff :: backoff where
  "new_backoff = \<lparr>failureCount = 0, attempts = []\<rparr>"

definition noteAttempt :: "millis \<Rightarrow> backoff \<Rightarrow> backoff" where
  "noteAttempt now b = b\<lparr>attempts := attempts b @ [now]\<rparr>"

definition nextAttemptAt :: "millis \<Rightarrow> millis option \<Rightarrow> real \<Rightarrow> real \<Rightarrow> backoff \<Rightarrow> backoff \<times> millis" where
  "nextAttemptAt now retryAfterMs r1 r2 b =
     (let soon = now + backoffDelay (failureCount b) retryAfterMs r1 r2;
          recent = filter (\<lambda>t. t > now - RETRY_WINDOW_MS) (attempts b);
          time = (if length recent \<ge> RETRY_MAX_PER_MINUTE
                  then max soon (recent ! (length recent - RETRY_MAX_PER_MINUTE) + RETRY_WINDOW_MS)
                  else soon) in
      (b\<lparr>failureCount := failureCount b + 1, attempts := recent @ [time]\<rparr>, time))"

definition reset_backoff :: "backoff \<Rightarrow> backoff" where
  "reset_backoff b = b\<lparr>failureCount := 0\<rparr>"

section \<open>Bounds of a delay\<close>

lemma delay_ceiling_bounds: "RETRY_BASE_MS \<le> delay_ceiling f" "delay_ceiling f \<le> RETRY_MAX_MS"
proof -
  have "(1::int) \<le> 2 ^ min f 16" by simp
  then show "RETRY_BASE_MS \<le> delay_ceiling f" by (simp add: delay_ceiling_def retry_constants)
  show "delay_ceiling f \<le> RETRY_MAX_MS" by (simp add: delay_ceiling_def)
qed

lemma nearest_bounds: "real_of_int a \<le> x \<Longrightarrow> x \<le> real_of_int b \<Longrightarrow> a \<le> nearest x \<and> nearest x \<le> b"
  unfolding nearest_def by (auto simp: le_floor_iff floor_le_iff)

lemma jitter_bounds:
  assumes "0 \<le> r" "r \<le> 1"
  shows "real_of_int RETRY_MIN_MS \<le> real_of_int RETRY_MIN_MS + r * real_of_int (max 0 (delay_ceiling f - RETRY_MIN_MS))"
    "real_of_int RETRY_MIN_MS + r * real_of_int (max 0 (delay_ceiling f - RETRY_MIN_MS)) \<le> real_of_int (delay_ceiling f)"
proof -
  let ?d = "delay_ceiling f - RETRY_MIN_MS"
  have d: "0 \<le> ?d" using delay_ceiling_bounds(1) [of f] by (simp add: retry_constants)
  then have "0 \<le> r * real_of_int ?d" "r * real_of_int ?d \<le> real_of_int ?d"
    using assms by (simp_all add: mult_left_le_one_le)
  then show "real_of_int RETRY_MIN_MS \<le> real_of_int RETRY_MIN_MS + r * real_of_int (max 0 ?d)"
    "real_of_int RETRY_MIN_MS + r * real_of_int (max 0 ?d) \<le> real_of_int (delay_ceiling f)"
    using d by (simp_all add: max_def)
qed

lemma backoffDelay_bounds:
  assumes "0 \<le> r1" "r1 \<le> 1"
  shows "RETRY_MIN_MS \<le> backoffDelay f None r1 r2 \<and> backoffDelay f None r1 r2 \<le> delay_ceiling f"
  using nearest_bounds [OF jitter_bounds [OF assms]] by (simp add: backoffDelay_def Let_def)

lemma backoffDelay_after:
  assumes "0 \<le> r1" "r1 \<le> 1" "0 \<le> r2" "r2 \<le> 1" "0 < ra"
  shows "max RETRY_MIN_MS (min ra RETRY_AFTER_MAX_MS) \<le> backoffDelay f (Some ra) r1 r2
    \<and> backoffDelay f (Some ra) r1 r2 \<le> max (delay_ceiling f) (RETRY_AFTER_MAX_MS + RETRY_AFTER_MAX_MS div 4)"
proof -
  let ?m = "min ra RETRY_AFTER_MAX_MS"
  let ?s = "real_of_int ?m + r2 * real_of_int ?m * (1 / 4)"
  have "0 \<le> real_of_int ?m" using assms(5) by (simp add: retry_constants)
  then have "0 \<le> r2 * real_of_int ?m" "r2 * real_of_int ?m \<le> real_of_int ?m"
    using assms by (simp_all add: mult_left_le_one_le)
  moreover have "real_of_int ?m \<le> 300000" by (simp add: retry_constants)
  ultimately have s: "real_of_int ?m \<le> ?s" "?s \<le> 375000" by simp_all
  have j: "real_of_int RETRY_MIN_MS \<le> real_of_int RETRY_MIN_MS + r1 * real_of_int (max 0 (delay_ceiling f - RETRY_MIN_MS))"
    "real_of_int RETRY_MIN_MS + r1 * real_of_int (max 0 (delay_ceiling f - RETRY_MIN_MS)) \<le> real_of_int (delay_ceiling f)"
    using jitter_bounds [OF assms(1,2)] by blast+
  have "backoffDelay f (Some ra) r1 r2
      = nearest (max (real_of_int RETRY_MIN_MS + r1 * real_of_int (max 0 (delay_ceiling f - RETRY_MIN_MS))) ?s)"
    using assms(5) by (simp add: backoffDelay_def Let_def)
  moreover have "real_of_int (max RETRY_MIN_MS ?m)
      \<le> max (real_of_int RETRY_MIN_MS + r1 * real_of_int (max 0 (delay_ceiling f - RETRY_MIN_MS))) ?s"
    using s j by (simp add: of_int_max max.coboundedI1 max.coboundedI2)
  moreover have "max (real_of_int RETRY_MIN_MS + r1 * real_of_int (max 0 (delay_ceiling f - RETRY_MIN_MS))) ?s
      \<le> real_of_int (max (delay_ceiling f) (RETRY_AFTER_MAX_MS + RETRY_AFTER_MAX_MS div 4))"
    using s j by (simp add: of_int_max retry_constants max.coboundedI1 max.coboundedI2)
  ultimately show ?thesis by (metis nearest_bounds)
qed

lemma backoffDelay_positive:
  assumes "0 \<le> r1" "r1 \<le> 1" "0 \<le> r2" "r2 \<le> 1"
  shows "RETRY_MIN_MS \<le> backoffDelay f ra r1 r2"
proof (cases ra)
  case None
  then show ?thesis using backoffDelay_bounds [OF assms(1,2)] by blast
next
  case (Some a)
  show ?thesis
  proof (cases "0 < a")
    case True
    then show ?thesis using backoffDelay_after [OF assms True, of f] Some by simp
  next
    case False
    then have "backoffDelay f ra r1 r2 = backoffDelay f None r1 r2" using Some by (simp add: backoffDelay_def Let_def)
    then show ?thesis using backoffDelay_bounds [OF assms(1,2)] by simp
  qed
qed

lemma parseRetryAfter_nonneg: "parseRetryAfter dp v now = Some ms \<Longrightarrow> 0 \<le> ms"
  by (auto simp: parseRetryAfter_def Let_def split: option.splits if_splits)

section \<open>The cap per minute\<close>

text \<open>
  What happens to a \<open>Backoff\<close> after its first attempt: an attempt fails (at a time, with a
  \<open>Retry-After\<close> or not, and with two draws) or succeeds. \<open>retry_log\<close> collects the times of the attempts;
  \<open>timely\<close> says that an attempt fails no earlier than it is made.
\<close>

datatype retry_event = Fails millis "millis option" real real | Succeeds

fun retry_log :: "backoff \<Rightarrow> retry_event list \<Rightarrow> millis list" where
  "retry_log b [] = []"
| "retry_log b (Fails now ra r1 r2 # es) =
     (let (b', time) = nextAttemptAt now ra r1 r2 b in time # retry_log b' es)"
| "retry_log b (Succeeds # es) = retry_log (reset_backoff b) es"

fun timely :: "millis \<Rightarrow> backoff \<Rightarrow> retry_event list \<Rightarrow> bool" where
  "timely made b [] = True"
| "timely made b (Fails now ra r1 r2 # es) =
     (made \<le> now \<and> 0 \<le> r1 \<and> r1 \<le> 1 \<and> 0 \<le> r2 \<and> r2 \<le> 1
      \<and> (let (b', time) = nextAttemptAt now ra r1 r2 b in timely time b' es))"
| "timely made b (Succeeds # es) = timely made (reset_backoff b) es"

definition capped :: "millis list \<Rightarrow> bool" where
  "capped l \<longleftrightarrow> sorted l
     \<and> (\<forall>i. i + RETRY_MAX_PER_MINUTE < length l \<longrightarrow> l ! i + RETRY_WINDOW_MS \<le> l ! (i + RETRY_MAX_PER_MINUTE))"

lemma sorted_filter_above: "sorted xs \<Longrightarrow> filter (\<lambda>t. t > c) xs = dropWhile (\<lambda>t. t \<le> c) xs" for c :: int
proof (induction xs)
  case (Cons x xs)
  have "filter (\<lambda>t. t > c) xs = xs" if "c < x" using that Cons.prems by (force simp: filter_id_conv)
  then show ?case using Cons by (cases "c < x") auto
qed simp

lemma capped_window:
  assumes "capped l"
  shows "length (filter (\<lambda>x. t < x \<and> x \<le> t + RETRY_WINDOW_MS) l) \<le> RETRY_MAX_PER_MINUTE"
proof (rule ccontr)
  let ?in = "\<lambda>x. t < x \<and> x \<le> t + RETRY_WINDOW_MS"
  let ?I = "{i. i < length l \<and> ?in (l ! i)}"
  assume "\<not> ?thesis"
  then have many: "RETRY_MAX_PER_MINUTE < card ?I" by (simp add: length_filter_conv_card)
  have fin: "finite ?I" by simp
  have ne: "?I \<noteq> {}" using many by (metis (no_types, lifting) card.empty not_less_zero)
  have lo: "Min ?I \<in> ?I" and hi: "Max ?I \<in> ?I" using fin ne Min_in Max_in by blast+
  have "?I \<subseteq> {Min ?I..Max ?I}" using fin by auto
  then have "card ?I \<le> Suc (Max ?I) - Min ?I" using card_mono [of "{Min ?I..Max ?I}" ?I] by simp
  then have far: "Min ?I + RETRY_MAX_PER_MINUTE \<le> Max ?I" using many by linarith
  have "l ! Min ?I + RETRY_WINDOW_MS \<le> l ! (Min ?I + RETRY_MAX_PER_MINUTE)"
    using assms hi far by (auto simp: capped_def)
  also have "\<dots> \<le> l ! Max ?I" using assms hi far by (auto simp: capped_def sorted_iff_nth_mono)
  finally show False using lo hi by auto
qed

lemma capped_snoc:
  assumes "capped l" and "\<forall>x \<in> set l. x \<le> time"
    and "RETRY_MAX_PER_MINUTE \<le> length l \<longrightarrow> l ! (length l - RETRY_MAX_PER_MINUTE) + RETRY_WINDOW_MS \<le> time"
  shows "capped (l @ [time])"
proof -
  have "(l @ [time]) ! i + RETRY_WINDOW_MS \<le> (l @ [time]) ! (i + RETRY_MAX_PER_MINUTE)"
    if "i + RETRY_MAX_PER_MINUTE < length (l @ [time])" for i
  proof (cases "i + RETRY_MAX_PER_MINUTE < length l")
    case True
    then show ?thesis using assms(1) by (simp add: capped_def nth_append)
  next
    case False
    then have "length l = i + RETRY_MAX_PER_MINUTE" "i < length l" using that by (simp_all add: RETRY_MAX_PER_MINUTE_def)
    then show ?thesis using assms(3) by (simp add: nth_append)
  qed
  then show ?thesis using assms(1,2) by (simp add: capped_def sorted_append)
qed

text \<open>What the class has forgotten of the log is a minute old; the rest is the log's end.\<close>

definition remembers :: "millis list \<Rightarrow> millis \<Rightarrow> backoff \<Rightarrow> bool" where
  "remembers hist made b \<longleftrightarrow>
     (\<exists>old. hist = old @ attempts b \<and> (\<forall>x \<in> set old. x \<le> made - RETRY_WINDOW_MS)) \<and> (\<forall>x \<in> set hist. x \<le> made)"

lemma nextAttemptAt_remembers:
  assumes "remembers hist made b" and "capped hist" and "made \<le> now"
    and "0 \<le> r1" "r1 \<le> 1" "0 \<le> r2" "r2 \<le> 1" and "nextAttemptAt now ra r1 r2 b = (b', time)"
  shows "remembers (hist @ [time]) time b' \<and> capped (hist @ [time]) \<and> now + RETRY_MIN_MS \<le> time"
proof -
  obtain old where hist: "hist = old @ attempts b" and old: "\<forall>x \<in> set old. x \<le> made - RETRY_WINDOW_MS"
      and made: "\<forall>x \<in> set hist. x \<le> made" using assms(1) by (auto simp: remembers_def)
  let ?c = "now - RETRY_WINDOW_MS"
  define recent where "recent = filter (\<lambda>t. t > ?c) (attempts b)"
  define gone where "gone = old @ takeWhile (\<lambda>t. t \<le> ?c) (attempts b)"
  have "sorted (attempts b)" using assms(2) hist by (simp add: capped_def sorted_append)
  then have split: "hist = gone @ recent"
    using hist by (simp add: recent_def gone_def sorted_filter_above)
  have gone: "\<forall>x \<in> set gone. x \<le> ?c" using old assms(3) by (auto simp: gone_def dest: set_takeWhileD)
  have "RETRY_MIN_MS \<le> backoffDelay (failureCount b) ra r1 r2" using assms by (simp add: backoffDelay_positive)
  then have later: "now + RETRY_MIN_MS \<le> time" and b': "attempts b' = recent @ [time]"
    and held: "RETRY_MAX_PER_MINUTE \<le> length recent \<longrightarrow> recent ! (length recent - RETRY_MAX_PER_MINUTE) + RETRY_WINDOW_MS \<le> time"
    using assms(8) by (auto simp: nextAttemptAt_def Let_def recent_def)
  have above: "\<forall>x \<in> set hist. x \<le> time" using made assms(3) later by (force simp: RETRY_MIN_MS_def)
  have "hist ! (length hist - RETRY_MAX_PER_MINUTE) + RETRY_WINDOW_MS \<le> time" if "RETRY_MAX_PER_MINUTE \<le> length hist"
  proof (cases "RETRY_MAX_PER_MINUTE \<le> length recent")
    case True
    have "length hist - RETRY_MAX_PER_MINUTE = length gone + (length recent - RETRY_MAX_PER_MINUTE)" using True split by simp
    then have "hist ! (length hist - RETRY_MAX_PER_MINUTE) = recent ! (length recent - RETRY_MAX_PER_MINUTE)"
      using split by (metis nth_append_length_plus)
    then show ?thesis using held True by simp
  next
    case False
    then have "hist ! (length hist - RETRY_MAX_PER_MINUTE) \<in> set gone" using split that by (auto simp: nth_append)
    then show ?thesis using gone later by (force simp: RETRY_MIN_MS_def)
  qed
  then have "capped (hist @ [time])" using capped_snoc [OF assms(2) above] by blast
  moreover have "remembers (hist @ [time]) time b'"
    unfolding remembers_def using split gone later b' above by (auto simp: RETRY_MIN_MS_def intro!: exI [of _ gone])
  ultimately show ?thesis using later by blast
qed

lemma retry_log_capped:
  "remembers hist made b \<Longrightarrow> capped hist \<Longrightarrow> timely made b es \<Longrightarrow> capped (hist @ retry_log b es)"
proof (induction es arbitrary: hist made b)
  case (Cons e es)
  show ?case
  proof (cases e)
    case (Fails now ra r1 r2)
    obtain b' time where nx: "nextAttemptAt now ra r1 r2 b = (b', time)" by fastforce
    have t: "made \<le> now" "0 \<le> r1" "r1 \<le> 1" "0 \<le> r2" "r2 \<le> 1" "timely time b' es"
      using Cons.prems(3) Fails nx by simp_all
    note step = nextAttemptAt_remembers [OF Cons.prems(1,2) t(1-5) nx]
    have "capped ((hist @ [time]) @ retry_log b' es)" using Cons.IH step t(6) by blast
    then show ?thesis using Fails nx by simp
  next
    case Succeeds
    have "remembers hist made (reset_backoff b)" using Cons.prems(1) by (simp add: remembers_def reset_backoff_def)
    then show ?thesis using Cons Succeeds by simp
  qed
qed simp



end
