(* ===== verification/Json.thy ===== *)
theory Json
  imports Prelude
begin

text \<open>
  JSON values as the code reads them: the members of an object, and a member only if it has the expected type. Numbers
  are whole, as all those in the records read here (times and amounts) are.
\<close>

datatype json = JNull | JBool bool | JNumber int | JText string | JArray "json list" | JObject "(string \<times> json) list"

fun field :: "json \<Rightarrow> string \<Rightarrow> json option" where
  "field (JObject fs) k = map_of fs k"
| "field _ k = None"

fun text_of :: "json option \<Rightarrow> string option" where
  "text_of (Some (JText s)) = Some s"
| "text_of _ = None"

fun number_of :: "json option \<Rightarrow> int option" where
  "number_of (Some (JNumber n)) = Some n"
| "number_of _ = None"

lemma text_of_iff [simp]: "text_of j = Some s \<longleftrightarrow> j = Some (JText s)"
  by (cases j rule: text_of.cases) auto

lemma number_of_iff [simp]: "number_of j = Some n \<longleftrightarrow> j = Some (JNumber n)"
  by (cases j rule: number_of.cases) auto

end
