(* ===== verification/Payment.thy ===== *)
theory Payment
  imports Json
begin

text \<open>
  A paid checkout whose verification has not answered yet
  (\<open>new-frontend/src/premium/pendingPayment.ts\<close>): the record kept in the browser, one attempt and
  its classification, and the loop that retries until the server answers for good. What the browser's
  storage holds under a key is a JSON value, a text that is not JSON, or nothing.
\<close>

text \<open>What the browser's storage holds: \<open>getItem\<close> answers such a text, or nothing.\<close>

datatype stored_text = NotJson | Json json

section \<open>The record\<close>

definition PENDING_PAYMENT_KEY :: string where "PENDING_PAYMENT_KEY = ''chizzy.pendingPayment''"
definition PENDING_GIVE_UP_MS :: millis where "PENDING_GIVE_UP_MS = 600000"
definition PENDING_MAX_DELAY_MS :: millis where "PENDING_MAX_DELAY_MS = 60000"

record pending_payment =
  pp_orderId :: string
  pp_paymentId :: string
  pp_signature :: string
  pp_startedAt :: millis

type_synonym local_storage = "string \<Rightarrow> stored_text option"

definition payment_json :: "pending_payment \<Rightarrow> json" where
  "payment_json p = JObject
     [(''orderId'', JText (pp_orderId p)), (''paymentId'', JText (pp_paymentId p)),
      (''signature'', JText (pp_signature p)), (''startedAt'', JNumber (pp_startedAt p))]"

fun isPendingPayment :: "json \<Rightarrow> pending_payment option" where
  "isPendingPayment j =
     (case (text_of (field j ''orderId''), text_of (field j ''paymentId''),
            text_of (field j ''signature''), number_of (field j ''startedAt'')) of
        (Some orderId, Some paymentId, Some signature, Some startedAt) \<Rightarrow>
          Some \<lparr>pp_orderId = orderId, pp_paymentId = paymentId, pp_signature = signature, pp_startedAt = startedAt\<rparr>
      | _ \<Rightarrow> None)"

text \<open>The flag says whether the browser allows the call; if it throws, nothing happens.\<close>

definition loadPendingPayment :: "bool \<Rightarrow> local_storage \<Rightarrow> pending_payment option" where
  "loadPendingPayment works s =
     (if \<not> works then None
      else case s PENDING_PAYMENT_KEY of
        Some (Json j) \<Rightarrow> isPendingPayment j
      | _ \<Rightarrow> None)"

definition savePendingPayment :: "bool \<Rightarrow> pending_payment \<Rightarrow> local_storage \<Rightarrow> local_storage" where
  "savePendingPayment works p s = (if works then s(PENDING_PAYMENT_KEY \<mapsto> Json (payment_json p)) else s)"

definition clearPendingPayment :: "bool \<Rightarrow> local_storage \<Rightarrow> local_storage" where
  "clearPendingPayment works s = (if works then s(PENDING_PAYMENT_KEY := None) else s)"

lemma saved_payment_loads: "loadPendingPayment True (savePendingPayment True p s) = Some p"
  by (simp add: loadPendingPayment_def savePendingPayment_def payment_json_def)

lemma cleared_payment_is_gone: "loadPendingPayment w (clearPendingPayment True s) = None"
  by (simp add: loadPendingPayment_def clearPendingPayment_def)

section \<open>One attempt\<close>

datatype verify_error =
  V_billing_disabled | V_session_required | V_invalid | V_rate_limited | V_unknown_pack | V_order_unknown
| V_bad_signature | V_payment_mismatch | V_payment_pending | V_insufficient_coins | V_upstream

fun payment_terminal :: "verify_error \<Rightarrow> bool" where
  "payment_terminal V_billing_disabled = False"
| "payment_terminal V_session_required = False"
| "payment_terminal V_invalid = True"
| "payment_terminal V_rate_limited = False"
| "payment_terminal V_unknown_pack = True"
| "payment_terminal V_order_unknown = True"
| "payment_terminal V_bad_signature = True"
| "payment_terminal V_payment_mismatch = True"
| "payment_terminal V_payment_pending = False"
| "payment_terminal V_insufficient_coins = True"
| "payment_terminal V_upstream = False"

datatype premium_error_key =
  K_generic | K_sessionRequired | K_rateLimited | K_paymentFailed | K_paymentPending | K_insufficientCoins | K_unreachable

fun ERROR_KEYS :: "verify_error \<Rightarrow> premium_error_key" where
  "ERROR_KEYS V_billing_disabled = K_generic"
| "ERROR_KEYS V_session_required = K_sessionRequired"
| "ERROR_KEYS V_invalid = K_generic"
| "ERROR_KEYS V_rate_limited = K_rateLimited"
| "ERROR_KEYS V_unknown_pack = K_generic"
| "ERROR_KEYS V_order_unknown = K_generic"
| "ERROR_KEYS V_bad_signature = K_paymentFailed"
| "ERROR_KEYS V_payment_mismatch = K_paymentFailed"
| "ERROR_KEYS V_payment_pending = K_paymentPending"
| "ERROR_KEYS V_insufficient_coins = K_insufficientCoins"
| "ERROR_KEYS V_upstream = K_unreachable"

datatype verify_attempt = AttemptOk int | AttemptRetry premium_error_key | AttemptFailed premium_error_key

text \<open>
  What \<open>verifyPayment\<close> does: it answers coins or an error, or throws; an error of the API carries the HTTP
  status, if there was an answer at all.
\<close>

datatype verify_answer = Credited int | NotCredited verify_error | ApiThrew "nat option" | OtherThrew

fun attemptVerify :: "verify_answer \<Rightarrow> verify_attempt" where
  "attemptVerify (ApiThrew (Some status)) = AttemptRetry K_generic"
| "attemptVerify (ApiThrew None) = AttemptRetry K_unreachable"
| "attemptVerify OtherThrew = AttemptRetry K_unreachable"
| "attemptVerify (Credited coins) = AttemptOk coins"
| "attemptVerify (NotCredited e) =
     (let err = (if e = V_payment_pending then K_paymentPending else ERROR_KEYS e) in
      if payment_terminal e then AttemptFailed err else AttemptRetry err)"

fun retryable :: "verify_attempt \<Rightarrow> bool" where
  "retryable (AttemptRetry k) = True"
| "retryable _ = False"

definition retryDelay :: "nat \<Rightarrow> millis" where
  "retryDelay n = min (2000 * 2 ^ n) PENDING_MAX_DELAY_MS"

section \<open>The retry loop\<close>

text \<open>
  What the loop meets: at its \<open>n\<close>-th turn the clock, the session token, the server's answer, and whether it has been
  cancelled by the end of the sleep and by the end of the attempt.
\<close>

record surroundings =
  clock :: "nat \<Rightarrow> millis"
  token :: "nat \<Rightarrow> string option"
  answer :: "nat \<Rightarrow> verify_answer"
  asleep_cancelled :: "nat \<Rightarrow> bool"
  trying_cancelled :: "nat \<Rightarrow> bool"

definition attempt_at :: "surroundings \<Rightarrow> nat \<Rightarrow> verify_attempt" where
  "attempt_at e n = (case token e n of None \<Rightarrow> AttemptRetry K_sessionRequired | Some t \<Rightarrow> attemptVerify (answer e n))"

text \<open>The result is the last attempt, whether the record is cleared, and the number of turns taken.\<close>

partial_function (option) settle_loop ::
  "surroundings \<Rightarrow> millis \<Rightarrow> nat \<Rightarrow> int \<Rightarrow> verify_attempt \<Rightarrow> (verify_attempt \<times> bool \<times> nat) option" where
  [code]: "settle_loop e startedAt n s last_try =
     (if 0 \<le> s \<and> clock e n - startedAt \<ge> PENDING_GIVE_UP_MS then Some (last_try, True, n)
      else if 0 \<le> s \<and> asleep_cancelled e n then Some (last_try, False, n)
      else
        let tried = attempt_at e n in
        if \<not> retryable tried \<or> trying_cancelled e n then Some (tried, \<not> trying_cancelled e n, Suc n)
        else settle_loop e startedAt (Suc n) (s + 1) tried)"

definition settlePendingPayment :: "surroundings \<Rightarrow> pending_payment \<Rightarrow> bool \<Rightarrow> (verify_attempt \<times> bool \<times> nat) option" where
  "settlePendingPayment e p alreadyTried =
     settle_loop e (pp_startedAt p) 0 (if alreadyTried then 0 else -1) (AttemptRetry K_paymentPending)"

definition settled_storage :: "bool \<Rightarrow> bool \<Rightarrow> local_storage \<Rightarrow> local_storage" where
  "settled_storage works cleared s = (if cleared then clearPendingPayment works s else s)"

section \<open>The loop ends\<close>

text \<open>The timer's promise: a turn that sleeps is over no earlier than its delay, and the clock does not go back.\<close>

definition clock_runs :: "surroundings \<Rightarrow> int \<Rightarrow> bool" where
  "clock_runs e s0 \<longleftrightarrow>
     (\<forall>n. clock e n + (if 0 \<le> s0 + int n then retryDelay (nat (s0 + int n)) else 0) \<le> clock e (Suc n))"

definition elapsed :: "nat \<Rightarrow> millis" where
  "elapsed k = sum_list (map retryDelay [0..<k])"

lemma elapsed_Suc: "elapsed (Suc k) = elapsed k + retryDelay k"
  by (simp add: elapsed_def)

lemma retryDelay_nonneg: "0 \<le> retryDelay k"
  by (simp add: retryDelay_def PENDING_MAX_DELAY_MS_def)

lemma elapsed_is_enough: "PENDING_GIVE_UP_MS \<le> elapsed 14"
  by (simp add: elapsed_def retryDelay_def PENDING_GIVE_UP_MS_def PENDING_MAX_DELAY_MS_def upt_rec)

text \<open>What a result of the loop means.\<close>

definition outcome :: "surroundings \<Rightarrow> millis \<Rightarrow> verify_attempt \<times> bool \<times> nat \<Rightarrow> bool" where
  "outcome e startedAt = (\<lambda>(r, cleared, m).
     (cleared \<or> (\<exists>i \<le> m. asleep_cancelled e i \<or> trying_cancelled e i))
     \<and> (case r of
          AttemptOk c \<Rightarrow> \<exists>i < m. answer e i = Credited c
        | AttemptFailed k \<Rightarrow> \<exists>i < m. \<exists>err. answer e i = NotCredited err \<and> payment_terminal err
        | AttemptRetry k \<Rightarrow> \<not> cleared \<or> startedAt + PENDING_GIVE_UP_MS \<le> clock e m))"

lemma attempt_at_outcome:
  "case attempt_at e n of
     AttemptOk c \<Rightarrow> answer e n = Credited c
   | AttemptFailed k \<Rightarrow> \<exists>err. answer e n = NotCredited err \<and> payment_terminal err
   | AttemptRetry k \<Rightarrow> True"
  by (cases "answer e n" rule: attemptVerify.cases)
    (auto simp: attempt_at_def Let_def split: option.splits)

lemma tried_outcome:
  assumes "\<not> retryable (attempt_at e n) \<or> trying_cancelled e n"
  shows "outcome e startedAt (attempt_at e n, \<not> trying_cancelled e n, Suc n)"
  using assms attempt_at_outcome [of e n]
  by (cases "attempt_at e n") (auto simp: outcome_def intro: exI [of _ n])

lemma settle_loop_ends:
  assumes "clock_runs e s0" and "retryable last_try" and "s = s0 + int n" and "-1 \<le> s" and "nat (15 - s) = k"
    and "s \<le> 14" and "0 \<le> s \<longrightarrow> startedAt + elapsed (nat s) \<le> clock e n" and "startedAt \<le> clock e n"
  shows "\<exists>r c m. settle_loop e startedAt n s last_try = Some (r, c, m) \<and> int m \<le> 14 - s0 \<and> outcome e startedAt (r, c, m)"
  using assms
proof (induction k arbitrary: n s last_try)
  case 0
  then show ?case by linarith
next
  case (Suc k)
  let ?tried = "attempt_at e n"
  consider (late) "0 \<le> s" "clock e n - startedAt \<ge> PENDING_GIVE_UP_MS"
    | (woken) "\<not> (0 \<le> s \<and> clock e n - startedAt \<ge> PENDING_GIVE_UP_MS)" "0 \<le> s" "asleep_cancelled e n"
    | (tries) "\<not> (0 \<le> s \<and> clock e n - startedAt \<ge> PENDING_GIVE_UP_MS)" "\<not> (0 \<le> s \<and> asleep_cancelled e n)"
    by blast
  then show ?case
  proof cases
    case late
    then have "settle_loop e startedAt n s last_try = Some (last_try, True, n)"
      by (simp add: settle_loop.simps)
    moreover have "outcome e startedAt (last_try, True, n)"
      using late Suc.prems(2) by (cases last_try) (auto simp: outcome_def)
    ultimately show ?thesis using Suc.prems by auto
  next
    case woken
    then have "settle_loop e startedAt n s last_try = Some (last_try, False, n)"
      by (subst settle_loop.simps) auto
    moreover have "outcome e startedAt (last_try, False, n)"
      using woken Suc.prems(2) by (cases last_try) (auto simp: outcome_def)
    ultimately show ?thesis using Suc.prems by auto
  next
    case tries
    have small: "s < 14"
    proof (rule ccontr)
      assume "\<not> s < 14"
      then have "s = 14" using Suc.prems(6) by simp
      then have "startedAt + elapsed 14 \<le> clock e n" using Suc.prems(7) by simp
      then show False using elapsed_is_enough tries(1) \<open>s = 14\<close> by simp
    qed
    show ?thesis
    proof (cases "\<not> retryable ?tried \<or> trying_cancelled e n")
      case True
      then have "settle_loop e startedAt n s last_try = Some (?tried, \<not> trying_cancelled e n, Suc n)"
        using tries by (subst settle_loop.simps) (auto simp: Let_def)
      then show ?thesis using tried_outcome [OF True] Suc.prems(3) small by auto
    next
      case False
      then have step: "settle_loop e startedAt n s last_try = settle_loop e startedAt (Suc n) (s + 1) ?tried"
        using tries by (subst settle_loop.simps) (auto simp: Let_def)
      have runs: "clock e n + (if 0 \<le> s then retryDelay (nat s) else 0) \<le> clock e (Suc n)"
        using Suc.prems(1) unfolding clock_runs_def Suc.prems(3) by blast
      have "startedAt + elapsed (nat (s + 1)) \<le> clock e (Suc n)"
      proof (cases "0 \<le> s")
        case True
        then have "nat (s + 1) = Suc (nat s)" by simp
        then show ?thesis using True runs Suc.prems(7) by (simp add: elapsed_Suc)
      next
        case False
        then have "nat (s + 1) = 0" by simp
        then show ?thesis using False runs Suc.prems(8) by (simp add: elapsed_def)
      qed
      moreover have "startedAt \<le> clock e (Suc n)"
        using runs Suc.prems(8) retryDelay_nonneg [of "nat s"] by (auto split: if_splits)
      ultimately show ?thesis
        unfolding step using Suc.prems(1,3,4,5) False small by (intro Suc.IH) auto
    qed
  qed
qed

text \<open>
  C36: settling a payment always ends, after at most fifteen attempts (fourteen when the caller has tried before),
  whatever the server answers: with the coins, after an answer that credited them; with an error, after one that is
  final; or without either, and then it was cancelled or ten minutes have passed since the payment. The stored proof
  of payment is given up in each of these cases but when the loop was cancelled; then it is still there to be loaded.
\<close>

theorem settling_ends:
  assumes "clock_runs e (if alreadyTried then 0 else -1)" and "pp_startedAt p \<le> clock e 0"
  shows "\<exists>r cleared m. settlePendingPayment e p alreadyTried = Some (r, cleared, m)
    \<and> m \<le> (if alreadyTried then 14 else 15)
    \<and> (\<forall>c. r = AttemptOk c \<longrightarrow> (\<exists>i < m. answer e i = Credited c))
    \<and> (\<forall>k. r = AttemptFailed k \<longrightarrow> (\<exists>i < m. \<exists>err. answer e i = NotCredited err \<and> payment_terminal err))
    \<and> (\<forall>k. r = AttemptRetry k \<longrightarrow> \<not> cleared \<or> pp_startedAt p + PENDING_GIVE_UP_MS \<le> clock e m)
    \<and> (cleared \<or> (\<exists>i \<le> m. asleep_cancelled e i \<or> trying_cancelled e i))
    \<and> loadPendingPayment True (settled_storage True cleared (savePendingPayment True p s)) = (if cleared then None else Some p)"
proof -
  let ?s0 = "if alreadyTried then 0 else -1 :: int"
  obtain r c m where run: "settlePendingPayment e p alreadyTried = Some (r, c, m)"
      and m: "int m \<le> 14 - ?s0" and out: "outcome e (pp_startedAt p) (r, c, m)"
    using settle_loop_ends [OF assms(1), of "AttemptRetry K_paymentPending" ?s0 0 _ "pp_startedAt p"] assms(2)
    unfolding settlePendingPayment_def by (cases alreadyTried) (force simp: elapsed_def)+
  have "m \<le> (if alreadyTried then 14 else 15)" using m by (auto split: if_splits)
  moreover have "loadPendingPayment True (settled_storage True c (savePendingPayment True p s)) = (if c then None else Some p)"
    by (simp add: settled_storage_def cleared_payment_is_gone saved_payment_loads)
  ultimately show ?thesis using run out by (intro exI [of _ r] exI [of _ c] exI [of _ m]) (auto simp: outcome_def)
qed

definition slow_day :: surroundings where
  "slow_day = \<lparr>clock = (\<lambda>n. int n * 60000), token = (\<lambda>n. Some ''t''),
     answer = (\<lambda>n. if n < 2 then NotCredited V_payment_pending else Credited 50),
     asleep_cancelled = (\<lambda>n. False), trying_cancelled = (\<lambda>n. False)\<rparr>"

theorem settling_ends_witness:
  "settlePendingPayment slow_day \<lparr>pp_orderId = ''o'', pp_paymentId = ''p'', pp_signature = ''s'', pp_startedAt = 0\<rparr> False \<noteq> None"
proof -
  have "clock_runs slow_day (if False then 0 else -1)"
    by (simp add: clock_runs_def slow_day_def retryDelay_def PENDING_MAX_DELAY_MS_def)
  then show ?thesis
    using settling_ends [of slow_day False "\<lparr>pp_orderId = ''o'', pp_paymentId = ''p'', pp_signature = ''s'', pp_startedAt = 0\<rparr>"]
    by (force simp: slow_day_def)
qed

end
