(* ===== verification/ClientState.thy ===== *)
theory ClientState
  imports Protocol
begin

text \<open>
  The client's view of a session (\<open>new-frontend/src/hooks/useSignaling.ts\<close>, the pure part): the state, its
  events and \<open>signalingReducer\<close>. Room ids are strings here, as on the wire. The translations of
  \<open>i18n.t\<close> and the clock that the reducer reads for a system message are arguments.
\<close>

datatype signaling_status =
  SConnecting | SWaiting | SIdle | SMatchFound | SStartingCall | SInCall | SBanned | SReplaced | SError

datatype chat_sender = FromMe | FromPartner | FromSystem

datatype delivery = DPending | DSent | DFailed

record chat_entry =
  ce_id :: string
  ce_from :: chat_sender
  ce_text :: string
  ce_ts :: millis
  ce_delivery :: "delivery option"

record call_media =
  cm_iceServers :: "ice_server list"
  cm_maxBitrateKbps :: int
  cm_relayMaxBitrateKbps :: int
  cm_privateModeAllowed :: bool

text \<open>A signal relayed between the two browsers of a call: a session description or an ICE candidate.\<close>

datatype sdp_type = Offer | Answer

record ice_candidate =
  candidate_line :: string
  sdpMid :: "string option"
  sdpMLineIndex :: "int option"
  usernameFragment :: "string option"

datatype signal_body = Description sdp_type string | Candidate ice_candidate

record rtc_signal =
  sig_roomId :: string
  sig_body :: signal_body

record signaling_state =
  ss_status :: signaling_status
  ss_reconnecting :: bool
  ss_roomId :: "string option"
  ss_partner :: "public_profile option"
  ss_isFriend :: bool
  ss_initiator :: "bool option"
  ss_partnerAccepted :: bool
  ss_expiresAt :: "millis option"
  ss_coins :: "int option"
  ss_coinBump :: int
  ss_iceServers :: "ice_server list"
  ss_callMedia :: "call_media option"
  ss_matchMode :: "match_mode option"
  ss_messages :: "chat_entry list"
  ss_partnerTyping :: bool
  ss_lastEndReason :: "match_end_reason option"
  ss_error :: "string option"
  ss_notice :: "error_code option"
  ss_genderFilter :: "gender_filter option"
  ss_relaxStep :: int
  ss_online :: "int option"
  ss_busyRetryAt :: "millis option"

definition initialSignalingState :: signaling_state where
  "initialSignalingState =
     \<lparr>ss_status = SConnecting, ss_reconnecting = False, ss_roomId = None, ss_partner = None, ss_isFriend = False,
      ss_initiator = None, ss_partnerAccepted = False, ss_expiresAt = None, ss_coins = None, ss_coinBump = 0,
      ss_iceServers = [], ss_callMedia = None, ss_matchMode = None, ss_messages = [], ss_partnerTyping = False,
      ss_lastEndReason = None, ss_error = None, ss_notice = None, ss_genderFilter = None, ss_relaxStep = 0,
      ss_online = None, ss_busyRetryAt = None\<rparr>"

datatype hello_error = HelloTimeout | HelloRefused error_code

datatype signaling_event =
  EvSocketConnected
| EvSocketDisconnected
| EvConnectFailed
| EvRetryScheduled millis bool
| EvHelloOk int "ice_server list" gender_filter
| EvHelloFailed hello_error "string option"
| EvQueueWaiting "int option" "int option"
| EvMatchFound string public_profile bool millis millis millis "match_mode option"
| EvLocalAccept
| EvPartnerAccepted string
| EvCallStart string bool "call_media option"
| EvMatchEnded string match_end_reason
| EvChatReceived string string string millis
| EvChatLocal string string string millis
| EvChatAckOk string string millis
| EvChatAckFailed string
| EvPartnerTyping string bool
| EvPartnerTypingExpired
| EvCoins int int
| EvFriendsNew string
| EvSessionReplaced
| EvServerError error_code "string option"
| EvPreferencesSaved gender_filter
| EvNoticeCleared

fun error_code_text :: "error_code \<Rightarrow> string" where
  "error_code_text invalid_payload = ''invalid_payload''"
| "error_code_text rate_limited = ''rate_limited''"
| "error_code_text not_in_room = ''not_in_room''"
| "error_code_text bad_state = ''bad_state''"
| "error_code_text unsupported_version = ''unsupported_version''"
| "error_code_text banned = ''banned''"
| "error_code_text matching_closed = ''matching_closed''"
| "error_code_text session_required = ''session_required''"
| "error_code_text session_expired = ''session_expired''"
| "error_code_text region_blocked = ''region_blocked''"
| "error_code_text premium_required = ''premium_required''"
| "error_code_text internal = ''internal''"

fun hello_error_text :: "hello_error \<Rightarrow> string" where
  "hello_error_text HelloTimeout = ''timeout''"
| "hello_error_text (HelloRefused c) = error_code_text c"

definition is_terminal :: "signaling_status \<Rightarrow> bool" where
  "is_terminal s \<longleftrightarrow> s \<in> set [SBanned, SReplaced]"

definition friendsMessage :: "(string \<Rightarrow> string) \<Rightarrow> string" where
  "friendsMessage tr = tr ''room:chat.friendsSystem''"

definition toLocalDeadline :: "millis \<Rightarrow> millis \<Rightarrow> millis \<Rightarrow> millis" where
  "toLocalDeadline expires serverNow receivedAt = receivedAt + (expires - serverNow)"

definition secondsLeft :: "millis \<Rightarrow> millis \<Rightarrow> int" where
  "secondsLeft deadline now = max 0 (- (- (deadline - now) div 1000))"

definition clearRoom :: "signaling_state \<Rightarrow> signaling_state" where
  "clearRoom s =
     s\<lparr>ss_roomId := None, ss_partner := None, ss_isFriend := False, ss_initiator := None, ss_partnerAccepted := False,
       ss_expiresAt := None, ss_callMedia := None, ss_matchMode := None, ss_messages := [], ss_partnerTyping := False\<rparr>"

definition nullish :: "'a option \<Rightarrow> 'a \<Rightarrow> 'a" where
  "nullish v d = (case v of Some x \<Rightarrow> x | None \<Rightarrow> d)"

definition in_room :: "signaling_state \<Rightarrow> string \<Rightarrow> bool" where
  "in_room s rid \<longleftrightarrow> ss_roomId s = Some rid"

fun reduce :: "(string \<Rightarrow> string) \<Rightarrow> millis \<Rightarrow> signaling_state \<Rightarrow> signaling_event \<Rightarrow> signaling_state" where
  "reduce tr now s EvSocketDisconnected = (clearRoom s)\<lparr>ss_status := SConnecting, ss_reconnecting := True\<rparr>"
| "reduce tr now s EvSocketConnected = (if ss_busyRetryAt s = None then s else s\<lparr>ss_busyRetryAt := None\<rparr>)"
| "reduce tr now s EvConnectFailed =
     (if ss_status s \<noteq> SConnecting then s else s\<lparr>ss_error := Some (tr ''room:signaling.cannotReach'')\<rparr>)"
| "reduce tr now s (EvRetryScheduled retryAt busy) =
     (if ss_status s \<noteq> SConnecting then s else s\<lparr>ss_busyRetryAt := (if busy then Some retryAt else None)\<rparr>)"
| "reduce tr now s (EvHelloOk coins ice gf) =
     (let busy = ss_status s \<noteq> SConnecting \<and> ss_status s \<noteq> SError \<and> ss_status s \<noteq> SIdle in
      s\<lparr>ss_status := (if busy then ss_status s else SWaiting), ss_reconnecting := False, ss_busyRetryAt := None,
        ss_error := None, ss_coins := Some coins, ss_iceServers := ice, ss_genderFilter := Some gf\<rparr>)"
| "reduce tr now s (EvHelloFailed err msg) =
     (if err = HelloRefused banned then (clearRoom s)\<lparr>ss_status := SBanned, ss_reconnecting := False\<rparr>
      else (clearRoom s)\<lparr>ss_status := SError, ss_reconnecting := False, ss_busyRetryAt := None,
             ss_error := Some (nullish msg (hello_error_text err))\<rparr>)"
| "reduce tr now s (EvQueueWaiting relax online) =
     (clearRoom s)\<lparr>ss_status := SWaiting, ss_relaxStep := nullish relax 0, ss_online := online\<rparr>"
| "reduce tr now s (EvMatchFound rid partner friend expires serverNow receivedAt md) =
     (clearRoom s)\<lparr>ss_status := SMatchFound, ss_roomId := Some rid, ss_partner := Some partner, ss_isFriend := friend,
       ss_expiresAt := Some (toLocalDeadline expires serverNow receivedAt), ss_matchMode := md, ss_lastEndReason := None\<rparr>"
| "reduce tr now s EvLocalAccept =
     (if ss_status s \<noteq> SMatchFound then s else s\<lparr>ss_status := SStartingCall\<rparr>)"
| "reduce tr now s (EvPartnerAccepted rid) =
     (if \<not> in_room s rid then s else s\<lparr>ss_partnerAccepted := True\<rparr>)"
| "reduce tr now s (EvCallStart rid init media) =
     (if \<not> in_room s rid then s
      else if ss_status s \<noteq> SMatchFound \<and> ss_status s \<noteq> SStartingCall then s
      else s\<lparr>ss_status := SInCall, ss_initiator := Some init, ss_partnerAccepted := True, ss_expiresAt := None,
             ss_callMedia := media\<rparr>)"
| "reduce tr now s (EvMatchEnded rid reason) =
     (if \<not> in_room s rid then s
      else if reason = AcceptTimeout then (clearRoom s)\<lparr>ss_status := SIdle, ss_lastEndReason := Some reason\<rparr>
      else (clearRoom s)\<lparr>ss_status := SWaiting, ss_lastEndReason := Some reason\<rparr>)"
| "reduce tr now s (EvChatReceived rid mid body ts) =
     (if \<not> in_room s rid \<or> ss_status s \<noteq> SInCall then s
      else s\<lparr>ss_partnerTyping := False,
             ss_messages := ss_messages s @
               [\<lparr>ce_id = mid, ce_from = FromPartner, ce_text = body, ce_ts = ts, ce_delivery = None\<rparr>]\<rparr>)"
| "reduce tr now s (EvChatLocal rid tempId body ts) =
     (if \<not> in_room s rid \<or> ss_status s \<noteq> SInCall then s
      else s\<lparr>ss_messages := ss_messages s @
               [\<lparr>ce_id = tempId, ce_from = FromMe, ce_text = body, ce_ts = ts, ce_delivery = Some DPending\<rparr>]\<rparr>)"
| "reduce tr now s (EvChatAckOk tempId mid ts) =
     s\<lparr>ss_messages := map (\<lambda>m. if ce_id m \<noteq> tempId then m
                                 else m\<lparr>ce_id := mid, ce_ts := ts, ce_delivery := Some DSent\<rparr>) (ss_messages s)\<rparr>"
| "reduce tr now s (EvChatAckFailed tempId) =
     s\<lparr>ss_messages := map (\<lambda>m. if ce_id m \<noteq> tempId then m else m\<lparr>ce_delivery := Some DFailed\<rparr>) (ss_messages s)\<rparr>"
| "reduce tr now s (EvPartnerTyping rid typing) =
     (if \<not> in_room s rid \<or> ss_status s \<noteq> SInCall then s else s\<lparr>ss_partnerTyping := typing\<rparr>)"
| "reduce tr now s EvPartnerTypingExpired = (if ss_partnerTyping s then s\<lparr>ss_partnerTyping := False\<rparr> else s)"
| "reduce tr now s (EvCoins bal delta) =
     s\<lparr>ss_coins := Some bal, ss_coinBump := (if delta > 0 then ss_coinBump s + 1 else ss_coinBump s)\<rparr>"
| "reduce tr now s (EvFriendsNew rid) =
     (if \<not> in_room s rid \<or> ss_isFriend s then s
      else s\<lparr>ss_isFriend := True,
             ss_messages := ss_messages s @
               [\<lparr>ce_id = ''system-friends-'' @ rid, ce_from = FromSystem, ce_text = friendsMessage tr, ce_ts = now,
                 ce_delivery = None\<rparr>]\<rparr>)"
| "reduce tr now s EvSessionReplaced = (clearRoom s)\<lparr>ss_status := SReplaced, ss_reconnecting := False\<rparr>"
| "reduce tr now s (EvServerError code msg) =
     (if code = banned then (clearRoom s)\<lparr>ss_status := SBanned, ss_reconnecting := False\<rparr>
      else if code = premium_required then s\<lparr>ss_genderFilter := Some AllGenders\<rparr>
      else s\<lparr>ss_notice := Some code\<rparr>)"
| "reduce tr now s (EvPreferencesSaved gf) = s\<lparr>ss_genderFilter := Some gf\<rparr>"
| "reduce tr now s EvNoticeCleared = (if ss_notice s \<noteq> None then s\<lparr>ss_notice := None\<rparr> else s)"

text \<open>The reducer: a banned or replaced session stays put; everything else is \<open>reduce\<close>.\<close>

definition signalingReducer :: "(string \<Rightarrow> string) \<Rightarrow> millis \<Rightarrow> signaling_state \<Rightarrow> signaling_event \<Rightarrow> signaling_state" where
  "signalingReducer tr now s ev = (if is_terminal (ss_status s) then s else reduce tr now s ev)"

section \<open>The state is well-formed\<close>

text \<open>
  A room, its partner and its mode are shown exactly between \<open>match:found\<close> and the end of the match; a
  deadline only until the call starts; the side that offers only in a call; messages of people only in a call.
\<close>

definition roomy :: "signaling_status \<Rightarrow> bool" where
  "roomy st \<longleftrightarrow> st = SMatchFound \<or> st = SStartingCall \<or> st = SInCall"

definition view_ok :: "signaling_state \<Rightarrow> bool" where
  "view_ok s \<longleftrightarrow>
     (ss_roomId s \<noteq> None \<longleftrightarrow> roomy (ss_status s))
   \<and> (ss_partner s \<noteq> None \<longleftrightarrow> roomy (ss_status s))
   \<and> (ss_expiresAt s \<noteq> None \<longleftrightarrow> ss_status s = SMatchFound \<or> ss_status s = SStartingCall)
   \<and> (ss_initiator s \<noteq> None \<longleftrightarrow> ss_status s = SInCall)
   \<and> (ss_status s = SInCall \<longrightarrow> ss_partnerAccepted s)
   \<and> (ss_callMedia s \<noteq> None \<longrightarrow> ss_status s = SInCall)
   \<and> (ss_partnerTyping s \<longrightarrow> ss_status s = SInCall)
   \<and> (ss_status s \<noteq> SInCall \<longrightarrow> (\<forall>m \<in> set (ss_messages s). ce_from m = FromSystem))
   \<and> (\<not> roomy (ss_status s) \<longrightarrow> ss_messages s = [] \<and> \<not> ss_isFriend s \<and> \<not> ss_partnerAccepted s \<and> ss_matchMode s = None)
   \<and> (ss_reconnecting s \<longrightarrow> \<not> is_terminal (ss_status s))"

lemmas view_defs = view_ok_def roomy_def is_terminal_def clearRoom_def in_room_def nullish_def

lemma initial_view_ok: "view_ok initialSignalingState"
  by (simp add: view_defs initialSignalingState_def)

lemma acked_senders:
  "\<forall>m \<in> set ms. ce_from m = FromSystem \<Longrightarrow>
     \<forall>m \<in> set (map (\<lambda>m. if P m then m else m\<lparr>ce_id := mid, ce_ts := ts, ce_delivery := d\<rparr>) ms). ce_from m = FromSystem"
  "\<forall>m \<in> set ms. ce_from m = FromSystem \<Longrightarrow>
     \<forall>m \<in> set (map (\<lambda>m. if P m then m else m\<lparr>ce_delivery := d\<rparr>) ms). ce_from m = FromSystem"
  by auto

lemma reduce_view_ok:
  assumes "view_ok s" "\<not> is_terminal (ss_status s)"
  shows "view_ok (reduce tr now s ev)"
proof (cases ev)
  case (EvChatAckOk tempId mid ts)
  then show ?thesis using assms acked_senders(1) [of "ss_messages s"]
    by (cases "ss_status s"; simp add: view_defs del: set_map)
next
  case (EvChatAckFailed tempId)
  then show ?thesis using assms acked_senders(2) [of "ss_messages s"]
    by (cases "ss_status s"; simp add: view_defs del: set_map)
qed (use assms in \<open>cases "ss_status s"; simp add: view_defs Let_def\<close>)+

lemma signalingReducer_view_ok: "view_ok s \<Longrightarrow> view_ok (signalingReducer tr now s ev)"
  by (simp add: signalingReducer_def reduce_view_ok)

end
