(* ===== verification/ClientSocket.thy ===== *)
theory ClientSocket
  imports ClientState Backoff
begin

text \<open>
  The hook around the reducer (\<open>new-frontend/src/hooks/useSignaling.ts\<close>, \<open>useSignaling\<close>): connecting and
  reconnecting, the hello, what the socket's events do, and what the user's actions send. The socket library is
  there as the state of its link; what the client sends is appended to \<open>cl_sent\<close>. What a step reads from
  outside (clock, dice, the browser's online flag, translations, the schema's verdict on the hello) is its \<open>moment\<close>.
\<close>

datatype link = Closed | Connecting | Open

datatype client_message =
  MHello nat preferences match_mode
| MAccept string
| MDecline string
| MSkip string
| MTyping string bool
| MChat string string
| MConnected string
| MSignal rtc_signal
| MReport string report_reason "string option"
| MPreferences preferences
| MExtra string

record typing_sent =
  ty_typing :: bool
  ty_at :: millis
  ty_roomId :: "string option"

record client =
  cl_view :: signaling_state
  cl_link :: link
  cl_mounted :: bool
  cl_stopped :: bool
  cl_awaitingSession :: bool
  cl_retryTimer :: "millis option"
  cl_backoff :: backoff
  cl_connectionSeq :: nat
  cl_preferences :: preferences
  cl_mode :: match_mode
  cl_pendingSignals :: "rtc_signal list"
  cl_listeners :: "(string, nat) jmap"
  cl_heard :: "(nat \<times> rtc_signal) list"
  cl_skippedRoom :: "string option"
  cl_reportedConnected :: "string option"
  cl_typingSent :: typing_sent
  cl_typingIdle :: "millis option"
  cl_invalidated :: "string list"
  cl_sent :: "client_message list"

record moment =
  mo_now :: millis
  mo_r1 :: real
  mo_r2 :: real
  mo_onLine :: bool
  mo_tr :: "string \<Rightarrow> string"
  mo_hello_issue :: "string option"

definition MAX_PENDING_SIGNALS :: nat where "MAX_PENDING_SIGNALS = 200"
definition TYPING_IDLE_MS :: millis where "TYPING_IDLE_MS = 3000"
definition TYPING_REFRESH_MS :: millis where "TYPING_REFRESH_MS = 2000"
definition CHAT_MAX :: nat where "CHAT_MAX = 500"
definition REPORT_DETAILS_MAX :: nat where "REPORT_DETAILS_MAX = 500"

definition no_typing :: typing_sent where
  "no_typing = \<lparr>ty_typing = False, ty_at = 0, ty_roomId = None\<rparr>"

definition new_client :: "preferences \<Rightarrow> match_mode \<Rightarrow> client" where
  "new_client p m =
     \<lparr>cl_view = initialSignalingState, cl_link = Closed, cl_mounted = False, cl_stopped = False,
      cl_awaitingSession = False, cl_retryTimer = None, cl_backoff = new_backoff, cl_connectionSeq = 0,
      cl_preferences = p, cl_mode = m, cl_pendingSignals = [], cl_listeners = [], cl_heard = [],
      cl_skippedRoom = None, cl_reportedConnected = None, cl_typingSent = no_typing, cl_typingIdle = None,
      cl_invalidated = [], cl_sent = []\<rparr>"

definition cl_send :: "client_message \<Rightarrow> client \<Rightarrow> client" where
  "cl_send m c = c\<lparr>cl_sent := cl_sent c @ [m]\<rparr>"

text \<open>\<open>dispatch\<close>, and the effect that runs when the room of the new state is another one.\<close>

definition dispatch :: "moment \<Rightarrow> signaling_event \<Rightarrow> client \<Rightarrow> client" where
  "dispatch m ev c =
     (let v = signalingReducer (mo_tr m) (mo_now m) (cl_view c) ev in
      if ss_roomId v = ss_roomId (cl_view c) then c\<lparr>cl_view := v\<rparr>
      else c\<lparr>cl_view := v, cl_typingSent := no_typing, cl_typingIdle := None\<rparr>)"

section \<open>The connection\<close>

definition reconnectLater :: "moment \<Rightarrow> client \<Rightarrow> client" where
  "reconnectLater m c =
     (if cl_stopped c \<or> cl_awaitingSession c \<or> cl_retryTimer c \<noteq> None then c
      else
        let (b, time) = nextAttemptAt (mo_now m) None (mo_r1 m) (mo_r2 m) (cl_backoff c);
            busy = (failureCount b \<ge> BUSY_AFTER_FAILURES \<and> mo_onLine m) in
        (dispatch m (EvRetryScheduled time busy) (c\<lparr>cl_backoff := b\<rparr>))\<lparr>cl_retryTimer := Some time\<rparr>)"

definition on_disconnect :: "moment \<Rightarrow> bool \<Rightarrow> client \<Rightarrow> client" where
  "on_disconnect m byClient c =
     (let c1 = c\<lparr>cl_link := Closed, cl_pendingSignals := []\<rparr> in
      if cl_stopped c then c1
      else
        let c2 = dispatch m EvSocketDisconnected c1 in
        if byClient then c2 else reconnectLater m c2)"

text \<open>\<open>socket.disconnect()\<close> raises the event at once when the socket is connected.\<close>

definition socket_disconnect :: "moment \<Rightarrow> client \<Rightarrow> client" where
  "socket_disconnect m c = (if cl_link c = Open then on_disconnect m True c else c\<lparr>cl_link := Closed\<rparr>)"

definition stop_client :: "moment \<Rightarrow> client \<Rightarrow> client" where
  "stop_client m c = socket_disconnect m (c\<lparr>cl_stopped := True, cl_retryTimer := None\<rparr>)"

definition retry_fires :: "client \<Rightarrow> client" where
  "retry_fires c =
     (let c1 = c\<lparr>cl_retryTimer := None\<rparr> in
      if \<not> cl_stopped c \<and> cl_link c \<noteq> Open then c1\<lparr>cl_link := Connecting\<rparr> else c1)"

definition renewSession :: "string \<Rightarrow> client \<Rightarrow> client" where
  "renewSession reason c =
     (if cl_awaitingSession c then c
      else c\<lparr>cl_awaitingSession := True, cl_retryTimer := None, cl_invalidated := cl_invalidated c @ [reason]\<rparr>)"

definition session_saved :: "moment \<Rightarrow> client \<Rightarrow> client" where
  "session_saved m c = (if cl_awaitingSession c then reconnectLater m (c\<lparr>cl_awaitingSession := False\<rparr>) else c)"

definition reconnect_now :: "moment \<Rightarrow> client \<Rightarrow> client" where
  "reconnect_now m c = reconnectLater m (socket_disconnect m c)"

definition sayHello :: "moment \<Rightarrow> client \<Rightarrow> client" where
  "sayHello m c =
     (let c1 = c\<lparr>cl_connectionSeq := cl_connectionSeq c + 1\<rparr> in
      case mo_hello_issue m of
        Some issue \<Rightarrow>
          dispatch m (EvHelloFailed (HelloRefused invalid_payload)
            (Some (''Invalid '' @ (if issue = '''' then ''profile'' else issue)))) c1
      | None \<Rightarrow> cl_send (MHello (cl_connectionSeq c1) (cl_preferences c1) (cl_mode c1)) c1)"

datatype hello_answer = NoAnswer | HelloOk int "ice_server list" "gender_filter option" | HelloNo error_code "string option"

definition hello_ack :: "moment \<Rightarrow> nat \<Rightarrow> hello_answer \<Rightarrow> client \<Rightarrow> client" where
  "hello_ack m sq res c =
     (if sq \<noteq> cl_connectionSeq c \<or> cl_stopped c then c
      else case res of
        NoAnswer \<Rightarrow> dispatch m (EvHelloFailed HelloTimeout (Some (mo_tr m ''room:signaling.noAnswer''))) c
      | HelloOk coins ice gf \<Rightarrow>
          let applied = nullish gf (genderFilter (cl_preferences c));
              c1 = (if applied \<noteq> genderFilter (cl_preferences c)
                    then c\<lparr>cl_preferences := (cl_preferences c)\<lparr>genderFilter := applied\<rparr>\<rparr> else c);
              c2 = c1\<lparr>cl_backoff := reset_backoff (cl_backoff c1)\<rparr> in
          dispatch m (EvHelloOk coins ice applied) c2
      | HelloNo err msg \<Rightarrow>
          let c1 = dispatch m (EvHelloFailed (HelloRefused err) msg) c in
          if err = banned then stop_client m c1 else c1)"

definition on_connect :: "moment \<Rightarrow> client \<Rightarrow> client" where
  "on_connect m c = sayHello m (dispatch m EvSocketConnected (c\<lparr>cl_link := Open\<rparr>))"

definition on_connect_error :: "moment \<Rightarrow> string option \<Rightarrow> client \<Rightarrow> client" where
  "on_connect_error m code c =
     (let c0 = c\<lparr>cl_link := Closed\<rparr> in
      if cl_stopped c then c0
      else
        let c1 = dispatch m EvConnectFailed c0 in
        case code of
          Some reason \<Rightarrow>
            if reason = ''session_required'' \<or> reason = ''region_blocked'' then renewSession reason c1
            else reconnectLater m c1
        | None \<Rightarrow> reconnectLater m c1)"

section \<open>Events of the server\<close>

datatype server_event =
  QueueWaitingEv "int option" "int option"
| MatchFoundEv string public_profile bool millis millis match_mode
| PartnerAcceptedEv string
| MatchEndedEv string match_end_reason
| CallStartEv string bool call_media
| SignalEv rtc_signal
| ChatEv string string string millis
| TypingEv string bool
| CoinsEv int int
| FriendsEv string
| ReplacedEv
| ErrorEv error_code "string option"
| ShutdownEv

definition on_signal :: "rtc_signal \<Rightarrow> client \<Rightarrow> client" where
  "on_signal s c =
     (case jget (cl_listeners c) (sig_roomId s) of
        Some l \<Rightarrow> c\<lparr>cl_heard := cl_heard c @ [(l, s)]\<rparr>
      | None \<Rightarrow>
          if length (cl_pendingSignals c) < MAX_PENDING_SIGNALS
          then c\<lparr>cl_pendingSignals := cl_pendingSignals c @ [s]\<rparr> else c)"

fun on_server :: "moment \<Rightarrow> server_event \<Rightarrow> client \<Rightarrow> client" where
  "on_server m (QueueWaitingEv relax online) c = dispatch m (EvQueueWaiting (Some (nullish relax 0)) online) c"
| "on_server m (MatchFoundEv rid partner friend expires serverNow md) c =
     (let c1 = dispatch m (EvMatchFound rid partner friend expires serverNow (mo_now m) (Some md))
                 (c\<lparr>cl_pendingSignals := []\<rparr>) in
      if md = instant then dispatch m EvLocalAccept (cl_send (MAccept rid) c1) else c1)"
| "on_server m (PartnerAcceptedEv rid) c = dispatch m (EvPartnerAccepted rid) c"
| "on_server m (MatchEndedEv rid reason) c = dispatch m (EvMatchEnded rid reason) (c\<lparr>cl_pendingSignals := []\<rparr>)"
| "on_server m (CallStartEv rid init media) c = dispatch m (EvCallStart rid init (Some media)) c"
| "on_server m (SignalEv s) c = on_signal s c"
| "on_server m (ChatEv rid mid body ts) c = dispatch m (EvChatReceived rid mid body ts) c"
| "on_server m (TypingEv rid typing) c = dispatch m (EvPartnerTyping rid typing) c"
| "on_server m (CoinsEv bal delta) c = dispatch m (EvCoins bal delta) c"
| "on_server m (FriendsEv rid) c = dispatch m (EvFriendsNew rid) c"
| "on_server m ReplacedEv c = stop_client m (dispatch m EvSessionReplaced c)"
| "on_server m (ErrorEv code msg) c =
     (if code = session_expired then renewSession ''session_expired'' c
      else
        let c1 = dispatch m (EvServerError code msg) c in
        if code = banned then stop_client m c1 else c1)"
| "on_server m ShutdownEv c = c"

section \<open>Actions of the user\<close>

definition usable_room :: "client \<Rightarrow> string option" where
  "usable_room c = (if cl_link c = Open then ss_roomId (cl_view c) else None)"

definition accept_match :: "moment \<Rightarrow> client \<Rightarrow> client" where
  "accept_match m c =
     (case usable_room c of
        None \<Rightarrow> c
      | Some rid \<Rightarrow>
          if ss_status (cl_view c) \<noteq> SMatchFound then c
          else if (case ss_expiresAt (cl_view c) of Some d \<Rightarrow> mo_now m \<ge> d | None \<Rightarrow> False) then c
          else dispatch m EvLocalAccept (cl_send (MAccept rid) c))"

definition decline_match :: "client \<Rightarrow> client" where
  "decline_match c =
     (case usable_room c of
        None \<Rightarrow> c
      | Some rid \<Rightarrow>
          if ss_status (cl_view c) \<noteq> SMatchFound \<and> ss_status (cl_view c) \<noteq> SStartingCall then c
          else cl_send (MDecline rid) c)"

definition skip_call :: "client \<Rightarrow> client" where
  "skip_call c =
     (case usable_room c of
        None \<Rightarrow> c
      | Some rid \<Rightarrow>
          if \<not> roomy (ss_status (cl_view c)) \<or> cl_skippedRoom c = Some rid then c
          else cl_send (MSkip rid) (c\<lparr>cl_skippedRoom := Some rid\<rparr>))"

definition emitTyping :: "moment \<Rightarrow> bool \<Rightarrow> client \<Rightarrow> client" where
  "emitTyping m typing c =
     (case usable_room c of
        None \<Rightarrow> c
      | Some rid \<Rightarrow>
          if ss_status (cl_view c) \<noteq> SInCall then c
          else (cl_send (MTyping rid typing) c)
                 \<lparr>cl_typingSent := \<lparr>ty_typing = typing, ty_at = mo_now m, ty_roomId = Some rid\<rparr>\<rparr>)"

definition setTyping :: "moment \<Rightarrow> bool \<Rightarrow> client \<Rightarrow> client" where
  "setTyping m typing c =
     (let c1 = c\<lparr>cl_typingIdle := None\<rparr>; sent = cl_typingSent c in
      if \<not> typing then if ty_typing sent then emitTyping m False c1 else c1
      else
        (if \<not> ty_typing sent \<or> mo_now m - ty_at sent \<ge> TYPING_REFRESH_MS then emitTyping m True c1 else c1)
          \<lparr>cl_typingIdle := Some (mo_now m + TYPING_IDLE_MS)\<rparr>)"

definition typing_idles :: "moment \<Rightarrow> client \<Rightarrow> client" where
  "typing_idles m c =
     (let c1 = c\<lparr>cl_typingIdle := None\<rparr> in if ty_typing (cl_typingSent c) then emitTyping m False c1 else c1)"

text \<open>The answer is the error the caller sees at once, or none when the message is on its way.\<close>

definition sendChat :: "moment \<Rightarrow> string \<Rightarrow> string \<Rightarrow> client \<Rightarrow> client \<times> error_code option" where
  "sendChat m tempId raw c =
     (let body = take CHAT_MAX (trim raw) in
      if body = '''' then (c, Some invalid_payload)
      else case usable_room c of
        None \<Rightarrow> (c, Some internal)
      | Some rid \<Rightarrow>
          if ss_status (cl_view c) \<noteq> SInCall then (c, Some internal)
          else
            let c1 = setTyping m False c;
                c2 = dispatch m (EvChatLocal rid tempId body (mo_now m)) c1 in
            (cl_send (MChat rid body) c2, None))"

definition chat_ack :: "moment \<Rightarrow> string \<Rightarrow> (string \<times> millis) option \<Rightarrow> client \<Rightarrow> client" where
  "chat_ack m tempId res c =
     dispatch m (case res of Some (mid, ts) \<Rightarrow> EvChatAckOk tempId mid ts | None \<Rightarrow> EvChatAckFailed tempId) c"

definition report_partner :: "report_reason \<Rightarrow> string option \<Rightarrow> string option \<Rightarrow> client \<Rightarrow> client \<times> error_code option" where
  "report_partner reason details target c =
     (let rid = (case target of Some r \<Rightarrow> Some r | None \<Rightarrow> ss_roomId (cl_view c)) in
      case (if cl_link c = Open then rid else None) of
        None \<Rightarrow> (c, Some internal)
      | Some r \<Rightarrow>
          let trimmed = map_option (\<lambda>d. take REPORT_DETAILS_MAX (trim d)) details in
          (cl_send (MReport r reason (if trimmed = Some '''' then None else trimmed)) c, None))"

definition updatePreferences :: "preferences \<Rightarrow> client \<Rightarrow> client \<times> error_code option" where
  "updatePreferences p c = (if cl_link c \<noteq> Open then (c, Some internal) else (cl_send (MPreferences p) c, None))"

definition preferences_ack :: "moment \<Rightarrow> preferences \<Rightarrow> bool \<Rightarrow> client \<Rightarrow> client" where
  "preferences_ack m p accepted_by_server c =
     (if accepted_by_server then dispatch m (EvPreferencesSaved (genderFilter p)) (c\<lparr>cl_preferences := p\<rparr>) else c)"

definition sendSignal :: "rtc_signal \<Rightarrow> client \<Rightarrow> client" where
  "sendSignal s c = (if cl_link c = Open then cl_send (MSignal s) c else c)"

definition reportConnected :: "client \<Rightarrow> client" where
  "reportConnected c =
     (case usable_room c of
        None \<Rightarrow> c
      | Some rid \<Rightarrow>
          if ss_status (cl_view c) \<noteq> SInCall \<or> cl_reportedConnected c = Some rid then c
          else cl_send (MConnected rid) (c\<lparr>cl_reportedConnected := Some rid\<rparr>))"

definition subscribeSignals :: "string \<Rightarrow> nat \<Rightarrow> client \<Rightarrow> client" where
  "subscribeSignals rid l c =
     (let replay = filter (\<lambda>s. sig_roomId s = rid) (cl_pendingSignals c) in
      c\<lparr>cl_listeners := jset (cl_listeners c) rid l,
        cl_pendingSignals := filter (\<lambda>s. sig_roomId s \<noteq> rid) (cl_pendingSignals c),
        cl_heard := cl_heard c @ map (\<lambda>s. (l, s)) replay\<rparr>)"

definition unsubscribeSignals :: "string \<Rightarrow> nat \<Rightarrow> client \<Rightarrow> client" where
  "unsubscribeSignals rid l c =
     (if jget (cl_listeners c) rid = Some l then c\<lparr>cl_listeners := jdel (cl_listeners c) rid\<rparr> else c)"

definition send_extra :: "string \<Rightarrow> client \<Rightarrow> client" where
  "send_extra ev c = (if cl_link c = Open then cl_send (MExtra ev) c else c)"

definition retry_now :: "moment \<Rightarrow> client \<Rightarrow> client" where
  "retry_now m c = (if is_terminal (ss_status (cl_view c)) then c else reconnect_now m c)"

definition search_again :: "moment \<Rightarrow> client \<Rightarrow> client" where
  "search_again m c =
     (if ss_status (cl_view c) \<noteq> SIdle then c
      else if cl_link c = Open then sayHello m c
      else retry_now m c)"

definition mount :: "moment \<Rightarrow> client \<Rightarrow> client" where
  "mount m c = c\<lparr>cl_mounted := True, cl_backoff := noteAttempt (mo_now m) (cl_backoff c), cl_link := Connecting\<rparr>"

definition unmount :: "client \<Rightarrow> client" where
  "unmount c = c\<lparr>cl_mounted := False, cl_stopped := True, cl_retryTimer := None, cl_link := Closed, cl_typingIdle := None\<rparr>"

end
