(* ===== verification/ClientTheorems.thy ===== *)
theory ClientTheorems
  imports ClientSocket
begin

text \<open>
  The client as a state machine: what may happen to it and in which state of the link, the reachable states, and
  what holds in all of them.
\<close>

section \<open>Steps\<close>

datatype client_input =
  IMount | IUnmount | IConnected | IDisconnected | IConnectError "string option" | IRetryTimer | ISessionSaved
| IHelloAck nat hello_answer | IServer server_event | IChatAck string "(string \<times> millis) option"
| IPreferencesAck preferences bool | ITypingExpired | INoticeCleared | ITypingIdle
| UAccept | UDecline | USkip | UTyping bool | UChat string string
| UReport report_reason "string option" "string option" | UPreferences preferences | USignal rtc_signal | UConnected
| USubscribe string nat | UUnsubscribe string nat | UExtra string | URetry | USearch

text \<open>
  The socket library raises an event only in the state of the link it belongs to, a timer fires only while it is set,
  and an answer to the hello other than "none came" needs a connection. The user may act at any time.
\<close>

fun may_happen :: "client \<Rightarrow> client_input \<Rightarrow> bool" where
  "may_happen c IMount = (\<not> cl_mounted c \<and> \<not> cl_stopped c)"
| "may_happen c IUnmount = cl_mounted c"
| "may_happen c IConnected = (cl_mounted c \<and> cl_link c = Connecting)"
| "may_happen c IDisconnected = (cl_mounted c \<and> cl_link c = Open)"
| "may_happen c (IConnectError code) = (cl_mounted c \<and> cl_link c = Connecting)"
| "may_happen c IRetryTimer = (cl_mounted c \<and> cl_retryTimer c \<noteq> None)"
| "may_happen c (IHelloAck sq res) = (res = NoAnswer \<or> cl_link c = Open)"
| "may_happen c (IServer ev) = (cl_mounted c \<and> cl_link c = Open)"
| "may_happen c ITypingIdle = (cl_typingIdle c \<noteq> None)"
| "may_happen c _ = cl_mounted c"

fun client_do :: "moment \<Rightarrow> client_input \<Rightarrow> client \<Rightarrow> client" where
  "client_do m IMount c = mount m c"
| "client_do m IUnmount c = unmount c"
| "client_do m IConnected c = on_connect m c"
| "client_do m IDisconnected c = on_disconnect m False c"
| "client_do m (IConnectError code) c = on_connect_error m code c"
| "client_do m IRetryTimer c = retry_fires c"
| "client_do m ISessionSaved c = session_saved m c"
| "client_do m (IHelloAck sq res) c = hello_ack m sq res c"
| "client_do m (IServer ev) c = on_server m ev c"
| "client_do m (IChatAck tempId res) c = chat_ack m tempId res c"
| "client_do m (IPreferencesAck p ok) c = preferences_ack m p ok c"
| "client_do m ITypingExpired c = dispatch m EvPartnerTypingExpired c"
| "client_do m INoticeCleared c = dispatch m EvNoticeCleared c"
| "client_do m ITypingIdle c = typing_idles m c"
| "client_do m UAccept c = accept_match m c"
| "client_do m UDecline c = decline_match c"
| "client_do m USkip c = skip_call c"
| "client_do m (UTyping typing) c = setTyping m typing c"
| "client_do m (UChat tempId raw) c = fst (sendChat m tempId raw c)"
| "client_do m (UReport reason details target) c = fst (report_partner reason details target c)"
| "client_do m (UPreferences p) c = fst (updatePreferences p c)"
| "client_do m (USignal s) c = sendSignal s c"
| "client_do m UConnected c = reportConnected c"
| "client_do m (USubscribe rid l) c = subscribeSignals rid l c"
| "client_do m (UUnsubscribe rid l) c = unsubscribeSignals rid l c"
| "client_do m (UExtra ev) c = send_extra ev c"
| "client_do m URetry c = retry_now m c"
| "client_do m USearch c = search_again m c"

inductive client_reaches :: "client \<Rightarrow> client \<Rightarrow> bool" where
  start: "client_reaches c c"
| go: "client_reaches c d \<Longrightarrow> may_happen d inp \<Longrightarrow> client_reaches c (client_do m inp d)"

section \<open>What a dispatch leaves alone\<close>

lemma dispatch_frame [simp]:
  "cl_link (dispatch m ev c) = cl_link c" "cl_mounted (dispatch m ev c) = cl_mounted c"
  "cl_stopped (dispatch m ev c) = cl_stopped c" "cl_awaitingSession (dispatch m ev c) = cl_awaitingSession c"
  "cl_retryTimer (dispatch m ev c) = cl_retryTimer c" "cl_backoff (dispatch m ev c) = cl_backoff c"
  "cl_pendingSignals (dispatch m ev c) = cl_pendingSignals c" "cl_listeners (dispatch m ev c) = cl_listeners c"
  "cl_sent (dispatch m ev c) = cl_sent c" "cl_connectionSeq (dispatch m ev c) = cl_connectionSeq c"
  "cl_preferences (dispatch m ev c) = cl_preferences c" "cl_heard (dispatch m ev c) = cl_heard c"
  by (simp_all add: dispatch_def Let_def)

lemma dispatch_view: "cl_view (dispatch m ev c) = signalingReducer (mo_tr m) (mo_now m) (cl_view c) ev"
  by (simp add: dispatch_def Let_def)

lemma cl_send_frame [simp]:
  "cl_link (cl_send x c) = cl_link c" "cl_mounted (cl_send x c) = cl_mounted c"
  "cl_stopped (cl_send x c) = cl_stopped c" "cl_awaitingSession (cl_send x c) = cl_awaitingSession c"
  "cl_retryTimer (cl_send x c) = cl_retryTimer c" "cl_view (cl_send x c) = cl_view c"
  "cl_pendingSignals (cl_send x c) = cl_pendingSignals c" "cl_listeners (cl_send x c) = cl_listeners c"
  "cl_sent (cl_send x c) = cl_sent c @ [x]" "cl_heard (cl_send x c) = cl_heard c"
  by (simp_all add: cl_send_def)

section \<open>The invariant\<close>

text \<open>Where the view may be while the socket is not connected.\<close>

definition offline_status :: "signaling_status \<Rightarrow> bool" where
  "offline_status s \<longleftrightarrow> s = SConnecting \<or> s = SError \<or> is_terminal s"

definition client_ok :: "client \<Rightarrow> bool" where
  "client_ok c \<longleftrightarrow>
     view_ok (cl_view c)
   \<and> (cl_link c \<noteq> Open \<and> (cl_mounted c \<or> \<not> cl_stopped c) \<longrightarrow> offline_status (ss_status (cl_view c)))
   \<and> (cl_mounted c \<or> \<not> cl_stopped c \<longrightarrow> (cl_stopped c \<longleftrightarrow> is_terminal (ss_status (cl_view c))))
   \<and> (cl_mounted c \<and> \<not> cl_stopped c \<longrightarrow> cl_link c \<noteq> Closed \<or> cl_retryTimer c \<noteq> None \<or> cl_awaitingSession c)
   \<and> (cl_stopped c \<longrightarrow> cl_link c = Closed \<and> cl_retryTimer c = None)
   \<and> (\<not> cl_mounted c \<longrightarrow> cl_link c = Closed)
   \<and> (\<forall>s \<in> set (cl_pendingSignals c). jget (cl_listeners c) (sig_roomId s) = None)
   \<and> length (cl_pendingSignals c) \<le> MAX_PENDING_SIGNALS"

definition ending :: "signaling_event \<Rightarrow> bool" where
  "ending ev \<longleftrightarrow> ev = EvSessionReplaced \<or> (\<exists>msg. ev = EvServerError banned msg) \<or> (\<exists>msg. ev = EvHelloFailed (HelloRefused banned) msg)"

text \<open>Events that may reach the reducer while there is no connection.\<close>

fun offline_safe :: "signaling_event \<Rightarrow> bool" where
  "offline_safe (EvHelloOk _ _ _) = False"
| "offline_safe (EvQueueWaiting _ _) = False"
| "offline_safe (EvMatchFound _ _ _ _ _ _ _) = False"
| "offline_safe EvLocalAccept = False"
| "offline_safe (EvCallStart _ _ _) = False"
| "offline_safe (EvMatchEnded _ _) = False"
| "offline_safe _ = True"

lemma terminal_after:
  "is_terminal (ss_status (signalingReducer tr now s ev)) \<longleftrightarrow> is_terminal (ss_status s) \<or> ending ev"
  by (cases ev) (auto simp: signalingReducer_def is_terminal_def ending_def clearRoom_def Let_def)

lemma offline_after:
  assumes "offline_status (ss_status s)" "offline_safe ev"
  shows "offline_status (ss_status (signalingReducer tr now s ev))"
  using assms by (cases ev) (auto simp: signalingReducer_def is_terminal_def offline_status_def clearRoom_def Let_def)

lemma dispatch_ok:
  assumes "client_ok c" "\<not> ending ev" "cl_link c = Open \<or> offline_safe ev"
  shows "client_ok (dispatch m ev c)"
  using assms by (auto simp: client_ok_def dispatch_view terminal_after signalingReducer_view_ok offline_after)

lemma cl_send_ok: "client_ok c \<Longrightarrow> client_ok (cl_send x c)"
  by (simp add: client_ok_def)

lemma reconnectLater_frame [simp]:
  "cl_link (reconnectLater m c) = cl_link c" "cl_mounted (reconnectLater m c) = cl_mounted c"
  "cl_stopped (reconnectLater m c) = cl_stopped c" "cl_awaitingSession (reconnectLater m c) = cl_awaitingSession c"
  "cl_pendingSignals (reconnectLater m c) = cl_pendingSignals c" "cl_listeners (reconnectLater m c) = cl_listeners c"
  "cl_sent (reconnectLater m c) = cl_sent c"
  by (simp_all add: reconnectLater_def split: prod.splits)

lemma reconnectLater_timer:
  "cl_retryTimer (reconnectLater m c) = None \<longleftrightarrow> cl_retryTimer c = None \<and> (cl_stopped c \<or> cl_awaitingSession c)"
  "(\<exists>t. cl_retryTimer (reconnectLater m c) = Some t) \<longleftrightarrow> cl_retryTimer c \<noteq> None \<or> \<not> cl_stopped c \<and> \<not> cl_awaitingSession c"
  by (auto simp: reconnectLater_def split: prod.splits)

lemma reconnectLater_view:
  "view_ok (cl_view c) \<Longrightarrow> view_ok (cl_view (reconnectLater m c))"
  "ss_status (cl_view (reconnectLater m c)) = ss_status (cl_view c)"
  by (auto simp: reconnectLater_def dispatch_view signalingReducer_view_ok split: prod.splits)
    (simp add: signalingReducer_def)

lemmas step_simps = client_ok_def dispatch_view terminal_after signalingReducer_view_ok offline_after
  reconnectLater_timer reconnectLater_view ending_def

lemma connecting_goes_on [simp]: "\<not> is_terminal SConnecting"
  by (simp add: is_terminal_def)

lemma after_disconnect:
  "\<not> is_terminal (ss_status s) \<Longrightarrow> ss_status (signalingReducer tr now s EvSocketDisconnected) = SConnecting"
  by (simp add: signalingReducer_def)

lemma on_disconnect_ok:
  assumes "client_ok c" "cl_link c = Open" "cl_mounted c" "\<not> byClient"
  shows "client_ok (on_disconnect m byClient c)"
  using assms by (auto simp: on_disconnect_def Let_def step_simps offline_status_def after_disconnect)

lemma stop_client_ok:
  assumes "view_ok (cl_view c)" "is_terminal (ss_status (cl_view c))"
    and "\<forall>s \<in> set (cl_pendingSignals c). jget (cl_listeners c) (sig_roomId s) = None"
    and "length (cl_pendingSignals c) \<le> MAX_PENDING_SIGNALS"
  shows "client_ok (stop_client m c)"
  using assms by (auto simp: stop_client_def socket_disconnect_def on_disconnect_def client_ok_def offline_status_def)

lemma ending_stop_ok:
  assumes "client_ok c" "ending ev"
  shows "client_ok (stop_client m (dispatch m ev c))"
  using assms by (intro stop_client_ok) (auto simp: step_simps)

lemma reconnect_now_ok:
  assumes "client_ok c" "cl_mounted c" "\<not> is_terminal (ss_status (cl_view c))"
  shows "client_ok (reconnect_now m c)"
  using assms
  by (auto simp: reconnect_now_def socket_disconnect_def on_disconnect_def Let_def step_simps offline_status_def after_disconnect)

lemma sayHello_ok: "client_ok c \<Longrightarrow> client_ok (sayHello m c)"
  by (auto simp: sayHello_def Let_def intro!: dispatch_ok cl_send_ok split: option.splits)
    (auto simp: client_ok_def ending_def)

lemma renewSession_ok: "client_ok c \<Longrightarrow> client_ok (renewSession reason c)"
  by (auto simp: renewSession_def client_ok_def)

lemma on_connect_ok:
  assumes "client_ok c" "cl_mounted c" "cl_link c = Connecting"
  shows "client_ok (on_connect m c)"
proof -
  have "client_ok (c\<lparr>cl_link := Open\<rparr>)" using assms by (auto simp: client_ok_def)
  then show ?thesis unfolding on_connect_def by (intro sayHello_ok dispatch_ok) (auto simp: ending_def)
qed

lemma on_connect_error_ok:
  assumes "client_ok c" "cl_mounted c" "cl_link c = Connecting"
  shows "client_ok (on_connect_error m code c)"
  using assms
  by (auto simp: on_connect_error_def renewSession_def Let_def step_simps split: option.splits)

lemma session_saved_ok: "client_ok c \<Longrightarrow> client_ok (session_saved m c)"
  by (auto simp: session_saved_def step_simps)

lemma retry_fires_ok: "client_ok c \<Longrightarrow> cl_mounted c \<Longrightarrow> client_ok (retry_fires c)"
  by (auto simp: retry_fires_def Let_def client_ok_def)

lemma hello_ack_ok:
  assumes "client_ok c" "res = NoAnswer \<or> cl_link c = Open"
  shows "client_ok (hello_ack m sq res c)"
proof (cases res)
  case NoAnswer
  then show ?thesis using assms(1) by (auto simp: hello_ack_def ending_def intro: dispatch_ok)
next
  case (HelloOk coins ice gf)
  have "client_ok (c\<lparr>cl_preferences := p, cl_backoff := b\<rparr>)" "client_ok (c\<lparr>cl_backoff := b\<rparr>)" for p b
    using assms(1) by (auto simp: client_ok_def)
  then show ?thesis using assms HelloOk by (auto simp: hello_ack_def Let_def ending_def intro!: dispatch_ok)
next
  case (HelloNo err msg)
  then show ?thesis using assms
    by (auto simp: hello_ack_def Let_def intro!: dispatch_ok ending_stop_ok) (auto simp: ending_def)
qed

lemma on_signal_ok: "client_ok c \<Longrightarrow> client_ok (on_signal s c)"
  by (auto simp: on_signal_def client_ok_def split: option.splits)

lemma no_pending_ok: "client_ok c \<Longrightarrow> client_ok (c\<lparr>cl_pendingSignals := []\<rparr>)"
  by (simp add: client_ok_def)

lemma on_server_ok:
  assumes "client_ok c" "cl_link c = Open"
  shows "client_ok (on_server m ev c)"
proof (cases ev)
  case (ErrorEv code msg)
  then show ?thesis using assms
    by (auto simp: Let_def intro!: dispatch_ok ending_stop_ok renewSession_ok) (auto simp: ending_def)
qed (use assms in \<open>auto simp: Let_def ending_def intro!: dispatch_ok cl_send_ok ending_stop_ok on_signal_ok no_pending_ok\<close>)

lemma usable_open: "usable_room c = Some rid \<Longrightarrow> cl_link c = Open \<and> ss_roomId (cl_view c) = Some rid"
  by (auto simp: usable_room_def split: if_splits)

lemma emitTyping_ok: "client_ok c \<Longrightarrow> client_ok (emitTyping m typing c)"
  by (auto simp: emitTyping_def client_ok_def split: option.splits)

lemma idle_timer_ok:
  "client_ok (c\<lparr>cl_typingIdle := t\<rparr>) \<longleftrightarrow> client_ok c" "client_ok (c\<lparr>cl_preferences := p\<rparr>) \<longleftrightarrow> client_ok c"
  "client_ok (c\<lparr>cl_skippedRoom := r\<rparr>) \<longleftrightarrow> client_ok c" "client_ok (c\<lparr>cl_reportedConnected := r\<rparr>) \<longleftrightarrow> client_ok c"
  by (simp_all add: client_ok_def)

lemma setTyping_ok: "client_ok c \<Longrightarrow> client_ok (setTyping m typing c)"
  by (auto simp: setTyping_def Let_def idle_timer_ok intro: emitTyping_ok)

lemma subscribe_ok: "client_ok c \<Longrightarrow> client_ok (subscribeSignals rid l c)"
  by (auto simp: subscribeSignals_def client_ok_def intro: le_trans [OF length_filter_le])

lemma unsubscribe_ok: "client_ok c \<Longrightarrow> client_ok (unsubscribeSignals rid l c)"
  by (auto simp: unsubscribeSignals_def client_ok_def)

text \<open>Every step keeps the invariant.\<close>

lemma client_do_ok:
  assumes "client_ok c" "may_happen c inp"
  shows "client_ok (client_do m inp c)"
proof (cases inp)
  case IMount
  then show ?thesis using assms by (auto simp: mount_def client_ok_def)
next
  case IUnmount
  then show ?thesis using assms by (auto simp: unmount_def client_ok_def)
qed (use assms in \<open>auto simp: Let_def ending_def idle_timer_ok chat_ack_def preferences_ack_def accept_match_def
    decline_match_def skip_call_def sendChat_def report_partner_def updatePreferences_def sendSignal_def reportConnected_def
    send_extra_def retry_now_def search_again_def typing_idles_def usable_open
    split: option.splits
    intro!: on_connect_ok on_disconnect_ok on_connect_error_ok retry_fires_ok session_saved_ok hello_ack_ok on_server_ok
    dispatch_ok cl_send_ok setTyping_ok emitTyping_ok subscribe_ok unsubscribe_ok reconnect_now_ok sayHello_ok\<close>)

lemma client_reaches_ok: "client_reaches c d \<Longrightarrow> client_ok c \<Longrightarrow> client_ok d"
  by (induction rule: client_reaches.induct) (simp_all add: client_do_ok)

lemma new_client_ok: "client_ok (new_client p m)"
  using initial_view_ok
  by (simp add: client_ok_def new_client_def offline_status_def is_terminal_def MAX_PENDING_SIGNALS_def)
    (simp add: initialSignalingState_def)

section \<open>Events of the reducer\<close>

definition run_events :: "(string \<Rightarrow> string) \<Rightarrow> signaling_state \<Rightarrow> (millis \<times> signaling_event) list \<Rightarrow> signaling_state" where
  "run_events tr s evs = foldl (\<lambda>s (now, ev). signalingReducer tr now s ev) s evs"

text \<open>The room an event is about, when it is about the match in progress.\<close>

fun about_room :: "signaling_event \<Rightarrow> string option" where
  "about_room (EvPartnerAccepted rid) = Some rid"
| "about_room (EvCallStart rid _ _) = Some rid"
| "about_room (EvMatchEnded rid _) = Some rid"
| "about_room (EvChatReceived rid _ _ _) = Some rid"
| "about_room (EvChatLocal rid _ _ _) = Some rid"
| "about_room (EvPartnerTyping rid _) = Some rid"
| "about_room (EvFriendsNew rid) = Some rid"
| "about_room _ = None"

lemma run_events_view_ok: "view_ok s \<Longrightarrow> view_ok (run_events tr s evs)"
  unfolding run_events_def by (induction evs arbitrary: s) (auto simp: signalingReducer_view_ok)

lemma run_events_terminal: "is_terminal (ss_status s) \<Longrightarrow> run_events tr s evs = s"
  unfolding run_events_def by (induction evs) (auto simp: signalingReducer_def)

lemma other_room_ignored: "about_room ev = Some rid \<Longrightarrow> ss_roomId s \<noteq> Some rid \<Longrightarrow> signalingReducer tr now s ev = s"
  by (cases ev) (simp_all add: signalingReducer_def in_room_def)

section \<open>The properties\<close>

text \<open>
  C34: whatever events arrive and in whatever order, the client shows a consistent state: a room and a partner exactly
  while matched, a deadline only before the call, the offering side and what people wrote only in the call, and
  nothing of an old match after it. An event about another room than the one shown changes nothing, and once the
  device is banned or replaced nothing changes any more.
\<close>

theorem shown_state_is_consistent:
  shows "view_ok (run_events tr initialSignalingState evs)
    \<and> (about_room ev = Some rid \<and> ss_roomId (run_events tr initialSignalingState evs) \<noteq> Some rid
        \<longrightarrow> run_events tr initialSignalingState (evs @ [(now, ev)]) = run_events tr initialSignalingState evs)
    \<and> (is_terminal (ss_status (run_events tr initialSignalingState evs))
        \<longrightarrow> run_events tr initialSignalingState (evs @ later_evs) = run_events tr initialSignalingState evs)"
proof -
  let ?s = "run_events tr initialSignalingState evs"
  have app: "run_events tr initialSignalingState (evs @ xs) = run_events tr ?s xs" for xs
    by (simp add: run_events_def)
  show ?thesis
    using run_events_view_ok [OF initial_view_ok] other_room_ignored [of ev rid ?s] run_events_terminal [of ?s]
    by (auto simp: app) (simp add: run_events_def)
qed

text \<open>
  C33: the client never gives up on its own and never comes back on its own. In every reachable state a client that is
  on the page and neither banned nor replaced is connected or connecting, or has a retry planned, or waits for a new
  session token; a planned retry connects when its timer fires, and a new token plans one. A client that is banned or
  replaced is disconnected and plans nothing. And without a connection no room, partner or message is shown, so
  nothing can be sent into a match that is gone.
\<close>

theorem client_never_stuck:
  assumes "client_reaches (new_client p m) c" and "cl_mounted c"
  shows "if is_terminal (ss_status (cl_view c)) then cl_link c = Closed \<and> cl_retryTimer c = None
    else (cl_link c \<noteq> Closed \<or> cl_retryTimer c \<noteq> None \<or> cl_awaitingSession c)
      \<and> (cl_retryTimer c \<noteq> None \<longrightarrow> cl_link (client_do mo IRetryTimer c) \<noteq> Closed)
      \<and> (cl_awaitingSession c \<longrightarrow> cl_retryTimer (client_do mo ISessionSaved c) \<noteq> None)
      \<and> (cl_link c \<noteq> Open \<longrightarrow> ss_roomId (cl_view c) = None \<and> ss_partner (cl_view c) = None \<and> ss_messages (cl_view c) = [])"
proof -
  have ok: "client_ok c" using client_reaches_ok [OF assms(1) new_client_ok] .
  show ?thesis
  proof (cases "is_terminal (ss_status (cl_view c))")
    case True
    then show ?thesis using ok assms(2) by (auto simp: client_ok_def)
  next
    case False
    have "cl_link (retry_fires c) \<noteq> Closed" if "cl_retryTimer c \<noteq> None"
      using that ok assms(2) False by (auto simp: retry_fires_def client_ok_def Let_def)
    moreover have "cl_retryTimer (session_saved mo c) \<noteq> None" if "cl_awaitingSession c"
      using that ok assms(2) False by (auto simp: session_saved_def client_ok_def reconnectLater_timer)
    moreover have "\<not> roomy (ss_status (cl_view c))" if "cl_link c \<noteq> Open"
      using that ok assms(2) by (auto simp: client_ok_def offline_status_def roomy_def is_terminal_def)
    ultimately show ?thesis using ok assms(2) False by (auto simp: client_ok_def view_ok_def)
  qed
qed

section \<open>Witnesses\<close>

definition some_moment :: moment where
  "some_moment = \<lparr>mo_now = 1000, mo_r1 = 1 / 2, mo_r2 = 0, mo_onLine = True, mo_tr = (\<lambda>k. k), mo_hello_issue = None\<rparr>"

definition some_preferences :: preferences where
  "some_preferences = \<lparr>genderFilter = AllGenders, languageFilter = ''any''\<rparr>"

text \<open>A client that connects and is cut off.\<close>

definition cut_off :: client where
  "cut_off = client_do some_moment IDisconnected (client_do some_moment IConnected
     (client_do some_moment IMount (new_client some_preferences preview)))"

lemma cut_off_reached: "client_reaches (new_client some_preferences preview) cut_off"
  unfolding cut_off_def
  by (intro client_reaches.intros)
    (simp_all add: new_client_def mount_def on_connect_def sayHello_def some_moment_def Let_def)

lemma cut_off_state: "cl_mounted cut_off \<and> cl_link cut_off = Closed \<and> \<not> is_terminal (ss_status (cl_view cut_off))"
  by (simp add: cut_off_def new_client_def mount_def on_connect_def sayHello_def some_moment_def Let_def on_disconnect_def
      reconnectLater_view dispatch_view after_disconnect signalingReducer_def initialSignalingState_def)

theorem client_never_stuck_witness:
  "ss_roomId (cl_view cut_off) = None \<and> (cl_awaitingSession cut_off \<or> (\<exists>t. cl_retryTimer cut_off = Some t))"
  using client_never_stuck [OF cut_off_reached, of some_moment] cut_off_state by auto

theorem shown_state_is_consistent_witness:
  "run_events (\<lambda>k. k) initialSignalingState [(0, EvMatchEnded ''r'' Timeout)] = initialSignalingState"
  using shown_state_is_consistent [of "\<lambda>k. k" "[]" "EvMatchEnded ''r'' Timeout" "''r''" 0]
  by (simp add: run_events_def initialSignalingState_def)

end
