(* ===== verification/PeerSession.thy ===== *)
theory PeerSession
  imports ClientState
begin

text \<open>
  One peer connection for one call (\<open>new-frontend/src/lib/peerSession.ts\<close>, class \<open>PeerSession\<close>) and the decision to
  open it (\<open>hooks/usePeerConnection.ts\<close>). The signalling steps of a session run one after the other (its
  promise chain), so a session is its state and the queue of its tasks. The browser's \<open>RTCPeerConnection\<close> is there as
  its signalling state, which moves as its standard says, and as the \<open>fates\<close> of the operations a task awaits: it
  settles, it throws, or the session is closed in the meantime.
\<close>

section \<open>Opening a call\<close>

datatype transport_policy = RelayOnly | AnyPath

record rtc_configuration =
  rc_iceServers :: "ice_server list"
  rc_policy :: transport_policy

definition rtcConfiguration :: "ice_server list \<Rightarrow> bool \<Rightarrow> rtc_configuration" where
  "rtcConfiguration ice privateMode = \<lparr>rc_iceServers = ice, rc_policy = (if privateMode then RelayOnly else AnyPath)\<rparr>"

definition is_turn_url :: "string \<Rightarrow> bool" where
  "is_turn_url u =
     (let l = map lower_char u in
      take 5 l = ''turn:'' \<or> take 6 l = ''turns:'')"

definition hasTurnServer :: "ice_server list \<Rightarrow> bool" where
  "hasTurnServer ice = list_ex (\<lambda>s. list_ex is_turn_url (urls s)) ice"

record call_options =
  co_roomId :: string
  co_initiator :: bool
  co_iceServers :: "ice_server list"
  co_media :: "call_media option"
  co_hideIp :: bool
  co_directAllowedFor :: "string option"

datatype call_decision = PrivateBlocked | OpenCall rtc_configuration

definition call_servers :: "call_options \<Rightarrow> ice_server list" where
  "call_servers opts = (case co_media opts of
      Some m \<Rightarrow> if cm_iceServers m \<noteq> [] then cm_iceServers m else co_iceServers opts
    | None \<Rightarrow> co_iceServers opts)"

definition begin_call :: "call_options \<Rightarrow> call_decision" where
  "begin_call opts =
     (let ice = call_servers opts;
          permitted = (case co_media opts of Some m \<Rightarrow> cm_privateModeAllowed m | None \<Rightarrow> False);
          isPrivate = (co_hideIp opts \<and> permitted \<and> hasTurnServer ice) in
      if co_hideIp opts \<and> \<not> isPrivate \<and> co_directAllowedFor opts \<noteq> Some (co_roomId opts) then PrivateBlocked
      else OpenCall (rtcConfiguration ice isPrivate))"

section \<open>The session\<close>

datatype pc_signaling = Stable | HaveLocalOffer | HaveRemoteOffer

datatype connection_state = CNew | CConnecting | CConnected | CDisconnected | CFailed | CClosed

datatype fate = Settles | Rejects | ClosedMeanwhile

datatype track_kind = AudioTrack | VideoTrack

type_synonym track = "track_kind \<times> nat"

datatype remote_stream = TheirStream nat | OwnStream "track list"

datatype peer_task = TStart | TRestart | TSignal signal_body

record peer =
  pe_roomId :: string
  pe_initiator :: bool
  pe_policy :: transport_policy
  pe_signaling :: pc_signaling
  pe_pendingCandidates :: "ice_candidate list"
  pe_hasRemoteDescription :: bool
  pe_handed :: "ice_candidate list"
  pe_chain :: "peer_task list"
  pe_remoteStream :: "remote_stream option"
  pe_closed :: bool
  pe_videoSender :: "track option option"
  pe_audioSender :: "track option option"
  pe_cameraTrack :: "track option"
  pe_paused :: bool
  pe_placeholder :: "track option"
  pe_recvonly :: "track_kind list"
  pe_iceRestarted :: bool
  pe_states :: "connection_state list"
  pe_sent :: "rtc_signal list"

definition last_of :: "track_kind \<Rightarrow> track list \<Rightarrow> track option" where
  "last_of k ts = (let own = filter (\<lambda>t. fst t = k) ts in if own = [] then None else Some (last own))"

definition new_peer :: "string \<Rightarrow> bool \<Rightarrow> rtc_configuration \<Rightarrow> track list option \<Rightarrow> peer" where
  "new_peer rid init conf stream =
     (let ts = (case stream of Some ts \<Rightarrow> ts | None \<Rightarrow> []);
          sender = (\<lambda>k. map_option Some (last_of k ts)) in
      \<lparr>pe_roomId = rid, pe_initiator = init, pe_policy = rc_policy conf, pe_signaling = Stable,
       pe_pendingCandidates = [], pe_hasRemoteDescription = False, pe_handed = [], pe_chain = [],
       pe_remoteStream = None, pe_closed = False, pe_videoSender = sender VideoTrack,
       pe_audioSender = sender AudioTrack, pe_cameraTrack = last_of VideoTrack ts, pe_paused = False,
       pe_placeholder = None,
       pe_recvonly = (if last_of AudioTrack ts = None then [AudioTrack] else [])
         @ (if last_of VideoTrack ts = None then [VideoTrack] else []),
       pe_iceRestarted = False, pe_states = [], pe_sent = []\<rparr>)"

definition pe_close :: "peer \<Rightarrow> peer" where
  "pe_close p = (if pe_closed p then p else p\<lparr>pe_closed := True, pe_pendingCandidates := []\<rparr>)"

definition pe_enqueue :: "peer_task \<Rightarrow> peer \<Rightarrow> peer" where
  "pe_enqueue t p = p\<lparr>pe_chain := pe_chain p @ [t]\<rparr>"

definition pe_start :: "peer \<Rightarrow> peer" where
  "pe_start p = (if pe_initiator p then pe_enqueue TStart p else p)"

definition pe_restartIce :: "peer \<Rightarrow> peer" where
  "pe_restartIce p = (if pe_initiator p then pe_enqueue TRestart p else p)"

definition pe_handleSignal :: "rtc_signal \<Rightarrow> peer \<Rightarrow> peer" where
  "pe_handleSignal s p = (if sig_roomId s \<noteq> pe_roomId p then p else pe_enqueue (TSignal (sig_body s)) p)"

definition pe_onicecandidate :: "ice_candidate option \<Rightarrow> peer \<Rightarrow> peer" where
  "pe_onicecandidate c p =
     (case c of
        None \<Rightarrow> p
      | Some x \<Rightarrow>
          if pe_closed p then p
          else p\<lparr>pe_sent := pe_sent p @ [\<lparr>sig_roomId = pe_roomId p, sig_body = Candidate x\<rparr>]\<rparr>)"

definition pe_ontrack :: "nat option \<Rightarrow> track \<Rightarrow> peer \<Rightarrow> peer" where
  "pe_ontrack stream t p =
     (if pe_closed p then p
      else case stream of
        Some s \<Rightarrow> p\<lparr>pe_remoteStream := Some (TheirStream s)\<rparr>
      | None \<Rightarrow>
          (case pe_remoteStream p of
             None \<Rightarrow> p\<lparr>pe_remoteStream := Some (OwnStream [t])\<rparr>
           | Some (OwnStream ts) \<Rightarrow> if t \<in> set ts then p else p\<lparr>pe_remoteStream := Some (OwnStream (ts @ [t]))\<rparr>
           | Some (TheirStream s) \<Rightarrow> p))"

definition pe_onconnectionstatechange :: "connection_state \<Rightarrow> peer \<Rightarrow> peer" where
  "pe_onconnectionstatechange st p =
     (if pe_closed p then p
      else
        let p1 = (if st = CFailed \<and> pe_initiator p \<and> \<not> pe_iceRestarted p
                  then pe_restartIce (p\<lparr>pe_iceRestarted := True\<rparr>) else p) in
        p1\<lparr>pe_states := pe_states p1 @ [st]\<rparr>)"

section \<open>Tasks\<close>

definition sendDescription :: "sdp_type \<Rightarrow> string \<Rightarrow> peer \<Rightarrow> peer" where
  "sendDescription ty sdp p =
     (if pe_closed p \<or> sdp = '''' then p
      else p\<lparr>pe_sent := pe_sent p @ [\<lparr>sig_roomId = pe_roomId p, sig_body = Description ty sdp\<rparr>]\<rparr>)"

text \<open>Create a description, set it and send it: the same steps for a first offer, a restart and an answer.\<close>

definition describe :: "fate \<Rightarrow> fate \<Rightarrow> sdp_type \<Rightarrow> string \<Rightarrow> pc_signaling \<Rightarrow> peer \<Rightarrow> peer" where
  "describe created was_set ty sdp after p =
     (case created of
        Rejects \<Rightarrow> p
      | ClosedMeanwhile \<Rightarrow> pe_close p
      | Settles \<Rightarrow>
          (case was_set of
             Rejects \<Rightarrow> p
           | ClosedMeanwhile \<Rightarrow> pe_close p
           | Settles \<Rightarrow> sendDescription ty sdp (p\<lparr>pe_signaling := after\<rparr>)))"

definition onRemoteDescriptionSet :: "peer \<Rightarrow> peer" where
  "onRemoteDescriptionSet p =
     p\<lparr>pe_hasRemoteDescription := True, pe_handed := pe_handed p @ pe_pendingCandidates p, pe_pendingCandidates := []\<rparr>"

definition handleDescription :: "fate \<Rightarrow> fate \<Rightarrow> fate \<Rightarrow> string \<Rightarrow> sdp_type \<Rightarrow> peer \<Rightarrow> peer" where
  "handleDescription f1 f2 f3 sdp ty p =
     (if ty = Offer then
        if pe_initiator p \<or> pe_signaling p \<noteq> Stable then p
        else case f1 of
          Rejects \<Rightarrow> p
        | ClosedMeanwhile \<Rightarrow> onRemoteDescriptionSet (pe_close p)
        | Settles \<Rightarrow> describe f2 f3 Answer sdp Stable (onRemoteDescriptionSet (p\<lparr>pe_signaling := HaveRemoteOffer\<rparr>))
      else
        if pe_signaling p \<noteq> HaveLocalOffer then p
        else case f1 of
          Rejects \<Rightarrow> p
        | ClosedMeanwhile \<Rightarrow> onRemoteDescriptionSet (pe_close p)
        | Settles \<Rightarrow> onRemoteDescriptionSet (p\<lparr>pe_signaling := Stable\<rparr>))"

definition handleCandidate :: "ice_candidate \<Rightarrow> peer \<Rightarrow> peer" where
  "handleCandidate c p =
     (if \<not> pe_hasRemoteDescription p then p\<lparr>pe_pendingCandidates := pe_pendingCandidates p @ [c]\<rparr>
      else p\<lparr>pe_handed := pe_handed p @ [c]\<rparr>)"

text \<open>One task, with the fates of what it awaits and the description the browser creates for it.\<close>

fun run_task :: "fate \<Rightarrow> fate \<Rightarrow> fate \<Rightarrow> string \<Rightarrow> peer_task \<Rightarrow> peer \<Rightarrow> peer" where
  "run_task f1 f2 f3 sdp TStart p = describe f1 f2 Offer sdp HaveLocalOffer p"
| "run_task f1 f2 f3 sdp TRestart p =
     (if pe_signaling p \<noteq> Stable then p else describe f1 f2 Offer sdp HaveLocalOffer p)"
| "run_task f1 f2 f3 sdp (TSignal (Description ty remote)) p = handleDescription f1 f2 f3 sdp ty p"
| "run_task f1 f2 f3 sdp (TSignal (Candidate c)) p = handleCandidate c p"

text \<open>The promise chain: its first task runs unless the session is closed.\<close>

definition pe_next :: "fate \<Rightarrow> fate \<Rightarrow> fate \<Rightarrow> string \<Rightarrow> peer \<Rightarrow> peer" where
  "pe_next f1 f2 f3 sdp p =
     (case pe_chain p of
        [] \<Rightarrow> p
      | t # ts \<Rightarrow>
          let p1 = p\<lparr>pe_chain := ts\<rparr> in if pe_closed p then p1 else run_task f1 f2 f3 sdp t p1)"

section \<open>The tracks that are sent\<close>

text \<open>The flag says whether \<open>replaceTrack\<close> succeeds.\<close>

definition syncVideo :: "bool \<Rightarrow> peer \<Rightarrow> peer" where
  "syncVideo replaced p =
     (if pe_closed p then p
      else case pe_videoSender p of
        None \<Rightarrow> p
      | Some now_sent \<Rightarrow>
          let wanted = (if pe_paused p then pe_placeholder p else pe_cameraTrack p) in
          if now_sent = wanted \<or> \<not> replaced then p else p\<lparr>pe_videoSender := Some wanted\<rparr>)"

definition setVideoPaused :: "bool \<Rightarrow> bool \<Rightarrow> track option \<Rightarrow> peer \<Rightarrow> peer" where
  "setVideoPaused replaced is_paused placeholder p =
     syncVideo replaced (p\<lparr>pe_paused := is_paused, pe_placeholder := placeholder\<rparr>)"

definition first_of :: "track_kind \<Rightarrow> track list \<Rightarrow> track option" where
  "first_of k ts = find (\<lambda>t. fst t = k) ts"

definition setLocalStream :: "bool \<Rightarrow> bool \<Rightarrow> track list option \<Rightarrow> peer \<Rightarrow> peer" where
  "setLocalStream replaced_audio replaced_video stream p =
     (case stream of
        None \<Rightarrow> p
      | Some ts \<Rightarrow>
          if pe_closed p then p
          else
            let p1 = (case (first_of AudioTrack ts, pe_audioSender p) of
                        (Some a, Some t) \<Rightarrow> if t \<noteq> Some a \<and> replaced_audio then p\<lparr>pe_audioSender := Some (Some a)\<rparr> else p
                      | _ \<Rightarrow> p);
                p2 = (case first_of VideoTrack ts of Some v \<Rightarrow> p1\<lparr>pe_cameraTrack := Some v\<rparr> | None \<Rightarrow> p1) in
            syncVideo replaced_video p2)"

end
