(* ===== verification/PeerTheorems.thy ===== *)
theory PeerTheorems
  imports PeerSession "HOL-Library.Sublist"
begin

text \<open>
  What a call's session does over any sequence of events: whose descriptions it sends, which candidates it hands to
  the browser and in which order, and when an address of the user may leave at all.
\<close>

datatype peer_event =
  PStart | PRestart | PSignal rtc_signal | PNext fate fate fate string | PIce "ice_candidate option"
| PState connection_state | PTrack "nat option" track | PPause bool bool "track option"
| PStream bool bool "track list option" | PClose

fun peer_do :: "peer_event \<Rightarrow> peer \<Rightarrow> peer" where
  "peer_do PStart p = pe_start p"
| "peer_do PRestart p = pe_restartIce p"
| "peer_do (PSignal s) p = pe_handleSignal s p"
| "peer_do (PNext f1 f2 f3 sdp) p = pe_next f1 f2 f3 sdp p"
| "peer_do (PIce c) p = pe_onicecandidate c p"
| "peer_do (PState st) p = pe_onconnectionstatechange st p"
| "peer_do (PTrack s t) p = pe_ontrack s t p"
| "peer_do (PPause r b t) p = setVideoPaused r b t p"
| "peer_do (PStream ra rv ts) p = setLocalStream ra rv ts p"
| "peer_do PClose p = pe_close p"

definition peer_run :: "peer_event list \<Rightarrow> peer \<Rightarrow> peer" where
  "peer_run evs p = foldl (\<lambda>p e. peer_do e p) p evs"

text \<open>The candidates that arrived for a room, in order, and those still in the chain.\<close>

fun arrived :: "string \<Rightarrow> peer_event list \<Rightarrow> ice_candidate list" where
  "arrived rid [] = []"
| "arrived rid (PSignal s # es) =
     (case sig_body s of Candidate c \<Rightarrow> if sig_roomId s = rid then [c] else [] | _ \<Rightarrow> []) @ arrived rid es"
| "arrived rid (_ # es) = arrived rid es"

lemma arrived_append [simp]: "arrived rid (es @ fs) = arrived rid es @ arrived rid fs"
  by (induction rid es rule: arrived.induct) auto

fun queued_candidates :: "peer_task list \<Rightarrow> ice_candidate list" where
  "queued_candidates [] = []"
| "queued_candidates (TSignal (Candidate c) # ts) = c # queued_candidates ts"
| "queued_candidates (_ # ts) = queued_candidates ts"

lemma queued_append [simp]: "queued_candidates (ts @ us) = queued_candidates ts @ queued_candidates us"
  by (induction ts rule: queued_candidates.induct) auto

section \<open>The invariant\<close>

text \<open>A first offer is still to come only while nothing has been negotiated.\<close>

definition start_first :: "peer \<Rightarrow> bool" where
  "start_first p \<longleftrightarrow> TStart \<in> set (pe_chain p) \<longrightarrow>
     pe_initiator p \<and> pe_signaling p = Stable \<and> (\<exists>ss ts. pe_chain p = map TSignal ss @ TStart # ts \<and> TStart \<notin> set ts)"

definition peer_ok :: "string \<Rightarrow> bool \<Rightarrow> ice_candidate list \<Rightarrow> peer \<Rightarrow> bool" where
  "peer_ok rid init cs p \<longleftrightarrow>
     pe_roomId p = rid \<and> pe_initiator p = init
   \<and> (\<forall>s \<in> set (pe_sent p). sig_roomId s = rid
        \<and> (case sig_body s of Description ty sdp \<Rightarrow> (ty = Offer \<longleftrightarrow> init) \<and> sdp \<noteq> '''' | Candidate c \<Rightarrow> True))
   \<and> (\<not> pe_closed p \<longrightarrow> pe_handed p @ pe_pendingCandidates p @ queued_candidates (pe_chain p) = cs)
   \<and> (pe_closed p \<longrightarrow> pe_pendingCandidates p = [])
   \<and> prefix (pe_handed p) cs
   \<and> (pe_handed p \<noteq> [] \<longrightarrow> pe_hasRemoteDescription p)
   \<and> (pe_hasRemoteDescription p \<longrightarrow> pe_pendingCandidates p = [])
   \<and> (\<not> init \<longrightarrow> TStart \<notin> set (pe_chain p) \<and> TRestart \<notin> set (pe_chain p))"

lemma close_ok: "peer_ok rid init cs p \<Longrightarrow> peer_ok rid init cs (pe_close p)"
  by (simp add: pe_close_def peer_ok_def)

lemma send_ok:
  "peer_ok rid init cs p \<Longrightarrow> (ty = Offer) = init \<Longrightarrow> peer_ok rid init cs (sendDescription ty sdp p)"
  by (simp add: sendDescription_def peer_ok_def)

lemma signaling_ok: "peer_ok rid init cs (p\<lparr>pe_signaling := s\<rparr>) \<longleftrightarrow> peer_ok rid init cs p"
  by (simp add: peer_ok_def)

lemma describe_ok:
  "peer_ok rid init cs p \<Longrightarrow> (ty = Offer) = init \<Longrightarrow> peer_ok rid init cs (describe f1 f2 ty sdp after p)"
  by (auto simp: describe_def signaling_ok intro: send_ok close_ok split: fate.splits)

lemma remote_set_ok: "peer_ok rid init cs p \<Longrightarrow> peer_ok rid init cs (onRemoteDescriptionSet p)"
  by (cases "pe_closed p") (auto simp: onRemoteDescriptionSet_def peer_ok_def prefix_def)

lemma drop_task_ok:
  assumes "peer_ok rid init cs p" "pe_chain p = t # ts" "queued_candidates [t] = [] \<or> pe_closed p"
  shows "peer_ok rid init cs (p\<lparr>pe_chain := ts\<rparr>)"
proof -
  have "queued_candidates (t # ts) = queued_candidates [t] @ queued_candidates ts"
    using queued_append [of "[t]" ts] by simp
  then show ?thesis using assms by (auto simp: peer_ok_def)
qed

lemma handleDescription_ok:
  "peer_ok rid init cs p \<Longrightarrow> peer_ok rid init cs (handleDescription f1 f2 f3 sdp ty p)"
  by (auto simp: handleDescription_def signaling_ok intro!: describe_ok remote_set_ok close_ok split: fate.splits)
    (auto simp: peer_ok_def)

lemma candidate_task_ok:
  assumes "peer_ok rid init cs p" "pe_chain p = TSignal (Candidate c) # ts" "\<not> pe_closed p"
  shows "peer_ok rid init cs (handleCandidate c (p\<lparr>pe_chain := ts\<rparr>))"
  using assms by (auto simp: handleCandidate_def peer_ok_def prefix_def)

lemma pe_next_ok:
  assumes ok: "peer_ok rid init cs p"
  shows "peer_ok rid init cs (pe_next f1 f2 f3 sdp p)"
proof (cases "pe_chain p")
  case Nil
  then show ?thesis using ok by (simp add: pe_next_def)
next
  case (Cons t ts)
  show ?thesis
  proof (cases "pe_closed p")
    case True
    then show ?thesis using drop_task_ok [OF ok Cons] Cons by (simp add: pe_next_def)
  next
    case False
    have i: "t = TStart \<or> t = TRestart \<Longrightarrow> init" using ok Cons by (auto simp: peer_ok_def)
    show ?thesis
    proof (cases t)
      case TStart
      then show ?thesis using drop_task_ok [OF ok Cons] Cons False i by (auto simp: pe_next_def intro: describe_ok)
    next
      case TRestart
      then show ?thesis using drop_task_ok [OF ok Cons] Cons False i
        by (auto simp: pe_next_def Let_def intro: describe_ok)
    next
      case (TSignal b)
      then show ?thesis
      proof (cases b)
        case (Description ty sdp')
        then show ?thesis using drop_task_ok [OF ok Cons] Cons False TSignal
          by (auto simp: pe_next_def intro: handleDescription_ok)
      next
        case (Candidate c)
        then show ?thesis using candidate_task_ok [OF ok] Cons False TSignal by (auto simp: pe_next_def)
      qed
    qed
  qed
qed

lemma enqueue_ok:
  assumes "peer_ok rid init cs p" "t = TStart \<or> t = TRestart \<Longrightarrow> init"
  shows "peer_ok rid init (cs @ queued_candidates [t]) (pe_enqueue t p)"
  using assms by (auto simp: peer_ok_def pe_enqueue_def)

lemma media_fields_ok:
  "peer_ok rid init cs (p\<lparr>pe_paused := b, pe_placeholder := t\<rparr>) \<longleftrightarrow> peer_ok rid init cs p"
  "peer_ok rid init cs (p\<lparr>pe_audioSender := t'\<rparr>) \<longleftrightarrow> peer_ok rid init cs p"
  "peer_ok rid init cs (p\<lparr>pe_cameraTrack := t\<rparr>) \<longleftrightarrow> peer_ok rid init cs p"
  "peer_ok rid init cs (p\<lparr>pe_remoteStream := rs\<rparr>) \<longleftrightarrow> peer_ok rid init cs p"
  "peer_ok rid init cs (p\<lparr>pe_states := st\<rparr>) \<longleftrightarrow> peer_ok rid init cs p"
  "peer_ok rid init cs (p\<lparr>pe_iceRestarted := b\<rparr>) \<longleftrightarrow> peer_ok rid init cs p"
  "peer_ok rid init cs (p\<lparr>pe_videoSender := t'\<rparr>) \<longleftrightarrow> peer_ok rid init cs p"
  by (simp_all add: peer_ok_def)

lemma syncVideo_frame [simp]: "peer_ok rid init cs (syncVideo r p) \<longleftrightarrow> peer_ok rid init cs p"
  by (simp add: syncVideo_def media_fields_ok Let_def split: option.split)

lemma peer_ok_initiator: "peer_ok rid init cs p \<Longrightarrow> pe_initiator p = init"
  by (simp add: peer_ok_def)

lemma restart_ok: "peer_ok rid init cs p \<Longrightarrow> peer_ok rid init cs (pe_restartIce p)"
  using enqueue_ok [of rid init cs p TRestart] peer_ok_initiator [of rid init cs p]
  by (cases init) (simp_all add: pe_restartIce_def)

lemma peer_do_ok:
  assumes ok: "peer_ok rid init cs p"
  shows "peer_ok rid init (cs @ arrived rid [e]) (peer_do e p)"
proof (cases e)
  case PStart
  then show ?thesis using enqueue_ok [OF ok, of TStart] ok peer_ok_initiator [OF ok]
    by (cases init) (simp_all add: pe_start_def)
next
  case PRestart
  then show ?thesis using restart_ok [OF ok] by simp
next
  case (PSignal s)
  have "pe_roomId p = rid" using ok by (simp add: peer_ok_def)
  then show ?thesis
    using PSignal ok enqueue_ok [OF ok, of "TSignal (sig_body s)"]
    by (cases "sig_body s") (auto simp: pe_handleSignal_def)
next
  case (PNext f1 f2 f3 sdp)
  then show ?thesis using pe_next_ok [OF ok] by simp
next
  case (PIce c)
  then show ?thesis using ok by (auto simp: pe_onicecandidate_def peer_ok_def split: option.splits)
next
  case (PState st)
  then show ?thesis using ok
    by (auto simp: pe_onconnectionstatechange_def Let_def media_fields_ok intro: restart_ok)
next
  case (PTrack s t)
  then show ?thesis using ok
    by (auto simp: pe_ontrack_def media_fields_ok split: option.splits remote_stream.splits)
next
  case (PPause r b t)
  then show ?thesis using ok by (simp add: setVideoPaused_def media_fields_ok)
next
  case (PStream ra rv ts)
  then show ?thesis using ok by (simp add: setLocalStream_def media_fields_ok Let_def split: option.splits)
next
  case PClose
  then show ?thesis using close_ok [OF ok] by simp
qed

lemma peer_run_snoc: "peer_run (es @ [e]) p = peer_do e (peer_run es p)"
  by (simp add: peer_run_def)

lemma new_peer_ok: "peer_ok rid init [] (new_peer rid init conf stream)"
  by (simp add: peer_ok_def new_peer_def Let_def)

lemma peer_run_ok: "peer_ok rid init (arrived rid es) (peer_run es (new_peer rid init conf stream))"
proof (induction es rule: rev_induct)
  case Nil
  then show ?case using new_peer_ok by (simp add: peer_run_def)
next
  case (snoc e es)
  then show ?case using peer_do_ok by (simp add: peer_run_snoc)
qed

section \<open>Offers, and silence after the end\<close>

definition is_offer :: "rtc_signal \<Rightarrow> bool" where
  "is_offer s = (case sig_body s of Description ty sdp \<Rightarrow> ty = Offer | Candidate c \<Rightarrow> False)"

lemma describe_frame [simp]:
  "pe_policy (describe f1 f2 ty sdp after p) = pe_policy p" "pe_chain (describe f1 f2 ty sdp after p) = pe_chain p"
  by (auto simp: describe_def sendDescription_def pe_close_def split: fate.splits)

lemma remote_set_frame [simp]:
  "pe_policy (onRemoteDescriptionSet p) = pe_policy p" "pe_chain (onRemoteDescriptionSet p) = pe_chain p"
  "pe_sent (onRemoteDescriptionSet p) = pe_sent p" "pe_signaling (onRemoteDescriptionSet p) = pe_signaling p"
  by (simp_all add: onRemoteDescriptionSet_def)

lemma close_frame [simp]:
  "pe_policy (pe_close p) = pe_policy p" "pe_chain (pe_close p) = pe_chain p" "pe_sent (pe_close p) = pe_sent p"
  "pe_signaling (pe_close p) = pe_signaling p"
  by (simp_all add: pe_close_def)

lemma task_frame:
  "pe_policy (run_task f1 f2 f3 sdp t p) = pe_policy p \<and> pe_chain (run_task f1 f2 f3 sdp t p) = pe_chain p"
  by (cases "(f1, f2, f3, sdp, t, p)" rule: run_task.cases)
    (auto simp: Let_def handleDescription_def handleCandidate_def split: fate.splits)

lemma sync_frame [simp]:
  "pe_policy (syncVideo r p) = pe_policy p" "pe_chain (syncVideo r p) = pe_chain p"
  "pe_sent (syncVideo r p) = pe_sent p" "pe_signaling (syncVideo r p) = pe_signaling p"
  by (auto simp: syncVideo_def Let_def split: option.splits)

lemma stream_frame [simp]:
  "pe_policy (setLocalStream ra rv ts p) = pe_policy p" "pe_chain (setLocalStream ra rv ts p) = pe_chain p"
  "pe_sent (setLocalStream ra rv ts p) = pe_sent p" "pe_signaling (setLocalStream ra rv ts p) = pe_signaling p"
  by (auto simp: setLocalStream_def Let_def split: option.splits)

lemma track_frame [simp]:
  "pe_policy (pe_ontrack st t p) = pe_policy p" "pe_chain (pe_ontrack st t p) = pe_chain p"
  "pe_sent (pe_ontrack st t p) = pe_sent p" "pe_signaling (pe_ontrack st t p) = pe_signaling p"
  by (auto simp: pe_ontrack_def split: option.splits remote_stream.splits)

lemma chain_frame [simp]:
  "pe_policy (pe_enqueue t p) = pe_policy p" "pe_sent (pe_enqueue t p) = pe_sent p" "pe_signaling (pe_enqueue t p) = pe_signaling p"
  "pe_policy (pe_restartIce p) = pe_policy p" "pe_sent (pe_restartIce p) = pe_sent p"
  "pe_signaling (pe_restartIce p) = pe_signaling p"
  by (simp_all add: pe_enqueue_def pe_restartIce_def)

lemma peer_do_policy: "pe_policy (peer_do e p) = pe_policy p"
  by (cases e)
    (auto simp: pe_start_def pe_handleSignal_def pe_next_def task_frame pe_onicecandidate_def
      pe_onconnectionstatechange_def Let_def setVideoPaused_def split: option.splits list.splits)

lemma peer_run_policy: "pe_policy (peer_run es p) = pe_policy p"
  by (induction es rule: rev_induct) (simp_all add: peer_run_snoc peer_do_policy, simp add: peer_run_def)

lemma closed_is_silent: "pe_closed p \<Longrightarrow> pe_sent (peer_do e p) = pe_sent p"
  by (cases e)
    (auto simp: pe_start_def pe_handleSignal_def pe_next_def pe_onicecandidate_def
      pe_onconnectionstatechange_def Let_def setVideoPaused_def split: option.splits list.splits)

text \<open>Everything that sends a description runs from the chain.\<close>

lemma only_tasks_describe:
  assumes "pe_sent (peer_do e p) = pe_sent p @ [s]" "is_offer s"
  shows "\<exists>f1 f2 f3 sdp. e = PNext f1 f2 f3 sdp"
  using assms
  by (cases e)
    (auto simp: pe_start_def pe_handleSignal_def pe_onicecandidate_def is_offer_def
      pe_onconnectionstatechange_def Let_def setVideoPaused_def split: option.splits if_splits)

lemma offer_from_stable:
  assumes "start_first p" "pe_sent (pe_next f1 f2 f3 sdp p) = pe_sent p @ [s]" "is_offer s"
  shows "pe_signaling p = Stable"
proof (cases "pe_chain p")
  case Nil
  then show ?thesis using assms(2) by (simp add: pe_next_def)
next
  case (Cons t ts)
  show ?thesis
  proof (cases t)
    case TStart
    then show ?thesis using assms(1) Cons by (simp add: start_first_def)
  next
    case TRestart
    then show ?thesis using assms(2) Cons by (auto simp: pe_next_def Let_def split: if_splits)
  next
    case (TSignal b)
    then show ?thesis using assms(2,3) Cons
      by (cases b) (auto simp: pe_next_def Let_def handleDescription_def handleCandidate_def describe_def
          sendDescription_def is_offer_def split: if_splits fate.splits)
  qed
qed

lemma start_first_enqueue: "start_first p \<Longrightarrow> t \<noteq> TStart \<Longrightarrow> start_first (pe_enqueue t p)"
proof -
  have "map TSignal ss @ TStart # us @ [t] = map TSignal ss @ TStart # (us @ [t])" for ss us by simp
  then show "start_first p \<Longrightarrow> t \<noteq> TStart \<Longrightarrow> start_first (pe_enqueue t p)"
    unfolding start_first_def pe_enqueue_def by (fastforce simp del: map_eq_append_conv)
qed

lemma start_first_cong:
  "pe_chain q = pe_chain p \<Longrightarrow> pe_signaling q = pe_signaling p \<Longrightarrow> pe_initiator q = pe_initiator p \<Longrightarrow> start_first p \<Longrightarrow> start_first q"
  by (simp add: start_first_def)

lemma signal_keeps_stable:
  assumes "pe_initiator p" "pe_signaling p = Stable"
  shows "pe_signaling (run_task f1 f2 f3 sdp (TSignal b) p) = Stable"
  using assms by (cases b) (auto simp: handleDescription_def handleCandidate_def)

lemma pe_next_start_first:
  assumes "start_first p" "pe_initiator (pe_next f1 f2 f3 sdp p) = pe_initiator p"
  shows "start_first (pe_next f1 f2 f3 sdp p)"
proof (cases "TStart \<in> set (pe_chain p)")
  case False
  then have "TStart \<notin> set (pe_chain (pe_next f1 f2 f3 sdp p))"
    by (auto simp: pe_next_def Let_def task_frame split: list.splits)
  then show ?thesis by (simp add: start_first_def)
next
  case True
  then obtain ss ts where st: "pe_initiator p" "pe_signaling p = Stable" and c: "pe_chain p = map TSignal ss @ TStart # ts"
      and no: "TStart \<notin> set ts" using assms(1) by (auto simp: start_first_def)
  show ?thesis
  proof (cases ss)
    case Nil
    then have "pe_chain (pe_next f1 f2 f3 sdp p) = ts" using c by (simp add: pe_next_def Let_def task_frame)
    then show ?thesis using no by (simp add: start_first_def)
  next
    case (Cons b bs)
    have "pe_chain (pe_next f1 f2 f3 sdp p) = map TSignal bs @ TStart # ts"
      using c Cons by (simp add: pe_next_def Let_def task_frame)
    moreover have "pe_signaling (pe_next f1 f2 f3 sdp p) = Stable"
      using c Cons st signal_keeps_stable [of "p\<lparr>pe_chain := map TSignal bs @ TStart # ts\<rparr>"] by (simp add: pe_next_def Let_def)
    ultimately show ?thesis using no assms(2) st(1) by (auto simp: start_first_def)
  qed
qed

lemma peer_do_start_first:
  assumes "start_first p" "e \<noteq> PStart" "pe_initiator (peer_do e p) = pe_initiator p"
  shows "start_first (peer_do e p)"
proof (cases e)
  case (PNext f1 f2 f3 sdp)
  then show ?thesis using assms pe_next_start_first by simp
next
  case (PSignal s)
  then show ?thesis using assms(1) by (simp add: pe_handleSignal_def start_first_enqueue)
next
  case PRestart
  then show ?thesis using assms(1) by (simp add: pe_restartIce_def start_first_enqueue)
next
  case (PState st)
  have "start_first (p\<lparr>pe_iceRestarted := True\<rparr>)" by (rule start_first_cong [OF _ _ _ assms(1)]) simp_all
  then have "start_first (pe_restartIce (p\<lparr>pe_iceRestarted := True\<rparr>))"
    by (simp add: pe_restartIce_def start_first_enqueue)
  then show ?thesis using PState assms(1)
    by (auto simp: pe_onconnectionstatechange_def Let_def intro: start_first_cong [rotated 3])
next
  case (PIce c)
  then show ?thesis using assms by (auto simp: pe_onicecandidate_def start_first_def split: option.splits)
next
  case (PTrack s t)
  then show ?thesis using assms start_first_cong [OF _ _ _ assms(1)] by simp
next
  case (PPause r b t)
  then show ?thesis using assms start_first_cong [OF _ _ _ assms(1)] by (simp add: setVideoPaused_def)
next
  case (PStream ra rv ts)
  then show ?thesis using assms start_first_cong [OF _ _ _ assms(1)] by simp
next
  case PClose
  then show ?thesis using assms start_first_cong [OF _ _ _ assms(1)] by simp
qed (use assms in simp)

text \<open>How a call is set up: the signals that came early are replayed, then the session is started, once.\<close>

definition call_events :: "rtc_signal list \<Rightarrow> peer_event list \<Rightarrow> peer_event list" where
  "call_events early es = map PSignal early @ PStart # es"

lemma early_chain:
  "\<exists>bs. pe_chain (peer_run (map PSignal early) (new_peer rid init conf stream)) = map TSignal bs
    \<and> pe_signaling (peer_run (map PSignal early) (new_peer rid init conf stream)) = Stable"
proof (induction early rule: rev_induct)
  case Nil
  show ?case by (simp add: peer_run_def new_peer_def Let_def)
next
  case (snoc s early)
  then obtain bs where "pe_chain (peer_run (map PSignal early) (new_peer rid init conf stream)) = map TSignal bs"
      "pe_signaling (peer_run (map PSignal early) (new_peer rid init conf stream)) = Stable" by blast
  then have "pe_chain (peer_run (map PSignal (early @ [s])) (new_peer rid init conf stream)) = map TSignal bs \<or>
      pe_chain (peer_run (map PSignal (early @ [s])) (new_peer rid init conf stream)) = map TSignal (bs @ [sig_body s])"
    "pe_signaling (peer_run (map PSignal (early @ [s])) (new_peer rid init conf stream)) = Stable"
    by (simp_all add: peer_run_snoc pe_handleSignal_def) (auto simp: pe_enqueue_def)
  then show ?case by metis
qed

lemma peer_run_initiator: "pe_initiator (peer_run es (new_peer rid init conf stream)) = init"
  using peer_run_ok peer_ok_initiator by blast

lemma call_start_first:
  "PStart \<notin> set es \<Longrightarrow> start_first (peer_run (call_events early es) (new_peer rid init conf stream))"
proof (induction es rule: rev_induct)
  case Nil
  let ?p = "peer_run (map PSignal early) (new_peer rid init conf stream)"
  obtain bs where "pe_chain ?p = map TSignal bs" "pe_signaling ?p = Stable" using early_chain by blast
  then have "start_first (pe_start ?p)"
    using peer_run_initiator [of "map PSignal early"]
    by (auto simp: pe_start_def start_first_def pe_enqueue_def intro: exI [of _ bs] exI [of _ "[]"])
  then show ?case unfolding call_events_def by (simp add: peer_run_snoc)
next
  case (snoc e es)
  have "peer_run (call_events early (es @ [e])) (new_peer rid init conf stream)
      = peer_do e (peer_run (call_events early es) (new_peer rid init conf stream))"
    using peer_run_snoc [of "call_events early es" e] by (simp add: call_events_def)
  then show ?case using snoc peer_do_start_first peer_run_initiator by (metis in_set_conv_decomp list.set_intros(1) Un_iff set_append)
qed

section \<open>The property\<close>

text \<open>
  C35: the signalling of a call is in order. Over any run of events, with browser operations that fail or are cut off:
  only the initiator sends offers and only the other side answers, an offer only while no other is out, all for their
  own room and nothing once the session is closed; the partner's candidates reach the browser in the order they came,
  none twice, none before the partner's description, and while the session is open none is lost. And a user who hides
  their address sends nothing over any other path than a relay, unless they agreed to it for this room.
\<close>

theorem call_signalling_in_order:
  fixes early :: "rtc_signal list" and es :: "peer_event list" and opts :: call_options and stream :: "track list option"
  assumes "begin_call opts = OpenCall conf" and "PStart \<notin> set es"
  defines "p \<equiv> peer_run (call_events early es) (new_peer (co_roomId opts) (co_initiator opts) conf stream)"
  defines "came \<equiv> arrived (co_roomId opts) (call_events early es)"
  shows "(\<forall>s \<in> set (pe_sent p). sig_roomId s = co_roomId opts
        \<and> (case sig_body s of Description ty sdp \<Rightarrow> (ty = Offer \<longleftrightarrow> co_initiator opts) | Candidate c \<Rightarrow> True))
    \<and> (\<forall>e s. e \<noteq> PStart \<and> pe_sent (peer_do e p) = pe_sent p @ [s] \<and> is_offer s \<longrightarrow> pe_signaling p = Stable)
    \<and> prefix (pe_handed p) came
    \<and> (pe_handed p \<noteq> [] \<longrightarrow> pe_hasRemoteDescription p)
    \<and> (\<not> pe_closed p \<longrightarrow> pe_handed p @ pe_pendingCandidates p @ queued_candidates (pe_chain p) = came)
    \<and> (\<forall>e. pe_closed p \<longrightarrow> pe_sent (peer_do e p) = pe_sent p)
    \<and> (co_hideIp opts \<longrightarrow> pe_policy p = RelayOnly \<and> hasTurnServer (rc_iceServers conf)
        \<or> co_directAllowedFor opts = Some (co_roomId opts))"
proof -
  have ok: "peer_ok (co_roomId opts) (co_initiator opts) came p"
    unfolding p_def came_def by (rule peer_run_ok)
  have "pe_policy p = rc_policy conf"
    unfolding p_def by (simp add: peer_run_policy) (simp add: new_peer_def Let_def)
  moreover have "rc_policy conf = RelayOnly \<and> hasTurnServer (rc_iceServers conf) \<or> co_directAllowedFor opts = Some (co_roomId opts)"
    if "co_hideIp opts"
    using assms(1) that by (auto simp: begin_call_def Let_def rtcConfiguration_def split: if_splits)
  moreover have "pe_signaling p = Stable" if "pe_sent (peer_do e p) = pe_sent p @ [s]" "is_offer s" for e s
    using only_tasks_describe [OF that] offer_from_stable [OF call_start_first [OF assms(2)] _ that(2)] that(1)
    unfolding p_def by auto
  ultimately show ?thesis using ok closed_is_silent by (force simp: peer_ok_def split: signal_body.splits)
qed

definition relay_server :: ice_server where
  "relay_server = \<lparr>urls = [''turn:relay.example:3478''], username = Some ''u'', credential = Some ''c''\<rparr>"

definition hidden_call :: call_options where
  "hidden_call = \<lparr>co_roomId = ''r'', co_initiator = True, co_iceServers = [],
     co_media = Some \<lparr>cm_iceServers = [relay_server], cm_maxBitrateKbps = 1500, cm_relayMaxBitrateKbps = 600,
       cm_privateModeAllowed = True\<rparr>, co_hideIp = True, co_directAllowedFor = None\<rparr>"

lemma hidden_call_opens: "begin_call hidden_call = OpenCall \<lparr>rc_iceServers = [relay_server], rc_policy = RelayOnly\<rparr>"
  by (simp add: begin_call_def hidden_call_def call_servers_def rtcConfiguration_def hasTurnServer_def relay_server_def
      is_turn_url_def lower_char_def Let_def)

theorem call_signalling_in_order_witness:
  "pe_policy (peer_run (call_events [] [PNext Settles Settles Settles ''sdp''])
     (new_peer ''r'' True \<lparr>rc_iceServers = [relay_server], rc_policy = RelayOnly\<rparr> None)) = RelayOnly"
  using call_signalling_in_order [OF hidden_call_opens, of "[PNext Settles Settles Settles ''sdp'']" "[]" None]
  by (simp add: hidden_call_def)

end
