(* ===== verification/Connectivity.thy ===== *)
theory Connectivity
  imports PeerSession Complex_Main
begin

text \<open>
  Connection reliability of one call (\<open>new-frontend/src/lib/connectivity.ts\<close>) and the quality shown to the user (the
  end of \<open>lib/peerSession.ts\<close>): the connect monitor, statistics and loss, bitrates, and the telemetry of a call that
  ended. The monitor's timers are the deadlines they are set to. Fractions and times in fractions of a
  millisecond are reals.
\<close>

definition CONNECT_TIMEOUT_MS :: millis where "CONNECT_TIMEOUT_MS = 10000"
definition DISCONNECTED_RESTART_MS :: millis where "DISCONNECTED_RESTART_MS = 4000"
definition LOW_BANDWIDTH_KBPS :: int where "LOW_BANDWIDTH_KBPS = 400"
definition LOW_BANDWIDTH_HEIGHT :: int where "LOW_BANDWIDTH_HEIGHT = 360"
definition LOSS_STEP_DOWN_THRESHOLD :: real where "LOSS_STEP_DOWN_THRESHOLD = 8 / 100"
definition LOSS_STEP_DOWN_SAMPLES :: nat where "LOSS_STEP_DOWN_SAMPLES = 3"

section \<open>The connect monitor\<close>

datatype connect_failure = FTimeout | FIceFailed
datatype connect_outcome = OPending | OConnected | OFailed connect_failure
datatype monitor_call = AskRestart | TellFailure connect_failure | TellConnected millis

record monitor =
  mn_startedAt :: millis
  mn_connectTimer :: "millis option"
  mn_disconnectTimer :: "millis option"
  mn_recoveryTimer :: "millis option"
  mn_retried :: bool
  mn_state :: connection_state
  mn_outcome :: connect_outcome
  mn_everConnected :: bool
  mn_timeToConnectMs :: "millis option"
  mn_connectedAt :: "millis option"
  mn_restarts :: nat
  mn_stopped :: bool
  mn_calls :: "monitor_call list"

definition new_monitor :: monitor where
  "new_monitor =
     \<lparr>mn_startedAt = 0, mn_connectTimer = None, mn_disconnectTimer = None, mn_recoveryTimer = None,
      mn_retried = False, mn_state = CNew, mn_outcome = OPending, mn_everConnected = False,
      mn_timeToConnectMs = None, mn_connectedAt = None, mn_restarts = 0, mn_stopped = False, mn_calls = []\<rparr>"

definition mn_start :: "millis \<Rightarrow> monitor \<Rightarrow> monitor" where
  "mn_start now m = m\<lparr>mn_startedAt := now, mn_connectTimer := Some (now + CONNECT_TIMEOUT_MS)\<rparr>"

definition mn_stop :: "monitor \<Rightarrow> monitor" where
  "mn_stop m = m\<lparr>mn_stopped := True, mn_connectTimer := None, mn_disconnectTimer := None, mn_recoveryTimer := None\<rparr>"

definition mn_restart :: "monitor \<Rightarrow> monitor" where
  "mn_restart m = m\<lparr>mn_restarts := mn_restarts m + 1, mn_calls := mn_calls m @ [AskRestart]\<rparr>"

definition mn_fail :: "connect_failure \<Rightarrow> monitor \<Rightarrow> monitor" where
  "mn_fail reason m =
     (if mn_stopped m then m
      else let m1 = mn_stop m in m1\<lparr>mn_outcome := OFailed reason, mn_calls := mn_calls m1 @ [TellFailure reason]\<rparr>)"

definition mn_update :: "millis \<Rightarrow> connection_state \<Rightarrow> monitor \<Rightarrow> monitor" where
  "mn_update now st m =
     (if mn_stopped m then m
      else
        let m0 = m\<lparr>mn_state := st\<rparr> in
        case st of
          CConnected \<Rightarrow>
            let m1 = m0\<lparr>mn_connectTimer := None, mn_disconnectTimer := None, mn_recoveryTimer := None\<rparr> in
            if mn_everConnected m then m1
            else
              m1\<lparr>mn_everConnected := True, mn_connectedAt := Some now,
                 mn_timeToConnectMs := Some (now - mn_startedAt m), mn_outcome := OConnected,
                 mn_calls := mn_calls m1 @ [TellConnected (now - mn_startedAt m)]\<rparr>
        | CDisconnected \<Rightarrow>
            if mn_disconnectTimer m0 = None then m0\<lparr>mn_disconnectTimer := Some (now + DISCONNECTED_RESTART_MS)\<rparr> else m0
        | CFailed \<Rightarrow>
            let m1 = m0\<lparr>mn_disconnectTimer := None\<rparr> in
            if mn_retried m then mn_fail FIceFailed m1
            else (mn_restart (m1\<lparr>mn_retried := True\<rparr>))\<lparr>mn_recoveryTimer := Some (now + CONNECT_TIMEOUT_MS)\<rparr>
        | CClosed \<Rightarrow> mn_stop m0
        | _ \<Rightarrow> m0)"

definition mn_connect_timer :: "monitor \<Rightarrow> monitor" where
  "mn_connect_timer m =
     (let m1 = m\<lparr>mn_connectTimer := None\<rparr> in if \<not> mn_everConnected m then mn_fail FTimeout m1 else m1)"

definition mn_disconnect_timer :: "monitor \<Rightarrow> monitor" where
  "mn_disconnect_timer m =
     (let m1 = m\<lparr>mn_disconnectTimer := None\<rparr> in
      if mn_state m = CDisconnected \<and> \<not> mn_stopped m then mn_restart m1 else m1)"

definition mn_recovery_timer :: "monitor \<Rightarrow> monitor" where
  "mn_recovery_timer m =
     (let m1 = m\<lparr>mn_recoveryTimer := None\<rparr> in
      if mn_state m \<noteq> CConnected then mn_fail FIceFailed m1 else m1)"

section \<open>Statistics\<close>

datatype candidate_type = THost | TSrflx | TPrflx | TRelay | TUnknown

fun candidateType :: "string option \<Rightarrow> candidate_type" where
  "candidateType v =
     (if v = Some ''host'' then THost else if v = Some ''srflx'' then TSrflx
      else if v = Some ''prflx'' then TPrflx else if v = Some ''relay'' then TRelay else TUnknown)"

text \<open>
  A browser's statistics report: entries of the kinds the code looks at, in order, with the members it reads (a member
  that is absent or of another type is \<open>None\<close>).
\<close>

datatype stats_kind =
  StTransport "string option"
| StPair bool bool string string string "real option"
| StCandidate "string option"
| StInbound "string option" "int option" "int option" "int option"
| StRemoteInbound "string option" "real option"
| StOther

record stats_entry =
  se_id :: string
  se_kind :: stats_kind

record connection_stats =
  st_local :: "candidate_type option"
  st_remote :: "candidate_type option"
  st_rttMs :: "real option"
  st_received :: int
  st_lost :: int
  st_remoteFractionLost :: "real option"
  st_freezeCount :: "int option"

definition by_id :: "stats_entry list \<Rightarrow> (string, stats_kind) jmap" where
  "by_id report = foldl (\<lambda>m s. jset m (se_id s) (se_kind s)) [] report"

fun transport_pair :: "(string, stats_kind) jmap \<Rightarrow> (string \<times> stats_kind) list \<Rightarrow> stats_kind option" where
  "transport_pair ids [] = None"
| "transport_pair ids ((k, StTransport (Some pid)) # es) =
     (case jget ids pid of Some p \<Rightarrow> Some p | None \<Rightarrow> transport_pair ids es)"
| "transport_pair ids (_ # es) = transport_pair ids es"

fun chosen_pair :: "(string \<times> stats_kind) list \<Rightarrow> stats_kind option" where
  "chosen_pair [] = None"
| "chosen_pair ((k, StPair selected nominated st l r rtt) # es) =
     (if (selected \<or> nominated) \<and> st = ''succeeded'' then Some (StPair selected nominated st l r rtt) else chosen_pair es)"
| "chosen_pair (_ # es) = chosen_pair es"

definition no_stats :: connection_stats where
  "no_stats = \<lparr>st_local = None, st_remote = None, st_rttMs = None, st_received = 0, st_lost = 0,
     st_remoteFractionLost = None, st_freezeCount = None\<rparr>"

fun candidate_of_entry :: "stats_kind option \<Rightarrow> candidate_type option" where
  "candidate_of_entry None = None"
| "candidate_of_entry (Some (StCandidate t)) = Some (candidateType t)"
| "candidate_of_entry (Some _) = Some TUnknown"

fun count_entry :: "connection_stats \<Rightarrow> stats_kind \<Rightarrow> connection_stats" where
  "count_entry out (StInbound kind received lost freezes) =
     (let out1 = out\<lparr>st_received := st_received out + (case received of Some n \<Rightarrow> n | None \<Rightarrow> 0),
                     st_lost := st_lost out + max 0 (case lost of Some n \<Rightarrow> n | None \<Rightarrow> 0)\<rparr> in
      case freezes of
        Some n \<Rightarrow>
          if kind = Some ''video''
          then out1\<lparr>st_freezeCount := Some ((case st_freezeCount out of Some k \<Rightarrow> k | None \<Rightarrow> 0) + n)\<rparr> else out1
      | None \<Rightarrow> out1)"
| "count_entry out (StRemoteInbound kind fraction) =
     (case fraction of
        Some f \<Rightarrow> if kind = Some ''video'' then out\<lparr>st_remoteFractionLost := Some f\<rparr> else out
      | None \<Rightarrow> out)"
| "count_entry out _ = out"

definition readConnectionStats :: "stats_entry list \<Rightarrow> connection_stats" where
  "readConnectionStats report =
     (let ids = by_id report;
          pair = (case transport_pair ids ids of Some p \<Rightarrow> Some p | None \<Rightarrow> chosen_pair ids);
          out = (case pair of
                   Some (StPair selected nominated st l r rtt) \<Rightarrow>
                     no_stats\<lparr>st_local := candidate_of_entry (jget ids l), st_remote := candidate_of_entry (jget ids r),
                              st_rttMs := map_option (\<lambda>t. t * 1000) rtt\<rparr>
                 | _ \<Rightarrow> no_stats) in
      foldl (\<lambda>o1 p. count_entry o1 (snd p)) out ids)"

definition isRelayed :: "connection_stats \<Rightarrow> bool" where
  "isRelayed s \<longleftrightarrow> st_local s = Some TRelay \<or> st_remote s = Some TRelay"

definition loss_ratio :: "int \<Rightarrow> int \<Rightarrow> real" where
  "loss_ratio received lost = (if received + lost > 0 then real_of_int lost / real_of_int (received + lost) else 0)"

definition lossBetween :: "connection_stats \<Rightarrow> connection_stats option \<Rightarrow> real" where
  "lossBetween cur prev =
     (let before = (case prev of Some p \<Rightarrow> (st_received p, st_lost p) | None \<Rightarrow> (0, 0));
          received = st_received cur - fst before;
          lost = max 0 (st_lost cur - snd before) in
      loss_ratio received lost)"

section \<open>Loss and bitrate\<close>

record loss_tracker =
  lt_badStreak :: nat
  lt_previous :: "connection_stats option"
  lt_steppedDown :: bool

definition new_loss_tracker :: loss_tracker where
  "new_loss_tracker = \<lparr>lt_badStreak = 0, lt_previous = None, lt_steppedDown = False\<rparr>"

definition sample_loss :: "loss_tracker \<Rightarrow> connection_stats \<Rightarrow> real" where
  "sample_loss t s = max (lossBetween s (lt_previous t)) (case st_remoteFractionLost s of Some f \<Rightarrow> f | None \<Rightarrow> 0)"

definition lt_push :: "connection_stats \<Rightarrow> loss_tracker \<Rightarrow> loss_tracker \<times> bool" where
  "lt_push s t =
     (let loss = sample_loss t s; t1 = t\<lparr>lt_previous := Some s\<rparr> in
      if lt_steppedDown t then (t1, False)
      else
        let streak = (if loss \<ge> LOSS_STEP_DOWN_THRESHOLD then lt_badStreak t + 1 else 0);
            t2 = t1\<lparr>lt_badStreak := streak\<rparr> in
        if streak \<ge> LOSS_STEP_DOWN_SAMPLES then (t2\<lparr>lt_steppedDown := True\<rparr>, True) else (t2, False))"

definition videoBitrateKbps :: "int \<Rightarrow> int \<Rightarrow> bool \<Rightarrow> bool \<Rightarrow> int" where
  "videoBitrateKbps maxKbps relayMaxKbps relayed lowBandwidth =
     (let base = (if relayed then relayMaxKbps else maxKbps) in
      if lowBandwidth then min base LOW_BANDWIDTH_KBPS else base)"

definition scaleDownFor :: "int option \<Rightarrow> int \<Rightarrow> real" where
  "scaleDownFor height target =
     (case height of
        None \<Rightarrow> 1
      | Some h \<Rightarrow> if h = 0 \<or> h \<le> target then 1 else real_of_int h / real_of_int target)"

section \<open>Telemetry\<close>

definition clamp :: "real \<Rightarrow> real \<Rightarrow> real \<Rightarrow> real" where
  "clamp v lo hi = min hi (max lo v)"

definition round_js :: "real \<Rightarrow> real" where
  "round_js x = real_of_int \<lfloor>x + 1 / 2\<rfloor>"

datatype telemetry_outcome = TmConnected | TmTimeout | TmIceFailed | TmEndedBeforeConnect

fun telemetry_outcome_of :: "connect_outcome \<Rightarrow> telemetry_outcome" where
  "telemetry_outcome_of OPending = TmEndedBeforeConnect"
| "telemetry_outcome_of OConnected = TmConnected"
| "telemetry_outcome_of (OFailed FTimeout) = TmTimeout"
| "telemetry_outcome_of (OFailed FIceFailed) = TmIceFailed"

record telemetry =
  tm_roomId :: string
  tm_outcome :: telemetry_outcome
  tm_privateMode :: bool
  tm_timeToConnectMs :: "real option"
  tm_durationMs :: "real option"
  tm_local :: "candidate_type option"
  tm_remote :: "candidate_type option"
  tm_rttMs :: "real option"
  tm_packetLossPct :: "real option"
  tm_freezeCount :: "real option"

definition buildTelemetry :: "string \<Rightarrow> monitor \<Rightarrow> millis \<Rightarrow> bool \<Rightarrow> connection_stats option \<Rightarrow> telemetry" where
  "buildTelemetry rid m endedAt privateMode stats =
     (let base = \<lparr>tm_roomId = rid, tm_outcome = telemetry_outcome_of (mn_outcome m), tm_privateMode = privateMode,
            tm_timeToConnectMs = map_option (\<lambda>t. clamp (round_js (real_of_int t)) 0 600000) (mn_timeToConnectMs m),
            tm_durationMs = map_option (\<lambda>t. clamp (round_js (real_of_int (endedAt - t))) 0 86400000) (mn_connectedAt m),
            tm_local = None, tm_remote = None, tm_rttMs = None, tm_packetLossPct = None, tm_freezeCount = None\<rparr> in
      case stats of
        None \<Rightarrow> base
      | Some s \<Rightarrow>
          let total = st_received s + st_lost s in
          base\<lparr>tm_local := st_local s, tm_remote := st_remote s,
               tm_rttMs := map_option (\<lambda>r. clamp r 0 60000) (st_rttMs s),
               tm_packetLossPct :=
                 (if total > 0 then Some (clamp (real_of_int (st_lost s) / real_of_int total * 100) 0 100) else None),
               tm_freezeCount := map_option (\<lambda>n. clamp (round_js (real_of_int n)) 0 100000) (st_freezeCount s)\<rparr>)"

section \<open>Quality, and the STUN list of the probe\<close>

datatype quality = Excellent | Good | Fair | Poor

definition qualityFromStats :: "real option \<Rightarrow> int \<times> int \<Rightarrow> (int \<times> int) option \<Rightarrow> quality" where
  "qualityFromStats rtt cur prev =
     (let before = (case prev of Some p \<Rightarrow> p | None \<Rightarrow> (0, 0));
          received = fst cur - fst before;
          lost = max 0 (snd cur - snd before);
          loss = loss_ratio received lost;
          rttMs = (case rtt of None \<Rightarrow> 0 | Some r \<Rightarrow> r * 1000) in
      if loss > 1 / 10 \<or> rttMs > 600 then Poor
      else if loss > 5 / 100 \<or> rttMs > 300 then Fair
      else if loss > 1 / 100 \<or> rttMs > 150 then Good
      else Excellent)"

definition parseStunList :: "string option \<Rightarrow> ice_server list" where
  "parseStunList raw =
     (let us = filter (\<lambda>u. u \<noteq> '''') (map trim (split_on CHR '','' (case raw of Some r \<Rightarrow> r | None \<Rightarrow> ''''))) in
      if us \<noteq> [] then [\<lparr>urls = us, username = None, credential = None\<rparr>] else [])"

section \<open>Every call gets one verdict\<close>

definition failures_told :: "monitor \<Rightarrow> connect_failure list" where
  "failures_told m = concat (map (\<lambda>c. case c of TellFailure f \<Rightarrow> [f] | _ \<Rightarrow> []) (mn_calls m))"

text \<open>
  A monitor that runs and has not connected has its connect timer set, so a verdict is due; a failure is told at most
  once, with the outcome, and then the monitor has stopped and all its timers are cleared.
\<close>

definition monitor_ok :: "monitor \<Rightarrow> bool" where
  "monitor_ok m \<longleftrightarrow>
     (\<not> mn_stopped m \<and> \<not> mn_everConnected m \<longrightarrow> mn_connectTimer m = Some (mn_startedAt m + CONNECT_TIMEOUT_MS))
   \<and> (mn_stopped m \<longrightarrow> mn_connectTimer m = None \<and> mn_disconnectTimer m = None \<and> mn_recoveryTimer m = None)
   \<and> (failures_told m = (case mn_outcome m of OFailed f \<Rightarrow> [f] | _ \<Rightarrow> []))
   \<and> (\<forall>f. mn_outcome m = OFailed f \<longrightarrow> mn_stopped m)
   \<and> (mn_outcome m = OConnected \<longrightarrow> mn_everConnected m)
   \<and> (mn_everConnected m \<longleftrightarrow> mn_connectedAt m \<noteq> None)
   \<and> (mn_everConnected m \<longleftrightarrow> mn_timeToConnectMs m \<noteq> None)"

lemmas monitor_defs = monitor_ok_def failures_told_def mn_stop_def mn_restart_def

lemma mn_start_ok: "monitor_ok (mn_start now new_monitor)"
  by (simp add: monitor_defs mn_start_def new_monitor_def)

lemma mn_update_ok: "monitor_ok m \<Longrightarrow> monitor_ok (mn_update now st m)"
  by (cases st; cases "mn_outcome m")
    (auto simp: mn_update_def mn_fail_def monitor_defs Let_def)

lemma mn_timers_ok:
  assumes "monitor_ok m"
  shows "mn_connectTimer m \<noteq> None \<Longrightarrow> monitor_ok (mn_connect_timer m)" "monitor_ok (mn_disconnect_timer m)"
    "monitor_ok (mn_recovery_timer m)"
  using assms
  by (cases "mn_outcome m"; auto simp: mn_connect_timer_def mn_disconnect_timer_def mn_recovery_timer_def mn_fail_def monitor_defs Let_def)+

lemma connect_timeout_decides:
  "monitor_ok m \<Longrightarrow> \<not> mn_everConnected m \<Longrightarrow> \<not> mn_stopped m \<Longrightarrow> mn_outcome (mn_connect_timer m) = OFailed FTimeout"
  by (simp add: mn_connect_timer_def mn_fail_def Let_def)

lemma second_failure_decides:
  "\<not> mn_stopped m \<Longrightarrow> mn_retried m \<Longrightarrow> mn_outcome (mn_update now CFailed m) = OFailed FIceFailed"
  by (simp add: mn_update_def mn_fail_def Let_def)

section \<open>Telemetry within the schema, and one step down\<close>

lemma clamp_range: "lo \<le> hi \<Longrightarrow> lo \<le> clamp v lo hi \<and> clamp v lo hi \<le> hi"
  by (auto simp: clamp_def)

lemma telemetry_in_range:
  fixes rid :: string and m :: monitor and endedAt :: millis and priv :: bool and stats :: "connection_stats option"
  defines "t \<equiv> buildTelemetry rid m endedAt priv stats"
  shows "\<forall>x. tm_timeToConnectMs t = Some x \<longrightarrow> 0 \<le> x \<and> x \<le> 600000"
    "\<forall>x. tm_durationMs t = Some x \<longrightarrow> 0 \<le> x \<and> x \<le> 86400000"
    "\<forall>x. tm_rttMs t = Some x \<longrightarrow> 0 \<le> x \<and> x \<le> 60000"
    "\<forall>x. tm_packetLossPct t = Some x \<longrightarrow> 0 \<le> x \<and> x \<le> 100"
    "\<forall>x. tm_freezeCount t = Some x \<longrightarrow> 0 \<le> x \<and> x \<le> 100000"
  unfolding t_def by (auto simp: buildTelemetry_def Let_def clamp_def split: option.splits if_splits)

definition push_all :: "connection_stats list \<Rightarrow> loss_tracker \<Rightarrow> loss_tracker \<times> bool list" where
  "push_all ss t = foldl (\<lambda>(t, bs) s. let (t', b) = lt_push s t in (t', bs @ [b])) (t, []) ss"

lemma push_all_snoc:
  "push_all (ss @ [s]) t = (let (t1, bs) = push_all ss t; (t', b) = lt_push s t1 in (t', bs @ [b]))"
  by (simp add: push_all_def split: prod.splits)

lemma steps_down_once: "push_all ss new_loss_tracker = (t, bs) \<Longrightarrow> length (filter id bs) = (if lt_steppedDown t then 1 else 0)"
proof (induction ss arbitrary: t bs rule: rev_induct)
  case Nil
  then show ?case by (auto simp: push_all_def new_loss_tracker_def)
next
  case (snoc s ss)
  obtain t1 bs1 where "push_all ss new_loss_tracker = (t1, bs1)" by fastforce
  then show ?case using snoc by (auto simp: push_all_snoc lt_push_def Let_def split: if_splits)
qed

end
