(* ===== verification/Tokens.thy ===== *)
theory Tokens
  imports Json
begin

text \<open>
  Signed tokens (\<open>backend/src/session/tokens.ts\<close>): \<open>c1.<body>.<mac>\<close>. The keyed hash, base64url and the text of a JSON
  value come from Node and are the parameter \<open>token_lib\<close>; what the code does with them is here.
\<close>

type_synonym bytes = "nat list"

record token_lib =
  tl_derive :: "string \<Rightarrow> bytes"
  tl_mac :: "bytes \<Rightarrow> string \<Rightarrow> bytes"
  tl_encode :: "bytes \<Rightarrow> string"
  tl_decode :: "string \<Rightarrow> bytes"
  tl_stringify :: "json \<Rightarrow> bytes"
  tl_parse :: "bytes \<Rightarrow> json option"

datatype token_payload =
  SessionToken device_id "string option" millis millis
| AgeToken device_id string millis millis

fun token_exp :: "token_payload \<Rightarrow> millis" where
  "token_exp (SessionToken d c iat expiry) = expiry"
| "token_exp (AgeToken d tos iat expiry) = expiry"

definition TOKEN_PREFIX :: string where "TOKEN_PREFIX = ''c1''"
definition MAX_TOKEN_CHARS :: nat where "MAX_TOKEN_CHARS = 4096"

fun token_json :: "token_payload \<Rightarrow> json" where
  "token_json (SessionToken d c iat expiry) =
     JObject [(''kind'', JText ''session''), (''deviceId'', JText d),
       (''country'', case c of Some x \<Rightarrow> JText x | None \<Rightarrow> JNull), (''iat'', JNumber iat), (''exp'', JNumber expiry)]"
| "token_json (AgeToken d tos iat expiry) =
     JObject [(''kind'', JText ''age''), (''deviceId'', JText d), (''over18'', JBool True), (''tosVersion'', JText tos),
       (''iat'', JNumber iat), (''exp'', JNumber expiry)]"

text \<open>The constructor refuses an empty list of secrets; the first key signs, every key verifies.\<close>

definition new_signer :: "token_lib \<Rightarrow> string list \<Rightarrow> bytes list option" where
  "new_signer lib secrets = (if secrets = [] then None else Some (map (tl_derive lib) secrets))"

definition token_body :: "token_lib \<Rightarrow> json \<Rightarrow> string" where
  "token_body lib j = TOKEN_PREFIX @ ''.'' @ tl_encode lib (tl_stringify lib j)"

definition sign :: "token_lib \<Rightarrow> bytes list \<Rightarrow> token_payload \<Rightarrow> string" where
  "sign lib keys p =
     (let body = token_body lib (token_json p) in
      body @ ''.'' @ tl_encode lib (tl_mac lib (hd keys) body))"

definition verify_token :: "token_lib \<Rightarrow> bytes list \<Rightarrow> string option \<Rightarrow> millis \<Rightarrow> json option" where
  "verify_token lib keys tok now =
     (case tok of
        None \<Rightarrow> None
      | Some t \<Rightarrow>
          if length t > MAX_TOKEN_CHARS then None
          else case split_on CHR ''.'' t of
            [prefix, middle, mac] \<Rightarrow>
              if prefix \<noteq> TOKEN_PREFIX then None
              else
                let body = prefix @ ''.'' @ middle; given = tl_decode lib mac in
                if tl_encode lib given \<noteq> mac then None
                else if \<not> list_ex (\<lambda>k. tl_mac lib k body = given) keys then None
                else (case tl_parse lib (tl_decode lib middle) of
                  None \<Rightarrow> None
                | Some j \<Rightarrow>
                    (case (number_of (field j ''exp''), number_of (field j ''iat'')) of
                       (Some expiry, Some iat) \<Rightarrow> if expiry \<le> now then None else Some j
                     | _ \<Rightarrow> None))
          | _ \<Rightarrow> None)"

text \<open>The country is a text or null.\<close>

fun country_of :: "json option \<Rightarrow> string option option" where
  "country_of (Some JNull) = Some None"
| "country_of (Some (JText c)) = Some (Some c)"
| "country_of _ = None"

definition verifySession :: "token_lib \<Rightarrow> bytes list \<Rightarrow> string option \<Rightarrow> millis \<Rightarrow> token_payload option" where
  "verifySession lib keys tok now =
     (case verify_token lib keys tok now of
        None \<Rightarrow> None
      | Some j \<Rightarrow>
          if field j ''kind'' \<noteq> Some (JText ''session'') then None
          else case (text_of (field j ''deviceId''), country_of (field j ''country''),
                     number_of (field j ''iat''), number_of (field j ''exp'')) of
            (Some d, Some c, Some iat, Some expiry) \<Rightarrow> Some (SessionToken d c iat expiry)
          | _ \<Rightarrow> None)"

definition verifyAge :: "token_lib \<Rightarrow> bytes list \<Rightarrow> string option \<Rightarrow> millis \<Rightarrow> token_payload option" where
  "verifyAge lib keys tok now =
     (case verify_token lib keys tok now of
        None \<Rightarrow> None
      | Some j \<Rightarrow>
          if field j ''kind'' \<noteq> Some (JText ''age'') then None
          else case (text_of (field j ''deviceId''), field j ''over18'', text_of (field j ''tosVersion''),
                     number_of (field j ''iat''), number_of (field j ''exp'')) of
            (Some d, Some (JBool True), Some tos, Some iat, Some expiry) \<Rightarrow> Some (AgeToken d tos iat expiry)
          | _ \<Rightarrow> None)"

section \<open>Round trip\<close>

text \<open>
  What the code relies on of Node: base64url decodes what it encoded and has no dot in it, and parsing the text of a
  payload gives the payload.
\<close>

definition token_lib_ok :: "token_lib \<Rightarrow> bool" where
  "token_lib_ok lib \<longleftrightarrow>
     (\<forall>x. tl_decode lib (tl_encode lib x) = x) \<and> (\<forall>x. CHR ''.'' \<notin> set (tl_encode lib x))"

definition json_faithful :: "token_lib \<Rightarrow> token_payload \<Rightarrow> bool" where
  "json_faithful lib p \<longleftrightarrow> tl_parse lib (tl_stringify lib (token_json p)) = Some (token_json p)"

lemma split_on_none: "c \<notin> set s \<Longrightarrow> split_on c s = [s]"
  by (induction c s rule: split_on.induct) auto

lemma split_on_append: "c \<notin> set s \<Longrightarrow> split_on c (s @ c # t) = s # split_on c t"
  by (induction s) auto

lemma sign_parts:
  assumes "token_lib_ok lib"
  shows "split_on CHR ''.'' (sign lib keys p) =
    [TOKEN_PREFIX, tl_encode lib (tl_stringify lib (token_json p)),
     tl_encode lib (tl_mac lib (hd keys) (token_body lib (token_json p)))]"
  using assms
  by (simp add: sign_def token_body_def TOKEN_PREFIX_def token_lib_ok_def Let_def split_on_append split_on_none)

lemma token_json_exp: "field (token_json p) ''exp'' = Some (JNumber (token_exp p))"
  "\<exists>iat. field (token_json p) ''iat'' = Some (JNumber iat)"
  by (cases p; simp)+

lemma verify_sign:
  assumes "token_lib_ok lib" "json_faithful lib p" "keys \<noteq> []" "length (sign lib keys p) \<le> MAX_TOKEN_CHARS" "hd keys \<in> set keys'"
  shows "verify_token lib keys' (Some (sign lib keys p)) now = (if token_exp p \<le> now then None else Some (token_json p))"
proof -
  obtain iat where "field (token_json p) ''iat'' = Some (JNumber iat)" using token_json_exp(2) by blast
  moreover have "list_ex (\<lambda>k. tl_mac lib k (token_body lib (token_json p)) = tl_mac lib (hd keys) (token_body lib (token_json p))) keys'"
    using assms(5) by (auto simp: list_ex_iff)
  ultimately show ?thesis
    using assms sign_parts [OF assms(1), of keys p] token_json_exp(1) [of p]
    by (simp add: verify_token_def token_lib_ok_def json_faithful_def Let_def token_body_def)
qed

lemma verifySession_sign:
  assumes "token_lib_ok lib" "json_faithful lib p" "keys \<noteq> []" "length (sign lib keys p) \<le> MAX_TOKEN_CHARS" "hd keys \<in> set keys'"
  shows "verifySession lib keys' (Some (sign lib keys p)) now =
    (case p of SessionToken d c iat expiry \<Rightarrow> if expiry \<le> now then None else Some p | AgeToken _ _ _ _ \<Rightarrow> None)"
  using verify_sign [OF assms, of now] by (cases p) (auto simp: verifySession_def split: option.splits)

lemma verifyAge_sign:
  assumes "token_lib_ok lib" "json_faithful lib p" "keys \<noteq> []" "length (sign lib keys p) \<le> MAX_TOKEN_CHARS" "hd keys \<in> set keys'"
  shows "verifyAge lib keys' (Some (sign lib keys p)) now =
    (case p of AgeToken d tos iat expiry \<Rightarrow> if expiry \<le> now then None else Some p | SessionToken _ _ _ _ \<Rightarrow> None)"
  using verify_sign [OF assms, of now] by (cases p) (auto simp: verifyAge_def)

text \<open>Whatever verifies carries the keyed hash of its own body under one of the keys, and has not expired.\<close>

lemma verify_token_signed:
  assumes "verify_token lib keys (Some t) now = Some j"
  shows "\<exists>k middle. k \<in> set keys \<and> split_on CHR ''.'' t =
      [TOKEN_PREFIX, middle, tl_encode lib (tl_mac lib k (TOKEN_PREFIX @ ''.'' @ middle))]
    \<and> tl_parse lib (tl_decode lib middle) = Some j \<and> (\<exists>expiry. field j ''exp'' = Some (JNumber expiry) \<and> now < expiry)"
  using assms
  by (auto simp: verify_token_def Let_def list_ex_iff split: if_splits list.splits option.splits)

end
