(* ===== verification/Age.thy ===== *)
theory Age
  imports Prelude
begin

text \<open>
  Age from a date of birth (\<open>backend/src/session/age.ts\<close>). The part of the language's \<open>Date\<close> that the code uses is
  defined here: \<open>Date.UTC\<close> with its roll-over of months and days, and the UTC year, month and day of an instant.
\<close>

section \<open>The calendar of \<open>Date\<close>\<close>

definition leap :: "int \<Rightarrow> bool" where
  "leap y \<longleftrightarrow> y mod 4 = 0 \<and> y mod 100 \<noteq> 0 \<or> y mod 400 = 0"

definition month_days :: "bool \<Rightarrow> nat \<Rightarrow> int" where
  "month_days l m = (if m = 2 then (if l then 29 else 28) else if m = 4 \<or> m = 6 \<or> m = 9 \<or> m = 11 then 30 else 31)"

fun days_before_month :: "bool \<Rightarrow> nat \<Rightarrow> int" where
  "days_before_month l 0 = 0"
| "days_before_month l (Suc 0) = 0"
| "days_before_month l (Suc (Suc m)) = days_before_month l (Suc m) + month_days l (Suc m)"

text \<open>Days from 1970-01-01 to the first of January of a year.\<close>

definition year_start :: "int \<Rightarrow> int" where
  "year_start y = 365 * (y - 1970) + ((y - 1) div 4 - (y - 1) div 100 + (y - 1) div 400) - 477"

definition utc_day :: "int \<Rightarrow> nat \<Rightarrow> int \<Rightarrow> int" where
  "utc_day y m d = year_start y + days_before_month (leap y) m + d - 1"

text \<open>\<open>Date.UTC(y, m - 1, d)\<close> in days: years 0 to 99 are taken as 1900 to 1999, other months roll over.\<close>

definition date_utc :: "int \<Rightarrow> int \<Rightarrow> int \<Rightarrow> int" where
  "date_utc y m d =
     (let full = (if 0 \<le> y \<and> y \<le> 99 then 1900 + y else y) in
      utc_day (full + (m - 1) div 12) (nat ((m - 1) mod 12) + 1) d)"

definition utc_year :: "int \<Rightarrow> int" where
  "utc_year n =
     (let e = 400 * (n + 719162) div 146097 + 1 in
      if n < year_start e then e - 1 else if year_start (e + 1) \<le> n then e + 1 else e)"

definition utc_month :: "int \<Rightarrow> nat" where
  "utc_month n =
     (let y = utc_year n; doy = n - year_start y in
      case find (\<lambda>m. doy < days_before_month (leap y) (m + 1)) [1..<13] of Some m \<Rightarrow> m | None \<Rightarrow> 12)"

definition utc_date :: "int \<Rightarrow> int" where
  "utc_date n = n - year_start (utc_year n) - days_before_month (leap (utc_year n)) (utc_month n) + 1"

section \<open>The code\<close>

definition MIN_BIRTH_YEAR :: int where "MIN_BIRTH_YEAR = 1900"
definition ADULT_AGE :: int where "ADULT_AGE = 18"
definition MS_PER_DAY :: int where "MS_PER_DAY = 86400000"

definition digit_of :: "char \<Rightarrow> int option" where
  "digit_of c = (if CHR ''0'' \<le> c \<and> c \<le> CHR ''9'' then Some (int (of_char c) - 48) else None)"

fun number_from :: "int \<Rightarrow> string \<Rightarrow> int option" where
  "number_from acc [] = Some acc"
| "number_from acc (c # cs) = (case digit_of c of Some d \<Rightarrow> number_from (acc * 10 + d) cs | None \<Rightarrow> None)"

definition parseIsoDate :: "string \<Rightarrow> (int \<times> int \<times> int) option" where
  "parseIsoDate v =
     (if length v \<noteq> 10 \<or> v ! 4 \<noteq> CHR ''-'' \<or> v ! 7 \<noteq> CHR ''-'' then None
      else
        case (number_from 0 (take 4 v), number_from 0 (take 2 (drop 5 v)), number_from 0 (drop 8 v)) of
          (Some y, Some m, Some d) \<Rightarrow>
            let n = date_utc y m d in
            if utc_year n \<noteq> y \<or> int (utc_month n) \<noteq> m \<or> utc_date n \<noteq> d then None else Some (y, m, d)
        | _ \<Rightarrow> None)"

definition ageInYears :: "string \<Rightarrow> millis \<Rightarrow> int option" where
  "ageInYears dob now =
     (case parseIsoDate dob of
        None \<Rightarrow> None
      | Some (y, m, d) \<Rightarrow>
          if y < MIN_BIRTH_YEAR then None
          else if date_utc y m d * MS_PER_DAY > now then None
          else
            let today = now div MS_PER_DAY;
                month = int (utc_month today); day = utc_date today; age = utc_year today - y in
            Some (if month < m \<or> (month = m \<and> day < d) then age - 1 else age))"

section \<open>The calendar is right\<close>

lemma days_before_month_Suc: "1 \<le> m \<Longrightarrow> days_before_month l (Suc m) = days_before_month l m + month_days l m"
  by (cases m) auto

lemma month_days_pos: "28 \<le> month_days l m" "month_days l m \<le> 31" "month_days True m \<le> month_days l m + 1"
  by (auto simp: month_days_def)

lemma days_before_month_mono: "1 \<le> m \<Longrightarrow> m \<le> k \<Longrightarrow> days_before_month l m \<le> days_before_month l k"
proof (induction k)
  case (Suc k)
  show ?case
  proof (cases "m = Suc k")
    case False
    then have "m \<le> k" using Suc.prems by simp
    then show ?thesis using Suc days_before_month_Suc [of k l] month_days_pos(1) [of l k] by simp
  qed simp
qed simp

lemma days_before_month_nonneg: "0 \<le> days_before_month l m"
proof (cases m)
  case (Suc k)
  then show ?thesis using days_before_month_mono [of 1 m l] by simp
qed simp

lemma year_length: "days_before_month l 13 = (if l then 366 else 365)"
  by (simp add: month_days_def numeral_eq_Suc)

lemma div_pred:
  fixes y c :: int
  assumes "1 < c"
  shows "y div c - (y - 1) div c = (if y mod c = 0 then 1 else 0)"
proof -
  define q where "q = y div c"
  define r where "r = y mod c"
  have y: "y = c * q + r" and r: "0 \<le> r" "r < c" using assms by (simp_all add: q_def r_def)
  show ?thesis
  proof (cases "r = 0")
    case True
    have "y - 1 = c * (q - 1) + (c - 1)" using y True by (simp add: algebra_simps)
    then have "(y - 1) div c = (q - 1) + (c - 1) div c" using assms by (simp only: div_mult_self2 div_mult_self4)
    moreover have "(c - 1) div c = 0" using assms by (intro div_pos_pos_trivial) auto
    ultimately have "(y - 1) div c = q - 1" by simp
    then show ?thesis using True by (simp add: q_def r_def)
  next
    case False
    have "y - 1 = c * q + (r - 1)" using y by simp
    then have "y - 1 = c * q + (r - 1)" by simp
    then have "(y - 1) div c = q + (r - 1) div c" using assms by (simp only: div_mult_self4)
    moreover have "(r - 1) div c = 0" using False r by (intro div_pos_pos_trivial) auto
    ultimately show ?thesis using False by (simp add: q_def r_def)
  qed
qed

lemma leap_count:
  fixes a b c a' b' c' :: int
  assumes "a - a' = (if p then 1 else 0)" "b - b' = (if q then 1 else 0)" "c - c' = (if r then 1 else 0)" "r \<Longrightarrow> q" "q \<Longrightarrow> p"
  shows "(a - b + c) - (a' - b' + c') = (if p \<and> \<not> q \<or> r then 1 else 0)"
  using assms by (auto split: if_splits)

lemma year_sum:
  fixes x x' y :: int
  assumes "x - x' = (if l then 1 else 0)"
  shows "365 * (y + 1 - 1970) + x - 477 = 365 * (y - 1970) + x' - 477 + (if l then 366 else 365)"
  using assms by (auto split: if_splits)

lemma year_start_next: "year_start (y + 1) = year_start y + (if leap y then 366 else 365)"
proof -
  have p: "y mod 400 = 0 \<Longrightarrow> y mod 100 = 0" using mod_mod_cancel [of 100 400 y] by simp
  have q: "y mod 100 = 0 \<Longrightarrow> y mod 4 = 0" using mod_mod_cancel [of 4 100 y] by simp
  have "(y div 4 - y div 100 + y div 400) - ((y - 1) div 4 - (y - 1) div 100 + (y - 1) div 400) = (if leap y then 1 else 0)"
    unfolding leap_def by (rule leap_count [OF div_pred div_pred div_pred p q]) simp_all
  from year_sum [OF this, of y] show ?thesis unfolding year_start_def by (simp only: add_diff_cancel_right')
qed

lemma year_start_mono: "y \<le> z \<Longrightarrow> year_start y \<le> year_start z"
proof -
  have "year_start y \<le> year_start (y + int k)" for k
  proof (induction k)
    case (Suc k)
    have "year_start (y + int (Suc k)) = year_start (y + int k + 1)" by (rule arg_cong [of _ _ year_start]) simp
    then show ?case using Suc by (simp only: year_start_next) (simp split: if_split)
  qed simp
  from this [of "nat (z - y)"] show "y \<le> z \<Longrightarrow> ?thesis" by simp
qed

lemma year_start_bounds: "146097 * (y - 1) - 699 \<le> 400 * (year_start y + 719162)"
  "400 * (year_start y + 719162) \<le> 146097 * (y - 1) + 396"
proof -
  let ?k = "y - 1"
  have "4 * (?k div 4) \<le> ?k" "?k \<le> 4 * (?k div 4) + 3" "100 * (?k div 100) \<le> ?k" "?k \<le> 100 * (?k div 100) + 99"
    "400 * (?k div 400) \<le> ?k" "?k \<le> 400 * (?k div 400) + 399" by presburger+
  then show "146097 * (y - 1) - 699 \<le> 400 * (year_start y + 719162)"
    "400 * (year_start y + 719162) \<le> 146097 * (y - 1) + 396" by (simp_all add: year_start_def)
qed

lemma utc_year_bounds: "year_start (utc_year n) \<le> n \<and> n < year_start (utc_year n + 1)"
proof -
  let ?k = "400 * (n + 719162) div 146097"
  have "400 * (n + 719162) = 146097 * ?k + 400 * (n + 719162) mod 146097" by simp
  moreover have "0 \<le> 400 * (n + 719162) mod (146097::int)" "400 * (n + 719162) mod 146097 < (146097::int)" by simp_all
  ultimately have "146097 * ?k \<le> 400 * (n + 719162)" "400 * (n + 719162) < 146097 * ?k + 146097" by linarith+
  then have "year_start ?k \<le> n" "n < year_start (?k + 3)"
    using year_start_bounds(2) [of ?k] year_start_bounds(1) [of "?k + 3"] by simp_all
  then show ?thesis by (auto simp: utc_year_def Let_def add.assoc)
qed

lemma utc_fields:
  "1 \<le> utc_month n \<and> utc_month n \<le> 12 \<and> 1 \<le> utc_date n \<and> utc_date n \<le> month_days (leap (utc_year n)) (utc_month n)
    \<and> utc_day (utc_year n) (utc_month n) (utc_date n) = n"
proof -
  let ?y = "utc_year n" let ?l = "leap ?y" let ?doy = "n - year_start ?y"
  have doy: "0 \<le> ?doy" "?doy < days_before_month ?l 13"
    using utc_year_bounds [of n] year_start_next [of ?y] year_length [of ?l] by (auto split: if_splits)
  have "find (\<lambda>m. ?doy < days_before_month ?l (m + 1)) [1..<13] \<noteq> None"
    using doy by (auto simp: find_None_iff simp del: upt_Suc intro!: exI [of _ 12])
  then obtain m where m: "find (\<lambda>m. ?doy < days_before_month ?l (m + 1)) [1..<13] = Some m" by auto
  then obtain i where i: "i < 12" "m = Suc i" "?doy < days_before_month ?l (m + 1)"
      "\<forall>j < i. \<not> ?doy < days_before_month ?l (Suc j + 1)"
    unfolding find_Some_iff by (auto simp del: upt_Suc)
  have um: "utc_month n = m" using m by (simp add: utc_month_def Let_def del: upt_Suc)
  have "days_before_month ?l m \<le> ?doy"
  proof (cases i)
    case 0
    then show ?thesis using i(2) doy by simp
  next
    case (Suc j)
    then show ?thesis using i(2,4) by auto
  qed
  then show ?thesis using i um days_before_month_Suc [of m ?l] by (auto simp: utc_date_def utc_day_def)
qed

text \<open>
  Days compare like dates, also for a 29 February in a common year, which \<open>Date\<close> takes as 1 March.
\<close>

lemma utc_day_within:
  assumes "1 \<le> m" "m \<le> 12" "1 \<le> d" "d \<le> month_days True m"
  shows "year_start y \<le> utc_day y m d \<and> utc_day y m d < year_start (y + 1)"
proof -
  have "days_before_month (leap y) (Suc m) \<le> days_before_month (leap y) 13" using assms by (intro days_before_month_mono) auto
  moreover have "days_before_month (leap y) (Suc m) + 1 \<le> days_before_month (leap y) 13" if "m < 12"
    using days_before_month_mono [of "Suc (Suc m)" 13 "leap y"] days_before_month_Suc [of "Suc m" "leap y"]
      month_days_pos(1) [of "leap y" "Suc m"] that by simp
  moreover have "m = 12 \<Longrightarrow> month_days True m = month_days (leap y) m" by (simp add: month_days_def)
  ultimately have "days_before_month (leap y) m + d \<le> days_before_month (leap y) 13"
    using assms days_before_month_Suc [of m "leap y"] month_days_pos(3) [of m "leap y"] by (cases "m < 12") auto
  then show ?thesis
    using assms days_before_month_nonneg [of "leap y" m] year_start_next [of y] year_length [of "leap y"]
    by (auto simp: utc_day_def split: if_splits)
qed

lemma utc_day_le_iff:
  assumes d: "1 \<le> m" "m \<le> 12" "1 \<le> d" "d \<le> month_days True m"
    and D: "1 \<le> M" "M \<le> 12" "1 \<le> D" "D \<le> month_days (leap Y) M"
  shows "utc_day y m d \<le> utc_day Y M D \<longleftrightarrow> y < Y \<or> y = Y \<and> (m < M \<or> m = M \<and> d \<le> D)"
proof -
  have D': "D \<le> month_days True M" using D(4) by (auto simp: month_days_def split: if_splits)
  have "utc_day y m d < utc_day Y M D" if "y < Y"
    using utc_day_within [OF d, of y] utc_day_within [OF D(1-3) D', of Y] year_start_mono [of "y + 1" Y] that by linarith
  moreover have "utc_day Y M D < utc_day y m d" if "Y < y"
    using utc_day_within [OF d, of y] utc_day_within [OF D(1-3) D', of Y] year_start_mono [of "Y + 1" y] that by linarith
  moreover have "utc_day Y m d \<le> utc_day Y M D" if "m < M"
    using days_before_month_mono [of "Suc m" M "leap Y"] days_before_month_Suc [of m "leap Y"] month_days_pos(3) [of m "leap Y"]
      d D that by (simp add: utc_day_def)
  moreover have "utc_day Y M D < utc_day Y m d" if "M < m"
    using days_before_month_mono [of "Suc M" m "leap Y"] days_before_month_Suc [of M "leap Y"] d D that
    by (simp add: utc_day_def)
  ultimately show ?thesis by (cases y Y rule: linorder_cases; cases m M rule: linorder_cases) (force simp: utc_day_def)+
qed

text \<open>A parsed date of birth is a real date of the calendar.\<close>

lemma parseIsoDate_real:
  assumes "parseIsoDate v = Some (y, m, d)"
  shows "1 \<le> m \<and> m \<le> 12 \<and> 1 \<le> d \<and> d \<le> month_days (leap y) (nat m)"
proof -
  from assms obtain n where "utc_year n = y" "int (utc_month n) = m" "utc_date n = d"
    by (auto simp: parseIsoDate_def Let_def split: if_splits option.splits)
  then show ?thesis using utc_fields [of n] by auto
qed

lemma month_days_leap: "month_days l m \<le> month_days True m"
  by (simp add: month_days_def)

lemma date_utc_plain:
  assumes "MIN_BIRTH_YEAR \<le> y" "1 \<le> m" "m \<le> 12"
  shows "date_utc y m d = utc_day y (nat m) d"
proof -
  have "(m - 1) div 12 = 0" "(m - 1) mod 12 = m - 1" using assms by (auto intro: div_pos_pos_trivial mod_pos_pos_trivial)
  moreover have "Suc (nat (m - 1)) = nat m" using assms by simp
  ultimately show ?thesis using assms by (simp add: date_utc_def Let_def MIN_BIRTH_YEAR_def)
qed

text \<open>
  The age counts birthdays: it is at least \<open>n\<close> exactly when the day \<open>n\<close> years after the date of birth has come (in
  UTC; for a 29 February the 1 March of a common year).
\<close>

lemma ageInYears_birthdays:
  assumes "parseIsoDate dob = Some (y, m, d)" "ageInYears dob now = Some a"
  shows "n \<le> a \<longleftrightarrow> utc_day (y + n) (nat m) d \<le> now div MS_PER_DAY"
proof -
  let ?today = "now div MS_PER_DAY"
  let ?Y = "utc_year ?today" let ?M = "utc_month ?today" let ?D = "utc_date ?today"
  have real: "1 \<le> m" "m \<le> 12" "1 \<le> d" "d \<le> month_days True (nat m)"
    using parseIsoDate_real [OF assms(1)] month_days_leap [of "leap y" "nat m"] by auto
  have a: "a = (if int ?M < m \<or> (int ?M = m \<and> ?D < d) then ?Y - y - 1 else ?Y - y)"
    using assms by (simp add: ageInYears_def Let_def split: if_splits)
  have "utc_day (y + n) (nat m) d \<le> utc_day ?Y ?M ?D \<longleftrightarrow> y + n < ?Y \<or> y + n = ?Y \<and> (nat m < ?M \<or> nat m = ?M \<and> d \<le> ?D)"
    using utc_fields [of ?today] real by (intro utc_day_le_iff) auto
  then have "utc_day (y + n) (nat m) d \<le> ?today \<longleftrightarrow> y + n < ?Y \<or> y + n = ?Y \<and> (nat m < ?M \<or> nat m = ?M \<and> d \<le> ?D)"
    using utc_fields [of ?today] by simp
  then show ?thesis using a real(1) by auto
qed

lemma ageInYears_None_iff:
  "ageInYears dob now = None \<longleftrightarrow>
     (case parseIsoDate dob of None \<Rightarrow> True
      | Some (y, m, d) \<Rightarrow> y < MIN_BIRTH_YEAR \<or> utc_day y (nat m) d * MS_PER_DAY > now)"
proof (cases "parseIsoDate dob")
  case (Some ymd)
  then obtain y m d where "ymd = (y, m, d)" by (cases ymd) auto
  then show ?thesis using Some parseIsoDate_real [of dob y m d] date_utc_plain [of y m d] by (auto simp: ageInYears_def Let_def not_less)
qed (simp add: ageInYears_def)

end
