(* ===== verification/SessionGate.thy ===== *)
theory SessionGate
  imports Tokens Age Enforcement SessionLimits
begin

text \<open>
  The gate in front of matching: \<open>POST /api/session\<close> (\<open>backend/src/session/SessionService.ts\<close>), the bot check
  (\<open>session/turnstile.ts\<close>) and the socket handshake (\<open>session/handshake.ts\<close>). Its state is the session key-value store
  and the enforcement records; the keyed hashes, the network functions and the bot check's answer are parameters.
\<close>

section \<open>The bot check\<close>

definition TURNSTILE_MAX_INFLIGHT :: nat where "TURNSTILE_MAX_INFLIGHT = 64"

text \<open>What the request to Cloudflare comes to: it throws, the status is not ok, or a body is read.\<close>

datatype siteverify = SvThrows | SvNotOk | SvBody json

record turnstile_result =
  tr_success :: bool
  tr_errors :: "string list"

fun error_codes :: "json option \<Rightarrow> string list" where
  "error_codes (Some (JArray js)) = concat (map (\<lambda>j. case j of JText s \<Rightarrow> [s] | _ \<Rightarrow> []) js)"
| "error_codes _ = []"

fun is_object :: "json \<Rightarrow> bool" where
  "is_object (JObject fs) = True"
| "is_object (JArray js) = True"
| "is_object _ = False"

definition verifyTurnstile :: "nat \<Rightarrow> string option \<Rightarrow> siteverify \<Rightarrow> turnstile_result" where
  "verifyTurnstile inflight token sv =
     (if token = None \<or> token = Some '''' then \<lparr>tr_success = False, tr_errors = [''missing-input-response'']\<rparr>
      else if inflight \<ge> TURNSTILE_MAX_INFLIGHT then \<lparr>tr_success = False, tr_errors = [''overloaded'']\<rparr>
      else case sv of
        SvThrows \<Rightarrow> \<lparr>tr_success = False, tr_errors = [''network-error'']\<rparr>
      | SvNotOk \<Rightarrow> \<lparr>tr_success = False, tr_errors = [''bad-response'']\<rparr>
      | SvBody j \<Rightarrow>
          if \<not> is_object j then \<lparr>tr_success = False, tr_errors = [''bad-response'']\<rparr>
          else \<lparr>tr_success = (field j ''success'' = Some (JBool True)), tr_errors = error_codes (field j ''error-codes'')\<rparr>)"

section \<open>The request and its answer\<close>

definition SESSION_TOKEN_TTL_MS :: millis where "SESSION_TOKEN_TTL_MS = DAY_MS"
definition AGE_TOKEN_TTL_MS :: millis where "AGE_TOKEN_TTL_MS = 180 * DAY_MS"
definition TOS_VERSION :: string where "TOS_VERSION = ''2026-10-draft''"

datatype age_proof = BirthDate string string | AgeProofToken string string

record session_request =
  sq_deviceId :: device_id
  sq_fingerprint :: string
  sq_turnstileToken :: "string option"
  sq_age :: age_proof

datatype session_error =
  SInvalid | SUnderage | SLocked | SRegionBlocked | STurnstileFailed | SAgeTokenInvalid | STosOutdated | SClosed
| SBannedDevice | SRateLimited

fun SESSION_ERROR_STATUS :: "session_error \<Rightarrow> nat" where
  "SESSION_ERROR_STATUS SInvalid = 400"
| "SESSION_ERROR_STATUS STosOutdated = 400"
| "SESSION_ERROR_STATUS SAgeTokenInvalid = 401"
| "SESSION_ERROR_STATUS SUnderage = 403"
| "SESSION_ERROR_STATUS SLocked = 403"
| "SESSION_ERROR_STATUS SRegionBlocked = 403"
| "SESSION_ERROR_STATUS STurnstileFailed = 403"
| "SESSION_ERROR_STATUS SBannedDevice = 403"
| "SESSION_ERROR_STATUS SRateLimited = 429"
| "SESSION_ERROR_STATUS SClosed = 503"

record issued_session =
  is_sessionToken :: string
  is_sessionExpiresAt :: millis
  is_ageToken :: string
  is_ageExpiresAt :: millis
  is_country :: "string option"

text \<open>A refusal has its status, its error, the restriction that is shown, and the seconds of a \<open>Retry-After\<close>.\<close>

datatype session_answer =
  Refusal nat session_error "restriction option" "int option"
| Issued issued_session

record gate =
  gt_kv :: kv
  gt_enf :: enf

record gate_env =
  ge_hash :: hasher
  ge_net :: net_lib
  ge_lockSalts :: "salt list"
  ge_limitSalt :: salt
  ge_rateLimits :: session_rate_limits
  ge_newDevicesPerDay :: nat
  ge_tokens :: token_lib
  ge_keys :: "bytes list"
  ge_turnstile :: bool
  ge_enf :: "enf_env option"

text \<open>What one request meets: the clock, the flags, the address and country, the bot check.\<close>

record occasion =
  oc_now :: millis
  oc_flags :: flags
  oc_ip :: string
  oc_country :: "string option"
  oc_inflight :: nat
  oc_siteverify :: siteverify

definition refuse :: "session_error \<Rightarrow> restriction option \<Rightarrow> session_answer" where
  "refuse err r = Refusal (SESSION_ERROR_STATUS err) err r None"

definition pad_number :: "nat \<Rightarrow> int \<Rightarrow> string" where
  "pad_number n k = (let s = show_nat (nat k) in replicate (n - length s) CHR ''0'' @ s)"

definition utcDate :: "millis \<Rightarrow> string" where
  "utcDate now =
     (let n = now div MS_PER_DAY in
      pad_number 4 (utc_year n) @ ''-'' @ pad_number 2 (int (utc_month n)) @ ''-'' @ pad_number 2 (utc_date n))"

section \<open>\<open>create\<close>\<close>

text \<open>The age step: an error (with the lockout of a minor), or the age token and its expiry.\<close>

definition check_age :: "gate_env \<Rightarrow> occasion \<Rightarrow> session_request \<Rightarrow> kv \<Rightarrow> kv \<times> (session_error + string \<times> millis)" where
  "check_age e c q s =
     (case sq_age q of
        BirthDate dob tos \<Rightarrow>
          (case ageInYears dob (oc_now c) of
             None \<Rightarrow> (s, Inl SInvalid)
           | Some age \<Rightarrow>
               if age < ADULT_AGE
               then (lock (ge_hash e) (ge_net e) (ge_lockSalts e) (oc_now c) (utcDate (oc_now c)) (sq_deviceId q)
                       (sq_fingerprint q) (oc_ip c) s, Inl SUnderage)
               else if tos \<noteq> TOS_VERSION then (s, Inl STosOutdated)
               else
                 let expiry = oc_now c + AGE_TOKEN_TTL_MS in
                 (s, Inr (sign (ge_tokens e) (ge_keys e) (AgeToken (sq_deviceId q) TOS_VERSION (oc_now c) expiry), expiry)))
      | AgeProofToken tok tos \<Rightarrow>
          if tos \<noteq> TOS_VERSION then (s, Inl STosOutdated)
          else case verifyAge (ge_tokens e) (ge_keys e) (Some tok) (oc_now c) of
            Some (AgeToken d ptos iat expiry) \<Rightarrow>
              if d \<noteq> sq_deviceId q then (s, Inl SAgeTokenInvalid)
              else (s, Inr (if ptos = TOS_VERSION then tok
                            else sign (ge_tokens e) (ge_keys e) (AgeToken d TOS_VERSION (oc_now c) expiry), expiry))
          | _ \<Rightarrow> (s, Inl SAgeTokenInvalid))"

definition is_birth_date :: "age_proof \<Rightarrow> bool" where
  "is_birth_date p = (case p of BirthDate _ _ \<Rightarrow> True | AgeProofToken _ _ \<Rightarrow> False)"

text \<open>The address, unless it is unknown: a recent ban on it, and the cap on new devices.\<close>

definition check_network :: "gate_env \<Rightarrow> occasion \<Rightarrow> session_request \<Rightarrow> gate \<Rightarrow> gate \<times> session_answer option" where
  "check_network e c q g =
     (if oc_ip c = UNKNOWN_IP then (g, None)
      else
        case (case ge_enf e of Some ee \<Rightarrow> activeForNetwork ee (oc_now c) (oc_ip c) (gt_enf g) | None \<Rightarrow> None) of
          Some r \<Rightarrow> (g, Some (refuse SBannedDevice (Some r)))
        | None \<Rightarrow>
            if \<not> is_birth_date (sq_age q) then (g, None)
            else
              let (s, admitted) = new_device_admit (ge_hash e) (ge_net e) (ge_limitSalt e) (ge_newDevicesPerDay e)
                    (oc_now c) (sq_deviceId q) (oc_ip c) (gt_kv g) in
              (g\<lparr>gt_kv := s\<rparr>,
               if admitted then None
               else Some (Refusal (SESSION_ERROR_STATUS SRateLimited) SRateLimited None (Some (retryAfterSec (oc_now c))))))"

definition issue_session :: "gate_env \<Rightarrow> occasion \<Rightarrow> session_request \<Rightarrow> string \<Rightarrow> millis \<Rightarrow> issued_session" where
  "issue_session e c q ageToken ageExpiresAt =
     (let expiry = oc_now c + SESSION_TOKEN_TTL_MS in
      \<lparr>is_sessionToken = sign (ge_tokens e) (ge_keys e) (SessionToken (sq_deviceId q) (oc_country c) (oc_now c) expiry),
       is_sessionExpiresAt = expiry, is_ageToken = ageToken, is_ageExpiresAt = ageExpiresAt, is_country = oc_country c\<rparr>)"

text \<open>From the restrictions on: the device's own, the address, and the issue.\<close>

definition admit_device :: "gate_env \<Rightarrow> occasion \<Rightarrow> session_request \<Rightarrow> string \<times> millis \<Rightarrow> gate \<Rightarrow> gate \<times> session_answer" where
  "admit_device e c q proof g =
     (let (s, r) = (case ge_enf e of
                      Some ee \<Rightarrow> activeForDevice (oc_now c) (sq_deviceId q) (Some (sq_fingerprint q)) (gt_enf g)
                    | None \<Rightarrow> (gt_enf g, None));
          g1 = g\<lparr>gt_enf := s\<rparr> in
      case r of
        Some x \<Rightarrow> (g1, refuse SBannedDevice (Some x))
      | None \<Rightarrow>
          let (g2, refused) = check_network e c q g1 in
          case refused of
            Some answer \<Rightarrow> (g2, answer)
          | None \<Rightarrow>
              let ip = (if oc_ip c = UNKNOWN_IP then None else Some (oc_ip c));
                  g3 = (case ge_enf e of
                          Some ee \<Rightarrow> g2\<lparr>gt_enf := noteDeviceNetwork (oc_now c) (sq_deviceId q) ip (oc_country c) (gt_enf g2)\<rparr>
                        | None \<Rightarrow> g2) in
              (g3, Issued (issue_session e c q (fst proof) (snd proof))))"

text \<open>\<open>raw\<close> is the schema's verdict on the body.\<close>

definition create_session :: "gate_env \<Rightarrow> occasion \<Rightarrow> session_request option \<Rightarrow> gate \<Rightarrow> gate \<times> session_answer" where
  "create_session e c raw g =
     (let (s1, allowed) = rate_allow (ge_hash e) (ge_net e) (ge_limitSalt e) (ge_rateLimits e) (oc_now c) (oc_ip c) (gt_kv g);
          g1 = g\<lparr>gt_kv := s1\<rparr> in
      if \<not> allowed then (g1, refuse SRateLimited None)
      else case raw of
        None \<Rightarrow> (g1, refuse SInvalid None)
      | Some q \<Rightarrow>
          if \<not> new_sessions_enabled (oc_flags c) then (g1, refuse SClosed None)
          else if isCountryBlocked (oc_country c) (oc_flags c) then (g1, refuse SRegionBlocked None)
          else if isLocked (ge_hash e) (ge_net e) (ge_lockSalts e) (oc_now c) s1 (sq_deviceId q) (sq_fingerprint q) (oc_ip c)
          then (g1, refuse SLocked None)
          else
            let ts = verifyTurnstile (oc_inflight c) (sq_turnstileToken q) (oc_siteverify c) in
            if ge_turnstile e \<and> \<not> tr_success ts
            then (g1, refuse (if ''overloaded'' \<in> set (tr_errors ts) then SClosed else STurnstileFailed) None)
            else
              let (s2, aged) = check_age e c q s1; g2 = g1\<lparr>gt_kv := s2\<rparr> in
              case aged of
                Inl err \<Rightarrow> (g2, refuse err None)
              | Inr proof \<Rightarrow> admit_device e c q proof g2)"

section \<open>The handshake\<close>

datatype reject_code = RejectSessionRequired | RejectRegionBlocked

record handshake_session =
  hs_deviceId :: device_id
  hs_country :: "string option"
  hs_expiresAt :: millis

record handshake_request =
  hr_sessionToken :: "string option"
  hr_countryHeader :: "string option"
  hr_proxyIp :: "string option"
  hr_address :: "string option"

text \<open>The last flag says whether the store takes the binding of the device to its address; if not, it goes on without.\<close>

definition sessionHandshake ::
  "gate_env \<Rightarrow> bool \<Rightarrow> flags \<Rightarrow> millis \<Rightarrow> handshake_request \<Rightarrow> bool \<Rightarrow> kv \<Rightarrow> kv \<times> (reject_code + handshake_session)" where
  "sessionHandshake e trustCloudflare f now r bound s =
     (case verifySession (ge_tokens e) (ge_keys e) (hr_sessionToken r) now of
        Some (SessionToken d cc iat expiry) \<Rightarrow>
          let edge = requestCountry (hr_countryHeader r) trustCloudflare in
          if isCountryBlocked cc f \<or> isCountryBlocked edge f then (s, Inl RejectRegionBlocked)
          else
            let session = \<lparr>hs_deviceId = d, hs_country = (case edge of Some x \<Rightarrow> Some x | None \<Rightarrow> cc), hs_expiresAt = expiry\<rparr>;
                ip = requestIp (ge_net e) (hr_proxyIp r) (hr_address r) in
            (if bound then bindIp (ge_hash e) (ge_net e) (ge_limitSalt e) now d ip s else s, Inr session)
      | _ \<Rightarrow> (s, Inl RejectSessionRequired))"

end
