(* ===== verification/SessionTheorems.thy ===== *)
theory SessionTheorems
  imports SessionGate
begin

text \<open>
  What a session proves: whoever is issued one has passed every check, the socket handshake accepts it for its device
  until it expires, and who was found to be a minor stays out.
\<close>

section \<open>The key-value store under the gate's operations\<close>

definition lock_key :: "gate_env \<Rightarrow> device_id \<Rightarrow> kv_key" where
  "lock_key e d = DeviceLockout (ge_hash e (hd (ge_lockSalts e)) (''device:'' @ d))"

lemma kv_set_live:
  "kv_ok s \<Longrightarrow> now \<le> t \<Longrightarrow>
     kv_live t (kv_set now s k v ttl) j = (if j = k then (if now + ttl \<le> t then None else Some v) else kv_live t s j)"
  using kv_get_set [of s now t k v ttl j] by (simp add: kv_get_def)

lemma rate_allow_frame:
  assumes "kv_ok s" "now \<le> t"
  shows "kv_ok (fst (rate_allow h net salt limits now ip s))"
    and "kv_live t (fst (rate_allow h net salt limits now ip s)) (DeviceLockout x) = kv_live t s (DeviceLockout x)"
    and "kv_live t (fst (rate_allow h net salt limits now ip s)) (FingerprintLockout x) = kv_live t s (FingerprintLockout x)"
  using assms by (simp_all add: rate_allow_def Let_def kv_incr_ok kv_incr_other split: prod.split)
    (metis fst_conv kv_incr_ok kv_incr_other kv_key.distinct)+

lemma new_device_admit_frame:
  assumes "kv_ok s" "now \<le> t"
  shows "kv_ok (fst (new_device_admit h net salt n now d ip s))"
    and "kv_live t (fst (new_device_admit h net salt n now d ip s)) (DeviceLockout x) = kv_live t s (DeviceLockout x)"
  using assms by (simp_all add: new_device_admit_def Let_def kv_set_live kv_set_ok kv_incr_ok kv_incr_other)

lemma bindIp_frame:
  assumes "kv_ok s" "now \<le> t"
  shows "kv_ok (bindIp h net salt now d ip s)"
    and "kv_live t (bindIp h net salt now d ip s) (DeviceLockout x) = kv_live t s (DeviceLockout x)"
  using assms by (simp_all add: bindIp_def kv_set_live kv_set_ok)

lemma lock_frame:
  assumes "kv_ok s" "now \<le> t"
  shows "kv_ok (lock h net salts now date d fp ip s)"
    and "kv_live t (lock h net (salt # ss) now date d fp ip s) (DeviceLockout x) =
      (if x = h salt (''device:'' @ d) then (if now + DEVICE_LOCKOUT_MS \<le> t then None else Some (Text date))
       else kv_live t s (DeviceLockout x))"
  using assms
  by (simp_all add: lock_def lockout_keys_def Let_def kv_set_live kv_set_ok split: list.split)

text \<open>A lockout that is in force at \<open>t\<close> stays in force at \<open>t\<close> over every operation done before.\<close>

definition locked_at :: "gate_env \<Rightarrow> millis \<Rightarrow> device_id \<Rightarrow> kv \<Rightarrow> bool" where
  "locked_at e t d s \<longleftrightarrow> kv_live t s (lock_key e d) \<noteq> None"

lemma locked_isLocked:
  "ge_lockSalts e \<noteq> [] \<Longrightarrow> locked_at e t d s \<Longrightarrow> isLocked (ge_hash e) (ge_net e) (ge_lockSalts e) t s d fp ip"
  by (cases "ge_lockSalts e") (auto simp: locked_at_def lock_key_def isLocked_def kv_mget_def lockout_keys_def Let_def)

lemma check_age_locked:
  assumes "kv_ok s" "oc_now c \<le> t" "t < oc_now c + DEVICE_LOCKOUT_MS" "ge_lockSalts e \<noteq> []"
  shows "kv_ok (fst (check_age e c q s))" and "locked_at e t d s \<Longrightarrow> locked_at e t d (fst (check_age e c q s))"
    and "snd (check_age e c q s) = Inl SUnderage \<Longrightarrow> locked_at e t (sq_deviceId q) (fst (check_age e c q s))"
proof -
  obtain salt ss where salts: "ge_lockSalts e = salt # ss" using assms(4) by (cases "ge_lockSalts e") auto
  note l = lock_frame [OF assms(1,2), of "ge_hash e" "ge_net e"]
  show "kv_ok (fst (check_age e c q s))"
    using l(1) assms(1) by (auto simp: check_age_def Let_def split: age_proof.split option.split token_payload.split)
  show "locked_at e t d s \<Longrightarrow> locked_at e t d (fst (check_age e c q s))"
    using l(2) assms(3) salts
    by (auto simp: check_age_def locked_at_def lock_key_def Let_def split: age_proof.split option.split token_payload.split)
  show "snd (check_age e c q s) = Inl SUnderage \<Longrightarrow> locked_at e t (sq_deviceId q) (fst (check_age e c q s))"
    using l(2) assms(3) salts
    by (auto simp: check_age_def locked_at_def lock_key_def Let_def
        split: age_proof.splits option.splits token_payload.splits if_splits)
qed

lemma check_network_frame:
  assumes "kv_ok (gt_kv g)" "oc_now c \<le> t"
  shows "kv_ok (gt_kv (fst (check_network e c q g)))"
    and "locked_at e t d (gt_kv (fst (check_network e c q g))) = locked_at e t d (gt_kv g)"
  using assms new_device_admit_frame [OF assms, of "ge_hash e" "ge_net e" "ge_limitSalt e" "ge_newDevicesPerDay e" "sq_deviceId q" "oc_ip c"]
  by (auto simp: check_network_def locked_at_def lock_key_def split: option.split prod.split)

lemma admit_device_frame:
  assumes "kv_ok (gt_kv g)" "oc_now c \<le> t"
  shows "kv_ok (gt_kv (fst (admit_device e c q proof g)))"
    and "locked_at e t d (gt_kv (fst (admit_device e c q proof g))) = locked_at e t d (gt_kv g)"
proof -
  obtain s r where a: "(case ge_enf e of
        Some ee \<Rightarrow> activeForDevice (oc_now c) (sq_deviceId q) (Some (sq_fingerprint q)) (gt_enf g)
      | None \<Rightarrow> (gt_enf g, None)) = (s, r)" by fastforce
  have "kv_ok (gt_kv (g\<lparr>gt_enf := s\<rparr>))" using assms(1) by simp
  note n = check_network_frame [OF this assms(2), where e = e and q = q]
  show "kv_ok (gt_kv (fst (admit_device e c q proof g)))"
    using n(1) assms(1) unfolding admit_device_def a by (auto simp: Let_def split: option.split prod.split)
  show "locked_at e t d (gt_kv (fst (admit_device e c q proof g))) = locked_at e t d (gt_kv g)"
    using n(2) [of d] unfolding admit_device_def a by (auto simp: Let_def split: option.split prod.split)
qed

lemma create_session_frame:
  assumes "kv_ok (gt_kv g)" "oc_now c \<le> t" "t < oc_now c + DEVICE_LOCKOUT_MS" "ge_lockSalts e \<noteq> []"
  shows "kv_ok (gt_kv (fst (create_session e c raw g)))"
    and "locked_at e t d (gt_kv g) \<Longrightarrow> locked_at e t d (gt_kv (fst (create_session e c raw g)))"
proof -
  obtain s1 ok where ra: "rate_allow (ge_hash e) (ge_net e) (ge_limitSalt e) (ge_rateLimits e) (oc_now c) (oc_ip c) (gt_kv g) = (s1, ok)"
    by fastforce
  have s1: "kv_ok s1" and keep1: "locked_at e t d s1 = locked_at e t d (gt_kv g)" for d
    using rate_allow_frame [OF assms(1,2), of "ge_hash e" "ge_net e" "ge_limitSalt e" "ge_rateLimits e" "oc_ip c"] ra
    by (auto simp: locked_at_def lock_key_def)
  note aged = check_age_locked [OF s1 assms(2-4)]
  show "kv_ok (gt_kv (fst (create_session e c raw g)))"
    using s1 aged(1) admit_device_frame(1) [OF _ assms(2)] unfolding create_session_def ra
    by (auto simp: Let_def split: option.split prod.split sum.split) (metis fst_conv gate.select_convs(1) gate.update_convs(1) gate.surjective)+
  show "locked_at e t d (gt_kv g) \<Longrightarrow> locked_at e t d (gt_kv (fst (create_session e c raw g)))"
    using s1 keep1 aged(1,2) admit_device_frame(2) [OF _ assms(2)] unfolding create_session_def ra
    by (auto simp: Let_def split: option.split prod.split sum.split) (metis fst_conv gate.select_convs(1) gate.update_convs(1) gate.surjective)+
qed

section \<open>What an issued session has passed\<close>

lemma check_network_not_issued: "snd (check_network e c q g) \<noteq> Some (Issued s)"
  by (auto simp: check_network_def refuse_def split: option.split prod.split if_splits)

lemma admit_device_issued:
  assumes "snd (admit_device e c q pr g) = Issued s"
  shows "s = issue_session e c q (fst pr) (snd pr)
    \<and> (\<forall>ee. ge_enf e = Some ee \<longrightarrow> snd (activeForDevice (oc_now c) (sq_deviceId q) (Some (sq_fingerprint q)) (gt_enf g)) = None)"
proof -
  obtain x r where a: "(case ge_enf e of
        Some ee \<Rightarrow> activeForDevice (oc_now c) (sq_deviceId q) (Some (sq_fingerprint q)) (gt_enf g)
      | None \<Rightarrow> (gt_enf g, None)) = (x, r)" by fastforce
  obtain g2 no where n: "check_network e c q (g\<lparr>gt_enf := x\<rparr>) = (g2, no)" by fastforce
  have "r = None" "no = None \<or> no = Some (Issued s)"
    using assms n unfolding admit_device_def a by (auto simp: refuse_def Let_def split: option.splits)
  moreover have "no \<noteq> Some (Issued s)" using check_network_not_issued [of e c q "g\<lparr>gt_enf := x\<rparr>" s] n by simp
  moreover have "r = snd (activeForDevice (oc_now c) (sq_deviceId q) (Some (sq_fingerprint q)) (gt_enf g))"
    if "ge_enf e = Some ee" for ee using a that by (metis option.simps(5) snd_conv)
  ultimately show ?thesis using assms n unfolding admit_device_def a by (auto simp: Let_def split: option.splits)
qed

lemma create_session_issued:
  assumes "snd (create_session e c raw g) = Issued s"
  obtains q s1 s2 pr where "raw = Some q" "rate_allow (ge_hash e) (ge_net e) (ge_limitSalt e) (ge_rateLimits e) (oc_now c) (oc_ip c) (gt_kv g) = (s1, True)"
    "new_sessions_enabled (oc_flags c)" "\<not> isCountryBlocked (oc_country c) (oc_flags c)"
    "\<not> isLocked (ge_hash e) (ge_net e) (ge_lockSalts e) (oc_now c) s1 (sq_deviceId q) (sq_fingerprint q) (oc_ip c)"
    "ge_turnstile e \<longrightarrow> tr_success (verifyTurnstile (oc_inflight c) (sq_turnstileToken q) (oc_siteverify c))"
    "check_age e c q s1 = (s2, Inr pr)"
    "snd (admit_device e c q pr (g\<lparr>gt_kv := s2\<rparr>)) = Issued s"
proof -
  obtain s1 ok where ra: "rate_allow (ge_hash e) (ge_net e) (ge_limitSalt e) (ge_rateLimits e) (oc_now c) (oc_ip c) (gt_kv g) = (s1, ok)"
    by fastforce
  have ok: ok and "raw \<noteq> None" using assms ra by (auto simp: create_session_def Let_def refuse_def split: if_splits option.splits)
  then obtain q where q: "raw = Some q" by auto
  obtain s2 aged where ag: "check_age e c q s1 = (s2, aged)" by fastforce
  have checks: "new_sessions_enabled (oc_flags c)" "\<not> isCountryBlocked (oc_country c) (oc_flags c)"
    "\<not> isLocked (ge_hash e) (ge_net e) (ge_lockSalts e) (oc_now c) s1 (sq_deviceId q) (sq_fingerprint q) (oc_ip c)"
    "ge_turnstile e \<longrightarrow> tr_success (verifyTurnstile (oc_inflight c) (sq_turnstileToken q) (oc_siteverify c))"
    using assms ra ok q by (auto simp: create_session_def Let_def refuse_def split: if_splits)
  then have "(case aged of Inl err \<Rightarrow> refuse err None | Inr pr \<Rightarrow> snd (admit_device e c q pr (g\<lparr>gt_kv := s2\<rparr>))) = Issued s"
    using assms ra ok q ag by (cases aged) (auto simp: create_session_def Let_def split: if_splits)
  then obtain pr where "aged = Inr pr" "snd (admit_device e c q pr (g\<lparr>gt_kv := s2\<rparr>)) = Issued s"
    by (cases aged) (auto simp: refuse_def)
  then show ?thesis using that q ra ok checks ag by simp
qed

text \<open>The age proof behind a session: a date of birth with its eighteenth birthday, or a token for this device.\<close>

definition of_age :: "gate_env \<Rightarrow> occasion \<Rightarrow> session_request \<Rightarrow> millis \<Rightarrow> bool" where
  "of_age e c q until \<longleftrightarrow>
     (case sq_age q of
        BirthDate dob tos \<Rightarrow>
          tos = TOS_VERSION \<and> until = oc_now c + AGE_TOKEN_TTL_MS
          \<and> (\<exists>y m d. parseIsoDate dob = Some (y, m, d) \<and> utc_day (y + 18) (nat m) d \<le> oc_now c div MS_PER_DAY)
      | AgeProofToken tok tos \<Rightarrow>
          tos = TOS_VERSION
          \<and> (\<exists>t iat. verifyAge (ge_tokens e) (ge_keys e) (Some tok) (oc_now c) = Some (AgeToken (sq_deviceId q) t iat until)))"

lemma check_age_of_age:
  assumes "check_age e c q s = (s2, Inr pr)"
  shows "of_age e c q (snd pr)"
proof (cases "sq_age q")
  case (BirthDate dob tos)
  then obtain age where age: "ageInYears dob (oc_now c) = Some age" "\<not> age < ADULT_AGE" "tos = TOS_VERSION"
      "snd pr = oc_now c + AGE_TOKEN_TTL_MS"
    using assms by (auto simp: check_age_def Let_def split: option.splits if_splits)
  then obtain y m d where ymd: "parseIsoDate dob = Some (y, m, d)" by (auto simp: ageInYears_def split: option.splits)
  then show ?thesis
    using BirthDate age ageInYears_birthdays [OF ymd age(1), of 18] by (auto simp: of_age_def ADULT_AGE_def)
next
  case (AgeProofToken tok tos)
  then show ?thesis using assms
    by (auto simp: check_age_def of_age_def split: option.splits token_payload.splits if_splits)
qed

lemma handshake_with_token:
  assumes "verifySession (ge_tokens e) (ge_keys e) (hr_sessionToken r) t = (if expiry \<le> t then None else Some (SessionToken d cc iat expiry))"
  shows "snd (sessionHandshake e trust f t r b kv) = Inr h
    \<longleftrightarrow> t < expiry \<and> \<not> isCountryBlocked cc f \<and> \<not> isCountryBlocked (requestCountry (hr_countryHeader r) trust) f
        \<and> h = \<lparr>hs_deviceId = d,
               hs_country = (case requestCountry (hr_countryHeader r) trust of Some x \<Rightarrow> Some x | None \<Rightarrow> cc),
               hs_expiresAt = expiry\<rparr>"
  using assms by (cases "expiry \<le> t") (auto simp: sessionHandshake_def Let_def)

section \<open>The properties\<close>

text \<open>
  C24: a session is issued only to an adult who passed every check: sessions are open, the country is not blocked, the
  device not locked out, the bot check passed where there is one, the current Terms accepted, the eighteenth birthday
  reached (or an age token of this very device, whose expiry does not slide), and no restriction active on the device or
  its fingerprint. Its token then opens the socket for exactly this device and until exactly its expiry, a day later,
  as long as the country is not blocked; and it does so under every later set of keys that still has the signing key.
\<close>

theorem session_is_earned:
  assumes "snd (create_session e c (Some q) g) = Issued s"
    and "token_lib_ok (ge_tokens e)"
    and "json_faithful (ge_tokens e) (SessionToken (sq_deviceId q) (oc_country c) (oc_now c) (oc_now c + SESSION_TOKEN_TTL_MS))"
    and "ge_keys e \<noteq> []" and "length (is_sessionToken s) \<le> MAX_TOKEN_CHARS" and "hd (ge_keys e) \<in> set keys"
  shows "new_sessions_enabled (oc_flags c) \<and> \<not> isCountryBlocked (oc_country c) (oc_flags c)
    \<and> \<not> isLocked (ge_hash e) (ge_net e) (ge_lockSalts e) (oc_now c)
          (fst (rate_allow (ge_hash e) (ge_net e) (ge_limitSalt e) (ge_rateLimits e) (oc_now c) (oc_ip c) (gt_kv g)))
          (sq_deviceId q) (sq_fingerprint q) (oc_ip c)
    \<and> (ge_turnstile e \<longrightarrow> tr_success (verifyTurnstile (oc_inflight c) (sq_turnstileToken q) (oc_siteverify c)))
    \<and> of_age e c q (is_ageExpiresAt s)
    \<and> (ge_enf e \<noteq> None \<longrightarrow>
         snd (activeForDevice (oc_now c) (sq_deviceId q) (Some (sq_fingerprint q)) (gt_enf g)) = None)
    \<and> (\<forall>trust f t r b kv h. hr_sessionToken r = Some (is_sessionToken s) \<longrightarrow>
         (snd (sessionHandshake (e\<lparr>ge_keys := keys\<rparr>) trust f t r b kv) = Inr h
          \<longleftrightarrow> t < oc_now c + SESSION_TOKEN_TTL_MS
              \<and> \<not> isCountryBlocked (oc_country c) f \<and> \<not> isCountryBlocked (requestCountry (hr_countryHeader r) trust) f
              \<and> h = \<lparr>hs_deviceId = sq_deviceId q,
                     hs_country = (case requestCountry (hr_countryHeader r) trust of Some x \<Rightarrow> Some x | None \<Rightarrow> oc_country c),
                     hs_expiresAt = is_sessionExpiresAt s\<rparr>))"
proof -
  obtain s1 s2 pr where
      ra: "rate_allow (ge_hash e) (ge_net e) (ge_limitSalt e) (ge_rateLimits e) (oc_now c) (oc_ip c) (gt_kv g) = (s1, True)"
      and checks: "new_sessions_enabled (oc_flags c)" "\<not> isCountryBlocked (oc_country c) (oc_flags c)"
        "\<not> isLocked (ge_hash e) (ge_net e) (ge_lockSalts e) (oc_now c) s1 (sq_deviceId q) (sq_fingerprint q) (oc_ip c)"
        "ge_turnstile e \<longrightarrow> tr_success (verifyTurnstile (oc_inflight c) (sq_turnstileToken q) (oc_siteverify c))"
      and aged: "check_age e c q s1 = (s2, Inr pr)"
      and adm: "snd (admit_device e c q pr (g\<lparr>gt_kv := s2\<rparr>)) = Issued s"
    using create_session_issued [OF assms(1)] by (metis option.inject)
  note issued = admit_device_issued [OF adm]
  let ?p = "SessionToken (sq_deviceId q) (oc_country c) (oc_now c) (oc_now c + SESSION_TOKEN_TTL_MS)"
  have s: "is_sessionToken s = sign (ge_tokens e) (ge_keys e) ?p" "is_sessionExpiresAt s = oc_now c + SESSION_TOKEN_TTL_MS"
    "is_ageExpiresAt s = snd pr"
    using issued by (simp_all add: issue_session_def Let_def)
  have v: "verifySession (ge_tokens e) keys (Some (is_sessionToken s)) t
      = (if oc_now c + SESSION_TOKEN_TTL_MS \<le> t then None else Some ?p)" for t
    using verifySession_sign [OF assms(2,3,4) assms(5) [unfolded s(1)] assms(6), of t] s(1) by simp
  show ?thesis
    using ra checks check_age_of_age [OF aged] conjunct2 [OF issued] s(2,3)
      handshake_with_token [of "e\<lparr>ge_keys := keys\<rparr>", where d = "sq_deviceId q" and cc = "oc_country c"
        and iat = "oc_now c" and expiry = "oc_now c + SESSION_TOKEN_TTL_MS"]
    by (simp add: v)
qed

text \<open>The gate over a run of requests and handshakes.\<close>

datatype gate_op = RequestSession occasion "session_request option" | Handshake bool flags millis handshake_request bool

fun op_time :: "gate_op \<Rightarrow> millis" where
  "op_time (RequestSession c raw) = oc_now c"
| "op_time (Handshake trust f now r b) = now"

fun gate_do :: "gate_env \<Rightarrow> gate_op \<Rightarrow> gate \<Rightarrow> gate" where
  "gate_do e (RequestSession c raw) g = fst (create_session e c raw g)"
| "gate_do e (Handshake trust f now r b) g = g\<lparr>gt_kv := fst (sessionHandshake e trust f now r b (gt_kv g))\<rparr>"

definition gate_run :: "gate_env \<Rightarrow> gate_op list \<Rightarrow> gate \<Rightarrow> gate" where
  "gate_run e xs g = foldl (\<lambda>g x. gate_do e x g) g xs"

lemma handshake_frame:
  assumes "kv_ok s" "now \<le> t"
  shows "kv_ok (fst (sessionHandshake e trust f now r b s))"
    and "locked_at e t d (fst (sessionHandshake e trust f now r b s)) = locked_at e t d s"
  using bindIp_frame [OF assms] assms(1)
  by (auto simp: sessionHandshake_def locked_at_def lock_key_def Let_def split: option.split token_payload.split)

lemma gate_run_locked:
  assumes "ge_lockSalts e \<noteq> []" "kv_ok (gt_kv g)" "locked_at e t d (gt_kv g)"
    and "\<forall>x \<in> set xs. op_time x \<le> t \<and> t < op_time x + DEVICE_LOCKOUT_MS"
  shows "kv_ok (gt_kv (gate_run e xs g)) \<and> locked_at e t d (gt_kv (gate_run e xs g))"
  using assms
proof (induction xs arbitrary: g)
  case (Cons x xs)
  have "kv_ok (gt_kv (gate_do e x g)) \<and> locked_at e t d (gt_kv (gate_do e x g))"
    using Cons.prems create_session_frame [OF Cons.prems(2) _ _ Cons.prems(1)] handshake_frame [OF Cons.prems(2)]
    by (cases x) auto
  then show ?case using Cons by (simp add: gate_run_def)
qed (simp add: gate_run_def)


section \<open>Witnesses\<close>

text \<open>A gate whose base64url writes every number in strokes, and whose keyed hash is the same for all bodies.\<close>

fun strokes :: "bytes \<Rightarrow> string" where
  "strokes [] = ''''"
| "strokes (n # ns) = replicate n CHR ''a'' @ CHR ''b'' # strokes ns"

fun count_strokes :: "nat \<Rightarrow> string \<Rightarrow> bytes" where
  "count_strokes n [] = []"
| "count_strokes n (c # cs) = (if c = CHR ''b'' then n # count_strokes 0 cs else count_strokes (Suc n) cs)"

lemma count_run: "count_strokes m (replicate n CHR ''a'' @ cs) = count_strokes (m + n) cs"
  by (induction n arbitrary: m) auto

lemma count_strokes_strokes: "count_strokes 0 (strokes ns) = ns"
  by (induction ns) (simp_all add: count_run)

lemma strokes_no_dot: "CHR ''.'' \<notin> set (strokes ns)"
  by (induction ns) auto

definition sample_payload :: token_payload where
  "sample_payload = SessionToken ''d1'' None 1700000000000 1700086400000"

definition sample_gate_env :: gate_env where
  "sample_gate_env =
     \<lparr>ge_hash = (\<lambda>salt s. s), ge_net = \<lparr>isIPv4 = (\<lambda>s. False), isIPv6 = (\<lambda>s. False)\<rparr>, ge_lockSalts = [''l''],
      ge_limitSalt = ''m'', ge_rateLimits = \<lparr>perIpPerMinute = 10, perNetworkPerMinute = 30\<rparr>, ge_newDevicesPerDay = 50,
      ge_tokens = \<lparr>tl_derive = (\<lambda>s. [1]), tl_mac = (\<lambda>k b. [2]), tl_encode = strokes, tl_decode = count_strokes 0,
        tl_stringify = (\<lambda>j. [1]), tl_parse = (\<lambda>b. Some (token_json sample_payload))\<rparr>,
      ge_keys = [[1]], ge_turnstile = False, ge_enf = None\<rparr>"

definition sample_occasion :: "millis \<Rightarrow> occasion" where
  "sample_occasion now =
     \<lparr>oc_now = now, oc_flags = FLAG_DEFAULTS, oc_ip = UNKNOWN_IP, oc_country = None, oc_inflight = 0, oc_siteverify = SvThrows\<rparr>"

definition sample_request :: "string \<Rightarrow> session_request" where
  "sample_request dob =
     \<lparr>sq_deviceId = ''d1'', sq_fingerprint = ''f'', sq_turnstileToken = None, sq_age = BirthDate dob TOS_VERSION\<rparr>"

definition fresh_gate :: gate where
  "fresh_gate = \<lparr>gt_kv = new_kv, gt_enf = new_enf\<rparr>"

lemma sample_lib: "token_lib_ok (ge_tokens sample_gate_env)"
  by (simp add: token_lib_ok_def sample_gate_env_def count_strokes_strokes strokes_no_dot)

lemma sample_ages: "ageInYears ''2000-01-15'' 1700000000000 = Some 23" "ageInYears ''2010-01-15'' 1700000000000 = Some 13"
  by code_simp+

lemmas sample_defs = sample_gate_env_def sample_request_def sample_occasion_def fresh_gate_def new_kv_def

lemma adult_gets_session:
  "\<exists>s. snd (create_session sample_gate_env (sample_occasion 1700000000000) (Some (sample_request ''2000-01-15'')) fresh_gate) = Issued s
    \<and> length (is_sessionToken s) \<le> MAX_TOKEN_CHARS"
  by (simp add: create_session_def check_age_def admit_device_def check_network_def issue_session_def sample_defs sample_ages
      rate_allow_def kv_incr_def kv_live_def live_def kv_prune_def PRUNE_EVERY_OPS_def at_most_def isLocked_def kv_mget_def
      lockout_keys_def isCountryBlocked_def FLAG_DEFAULTS_def ADULT_AGE_def sign_def token_body_def TOKEN_PREFIX_def
      MAX_TOKEN_CHARS_def Let_def)

theorem session_is_earned_witness:
  "\<exists>s :: issued_session. of_age sample_gate_env (sample_occasion 1700000000000) (sample_request ''2000-01-15'') (is_ageExpiresAt s)"
proof -
  obtain s where s: "snd (create_session sample_gate_env (sample_occasion 1700000000000) (Some (sample_request ''2000-01-15'')) fresh_gate) = Issued s"
      "length (is_sessionToken s) \<le> MAX_TOKEN_CHARS" using adult_gets_session by blast
  have json: "json_faithful (ge_tokens sample_gate_env) (SessionToken (sq_deviceId (sample_request ''2000-01-15''))
      (oc_country (sample_occasion 1700000000000)) (oc_now (sample_occasion 1700000000000))
      (oc_now (sample_occasion 1700000000000) + SESSION_TOKEN_TTL_MS))"
    by (simp add: json_faithful_def sample_defs sample_payload_def SESSION_TOKEN_TTL_MS_def DAY_MS_def)
  have keys: "ge_keys sample_gate_env \<noteq> []" "hd (ge_keys sample_gate_env) \<in> set [[1]]" by (simp_all add: sample_gate_env_def)
  note earned = session_is_earned [OF s(1) sample_lib json keys(1) s(2) keys(2)]
  have "of_age sample_gate_env (sample_occasion 1700000000000) (sample_request ''2000-01-15'') (is_ageExpiresAt s)"
    using earned by (elim conjE)
  then show ?thesis by blast
qed

lemma child_is_refused:
  "\<exists>g1 st r ra. create_session sample_gate_env (sample_occasion 1700000000000) (Some (sample_request ''2010-01-15'')) fresh_gate
     = (g1, Refusal st SUnderage r ra)"
  by (simp add: create_session_def check_age_def sample_defs sample_ages
      rate_allow_def kv_incr_def kv_live_def live_def kv_prune_def PRUNE_EVERY_OPS_def at_most_def isLocked_def kv_mget_def
      lockout_keys_def isCountryBlocked_def FLAG_DEFAULTS_def ADULT_AGE_def refuse_def Let_def)


end
