(* ===== verification/Moderation.thy ===== *)
theory Moderation
  imports Prelude Complex_Main
begin

text \<open>
  On-device moderation of the client: the blur gate over the partner's video
  (\<open>new-frontend/src/moderation/blurGate.ts\<close>) and the face gate over one's own camera
  (\<open>new-frontend/src/moderation/faceGate.ts\<close>). The classifier, the face detector and the frame grabber are
  browser code: what they answer is an argument of each step. A timer is its due time, and each asynchronous
  piece of the sampling loop is a step of its own.
\<close>

section \<open>The blur gate\<close>

definition SAFE_STREAK :: nat where "SAFE_STREAK = 3"
definition FAST_SAMPLE_MS :: millis where "FAST_SAMPLE_MS = 500"
definition SLOW_SAMPLE_MS :: millis where "SLOW_SAMPLE_MS = 2000"
definition FAST_PHASE_MS :: millis where "FAST_PHASE_MS = 10000"
definition VERDICT_DEADLINE_MS :: millis where "VERDICT_DEADLINE_MS = 10000"
definition WAIT_FOR_FRAME_MS :: millis where "WAIT_FOR_FRAME_MS = 250"

datatype blur_status = BChecking | BSafe | BFlagged | BUnavailable | BRevealed

record blur_state =
  bl_status :: blur_status
  bl_safeStreak :: nat

datatype blur_event = BlurFrame bool | BlurModelUnavailable | BlurDeadline | BlurReveal | BlurReset

definition initialBlurState :: blur_state where
  "initialBlurState = \<lparr>bl_status = BChecking, bl_safeStreak = 0\<rparr>"

fun blurReducer :: "blur_state \<Rightarrow> blur_event \<Rightarrow> blur_state" where
  "blurReducer s BlurReset = initialBlurState"
| "blurReducer s (BlurFrame unsafe) =
     (if bl_status s = BFlagged then s
      else if unsafe then \<lparr>bl_status = BFlagged, bl_safeStreak = 0\<rparr>
      else
        let streak = bl_safeStreak s + 1 in
        if streak \<ge> SAFE_STREAK then \<lparr>bl_status = BSafe, bl_safeStreak = streak\<rparr> else s\<lparr>bl_safeStreak := streak\<rparr>)"
| "blurReducer s BlurModelUnavailable =
     (if bl_status s = BChecking \<or> bl_status s = BSafe then \<lparr>bl_status = BUnavailable, bl_safeStreak = 0\<rparr> else s)"
| "blurReducer s BlurDeadline = (if bl_status s = BChecking then s\<lparr>bl_status := BUnavailable\<rparr> else s)"
| "blurReducer s BlurReveal = (if bl_status s = BUnavailable then s\<lparr>bl_status := BRevealed\<rparr> else s)"

definition isBlurred :: "blur_status \<Rightarrow> bool" where
  "isBlurred st \<longleftrightarrow> st \<noteq> BSafe \<and> st \<noteq> BRevealed"

definition sampleIntervalMs :: "millis \<Rightarrow> millis" where
  "sampleIntervalMs elapsedMs = (if elapsedMs < FAST_PHASE_MS then FAST_SAMPLE_MS else SLOW_SAMPLE_MS)"

record nsfw_scores =
  ns_drawing :: real
  ns_hentai :: real
  ns_neutral :: real
  ns_porn :: real
  ns_sexy :: real

definition EXPLICIT_THRESHOLD :: real where "EXPLICIT_THRESHOLD = 35 / 100"
definition SEXY_THRESHOLD :: real where "SEXY_THRESHOLD = 7 / 10"

definition isUnsafe :: "nsfw_scores \<Rightarrow> bool" where
  "isUnsafe s \<longleftrightarrow> ns_porn s + ns_hentai s \<ge> EXPLICIT_THRESHOLD \<or> ns_sexy s \<ge> SEXY_THRESHOLD"

subsection \<open>The sampling loop\<close>

datatype blur_signal = NsfwBlur | ModelUnavailable

datatype blur_call = BlurChanged blur_state | BlurSignalled blur_signal

text \<open>\<open>bm_classifying\<close>: a frame is with the classifier (the loop asks for one at a time).\<close>

record blur_monitor =
  bm_state :: blur_state
  bm_startedAt :: millis
  bm_timer :: "millis option"
  bm_deadline :: "millis option"
  bm_stopped :: bool
  bm_classifying :: bool
  bm_signaled :: "blur_signal list"
  bm_calls :: "blur_call list"

definition new_blur_monitor :: blur_monitor where
  "new_blur_monitor =
     \<lparr>bm_state = initialBlurState, bm_startedAt = 0, bm_timer = None, bm_deadline = None, bm_stopped = False,
      bm_classifying = False, bm_signaled = [], bm_calls = []\<rparr>"

definition bm_schedule :: "millis \<Rightarrow> millis \<Rightarrow> blur_monitor \<Rightarrow> blur_monitor" where
  "bm_schedule now ms m = (if bm_stopped m then m else m\<lparr>bm_timer := Some (now + ms)\<rparr>)"

definition bm_signal :: "blur_signal \<Rightarrow> blur_monitor \<Rightarrow> blur_monitor" where
  "bm_signal k m =
     (if k \<in> set (bm_signaled m) then m
      else m\<lparr>bm_signaled := bm_signaled m @ [k], bm_calls := bm_calls m @ [BlurSignalled k]\<rparr>)"

definition bm_apply :: "blur_event \<Rightarrow> blur_monitor \<Rightarrow> blur_monitor" where
  "bm_apply ev m =
     (if bm_stopped m then m
      else
        let s = blurReducer (bm_state m) ev; m1 = m\<lparr>bm_state := s\<rparr> in
        if bl_status s = bl_status (bm_state m) then m1
        else
          let m2 = (if bl_status s = BFlagged then bm_signal NsfwBlur m1 else m1);
              m3 = (if bl_status s = BUnavailable then bm_signal ModelUnavailable m2 else m2) in
          m3\<lparr>bm_calls := bm_calls m3 @ [BlurChanged s]\<rparr>)"

definition bm_start :: "millis \<Rightarrow> blur_monitor \<Rightarrow> blur_monitor" where
  "bm_start now m = bm_schedule now 0 m"

definition bm_stop :: "blur_monitor \<Rightarrow> blur_monitor" where
  "bm_stop m = m\<lparr>bm_stopped := True, bm_timer := None, bm_deadline := None\<rparr>"

definition bm_reveal :: "blur_monitor \<Rightarrow> blur_monitor" where
  "bm_reveal m = bm_apply BlurReveal m"

text \<open>The timer of the loop fires; \<open>grabbed\<close> tells whether the video has a frame.\<close>

definition bm_tick :: "millis \<Rightarrow> bool \<Rightarrow> blur_monitor \<Rightarrow> blur_monitor" where
  "bm_tick now grabbed m0 =
     (let m = m0\<lparr>bm_timer := None\<rparr> in
      if bm_stopped m then m
      else if \<not> grabbed then bm_schedule now WAIT_FOR_FRAME_MS m
      else
        let m1 = (if bm_deadline m = None
                  then m\<lparr>bm_startedAt := now, bm_deadline := Some (now + VERDICT_DEADLINE_MS)\<rparr> else m) in
        m1\<lparr>bm_classifying := True\<rparr>)"

text \<open>The classifier answers with scores, or fails (\<open>None\<close>).\<close>

definition bm_verdict :: "millis \<Rightarrow> nsfw_scores option \<Rightarrow> blur_monitor \<Rightarrow> blur_monitor" where
  "bm_verdict now answer m0 =
     (let m = m0\<lparr>bm_classifying := False\<rparr> in
      if bm_stopped m then m
      else
        let m1 = (case answer of
                    Some scores \<Rightarrow> bm_apply (BlurFrame (isUnsafe scores)) m
                  | None \<Rightarrow> bm_apply BlurModelUnavailable m) in
        bm_schedule now (sampleIntervalMs (now - bm_startedAt m1)) m1)"

definition bm_deadline_fires :: "blur_monitor \<Rightarrow> blur_monitor" where
  "bm_deadline_fires m = bm_apply BlurDeadline m"

section \<open>The face gate\<close>

definition FACE_SAMPLE_MS :: millis where "FACE_SAMPLE_MS = 500"
definition NO_FACE_PAUSE_MS :: millis where "NO_FACE_PAUSE_MS = 3000"

record face_state =
  fc_running :: bool
  fc_paused :: bool
  fc_lastFaceAt :: millis
  fc_episodes :: nat

datatype face_event = FaceStart millis | FaceDetection bool millis | FaceUnavailable | FaceStop

definition initialFaceGateState :: face_state where
  "initialFaceGateState = \<lparr>fc_running = False, fc_paused = False, fc_lastFaceAt = 0, fc_episodes = 0\<rparr>"

fun faceGateReducer :: "face_state \<Rightarrow> face_event \<Rightarrow> face_state" where
  "faceGateReducer s (FaceStart at_ms) = s\<lparr>fc_running := True, fc_paused := False, fc_lastFaceAt := at_ms\<rparr>"
| "faceGateReducer s (FaceDetection face at_ms) =
     (if \<not> fc_running s then s
      else if face then s\<lparr>fc_paused := False, fc_lastFaceAt := at_ms\<rparr>
      else if fc_paused s \<or> at_ms - fc_lastFaceAt s < NO_FACE_PAUSE_MS then s
      else s\<lparr>fc_paused := True, fc_episodes := fc_episodes s + 1\<rparr>)"
| "faceGateReducer s FaceUnavailable = s\<lparr>fc_running := False, fc_paused := False\<rparr>"
| "faceGateReducer s FaceStop = s\<lparr>fc_running := False, fc_paused := False\<rparr>"

datatype face_call = PausedChange bool nat | FaceGateOff

record face_monitor =
  fm_state :: face_state
  fm_timer :: "millis option"
  fm_stopped :: bool
  fm_calls :: "face_call list"

definition new_face_monitor :: face_monitor where
  "new_face_monitor = \<lparr>fm_state = initialFaceGateState, fm_timer = None, fm_stopped = False, fm_calls = []\<rparr>"

definition fm_apply :: "face_event \<Rightarrow> face_monitor \<Rightarrow> face_monitor" where
  "fm_apply ev m =
     (let s = faceGateReducer (fm_state m) ev; m1 = m\<lparr>fm_state := s\<rparr> in
      if fc_paused s \<noteq> fc_paused (fm_state m)
      then m1\<lparr>fm_calls := fm_calls m1 @ [PausedChange (fc_paused s) (fc_episodes s)]\<rparr> else m1)"

definition fm_schedule :: "millis \<Rightarrow> millis \<Rightarrow> face_monitor \<Rightarrow> face_monitor" where
  "fm_schedule now ms m = (if fm_stopped m then m else m\<lparr>fm_timer := Some (now + ms)\<rparr>)"

definition fm_fail :: "face_monitor \<Rightarrow> face_monitor" where
  "fm_fail m =
     (if fm_stopped m then m
      else let m1 = fm_apply FaceUnavailable m in m1\<lparr>fm_stopped := True, fm_calls := fm_calls m1 @ [FaceGateOff]\<rparr>)"

text \<open>The detector has loaded, or could not.\<close>

definition fm_loaded :: "millis \<Rightarrow> bool \<Rightarrow> face_monitor \<Rightarrow> face_monitor" where
  "fm_loaded now ok m =
     (if \<not> ok then fm_fail m
      else if fm_stopped m then m
      else fm_schedule now 0 (fm_apply (FaceStart now) m))"

definition fm_stop :: "face_monitor \<Rightarrow> face_monitor" where
  "fm_stop m =
     (let m1 = m\<lparr>fm_timer := None\<rparr>; m2 = (if fm_stopped m1 then m1 else fm_apply FaceStop m1) in
      m2\<lparr>fm_stopped := True\<rparr>)"

text \<open>
  The timer fires. Without a frame the next sample is scheduled at once; otherwise the frame goes to the detector
  and \<open>fm_detected\<close> is its answer (\<open>None\<close> when it throws), for the frame taken at \<open>taken\<close>.
\<close>

definition fm_tick :: "millis \<Rightarrow> bool \<Rightarrow> face_monitor \<Rightarrow> face_monitor" where
  "fm_tick now grabbed m0 =
     (let m = m0\<lparr>fm_timer := None\<rparr> in
      if fm_stopped m then m
      else if grabbed then m
      else fm_schedule now FACE_SAMPLE_MS m)"

definition fm_detected :: "millis \<Rightarrow> millis \<Rightarrow> bool option \<Rightarrow> face_monitor \<Rightarrow> face_monitor" where
  "fm_detected now taken answer m =
     (case answer of
        None \<Rightarrow> fm_fail m
      | Some face \<Rightarrow>
          if fm_stopped m then m
          else fm_schedule now FACE_SAMPLE_MS (fm_apply (FaceDetection face taken) m))"

section \<open>Safe start\<close>

datatype blur_step =
  GateStart millis | GateTick millis bool | GateVerdict millis "nsfw_scores option" | GateDeadline | GateReveal | GateStop

fun blur_do :: "blur_step \<Rightarrow> blur_monitor \<Rightarrow> blur_monitor" where
  "blur_do (GateStart now) m = bm_start now m"
| "blur_do (GateTick now grabbed) m = bm_tick now grabbed m"
| "blur_do (GateVerdict now answer) m = bm_verdict now answer m"
| "blur_do GateDeadline m = bm_deadline_fires m"
| "blur_do GateReveal m = bm_reveal m"
| "blur_do GateStop m = bm_stop m"

definition blur_run :: "blur_step list \<Rightarrow> blur_monitor" where
  "blur_run steps = foldl (\<lambda>m s. blur_do s m) new_blur_monitor steps"

text \<open>The steps before the gate is stopped, and the frames judged in them.\<close>

definition live_steps :: "blur_step list \<Rightarrow> blur_step list" where
  "live_steps steps = takeWhile (\<lambda>s. s \<noteq> GateStop) steps"

fun frame_of :: "blur_step \<Rightarrow> nsfw_scores list" where
  "frame_of (GateVerdict now (Some scores)) = [scores]"
| "frame_of _ = []"

definition frames_judged :: "blur_step list \<Rightarrow> nsfw_scores list" where
  "frames_judged steps = concat (map frame_of steps)"

fun model_gave_up :: "blur_step \<Rightarrow> bool" where
  "model_gave_up (GateVerdict now None) = True"
| "model_gave_up GateDeadline = True"
| "model_gave_up _ = False"

text \<open>The viewer asked for the video after the model had failed or not answered in time.\<close>

definition asked_for :: "blur_step list \<Rightarrow> bool" where
  "asked_for steps \<longleftrightarrow> (\<exists>before after. steps = before @ GateReveal # after \<and> (\<exists>s \<in> set before. model_gave_up s))"

lemma asked_for_snoc [simp]:
  "asked_for (steps @ [s]) \<longleftrightarrow> asked_for steps \<or> s = GateReveal \<and> (\<exists>x \<in> set steps. model_gave_up x)"
proof
  assume "asked_for (steps @ [s])"
  then obtain before after where e: "steps @ [s] = before @ GateReveal # after" and g: "\<exists>x \<in> set before. model_gave_up x"
    by (auto simp: asked_for_def)
  show "asked_for steps \<or> s = GateReveal \<and> (\<exists>x \<in> set steps. model_gave_up x)"
    using e g by (cases after rule: rev_cases) (auto simp: asked_for_def)
next
  assume "asked_for steps \<or> s = GateReveal \<and> (\<exists>x \<in> set steps. model_gave_up x)"
  then show "asked_for (steps @ [s])"
    by (auto simp: asked_for_def) fastforce
qed

text \<open>What the gate knows of the steps it lived through.\<close>

definition gate_knows :: "blur_step list \<Rightarrow> blur_monitor \<Rightarrow> bool" where
  "gate_knows lived m \<longleftrightarrow>
     (bl_status (bm_state m) = BFlagged \<longleftrightarrow> (\<exists>f \<in> set (frames_judged lived). isUnsafe f))
   \<and> (bl_status (bm_state m) \<noteq> BFlagged \<longrightarrow> bl_safeStreak (bm_state m) \<le> length (frames_judged lived))
   \<and> (bl_status (bm_state m) = BSafe \<longrightarrow> SAFE_STREAK \<le> bl_safeStreak (bm_state m))
   \<and> (bl_status (bm_state m) = BUnavailable \<longrightarrow> (\<exists>s \<in> set lived. model_gave_up s))
   \<and> (bl_status (bm_state m) = BRevealed \<longrightarrow> asked_for lived)
   \<and> bm_signaled m = concat (map (\<lambda>c. case c of BlurSignalled k \<Rightarrow> [k] | _ \<Rightarrow> []) (bm_calls m))
   \<and> distinct (bm_signaled m)"

lemma apply_state: "bm_state (bm_apply ev m) = (if bm_stopped m then bm_state m else blurReducer (bm_state m) ev)"
  by (auto simp: bm_apply_def bm_signal_def Let_def)

lemma apply_signals:
  assumes "bm_signaled m = concat (map (\<lambda>c. case c of BlurSignalled k \<Rightarrow> [k] | _ \<Rightarrow> []) (bm_calls m))" "distinct (bm_signaled m)"
  shows "bm_signaled (bm_apply ev m) = concat (map (\<lambda>c. case c of BlurSignalled k \<Rightarrow> [k] | _ \<Rightarrow> []) (bm_calls (bm_apply ev m)))"
    and "distinct (bm_signaled (bm_apply ev m))"
  using assms by (auto simp: bm_apply_def bm_signal_def Let_def)

lemma apply_stopped [simp]: "bm_stopped (bm_apply ev m) = bm_stopped m"
  by (auto simp: bm_apply_def bm_signal_def Let_def)

lemma schedule_frame [simp]:
  "bm_state (bm_schedule now ms m) = bm_state m" "bm_signaled (bm_schedule now ms m) = bm_signaled m"
  "bm_calls (bm_schedule now ms m) = bm_calls m" "bm_stopped (bm_schedule now ms m) = bm_stopped m"
  by (auto simp: bm_schedule_def)

lemma frames_snoc [simp]: "frames_judged (lived @ [s]) = frames_judged lived @ frame_of s"
  by (simp add: frames_judged_def)

text \<open>What a step means for the gate: the event it applies, if any.\<close>

fun event_of :: "blur_step \<Rightarrow> blur_event option" where
  "event_of (GateVerdict now (Some scores)) = Some (BlurFrame (isUnsafe scores))"
| "event_of (GateVerdict now None) = Some BlurModelUnavailable"
| "event_of GateDeadline = Some BlurDeadline"
| "event_of GateReveal = Some BlurReveal"
| "event_of _ = None"

lemma do_applies:
  assumes "s \<noteq> GateStop"
  obtains m' where "bm_state m' = bm_state m" "bm_signaled m' = bm_signaled m" "bm_calls m' = bm_calls m" "bm_stopped m' = bm_stopped m"
    and "bm_state (blur_do s m) = bm_state (case event_of s of Some ev \<Rightarrow> bm_apply ev m' | None \<Rightarrow> m')"
    and "bm_signaled (blur_do s m) = bm_signaled (case event_of s of Some ev \<Rightarrow> bm_apply ev m' | None \<Rightarrow> m')"
    and "bm_calls (blur_do s m) = bm_calls (case event_of s of Some ev \<Rightarrow> bm_apply ev m' | None \<Rightarrow> m')"
    and "bm_stopped (blur_do s m) = bm_stopped m"
proof (cases s)
  case (GateVerdict now answer)
  then show ?thesis
    by (intro that [of "m\<lparr>bm_classifying := False\<rparr>"])
      (auto simp: bm_verdict_def Let_def bm_apply_def bm_signal_def split: option.splits)
qed (use assms that [of m] in \<open>auto simp: bm_start_def bm_tick_def bm_deadline_fires_def bm_reveal_def Let_def\<close>)

lemma gate_knows_step:
  assumes k: "gate_knows lived m" and go: "\<not> bm_stopped m" "s \<noteq> GateStop"
  shows "gate_knows (lived @ [s]) (blur_do s m)"
proof -
  obtain m' where m': "bm_state m' = bm_state m" "bm_signaled m' = bm_signaled m" "bm_calls m' = bm_calls m" "bm_stopped m' = bm_stopped m"
    and st: "bm_state (blur_do s m) = bm_state (case event_of s of Some ev \<Rightarrow> bm_apply ev m' | None \<Rightarrow> m')"
    and sg: "bm_signaled (blur_do s m) = bm_signaled (case event_of s of Some ev \<Rightarrow> bm_apply ev m' | None \<Rightarrow> m')"
    and cl: "bm_calls (blur_do s m) = bm_calls (case event_of s of Some ev \<Rightarrow> bm_apply ev m' | None \<Rightarrow> m')"
    by (rule do_applies [OF go(2)])
  have state: "bm_state (blur_do s m) = (case event_of s of Some ev \<Rightarrow> blurReducer (bm_state m) ev | None \<Rightarrow> bm_state m)"
    using m' go by (simp add: st apply_state split: option.split)
  have signals: "bm_signaled (blur_do s m) = concat (map (\<lambda>c. case c of BlurSignalled k \<Rightarrow> [k] | _ \<Rightarrow> []) (bm_calls (blur_do s m)))
      \<and> distinct (bm_signaled (blur_do s m))"
    using k m' apply_signals [of m'] by (auto simp: sg cl gate_knows_def split: option.splits)
  have status: "bl_status (bm_state m) = BFlagged \<longleftrightarrow> (\<exists>f \<in> set (frames_judged lived). isUnsafe f)"
    and streak: "bl_status (bm_state m) \<noteq> BFlagged \<Longrightarrow> bl_safeStreak (bm_state m) \<le> length (frames_judged lived)"
    and safe: "bl_status (bm_state m) = BSafe \<Longrightarrow> SAFE_STREAK \<le> bl_safeStreak (bm_state m)"
    and off: "bl_status (bm_state m) = BUnavailable \<Longrightarrow> \<exists>x \<in> set lived. model_gave_up x"
    and shown: "bl_status (bm_state m) = BRevealed \<Longrightarrow> asked_for lived"
    using k by (auto simp: gate_knows_def)
  show ?thesis
    unfolding gate_knows_def state using signals status streak safe off shown
    by (cases s rule: event_of.cases; cases "bl_status (bm_state m)"; simp add: Let_def; blast?)
qed

lemma live_steps_snoc:
  "live_steps (steps @ [s]) =
     (if GateStop \<in> set steps \<or> s = GateStop then live_steps steps else steps @ [s])"
  "GateStop \<notin> set steps \<Longrightarrow> live_steps steps = steps"
  by (auto simp: live_steps_def takeWhile_append takeWhile_eq_all_conv takeWhile_eq_all_conv [THEN iffD2, symmetric])

lemma stopped_step: "bm_stopped (blur_do s m) \<longleftrightarrow> bm_stopped m \<or> s = GateStop"
  by (cases s)
    (auto simp: bm_start_def bm_tick_def bm_verdict_def bm_deadline_fires_def bm_reveal_def bm_stop_def Let_def split: option.split)

lemma stopped_is_still:
  assumes "bm_stopped m"
  shows "bm_state (blur_do s m) = bm_state m" "bm_signaled (blur_do s m) = bm_signaled m" "bm_calls (blur_do s m) = bm_calls m"
  using assms
  by (cases s; auto simp: bm_start_def bm_tick_def bm_verdict_def bm_deadline_fires_def bm_reveal_def bm_stop_def bm_apply_def
      bm_schedule_def Let_def split: option.split)+

lemma gate_knows_cong:
  "bm_state m' = bm_state m \<Longrightarrow> bm_signaled m' = bm_signaled m \<Longrightarrow> bm_calls m' = bm_calls m \<Longrightarrow> gate_knows l m' = gate_knows l m"
  by (simp add: gate_knows_def)

lemma blur_run_knows:
  "gate_knows (live_steps steps) (blur_run steps) \<and> (bm_stopped (blur_run steps) \<longleftrightarrow> GateStop \<in> set steps)"
proof (induction steps rule: rev_induct)
  case Nil
  show ?case
    by (simp add: blur_run_def live_steps_def gate_knows_def new_blur_monitor_def initialBlurState_def frames_judged_def)
next
  case (snoc s steps)
  have run: "blur_run (steps @ [s]) = blur_do s (blur_run steps)" by (simp add: blur_run_def)
  show ?case
  proof (cases "GateStop \<in> set steps \<or> s = GateStop")
    case True
    then have "bm_stopped (blur_run steps) \<or> s = GateStop" using snoc by blast
    then have "gate_knows l (blur_do s (blur_run steps)) = gate_knows l (blur_run steps)" for l
      by (rule disjE; intro gate_knows_cong; simp add: stopped_is_still bm_stop_def)
    then show ?thesis using snoc True by (auto simp: run stopped_step live_steps_snoc)
  next
    case False
    then show ?thesis
      using snoc gate_knows_step [of steps "blur_run steps" s] by (auto simp: run stopped_step live_steps_snoc)
  qed
qed

lemma distinct_count_list: "distinct xs \<Longrightarrow> count_list xs x \<le> 1"
  by (induction xs) (auto simp: count_list_0_iff)

text \<open>
  C32: The safe start of the partner's video. Whatever the order of samples, verdicts, timers and taps: a frame judged
  unsafe before the gate is stopped hides the video for the rest of the call, and nothing else does so for good; the
  video is shown only if no frame was judged unsafe and either \<open>SAFE_STREAK\<close> frames at least passed the classifier or
  the viewer asked for the video after the model had failed or missed its deadline; each kind of signal is reported at
  most once.
\<close>

theorem partner_video_safe_start:
  fixes steps :: "blur_step list"
  defines "m \<equiv> blur_run steps" and "lived \<equiv> live_steps steps"
  shows "(bl_status (bm_state m) = BFlagged \<longleftrightarrow> (\<exists>f \<in> set (frames_judged lived). isUnsafe f))
    \<and> (\<not> isBlurred (bl_status (bm_state m)) \<longrightarrow>
         (\<forall>f \<in> set (frames_judged lived). \<not> isUnsafe f)
       \<and> (SAFE_STREAK \<le> length (frames_judged lived) \<or> asked_for lived))
    \<and> count_list (bm_calls m) (BlurSignalled k) \<le> 1"
proof (intro conjI)
  have k: "gate_knows lived m" using blur_run_knows [of steps] by (simp add: m_def lived_def)
  show "bl_status (bm_state m) = BFlagged \<longleftrightarrow> (\<exists>f \<in> set (frames_judged lived). isUnsafe f)"
    using k by (simp add: gate_knows_def)
  show "\<not> isBlurred (bl_status (bm_state m)) \<longrightarrow>
      (\<forall>f \<in> set (frames_judged lived). \<not> isUnsafe f) \<and> (SAFE_STREAK \<le> length (frames_judged lived) \<or> asked_for lived)"
    using k by (cases "bl_status (bm_state m)") (auto simp: gate_knows_def isBlurred_def)
  have "count_list cs (BlurSignalled k) = count_list (concat (map (\<lambda>c. case c of BlurSignalled k \<Rightarrow> [k] | _ \<Rightarrow> []) cs)) k" for cs
    by (induction cs) (auto split: blur_call.split)
  moreover have "bm_signaled m = concat (map (\<lambda>c. case c of BlurSignalled k \<Rightarrow> [k] | _ \<Rightarrow> []) (bm_calls m))"
    and "distinct (bm_signaled m)" using k unfolding gate_knows_def by blast+
  ultimately have "count_list (bm_calls m) (BlurSignalled k) = count_list (bm_signaled m) k" by presburger
  then show "count_list (bm_calls m) (BlurSignalled k) \<le> 1"
    using distinct_count_list [OF \<open>distinct (bm_signaled m)\<close>, of k] by simp
qed

definition calm :: nsfw_scores where
  "calm = \<lparr>ns_drawing = 0, ns_hentai = 0, ns_neutral = 1, ns_porn = 0, ns_sexy = 0\<rparr>"

definition bare :: nsfw_scores where
  "bare = calm\<lparr>ns_porn := 1 / 2\<rparr>"

lemma sample_verdicts [simp]: "\<not> isUnsafe calm" "isUnsafe bare"
  by (simp_all add: calm_def bare_def isUnsafe_def EXPLICIT_THRESHOLD_def SEXY_THRESHOLD_def)

lemmas blur_run_simps = blur_run_def new_blur_monitor_def initialBlurState_def bm_start_def bm_tick_def bm_verdict_def
  bm_deadline_fires_def bm_reveal_def bm_stop_def bm_apply_def bm_signal_def bm_schedule_def sampleIntervalMs_def
  SAFE_STREAK_def FAST_PHASE_MS_def FAST_SAMPLE_MS_def VERDICT_DEADLINE_MS_def Let_def

definition three_frames :: "blur_step list" where
  "three_frames = [GateStart 0, GateTick 0 True, GateVerdict 90 (Some calm), GateTick 590 True, GateVerdict 700 (Some calm),
     GateTick 1200 True, GateVerdict 1300 (Some calm)]"

lemma three_frames_show: "\<not> isBlurred (bl_status (bm_state (blur_run three_frames)))"
  by (simp add: three_frames_def blur_run_simps isBlurred_def)

theorem partner_video_safe_start_witness:
  "\<not> isUnsafe (frames_judged (live_steps three_frames) ! 2)
   \<and> bl_status (bm_state (blur_run (three_frames @ [GateVerdict 1900 (Some bare), GateReveal]))) = BFlagged"
proof -
  have three: "frames_judged (live_steps three_frames) = [calm, calm, calm]"
    by (simp add: three_frames_def live_steps_def frames_judged_def)
  have "frames_judged (live_steps (three_frames @ [GateVerdict 1900 (Some bare), GateReveal])) = [calm, calm, calm, bare]"
    by (simp add: three_frames_def live_steps_def frames_judged_def)
  then show ?thesis
    using partner_video_safe_start [of three_frames NsfwBlur] three_frames_show three
      partner_video_safe_start [of "three_frames @ [GateVerdict 1900 (Some bare), GateReveal]" NsfwBlur] by simp
qed

text \<open>
  Once the status is \<open>BUnavailable\<close> a failing classifier no longer resets the streak, so the frames that show the
  video need not be consecutive samples: here two passed, the deadline went by, one classification failed and the
  next frame shows the video.
\<close>

lemma shown_without_a_streak:
  "bl_status (bm_state (blur_run
     [GateStart 0, GateTick 0 True, GateVerdict 90 (Some calm), GateTick 590 True, GateVerdict 700 (Some calm), GateTick 1200 True,
      GateDeadline, GateVerdict 10100 None, GateTick 12100 True, GateVerdict 12200 (Some calm)])) = BSafe"
  by (simp add: blur_run_simps)

section \<open>The outgoing camera is paused only for a missing face\<close>

datatype face_step = CamLoaded millis bool | CamTick millis bool | CamDetected millis millis "bool option" | CamStop

fun face_do :: "face_step \<Rightarrow> face_monitor \<Rightarrow> face_monitor" where
  "face_do (CamLoaded now ok) m = fm_loaded now ok m"
| "face_do (CamTick now grabbed) m = fm_tick now grabbed m"
| "face_do (CamDetected now taken answer) m = fm_detected now taken answer m"
| "face_do CamStop m = fm_stop m"

text \<open>
  A paused camera means a running detector (the gate fails open), and the listener was told last of the state the gate
  is in, with the number of pauses so far.
\<close>

definition face_ok :: "face_monitor \<Rightarrow> bool" where
  "face_ok m \<longleftrightarrow>
     (fc_paused (fm_state m) \<longrightarrow> fc_running (fm_state m) \<and> \<not> fm_stopped m)
   \<and> (let told = filter (\<lambda>c. c \<noteq> FaceGateOff) (fm_calls m) in
        (if told = [] then \<not> fc_paused (fm_state m) \<and> fc_episodes (fm_state m) = 0
         else last told = PausedChange (fc_paused (fm_state m)) (fc_episodes (fm_state m))))"

lemma fm_apply_ok:
  assumes "face_ok m" "\<not> fm_stopped m"
  shows "face_ok (fm_apply ev m)" "fm_stopped (fm_apply ev m) = fm_stopped m"
    and "ev = FaceUnavailable \<or> ev = FaceStop \<Longrightarrow> \<not> fc_paused (fm_state (fm_apply ev m))"
  using assms by (cases ev; auto simp: fm_apply_def face_ok_def Let_def split: if_splits)+

lemma fm_frame_ok [simp]:
  "face_ok (fm_schedule now ms m) = face_ok m" "face_ok (m\<lparr>fm_timer := t\<rparr>) = face_ok m"
  by (auto simp: fm_schedule_def face_ok_def)

lemma stopped_face_ok:
  assumes "face_ok m" "\<not> fc_paused (fm_state m)"
  shows "face_ok (m\<lparr>fm_stopped := True\<rparr>)" "face_ok (m\<lparr>fm_stopped := True, fm_calls := fm_calls m @ [FaceGateOff]\<rparr>)"
  using assms by (auto simp: face_ok_def Let_def)

lemma fm_fail_ok: "face_ok m \<Longrightarrow> face_ok (fm_fail m)"
  using fm_apply_ok(1,3) [of m FaceUnavailable] stopped_face_ok [of "fm_apply FaceUnavailable m"]
  by (auto simp: fm_fail_def Let_def)

lemma face_do_ok: "face_ok m \<Longrightarrow> face_ok (face_do s m)"
proof (cases s)
  case CamStop
  assume ok: "face_ok m"
  show ?thesis
  proof (cases "fm_stopped m")
    case True
    then show ?thesis using ok stopped_face_ok [of "m\<lparr>fm_timer := None\<rparr>"] CamStop by (auto simp: fm_stop_def Let_def face_ok_def)
  next
    case False
    then show ?thesis
      using ok fm_apply_ok(1,3) [of "m\<lparr>fm_timer := None\<rparr>" FaceStop]
        stopped_face_ok(1) [of "fm_apply FaceStop (m\<lparr>fm_timer := None\<rparr>)"] CamStop by (auto simp: fm_stop_def Let_def)
  qed
qed (auto simp: fm_loaded_def fm_tick_def fm_detected_def fm_fail_ok fm_apply_ok Let_def split: option.split)

lemma new_face_ok: "face_ok new_face_monitor"
  by (simp add: face_ok_def new_face_monitor_def initialFaceGateState_def)

text \<open>A pause begins only after \<open>NO_FACE_PAUSE_MS\<close> without a face.\<close>

lemma pause_after_no_face:
  assumes "\<not> fc_paused s" "fc_paused (faceGateReducer s ev)"
  shows "\<exists>t. ev = FaceDetection False t \<and> fc_running s \<and> fc_lastFaceAt s + NO_FACE_PAUSE_MS \<le> t"
  using assms by (cases ev) (auto split: if_splits)

end
