(* ===== verification/Patterns.thy ===== *)
theory Patterns
  imports Prelude
begin

text \<open>
  Regular expressions of the source language, for the patterns the code writes down: a backtracking matcher that tries
  the alternatives in order and repeats greedily. \<open>ends p s i\<close> lists where a match of \<open>p\<close> in \<open>s\<close> from \<open>i\<close> may end, in
  the order the matcher finds them, so that its first entry is the match. Characters are those of 8-bit strings.
\<close>

datatype pat =
  One "char \<Rightarrow> bool"
| Here "string \<Rightarrow> nat \<Rightarrow> bool"
| Seq pat pat
| Alt pat pat
| Rep nat "nat option" pat

text \<open>
  The matches of a repetition: as many as possible first, then fewer, never with an empty round. A round consumes at
  least one character, so the length of what is left bounds the rounds.
\<close>

fun reps :: "(nat \<Rightarrow> nat list) \<Rightarrow> nat \<Rightarrow> nat \<Rightarrow> nat option \<Rightarrow> nat \<Rightarrow> nat list" where
  "reps f 0 lo hi i = (if lo = 0 then [i] else [])"
| "reps f (Suc n) lo hi i =
     (if hi = Some 0 then [i]
      else concat (map (\<lambda>j. reps f n (lo - 1) (map_option (\<lambda>h. h - 1) hi) j) (filter (\<lambda>j. i < j) (f i)))
           @ (if lo = 0 then [i] else []))"

primrec ends :: "pat \<Rightarrow> string \<Rightarrow> nat \<Rightarrow> nat list" where
  "ends (One P) s i = (if i < length s \<and> P (s ! i) then [Suc i] else [])"
| "ends (Here Q) s i = (if Q s i then [i] else [])"
| "ends (Seq p q) s i = concat (map (ends q s) (ends p s i))"
| "ends (Alt p q) s i = ends p s i @ ends q s i"
| "ends (Rep lo hi p) s i = reps (ends p s) (length s - i + 1) lo hi i"

definition match_from :: "pat \<Rightarrow> string \<Rightarrow> nat \<Rightarrow> nat option" where
  "match_from p s i = (case ends p s i of [] \<Rightarrow> None | e # es \<Rightarrow> Some e)"

text \<open>\<open>re.test(s)\<close>.\<close>

definition found_in :: "pat \<Rightarrow> string \<Rightarrow> bool" where
  "found_in p s \<longleftrightarrow> (\<exists>i \<in> set [0..<length s + 1]. match_from p s i \<noteq> None)"

text \<open>\<open>s.matchAll(re)\<close>: the matches from left to right, each searched for after the end of the one before.\<close>

function all_from :: "pat \<Rightarrow> string \<Rightarrow> nat \<Rightarrow> (nat \<times> nat) list" where
  "all_from p s i =
     (if length s < i then []
      else case match_from p s i of
             Some e \<Rightarrow> (i, e) # all_from p s (max e (Suc i))
           | None \<Rightarrow> all_from p s (Suc i))"
  by pat_completeness auto
termination
  by (relation "measure (\<lambda>(p, s, i). Suc (length s) - i)") auto

declare all_from.simps [simp del]

definition matchAll :: "pat \<Rightarrow> string \<Rightarrow> (nat \<times> nat) list" where
  "matchAll p s = all_from p s 0"

text \<open>Notions the patterns are made of.\<close>

primrec seqs :: "pat list \<Rightarrow> pat" where
  "seqs [] = Here (\<lambda>s i. True)"
| "seqs (p # ps) = Seq p (seqs ps)"

primrec alts :: "pat list \<Rightarrow> pat" where
  "alts [] = Here (\<lambda>s i. False)"
| "alts (p # ps) = Alt p (alts ps)"

definition Star :: "pat \<Rightarrow> pat" where "Star p = Rep 0 None p"
definition Plus :: "pat \<Rightarrow> pat" where "Plus p = Rep 1 None p"
definition Opt :: "pat \<Rightarrow> pat" where "Opt p = Rep 0 (Some 1) p"

text \<open>A literal, with the case of letters ignored (flag \<open>i\<close>).\<close>

definition Lit :: "string \<Rightarrow> pat" where
  "Lit w = seqs (map (\<lambda>c. One (\<lambda>d. lower_char d = lower_char c)) w)"

definition word_char :: "char \<Rightarrow> bool" where
  "word_char c \<longleftrightarrow> c = CHR ''_'' \<or> CHR ''0'' \<le> c \<and> c \<le> CHR ''9'' \<or> CHR ''a'' \<le> lower_char c \<and> lower_char c \<le> CHR ''z''"

definition word_at :: "string \<Rightarrow> nat \<Rightarrow> bool" where
  "word_at s i \<longleftrightarrow> i < length s \<and> word_char (s ! i)"

text \<open>\<open>\b\<close>.\<close>

definition Edge :: pat where
  "Edge = Here (\<lambda>s i. word_at s i \<noteq> (0 < i \<and> word_at s (i - 1)))"

section \<open>Matches lie within the text\<close>

text \<open>A pattern that consumes: its matches are not empty.\<close>

primrec consumes :: "pat \<Rightarrow> bool" where
  "consumes (One P) = True"
| "consumes (Here Q) = False"
| "consumes (Seq p q) = (consumes p \<or> consumes q)"
| "consumes (Alt p q) = (consumes p \<and> consumes q)"
| "consumes (Rep lo hi p) = (0 < lo \<and> hi \<noteq> Some 0)"

text \<open>A step function that moves forward within the first \<open>n\<close> characters.\<close>

definition onward :: "nat \<Rightarrow> (nat \<Rightarrow> nat list) \<Rightarrow> bool" where
  "onward n f \<longleftrightarrow> (\<forall>j e. j \<le> n \<longrightarrow> e \<in> set (f j) \<longrightarrow> j \<le> e \<and> e \<le> n)"

lemma reps_bound:
  assumes "onward n f"
  shows "i \<le> n \<Longrightarrow> e \<in> set (reps f k lo hi i) \<Longrightarrow> i \<le> e \<and> e \<le> n \<and> (0 < lo \<and> hi \<noteq> Some 0 \<longrightarrow> i < e)"
proof (induction k arbitrary: lo hi i)
  case 0
  then show ?case by (simp split: if_splits)
next
  case (Suc k)
  show ?case
  proof (cases "hi = Some 0 \<or> (lo = 0 \<and> e = i)")
    case True
    then show ?thesis using Suc.prems by (elim disjE) simp_all
  next
    case False
    then have "e \<in> set (concat (map (\<lambda>j. reps f k (lo - 1) (map_option (\<lambda>h. h - 1) hi) j) (filter (\<lambda>j. i < j) (f i))))"
      using Suc.prems(2) by (simp split: if_splits) blast+
    then obtain j where j: "j \<in> set (f i)" "i < j" "e \<in> set (reps f k (lo - 1) (map_option (\<lambda>h. h - 1) hi) j)"
      unfolding set_concat set_map set_filter by blast
    have le: "j \<le> n" using assms j(1) Suc.prems(1) unfolding onward_def by blast
    have "j \<le> e \<and> e \<le> n" using Suc.IH [OF le j(3)] by simp
    then show ?thesis using j(2) by simp
  qed
qed

lemma ends_bound: "i \<le> length s \<Longrightarrow> e \<in> set (ends p s i) \<Longrightarrow> i \<le> e \<and> e \<le> length s \<and> (consumes p \<longrightarrow> i < e)"
proof (induction p arbitrary: i e)
  case (Seq p q)
  obtain j where j: "j \<in> set (ends p s i)" "e \<in> set (ends q s j)"
    using Seq.prems(2) unfolding ends.simps set_concat set_map by blast
  have "i \<le> j \<and> j \<le> length s \<and> (consumes p \<longrightarrow> i < j)" using Seq.IH(1) [OF Seq.prems(1) j(1)] .
  moreover from this have "j \<le> e \<and> e \<le> length s \<and> (consumes q \<longrightarrow> j < e)" using Seq.IH(2) [OF _ j(2)] by blast
  ultimately show ?case by auto
next
  case (Rep lo hi p)
  have "i \<le> e \<and> e \<le> length s \<and> (0 < lo \<and> hi \<noteq> Some 0 \<longrightarrow> i < e)"
  proof (rule reps_bound)
    show "onward (length s) (ends p s)" unfolding onward_def using Rep.IH by blast
    show "e \<in> set (reps (ends p s) (length s - i + 1) lo hi i)" using Rep.prems(2) by simp
  qed (rule Rep.prems(1))
  then show ?case by simp
next
  case (Alt p q)
  from Alt.prems(2) have "e \<in> set (ends p s i) \<or> e \<in> set (ends q s i)" by simp
  then show ?case
  proof
    assume "e \<in> set (ends p s i)"
    from Alt.IH(1) [OF Alt.prems(1) this] show ?thesis by simp
  next
    assume "e \<in> set (ends q s i)"
    from Alt.IH(2) [OF Alt.prems(1) this] show ?thesis by simp
  qed
qed (simp_all split: if_splits)

lemma match_from_bound: "match_from p s i = Some e \<Longrightarrow> i \<le> length s \<Longrightarrow> i \<le> e \<and> e \<le> length s \<and> (consumes p \<longrightarrow> i < e)"
  using ends_bound [of i s e p] by (auto simp: match_from_def split: list.splits)

lemma all_from_bound:
  "(a, b) \<in> set (all_from p s i) \<Longrightarrow> i \<le> a \<and> a \<le> b \<and> b \<le> length s \<and> (consumes p \<longrightarrow> a < b)"
proof (induction p s i rule: all_from.induct)
  case (1 p s i)
  show ?case
  proof (cases "length s < i")
    case True
    then show ?thesis using 1 by (simp add: all_from.simps [of p s i])
  next
    case False
    show ?thesis
    proof (cases "match_from p s i")
      case None
      then have "(a, b) \<in> set (all_from p s (Suc i))" using "1.prems" False by (simp add: all_from.simps [of p s i])
      then show ?thesis using "1.IH"(1) [OF False None] by simp
    next
      case (Some e)
      have mb: "i \<le> e \<and> e \<le> length s \<and> (consumes p \<longrightarrow> i < e)" using match_from_bound [OF Some] False by simp
      have "(a, b) = (i, e) \<or> (a, b) \<in> set (all_from p s (max e (Suc i)))"
        using "1.prems" False Some by (simp add: all_from.simps [of p s i])
      then show ?thesis
        using mb "1.IH"(2) [OF False Some] by (elim disjE; simp)
    qed
  qed
qed

text \<open>Wherever the pattern matches, the place lies within one of the matches taken.\<close>

lemma all_from_covers:
  "i \<le> j \<Longrightarrow> j \<le> length s \<Longrightarrow> consumes p \<Longrightarrow> match_from p s j \<noteq> None \<Longrightarrow> \<exists>(a, b) \<in> set (all_from p s i). a \<le> j \<and> j < b"
proof (induction p s i rule: all_from.induct)
  case (1 p s i)
  have inside: "\<not> length s < i" using "1.prems" by simp
  show ?case
  proof (cases "match_from p s i")
    case None
    then have "i \<noteq> j" using "1.prems" by auto
    then show ?thesis
      using "1.IH"(1) [OF inside None] "1.prems" None inside by (auto simp: all_from.simps [of p s i])
  next
    case (Some e)
    have "i < e" using match_from_bound [OF Some] inside "1.prems"(3) by simp
    show ?thesis
    proof (cases "j < e")
      case True
      then show ?thesis using "1.prems" Some inside by (auto simp: all_from.simps [of p s i])
    next
      case False
      then have "max e (Suc i) \<le> j" using \<open>i < e\<close> by simp
      then show ?thesis
        using "1.IH"(2) [OF inside Some] "1.prems" Some inside by (auto simp: all_from.simps [of p s i])
    qed
  qed
qed

lemma matchAll_bound: "(a, b) \<in> set (matchAll p s) \<Longrightarrow> a \<le> b \<and> b \<le> length s \<and> (consumes p \<longrightarrow> a < b)"
  using all_from_bound [of a b p s 0] by (simp add: matchAll_def)

lemma matchAll_covers:
  "j \<le> length s \<Longrightarrow> consumes p \<Longrightarrow> match_from p s j \<noteq> None \<Longrightarrow> \<exists>(a, b) \<in> set (matchAll p s). a \<le> j \<and> j < b"
  using all_from_covers [of 0 j s p] by (simp add: matchAll_def)

lemma consumes_seqs [simp]: "consumes (seqs ps) = list_ex consumes ps"
  by (induction ps) auto

lemma consumes_alts [simp]: "consumes (alts ps) = (ps \<noteq> [] \<and> False)"
  by (induction ps) auto

end
