(* ===== verification/Guard.thy ===== *)
theory Guard
  imports Patterns MatchState
begin

text \<open>
  The chat and name guard of the server (\<open>backend/src/safety/guard.ts\<close>): the patterns of links, e-mail addresses,
  handles and phone numbers, the handles that follow the name of a platform, the redaction of what was found, the phrases
  that raise a nudge, and the display names. The word lists of \<open>safety/phrases.ts\<close> are data and an argument; Unicode
  normalisation (\<open>NFKC\<close>) and the hash of a nickname are functions of the standard library, also arguments. Text is
  8-bit, so the classes \<open>\p{L}\<close>, \<open>\p{M}\<close> and \<open>\p{N}\<close> are those of Latin-1 and the Devanagari digits do not occur.
\<close>

definition HIDDEN :: string where "HIDDEN = ''[hidden for safety]''"
definition PHONE_MIN_DIGITS :: nat where "PHONE_MIN_DIGITS = 7"
definition PHONE_MAX_DIGITS :: nat where "PHONE_MAX_DIGITS = 15"
definition HANDLE_MIN_CHARS :: nat where "HANDLE_MIN_CHARS = 2"
definition HANDLE_MAX_CHARS :: nat where "HANDLE_MAX_CHARS = 30"
definition MAX_CONNECTOR_TOKENS :: nat where "MAX_CONNECTOR_TOKENS = 3"
definition SQUASHED_SLUR_MIN_CHARS :: nat where "SQUASHED_SLUR_MIN_CHARS = 5"
definition NICKNAME_PREFIX :: string where "NICKNAME_PREFIX = ''Stranger ''"
definition NICKNAME_MIN :: nat where "NICKNAME_MIN = 1000"
definition NICKNAME_RANGE :: nat where "NICKNAME_RANGE = 9000"
definition NICKNAME_DOMAIN :: string where "NICKNAME_DOMAIN = ''chizzy-nick:''"

record guard_lists =
  gl_always :: "string list"
  gl_strong :: "string list"
  gl_weak :: "string list"
  gl_connectors :: "string list"
  gl_notHandles :: "string list"
  gl_socialHosts :: "string list"
  gl_contact :: "string list"
  gl_solicitation :: "string list"
  gl_slurs :: "string list"
  gl_wordOnly :: "string list"

record guard_lib =
  gd_lists :: guard_lists
  gd_nfkc :: "string \<Rightarrow> string"
  gd_hash32 :: "string \<Rightarrow> nat"

section \<open>Characters\<close>

definition latin_letter :: "char \<Rightarrow> bool" where
  "latin_letter c \<longleftrightarrow>
     (CHR ''a'' \<le> c \<and> c \<le> CHR ''z'') \<or> (CHR ''A'' \<le> c \<and> c \<le> CHR ''Z'')
   \<or> c \<in> {CHR 0xAA, CHR 0xB5, CHR 0xBA} \<or> (CHR 0xC0 \<le> c \<and> c \<noteq> CHR 0xD7 \<and> c \<noteq> CHR 0xF7)"

definition latin_number :: "char \<Rightarrow> bool" where
  "latin_number c \<longleftrightarrow>
     (CHR ''0'' \<le> c \<and> c \<le> CHR ''9'') \<or> c \<in> {CHR 0xB2, CHR 0xB3, CHR 0xB9, CHR 0xBC, CHR 0xBD, CHR 0xBE}"

definition latin_lower :: "char \<Rightarrow> char" where
  "latin_lower c =
     (if (CHR ''A'' \<le> c \<and> c \<le> CHR ''Z'') \<or> (CHR 0xC0 \<le> c \<and> c \<le> CHR 0xDE \<and> c \<noteq> CHR 0xD7)
      then char_of (of_char c + (32::nat)) else c)"

definition blank :: "char \<Rightarrow> bool" where
  "blank c \<longleftrightarrow> is_space c \<or> c = CHR 0xA0"

definition decimal :: "char \<Rightarrow> bool" where
  "decimal c \<longleftrightarrow> CHR ''0'' \<le> c \<and> c \<le> CHR ''9''"

definition small_letter :: "char \<Rightarrow> bool" where
  "small_letter c \<longleftrightarrow> CHR ''a'' \<le> lower_char c \<and> lower_char c \<le> CHR ''z''"

definition host_char :: "char \<Rightarrow> bool" where
  "host_char c \<longleftrightarrow> small_letter c \<or> decimal c \<or> c = CHR ''-''"

definition handle_char :: "char \<Rightarrow> bool" where
  "handle_char c \<longleftrightarrow> small_letter c \<or> decimal c \<or> c = CHR ''_'' \<or> c = CHR ''.''"

definition wide_handle_char :: "char \<Rightarrow> bool" where
  "wide_handle_char c \<longleftrightarrow> latin_letter c \<or> latin_number c \<or> c = CHR ''_'' \<or> c = CHR ''.''"

definition token_char :: "char \<Rightarrow> bool" where
  "token_char c \<longleftrightarrow> wide_handle_char c \<or> c = CHR ''@'' \<or> c = CHR 0x27"

section \<open>Normalisation of phrases\<close>

definition leet :: "char \<Rightarrow> char" where
  "leet c =
     (if c = CHR ''0'' then CHR ''o'' else if c = CHR ''1'' then CHR ''i'' else if c = CHR ''3'' then CHR ''e''
      else if c = CHR ''4'' then CHR ''a'' else if c = CHR ''5'' then CHR ''s'' else if c = CHR ''7'' then CHR ''t''
      else if c = CHR ''@'' then CHR ''a'' else if c = CHR ''$'' then CHR ''s'' else c)"

text \<open>\<open>replace(/[^\p{L}\p{M}\p{N}]+/gu, " ")\<close>: every run of other characters becomes one space.\<close>

fun spaced :: "bool \<Rightarrow> string \<Rightarrow> string" where
  "spaced inRun [] = []"
| "spaced inRun (c # cs) =
     (if latin_letter c \<or> latin_number c then c # spaced False cs
      else if inRun then spaced True cs else CHR '' '' # spaced True cs)"

definition normalize :: "guard_lib \<Rightarrow> string \<Rightarrow> string" where
  "normalize lib txt =
     (let s = trim (remdups_adj (spaced False (filter (\<lambda>c. c \<noteq> CHR 0x27) (map (leet \<circ> latin_lower) (gd_nfkc lib txt))))) in
      '' '' @ s @ '' '')"

text \<open>\<open>text.includes(part)\<close>.\<close>

fun has_part :: "string \<Rightarrow> string \<Rightarrow> bool" where
  "has_part [] part \<longleftrightarrow> part = []"
| "has_part (c # cs) part \<longleftrightarrow> take (length part) (c # cs) = part \<or> has_part cs part"

definition hasPhrase :: "guard_lib \<Rightarrow> string \<Rightarrow> string list \<Rightarrow> bool" where
  "hasPhrase lib normalized phrases \<longleftrightarrow> (\<exists>p \<in> set phrases. has_part normalized (normalize lib p))"

section \<open>Patterns\<close>

definition TLDS :: "string list" where
  "TLDS = [''com'', ''net'', ''org'', ''in'', ''io'', ''me'', ''co'', ''gg'', ''app'', ''ly'', ''xyz'', ''link'', ''tv'', ''site'',
     ''online'', ''info'', ''biz'', ''us'', ''uk'', ''ru'', ''cc'', ''to'', ''be'', ''dev'', ''ai'', ''live'', ''fun'', ''club'',
     ''store'', ''shop'', ''page'', ''bio'']"

definition dot :: pat where "dot = One (\<lambda>c. c = CHR ''.'')"
definition visible :: pat where "visible = One (\<lambda>c. \<not> blank c)"
definition host :: pat where "host = One host_char"

definition URL_RE :: pat where
  "URL_RE =
     Alt (seqs [Alt (seqs [Edge, Lit ''http'', Opt (Lit ''s''), Lit ''://'']) (Seq Edge (Lit ''www.'')), Plus visible])
         (seqs [Edge, One (\<lambda>c. small_letter c \<or> decimal c), Star host, Star (seqs [dot, Plus host]), dot,
                alts (map Lit TLDS), Edge, Opt (Seq (Lit ''/'') (Star visible))])"

definition EMAIL_RE :: pat where
  "EMAIL_RE =
     seqs [Plus (One (\<lambda>c. \<not> blank c \<and> c \<noteq> CHR ''@'')), Lit ''@'', Plus (One (\<lambda>c. \<not> blank c \<and> c \<noteq> CHR ''@'')), dot,
           Rep 2 None (One small_letter)]"

definition AT_HANDLE_RE :: pat where
  "AT_HANDLE_RE =
     seqs [Here (\<lambda>s i. \<not> (0 < i \<and> (word_at s (i - 1) \<or> s ! (i - 1) = CHR ''@''))), Lit ''@'',
           Rep HANDLE_MIN_CHARS (Some HANDLE_MAX_CHARS) (One handle_char)]"

definition PHONE_RE :: pat where
  "PHONE_RE =
     seqs [Opt (Lit ''+''), One decimal, Rep 5 None (One (\<lambda>c. decimal c \<or> blank c \<or> c \<in> set ''().-'')), One decimal]"

definition TOKEN_RE :: pat where
  "TOKEN_RE = Alt (Plus (One token_char)) (One (\<lambda>c. c \<in> set '':=-''))"

definition at_start :: pat where "at_start = Here (\<lambda>s i. i = 0)"
definition at_end :: pat where "at_end = Here (\<lambda>s i. i = length s)"

definition HANDLE_RE :: pat where
  "HANDLE_RE =
     seqs [at_start, Opt (Lit ''@''), Rep HANDLE_MIN_CHARS (Some HANDLE_MAX_CHARS) (One wide_handle_char), at_end]"

definition social_host_re :: "string \<Rightarrow> pat" where
  "social_host_re h =
     seqs [Alt at_start (One (\<lambda>c. c = CHR ''/'' \<or> c = CHR ''.'')), seqs (map (\<lambda>c. One (\<lambda>d. d = c)) h),
           alts [Lit ''/'', at_end, Lit ''?'']]"

section \<open>Spans\<close>

datatype span_kind = ContactSpan | LinkSpan

record span =
  sp_start :: nat
  sp_end :: nat
  sp_kind :: span_kind

definition slice :: "string \<Rightarrow> nat \<Rightarrow> nat \<Rightarrow> string" where
  "slice s a b = take (b - a) (drop a s)"

definition contact_spans :: "(nat \<times> nat) list \<Rightarrow> span list" where
  "contact_spans ms = map (\<lambda>(a, b). \<lparr>sp_start = a, sp_end = b, sp_kind = ContactSpan\<rparr>) ms"

definition is_social :: "guard_lib \<Rightarrow> string \<Rightarrow> bool" where
  "is_social lib url \<longleftrightarrow> (\<exists>h \<in> set (gl_socialHosts (gd_lists lib)). found_in (social_host_re h) url)"

definition urlSpans :: "guard_lib \<Rightarrow> string \<Rightarrow> span list" where
  "urlSpans lib txt =
     contact_spans (matchAll EMAIL_RE txt) @
     map (\<lambda>(a, b). \<lparr>sp_start = a, sp_end = b,
                     sp_kind = (if is_social lib (map latin_lower (slice txt a b)) then ContactSpan else LinkSpan)\<rparr>)
         (matchAll URL_RE txt)"

definition phoneSpans :: "string \<Rightarrow> span list" where
  "phoneSpans txt =
     contact_spans (filter (\<lambda>(a, b). let digits = length (filter decimal (slice txt a b)) in
                              PHONE_MIN_DIGITS \<le> digits \<and> digits \<le> PHONE_MAX_DIGITS) (matchAll PHONE_RE txt))"

record token =
  tk_start :: nat
  tk_end :: nat
  tk_word :: string
  tk_raw :: string

definition no_dots :: "string \<Rightarrow> string" where
  "no_dots s = rev (dropWhile (\<lambda>c. c = CHR ''.'') (rev s))"

definition no_at :: "string \<Rightarrow> string" where
  "no_at s = (case s of c # cs \<Rightarrow> if c = CHR ''@'' then cs else s | [] \<Rightarrow> [])"

definition tokens_of :: "string \<Rightarrow> token list" where
  "tokens_of txt =
     map (\<lambda>(a, b). let raw = slice txt a b in
            \<lparr>tk_start = a, tk_end = a + length (no_dots raw), tk_word = map latin_lower (no_at (no_dots raw)), tk_raw = raw\<rparr>)
         (matchAll TOKEN_RE txt)"

definition isPlatform :: "guard_lists \<Rightarrow> string \<Rightarrow> bool" where
  "isPlatform gl w \<longleftrightarrow> w \<in> set (gl_always gl) \<or> w \<in> set (gl_strong gl) \<or> w \<in> set (gl_weak gl)"

text \<open>The loop over the words that may stand between a platform and a handle: how many are skipped, and whether one of
  them is a colon, an equals sign or a dash.\<close>

fun connectors :: "guard_lists \<Rightarrow> nat \<Rightarrow> token list \<Rightarrow> bool \<Rightarrow> token list \<times> bool" where
  "connectors gl n [] explicit = ([], explicit)"
| "connectors gl 0 ts explicit = (ts, explicit)"
| "connectors gl (Suc n) (t # ts) explicit =
     (if tk_word t \<in> set ['':'', ''='', ''-''] then connectors gl n ts True
      else if tk_word t \<in> set (gl_connectors gl) then connectors gl n ts explicit
      else (t # ts, explicit))"

definition looks_like_handle :: "guard_lists \<Rightarrow> token \<Rightarrow> bool" where
  "looks_like_handle gl c \<longleftrightarrow>
     found_in HANDLE_RE (no_dots (tk_raw c)) \<and> tk_word c \<notin> set (gl_notHandles gl) \<and> \<not> isPlatform gl (tk_word c)"

definition weak_ok :: "bool \<Rightarrow> token \<Rightarrow> bool" where
  "weak_ok explicit c \<longleftrightarrow>
     explicit \<or> take 1 (tk_raw c) = ''@'' \<or> (\<exists>x \<in> set (tk_word c). decimal x \<or> x = CHR ''_'' \<or> x = CHR ''.'')"

definition platform_span :: "guard_lists \<Rightarrow> token \<Rightarrow> token list \<Rightarrow> span list" where
  "platform_span gl t rest =
     (if \<not> isPlatform gl (tk_word t) then []
      else
        let (later, explicit) = connectors gl MAX_CONNECTOR_TOKENS rest False;
            handle = (case later of
                        c # _ \<Rightarrow> if looks_like_handle gl c \<and> (tk_word t \<notin> set (gl_weak gl) \<or> weak_ok explicit c)
                                 then Some (tk_end c) else None
                      | [] \<Rightarrow> None) in
        case handle of
          Some e \<Rightarrow> [\<lparr>sp_start = tk_start t, sp_end = e, sp_kind = ContactSpan\<rparr>]
        | None \<Rightarrow>
            if tk_word t \<in> set (gl_always gl)
            then [\<lparr>sp_start = tk_start t, sp_end = tk_end t, sp_kind = ContactSpan\<rparr>] else [])"

fun platforms_in :: "guard_lists \<Rightarrow> token list \<Rightarrow> span list" where
  "platforms_in gl [] = []"
| "platforms_in gl (t # ts) = platform_span gl t ts @ platforms_in gl ts"

definition platformSpans :: "guard_lib \<Rightarrow> string \<Rightarrow> span list" where
  "platformSpans lib txt = platforms_in (gd_lists lib) (tokens_of txt)"

definition findSpans :: "guard_lib \<Rightarrow> string \<Rightarrow> span list" where
  "findSpans lib txt =
     urlSpans lib txt @ contact_spans (matchAll AT_HANDLE_RE txt) @ phoneSpans txt @ platformSpans lib txt"

section \<open>Redaction\<close>

record redaction =
  rd_out :: string
  rd_cursor :: nat
  rd_open :: "(nat \<times> nat) option"

definition close_open :: "string \<Rightarrow> redaction \<Rightarrow> redaction" where
  "close_open txt r =
     (case rd_open r of
        None \<Rightarrow> r
      | Some (a, b) \<Rightarrow> r\<lparr>rd_out := rd_out r @ slice txt (rd_cursor r) a @ HIDDEN, rd_cursor := b, rd_open := None\<rparr>)"

definition redact_step :: "string \<Rightarrow> span \<Rightarrow> redaction \<Rightarrow> redaction" where
  "redact_step txt s r =
     (case rd_open r of
        Some (a, b) \<Rightarrow>
          if sp_start s \<le> b then r\<lparr>rd_open := Some (a, max b (sp_end s))\<rparr>
          else (close_open txt r)\<lparr>rd_open := Some (sp_start s, sp_end s)\<rparr>
      | None \<Rightarrow> r\<lparr>rd_open := Some (sp_start s, sp_end s)\<rparr>)"

definition redact :: "string \<Rightarrow> span list \<Rightarrow> string" where
  "redact txt spans =
     (let r = close_open txt (fold (redact_step txt) (sort_key sp_start spans) \<lparr>rd_out = [], rd_cursor = 0, rd_open = None\<rparr>) in
      rd_out r @ drop (rd_cursor r) txt)"

section \<open>The guard\<close>

definition guardChat :: "guard_lib \<Rightarrow> string \<Rightarrow> bool \<Rightarrow> guarded_text" where
  "guardChat lib txt do_redact =
     (let spans = findSpans lib txt; normalized = normalize lib txt;
          contact = ((\<exists>s \<in> set spans. sp_kind s = ContactSpan) \<or> hasPhrase lib normalized (gl_contact (gd_lists lib)));
          solicits = hasPhrase lib normalized (gl_solicitation (gd_lists lib)) in
      if \<not> do_redact \<or> spans = []
      then \<lparr>g_text = txt, g_redacted = False, g_contactSharing = contact, g_solicitation = solicits\<rparr>
      else \<lparr>g_text = redact txt spans, g_redacted = True, g_contactSharing = contact, g_solicitation = solicits\<rparr>)"

definition containsSlur :: "guard_lib \<Rightarrow> string \<Rightarrow> bool" where
  "containsSlur lib txt \<longleftrightarrow>
     (let normalized = normalize lib txt; squashed = filter (\<lambda>c. \<not> blank c) normalized;
          wordOnly = map (trim \<circ> normalize lib) (gl_wordOnly (gd_lists lib)) in
      \<exists>s \<in> set (map (trim \<circ> normalize lib) (gl_slurs (gd_lists lib))).
        has_part normalized ('' '' @ s @ '' '')
        \<or> (SQUASHED_SLUR_MIN_CHARS \<le> length s \<and> s \<notin> set wordOnly \<and> has_part squashed s))"

definition nicknameFor :: "guard_lib \<Rightarrow> device_id \<Rightarrow> string" where
  "nicknameFor lib d = NICKNAME_PREFIX @ show_nat (NICKNAME_MIN + gd_hash32 lib (NICKNAME_DOMAIN @ d) mod NICKNAME_RANGE)"

text \<open>The name, and whether it was replaced.\<close>

definition guardName :: "guard_lib \<Rightarrow> string \<Rightarrow> device_id \<Rightarrow> string \<times> bool" where
  "guardName lib nm d =
     (if findSpans lib nm \<noteq> [] \<or> containsSlur lib nm then (nicknameFor lib d, True) else (nm, False))"

end
