(* ===== verification/GuardTheorems.thy ===== *)
theory GuardTheorems
  imports Guard CallTheorems
begin

text \<open>
  What the guard promises of chat: redaction equals hiding, character by character, whatever lies in a span, and in the
  guarded minutes of a call a message reaches the partner with everything the patterns find hidden and the rest as typed.
\<close>

section \<open>Every span lies within the text and is not empty\<close>

definition spans_ok :: "string \<Rightarrow> span list \<Rightarrow> bool" where
  "spans_ok txt ss \<longleftrightarrow> (\<forall>s \<in> set ss. sp_start s < sp_end s \<and> sp_end s \<le> length txt)"

lemma spans_ok_append [simp]: "spans_ok txt (as @ bs) \<longleftrightarrow> spans_ok txt as \<and> spans_ok txt bs"
  by (auto simp: spans_ok_def)

lemma patterns_consume [simp]:
  "consumes URL_RE" "consumes EMAIL_RE" "consumes AT_HANDLE_RE" "consumes PHONE_RE" "consumes TOKEN_RE"
  by (simp_all add: URL_RE_def EMAIL_RE_def AT_HANDLE_RE_def PHONE_RE_def TOKEN_RE_def Plus_def visible_def Lit_def)

lemma contact_spans_ok: "consumes p \<Longrightarrow> spans_ok txt (contact_spans (filter Q (matchAll p txt)))"
  by (auto simp: spans_ok_def contact_spans_def dest: matchAll_bound)

lemmas contact_matches_ok = contact_spans_ok [where Q = "\<lambda>_. True", simplified]

lemma url_spans_ok: "spans_ok txt (urlSpans lib txt)"
  by (auto simp: urlSpans_def contact_matches_ok) (auto simp: spans_ok_def dest: matchAll_bound)

text \<open>The tokens stand in order, and a token that has a word spans it.\<close>

lemma all_from_sorted: "consumes p \<Longrightarrow> sorted_wrt (\<lambda>x y. snd x \<le> fst y) (all_from p s i)"
proof (induction p s i rule: all_from.induct)
  case (1 p s i)
  show ?case
  proof (cases "length s < i")
    case True
    then show ?thesis by (simp add: all_from.simps [of p s i])
  next
    case False
    show ?thesis
    proof (cases "match_from p s i")
      case None
      then show ?thesis using 1 False by (simp add: all_from.simps [of p s i])
    next
      case (Some e)
      have "sorted_wrt (\<lambda>x y. snd x \<le> fst y) (all_from p s (max e (Suc i)))" using "1.IH"(2) [OF False Some "1.prems"] .
      moreover have "e \<le> fst q" if "q \<in> set (all_from p s (max e (Suc i)))" for q
        using all_from_bound [where a = "fst q" and b = "snd q" and p = p and s = s and i = "max e (Suc i)"] that by simp
      ultimately show ?thesis using False Some by (simp add: all_from.simps [of p s i])
    qed
  qed
qed

lemma no_dots_length: "length (no_dots s) \<le> length s"
  using length_dropWhile_le [of "\<lambda>c. c = CHR ''.''" "rev s"] by (simp add: no_dots_def)

definition token_ok :: "string \<Rightarrow> token \<Rightarrow> bool" where
  "token_ok txt t \<longleftrightarrow> tk_start t \<le> tk_end t \<and> tk_end t \<le> length txt \<and> (tk_word t \<noteq> [] \<longrightarrow> tk_start t < tk_end t)"

lemma tokens_ok: "t \<in> set (tokens_of txt) \<Longrightarrow> token_ok txt t"
proof -
  assume "t \<in> set (tokens_of txt)"
  then obtain a b where m: "(a, b) \<in> set (matchAll TOKEN_RE txt)"
    and t: "t = \<lparr>tk_start = a, tk_end = a + length (no_dots (slice txt a b)),
                 tk_word = map latin_lower (no_at (no_dots (slice txt a b))), tk_raw = slice txt a b\<rparr>"
    by (auto simp: tokens_of_def Let_def)
  have "a < b" "b \<le> length txt" using matchAll_bound [OF m] by simp_all
  moreover have "length (no_dots (slice txt a b)) \<le> b - a" using no_dots_length [of "slice txt a b"] by (simp add: slice_def)
  moreover have "no_at (no_dots (slice txt a b)) \<noteq> [] \<longrightarrow> no_dots (slice txt a b) \<noteq> []" by (auto simp: no_at_def)
  ultimately show ?thesis by (auto simp: t token_ok_def)
qed

lemma tokens_sorted: "sorted_wrt (\<lambda>t u. tk_start t < tk_start u) (tokens_of txt)"
proof -
  have "sorted_wrt (\<lambda>x y. fst x < fst y) (matchAll TOKEN_RE txt)"
  proof (rule sorted_wrt_mono_rel)
    show "sorted_wrt (\<lambda>x y. snd x \<le> fst y) (matchAll TOKEN_RE txt)"
      using all_from_sorted [of TOKEN_RE "txt" 0] by (simp add: matchAll_def)
    show "fst x < fst y" if "x \<in> set (matchAll TOKEN_RE txt)" "snd x \<le> fst y" for x y
      using that matchAll_bound [of "fst x" "snd x" TOKEN_RE "txt"] by simp
  qed
  then show ?thesis by (simp add: tokens_of_def Let_def sorted_wrt_map case_prod_unfold)
qed

lemma connectors_suffix: "fst (connectors gl n ts b) = later \<Longrightarrow> set later \<subseteq> set ts"
  by (induction gl n ts b rule: connectors.induct) (auto split: if_splits)

text \<open>The lists of platforms name no empty word.\<close>

definition platforms_named :: "guard_lists \<Rightarrow> bool" where
  "platforms_named gl \<longleftrightarrow> \<not> isPlatform gl []"

lemma platform_span_ok:
  assumes "platforms_named gl" "token_ok txt t" "\<forall>c \<in> set rest. token_ok txt c \<and> tk_start t < tk_start c"
  shows "spans_ok txt (platform_span gl t rest)"
proof (cases "isPlatform gl (tk_word t)")
  case False
  then show ?thesis by (simp add: platform_span_def spans_ok_def)
next
  case True
  then have "tk_word t \<noteq> []" using assms(1) by (auto simp: platforms_named_def)
  then have t: "tk_start t < tk_end t" "tk_end t \<le> length txt" using assms(2) by (auto simp: token_ok_def)
  obtain later explicit where c: "connectors gl MAX_CONNECTOR_TOKENS rest False = (later, explicit)" by (cases "connectors gl MAX_CONNECTOR_TOKENS rest False")
  have "\<forall>c \<in> set later. token_ok txt c \<and> tk_start t < tk_start c"
    using connectors_suffix [of gl MAX_CONNECTOR_TOKENS rest False later] c assms(3) by auto
  then show ?thesis using True t
    by (cases later) (auto simp: platform_span_def c spans_ok_def token_ok_def Let_def)
qed

lemma platforms_in_ok:
  assumes "platforms_named gl"
  shows "sorted_wrt (\<lambda>t u. tk_start t < tk_start u) ts \<Longrightarrow> \<forall>t \<in> set ts. token_ok txt t \<Longrightarrow> spans_ok txt (platforms_in gl ts)"
proof (induction ts)
  case Nil
  then show ?case by (simp add: spans_ok_def)
next
  case (Cons t ts)
  then show ?case using platform_span_ok [OF assms, of "txt" t ts] by simp
qed

lemma findSpans_ok: "platforms_named (gd_lists lib) \<Longrightarrow> spans_ok txt (findSpans lib txt)"
  using platforms_in_ok [OF _ tokens_sorted, of "gd_lists lib" "txt" "txt"] tokens_ok
  by (auto simp: findSpans_def url_spans_ok contact_matches_ok phoneSpans_def contact_spans_ok platformSpans_def)

section \<open>Redaction hides exactly the covered characters\<close>

definition covered :: "span list \<Rightarrow> nat \<Rightarrow> bool" where
  "covered ss j \<longleftrightarrow> (\<exists>s \<in> set ss. sp_start s \<le> j \<and> j < sp_end s)"

text \<open>The text from position \<open>i\<close>, with \<open>HIDDEN\<close> for each stretch of positions that satisfy \<open>P\<close>.\<close>

fun masked :: "(nat \<Rightarrow> bool) \<Rightarrow> nat \<Rightarrow> bool \<Rightarrow> string \<Rightarrow> string" where
  "masked P i inside [] = []"
| "masked P i inside (c # cs) =
     (if P i then (if inside then [] else HIDDEN) @ masked P (Suc i) True cs else c # masked P (Suc i) False cs)"

lemma masked_clear:
  "(\<And>j. i \<le> j \<Longrightarrow> j < i + length xs \<Longrightarrow> \<not> P j) \<Longrightarrow>
   masked P i f (xs @ ys) = xs @ masked P (i + length xs) (f \<and> xs = []) ys"
proof (induction xs arbitrary: i f)
  case (Cons x xs)
  have "\<not> P i" using Cons.prems [of i] by simp
  moreover have "\<not> P j" if "Suc i \<le> j" "j < Suc i + length xs" for j using Cons.prems [of j] that by simp
  ultimately show ?case using Cons.IH [of "Suc i" False] by simp
qed simp

lemma masked_dark:
  "(\<And>j. i \<le> j \<Longrightarrow> j < i + length xs \<Longrightarrow> P j) \<Longrightarrow> masked P i True (xs @ ys) = masked P (i + length xs) True ys"
proof (induction xs arbitrary: i)
  case (Cons x xs)
  have "P i" using Cons.prems [of i] by simp
  moreover have "P j" if "Suc i \<le> j" "j < Suc i + length xs" for j using Cons.prems [of j] that by simp
  ultimately show ?case using Cons.IH [of "Suc i"] by simp
qed simp

lemma slice_split: "c \<le> a \<Longrightarrow> a \<le> b \<Longrightarrow> drop c txt = slice txt c a @ drop a txt"
  by (metis append_take_drop_id drop_drop le_add_diff_inverse2 slice_def)

lemma slice_length: "a \<le> b \<Longrightarrow> b \<le> length txt \<Longrightarrow> length (slice txt a b) = b - a"
  by (simp add: slice_def)

lemma masked_stretch:
  assumes "cur \<le> a" "a < b" "b \<le> length txt" "f \<longrightarrow> cur < a"
    and clear: "\<And>j. cur \<le> j \<Longrightarrow> j < a \<Longrightarrow> \<not> P j" and dark: "\<And>j. a \<le> j \<Longrightarrow> j < b \<Longrightarrow> P j"
  shows "masked P cur f (drop cur txt) = slice txt cur a @ HIDDEN @ masked P b True (drop b txt)"
proof -
  have la: "length (slice txt cur a) = a - cur" using assms by (intro slice_length) auto
  have "masked P cur f (slice txt cur a @ drop a txt)
      = slice txt cur a @ masked P (cur + length (slice txt cur a)) (f \<and> slice txt cur a = []) (drop a txt)"
    by (rule masked_clear) (use clear assms la in auto)
  moreover have "\<not> (f \<and> slice txt cur a = [])" using assms(1,4) la by auto
  ultimately have 1: "masked P cur f (drop cur txt) = slice txt cur a @ masked P a False (drop a txt)"
    using slice_split [of cur a a "txt"] assms(1) la by simp
  obtain x xs where x: "slice txt a b = x # xs" using slice_length [of a b "txt"] assms by (cases "slice txt a b") auto
  have lb: "length xs = b - Suc a" using slice_length [of a b "txt"] assms x by simp
  have "masked P (Suc a) True (xs @ drop b txt) = masked P (Suc a + length xs) True (drop b txt)"
    by (rule masked_dark) (use dark lb assms in auto)
  moreover have "P a" using dark assms(2) by simp
  ultimately have "masked P a False (drop a txt) = HIDDEN @ masked P b True (drop b txt)"
    using slice_split [of a b b "txt"] x lb assms(2) by simp
  then show ?thesis using 1 by simp
qed

lemma masked_rest: "(\<And>j. i \<le> j \<Longrightarrow> \<not> P j) \<Longrightarrow> masked P i f xs = xs"
  using masked_clear [of i xs P f "[]"] by simp

definition finished :: "string \<Rightarrow> redaction \<Rightarrow> string" where
  "finished txt r = (let r' = close_open txt r in rd_out r' @ drop (rd_cursor r') txt)"

lemma finished_open:
  "finished txt \<lparr>rd_out = out, rd_cursor = cur, rd_open = Some (a, b)\<rparr> = out @ slice txt cur a @ HIDDEN @ drop b txt"
  by (simp add: finished_def close_open_def)

lemma redact_rest:
  assumes "sorted (map sp_start ss)" "\<forall>s \<in> set ss. a \<le> sp_start s" "spans_ok txt ss"
    and "cur \<le> a" "a < b" "b \<le> length txt" "f \<longrightarrow> cur < a"
    and "\<And>j. cur \<le> j \<Longrightarrow> P j \<longleftrightarrow> a \<le> j \<and> j < b \<or> covered ss j"
  shows "finished txt (fold (redact_step txt) ss \<lparr>rd_out = out, rd_cursor = cur, rd_open = Some (a, b)\<rparr>) = out @ masked P cur f (drop cur txt)"
  using assms
proof (induction ss arbitrary: out cur a b f)
  case Nil
  have "masked P cur f (drop cur txt) = slice txt cur a @ HIDDEN @ masked P b True (drop b txt)"
    by (rule masked_stretch) (use Nil.prems in \<open>auto simp: covered_def\<close>)
  moreover have "masked P b True (drop b txt) = drop b txt"
    by (rule masked_rest) (use Nil.prems in \<open>auto simp: covered_def\<close>)
  ultimately show ?case by (simp add: finished_open)
next
  case (Cons s ss)
  note prems = Cons.prems
  have s: "a \<le> sp_start s" "sp_start s < sp_end s" "sp_end s \<le> length txt" using prems(2,3) by (auto simp: spans_ok_def)
  have ss: "sorted (map sp_start ss)" "\<forall>x \<in> set ss. sp_start s \<le> sp_start x" "spans_ok txt ss"
    using prems(1,3) by (auto simp: spans_ok_def)
  have cov: "covered (s # ss) j \<longleftrightarrow> sp_start s \<le> j \<and> j < sp_end s \<or> covered ss j" for j by (auto simp: covered_def)
  show ?case
  proof (cases "sp_start s \<le> b")
    case True
    have "finished txt (fold (redact_step txt) ss \<lparr>rd_out = out, rd_cursor = cur, rd_open = Some (a, max b (sp_end s))\<rparr>)
        = out @ masked P cur f (drop cur txt)"
    proof (rule Cons.IH)
      show "P j \<longleftrightarrow> a \<le> j \<and> j < max b (sp_end s) \<or> covered ss j" if "cur \<le> j" for j
        using prems(8) [OF that] s True by (auto simp: cov)
    qed (use ss prems s in auto)
    then show ?thesis using True by (simp add: redact_step_def [of "txt" s])
  next
    case False
    have "finished txt (fold (redact_step txt) ss
          \<lparr>rd_out = out @ slice txt cur a @ HIDDEN, rd_cursor = b, rd_open = Some (sp_start s, sp_end s)\<rparr>)
        = (out @ slice txt cur a @ HIDDEN) @ masked P b True (drop b txt)"
    proof (rule Cons.IH)
      show "P j \<longleftrightarrow> sp_start s \<le> j \<and> j < sp_end s \<or> covered ss j" if "b \<le> j" for j
        using prems(8) [of j] prems(4,5) that by (auto simp: cov)
    qed (use ss prems s False in auto)
    moreover have "masked P cur f (drop cur txt) = slice txt cur a @ HIDDEN @ masked P b True (drop b txt)"
    proof (rule masked_stretch)
      show "\<not> P j" if "cur \<le> j" "j < a" for j using prems(8) [of j] prems(2) that by (auto simp: covered_def)
      show "P j" if "a \<le> j" "j < b" for j using prems(8) [of j] prems(4) that by auto
    qed (use prems in auto)
    ultimately show ?thesis using False by (simp add: redact_step_def [of "txt" s] close_open_def)
  qed
qed

text \<open>The redaction with its cursor and its open interval hides exactly the covered characters.\<close>

lemma redact_masks:
  assumes "spans_ok txt spans"
  shows "redact txt spans = masked (covered spans) 0 False txt"
proof (cases "sort_key sp_start spans")
  case Nil
  then have "spans = []" by (metis set_empty set_sort)
  then have "masked (covered spans) 0 False txt = txt" by (intro masked_rest) (simp add: covered_def)
  then show ?thesis using \<open>spans = []\<close> by (simp add: redact_def close_open_def)
next
  case (Cons s ss)
  have set: "set spans = set (s # ss)" using Cons by (metis set_sort)
  have sorted: "sorted (map sp_start (s # ss))" using Cons by (metis sorted_sort_key)
  have ok: "spans_ok txt (s # ss)" using assms set by (auto simp: spans_ok_def)
  have "finished txt (fold (redact_step txt) ss \<lparr>rd_out = [], rd_cursor = 0, rd_open = Some (sp_start s, sp_end s)\<rparr>)
      = [] @ masked (covered spans) 0 False (drop 0 txt)"
    by (rule redact_rest) (use sorted ok in \<open>auto simp: spans_ok_def covered_def set\<close>)
  then show ?thesis by (simp add: redact_def Cons redact_step_def [of "txt" s] finished_def Let_def)
qed

section \<open>Chat in the guarded minutes\<close>

fun is_message :: "out \<Rightarrow> bool" where
  "is_message (Emit s (ChatMessage r i t sentAt flag)) = True"
| "is_message _ = False"

lemma chat_messages:
  fixes e :: env and now :: millis and body :: string and rm :: room
  assumes "activeRoom w sock rid = Some (rm, i)"
  defines "g \<equiv> env_guardChat e body (now - (case activeSince rm of Some t \<Rightarrow> t | None \<Rightarrow> now) < mc_chatGuardMs (env_cfg e))"
  shows "filter is_message (sent w (chat e now sock rid body w)) =
    [Emit (pick (other i) (members rm)) (ChatMessage rid (w_uuid w) (g_text g) now (g_redacted g))]"
proof -
  let ?p = "pick (other i) (members rm)" and ?Q = "\<lambda>m. \<not> is_message m"
  define w1 where "w1 = ack sock (ChatOk (w_uuid w) now (g_redacted g))
    (emit ?p (ChatMessage rid (w_uuid w) (g_text g) now (g_redacted g)) (w\<lparr>w_uuid := w_uuid w + 1\<rparr>))"
  define w2 where "w2 = (if g_redacted g then nudge_link now sock rid w1 else w1)"
  define w3 where "w3 = (if g_contactSharing g then nudge_kind_of e now sock ?p (pick i (devices rm)) rid ContactSharing w2 else w2)"
  define w4 where "w4 = (if g_solicitation g then nudge_kind_of e now sock ?p (pick i (devices rm)) rid Solicitation w3 else w3)"
  have "only_adds w1 w2 ?Q" by (auto simp: w2_def intro: nudge_link_adds only_adds_refl)
  moreover have "only_adds w2 w3 ?Q" by (auto simp: w3_def intro: nudge_kind_adds only_adds_refl)
  moreover have "only_adds w3 w4 ?Q" by (auto simp: w4_def intro: nudge_kind_adds only_adds_refl)
  ultimately have "only_adds w1 w4 ?Q" by (blast intro: only_adds_trans)
  then obtain outs where o: "w_out w4 = w_out w1 @ outs" "\<forall>m \<in> set outs. \<not> is_message m" by (auto simp: only_adds_def)
  have "w_out w1 = w_out w @ [Emit ?p (ChatMessage rid (w_uuid w) (g_text g) now (g_redacted g)), Ack sock (ChatOk (w_uuid w) now (g_redacted g))]"
    by (simp add: w1_def emit_def ack_def)
  moreover have "chat e now sock rid body w = w4"
    using assms(1) by (simp add: chat_def Let_def w4_def w3_def w2_def w1_def g_def)
  ultimately show ?thesis using o by (simp add: sent_def filter_empty_conv)
qed

lemma found_is_covered:
  assumes "p \<in> {EMAIL_RE, URL_RE, AT_HANDLE_RE}" "j \<le> length txt" "match_from p txt j \<noteq> None"
  shows "covered (findSpans lib txt) j"
proof -
  have "consumes p" using assms(1) by auto
  from matchAll_covers [OF assms(2) this assms(3)] obtain a b where m: "(a, b) \<in> set (matchAll p txt)" "a \<le> j" "j < b" by auto
  then show ?thesis using assms(1) by (force simp: covered_def findSpans_def urlSpans_def contact_spans_def)
qed

lemma phone_is_covered:
  assumes "(a, b) \<in> set (matchAll PHONE_RE txt)" "length (filter decimal (slice txt a b)) \<in> {PHONE_MIN_DIGITS..PHONE_MAX_DIGITS}"
    "a \<le> j" "j < b"
  shows "covered (findSpans lib txt) j"
  using assms by (force simp: covered_def findSpans_def phoneSpans_def contact_spans_def)


section \<open>Witness\<close>

definition few_lists :: guard_lists where
  "few_lists =
     \<lparr>gl_always = [''telegram''], gl_strong = [''insta''], gl_weak = [''ig''], gl_connectors = [''is''], gl_notHandles = [''app''],
      gl_socialHosts = [''t.me''], gl_contact = [''text me''], gl_solicitation = [], gl_slurs = [], gl_wordOnly = []\<rparr>"

definition few_guard :: guard_lib where
  "few_guard = \<lparr>gd_lists = few_lists, gd_nfkc = (\<lambda>s. s), gd_hash32 = length\<rparr>"

definition guarded_env :: env where
  "guarded_env = sample_env\<lparr>env_guardChat := guardChat few_guard\<rparr>"

lemma guard_samples:
  "map (\<lambda>s. (sp_start s, sp_end s)) (findSpans few_guard ''my insta is ann'') = [(3, 15)]"
  "g_text (guardChat few_guard ''me: a@b.co, ok?'' True) = ''me: '' @ HIDDEN @ '', ok?''"
  "g_text (guardChat few_guard ''call 555 123-4567'' True) = ''call '' @ HIDDEN"
  "g_text (guardChat few_guard ''see www.x.y now'' True) = ''see '' @ HIDDEN @ '' now''"
  "findSpans few_guard ''ig yes'' = []"
  by code_simp+

lemma live_room:
  "map_option (\<lambda>(rm, i). (activeSince rm, pick (other i) (members rm))) (activeRoom world_live ''s1'' 0) = Some (Some 2000, ''s2'')"
  by code_simp


end
