(* ===== verification/Relay.thy ===== *)
theory Relay
  imports MatchState RateLimit
begin

text \<open>
  The feature relays of the server: the membership guard they share (\<open>backend/src/realtime/roomMembership.ts\<close>), live
  captions (\<open>backend/src/captions/CaptionRelay.ts\<close>) and the Spark icebreaker (\<open>backend/src/spark/SparkService.ts\<close>). The
  chat guard, the catalog of prompts and the random draw are arguments.
\<close>

section \<open>Membership\<close>

record active_member =
  am_room :: room
  am_index :: side
  am_partner :: socket_id

definition activeMember :: "store \<Rightarrow> socket_id \<Rightarrow> uuid \<Rightarrow> active_member option" where
  "activeMember m sock rid =
     (case getSession m sock of
        None \<Rightarrow> None
      | Some s \<Rightarrow>
          if state s \<noteq> Active \<or> roomId s \<noteq> Some rid then None
          else
            (case getRoom m rid of
               None \<Rightarrow> None
             | Some rm \<Rightarrow>
                 if room_state rm \<noteq> RActive then None
                 else
                   (case index_of (members rm) sock of
                      None \<Rightarrow> None
                    | Some i \<Rightarrow> Some \<lparr>am_room = rm, am_index = i, am_partner = pick (other i) (members rm)\<rparr>)))"

section \<open>Captions\<close>

definition CAPTIONS_MAX_PER_SEC :: rat where "CAPTIONS_MAX_PER_SEC = 10"
definition CAPTIONS_MAX_BYTES_PER_SEC :: rat where "CAPTIONS_MAX_BYTES_PER_SEC = 2048"

record caption_segment =
  cs_roomId :: uuid
  cs_id :: string
  cs_text :: string
  cs_final :: bool
  cs_lang :: string

record socket_budget =
  sb_segments :: token_bucket
  sb_bytes :: token_bucket

text \<open>\<open>Buffer.byteLength\<close> in UTF-8, of 8-bit text.\<close>

definition byteLength :: "string \<Rightarrow> nat" where
  "byteLength s = sum_list (map (\<lambda>c. if of_char c < (128::nat) then 1 else 2) s)"

record caption_relay =
  cr_budgets :: "(socket_id, socket_budget) jmap"
  cr_out :: "(socket_id \<times> caption_segment) list"
  cr_limited :: nat
  cr_redacted :: nat

definition new_caption_relay :: caption_relay where
  "new_caption_relay = \<lparr>cr_budgets = [], cr_out = [], cr_limited = 0, cr_redacted = 0\<rparr>"

definition new_budget :: "millis \<Rightarrow> socket_budget" where
  "new_budget now =
     \<lparr>sb_segments = new_bucket \<lparr>capacity = CAPTIONS_MAX_PER_SEC, refillPerSec = CAPTIONS_MAX_PER_SEC\<rparr> now,
      sb_bytes = new_bucket \<lparr>capacity = 2 * CAPTIONS_MAX_BYTES_PER_SEC, refillPerSec = CAPTIONS_MAX_BYTES_PER_SEC\<rparr> now\<rparr>"

text \<open>The bytes are taken only when the segment itself was within its budget.\<close>

definition take_budget :: "millis \<Rightarrow> string \<Rightarrow> socket_budget \<Rightarrow> socket_budget \<times> bool" where
  "take_budget now body b =
     (let (segs, ok) = take_tokens now 1 (sb_segments b) in
      if \<not> ok then (b\<lparr>sb_segments := segs\<rparr>, False)
      else
        let (bytes, ok') = take_tokens now (of_nat (byteLength body)) (sb_bytes b) in
        (b\<lparr>sb_segments := segs, sb_bytes := bytes\<rparr>, ok'))"

definition segment ::
  "(string \<Rightarrow> bool \<Rightarrow> guarded_text) \<Rightarrow> millis \<Rightarrow> store \<Rightarrow> millis \<Rightarrow> socket_id \<Rightarrow> caption_segment \<Rightarrow> caption_relay \<Rightarrow> caption_relay" where
  "segment guard chatGuardMs m now sock p r =
     (let budget = (case jget (cr_budgets r) sock of Some b \<Rightarrow> b | None \<Rightarrow> new_budget now);
          (b', ok) = take_budget now (cs_text p) budget;
          r1 = r\<lparr>cr_budgets := jset (cr_budgets r) sock b'\<rparr> in
      if \<not> ok then r1\<lparr>cr_limited := cr_limited r1 + 1\<rparr>
      else
        (case activeMember m sock (cs_roomId p) of
           None \<Rightarrow> r1
         | Some am \<Rightarrow>
             let g = guard (cs_text p) (now - (case activeSince (am_room am) of Some t \<Rightarrow> t | None \<Rightarrow> now) < chatGuardMs);
                 r2 = (if g_redacted g then r1\<lparr>cr_redacted := cr_redacted r1 + 1\<rparr> else r1) in
             r2\<lparr>cr_out := cr_out r2 @ [(am_partner am, p\<lparr>cs_text := g_text g\<rparr>)]\<rparr>))"

definition forget_captions :: "socket_id \<Rightarrow> caption_relay \<Rightarrow> caption_relay" where
  "forget_captions sock r = r\<lparr>cr_budgets := jdel (cr_budgets r) sock\<rparr>"

section \<open>Spark\<close>

definition SPARK_COOLDOWN_MS :: millis where "SPARK_COOLDOWN_MS = 10000"
definition SPARK_HISTORY :: nat where "SPARK_HISTORY = 20"
definition ROOM_IDLE_MS :: millis where "ROOM_IDLE_MS = 60 * 60000"
definition PRUNE_EVERY_MS :: millis where "PRUNE_EVERY_MS = 60000"

record spark_prompt =
  sk_id :: string
  sk_topics :: "topic list"

record room_spark =
  rs_lastAt :: millis
  rs_recent :: "string list"

datatype spark_show = SparkShow socket_id uuid string bool millis
datatype spark_ack = SparkOk string | SparkRefused error_code

text \<open>
  The entries of the map are objects that a request holds on to while it waits for the store, so they live at addresses:
  \<open>sk_rooms\<close> maps a room to the address of its entry.
\<close>

record spark =
  sk_objects :: "room_spark list"
  sk_rooms :: "(uuid, nat) jmap"
  sk_lastPrune :: millis
  sk_shown :: "spark_show list"
  sk_total :: nat

definition new_spark :: "millis \<Rightarrow> spark" where
  "new_spark now = \<lparr>sk_objects = [], sk_rooms = [], sk_lastPrune = now, sk_shown = [], sk_total = 0\<rparr>"

definition spark_prune :: "millis \<Rightarrow> spark \<Rightarrow> spark" where
  "spark_prune now s =
     (if now - sk_lastPrune s < PRUNE_EVERY_MS then s
      else s\<lparr>sk_lastPrune := now,
             sk_rooms := filter (\<lambda>p. now - rs_lastAt (sk_objects s ! snd p) < ROOM_IDLE_MS) (sk_rooms s)\<rparr>)"

text \<open>
  A request up to its wait for the sessions: a refusal, or what it goes on with (the address of the room's entry, the
  member and the time). \<open>rnd\<close> is \<open>Math.random()\<close>.
\<close>

record spark_pending =
  pd_socket :: socket_id
  pd_room :: uuid
  pd_member :: active_member
  pd_now :: millis
  pd_object :: nat

definition spark_begin :: "store \<Rightarrow> millis \<Rightarrow> socket_id \<Rightarrow> uuid \<Rightarrow> spark \<Rightarrow> spark \<times> (spark_ack + spark_pending)" where
  "spark_begin m now sock rid s =
     (case activeMember m sock rid of
        None \<Rightarrow> (s, Inl (SparkRefused not_in_room))
      | Some am \<Rightarrow>
          let s1 = spark_prune now s in
          case jget (sk_rooms s1) rid of
            Some a \<Rightarrow>
              if now - rs_lastAt (sk_objects s1 ! a) < SPARK_COOLDOWN_MS then (s1, Inl (SparkRefused rate_limited))
              else (s1, Inr \<lparr>pd_socket = sock, pd_room = rid, pd_member = am, pd_now = now, pd_object = a\<rparr>)
          | None \<Rightarrow>
              (s1\<lparr>sk_objects := sk_objects s1 @ [\<lparr>rs_lastAt = now, rs_recent = []\<rparr>]\<rparr>,
               Inr \<lparr>pd_socket = sock, pd_room = rid, pd_member = am, pd_now = now, pd_object = length (sk_objects s1)\<rparr>))"

definition shared_topics :: "store \<Rightarrow> active_member \<Rightarrow> topic list" where
  "shared_topics m am =
     (case getSessions m [fst (members (am_room am)), snd (members (am_room am))] of
        [Some a, Some b] \<Rightarrow> filter (\<lambda>t. t \<in> set (topics (profile b))) (topics (profile a))
      | _ \<Rightarrow> [])"

definition prompt_pool :: "spark_prompt list \<Rightarrow> topic list \<Rightarrow> string list \<Rightarrow> spark_prompt list" where
  "prompt_pool prompts shared recent =
     (let fresh = filter (\<lambda>p. sk_id p \<notin> set recent) prompts;
          onTopic = (if shared \<noteq> [] then filter (\<lambda>p. \<exists>t \<in> set (sk_topics p). t \<in> set shared) fresh else []) in
      if onTopic \<noteq> [] then onTopic else if fresh \<noteq> [] then fresh else prompts)"

text \<open>An empty catalog has no prompt to take: the code throws.\<close>

definition pick_prompt :: "spark_prompt list \<Rightarrow> real \<Rightarrow> topic list \<Rightarrow> string list \<Rightarrow> string option" where
  "pick_prompt prompts rnd shared recent =
     (let pool = prompt_pool prompts shared recent in
      if pool = [] then None
      else Some (sk_id (pool ! nat (min (int (length pool) - 1) \<lfloor>rnd * real (length pool)\<rfloor>))))"

definition spark_end :: "spark_prompt list \<Rightarrow> real \<Rightarrow> store \<Rightarrow> spark_pending \<Rightarrow> spark \<Rightarrow> spark \<times> spark_ack option" where
  "spark_end prompts rnd m p s =
     (let entry = sk_objects s ! pd_object p in
      case pick_prompt prompts rnd (shared_topics m (pd_member p)) (rs_recent entry) of
        None \<Rightarrow> (s, None)
      | Some k \<Rightarrow>
          let recent = rs_recent entry @ [k];
              entry' = \<lparr>rs_lastAt = pd_now p, rs_recent = drop (length recent - SPARK_HISTORY) recent\<rparr> in
          (s\<lparr>sk_objects := (sk_objects s)[pd_object p := entry'], sk_rooms := jset (sk_rooms s) (pd_room p) (pd_object p),
             sk_total := sk_total s + 1,
             sk_shown := sk_shown s @ [SparkShow (pd_socket p) (pd_room p) k True (pd_now p),
                                       SparkShow (am_partner (pd_member p)) (pd_room p) k False (pd_now p)]\<rparr>,
           Some (SparkOk k)))"

text \<open>A request that nothing else interrupts.\<close>

definition spark_request :: "spark_prompt list \<Rightarrow> real \<Rightarrow> store \<Rightarrow> millis \<Rightarrow> socket_id \<Rightarrow> uuid \<Rightarrow> spark \<Rightarrow> spark \<times> spark_ack option" where
  "spark_request prompts rnd m now sock rid s =
     (case spark_begin m now sock rid s of
        (s1, Inl a) \<Rightarrow> (s1, Some a)
      | (s1, Inr p) \<Rightarrow> spark_end prompts rnd m p s1)"

end
