(* ===== verification/RelayTheorems.thy ===== *)
theory RelayTheorems
  imports Relay CallTheorems
begin

text \<open>
  The feature relays keep to the room as chat does: their membership guard is the one of the match service, captions go
  to the partner alone and within their budgets, and Spark keeps its pace and does not repeat itself, as long as two
  requests of a room do not overlap.
\<close>

section \<open>One membership rule\<close>

text \<open>\<open>roomMembership.ts\<close> states the rule of \<open>MatchService.activeRoom\<close> a second time.\<close>

lemma activeMember_activeRoom:
  "activeMember (w_store w) sock rid =
     map_option (\<lambda>(rm, i). \<lparr>am_room = rm, am_index = i, am_partner = pick (other i) (members rm)\<rparr>) (activeRoom w sock rid)"
  by (auto simp: activeMember_def activeRoom_def session_of_def room_of_def split: option.split)

lemma activeMember_partner:
  "map_option am_partner (activeMember (w_store w) sock rid) = activePartner w sock rid"
  by (cases "activeRoom w sock rid") (auto simp: activeMember_activeRoom activePartner_def)

section \<open>Captions\<close>

lemma segment_out:
  "cr_out (segment guard ms m now sock p r) = cr_out r
   \<or> (\<exists>am redact. activeMember m sock (cs_roomId p) = Some am
        \<and> cr_out (segment guard ms m now sock p r) = cr_out r @ [(am_partner am, p\<lparr>cs_text := g_text (guard (cs_text p) redact)\<rparr>)])"
  by (auto simp: segment_def Let_def split: option.split prod.split)

text \<open>A caption reaches nobody but the partner in an active room of both.\<close>

lemma captions_reach_only_the_partner:
  assumes "reachable e (new_world f) w" "(p, c) \<in> set (drop (length (cr_out r)) (cr_out (segment guard ms (w_store w) now sock seg r)))"
  shows "together w (cs_roomId seg) sock p \<and> cs_roomId c = cs_roomId seg"
proof -
  obtain am redact where am: "activeMember (w_store w) sock (cs_roomId seg) = Some am" "p = am_partner am"
      "c = seg\<lparr>cs_text := g_text (guard (cs_text seg) redact)\<rparr>"
    using segment_out [of guard ms "w_store w" now sock seg r] assms(2) by auto
  then obtain rm i where a: "activeRoom w sock (cs_roomId seg) = Some (rm, i)" "p = pick (other i) (members rm)"
    by (auto simp: activeMember_activeRoom)
  then show ?thesis using activeRoom_together [OF reachable_winv [OF assms(1)] a(1)] am(3) by simp
qed

text \<open>What is relayed fits the byte budget: a relayed segment took its bytes.\<close>

definition budget_ok :: "socket_budget \<Rightarrow> bool" where
  "budget_ok b \<longleftrightarrow> bucket_ok (sb_segments b) \<and> bucket_ok (sb_bytes b)
     \<and> tb_spec (sb_bytes b) = \<lparr>capacity = 2 * CAPTIONS_MAX_BYTES_PER_SEC, refillPerSec = CAPTIONS_MAX_BYTES_PER_SEC\<rparr>"

lemma new_budget_ok: "budget_ok (new_budget now)"
  by (simp add: budget_ok_def new_budget_def new_bucket_def bucket_ok_def CAPTIONS_MAX_PER_SEC_def CAPTIONS_MAX_BYTES_PER_SEC_def)

lemma take_budget_ok: "budget_ok b \<Longrightarrow> budget_ok (fst (take_budget now body b))"
  using take_tokens_ok [of "sb_segments b" 1 now] take_tokens_ok [of "sb_bytes b" "of_nat (byteLength body)" now]
  by (auto simp: take_budget_def budget_ok_def Let_def split: prod.splits)

lemma segment_budgets:
  "cr_budgets (segment guard ms m now sock p r) =
     jset (cr_budgets r) sock (fst (take_budget now (cs_text p) (case jget (cr_budgets r) sock of Some b \<Rightarrow> b | None \<Rightarrow> new_budget now)))"
  by (simp add: segment_def Let_def split: option.split prod.split)

lemma segment_budgets_ok:
  "(\<And>s b. jget (cr_budgets r) s = Some b \<Longrightarrow> budget_ok b) \<Longrightarrow>
   jget (cr_budgets (segment guard ms m now sock p r)) s = Some b \<Longrightarrow> budget_ok b"
proof -
  let ?b = "case jget (cr_budgets r) sock of Some b \<Rightarrow> b | None \<Rightarrow> new_budget now"
  assume old: "\<And>s b. jget (cr_budgets r) s = Some b \<Longrightarrow> budget_ok b"
    and b: "jget (cr_budgets (segment guard ms m now sock p r)) s = Some b"
  have "budget_ok ?b" using old new_budget_ok by (cases "jget (cr_budgets r) sock") auto
  then have "budget_ok (fst (take_budget now (cs_text p) ?b))" by (rule take_budget_ok)
  then show "budget_ok b" using b old by (auto simp: segment_budgets split: if_splits)
qed

text \<open>A segment longer than the whole burst is never relayed.\<close>

lemma long_segment_dropped:
  assumes "\<And>s b. jget (cr_budgets r) s = Some b \<Longrightarrow> budget_ok b" and "2 * 2048 < byteLength (cs_text p)"
  shows "cr_out (segment guard ms m now sock p r) = cr_out r"
proof -
  have fits: "c \<le> capacity (tb_spec b)" if "snd (take_tokens now c b)" for c b
    using that by (auto simp: take_tokens_def Let_def split: if_splits)
  let ?b = "case jget (cr_budgets r) sock of Some b \<Rightarrow> b | None \<Rightarrow> new_budget now"
  have "budget_ok ?b" using assms(1) new_budget_ok by (cases "jget (cr_budgets r) sock") auto
  then have cap: "capacity (tb_spec (sb_bytes ?b)) = 4096" by (simp add: budget_ok_def CAPTIONS_MAX_BYTES_PER_SEC_def)
  have "of_nat 4096 < (of_nat (byteLength (cs_text p)) :: rat)" using assms(2) by (subst of_nat_less_iff) simp
  then have "(4096 :: rat) < of_nat (byteLength (cs_text p))" by simp
  then have "\<not> snd (take_tokens now (of_nat (byteLength (cs_text p))) (sb_bytes ?b))"
    using fits [of "of_nat (byteLength (cs_text p))" "sb_bytes ?b"] cap by linarith
  then have "\<not> snd (take_budget now (cs_text p) ?b)"
    by (simp add: take_budget_def Let_def case_prod_unfold)
  then show ?thesis by (simp add: segment_def Let_def case_prod_unfold)
qed

section \<open>Spark\<close>

text \<open>The entries of the map have objects of their own.\<close>

definition spark_ok :: "spark \<Rightarrow> bool" where
  "spark_ok s \<longleftrightarrow> (\<forall>r a. jget (sk_rooms s) r = Some a \<longrightarrow> a < length (sk_objects s)) \<and> jwf (sk_rooms s)"

definition room_entry :: "spark \<Rightarrow> uuid \<Rightarrow> room_spark option" where
  "room_entry s rid = map_option ((!) (sk_objects s)) (jget (sk_rooms s) rid)"

lemma prune_entry:
  assumes "spark_ok s"
  shows "spark_ok (spark_prune now s)" and "sk_objects (spark_prune now s) = sk_objects s"
    and "sk_shown (spark_prune now s) = sk_shown s"
    and "jget (sk_rooms (spark_prune now s)) rid = Some a \<Longrightarrow> jget (sk_rooms s) rid = Some a"
    and "jget (sk_rooms s) rid = Some a \<Longrightarrow> now - rs_lastAt (sk_objects s ! a) < ROOM_IDLE_MS \<Longrightarrow> jget (sk_rooms (spark_prune now s)) rid = Some a"
proof -
  let ?P = "\<lambda>a. now - rs_lastAt (sk_objects s ! a) < ROOM_IDLE_MS"
  have keep: "filter (\<lambda>p. ?P (snd p)) (sk_rooms s) = jkeep ?P (sk_rooms s)" by (simp add: jkeep_def)
  note J = jget_jkeep [of "sk_rooms s" ?P]
  show "spark_ok (spark_prune now s)"
    using assms J by (auto simp: spark_ok_def spark_prune_def keep split: option.splits if_splits)
  show "jget (sk_rooms (spark_prune now s)) rid = Some a \<Longrightarrow> jget (sk_rooms s) rid = Some a"
    using assms J by (auto simp: spark_ok_def spark_prune_def keep split: option.splits if_splits)
  show "jget (sk_rooms s) rid = Some a \<Longrightarrow> now - rs_lastAt (sk_objects s ! a) < ROOM_IDLE_MS \<Longrightarrow> jget (sk_rooms (spark_prune now s)) rid = Some a"
    using assms J by (auto simp: spark_ok_def spark_prune_def keep split: option.splits if_splits)
qed (simp_all add: spark_prune_def)

text \<open>
  A request within the cooldown of the room's last prompt shows nothing; one that shows a prompt picks one that the
  room's history does not hold, if the catalog has such a prompt, and starts the cooldown.
\<close>

lemma cooldown_refuses:
  assumes "spark_ok s" "room_entry s rid = Some entry" "now - rs_lastAt entry < SPARK_COOLDOWN_MS"
  shows "sk_shown (fst (spark_request prompts rnd m now sock rid s)) = sk_shown s"
proof -
  obtain a where a: "jget (sk_rooms s) rid = Some a" "entry = sk_objects s ! a" using assms(2) by (auto simp: room_entry_def)
  have "jget (sk_rooms (spark_prune now s)) rid = Some a"
    using prune_entry(5) [OF assms(1) a(1)] assms(3) a(2) by (simp add: SPARK_COOLDOWN_MS_def ROOM_IDLE_MS_def)
  moreover have "now - rs_lastAt (sk_objects (spark_prune now s) ! a) < SPARK_COOLDOWN_MS"
    using assms(3) a(2) prune_entry(2) [OF assms(1)] by simp
  ultimately show ?thesis
    using prune_entry(3) [OF assms(1)]
    by (cases "activeMember m sock rid") (simp_all add: spark_request_def spark_begin_def Let_def)
qed

lemma pool_sub: "set (prompt_pool prompts shared recent) \<subseteq> set prompts"
  by (auto simp: prompt_pool_def Let_def)

lemma pool_fresh:
  "\<exists>p \<in> set prompts. sk_id p \<notin> set recent \<Longrightarrow> q \<in> set (prompt_pool prompts shared recent) \<Longrightarrow> sk_id q \<notin> set recent"
  by (auto simp: prompt_pool_def Let_def filter_empty_conv split: if_splits)

lemma pick_in_pool:
  assumes "pick_prompt prompts rnd shared recent = Some k" "0 \<le> rnd"
  shows "\<exists>p \<in> set (prompt_pool prompts shared recent). sk_id p = k"
proof -
  let ?pool = "prompt_pool prompts shared recent"
  have ne: "?pool \<noteq> []" and k: "k = sk_id (?pool ! nat (min (int (length ?pool) - 1) \<lfloor>rnd * real (length ?pool)\<rfloor>))"
    using assms(1) by (auto simp: pick_prompt_def Let_def split: if_splits)
  have "nat (min (int (length ?pool) - 1) \<lfloor>rnd * real (length ?pool)\<rfloor>) < length ?pool" using ne by (cases ?pool) auto
  then show ?thesis using k nth_mem by blast
qed

lemma shown_prompt_is_new:
  assumes "spark_end prompts rnd m p s = (s', Some (SparkOk k))" "0 \<le> rnd"
    and "\<exists>q \<in> set prompts. sk_id q \<notin> set (rs_recent (sk_objects s ! pd_object p))"
  shows "k \<notin> set (rs_recent (sk_objects s ! pd_object p))"
proof -
  have "pick_prompt prompts rnd (shared_topics m (pd_member p)) (rs_recent (sk_objects s ! pd_object p)) = Some k"
    using assms(1) by (auto simp: spark_end_def Let_def split: option.splits)
  then show ?thesis using pick_in_pool [OF _ assms(2)] pool_fresh [OF assms(3)] by blast
qed

lemma shown_starts_cooldown:
  assumes "spark_end prompts rnd m p s = (s', Some (SparkOk k))" "pd_object p < length (sk_objects s)"
  shows "\<exists>entry. room_entry s' (pd_room p) = Some entry \<and> rs_lastAt entry = pd_now p
    \<and> length (rs_recent entry) \<le> SPARK_HISTORY \<and> last (rs_recent entry) = k"
  using assms by (auto simp: spark_end_def Let_def room_entry_def SPARK_HISTORY_def split: option.splits)

text \<open>
  The cooldown is checked before the wait for the sessions and started after it, so two requests of a room that overlap
  both go on, and both show a prompt at the same time.
\<close>

lemma overlapping_requests_both_go_on:
  assumes "activeMember m x rid = Some a" "activeMember m y rid = Some b" "jget (sk_rooms s) rid = None"
    and "now - sk_lastPrune s < PRUNE_EVERY_MS"
  shows "\<exists>s1 p s2 q. spark_begin m now x rid s = (s1, Inr p) \<and> spark_begin m now y rid s1 = (s2, Inr q)"
  using assms by (simp add: spark_begin_def spark_prune_def Let_def)

end
