(* ===== verification/SpendPoller.thy ===== *)
theory SpendPoller
  imports Flags Complex_Main
begin

text \<open>
  The cap on what the TURN relays cost (\<open>backend/src/turn/spendPoller.ts\<close>) and the broadcast of the matching status
  (\<open>backend/src/session/broadcast.ts\<close>). The analytics query, the Redis lock and the shared failure counter are code that
  is not here: their answers are arguments of a poll. Writing a flag may throw.
\<close>

section \<open>The steps\<close>

definition RELAY_STEP_DOWN_KBPS :: nat where "RELAY_STEP_DOWN_KBPS = 300"
definition SPEND_FAILSAFE_AFTER_FAILURES :: nat where "SPEND_FAILSAFE_AFTER_FAILURES = 4"
definition BYTES_PER_GB :: real where "BYTES_PER_GB = 10 ^ 9"

datatype spend_step = RelayBitrate | PrivateModeOff | TurnOff

definition STEPS :: "spend_step list" where "STEPS = [RelayBitrate, PrivateModeOff, TurnOff]"

fun step_applied :: "spend_step \<Rightarrow> flags \<Rightarrow> bool" where
  "step_applied RelayBitrate f \<longleftrightarrow> relay_video_max_kbps f \<le> RELAY_STEP_DOWN_KBPS"
| "step_applied PrivateModeOff f \<longleftrightarrow> \<not> private_mode_enabled f"
| "step_applied TurnOff f \<longleftrightarrow> \<not> turn_enabled f"

definition no_patch :: flags_patch where
  "no_patch =
     \<lparr>p_matching_enabled = None, p_new_sessions_enabled = None, p_max_waiting = None, p_turn_enabled = None,
      p_private_mode_enabled = None, p_video_max_kbps = None, p_relay_video_max_kbps = None, p_banner_message = None,
      p_blocked_countries = None, p_staffed_hours = None, p_default_mode = None, p_online_count_threshold = None,
      p_premium_filters_enabled = None, p_gender_filter_coins_per_day = None, p_coin_packs = None\<rparr>"

fun step_patch :: "spend_step \<Rightarrow> flags_patch" where
  "step_patch RelayBitrate = no_patch\<lparr>p_relay_video_max_kbps := Some RELAY_STEP_DOWN_KBPS\<rparr>"
| "step_patch PrivateModeOff = no_patch\<lparr>p_private_mode_enabled := Some False\<rparr>"
| "step_patch TurnOff = no_patch\<lparr>p_turn_enabled := Some False\<rparr>"

fun is_failsafe :: "spend_step \<Rightarrow> bool" where
  "is_failsafe RelayBitrate = True"
| "is_failsafe PrivateModeOff = True"
| "is_failsafe TurnOff = False"

section \<open>A poll\<close>

record spend_poller =
  po_flags :: flags
  po_failures :: nat
  po_failsafeEngaged :: bool
  po_stepsTotal :: nat
  po_errors :: nat
  po_failsafes :: nat

definition new_poller :: "flags \<Rightarrow> spend_poller" where
  "new_poller f = \<lparr>po_flags = f, po_failures = 0, po_failsafeEngaged = False, po_stepsTotal = 0, po_errors = 0, po_failsafes = 0\<rparr>"

text \<open>
  What the outside answers: whether this instance took the lock (\<open>None\<close> when Redis throws), the bytes of the day (\<open>None\<close> when the query throws), for
  each write of the flags whether it succeeds, and the length of the shared streak, if there is one.
\<close>

record spend_answers =
  an_lock :: "bool option"
  an_bytes :: "real option"
  an_write :: "spend_step \<Rightarrow> bool"
  an_shared :: "nat option"

definition take_step :: "spend_step \<Rightarrow> spend_poller \<Rightarrow> spend_poller" where
  "take_step st s = s\<lparr>po_flags := overlay (po_flags s) (step_patch st), po_stepsTotal := po_stepsTotal s + 1\<rparr>"

text \<open>The loop over the thresholds: the state, the steps taken, and whether a write threw.\<close>

fun step_down :: "(spend_step \<Rightarrow> bool) \<Rightarrow> real \<Rightarrow> (spend_step \<times> real) list \<Rightarrow> spend_poller \<Rightarrow> spend_poller \<times> spend_step list \<times> bool" where
  "step_down wr gb [] s = (s, [], False)"
| "step_down wr gb ((st, threshold) # sts) s =
     (if gb < threshold then (s, [], False)
      else if step_applied st (po_flags s) then step_down wr gb sts s
      else if \<not> wr st then (s, [], True)
      else let (s', taken', threw) = step_down wr gb sts (take_step st s) in (s', st # taken', threw))"

fun failsafe_steps :: "(spend_step \<Rightarrow> bool) \<Rightarrow> spend_step list \<Rightarrow> spend_poller \<Rightarrow> spend_poller \<times> spend_step list" where
  "failsafe_steps wr [] s = (s, [])"
| "failsafe_steps wr (st # sts) s =
     (if \<not> is_failsafe st \<or> step_applied st (po_flags s) then failsafe_steps wr sts s
      else if \<not> wr st then (s, [])
      else let (s', taken') = failsafe_steps wr sts (take_step st s) in (s', st # taken'))"

definition recovered :: "spend_poller \<Rightarrow> spend_poller" where
  "recovered s = s\<lparr>po_failures := 0, po_failsafeEngaged := False\<rparr>"

definition failureStreak :: "nat option \<Rightarrow> spend_poller \<Rightarrow> spend_poller \<times> nat" where
  "failureStreak shared s =
     (let s1 = s\<lparr>po_failures := po_failures s + 1\<rparr> in
      (s1, case shared of Some n \<Rightarrow> max n (po_failures s1) | None \<Rightarrow> po_failures s1))"

definition failsafe :: "(spend_step \<Rightarrow> bool) \<Rightarrow> spend_poller \<Rightarrow> spend_poller \<times> spend_step list" where
  "failsafe wr s =
     (let s1 = (if po_failsafeEngaged s then s else s\<lparr>po_failsafeEngaged := True, po_failsafes := po_failsafes s + 1\<rparr>) in
      failsafe_steps wr STEPS s1)"

datatype poll_result = PollSkipped | PollError "spend_step list option" | PollOk real "spend_step list"

definition poll_failed :: "spend_answers \<Rightarrow> spend_poller \<Rightarrow> spend_poller \<times> poll_result" where
  "poll_failed a s =
     (let (s1, streak) = failureStreak (an_shared a) (s\<lparr>po_errors := po_errors s + 1\<rparr>) in
      if streak < SPEND_FAILSAFE_AFTER_FAILURES then (s1, PollError None)
      else let (s2, taken') = failsafe (an_write a) s1 in (s2, PollError (Some taken')))"

definition runOnce :: "real \<times> real \<times> real \<Rightarrow> spend_answers \<Rightarrow> spend_poller \<Rightarrow> spend_poller \<times> poll_result" where
  "runOnce thresholdsGb a s =
     (case an_lock a of
        None \<Rightarrow> poll_failed a s
      | Some False \<Rightarrow> (s, PollSkipped)
      | Some True \<Rightarrow>
       (case an_bytes a of
          None \<Rightarrow> poll_failed a s
        | Some bytes \<Rightarrow>
            let gb = bytes / BYTES_PER_GB; (t1, t2, t3) = thresholdsGb;
                (s1, taken', threw) = step_down (an_write a) gb (zip STEPS [t1, t2, t3]) (recovered s) in
            if threw then poll_failed a s1 else (s1, PollOk gb taken')))"

section \<open>The egress of a day\<close>

text \<open>The answer of the analytics: an error, no account, or the groups of the account with their bytes.\<close>

datatype egress_answer = EgressErrors "string list" | EgressNoAccount | EgressGroups "real option list"

fun sum_groups :: "real option list \<Rightarrow> real option" where
  "sum_groups [] = Some 0"
| "sum_groups (None # gs) = None"
| "sum_groups (Some n # gs) = map_option ((+) n) (sum_groups gs)"

fun parseEgressResponse :: "egress_answer \<Rightarrow> real option" where
  "parseEgressResponse (EgressErrors es) = None"
| "parseEgressResponse EgressNoAccount = None"
| "parseEgressResponse (EgressGroups gs) = sum_groups gs"

text \<open>The window asked for: the UTC day so far.\<close>

definition egress_window :: "int \<Rightarrow> int \<times> int" where
  "egress_window now = (now - now mod (24 * 60 * 60 * 1000), now)"

section \<open>The steps only go down\<close>

definition cheaper :: "flags \<Rightarrow> flags \<Rightarrow> bool" where
  "cheaper g f \<longleftrightarrow>
     relay_video_max_kbps g \<le> relay_video_max_kbps f \<and> (private_mode_enabled g \<longrightarrow> private_mode_enabled f)
   \<and> (turn_enabled g \<longrightarrow> turn_enabled f)
   \<and> g = f\<lparr>relay_video_max_kbps := relay_video_max_kbps g, private_mode_enabled := private_mode_enabled g,
           turn_enabled := turn_enabled g\<rparr>"

lemma cheaper_refl [simp]: "cheaper f f"
  by (simp add: cheaper_def)

lemma cheaper_trans: "cheaper h g \<Longrightarrow> cheaper g f \<Longrightarrow> cheaper h f"
  unfolding cheaper_def by (cases f; cases g; cases h) auto

lemma take_step_flags:
  assumes "\<not> step_applied st (po_flags s)"
  shows "cheaper (po_flags (take_step st s)) (po_flags s)" "step_applied st (po_flags (take_step st s))"
    "step_applied st' (po_flags s) \<Longrightarrow> step_applied st' (po_flags (take_step st s))"
    "st \<noteq> TurnOff \<Longrightarrow> turn_enabled (po_flags (take_step st s)) = turn_enabled (po_flags s)"
  using assms
  by (cases st; cases st'; simp add: take_step_def overlay_def no_patch_def cheaper_def or_else_def)+

lemma step_down_facts:
  "step_down wr gb sts s = (s', taken, threw) \<Longrightarrow>
     cheaper (po_flags s') (po_flags s)
   \<and> set taken \<subseteq> {st. \<exists>t. (st, t) \<in> set sts \<and> t \<le> gb}
   \<and> (\<forall>st. step_applied st (po_flags s) \<longrightarrow> step_applied st (po_flags s'))
   \<and> (\<forall>st \<in> set taken. step_applied st (po_flags s') \<and> \<not> step_applied st (po_flags s))
   \<and> (\<not> threw \<longrightarrow> (\<forall>st t. (st, t) \<in> set (takeWhile (\<lambda>p. \<not> gb < snd p) sts) \<longrightarrow> step_applied st (po_flags s')))
   \<and> (TurnOff \<notin> set taken \<longrightarrow> turn_enabled (po_flags s') = turn_enabled (po_flags s))"
proof (induction wr gb sts s arbitrary: s' taken threw rule: step_down.induct)
  case (1 wr gb s)
  then show ?case by simp
next
  case (2 wr gb st threshold sts s)
  consider (below) "gb < threshold" | (already) "\<not> gb < threshold" "step_applied st (po_flags s)"
    | (throws) "\<not> gb < threshold" "\<not> step_applied st (po_flags s)" "\<not> wr st"
    | (takes) "\<not> gb < threshold" "\<not> step_applied st (po_flags s)" "wr st" by blast
  then show ?case
  proof cases
    case already
    then have "step_down wr gb sts s = (s', taken, threw)" using "2.prems" by simp
    from "2.IH"(1) [OF already this] already show ?thesis by auto
  next
    case takes
    then obtain t' where t: "step_down wr gb sts (take_step st s) = (s', t', threw)" "taken = st # t'"
      using "2.prems" by (auto simp: Let_def split: prod.splits)
    note ih = "2.IH"(2) [OF takes(1,2) _ t(1)] and ts = take_step_flags [OF takes(2)]
    have no: "\<not> \<not> wr st" using takes by simp
    note F = ih [OF no]
    have "\<not> step_applied x (po_flags s)" if "x \<in> set t'" for x using F that ts(3) by blast
    then show ?thesis using F ts takes t(2) cheaper_trans by auto
  next
    case below
    with "2.prems" show ?thesis by simp
  next
    case throws
    with "2.prems" show ?thesis by simp
  qed
qed

text \<open>
  A poll never makes a flag dearer; it takes a step only at its threshold; and when it succeeds, every step whose
  threshold the day has reached is in force, so that polling again changes nothing.
\<close>

lemma poll_steps_down:
  assumes "runOnce (t1, t2, t3) a s = (s', PollOk gb taken)" "t1 \<le> t2" "t2 \<le> t3"
  shows "cheaper (po_flags s') (po_flags s)"
    "t1 \<le> gb \<Longrightarrow> step_applied RelayBitrate (po_flags s')"
    "t2 \<le> gb \<Longrightarrow> step_applied PrivateModeOff (po_flags s')"
    "t3 \<le> gb \<Longrightarrow> step_applied TurnOff (po_flags s')"
    "gb < t1 \<Longrightarrow> po_flags s' = po_flags s"
    "po_failures s' = 0"
proof -
  obtain bytes where gb: "gb = bytes / BYTES_PER_GB"
    and sd: "step_down (an_write a) gb (zip STEPS [t1, t2, t3]) (recovered s) = (s', taken, False)"
    using assms(1) by (auto simp: runOnce_def poll_failed_def Let_def split: if_splits option.splits bool.splits prod.splits)
  note F = step_down_facts [OF sd]
  have rf: "po_flags (recovered s) = po_flags s" by (simp add: recovered_def)
  show "cheaper (po_flags s') (po_flags s)" using F rf by simp
  show "t1 \<le> gb \<Longrightarrow> step_applied RelayBitrate (po_flags s')" using F by (simp add: STEPS_def)
  show "t2 \<le> gb \<Longrightarrow> step_applied PrivateModeOff (po_flags s')" using F assms(2) by (simp add: STEPS_def)
  show "t3 \<le> gb \<Longrightarrow> step_applied TurnOff (po_flags s')" using F assms(2,3) by (simp add: STEPS_def)
  show "gb < t1 \<Longrightarrow> po_flags s' = po_flags s" using sd rf by (simp add: STEPS_def)
  have "po_failures s' = po_failures s0" if "step_down w g sts s0 = (s', tk, th)" for w g sts s0 tk th
    using that by (induction w g sts s0 arbitrary: tk th rule: step_down.induct)
      (auto simp: take_step_def Let_def split: if_splits prod.splits)
  from this [OF sd] show "po_failures s' = 0" by (simp add: recovered_def)
qed

text \<open>Not knowing the spend never turns the relays off.\<close>

lemma failsafe_keeps_turn:
  "failsafe_steps wr sts s = (s', taken) \<Longrightarrow>
   cheaper (po_flags s') (po_flags s) \<and> turn_enabled (po_flags s') = turn_enabled (po_flags s)"
proof (induction wr sts s arbitrary: s' taken rule: failsafe_steps.induct)
  case (2 wr st sts s)
  show ?case
  proof (cases "\<not> is_failsafe st \<or> step_applied st (po_flags s) \<or> \<not> wr st")
    case True
    then show ?thesis using 2 by (auto split: if_splits)
  next
    case False
    then obtain t' where t: "failsafe_steps wr sts (take_step st s) = (s', t')"
      using "2.prems" by (auto simp: Let_def split: prod.splits)
    have "st \<noteq> TurnOff" using False by auto
    then show ?thesis
      using "2.IH"(2) [OF _ _ t] False take_step_flags [of st s] cheaper_trans by auto
  qed
qed simp

lemma unknown_spend_keeps_turn:
  assumes "an_bytes a = None"
  shows "turn_enabled (po_flags (fst (runOnce ts a s))) = turn_enabled (po_flags s)"
  using assms failsafe_keeps_turn
  by (fastforce simp: runOnce_def poll_failed_def failureStreak_def failsafe_def Let_def split: prod.splits option.splits bool.splits if_splits)

text \<open>Polls that never learn the spend: after enough of them in a row the failsafe steps are in force.\<close>

fun poll_all :: "real \<times> real \<times> real \<Rightarrow> spend_answers list \<Rightarrow> spend_poller \<Rightarrow> spend_poller" where
  "poll_all ts [] s = s"
| "poll_all ts (a # as) s = poll_all ts as (fst (runOnce ts a s))"

definition unknown :: "spend_answers \<Rightarrow> bool" where
  "unknown a \<longleftrightarrow> an_lock a = None \<or> an_lock a = Some True \<and> an_bytes a = None"

lemma unknown_fails: "unknown a \<Longrightarrow> runOnce ts a s = poll_failed a s"
  by (auto simp: unknown_def runOnce_def)

lemma poll_all_append [simp]: "poll_all ts (as @ bs) s = poll_all ts bs (poll_all ts as s)"
  by (induction as arbitrary: s) auto

lemma failsafe_steps_failures [simp]: "po_failures (fst (failsafe_steps wr sts s)) = po_failures s"
  by (induction wr sts s rule: failsafe_steps.induct) (auto simp: take_step_def split: prod.splits)

lemma poll_failed_counts: "po_failures (fst (poll_failed a s)) = po_failures s + 1"
proof -
  have "po_failures (fst (failsafe wr s)) = po_failures s" for wr s
    unfolding failsafe_def Let_def by simp
  then have "po_failures s' = po_failures s" if "failsafe wr s = (s', tk)" for wr s s' tk
    using that by (metis fst_conv)
  then show ?thesis by (auto simp: poll_failed_def failureStreak_def Let_def split: prod.splits)
qed

lemma unknown_streak: "\<forall>a \<in> set as. unknown a \<Longrightarrow> po_failures (poll_all ts as s) = po_failures s + length as"
  by (induction as arbitrary: s) (auto simp: unknown_fails poll_failed_counts)

lemma take_step_mono: "step_applied st' (po_flags s) \<Longrightarrow> step_applied st' (po_flags (take_step st s))"
  by (cases st; cases st'; simp add: take_step_def overlay_def no_patch_def or_else_def RELAY_STEP_DOWN_KBPS_def)

lemma take_step_applies: "step_applied st (po_flags (take_step st s))"
  by (cases st; simp add: take_step_def overlay_def no_patch_def or_else_def)

lemma failsafe_steps_mono: "step_applied st' (po_flags s) \<Longrightarrow> step_applied st' (po_flags (fst (failsafe_steps wr sts s)))"
  by (induction wr sts s rule: failsafe_steps.induct) (auto simp: take_step_mono split: prod.splits)

lemma failsafe_steps_apply:
  "\<forall>st. wr st \<Longrightarrow> st' \<in> set sts \<Longrightarrow> is_failsafe st' \<Longrightarrow> step_applied st' (po_flags (fst (failsafe_steps wr sts s)))"
proof (induction wr sts s rule: failsafe_steps.induct)
  case (2 wr st sts s)
  show ?case
  proof (cases "\<not> is_failsafe st \<or> step_applied st (po_flags s)")
    case True
    then show ?thesis using 2 failsafe_steps_mono by auto
  next
    case False
    then have e: "fst (failsafe_steps wr (st # sts) s) = fst (failsafe_steps wr sts (take_step st s))"
      using "2.prems"(1) by (simp split: prod.splits)
    show ?thesis
    proof (cases "st' = st")
      case True
      then show ?thesis using e failsafe_steps_mono take_step_applies by simp
    next
      case other: False
      then have "st' \<in> set sts" using "2.prems"(2) by simp
      moreover have "\<not> \<not> wr st" using "2.prems"(1) by simp
      ultimately show ?thesis unfolding e using "2.IH"(2) [OF False _ "2.prems"(1) _ "2.prems"(3)] by blast
    qed
  qed
qed simp

lemma unknown_keeps_turn_all:
  "\<forall>a \<in> set as. unknown a \<Longrightarrow> turn_enabled (po_flags (poll_all ts as s)) = turn_enabled (po_flags s)"
proof (induction as arbitrary: s)
  case (Cons a as)
  have "turn_enabled (po_flags (fst (poll_failed a s))) = turn_enabled (po_flags s)"
    using failsafe_keeps_turn
    by (fastforce simp: poll_failed_def failureStreak_def failsafe_def Let_def split: prod.splits if_splits)
  then show ?case using Cons by (simp add: unknown_fails)
qed simp

lemma unknown_spend_fails_closed:
  assumes "\<forall>b \<in> set (as @ [a]). unknown b" "SPEND_FAILSAFE_AFTER_FAILURES \<le> length (as @ [a])" "\<forall>st. an_write a st"
    "s' = poll_all ts (as @ [a]) s"
  shows "step_applied RelayBitrate (po_flags s')" "step_applied PrivateModeOff (po_flags s')"
    "turn_enabled (po_flags s') = turn_enabled (po_flags s)"
proof -
  let ?s = "poll_all ts as s"
  have n: "\<not> Suc (po_failures ?s) < SPEND_FAILSAFE_AFTER_FAILURES" using unknown_streak [of as ts s] assms(1,2) by simp
  have s': "s' = fst (poll_failed a ?s)" using assms(1,4) by (simp add: unknown_fails)
  define s1 where "s1 = fst (failureStreak (an_shared a) (?s\<lparr>po_errors := po_errors ?s + 1\<rparr>))"
  have "\<exists>s2. s' = fst (failsafe_steps (an_write a) STEPS s2)"
  proof -
    have "\<not> snd (failureStreak (an_shared a) (?s\<lparr>po_errors := po_errors ?s + 1\<rparr>)) < SPEND_FAILSAFE_AFTER_FAILURES"
      using n by (auto simp: failureStreak_def Let_def split: option.splits)
    then show ?thesis
      unfolding s' poll_failed_def failsafe_def by (auto simp: Let_def split: prod.splits) (metis fst_conv)+
  qed
  then obtain s2 where s2: "s' = fst (failsafe_steps (an_write a) STEPS s2)" ..
  show "step_applied RelayBitrate (po_flags s')" "step_applied PrivateModeOff (po_flags s')"
    unfolding s2 by (rule failsafe_steps_apply; simp add: assms(3) STEPS_def)+
  show "turn_enabled (po_flags s') = turn_enabled (po_flags s)"
    unfolding assms(4) by (rule unknown_keeps_turn_all [OF assms(1)])
qed

section \<open>The broadcast of the status\<close>

datatype broadcast = StatusSent matching_status | BannerSent "string option"

record broadcaster =
  bc_status :: matching_status
  bc_banner :: "string option"
  bc_sent :: "broadcast list"

definition banner_of :: "flags \<Rightarrow> string option" where
  "banner_of f = (if banner_message f = [] then None else Some (banner_message f))"

definition start_broadcast :: "time_zones \<Rightarrow> millis \<Rightarrow> flags_reader \<Rightarrow> flags_reader \<times> broadcaster" where
  "start_broadcast tz now r =
     (let (r1, st) = status tz now r in (r1, \<lparr>bc_status = st, bc_banner = banner_of (current r1), bc_sent = []\<rparr>))"

definition check_broadcast :: "time_zones \<Rightarrow> millis \<Rightarrow> flags_reader \<Rightarrow> broadcaster \<Rightarrow> flags_reader \<times> broadcaster" where
  "check_broadcast tz now r b =
     (let (r1, st) = status tz now r;
          b1 = (if st = bc_status b then b else b\<lparr>bc_status := st, bc_sent := bc_sent b @ [StatusSent st]\<rparr>);
          banner = banner_of (current r1) in
      (r1, if banner = bc_banner b1 then b1 else b1\<lparr>bc_banner := banner, bc_sent := bc_sent b1 @ [BannerSent banner]\<rparr>))"

text \<open>After a check everybody has been told the status and the banner of that moment, and nothing is said twice.\<close>

lemma broadcast_is_current:
  assumes "minute_wise tz" "memo_ok tz r" "check_broadcast tz now r b = (r', b')"
  shows "bc_status b' = matchingStatus tz (current r) now \<and> bc_banner b' = banner_of (current r)"
proof -
  have "snd (status tz now r) = matchingStatus tz (flag_value r) now" using status_correct [OF assms(1,2)] .
  moreover have "flag_value (fst (status tz now r)) = flag_value r" by simp
  ultimately show ?thesis
    using assms(3) by (cases "status tz now r") (auto simp: check_broadcast_def Let_def current_def)
qed

lemma checked_reader:
  assumes "memo_ok tz r" "check_broadcast tz now r b = (r', b')"
  shows "memo_ok tz r'" "current r' = current r"
proof -
  have "r' = fst (status tz now r)"
    using assms(2) by (cases "status tz now r") (auto simp: check_broadcast_def Let_def)
  then show "memo_ok tz r'" "current r' = current r"
    using status_memo_ok [OF assms(1), of now] status_keeps_flags [of tz now r] by (simp_all add: current_def)
qed

lemma unchanged_is_silent:
  assumes "minute_wise tz" "memo_ok tz r" "check_broadcast tz now r b = (r', b')"
  shows "bc_sent (snd (check_broadcast tz now r' b')) = bc_sent b'"
proof -
  note r' = checked_reader [OF assms(2,3)] and now_b = broadcast_is_current [OF assms]
  obtain r2 st where s2: "status tz now r' = (r2, st)" by (cases "status tz now r'")
  have "st = matchingStatus tz (current r) now" "current r2 = current r"
    using status_correct [OF assms(1) r'(1), of now] status_keeps_flags [of tz now r'] r'(2) s2
    by (simp_all add: current_def)
  then show ?thesis using now_b s2 by (simp add: check_broadcast_def)
qed

end
