(* ===== verification/ClientCards.thy ===== *)
theory ClientCards
  imports RelayTheorems
begin

text \<open>
  Two small views of a call in the browser: the Spark card with the mirrored cooldown
  (\<open>new-frontend/src/spark/sparkReducer.ts\<close>) and the partner's caption lines
  (\<open>new-frontend/src/captions/captionBuffer.ts\<close>). Both are reducers: a state and an action give the next state.
\<close>

section \<open>The Spark card\<close>

definition SPARK_cooldownMs :: millis where "SPARK_cooldownMs = 10000"
definition SPARK_cardMs :: millis where "SPARK_cardMs = 12000"

record spark_card =
  sc_roomId :: uuid
  sc_promptId :: string
  sc_mine :: bool
  sc_shownAt :: millis

record spark_state =
  ss_card :: "spark_card option"
  ss_cooldownUntil :: millis
  ss_pending :: bool

datatype spark_action =
  SparkAsk millis
| SparkCome uuid string bool millis
| SparkAnswer bool "error_code option" millis
| SparkExpire millis
| SparkDismiss
| SparkReset

definition initialSparkState :: spark_state where
  "initialSparkState = \<lparr>ss_card = None, ss_cooldownUntil = 0, ss_pending = False\<rparr>"

definition canRequest :: "spark_state \<Rightarrow> millis \<Rightarrow> bool" where
  "canRequest s now \<longleftrightarrow> \<not> ss_pending s \<and> ss_cooldownUntil s \<le> now"

fun sparkReducer :: "spark_state \<Rightarrow> spark_action \<Rightarrow> spark_state" where
  "sparkReducer s (SparkAsk now) = (if canRequest s now then s\<lparr>ss_pending := True\<rparr> else s)"
| "sparkReducer s (SparkCome rid k mine now) =
     \<lparr>ss_card = Some \<lparr>sc_roomId = rid, sc_promptId = k, sc_mine = mine, sc_shownAt = now\<rparr>,
      ss_cooldownUntil = now + SPARK_cooldownMs, ss_pending = False\<rparr>"
| "sparkReducer s (SparkAnswer ok err now) =
     (if ok then (if ss_pending s then s\<lparr>ss_pending := False\<rparr> else s)
      else s\<lparr>ss_pending := False,
             ss_cooldownUntil := (if err = Some rate_limited \<and> ss_cooldownUntil s \<le> now
                                  then now + SPARK_cooldownMs else ss_cooldownUntil s)\<rparr>)"
| "sparkReducer s (SparkExpire now) =
     (case ss_card s of
        Some c \<Rightarrow> if SPARK_cardMs \<le> now - sc_shownAt c then s\<lparr>ss_card := None\<rparr> else s
      | None \<Rightarrow> s)"
| "sparkReducer s SparkDismiss = (if ss_card s \<noteq> None then s\<lparr>ss_card := None\<rparr> else s)"
| "sparkReducer s SparkReset = initialSparkState"

definition spark_view :: "spark_action list \<Rightarrow> spark_state" where
  "spark_view as = foldl sparkReducer initialSparkState as"

text \<open>The card on screen is the one of the latest prompt, and its cooldown is still counted from it.\<close>

definition card_ok :: "spark_state \<Rightarrow> bool" where
  "card_ok s \<longleftrightarrow> (\<forall>c. ss_card s = Some c \<longrightarrow> sc_shownAt c + SPARK_cooldownMs \<le> ss_cooldownUntil s)"

lemma sparkReducer_card_ok: "card_ok s \<Longrightarrow> card_ok (sparkReducer s a)"
  by (cases a) (auto simp: card_ok_def initialSparkState_def SPARK_cooldownMs_def split: option.splits)

lemma spark_view_snoc: "spark_view (as @ [a]) = sparkReducer (spark_view as) a"
  by (simp add: spark_view_def)

lemma spark_view_card_ok: "card_ok (spark_view as)"
proof (induction as rule: rev_induct)
  case Nil
  then show ?case by (simp add: spark_view_def card_ok_def initialSparkState_def)
next
  case (snoc a as)
  then show ?case by (simp add: spark_view_snoc sparkReducer_card_ok)
qed

lemma no_second_prompt_in_the_cooldown:
  "ss_card (spark_view as) = Some c \<Longrightarrow> now < sc_shownAt c + SPARK_cooldownMs \<Longrightarrow> \<not> canRequest (spark_view as) now"
  using spark_view_card_ok [of as] by (auto simp: card_ok_def canRequest_def)

lemma one_request_in_flight: "ss_pending s \<Longrightarrow> sparkReducer s (SparkAsk now) = s"
  by (simp add: canRequest_def)

lemma card_leaves:
  "ss_card (sparkReducer s (SparkExpire now)) = Some c \<Longrightarrow> now < sc_shownAt c + SPARK_cardMs"
  by (auto split: option.splits if_splits)

text \<open>
  The two clocks together: whoever has seen a prompt and waits for the button to come back is not refused by the server
  for asking too early, as long as the browser heard of the prompt no earlier than the server sent it, and no later
  prompt has gone out.
\<close>

lemma cooldown_mirrors_server:
  assumes "canRequest s now" "ss_cooldownUntil s = u + SPARK_cooldownMs" "v \<le> u"
    "spark_ok k" "room_entry k rid = Some entry" "rs_lastAt entry = v" "activeMember m sock rid = Some am"
  shows "\<exists>p. snd (spark_begin m now sock rid k) = Inr p"
proof -
  have late: "\<not> now - v < SPARK_COOLDOWN_MS"
    using assms(1-3) by (simp add: canRequest_def SPARK_cooldownMs_def SPARK_COOLDOWN_MS_def)
  obtain a where a: "jget (sk_rooms k) rid = Some a" "entry = sk_objects k ! a" using assms(5) by (auto simp: room_entry_def)
  note P = prune_entry [OF assms(4)]
  have "jget (sk_rooms (spark_prune now k)) rid \<in> {None, Some a}"
    using P(4) [of now rid] a(1) by (cases "jget (sk_rooms (spark_prune now k)) rid") auto
  then show ?thesis using late P(2) [of now] a(2) assms(6,7) by (auto simp: spark_begin_def Let_def)
qed

section \<open>The caption lines\<close>

definition LINES_SHOWN :: nat where "LINES_SHOWN = 2"
definition FADE_MS :: millis where "FADE_MS = 4000"

record caption_line =
  ln_id :: string
  ln_text :: string
  ln_final :: bool
  ln_lang :: string
  ln_translated :: "string option"
  ln_at :: millis

datatype caption_action =
  CaptionSegment string string bool string millis
| CaptionTranslated string string
| CaptionPrune millis
| CaptionClear

definition line_index :: "string \<Rightarrow> caption_line list \<Rightarrow> nat option" where
  "line_index k ls = find (\<lambda>i. ln_id (ls ! i) = k) [0..<length ls]"

fun captionBufferReducer :: "caption_line list \<Rightarrow> caption_action \<Rightarrow> caption_line list" where
  "captionBufferReducer ls (CaptionSegment k body fin lang now) =
     (case line_index k ls of
        Some i \<Rightarrow>
          let line = ls ! i in
          ls[i := line\<lparr>ln_text := body, ln_final := fin, ln_lang := lang,
                       ln_translated := (if body = ln_text line then ln_translated line else None), ln_at := now\<rparr>]
      | None \<Rightarrow>
          let lines = ls @ [\<lparr>ln_id = k, ln_text = body, ln_final = fin, ln_lang = lang, ln_translated = None, ln_at = now\<rparr>] in
          drop (length lines - LINES_SHOWN) lines)"
| "captionBufferReducer ls (CaptionTranslated k body) =
     (case line_index k ls of
        None \<Rightarrow> ls
      | Some i \<Rightarrow> ls[i := (ls ! i)\<lparr>ln_translated := Some body\<rparr>])"
| "captionBufferReducer ls (CaptionPrune now) = filter (\<lambda>l. now - ln_at l < FADE_MS) ls"
| "captionBufferReducer ls CaptionClear = []"

definition captions_view :: "caption_action list \<Rightarrow> caption_line list" where
  "captions_view as = foldl captionBufferReducer [] as"

lemma line_index_Some: "line_index k ls = Some i \<Longrightarrow> i < length ls \<and> ln_id (ls ! i) = k"
  unfolding line_index_def find_Some_iff by auto

lemma line_index_None: "line_index k ls = None \<longleftrightarrow> k \<notin> ln_id ` set ls"
  unfolding line_index_def find_None_iff by (force simp: in_set_conv_nth image_iff)

definition lines_ok :: "caption_line list \<Rightarrow> bool" where
  "lines_ok ls \<longleftrightarrow> length ls \<le> LINES_SHOWN \<and> distinct (map ln_id ls)"

lemma map_id_update: "i < length ls \<Longrightarrow> ln_id l = ln_id (ls ! i) \<Longrightarrow> map ln_id (ls[i := l]) = map ln_id ls"
  by (simp add: map_update) (metis list_update_id length_map nth_map)

lemma captionBufferReducer_ok: "lines_ok ls \<Longrightarrow> lines_ok (captionBufferReducer ls a)"
proof (cases a)
  case (CaptionSegment k body fin lang now)
  assume ok: "lines_ok ls"
  show ?thesis
  proof (cases "line_index k ls")
    case None
    then have "distinct (map ln_id (ls @ [\<lparr>ln_id = k, ln_text = body, ln_final = fin, ln_lang = lang, ln_translated = None, ln_at = now\<rparr>]))"
      using ok by (simp add: lines_ok_def line_index_None)
    then show ?thesis
      using None CaptionSegment by (simp add: lines_ok_def drop_map [symmetric] distinct_drop del: drop_append map_append)
  next
    case (Some i)
    then show ?thesis using ok line_index_Some [OF Some] CaptionSegment by (simp add: lines_ok_def map_id_update Let_def)
  qed
next
  case (CaptionTranslated k body)
  assume "lines_ok ls"
  then show ?thesis
    using CaptionTranslated line_index_Some [of k ls] by (auto simp: lines_ok_def map_id_update split: option.splits)
next
  case (CaptionPrune now)
  assume "lines_ok ls"
  then show ?thesis
    using CaptionPrune le_trans [OF length_filter_le] by (auto simp: lines_ok_def distinct_map_filter)
qed (simp_all add: lines_ok_def)

lemma captions_view_snoc: "captions_view (as @ [a]) = captionBufferReducer (captions_view as) a"
  by (simp add: captions_view_def)

lemma captions_view_ok: "lines_ok (captions_view as)"
proof (induction as rule: rev_induct)
  case Nil
  then show ?case by (simp add: captions_view_def lines_ok_def)
next
  case (snoc a as)
  then show ?case by (simp add: captions_view_snoc captionBufferReducer_ok)
qed

text \<open>What was just heard is on screen, and a pruned buffer holds only fresh lines.\<close>

lemma segment_is_shown:
  "\<exists>l \<in> set (captions_view (as @ [CaptionSegment k body fin lang now])).
     ln_id l = k \<and> ln_text l = body \<and> ln_final l = fin \<and> ln_lang l = lang \<and> ln_at l = now"
proof (cases "line_index k (captions_view as)")
  case (Some i)
  then show ?thesis using line_index_Some [OF Some] by (auto simp: captions_view_snoc Let_def intro!: bexI [OF _ set_update_memI])
qed (auto simp: captions_view_snoc Let_def LINES_SHOWN_def)

lemma pruned_lines_are_fresh: "l \<in> set (captions_view (as @ [CaptionPrune now])) \<Longrightarrow> now < ln_at l + FADE_MS"
  by (simp add: captions_view_snoc)

text \<open>
  A new text drops the translation of the old one. A translation that arrives late is attached to whatever text the line
  has by then: the buffer does not know which text it was made from.
\<close>

lemma new_text_drops_translation:
  assumes "line_index k ls = Some i" "body \<noteq> ln_text (ls ! i)"
  shows "ln_translated (captionBufferReducer ls (CaptionSegment k body fin lang now) ! i) = None"
  using assms line_index_Some [OF assms(1)] by (simp add: Let_def)

lemma late_translation_sticks:
  "captions_view [CaptionSegment ''1'' ''hola'' True ''es'' 0, CaptionSegment ''1'' ''adios'' True ''es'' 1, CaptionTranslated ''1'' ''hello'']
   = [\<lparr>ln_id = ''1'', ln_text = ''adios'', ln_final = True, ln_lang = ''es'', ln_translated = Some ''hello'', ln_at = 1\<rparr>]"
  by (simp add: captions_view_def line_index_def LINES_SHOWN_def Let_def)

end
