(* ===== verification/ClientGate.thy ===== *)
theory ClientGate
  imports Age
begin

text \<open>
  The date-of-birth form of the browser (\<open>new-frontend/src/pages/gate/dob.ts\<close>) and how it meets the age check of the
  server (theory \<open>Age\<close>): what the form lets through is a date the server can read. The words of the durations come from
  the translations and are left out.
\<close>

section \<open>The form\<close>

definition MIN_YEAR :: int where "MIN_YEAR = 1900"

record dob_parts =
  dp_day :: string
  dp_month :: string
  dp_year :: string

datatype dob_error = DobIncomplete | DobNotNumbers | DobNotReal | DobNotPlausible
datatype dob_result = DobOk string | DobFailed dob_error

text \<open>\<open>/^\d{lo,hi}$/\<close>.\<close>

definition digits_only :: "nat \<Rightarrow> nat \<Rightarrow> string \<Rightarrow> bool" where
  "digits_only lo hi s \<longleftrightarrow> lo \<le> length s \<and> length s \<le> hi \<and> number_from 0 s \<noteq> None"

text \<open>\<open>String(n).padStart(width, "0")\<close> for a number that is not negative.\<close>

definition digit_char :: "int \<Rightarrow> char" where
  "digit_char d = char_of (nat (d + 48))"

definition pad2 :: "int \<Rightarrow> string" where
  "pad2 n = [digit_char (n div 10), digit_char (n mod 10)]"

definition pad4 :: "int \<Rightarrow> string" where
  "pad4 n = pad2 (n div 100) @ pad2 (n mod 100)"

text \<open>\<open>today\<close> is the local date of the browser, as a day of the calendar.\<close>

definition parseDob :: "dob_parts \<Rightarrow> int \<Rightarrow> dob_result" where
  "parseDob parts today =
     (let day = trim (dp_day parts); month = trim (dp_month parts); year = trim (dp_year parts) in
      if day = [] \<or> month = [] \<or> year = [] then DobFailed DobIncomplete
      else if \<not> digits_only 1 2 day \<or> \<not> digits_only 1 2 month \<or> \<not> digits_only 4 4 year then DobFailed DobNotNumbers
      else
        let d = the (number_from 0 day); m = the (number_from 0 month); y = the (number_from 0 year);
            date = date_utc y m d in
        if m < 1 \<or> 12 < m \<or> utc_year date \<noteq> y \<or> int (utc_month date) \<noteq> m \<or> utc_date date \<noteq> d
        then DobFailed DobNotReal
        else if y < MIN_YEAR \<or> today < date then DobFailed DobNotPlausible
        else DobOk (pad4 y @ ''-'' @ pad2 m @ ''-'' @ pad2 d))"

text \<open>\<open>formatDuration\<close>: the units and numbers shown.\<close>

datatype shown_duration =
  ShownDays int int | ShownHours int string | ShownMinutes int string | ShownSeconds int

definition formatDuration :: "int \<Rightarrow> shown_duration" where
  "formatDuration ms =
     (let total = max 0 (- ((- ms) div 1000)); days = total div 86400; hours = total mod 86400 div 3600;
          minutes = total mod 3600 div 60; seconds = total mod 60 in
      if 0 < days then ShownDays days hours
      else if 0 < hours then ShownHours hours (pad2 minutes)
      else if 0 < minutes then ShownMinutes minutes (pad2 seconds)
      else ShownSeconds seconds)"

section \<open>What the form lets through\<close>

lemma digit_of_digit_char: "0 \<le> d \<Longrightarrow> d \<le> 9 \<Longrightarrow> digit_of (digit_char d) = Some d"
proof -
  assume "0 \<le> d" "d \<le> 9"
  then have "d = 0 \<or> d = 1 \<or> d = 2 \<or> d = 3 \<or> d = 4 \<or> d = 5 \<or> d = 6 \<or> d = 7 \<or> d = 8 \<or> d = 9" by presburger
  then show ?thesis by (auto simp: digit_char_def digit_of_def less_eq_char_def)
qed

lemma digit_of_bounds: "digit_of c = Some d \<Longrightarrow> 0 \<le> d \<and> d \<le> 9"
  by (auto simp: digit_of_def less_eq_char_def split: if_splits)

lemma number_from_bounds:
  "number_from acc s = Some n \<Longrightarrow> acc * 10 ^ length s \<le> n \<and> n < (acc + 1) * 10 ^ length s"
proof (induction acc s rule: number_from.induct)
  case (2 acc c cs)
  then obtain d where d: "digit_of c = Some d" "number_from (acc * 10 + d) cs = Some n" by (auto split: option.splits)
  have b: "0 \<le> d" "d \<le> 9" using digit_of_bounds [OF d(1)] by auto
  have p: "(0::int) \<le> 10 ^ length cs" by simp
  have "acc * 10 * 10 ^ length cs \<le> (acc * 10 + d) * 10 ^ length cs" using b p by (intro mult_right_mono) auto
  moreover have "(acc * 10 + d + 1) * 10 ^ length cs \<le> (acc + 1) * 10 * 10 ^ length cs" using b p by (intro mult_right_mono) auto
  moreover have "(acc * 10 + d) * 10 ^ length cs \<le> n" "n < (acc * 10 + d + 1) * 10 ^ length cs" using "2.IH" [OF d] by auto
  ultimately have "acc * 10 * 10 ^ length cs \<le> n" "n < (acc + 1) * 10 * 10 ^ length cs" by linarith+
  then show ?case by (simp add: mult.assoc [symmetric])
qed simp

lemma pad2_reads:
  "0 \<le> n \<Longrightarrow> n < 100 \<Longrightarrow> number_from acc (pad2 n @ s) = number_from (acc * 100 + n) s"
proof -
  assume n: "0 \<le> n" "n < 100"
  have "0 \<le> n div 10" "n div 10 \<le> 9" "0 \<le> n mod 10" "n mod 10 \<le> 9" using n by auto
  then have "number_from acc (pad2 n @ s) = number_from ((acc * 10 + n div 10) * 10 + n mod 10) s"
    by (simp add: pad2_def digit_of_digit_char)
  moreover have "(acc * 10 + n div 10) * 10 + n mod 10 = acc * 100 + n" by simp
  ultimately show ?thesis by (simp only:)
qed

lemma pad4_reads: "0 \<le> n \<Longrightarrow> n < 10000 \<Longrightarrow> number_from 0 (pad4 n) = Some n"
  using pad2_reads [of "n div 100" 0 "pad2 (n mod 100)"] pad2_reads [of "n mod 100" "n div 100" "[]"]
  by (simp add: pad4_def)

lemma pad_lengths [simp]: "length (pad2 n) = 2" "length (pad4 n) = 4"
  by (simp_all add: pad2_def pad4_def)

lemma iso_parses:
  assumes "0 \<le> y" "y < 10000" "0 \<le> m" "m < 100" "0 \<le> d" "d < 100"
    "utc_year (date_utc y m d) = y" "int (utc_month (date_utc y m d)) = m" "utc_date (date_utc y m d) = d"
  shows "parseIsoDate (pad4 y @ ''-'' @ pad2 m @ ''-'' @ pad2 d) = Some (y, m, d)"
proof -
  have n2: "number_from 0 (pad2 k) = Some k" if "0 \<le> k" "k < 100" for k using pad2_reads [OF that, of 0 "[]"] by simp
  have "(pad4 y @ ''-'' @ pad2 m @ ''-'' @ pad2 d) ! 4 = CHR ''-''" "(pad4 y @ ''-'' @ pad2 m @ ''-'' @ pad2 d) ! 7 = CHR ''-''"
    by (simp_all add: nth_append)
  then show ?thesis
    using assms pad4_reads n2 by (simp add: parseIsoDate_def Let_def)
qed

text \<open>
  Whatever the date-of-birth form of the browser accepts, the server reads as the very date that was typed, and it
  finds an age, unless the date is still to come at the server (its clock is in UTC, the form's is local). So the age check
  never answers that a date from the form is malformed or too old.
\<close>

theorem form_dates_are_readable:
  assumes "parseDob parts today = DobOk shown" "today \<le> now div MS_PER_DAY"
  shows "\<exists>y m d. number_from 0 (trim (dp_year parts)) = Some y \<and> number_from 0 (trim (dp_month parts)) = Some m
    \<and> number_from 0 (trim (dp_day parts)) = Some d \<and> parseIsoDate shown = Some (y, m, d) \<and> ageInYears shown now \<noteq> None"
proof -
  obtain y m d where n: "number_from 0 (trim (dp_year parts)) = Some y" "number_from 0 (trim (dp_month parts)) = Some m"
      "number_from 0 (trim (dp_day parts)) = Some d"
    and shown: "shown = pad4 y @ ''-'' @ pad2 m @ ''-'' @ pad2 d"
    and real: "utc_year (date_utc y m d) = y" "int (utc_month (date_utc y m d)) = m" "utc_date (date_utc y m d) = d"
    and bounds: "MIN_YEAR \<le> y" "1 \<le> m" "m \<le> 12" "date_utc y m d \<le> today"
    and len: "length (trim (dp_year parts)) = 4" "length (trim (dp_day parts)) \<le> 2"
    using assms(1) by (auto simp: parseDob_def digits_only_def Let_def split: if_splits)
  have y: "0 \<le> y" "y < 10000" using number_from_bounds [OF n(1)] len by simp_all
  have "(10::int) ^ length (trim (dp_day parts)) \<le> 10 ^ 2" using len(2) by (intro power_increasing) auto
  then have d: "0 \<le> d" "d < 100" using number_from_bounds [OF n(3)] by simp_all
  have p: "parseIsoDate shown = Some (y, m, d)" unfolding shown using y d real bounds by (intro iso_parses) auto
  have "date_utc y m d * MS_PER_DAY \<le> now div MS_PER_DAY * MS_PER_DAY"
    using assms(2) bounds by (intro mult_right_mono) (auto simp: MS_PER_DAY_def)
  moreover have "now div MS_PER_DAY * MS_PER_DAY \<le> now" by (simp add: MS_PER_DAY_def)
  ultimately have "ageInYears shown now \<noteq> None"
    using p bounds by (simp add: ageInYears_def Let_def MIN_YEAR_def MIN_BIRTH_YEAR_def)
  then show ?thesis using n p by blast
qed

theorem form_dates_are_readable_witness:
  "\<exists>y m d. parseIsoDate ''2000-02-29'' = Some (y, m, d) \<and> ageInYears ''2000-02-29'' (20000 * 86400000) \<noteq> None"
proof -
  have "parseDob \<lparr>dp_day = ''29'', dp_month = '' 2'', dp_year = ''2000''\<rparr> 20000 = DobOk ''2000-02-29''" by code_simp
  from form_dates_are_readable [OF this, of "20000 * 86400000"] show ?thesis
    unfolding MS_PER_DAY_def by auto
qed

text \<open>A duration is rounded up to whole seconds, and the parts shown add up to it as far as they are shown.\<close>

lemma shown_seconds: "formatDuration ms = ShownSeconds s \<Longrightarrow> 0 \<le> s \<and> s < 60 \<and> (0 \<le> ms \<longrightarrow> (s - 1) * 1000 < ms \<and> ms \<le> s * 1000)"
  by (auto simp: formatDuration_def Let_def split: if_splits)

end
