(* ===== verification/SessionStorage.thy ===== *)
theory SessionStorage
  imports Payment
begin

text \<open>
  The tokens of the session gate in the browser (\<open>new-frontend/src/lib/session.ts\<close>): what is kept in \<open>localStorage\<close>
  with a copy in memory, who waits for a session and who is told that one was refused. A stored value is one of theory
  \<open>Payment\<close>: a JSON value or a text that is not JSON (the code never stores an empty text). The fingerprint is browser
  code (a digest of browser traits) and left out.
\<close>

section \<open>Storage\<close>

definition AGE_TOKEN_KEY :: string where "AGE_TOKEN_KEY = ''chizzy:ageToken''"
definition SESSION_TOKEN_KEY :: string where "SESSION_TOKEN_KEY = ''chizzy:sessionToken''"
definition LOCKOUT_KEY :: string where "LOCKOUT_KEY = ''chizzy:lockout''"
definition EXPIRY_MARGIN_MS :: millis where "EXPIRY_MARGIN_MS = 60000"

text \<open>
  How the browser's storage behaves: whether there is one, whether \<open>getItem\<close> answers, and whether \<open>setItem\<close> and
  \<open>removeItem\<close> do; otherwise they throw.
\<close>

record storage_access =
  sa_there :: bool
  sa_gets :: bool
  sa_sets :: bool

record client_session =
  cg_memory :: local_storage
  cg_local :: local_storage
  cg_waiters :: "nat list"
  cg_listeners :: "nat list"
  cg_resolved :: "(nat \<times> string) list"
  cg_told :: "(nat \<times> string) list"

definition read_key :: "storage_access \<Rightarrow> string \<Rightarrow> client_session \<Rightarrow> stored_text option" where
  "read_key ac k c =
     (if sa_there ac \<and> sa_gets ac \<and> cg_local c k \<noteq> None then cg_local c k else cg_memory c k)"

definition write_key :: "storage_access \<Rightarrow> string \<Rightarrow> stored_text option \<Rightarrow> client_session \<Rightarrow> client_session" where
  "write_key ac k v c =
     (let c1 = c\<lparr>cg_memory := (cg_memory c)(k := v)\<rparr> in
      if sa_there ac \<and> sa_sets ac then c1\<lparr>cg_local := (cg_local c1)(k := v)\<rparr> else c1)"

definition readJson :: "storage_access \<Rightarrow> string \<Rightarrow> (json \<Rightarrow> bool) \<Rightarrow> client_session \<Rightarrow> client_session \<times> json option" where
  "readJson ac k valid c =
     (case read_key ac k c of
        None \<Rightarrow> (c, None)
      | Some (Json j) \<Rightarrow> if valid j then (c, Some j) else (write_key ac k None c, None)
      | Some NotJson \<Rightarrow> (write_key ac k None c, None))"

definition is_token :: "json \<Rightarrow> bool" where
  "is_token j \<longleftrightarrow> text_of (field j ''token'') \<noteq> None \<and> number_of (field j ''expiresAt'') \<noteq> None"

definition is_age_token :: "json \<Rightarrow> bool" where
  "is_age_token j \<longleftrightarrow> is_token j \<and> text_of (field j ''tosVersion'') \<noteq> None"

definition is_lockout :: "json \<Rightarrow> bool" where
  "is_lockout j \<longleftrightarrow> number_of (field j ''at'') \<noteq> None"

definition getAgeToken :: "storage_access \<Rightarrow> string \<Rightarrow> millis \<Rightarrow> client_session \<Rightarrow> client_session \<times> string option" where
  "getAgeToken ac tos now c =
     (let (c1, stored) = readJson ac AGE_TOKEN_KEY is_age_token c in
      (c1, case stored of
             None \<Rightarrow> None
           | Some j \<Rightarrow>
               if text_of (field j ''tosVersion'') \<noteq> Some tos
                  \<or> the (number_of (field j ''expiresAt'')) \<le> now + EXPIRY_MARGIN_MS then None
               else text_of (field j ''token'')))"

definition getSessionToken :: "storage_access \<Rightarrow> millis \<Rightarrow> client_session \<Rightarrow> client_session \<times> string option" where
  "getSessionToken ac now c =
     (let (c1, stored) = readJson ac SESSION_TOKEN_KEY is_token c in
      (c1, case stored of
             None \<Rightarrow> None
           | Some j \<Rightarrow> if the (number_of (field j ''expiresAt'')) \<le> now + EXPIRY_MARGIN_MS then None
                       else text_of (field j ''token'')))"

section \<open>Saving and refusing\<close>

text \<open>A successful answer of \<open>POST /api/session\<close>.\<close>

record session_ok =
  so_sessionToken :: string
  so_sessionExpiresAt :: millis
  so_ageToken :: string
  so_ageExpiresAt :: millis

definition saveSession :: "storage_access \<Rightarrow> session_ok \<Rightarrow> string \<Rightarrow> client_session \<Rightarrow> client_session" where
  "saveSession ac res tos c =
     (let c1 = write_key ac SESSION_TOKEN_KEY
                 (Some (Json (JObject [(''token'', JText (so_sessionToken res)), (''expiresAt'', JNumber (so_sessionExpiresAt res))]))) c;
          c2 = write_key ac AGE_TOKEN_KEY
                 (Some (Json (JObject [(''token'', JText (so_ageToken res)), (''expiresAt'', JNumber (so_ageExpiresAt res)),
                                       (''tosVersion'', JText tos)]))) c1;
          c3 = write_key ac LOCKOUT_KEY None c2 in
      c3\<lparr>cg_waiters := [], cg_resolved := cg_resolved c3 @ map (\<lambda>w. (w, so_sessionToken res)) (cg_waiters c3)\<rparr>)"

definition clearSessionToken :: "storage_access \<Rightarrow> client_session \<Rightarrow> client_session" where
  "clearSessionToken ac c = write_key ac SESSION_TOKEN_KEY None c"

definition clearAgeToken :: "storage_access \<Rightarrow> client_session \<Rightarrow> client_session" where
  "clearAgeToken ac c = write_key ac AGE_TOKEN_KEY None c"

definition invalidateSession :: "storage_access \<Rightarrow> string \<Rightarrow> client_session \<Rightarrow> client_session" where
  "invalidateSession ac why c =
     (let c1 = clearSessionToken ac c in c1\<lparr>cg_told := cg_told c1 @ map (\<lambda>l. (l, why)) (cg_listeners c1)\<rparr>)"

definition onSessionInvalidated :: "nat \<Rightarrow> client_session \<Rightarrow> client_session" where
  "onSessionInvalidated l c = (if l \<in> set (cg_listeners c) then c else c\<lparr>cg_listeners := cg_listeners c @ [l]\<rparr>)"

definition removeListener :: "nat \<Rightarrow> client_session \<Rightarrow> client_session" where
  "removeListener l c = c\<lparr>cg_listeners := filter (\<lambda>x. x \<noteq> l) (cg_listeners c)\<rparr>"

definition waitForSession :: "nat \<Rightarrow> client_session \<Rightarrow> client_session" where
  "waitForSession w c = c\<lparr>cg_waiters := cg_waiters c @ [w]\<rparr>"

definition markLockedOut :: "storage_access \<Rightarrow> millis \<Rightarrow> client_session \<Rightarrow> client_session" where
  "markLockedOut ac now c =
     clearAgeToken ac (clearSessionToken ac (write_key ac LOCKOUT_KEY (Some (Json (JObject [(''at'', JNumber now)]))) c))"

definition isLockedOut :: "storage_access \<Rightarrow> client_session \<Rightarrow> client_session \<times> bool" where
  "isLockedOut ac c = (let (c1, j) = readJson ac LOCKOUT_KEY is_lockout c in (c1, j \<noteq> None))"

section \<open>What the gate promises\<close>

text \<open>
  The abstract view: the session and age tokens that are on file and whether the device is locked out. A storage is
  steady if it answers all calls or none.
\<close>

definition steady_storage :: "storage_access \<Rightarrow> bool" where
  "steady_storage ac \<longleftrightarrow> \<not> sa_there ac \<or> sa_gets ac = sa_sets ac"

definition on_file :: "storage_access \<Rightarrow> string \<Rightarrow> (json \<Rightarrow> bool) \<Rightarrow> client_session \<Rightarrow> json option" where
  "on_file ac k valid c = snd (readJson ac k valid c)"

record gate_view =
  gv_session :: "json option"
  gv_age :: "json option"
  gv_locked :: bool

definition session_view :: "storage_access \<Rightarrow> client_session \<Rightarrow> gate_view" where
  "session_view ac c =
     \<lparr>gv_session = on_file ac SESSION_TOKEN_KEY is_token c, gv_age = on_file ac AGE_TOKEN_KEY is_age_token c,
      gv_locked = (on_file ac LOCKOUT_KEY is_lockout c \<noteq> None)\<rparr>"

lemma keys_differ [simp]:
  "SESSION_TOKEN_KEY \<noteq> AGE_TOKEN_KEY" "AGE_TOKEN_KEY \<noteq> SESSION_TOKEN_KEY" "SESSION_TOKEN_KEY \<noteq> LOCKOUT_KEY"
  "LOCKOUT_KEY \<noteq> SESSION_TOKEN_KEY" "AGE_TOKEN_KEY \<noteq> LOCKOUT_KEY" "LOCKOUT_KEY \<noteq> AGE_TOKEN_KEY"
  by (simp_all add: SESSION_TOKEN_KEY_def AGE_TOKEN_KEY_def LOCKOUT_KEY_def)

lemma read_written:
  "steady_storage ac \<Longrightarrow> read_key ac k (write_key ac j v c) = (if k = j then v else read_key ac k c)"
  by (auto simp: read_key_def write_key_def Let_def steady_storage_def)

lemma read_key_cong: "cg_memory c' = cg_memory c \<Longrightarrow> cg_local c' = cg_local c \<Longrightarrow> read_key ac k c' = read_key ac k c"
  by (auto simp: read_key_def)

lemma on_file_written:
  "steady_storage ac \<Longrightarrow> on_file ac k valid (write_key ac j v c) =
     (if k = j then (case v of Some (Json x) \<Rightarrow> if valid x then Some x else None | _ \<Rightarrow> None) else on_file ac k valid c)"
  by (simp add: on_file_def readJson_def read_written split: option.splits stored_text.splits)

lemma on_file_cong:
  "cg_memory c' = cg_memory c \<Longrightarrow> cg_local c' = cg_local c \<Longrightarrow> on_file ac k valid c' = on_file ac k valid c"
  using read_key_cong [of c' c ac k] by (simp add: on_file_def readJson_def split: option.splits stored_text.splits)

lemma readJson_drops_only_junk:
  "steady_storage ac \<Longrightarrow> session_view ac (fst (readJson ac k valid c)) = session_view ac c
     \<or> on_file ac k valid c = None"
  by (auto simp: on_file_def readJson_def split: option.splits stored_text.splits if_splits)

text \<open>Each operation is an update of the view.\<close>

lemma save_view:
  assumes "steady_storage ac"
  shows "session_view ac (saveSession ac res tos c) =
    \<lparr>gv_session = Some (JObject [(''token'', JText (so_sessionToken res)), (''expiresAt'', JNumber (so_sessionExpiresAt res))]),
     gv_age = Some (JObject [(''token'', JText (so_ageToken res)), (''expiresAt'', JNumber (so_ageExpiresAt res)), (''tosVersion'', JText tos)]),
     gv_locked = False\<rparr>"
proof -
  have "on_file ac k valid (c3\<lparr>cg_waiters := ws, cg_resolved := rs\<rparr>) = on_file ac k valid c3" for k valid c3 ws rs
    by (rule on_file_cong) simp_all
  then show ?thesis
    by (simp add: session_view_def saveSession_def Let_def on_file_written [OF assms] is_token_def is_age_token_def)
qed

lemma invalidate_view:
  assumes "steady_storage ac"
  shows "session_view ac (invalidateSession ac why c) = (session_view ac c)\<lparr>gv_session := None\<rparr>"
proof -
  have "on_file ac k valid (c1\<lparr>cg_told := ts\<rparr>) = on_file ac k valid c1" for k valid c1 ts by (rule on_file_cong) simp_all
  then show ?thesis
    by (simp add: session_view_def invalidateSession_def clearSessionToken_def Let_def on_file_written [OF assms])
qed

lemma clear_age_view:
  "steady_storage ac \<Longrightarrow> session_view ac (clearAgeToken ac c) = (session_view ac c)\<lparr>gv_age := None\<rparr>"
  by (simp add: session_view_def clearAgeToken_def on_file_written)

lemma locked_view:
  "steady_storage ac \<Longrightarrow> session_view ac (markLockedOut ac now c) = \<lparr>gv_session = None, gv_age = None, gv_locked = True\<rparr>"
  by (simp add: session_view_def markLockedOut_def clearAgeToken_def clearSessionToken_def on_file_written is_lockout_def)

text \<open>And each reader answers from it.\<close>

lemma session_token_from_view:
  "snd (getSessionToken ac now c) =
     (case gv_session (session_view ac c) of
        None \<Rightarrow> None
      | Some j \<Rightarrow> if the (number_of (field j ''expiresAt'')) \<le> now + EXPIRY_MARGIN_MS then None else text_of (field j ''token''))"
  by (simp add: getSessionToken_def session_view_def on_file_def split: prod.splits)

lemma age_token_from_view:
  "snd (getAgeToken ac tos now c) =
     (case gv_age (session_view ac c) of
        None \<Rightarrow> None
      | Some j \<Rightarrow> if text_of (field j ''tosVersion'') \<noteq> Some tos \<or> the (number_of (field j ''expiresAt'')) \<le> now + EXPIRY_MARGIN_MS
                  then None else text_of (field j ''token''))"
  by (simp add: getAgeToken_def session_view_def on_file_def split: prod.splits)

lemma locked_from_view: "snd (isLockedOut ac c) = gv_locked (session_view ac c)"
  by (simp add: isLockedOut_def session_view_def on_file_def split: prod.splits)

section \<open>Runs\<close>

datatype session_call =
  SaveCall session_ok string | InvalidateCall string | ClearAgeCall | LockCall millis
| ReadSession millis | ReadAge string millis | ReadLock | ListenCall nat | UnlistenCall nat | WaitCall nat

fun session_do :: "storage_access \<Rightarrow> session_call \<Rightarrow> client_session \<Rightarrow> client_session" where
  "session_do ac (SaveCall res tos) c = saveSession ac res tos c"
| "session_do ac (InvalidateCall why) c = invalidateSession ac why c"
| "session_do ac ClearAgeCall c = clearAgeToken ac c"
| "session_do ac (LockCall now) c = markLockedOut ac now c"
| "session_do ac (ReadSession now) c = fst (getSessionToken ac now c)"
| "session_do ac (ReadAge tos now) c = fst (getAgeToken ac tos now c)"
| "session_do ac ReadLock c = fst (isLockedOut ac c)"
| "session_do ac (ListenCall l) c = onSessionInvalidated l c"
| "session_do ac (UnlistenCall l) c = removeListener l c"
| "session_do ac (WaitCall w) c = waitForSession w c"

lemma junk_view:
  assumes "steady_storage ac" "(k, valid) \<in> {(SESSION_TOKEN_KEY, is_token), (AGE_TOKEN_KEY, is_age_token), (LOCKOUT_KEY, is_lockout)}"
  shows "session_view ac (fst (readJson ac k valid c)) = session_view ac c"
proof (cases "fst (readJson ac k valid c) = c")
  case False
  then have junk: "fst (readJson ac k valid c) = write_key ac k None c" "on_file ac k valid c = None"
    by (auto simp: readJson_def on_file_def split: option.splits stored_text.splits if_splits)
  then show ?thesis using assms by (auto simp: session_view_def on_file_written)
qed simp

lemma reads_keep_view:
  assumes "steady_storage ac" "a \<in> {ReadSession now, ReadAge tos now, ReadLock, ListenCall w, UnlistenCall w, WaitCall w}"
  shows "session_view ac (session_do ac a c) = session_view ac c"
proof -
  have "session_view ac (c\<lparr>cg_listeners := xs\<rparr>) = session_view ac c" "session_view ac (c\<lparr>cg_waiters := ys\<rparr>) = session_view ac c" for xs ys
    using on_file_cong [of "c\<lparr>cg_listeners := xs\<rparr>" c] on_file_cong [of "c\<lparr>cg_waiters := ys\<rparr>" c] by (simp_all add: session_view_def)
  then show ?thesis
    using assms junk_view [OF assms(1)]
    by (auto simp: getSessionToken_def getAgeToken_def isLockedOut_def onSessionInvalidated_def removeListener_def
          waitForSession_def Let_def split: prod.splits) (metis fst_conv insertCI)+
qed

text \<open>The abstract gate: what each call does to the view alone.\<close>

fun view_do :: "session_call \<Rightarrow> gate_view \<Rightarrow> gate_view" where
  "view_do (SaveCall res tos) v =
     \<lparr>gv_session = Some (JObject [(''token'', JText (so_sessionToken res)), (''expiresAt'', JNumber (so_sessionExpiresAt res))]),
      gv_age = Some (JObject [(''token'', JText (so_ageToken res)), (''expiresAt'', JNumber (so_ageExpiresAt res)), (''tosVersion'', JText tos)]),
      gv_locked = False\<rparr>"
| "view_do (InvalidateCall why) v = v\<lparr>gv_session := None\<rparr>"
| "view_do ClearAgeCall v = v\<lparr>gv_age := None\<rparr>"
| "view_do (LockCall now) v = \<lparr>gv_session = None, gv_age = None, gv_locked = True\<rparr>"
| "view_do _ v = v"

lemma session_do_view:
  assumes "steady_storage ac"
  shows "session_view ac (session_do ac a c) = view_do a (session_view ac c)"
proof -
  have "session_view ac (session_do ac a c) = session_view ac c"
    if "a \<in> {ReadSession now, ReadAge tos now, ReadLock, ListenCall w, UnlistenCall w, WaitCall w}" for now tos w
    by (rule reads_keep_view [OF assms that])
  then show ?thesis
    by (cases a) (simp_all add: save_view [OF assms] invalidate_view [OF assms] clear_age_view [OF assms] locked_view [OF assms]
        del: session_do.simps(5-10))
qed

text \<open>
  With a storage that answers all calls or none (private mode), the browser's session store is a small register: after
  any calls, what is read is what the latest save, refusal, clearing or lock left, whatever else was stored before. So a
  saved session is used until it expires or is refused, and a refused or locked-out one never again.
\<close>

theorem session_store_is_a_register:
  assumes "steady_storage ac"
  shows "session_view ac (fold (session_do ac) calls c) = fold view_do calls (session_view ac c)"
  by (induction calls arbitrary: c) (simp_all add: session_do_view [OF assms])

theorem session_store_is_a_register_witness:
  "gv_session (session_view \<lparr>sa_there = False, sa_gets = True, sa_sets = True\<rparr>
     (fold (session_do \<lparr>sa_there = False, sa_gets = True, sa_sets = True\<rparr>)
        [SaveCall \<lparr>so_sessionToken = ''t'', so_sessionExpiresAt = 5, so_ageToken = ''a'', so_ageExpiresAt = 9\<rparr> ''v1'', ReadLock, InvalidateCall ''expired'']
        \<lparr>cg_memory = Map.empty, cg_local = Map.empty, cg_waiters = [], cg_listeners = [], cg_resolved = [], cg_told = []\<rparr>)) = None"
  by (subst session_store_is_a_register) (simp_all add: steady_storage_def)

text \<open>
  A storage that throws only on writes keeps the old value, and the old value is read before the copy in memory: a saved
  session is then not the one that is used, and a refused one is used again.
\<close>

lemma full_storage_shadows:
  assumes "sa_there ac" "sa_gets ac" "\<not> sa_sets ac" "cg_local c SESSION_TOKEN_KEY = Some v"
  shows "read_key ac SESSION_TOKEN_KEY (saveSession ac res tos c) = Some v"
    and "read_key ac SESSION_TOKEN_KEY (invalidateSession ac why c) = Some v"
  using assms by (simp_all add: saveSession_def invalidateSession_def clearSessionToken_def write_key_def read_key_def Let_def)

text \<open>Whoever waits is woken once, by the next session that is saved.\<close>

lemma save_wakes: "cg_waiters (saveSession ac res tos c) = []"
  "cg_resolved (saveSession ac res tos c) = cg_resolved c @ map (\<lambda>w. (w, so_sessionToken res)) (cg_waiters c)"
  by (simp_all add: saveSession_def write_key_def Let_def)

end
