(* ===== verification/Redis.thy ===== *)
theory Redis
  imports MemoryStore "HOL-Library.Product_Lexorder"
begin

text \<open>
  The commands of Redis that \<open>backend/src/store/RedisStore.ts\<close> sends, its keys and its two Lua scripts. Redis itself is
  a service: its commands are the fields of a record of type \<open>'r redis\<close>, an argument of everything below, and what the
  code relies on of them is the predicate \<open>redis_ok\<close>, which states their documented effect on the value at a key. A JSON
  text is represented by the value it spells, and an id that was drawn with \<open>randomUUID()\<close> by its number.
\<close>

section \<open>Keys and values\<close>

datatype id_text = Id string | Uuid uuid

datatype rkey =
  KSession socket_id | KSessions | KPhoto socket_id | KDevice device_id | KWaiting | KRoom uuid | KPendingRooms
| KActiveRooms | KCoins | KFriends device_id | KBlock device_id device_id | KReports | KReportsAgainst device_id
| KBan device_id | KInstances | KInstance string | KInstanceSessions string | KLock

datatype rvalue = TextValue string | SessionValue session | RoomValue room | BlockValue pair_block | ReportValue report_record
| TimeValue millis

datatype rentry =
  RText rvalue
| RSet "id_text list"
| RZset "(id_text, millis) jmap"
| RHash "(device_id, int) jmap"
| RList "rvalue list"

fun key_parts :: "(uuid \<Rightarrow> string) \<Rightarrow> rkey \<Rightarrow> string list" where
  "key_parts u (KSession s) = [''session'', s]"
| "key_parts u KSessions = [''sessions'']"
| "key_parts u (KPhoto s) = [''photo'', s]"
| "key_parts u (KDevice d) = [''device'', d]"
| "key_parts u KWaiting = [''waiting'']"
| "key_parts u (KRoom r) = [''room'', u r]"
| "key_parts u KPendingRooms = [''rooms'', ''pending'']"
| "key_parts u KActiveRooms = [''rooms'', ''active'']"
| "key_parts u KCoins = [''coins'']"
| "key_parts u (KFriends d) = [''friends'', d]"
| "key_parts u (KBlock a b) = [''block'', a, b]"
| "key_parts u KReports = [''reports'']"
| "key_parts u (KReportsAgainst d) = [''reportsAgainst'', d]"
| "key_parts u (KBan d) = [''ban'', d]"
| "key_parts u KInstances = [''instances'']"
| "key_parts u (KInstance i) = [''instance'', i]"
| "key_parts u (KInstanceSessions i) = [''instanceSessions'', i]"
| "key_parts u KLock = [''lock'', ''match'']"

definition MATCH_KEY_PREFIX :: string where "MATCH_KEY_PREFIX = ''chizzy:''"

text \<open>\<open>KEY_PART_RE\<close>: 1 to 128 letters, digits, underscores, dots and dashes.\<close>

definition key_char :: "char \<Rightarrow> bool" where
  "key_char c \<longleftrightarrow> c \<in> set ''_.-'' \<or> CHR ''0'' \<le> c \<and> c \<le> CHR ''9'' \<or> CHR ''a'' \<le> lower_char c \<and> lower_char c \<le> CHR ''z''"

definition id_ok :: "string \<Rightarrow> bool" where
  "id_ok p \<longleftrightarrow> 1 \<le> length p \<and> length p \<le> 128 \<and> list_all key_char p"

definition store_key :: "string \<Rightarrow> (uuid \<Rightarrow> string) \<Rightarrow> rkey \<Rightarrow> string option" where
  "store_key prefix u k =
     (let parts = key_parts u k in if list_all id_ok parts then Some (prefix @ join '':'' parts) else None)"

section \<open>Commands\<close>

record 'r redis =
  rd_at :: "millis \<Rightarrow> 'r \<Rightarrow> rkey \<Rightarrow> rentry option"
  rd_uuid :: "uuid \<Rightarrow> string"
  rd_set :: "rkey \<Rightarrow> rvalue \<Rightarrow> millis option \<Rightarrow> millis \<Rightarrow> 'r \<Rightarrow> 'r"
  rd_del :: "rkey \<Rightarrow> millis \<Rightarrow> 'r \<Rightarrow> 'r"
  rd_pexpire :: "rkey \<Rightarrow> millis \<Rightarrow> millis \<Rightarrow> 'r \<Rightarrow> 'r"
  rd_sadd :: "rkey \<Rightarrow> id_text \<Rightarrow> millis \<Rightarrow> 'r \<Rightarrow> 'r"
  rd_srem :: "rkey \<Rightarrow> id_text \<Rightarrow> millis \<Rightarrow> 'r \<Rightarrow> 'r"
  rd_zadd :: "rkey \<Rightarrow> millis \<Rightarrow> id_text \<Rightarrow> millis \<Rightarrow> 'r \<Rightarrow> 'r"
  rd_zadd_gt :: "rkey \<Rightarrow> millis \<Rightarrow> id_text \<Rightarrow> millis \<Rightarrow> 'r \<Rightarrow> 'r"
  rd_zrem :: "rkey \<Rightarrow> id_text \<Rightarrow> millis \<Rightarrow> 'r \<Rightarrow> 'r"
  rd_zrem_below :: "rkey \<Rightarrow> millis \<Rightarrow> millis \<Rightarrow> 'r \<Rightarrow> 'r"
  rd_hsetnx :: "rkey \<Rightarrow> device_id \<Rightarrow> int \<Rightarrow> millis \<Rightarrow> 'r \<Rightarrow> 'r"
  rd_hincrby :: "rkey \<Rightarrow> device_id \<Rightarrow> int \<Rightarrow> millis \<Rightarrow> 'r \<Rightarrow> 'r"
  rd_rpush :: "rkey \<Rightarrow> rvalue \<Rightarrow> millis \<Rightarrow> 'r \<Rightarrow> 'r"
  rd_ltrim :: "rkey \<Rightarrow> nat \<Rightarrow> millis \<Rightarrow> 'r \<Rightarrow> 'r"

text \<open>
  \<open>rd_set k v until\<close> is \<open>SET\<close>, with the time the value lapses (from \<open>PX\<close> or \<open>PXAT\<close>), if any; \<open>rd_zadd_gt\<close> is \<open>ZADD GT\<close>;
  \<open>rd_zrem_below k b\<close> is \<open>ZREMRANGEBYSCORE k -inf (b\<close>; \<open>rd_ltrim k n\<close> is \<open>LTRIM k -n -1\<close>. The last two arguments of a
  command are the time of the server and the database.
\<close>

text \<open>What the reading commands answer, from the value at the key. A missing key is an empty collection.\<close>

definition rd_get :: "'r redis \<Rightarrow> millis \<Rightarrow> rkey \<Rightarrow> 'r \<Rightarrow> rvalue option" where
  "rd_get R now k r = (case rd_at R now r k of Some (RText v) \<Rightarrow> Some v | _ \<Rightarrow> None)"

definition rd_exists :: "'r redis \<Rightarrow> millis \<Rightarrow> rkey \<Rightarrow> 'r \<Rightarrow> bool" where
  "rd_exists R now k r \<longleftrightarrow> rd_at R now r k \<noteq> None"

fun set_members :: "rentry option \<Rightarrow> id_text list" where
  "set_members (Some (RSet ms)) = ms"
| "set_members _ = []"

fun zset_scores :: "rentry option \<Rightarrow> (id_text, millis) jmap" where
  "zset_scores (Some (RZset z)) = z"
| "zset_scores _ = []"

fun hash_fields :: "rentry option \<Rightarrow> (device_id, int) jmap" where
  "hash_fields (Some (RHash h)) = h"
| "hash_fields _ = []"

fun list_values :: "rentry option \<Rightarrow> rvalue list" where
  "list_values (Some (RList vs)) = vs"
| "list_values _ = []"

definition rd_smembers :: "'r redis \<Rightarrow> millis \<Rightarrow> rkey \<Rightarrow> 'r \<Rightarrow> id_text list" where
  "rd_smembers R now k r = set_members (rd_at R now r k)"

definition rd_zscores :: "'r redis \<Rightarrow> millis \<Rightarrow> rkey \<Rightarrow> 'r \<Rightarrow> (id_text, millis) jmap" where
  "rd_zscores R now k r = zset_scores (rd_at R now r k)"

definition rd_hget :: "'r redis \<Rightarrow> millis \<Rightarrow> rkey \<Rightarrow> device_id \<Rightarrow> 'r \<Rightarrow> int option" where
  "rd_hget R now k d r = jget (hash_fields (rd_at R now r k)) d"

fun id_string :: "(uuid \<Rightarrow> string) \<Rightarrow> id_text \<Rightarrow> string" where
  "id_string u (Id s) = s"
| "id_string u (Uuid n) = u n"

text \<open>\<open>ZRANGE k 0 -1\<close>: by score, and members of one score by their bytes.\<close>

definition rd_zrange :: "'r redis \<Rightarrow> millis \<Rightarrow> rkey \<Rightarrow> 'r \<Rightarrow> id_text list" where
  "rd_zrange R now k r = map fst (sort_key (\<lambda>(m, score). (score, id_string (rd_uuid R) m)) (rd_zscores R now k r))"

section \<open>What they do\<close>

text \<open>An empty collection is no key at all.\<close>

definition set_entry :: "id_text list \<Rightarrow> rentry option" where
  "set_entry ms = (if ms = [] then None else Some (RSet ms))"

definition zset_entry :: "(id_text, millis) jmap \<Rightarrow> rentry option" where
  "zset_entry z = (if z = [] then None else Some (RZset z))"

text \<open>
  A command that edits the value of one key leaves the other keys alone, and the time at which the key lapses; a value set
  anew lapses at its own time.
\<close>

definition edits :: "'r redis \<Rightarrow> rkey \<Rightarrow> (millis \<Rightarrow> 'r \<Rightarrow> 'r) \<Rightarrow> (rentry option \<Rightarrow> rentry option) \<Rightarrow> bool" where
  "edits R k cmd f \<longleftrightarrow>
     (\<forall>now t r j. now \<le> t \<longrightarrow> rd_at R t (cmd now r) j =
        (if j \<noteq> k then rd_at R t r j
         else if rd_at R now r k \<noteq> None \<and> rd_at R t r k = None then None
         else f (rd_at R now r k)))"

definition over :: "millis option \<Rightarrow> millis \<Rightarrow> bool" where
  "over lapse t = (case lapse of None \<Rightarrow> False | Some u \<Rightarrow> u \<le> t)"

definition redis_ok :: "'r redis \<Rightarrow> bool" where
  "redis_ok R \<longleftrightarrow>
     (\<forall>now t r k. now \<le> t \<longrightarrow> rd_at R t r k = None \<or> rd_at R t r k = rd_at R now r k)
   \<and> (\<forall>k v lapse now t r j. now \<le> t \<longrightarrow> rd_at R t (rd_set R k v lapse now r) j =
        (if j \<noteq> k then rd_at R t r j else if over lapse t then None else Some (RText v)))
   \<and> (\<forall>k ttl now t r j. now \<le> t \<longrightarrow> rd_at R t (rd_pexpire R k ttl now r) j =
        (if j \<noteq> k then rd_at R t r j else if now + ttl \<le> t then None else rd_at R now r k))
   \<and> (\<forall>k. edits R k (rd_del R k) (\<lambda>_. None))
   \<and> (\<forall>k m. edits R k (rd_sadd R k m) (\<lambda>e. set_entry (sadd m (set_members e))))
   \<and> (\<forall>k m. edits R k (rd_srem R k m) (\<lambda>e. set_entry (sdel m (set_members e))))
   \<and> (\<forall>k s m. edits R k (rd_zadd R k s m) (\<lambda>e. zset_entry (jset (zset_scores e) m s)))
   \<and> (\<forall>k s m. edits R k (rd_zadd_gt R k s m) (\<lambda>e. zset_entry (jset (zset_scores e) m
        (case jget (zset_scores e) m of None \<Rightarrow> s | Some old \<Rightarrow> max old s))))
   \<and> (\<forall>k m. edits R k (rd_zrem R k m) (\<lambda>e. zset_entry (jdel (zset_scores e) m)))
   \<and> (\<forall>k b. edits R k (rd_zrem_below R k b) (\<lambda>e. zset_entry (jkeep (\<lambda>s. b \<le> s) (zset_scores e))))
   \<and> (\<forall>k d n. edits R k (rd_hsetnx R k d n) (\<lambda>e. Some (RHash
        (case jget (hash_fields e) d of None \<Rightarrow> jset (hash_fields e) d n | Some _ \<Rightarrow> hash_fields e))))
   \<and> (\<forall>k d n. edits R k (rd_hincrby R k d n) (\<lambda>e. Some (RHash
        (jset (hash_fields e) d ((case jget (hash_fields e) d of None \<Rightarrow> 0 | Some o' \<Rightarrow> o') + n)))))
   \<and> (\<forall>k v. edits R k (rd_rpush R k v) (\<lambda>e. Some (RList (list_values e @ [v]))))
   \<and> (\<forall>k n. edits R k (rd_ltrim R k n) (\<lambda>e.
        let vs = drop (length (list_values e) - n) (list_values e) in if vs = [] then None else Some (RList vs)))"

section \<open>The scripts\<close>

text \<open>\<open>DEL_IF_EQUAL\<close> and \<open>PEXPIRE_IF_EQUAL\<close> run as one command each.\<close>

definition delIfEqual :: "'r redis \<Rightarrow> rkey \<Rightarrow> rvalue \<Rightarrow> millis \<Rightarrow> 'r \<Rightarrow> 'r \<times> bool" where
  "delIfEqual R k v now r = (if rd_get R now k r = Some v then (rd_del R k now r, True) else (r, False))"

definition pexpireIfEqual :: "'r redis \<Rightarrow> rkey \<Rightarrow> rvalue \<Rightarrow> millis \<Rightarrow> millis \<Rightarrow> 'r \<Rightarrow> 'r \<times> bool" where
  "pexpireIfEqual R k v ttl now r = (if rd_get R now k r = Some v then (rd_pexpire R k ttl now r, True) else (r, False))"

text \<open>\<open>SET k v PX ttl NX\<close>.\<close>

definition set_nx_px :: "'r redis \<Rightarrow> rkey \<Rightarrow> rvalue \<Rightarrow> millis \<Rightarrow> millis \<Rightarrow> 'r \<Rightarrow> 'r \<times> bool" where
  "set_nx_px R k v ttl now r =
     (if rd_exists R now k r then (r, False) else (rd_set R k v (Some (now + ttl)) now r, True))"

section \<open>A Redis that behaves so\<close>

text \<open>A database as a map from keys to values and times of lapse; the hypotheses above can hold.\<close>

type_synonym table = "rkey \<Rightarrow> (rentry \<times> millis option) option"

definition tb_at :: "millis \<Rightarrow> table \<Rightarrow> rkey \<Rightarrow> rentry option" where
  "tb_at now d k = (case d k of None \<Rightarrow> None | Some (e, lapse) \<Rightarrow> if over lapse now then None else Some e)"

definition tb_edit :: "rkey \<Rightarrow> (rentry option \<Rightarrow> rentry option) \<Rightarrow> millis \<Rightarrow> table \<Rightarrow> table" where
  "tb_edit k f now d =
     d(k := (case f (tb_at now d k) of
               None \<Rightarrow> None
             | Some e \<Rightarrow> Some (e, if tb_at now d k = None then None else snd (the (d k)))))"

definition table_redis :: "table redis" where
  "table_redis =
     \<lparr>rd_at = tb_at, rd_uuid = (\<lambda>n. replicate n CHR ''x''),
      rd_set = (\<lambda>k v lapse now d. d(k \<mapsto> (RText v, lapse))),
      rd_del = (\<lambda>k. tb_edit k (\<lambda>_. None)),
      rd_pexpire = (\<lambda>k ttl now d. d(k := (case tb_at now d k of None \<Rightarrow> None | Some e \<Rightarrow> Some (e, Some (now + ttl))))),
      rd_sadd = (\<lambda>k m. tb_edit k (\<lambda>e. set_entry (sadd m (set_members e)))),
      rd_srem = (\<lambda>k m. tb_edit k (\<lambda>e. set_entry (sdel m (set_members e)))),
      rd_zadd = (\<lambda>k s m. tb_edit k (\<lambda>e. zset_entry (jset (zset_scores e) m s))),
      rd_zadd_gt = (\<lambda>k s m. tb_edit k (\<lambda>e. zset_entry (jset (zset_scores e) m
        (case jget (zset_scores e) m of None \<Rightarrow> s | Some old \<Rightarrow> max old s)))),
      rd_zrem = (\<lambda>k m. tb_edit k (\<lambda>e. zset_entry (jdel (zset_scores e) m))),
      rd_zrem_below = (\<lambda>k b. tb_edit k (\<lambda>e. zset_entry (jkeep (\<lambda>s. b \<le> s) (zset_scores e)))),
      rd_hsetnx = (\<lambda>k f n. tb_edit k (\<lambda>e. Some (RHash
        (case jget (hash_fields e) f of None \<Rightarrow> jset (hash_fields e) f n | Some _ \<Rightarrow> hash_fields e)))),
      rd_hincrby = (\<lambda>k f n. tb_edit k (\<lambda>e. Some (RHash
        (jset (hash_fields e) f ((case jget (hash_fields e) f of None \<Rightarrow> 0 | Some o' \<Rightarrow> o') + n))))),
      rd_rpush = (\<lambda>k v. tb_edit k (\<lambda>e. Some (RList (list_values e @ [v])))),
      rd_ltrim = (\<lambda>k n. tb_edit k (\<lambda>e.
        let vs = drop (length (list_values e) - n) (list_values e) in if vs = [] then None else Some (RList vs)))\<rparr>"

lemma over_mono: "over lapse now \<Longrightarrow> now \<le> t \<Longrightarrow> over lapse t"
  by (auto simp: over_def split: option.splits)

lemma over_None [simp]: "\<not> over None t"
  by (simp add: over_def)

lemma tb_edit_edits: "rd_at R = tb_at \<Longrightarrow> edits R k (tb_edit k f) f"
  unfolding edits_def
  by (auto simp: tb_edit_def tb_at_def dest: over_mono split: option.splits prod.splits)

lemma table_redis_ok: "redis_ok table_redis"
proof -
  have at: "rd_at table_redis = tb_at" by (simp add: table_redis_def)
  have "now \<le> t \<Longrightarrow> tb_at t d k = None \<or> tb_at t d k = tb_at now d k" for now t d k
    by (auto simp: tb_at_def dest: over_mono split: option.splits prod.splits)
  moreover have "now \<le> t \<Longrightarrow> tb_at t (d(k := (case tb_at now d k of None \<Rightarrow> None | Some e \<Rightarrow> Some (e, Some (now + ttl))))) j =
      (if j \<noteq> k then tb_at t d j else if now + ttl \<le> t then None else tb_at now d k)" for now t d k ttl j
    by (auto simp: tb_at_def over_def split: option.splits prod.splits)
  moreover have "tb_at t (d(k \<mapsto> (RText v, lapse))) j = (if j \<noteq> k then tb_at t d j else if over lapse t then None else Some (RText v))"
    for t d k v lapse j by (simp add: tb_at_def)
  ultimately show ?thesis
    unfolding redis_ok_def using tb_edit_edits [OF at] by (simp add: at) (simp add: table_redis_def)
qed

section \<open>Keys do not meet\<close>

lemma split_on_free: "c \<notin> set s \<Longrightarrow> split_on c s = [s]"
  by (induction s) auto

lemma split_on_first: "c \<notin> set s \<Longrightarrow> split_on c (s @ c # t) = s # split_on c t"
  by (induction s) auto

lemma split_on_join: "ps \<noteq> [] \<Longrightarrow> list_all (\<lambda>p. c \<notin> set p) ps \<Longrightarrow> split_on c (join [c] ps) = ps"
  by (induction "[c]" ps rule: join.induct) (simp_all add: split_on_free split_on_first)

lemma key_parts_nonempty [simp]: "key_parts u k \<noteq> []"
  by (cases k) simp_all

lemma key_parts_inj: "inj u \<Longrightarrow> key_parts u k = key_parts u j \<Longrightarrow> k = j"
  by (cases k; cases j; simp add: inj_eq)

lemma id_ok_no_colon: "id_ok p \<Longrightarrow> CHR '':'' \<notin> set p"
proof -
  have "\<not> key_char CHR '':''" by code_simp
  then show "id_ok p \<Longrightarrow> CHR '':'' \<notin> set p" by (auto simp: id_ok_def list_all_iff)
qed

text \<open>Two keys with the same text are the same key: no id can reach into another family of keys.\<close>

lemma store_key_inj:
  assumes "inj u" "store_key prefix u k = Some s" "store_key prefix u j = Some s"
  shows "k = j"
proof -
  have same: "join '':'' (key_parts u k) = join '':'' (key_parts u j)"
    and ok: "list_all id_ok (key_parts u k)" "list_all id_ok (key_parts u j)"
    using assms(2,3) by (auto simp: store_key_def Let_def split: if_splits)
  have "list_all (\<lambda>p. CHR '':'' \<notin> set p) (key_parts u k)" "list_all (\<lambda>p. CHR '':'' \<notin> set p) (key_parts u j)"
    using ok id_ok_no_colon by (auto simp: list_all_iff)
  then have "key_parts u k = key_parts u j"
    using split_on_join [OF key_parts_nonempty] same by metis
  then show ?thesis by (rule key_parts_inj [OF assms(1)])
qed

end
