(* ===== verification/RedisLock.thy ===== *)
theory RedisLock
  imports Redis
begin

text \<open>
  The matchmaking lock of several instances (\<open>withLock\<close> of \<open>backend/src/store/RedisStore.ts\<close>): a lease on one key of
  Redis, taken with a token of its own by every caller, renewed while the critical section runs and given back at its
  end. Callers of one process queue first. A command may be carried out although its reply is lost; it is then sent again,
  or its caller fails.
\<close>

section \<open>State\<close>

definition LOCK_TTL_MS :: millis where "LOCK_TTL_MS = 3000"
definition LOCK_HOLD_MAX_MS :: millis where "LOCK_HOLD_MAX_MS = 30000"
definition LOCK_WAIT_MS :: millis where "LOCK_WAIT_MS = 10000"
definition LOCK_BACKOFF_START_MS :: millis where "LOCK_BACKOFF_START_MS = 4"
definition LOCK_BACKOFF_MAX_MS :: millis where "LOCK_BACKOFF_MAX_MS = 50"

record lock_opts =
  lk_ttlMs :: millis
  lk_waitMs :: millis

text \<open>
  Where a caller is: behind the earlier callers of its process (with its deadline); polling (deadline, backoff, and when it
  sends the next \<open>SET NX\<close>); about to read the key after a refusal; inside its section (since when, whether it knows that
  its lease is lost, whether the renewal timer runs); or done, by returning, timing out or a failed command.
\<close>

datatype lock_caller =
  LockQueued millis
| LockPolling millis millis millis
| LockChecking millis millis
| LockInside millis bool bool
| LockReturned
| LockTimedOut
| LockFailed

text \<open>
  \<open>lw_order p\<close> are the calls of process \<open>p\<close> in order; a call is named by its token. \<open>lw_lapse\<close> is history: when the lease
  that Redis last gave to a token lapses, until its holder deletes it.
\<close>

record 'r lock_world =
  lw_now :: millis
  lw_db :: 'r
  lw_order :: "string \<Rightarrow> string list"
  lw_caller :: "string \<Rightarrow> lock_caller option"
  lw_lapse :: "string \<Rightarrow> millis option"

definition at_caller :: "string \<Rightarrow> lock_caller \<Rightarrow> 'r lock_world \<Rightarrow> 'r lock_world" where
  "at_caller tok c w = w\<lparr>lw_caller := (lw_caller w)(tok \<mapsto> c)\<rparr>"

fun lock_finished :: "lock_caller option \<Rightarrow> bool" where
  "lock_finished (Some LockReturned) = True"
| "lock_finished (Some LockTimedOut) = True"
| "lock_finished (Some LockFailed) = True"
| "lock_finished _ = False"

section \<open>The queue of a process\<close>

definition lock_call :: "lock_opts \<Rightarrow> string \<Rightarrow> string \<Rightarrow> 'r lock_world \<Rightarrow> 'r lock_world" where
  "lock_call opts p tok w =
     at_caller tok (LockQueued (lw_now w + lk_waitMs opts)) (w\<lparr>lw_order := (lw_order w)(p := lw_order w p @ [tok])\<rparr>)"

text \<open>The tail a call waits for: every earlier call of the process is done.\<close>

definition tail_done :: "string \<Rightarrow> string \<Rightarrow> 'r lock_world \<Rightarrow> bool" where
  "tail_done p tok w \<longleftrightarrow> list_all (\<lambda>t. lock_finished (lw_caller w t)) (takeWhile (\<lambda>t. t \<noteq> tok) (lw_order w p))"

definition lock_turn :: "string \<Rightarrow> 'r lock_world \<Rightarrow> 'r lock_world" where
  "lock_turn tok w =
     (case lw_caller w tok of
        Some (LockQueued deadline) \<Rightarrow> at_caller tok (LockPolling deadline LOCK_BACKOFF_START_MS (lw_now w)) w
      | _ \<Rightarrow> w)"

definition lock_queue_timeout :: "string \<Rightarrow> 'r lock_world \<Rightarrow> 'r lock_world" where
  "lock_queue_timeout tok w =
     (case lw_caller w tok of
        Some (LockQueued deadline) \<Rightarrow> if lw_now w < deadline then w else at_caller tok LockTimedOut w
      | _ \<Rightarrow> w)"

section \<open>Taking the lease\<close>

text \<open>\<open>SET NX PX\<close> with its effect on the key; the flag says whether its reply arrives.\<close>

definition lock_set :: "'r redis \<Rightarrow> lock_opts \<Rightarrow> bool \<Rightarrow> string \<Rightarrow> 'r lock_world \<Rightarrow> 'r lock_world" where
  "lock_set R opts replies tok w =
     (case lw_caller w tok of
        Some (LockPolling deadline backoff wake) \<Rightarrow>
          if lw_now w < wake then w
          else
            let (db, taken') = set_nx_px R KLock (TextValue tok) (lk_ttlMs opts) (lw_now w) (lw_db w);
                w1 = w\<lparr>lw_db := db, lw_lapse := (if taken' then (lw_lapse w)(tok \<mapsto> lw_now w + lk_ttlMs opts) else lw_lapse w)\<rparr> in
            if \<not> replies then w1
            else if taken' then at_caller tok (LockInside (lw_now w) False True) w1
            else at_caller tok (LockChecking deadline backoff) w1
      | _ \<Rightarrow> w)"

text \<open>After a refusal: perhaps an earlier \<open>SET\<close> whose reply was lost took the lock.\<close>

definition lock_check :: "'r redis \<Rightarrow> millis \<Rightarrow> string \<Rightarrow> 'r lock_world \<Rightarrow> 'r lock_world" where
  "lock_check R pause tok w =
     (case lw_caller w tok of
        Some (LockChecking deadline backoff) \<Rightarrow>
          if rd_get R (lw_now w) KLock (lw_db w) = Some (TextValue tok) then at_caller tok (LockInside (lw_now w) False True) w
          else if deadline \<le> lw_now w then at_caller tok LockTimedOut w
          else at_caller tok (LockPolling deadline (min (backoff * 2) LOCK_BACKOFF_MAX_MS) (lw_now w + pause)) w
      | _ \<Rightarrow> w)"

text \<open>Equal jitter: between half the backoff and the backoff.\<close>

definition lock_pause_ok :: "millis \<Rightarrow> string \<Rightarrow> 'r lock_world \<Rightarrow> bool" where
  "lock_pause_ok pause tok w \<longleftrightarrow>
     (case lw_caller w tok of
        Some (LockChecking deadline backoff) \<Rightarrow> backoff \<le> 2 * pause \<and> pause \<le> backoff
      | _ \<Rightarrow> False)"

definition lock_command_fails :: "string \<Rightarrow> 'r lock_world \<Rightarrow> 'r lock_world" where
  "lock_command_fails tok w =
     (case lw_caller w tok of
        Some (LockPolling deadline backoff wake) \<Rightarrow> at_caller tok LockFailed w
      | Some (LockChecking deadline backoff) \<Rightarrow> at_caller tok LockFailed w
      | _ \<Rightarrow> w)"

section \<open>Keeping and giving back the lease\<close>

definition lock_renew :: "'r redis \<Rightarrow> lock_opts \<Rightarrow> bool \<Rightarrow> string \<Rightarrow> 'r lock_world \<Rightarrow> 'r lock_world" where
  "lock_renew R opts replies tok w =
     (case lw_caller w tok of
        Some (LockInside started lost True) \<Rightarrow>
          if LOCK_HOLD_MAX_MS \<le> lw_now w - started then at_caller tok (LockInside started lost False) w
          else
            let (db, extended) = pexpireIfEqual R KLock (TextValue tok) (lk_ttlMs opts) (lw_now w) (lw_db w);
                w1 = w\<lparr>lw_db := db, lw_lapse := (if extended then (lw_lapse w)(tok \<mapsto> lw_now w + lk_ttlMs opts) else lw_lapse w)\<rparr> in
            if \<not> replies \<or> extended then w1 else at_caller tok (LockInside started True False) w1
      | _ \<Rightarrow> w)"

text \<open>The end of the section. A caller that knows of the loss sends nothing; a failed command leaves the key to lapse.\<close>

definition lock_release :: "'r redis \<Rightarrow> bool \<Rightarrow> string \<Rightarrow> 'r lock_world \<Rightarrow> 'r lock_world" where
  "lock_release R reaches tok w =
     (case lw_caller w tok of
        Some (LockInside started lost renewing) \<Rightarrow>
          if lost \<or> \<not> reaches then at_caller tok LockReturned w
          else
            let (db, gone) = delIfEqual R KLock (TextValue tok) (lw_now w) (lw_db w) in
            at_caller tok LockReturned
              (w\<lparr>lw_db := db, lw_lapse := (if gone then (lw_lapse w)(tok := None) else lw_lapse w)\<rparr>)
      | _ \<Rightarrow> w)"

definition lock_tick :: "millis \<Rightarrow> 'r lock_world \<Rightarrow> 'r lock_world" where
  "lock_tick d w = w\<lparr>lw_now := lw_now w + d\<rparr>"

section \<open>Runs\<close>

text \<open>A token is drawn anew: no call has it and the key does not hold it.\<close>

definition token_new :: "'r redis \<Rightarrow> string \<Rightarrow> 'r lock_world \<Rightarrow> bool" where
  "token_new R tok w \<longleftrightarrow> lw_caller w tok = None \<and> rd_get R (lw_now w) KLock (lw_db w) \<noteq> Some (TextValue tok)"

definition lock_start :: "'r redis \<Rightarrow> millis \<Rightarrow> 'r \<Rightarrow> 'r lock_world" where
  "lock_start R now db =
     \<lparr>lw_now = now, lw_db = db, lw_order = (\<lambda>_. []), lw_caller = Map.empty, lw_lapse = Map.empty\<rparr>"

inductive lock_step :: "'r redis \<Rightarrow> lock_opts \<Rightarrow> 'r lock_world \<Rightarrow> 'r lock_world \<Rightarrow> bool" for R opts where
  step_tick: "0 \<le> d \<Longrightarrow> lock_step R opts w (lock_tick d w)"
| step_call: "token_new R tok w \<Longrightarrow> lock_step R opts w (lock_call opts p tok w)"
| step_turn: "tok \<in> set (lw_order w p) \<Longrightarrow> tail_done p tok w \<Longrightarrow> lock_step R opts w (lock_turn tok w)"
| step_queue_timeout: "lock_step R opts w (lock_queue_timeout tok w)"
| step_set: "lock_step R opts w (lock_set R opts replies tok w)"
| step_check: "lock_pause_ok pause tok w \<Longrightarrow> lock_step R opts w (lock_check R pause tok w)"
| step_command_fails: "lock_step R opts w (lock_command_fails tok w)"
| step_renew: "lock_step R opts w (lock_renew R opts replies tok w)"
| step_release: "lock_step R opts w (lock_release R reaches tok w)"

inductive lock_reach :: "'r redis \<Rightarrow> lock_opts \<Rightarrow> 'r lock_world \<Rightarrow> bool" for R opts where
  reach_start: "lock_reach R opts (lock_start R now db)"
| reach_step: "lock_reach R opts w \<Longrightarrow> lock_step R opts w w' \<Longrightarrow> lock_reach R opts w'"

section \<open>What Redis does to the key\<close>

lemma redis_keeps: "redis_ok R \<Longrightarrow> now \<le> t \<Longrightarrow> rd_at R t r k = None \<or> rd_at R t r k = rd_at R now r k"
  by (simp add: redis_ok_def)

lemma redis_set:
  "redis_ok R \<Longrightarrow> now \<le> t \<Longrightarrow>
   rd_at R t (rd_set R k v lapse now r) j = (if j \<noteq> k then rd_at R t r j else if over lapse t then None else Some (RText v))"
  by (simp add: redis_ok_def)

lemma redis_pexpire:
  "redis_ok R \<Longrightarrow> now \<le> t \<Longrightarrow>
   rd_at R t (rd_pexpire R k ttl now r) j = (if j \<noteq> k then rd_at R t r j else if now + ttl \<le> t then None else rd_at R now r k)"
  by (simp add: redis_ok_def)

lemma redis_del: "redis_ok R \<Longrightarrow> now \<le> t \<Longrightarrow> rd_at R t (rd_del R k now r) j = (if j \<noteq> k then rd_at R t r j else None)"
  by (simp add: redis_ok_def edits_def)

lemma rd_get_iff: "rd_get R now k r = Some v \<longleftrightarrow> rd_at R now r k = Some (RText v)"
  by (auto simp: rd_get_def split: option.splits rentry.splits)

section \<open>The lease\<close>

text \<open>
  A lease that has not lapsed is the value of the key until just then; the key holds a caller's token only during its
  lease; and whoever is inside was given a lease.
\<close>

definition lease_ok :: "'r redis \<Rightarrow> 'r lock_world \<Rightarrow> bool" where
  "lease_ok R w \<longleftrightarrow>
     (\<forall>tok u. lw_lapse w tok = Some u \<longrightarrow> lw_now w < u \<longrightarrow>
        (\<forall>t \<ge> lw_now w. rd_at R t (lw_db w) KLock = (if u \<le> t then None else Some (RText (TextValue tok)))))
   \<and> (\<forall>tok. rd_at R (lw_now w) (lw_db w) KLock = Some (RText (TextValue tok)) \<longrightarrow> lw_caller w tok \<noteq> None \<longrightarrow>
        (\<exists>u. lw_lapse w tok = Some u \<and> lw_now w < u))
   \<and> (\<forall>tok. lw_caller w tok = None \<longrightarrow> lw_lapse w tok = None)
   \<and> (\<forall>tok a b c. lw_caller w tok = Some (LockInside a b c) \<longrightarrow> lw_lapse w tok \<noteq> None)"

lemma lease_okD:
  assumes "lease_ok R w"
  shows "lw_lapse w tok = Some u \<Longrightarrow> lw_now w < u \<Longrightarrow> lw_now w \<le> t \<Longrightarrow>
      rd_at R t (lw_db w) KLock = (if u \<le> t then None else Some (RText (TextValue tok)))"
    and "rd_at R (lw_now w) (lw_db w) KLock = Some (RText (TextValue tok)) \<Longrightarrow> lw_caller w tok \<noteq> None \<Longrightarrow>
      \<exists>u. lw_lapse w tok = Some u \<and> lw_now w < u"
    and "lw_caller w tok = None \<Longrightarrow> lw_lapse w tok = None"
    and "lw_caller w tok = Some (LockInside a b c) \<Longrightarrow> \<exists>u. lw_lapse w tok = Some u"
  using assms unfolding lease_ok_def by blast+

lemma one_lease:
  assumes "lease_ok R w" "lw_lapse w a = Some u" "lw_now w < u" "lw_lapse w b = Some v" "lw_now w < v"
  shows "a = b"
  using lease_okD(1) [OF assms(1-3), of "lw_now w"] lease_okD(1) [OF assms(1,4,5), of "lw_now w"] assms(3,5) by simp

text \<open>Moving a caller without touching the key.\<close>

lemma lease_ok_at_caller:
  assumes "lease_ok R w" "lw_caller w tok \<noteq> None" "\<And>a b d. c = LockInside a b d \<Longrightarrow> lw_lapse w tok \<noteq> None"
  shows "lease_ok R (at_caller tok c w)"
  using assms unfolding lease_ok_def at_caller_def by auto

lemma lease_ok_idle:
  "lease_ok R w \<Longrightarrow> lw_caller w tok \<noteq> None \<Longrightarrow> \<forall>a b d. c \<noteq> LockInside a b d \<Longrightarrow> lease_ok R (at_caller tok c w)"
  by (rule lease_ok_at_caller) auto

text \<open>A lease given to a token whose key was free, or extended by its holder.\<close>

lemma lease_ok_given:
  assumes "lease_ok R w" "lw_caller w tok \<noteq> None"
    and key: "\<And>t. lw_now w \<le> t \<Longrightarrow> rd_at R t db KLock = (if u \<le> t then None else Some (RText (TextValue tok)))"
    and others: "\<And>b v. b \<noteq> tok \<Longrightarrow> lw_lapse w b = Some v \<Longrightarrow> v \<le> lw_now w"
  shows "lease_ok R (w\<lparr>lw_db := db, lw_lapse := (lw_lapse w)(tok \<mapsto> u)\<rparr>)"
  using assms(1,2) key key [of "lw_now w"] others unfolding lease_ok_def by (fastforce split: if_splits)

lemma others_lapsed:
  assumes "lease_ok R w" "rd_at R (lw_now w) (lw_db w) KLock \<in> {None, Some (RText (TextValue tok))}" "b \<noteq> tok" "lw_lapse w b = Some v"
  shows "v \<le> lw_now w"
proof (rule ccontr)
  assume "\<not> v \<le> lw_now w"
  then have "lw_now w < v" by simp
  then show False using lease_okD(1) [OF assms(1,4), of "lw_now w"] assms(2,3) by auto
qed

lemma lease_ok_tick: "redis_ok R \<Longrightarrow> lease_ok R w \<Longrightarrow> 0 \<le> d \<Longrightarrow> lease_ok R (lock_tick d w)"
proof -
  assume R: "redis_ok R" and ok: "lease_ok R w" and d: "0 \<le> d"
  have held: "\<exists>u. lw_lapse w tok = Some u \<and> lw_now w + d < u"
    if now: "rd_at R (lw_now w + d) (lw_db w) KLock = Some (RText (TextValue tok))" and c: "lw_caller w tok \<noteq> None" for tok
  proof -
    have "rd_at R (lw_now w) (lw_db w) KLock = Some (RText (TextValue tok))"
      using redis_keeps [OF R, of "lw_now w" "lw_now w + d" "lw_db w" KLock] d now by simp
    from lease_okD(2) [OF ok this c] obtain u where u: "lw_lapse w tok = Some u" "lw_now w < u" by blast
    then show ?thesis using lease_okD(1) [OF ok u, of "lw_now w + d"] d now by (auto split: if_splits)
  qed
  have kept: "rd_at R t (lw_db w) KLock = (if u \<le> t then None else Some (RText (TextValue tok)))"
    if "lw_lapse w tok = Some u" "lw_now w + d < u" "lw_now w + d \<le> t" for tok u t
    using lease_okD(1) [OF ok that(1), of t] that d by simp
  show ?thesis
    using held kept lease_okD(3,4) [OF ok] unfolding lease_ok_def lock_tick_def by simp
qed

lemma lease_ok_call: "lease_ok R w \<Longrightarrow> token_new R tok w \<Longrightarrow> lease_ok R (lock_call opts p tok w)"
  unfolding lease_ok_def lock_call_def at_caller_def token_new_def rd_get_iff by (auto split: if_splits)

lemma lease_ok_set:
  assumes R: "redis_ok R" and ok: "lease_ok R w"
  shows "lease_ok R (lock_set R opts replies tok w)"
proof -
  have "lease_ok R (lock_set R opts replies tok w)"
    if c: "lw_caller w tok = Some (LockPolling deadline backoff wake)" "\<not> lw_now w < wake" for deadline backoff wake
  proof (cases "rd_exists R (lw_now w) KLock (lw_db w)")
    case True
    then show ?thesis using c lease_ok_idle [OF ok, of tok "LockChecking deadline backoff"] ok by (simp add: lock_set_def set_nx_px_def)
  next
    case False
    let ?u = "lw_now w + lk_ttlMs opts"
    let ?w = "w\<lparr>lw_db := rd_set R KLock (TextValue tok) (Some ?u) (lw_now w) (lw_db w), lw_lapse := (lw_lapse w)(tok \<mapsto> ?u)\<rparr>"
    have "lease_ok R ?w"
    proof (rule lease_ok_given [OF ok])
      show "lw_caller w tok \<noteq> None" using c by simp
      show "rd_at R t (rd_set R KLock (TextValue tok) (Some ?u) (lw_now w) (lw_db w)) KLock
        = (if ?u \<le> t then None else Some (RText (TextValue tok)))" if "lw_now w \<le> t" for t
        using redis_set [OF R that] by (simp add: over_def)
      show "v \<le> lw_now w" if "b \<noteq> tok" "lw_lapse w b = Some v" for b v
        using others_lapsed [OF ok _ that] False by (simp add: rd_exists_def)
    qed
    moreover from this have "lease_ok R (at_caller tok (LockInside (lw_now w) False True) ?w)"
      by (rule lease_ok_at_caller) (use c in auto)
    ultimately show ?thesis using c False by (simp add: lock_set_def set_nx_px_def Let_def)
  qed
  then show ?thesis using ok by (auto simp: lock_set_def split: option.splits lock_caller.splits if_splits)
qed

lemma lease_ok_check:
  assumes ok: "lease_ok R w"
  shows "lease_ok R (lock_check R pause tok w)"
proof -
  have "lw_lapse w tok \<noteq> None" if "rd_get R (lw_now w) KLock (lw_db w) = Some (TextValue tok)" "lw_caller w tok \<noteq> None"
    using lease_okD(2) [OF ok] that by (auto simp: rd_get_iff)
  then show ?thesis
    using lease_ok_at_caller [OF ok, of tok] ok by (auto simp: lock_check_def split: option.splits lock_caller.splits)
qed

lemma lease_ok_renew:
  assumes R: "redis_ok R" and ok: "lease_ok R w"
  shows "lease_ok R (lock_renew R opts replies tok w)"
proof -
  have inside: "lease_ok R (at_caller tok (LockInside a' b' c') w)" if "lw_caller w tok = Some (LockInside a b c)" for a b c a' b' c'
    using lease_ok_at_caller [OF ok, of tok] lease_okD(4) [OF ok that] that by auto
  have "lease_ok R (lock_renew R opts replies tok w)"
    if c: "lw_caller w tok = Some (LockInside started lost True)" "\<not> LOCK_HOLD_MAX_MS \<le> lw_now w - started" for started lost
  proof (cases "rd_get R (lw_now w) KLock (lw_db w) = Some (TextValue tok)")
    case False
    then show ?thesis using c inside [OF c(1)] ok by (simp add: lock_renew_def pexpireIfEqual_def)
  next
    case True
    let ?u = "lw_now w + lk_ttlMs opts"
    have key: "rd_at R (lw_now w) (lw_db w) KLock = Some (RText (TextValue tok))" using True by (simp add: rd_get_iff)
    have "lease_ok R (w\<lparr>lw_db := rd_pexpire R KLock (lk_ttlMs opts) (lw_now w) (lw_db w), lw_lapse := (lw_lapse w)(tok \<mapsto> ?u)\<rparr>)"
    proof (rule lease_ok_given [OF ok])
      show "lw_caller w tok \<noteq> None" using c by simp
      show "rd_at R t (rd_pexpire R KLock (lk_ttlMs opts) (lw_now w) (lw_db w)) KLock
        = (if ?u \<le> t then None else Some (RText (TextValue tok)))" if "lw_now w \<le> t" for t
        using redis_pexpire [OF R that] key by simp
      show "v \<le> lw_now w" if "b \<noteq> tok" "lw_lapse w b = Some v" for b v
        using others_lapsed [OF ok _ that] key by simp
    qed
    then show ?thesis using c True by (simp add: lock_renew_def pexpireIfEqual_def)
  qed
  then show ?thesis
    using ok inside by (auto simp: lock_renew_def split: option.splits lock_caller.splits bool.splits)
qed

lemma lease_ok_release:
  assumes R: "redis_ok R" and ok: "lease_ok R w"
  shows "lease_ok R (lock_release R reaches tok w)"
proof -
  have done_ok: "lease_ok R (at_caller tok LockReturned w)" if "lw_caller w tok \<noteq> None"
    using lease_ok_idle [OF ok that] by simp
  have "lease_ok R (lock_release R reaches tok w)"
    if c: "lw_caller w tok = Some (LockInside started lost renewing)" "\<not> lost" "reaches" for started lost renewing
  proof (cases "rd_get R (lw_now w) KLock (lw_db w) = Some (TextValue tok)")
    case False
    then show ?thesis using c done_ok by (simp add: lock_release_def delIfEqual_def)
  next
    case True
    then have key: "rd_at R (lw_now w) (lw_db w) KLock = Some (RText (TextValue tok))" by (simp add: rd_get_iff)
    have "v \<le> lw_now w" if "b \<noteq> tok" "lw_lapse w b = Some v" for b v
      using others_lapsed [OF ok _ that] key by simp
    moreover have "rd_at R t (rd_del R KLock (lw_now w) (lw_db w)) KLock = None" if "lw_now w \<le> t" for t
      using redis_del [OF R that] by simp
    ultimately have "lease_ok R (at_caller tok LockReturned
        (w\<lparr>lw_db := rd_del R KLock (lw_now w) (lw_db w), lw_lapse := (lw_lapse w)(tok := None)\<rparr>))"
      using lease_okD(3,4) [OF ok] unfolding lease_ok_def at_caller_def by (fastforce split: if_splits)
    then show ?thesis using c True by (simp add: lock_release_def delIfEqual_def)
  qed
  then show ?thesis using ok done_ok by (auto simp: lock_release_def split: option.splits lock_caller.splits)
qed

lemma lease_ok_waits:
  assumes "lease_ok R w"
  shows "lease_ok R (lock_turn tok w)" "lease_ok R (lock_queue_timeout tok w)" "lease_ok R (lock_command_fails tok w)"
  using assms lease_ok_idle [OF assms]
  by (auto simp: lock_turn_def lock_queue_timeout_def lock_command_fails_def split: option.splits lock_caller.splits)

lemma lease_ok_step: "lock_step R opts w w' \<Longrightarrow> redis_ok R \<Longrightarrow> lease_ok R w \<Longrightarrow> lease_ok R w'"
  by (cases rule: lock_step.cases)
    (auto simp: lease_ok_tick lease_ok_call lease_ok_set lease_ok_check lease_ok_renew lease_ok_release lease_ok_waits)

lemma lease_ok_reach: "lock_reach R opts w \<Longrightarrow> redis_ok R \<Longrightarrow> lease_ok R w"
proof (induction rule: lock_reach.induct)
  case (reach_start now db)
  then show ?case by (simp add: lease_ok_def lock_start_def)
next
  case (reach_step w w')
  then show ?case by (simp add: lease_ok_step)
qed

section \<open>One caller of a process at a time\<close>

text \<open>Whoever has left the queue of its process and is not done comes after callers that are all done.\<close>

fun lock_queued :: "lock_caller option \<Rightarrow> bool" where
  "lock_queued (Some (LockQueued d)) = True"
| "lock_queued _ = False"

definition lock_busy :: "lock_caller option \<Rightarrow> bool" where
  "lock_busy c \<longleftrightarrow> \<not> lock_queued c \<and> \<not> lock_finished c"

definition tail_ok :: "'r lock_world \<Rightarrow> bool" where
  "tail_ok w \<longleftrightarrow>
     (\<forall>p. distinct (lw_order w p))
   \<and> (\<forall>p q t. t \<in> set (lw_order w p) \<longrightarrow> t \<in> set (lw_order w q) \<longrightarrow> p = q)
   \<and> (\<forall>p t. t \<in> set (lw_order w p) \<longrightarrow> lw_caller w t \<noteq> None)
   \<and> (\<forall>p i j. i < j \<longrightarrow> j < length (lw_order w p) \<longrightarrow> lock_busy (lw_caller w (lw_order w p ! j)) \<longrightarrow>
        lock_finished (lw_caller w (lw_order w p ! i)))"

lemma tail_okD:
  assumes "tail_ok w"
  shows "distinct (lw_order w p)"
    and "t \<in> set (lw_order w p) \<Longrightarrow> t \<in> set (lw_order w q) \<Longrightarrow> p = q"
    and "t \<in> set (lw_order w p) \<Longrightarrow> lw_caller w t \<noteq> None"
    and "i < j \<Longrightarrow> j < length (lw_order w p) \<Longrightarrow> lock_busy (lw_caller w (lw_order w p ! j)) \<Longrightarrow>
      lock_finished (lw_caller w (lw_order w p ! i))"
  using assms unfolding tail_ok_def by blast+

text \<open>A move of a caller that neither leaves the queue nor forgets that it is done.\<close>

lemma tail_ok_move:
  assumes "tail_ok w" "lw_order w' = lw_order w"
    "\<And>t. lw_caller w t \<noteq> None \<Longrightarrow> lw_caller w' t \<noteq> None"
    "\<And>t. lock_finished (lw_caller w t) \<Longrightarrow> lock_finished (lw_caller w' t)"
    "\<And>t. lw_caller w t \<noteq> None \<Longrightarrow> lock_busy (lw_caller w' t) \<Longrightarrow> lock_busy (lw_caller w t)"
  shows "tail_ok w'"
proof -
  have "lock_finished (lw_caller w' (lw_order w p ! i))"
    if "i < j" "j < length (lw_order w p)" "lock_busy (lw_caller w' (lw_order w p ! j))" for p i j
  proof -
    have "lw_caller w (lw_order w p ! j) \<noteq> None" using tail_okD(3) [OF assms(1)] nth_mem [OF that(2)] by blast
    then have "lock_busy (lw_caller w (lw_order w p ! j))" by (rule assms(5) [OF _ that(3)])
    then show ?thesis by (rule assms(4) [OF tail_okD(4) [OF assms(1) that(1,2)]])
  qed
  moreover have "p = q" if "t \<in> set (lw_order w p)" "t \<in> set (lw_order w q)" for p q t using tail_okD(2) [OF assms(1) that] .
  moreover have "lw_caller w' t \<noteq> None" if "t \<in> set (lw_order w p)" for p t using assms(3) [OF tail_okD(3) [OF assms(1) that]] .
  ultimately show ?thesis unfolding tail_ok_def assms(2) using tail_okD(1) [OF assms(1)] by (intro conjI allI impI) blast+
qed

lemma tail_ok_turn:
  assumes ok: "tail_ok w" and tok: "tok \<in> set (lw_order w p)" "tail_done p tok w"
  shows "tail_ok (lock_turn tok w)"
proof -
  consider (other) "lock_turn tok w = w" | (turn) d where "lw_caller w tok = Some (LockQueued d)"
    by (cases "\<exists>d. lw_caller w tok = Some (LockQueued d)") (auto simp: lock_turn_def split: option.splits lock_caller.splits)
  then show ?thesis
  proof cases
    case (turn d)
    let ?w = "lock_turn tok w"
    have c: "lw_caller ?w = (lw_caller w)(tok \<mapsto> LockPolling d LOCK_BACKOFF_START_MS (lw_now w))" and o: "lw_order ?w = lw_order w"
      using turn by (simp_all add: lock_turn_def at_caller_def)
    have "lock_finished (lw_caller ?w (lw_order w q ! i))"
      if ij: "i < j" "j < length (lw_order w q)" "lock_busy (lw_caller ?w (lw_order w q ! j))" for q i j
    proof (cases "lw_order w q ! j = tok")
      case True
      have q: "q = p" using tail_okD(2) [OF ok _ tok(1)] True ij(2) nth_mem by blast
      have before: "lw_order w p ! k \<noteq> tok" if "k < j" for k
        using tail_okD(1) [OF ok, of p] True ij(2) q that nth_eq_iff_index_eq [of "lw_order w p" k j] by auto
      have "takeWhile (\<lambda>t. t \<noteq> tok) (lw_order w p) = take j (lw_order w p)"
        using takeWhile_eq_take_P_nth [of j "lw_order w p" "\<lambda>t. t \<noteq> tok"] before True ij(2) q by auto
      then have "lw_order w p ! i \<in> set (takeWhile (\<lambda>t. t \<noteq> tok) (lw_order w p))"
        using ij q by (auto simp: in_set_conv_nth)
      then have "lock_finished (lw_caller w (lw_order w p ! i))" using tok(2) unfolding tail_done_def list_all_iff by blast
      then show ?thesis using c before [OF ij(1)] q by simp
    next
      case False
      then have "lock_finished (lw_caller w (lw_order w q ! i))" using tail_okD(4) [OF ok ij(1,2)] ij(3) c by simp
      moreover from this have "lw_order w q ! i \<noteq> tok" using turn by auto
      ultimately show ?thesis using c by simp
    qed
    then show ?thesis using tail_okD(1-3) [OF ok] c o unfolding tail_ok_def by (metis fun_upd_other fun_upd_same option.distinct(1))
  qed (use ok in simp)
qed

lemma tail_ok_call:
  assumes ok: "tail_ok w" and new: "token_new R tok w"
  shows "tail_ok (lock_call opts p tok w)"
proof -
  let ?w = "lock_call opts p tok w"
  have fresh: "tok \<notin> set (lw_order w q)" for q using tail_okD(3) [OF ok, of tok q] new by (auto simp: token_new_def)
  have c: "lw_caller ?w = (lw_caller w)(tok \<mapsto> LockQueued (lw_now w + lk_waitMs opts))"
    and o: "lw_order ?w = (lw_order w)(p := lw_order w p @ [tok])"
    by (simp_all add: lock_call_def at_caller_def)
  have "lock_finished (lw_caller ?w (lw_order ?w q ! i))"
    if ij: "i < j" "j < length (lw_order ?w q)" "lock_busy (lw_caller ?w (lw_order ?w q ! j))" for q i j
  proof -
    have j: "j < length (lw_order w q)" "lw_order ?w q ! j = lw_order w q ! j" "lw_order ?w q ! i = lw_order w q ! i"
      using ij c o by (auto simp: lock_busy_def nth_append split: if_splits)
    then have "lw_order w q ! j \<noteq> tok" "lw_order w q ! i \<noteq> tok" using fresh [of q] ij(1) nth_mem by (metis less_trans)+
    then show ?thesis using tail_okD(4) [OF ok ij(1) j(1)] ij(3) j c by simp
  qed
  then show ?thesis
    using tail_okD(1-3) [OF ok] fresh c o unfolding tail_ok_def by (auto split: if_splits)
qed

lemma tail_ok_same: "tail_ok w \<Longrightarrow> lw_order w' = lw_order w \<Longrightarrow> lw_caller w' = lw_caller w \<Longrightarrow> tail_ok w'"
  by (simp add: tail_ok_def)

text \<open>What a call to Redis or a timeout does to the callers: nothing, or it moves one that is past the queue, or ends one.\<close>

definition moves :: "'r lock_world \<Rightarrow> string \<Rightarrow> 'r lock_world \<Rightarrow> bool" where
  "moves w tok w' \<longleftrightarrow> lw_order w' = lw_order w \<and> (\<forall>t. t \<noteq> tok \<longrightarrow> lw_caller w' t = lw_caller w t)
     \<and> (lw_caller w' tok = lw_caller w tok
        \<or> lw_caller w tok \<noteq> None \<and> \<not> lock_finished (lw_caller w tok) \<and> lw_caller w' tok \<noteq> None
          \<and> (lock_busy (lw_caller w tok) \<or> lock_finished (lw_caller w' tok)))"

lemma tail_ok_moves:
  assumes "tail_ok w" "moves w tok w'"
  shows "tail_ok w'"
proof (rule tail_ok_move [OF assms(1)])
  note m = assms(2) [unfolded moves_def]
  show "lw_order w' = lw_order w" using m by simp
  show "lw_caller w' t \<noteq> None" if "lw_caller w t \<noteq> None" for t using m that by (cases "t = tok") auto
  show "lock_finished (lw_caller w' t)" if "lock_finished (lw_caller w t)" for t using m that by (cases "t = tok") auto
  show "lock_busy (lw_caller w t)" if "lw_caller w t \<noteq> None" "lock_busy (lw_caller w' t)" for t
    using m that by (cases "t = tok") (auto simp: lock_busy_def)
qed

lemma ops_move:
  "moves w tok (lock_queue_timeout tok w)"
  "moves w tok (lock_set R opts replies tok w)"
  "moves w tok (lock_check R pause tok w)"
  "moves w tok (lock_command_fails tok w)"
  "moves w tok (lock_renew R opts replies tok w)"
  "moves w tok (lock_release R reaches tok w)"
  unfolding moves_def lock_queue_timeout_def lock_set_def lock_check_def lock_command_fails_def lock_renew_def lock_release_def
  by (auto simp: at_caller_def lock_busy_def Let_def split: option.splits lock_caller.splits prod.splits bool.splits)

lemma tail_ok_step: "lock_step R opts w w' \<Longrightarrow> tail_ok w \<Longrightarrow> tail_ok w'"
  by (cases rule: lock_step.cases)
    (auto simp: tail_ok_call tail_ok_turn lock_tick_def intro: tail_ok_moves [OF _ ops_move(1)] tail_ok_moves [OF _ ops_move(2)]
      tail_ok_moves [OF _ ops_move(3)] tail_ok_moves [OF _ ops_move(4)] tail_ok_moves [OF _ ops_move(5)]
      tail_ok_moves [OF _ ops_move(6)] tail_ok_same)

lemma tail_ok_reach: "lock_reach R opts w \<Longrightarrow> tail_ok w"
proof (induction rule: lock_reach.induct)
  case (reach_start now db)
  then show ?case by (simp add: tail_ok_def lock_start_def)
next
  case (reach_step w w')
  then show ?case by (simp add: tail_ok_step)
qed

section \<open>Mutual exclusion\<close>

definition has_lease :: "'r lock_world \<Rightarrow> string \<Rightarrow> bool" where
  "has_lease w tok \<longleftrightarrow> (case lw_lapse w tok of None \<Rightarrow> False | Some u \<Rightarrow> lw_now w < u)"

text \<open>
  C15: the lock of several instances. However calls, clock, Redis, lost replies and failing commands are interleaved, no two
  callers have a lease at once, so of two callers inside the section one has outlived the lease it was given (or the longest
  it asked for by renewing), which only a section longer than the renewals can do. A lease is never cut short nor extended by
  another caller: the key is the holder's until the lease lapses. And in each process at most one caller has left the queue
  of the process and is not done, so only that one polls Redis.
\<close>

theorem lock_excludes:
  assumes "redis_ok R" "lock_reach R opts w"
  shows "(\<forall>a b. has_lease w a \<and> has_lease w b \<longrightarrow> a = b)
    \<and> (\<forall>a started lost renewing. lw_caller w a = Some (LockInside started lost renewing) \<longrightarrow> lw_lapse w a \<noteq> None)
    \<and> (\<forall>a u t. lw_lapse w a = Some u \<and> lw_now w \<le> t \<and> t < u \<longrightarrow> rd_get R t KLock (lw_db w) = Some (TextValue a))
    \<and> (\<forall>p a b. a \<in> set (lw_order w p) \<and> b \<in> set (lw_order w p) \<and> lock_busy (lw_caller w a) \<and> lock_busy (lw_caller w b) \<longrightarrow> a = b)"
proof (intro conjI allI impI)
  note ok = lease_ok_reach [OF assms(2,1)] and tail = tail_ok_reach [OF assms(2)]
  show "a = b" if "has_lease w a \<and> has_lease w b" for a b
    using one_lease [OF ok] that by (auto simp: has_lease_def split: option.splits)
  show "lw_lapse w a \<noteq> None" if "lw_caller w a = Some (LockInside started lost renewing)" for a started lost renewing
    using lease_okD(4) [OF ok that] by simp
  show "rd_get R t KLock (lw_db w) = Some (TextValue a)" if "lw_lapse w a = Some u \<and> lw_now w \<le> t \<and> t < u" for a u t
    using lease_okD(1) [OF ok, of a u t] that by (simp add: rd_get_iff)
  show "a = b" if ab: "a \<in> set (lw_order w p) \<and> b \<in> set (lw_order w p) \<and> lock_busy (lw_caller w a) \<and> lock_busy (lw_caller w b)" for p a b
  proof -
    obtain i j where ij: "i < length (lw_order w p)" "lw_order w p ! i = a" "j < length (lw_order w p)" "lw_order w p ! j = b"
      using ab by (auto simp: in_set_conv_nth)
    have "\<not> i < j" "\<not> j < i"
      using tail_okD(4) [OF tail, of i j p] tail_okD(4) [OF tail, of j i p] ij ab by (auto simp: lock_busy_def)
    then show ?thesis using ij by (simp add: linorder_neq_iff [symmetric])
  qed
qed

text \<open>Two processes: the first takes the lease, the second is refused.\<close>

definition sample_opts :: lock_opts where
  "sample_opts = \<lparr>lk_ttlMs = LOCK_TTL_MS, lk_waitMs = LOCK_WAIT_MS\<rparr>"

definition sample_first :: "table lock_world" where
  "sample_first = lock_set table_redis sample_opts True ''a''
     (lock_turn ''a'' (lock_call sample_opts ''p'' ''a'' (lock_start table_redis 0 Map.empty)))"

definition sample_second :: "table lock_world" where
  "sample_second = lock_set table_redis sample_opts True ''b'' (lock_turn ''b'' (lock_call sample_opts ''q'' ''b'' sample_first))"

lemmas sample_lock_defs = sample_opts_def sample_first_def sample_second_def lock_start_def lock_call_def lock_turn_def lock_set_def
  set_nx_px_def at_caller_def table_redis_def tb_at_def rd_exists_def rd_get_def over_def LOCK_TTL_MS_def LOCK_WAIT_MS_def
  LOCK_BACKOFF_START_MS_def

lemma sample_reach: "lock_reach table_redis sample_opts sample_second"
  unfolding sample_second_def
proof (intro reach_step [OF _ step_set] reach_step [OF _ step_turn] reach_step [OF _ step_call])
  show "lock_reach table_redis sample_opts sample_first"
    unfolding sample_first_def
  proof (intro reach_step [OF _ step_set] reach_step [OF _ step_turn] reach_step [OF _ step_call] reach_start)
    show "token_new table_redis ''a'' (lock_start table_redis 0 Map.empty)" by (simp add: token_new_def sample_lock_defs)
    show "''a'' \<in> set (lw_order (lock_call sample_opts ''p'' ''a'' (lock_start table_redis 0 Map.empty)) ''p'')"
      "tail_done ''p'' ''a'' (lock_call sample_opts ''p'' ''a'' (lock_start table_redis 0 Map.empty))"
      by (simp_all add: tail_done_def sample_lock_defs)
  qed
  show "token_new table_redis ''b'' sample_first" by (simp add: token_new_def sample_lock_defs)
  show "''b'' \<in> set (lw_order (lock_call sample_opts ''q'' ''b'' sample_first) ''q'')"
    "tail_done ''q'' ''b'' (lock_call sample_opts ''q'' ''b'' sample_first)"
    by (simp_all add: tail_done_def sample_lock_defs)
qed

theorem lock_excludes_witness:
  "rd_get table_redis 2999 KLock (lw_db sample_second) = Some (TextValue ''a'')
   \<and> lw_caller sample_second ''a'' = Some (LockInside 0 False True) \<and> lw_caller sample_second ''b'' = Some (LockChecking 10000 4)"
proof -
  have "lw_lapse sample_second ''a'' = Some 3000" "lw_now sample_second = 0" by (simp_all add: sample_lock_defs)
  note own = this
  have "\<forall>a u t. lw_lapse sample_second a = Some u \<and> lw_now sample_second \<le> t \<and> t < u \<longrightarrow>
      rd_get table_redis t KLock (lw_db sample_second) = Some (TextValue a)"
    using lock_excludes [OF table_redis_ok sample_reach] by (elim conjE) assumption
  from this [rule_format, of "''a''" 3000 2999] have "rd_get table_redis 2999 KLock (lw_db sample_second) = Some (TextValue ''a'')"
    using own by simp
  moreover have "lw_caller sample_second ''a'' = Some (LockInside 0 False True)" "lw_caller sample_second ''b'' = Some (LockChecking 10000 4)"
    by (simp_all add: sample_lock_defs)
  ultimately show ?thesis by blast
qed

text \<open>A section whose renewals come through in time keeps its lease, however long it runs up to the maximum.\<close>

lemma renewal_keeps_lease:
  assumes "redis_ok R" "lock_reach R opts w" "lw_caller w tok = Some (LockInside started False True)" "has_lease w tok"
    "lw_now w - started < LOCK_HOLD_MAX_MS"
  shows "lw_lapse (lock_renew R opts True tok w) tok = Some (lw_now w + lk_ttlMs opts)
    \<and> lw_caller (lock_renew R opts True tok w) tok = Some (LockInside started False True)"
proof -
  obtain u where u: "lw_lapse w tok = Some u" "lw_now w < u" using assms(4) by (auto simp: has_lease_def split: option.splits)
  have "rd_get R (lw_now w) KLock (lw_db w) = Some (TextValue tok)"
    using lease_okD(1) [OF lease_ok_reach [OF assms(2,1)] u, of "lw_now w"] u(2) by (simp add: rd_get_iff)
  then show ?thesis using assms(3,5) by (simp add: lock_renew_def pexpireIfEqual_def)
qed

text \<open>
  A caller that waits gives up at its first look at the key after its deadline, and the backoff never passes its cap.
\<close>

lemma waiting_ends:
  "lw_caller w tok = Some (LockChecking deadline backoff) \<Longrightarrow> deadline \<le> lw_now w \<Longrightarrow>
   lw_caller (lock_check R pause tok w) tok \<in> {Some (LockInside (lw_now w) False True), Some LockTimedOut}"
  by (simp add: lock_check_def at_caller_def)

lemma backoff_capped:
  "lw_caller w tok = Some (LockChecking deadline backoff) \<Longrightarrow>
   lw_caller (lock_check R pause tok w) tok = Some (LockPolling d b wake) \<Longrightarrow> b \<le> LOCK_BACKOFF_MAX_MS"
  by (auto simp: lock_check_def at_caller_def split: if_splits)

end
