(* ===== verification/RedisStore.thy ===== *)
theory RedisStore
  imports Redis WaitQueue
begin

text \<open>
  The store shared by several instances (\<open>backend/src/store/RedisStore.ts\<close>): every operation as the commands it sends,
  those of one \<open>MULTI\<close> or pipeline at one time of the server. A call with an id that may not be part of a key throws
  before anything is sent: such an operation is \<open>None\<close>.
\<close>

definition PENDING_ROOM_GRACE_MS :: millis where "PENDING_ROOM_GRACE_MS = 60 * 60000"

definition with_ids :: "string list \<Rightarrow> 'a \<Rightarrow> 'a option" where
  "with_ids ids x = (if list_all id_ok ids then Some x else None)"

section \<open>Sessions, photos, devices\<close>

fun session_value :: "rvalue option \<Rightarrow> session option" where
  "session_value (Some (SessionValue s)) = Some s"
| "session_value _ = None"

fun text_value :: "rvalue option \<Rightarrow> string option" where
  "text_value (Some (TextValue s)) = Some s"
| "text_value _ = None"

fun room_value :: "rvalue option \<Rightarrow> room option" where
  "room_value (Some (RoomValue s)) = Some s"
| "room_value _ = None"

fun block_value :: "rvalue option \<Rightarrow> pair_block option" where
  "block_value (Some (BlockValue s)) = Some s"
| "block_value _ = None"

fun time_value :: "rvalue option \<Rightarrow> millis option" where
  "time_value (Some (TimeValue s)) = Some s"
| "time_value _ = None"

definition rs_getSession :: "'r redis \<Rightarrow> millis \<Rightarrow> 'r \<Rightarrow> socket_id \<Rightarrow> session option option" where
  "rs_getSession R now r s = with_ids [s] (session_value (rd_get R now (KSession s) r))"

definition rs_getSessions :: "'r redis \<Rightarrow> millis \<Rightarrow> 'r \<Rightarrow> socket_id list \<Rightarrow> session option list option" where
  "rs_getSessions R now r ids = with_ids ids (map (\<lambda>s. session_value (rd_get R now (KSession s) r)) ids)"

definition rs_putSession :: "'r redis \<Rightarrow> session \<Rightarrow> millis \<Rightarrow> 'r \<Rightarrow> 'r option" where
  "rs_putSession R s now r =
     with_ids [socketId s, instanceId s]
       (rd_sadd R (KInstanceSessions (instanceId s)) (Id (socketId s)) now
         (rd_sadd R KSessions (Id (socketId s)) now
           (rd_set R (KSession (socketId s)) (SessionValue s) None now r)))"

definition rs_deleteSession :: "'r redis \<Rightarrow> socket_id \<Rightarrow> millis \<Rightarrow> 'r \<Rightarrow> 'r option" where
  "rs_deleteSession R s now r =
     (case rs_getSession R now r s of
        None \<Rightarrow> None
      | Some existing \<Rightarrow>
          let batch = rd_del R (KPhoto s) now (rd_srem R KSessions (Id s) now (rd_del R (KSession s) now r)) in
          (case existing of
             None \<Rightarrow> Some batch
           | Some x \<Rightarrow> with_ids [instanceId x] (rd_srem R (KInstanceSessions (instanceId x)) (Id s) now batch)))"

definition rs_setPhoto :: "'r redis \<Rightarrow> socket_id \<Rightarrow> string option \<Rightarrow> millis \<Rightarrow> 'r \<Rightarrow> 'r option" where
  "rs_setPhoto R s photo now r =
     with_ids [s] (case photo of None \<Rightarrow> rd_del R (KPhoto s) now r | Some p \<Rightarrow> rd_set R (KPhoto s) (TextValue p) None now r)"

definition rs_getPhoto :: "'r redis \<Rightarrow> millis \<Rightarrow> 'r \<Rightarrow> socket_id \<Rightarrow> string option option" where
  "rs_getPhoto R now r s = with_ids [s] (text_value (rd_get R now (KPhoto s) r))"

definition rs_getDeviceSocket :: "'r redis \<Rightarrow> millis \<Rightarrow> 'r \<Rightarrow> device_id \<Rightarrow> socket_id option option" where
  "rs_getDeviceSocket R now r d = with_ids [d] (text_value (rd_get R now (KDevice d) r))"

definition rs_setDeviceSocket :: "'r redis \<Rightarrow> device_id \<Rightarrow> socket_id \<Rightarrow> millis \<Rightarrow> 'r \<Rightarrow> 'r option" where
  "rs_setDeviceSocket R d s now r = with_ids [d] (rd_set R (KDevice d) (TextValue s) None now r)"

definition rs_clearDeviceSocket :: "'r redis \<Rightarrow> device_id \<Rightarrow> socket_id \<Rightarrow> millis \<Rightarrow> 'r \<Rightarrow> 'r option" where
  "rs_clearDeviceSocket R d s now r = with_ids [d] (fst (delIfEqual R (KDevice d) (TextValue s) now r))"

section \<open>The waiting queue\<close>

definition rs_addWaiting :: "'r redis \<Rightarrow> socket_id \<Rightarrow> millis \<Rightarrow> millis \<Rightarrow> 'r \<Rightarrow> 'r" where
  "rs_addWaiting R s since now r = rd_zadd R KWaiting since (Id s) now r"

definition rs_removeWaiting :: "'r redis \<Rightarrow> socket_id \<Rightarrow> millis \<Rightarrow> 'r \<Rightarrow> 'r" where
  "rs_removeWaiting R s now r = rd_zrem R KWaiting (Id s) now r"

definition rs_listWaiting :: "'r redis \<Rightarrow> millis \<Rightarrow> 'r \<Rightarrow> socket_id list" where
  "rs_listWaiting R now r = map (id_string (rd_uuid R)) (rd_zrange R now KWaiting r)"

definition rs_waitingCount :: "'r redis \<Rightarrow> millis \<Rightarrow> 'r \<Rightarrow> nat" where
  "rs_waitingCount R now r = length (rd_zscores R now KWaiting r)"

section \<open>Rooms\<close>

definition rs_getRoom :: "'r redis \<Rightarrow> millis \<Rightarrow> 'r \<Rightarrow> uuid \<Rightarrow> room option" where
  "rs_getRoom R now r i = room_value (rd_get R now (KRoom i) r)"

definition rs_putRoom :: "'r redis \<Rightarrow> room \<Rightarrow> millis \<Rightarrow> 'r \<Rightarrow> 'r" where
  "rs_putRoom R rm now r =
     (if room_state rm = RPending then
        let ttl = max 0 (expiresAt rm - now) + PENDING_ROOM_GRACE_MS in
        rd_srem R KActiveRooms (Uuid (room_id rm)) now
          (rd_zadd R KPendingRooms (expiresAt rm) (Uuid (room_id rm)) now
            (rd_set R (KRoom (room_id rm)) (RoomValue rm) (Some (now + ttl)) now r))
      else
        rd_sadd R KActiveRooms (Uuid (room_id rm)) now
          (rd_zrem R KPendingRooms (Uuid (room_id rm)) now
            (rd_set R (KRoom (room_id rm)) (RoomValue rm) None now r)))"

definition rs_deleteRoom :: "'r redis \<Rightarrow> uuid \<Rightarrow> millis \<Rightarrow> 'r \<Rightarrow> 'r" where
  "rs_deleteRoom R i now r =
     rd_srem R KActiveRooms (Uuid i) now (rd_zrem R KPendingRooms (Uuid i) now (rd_del R (KRoom i) now r))"

text \<open>Ids whose score is due, oldest deadline first; entries of rooms that have lapsed leave the index.\<close>

fun uuid_of :: "id_text \<Rightarrow> uuid option" where
  "uuid_of (Uuid n) = Some n"
| "uuid_of (Id s) = None"

definition rs_listExpiredPendingRooms :: "'r redis \<Rightarrow> millis \<Rightarrow> millis \<Rightarrow> 'r \<Rightarrow> 'r \<times> uuid list" where
  "rs_listExpiredPendingRooms R cutoff now r =
     (let scores = rd_zscores R now KPendingRooms r;
          ids = List.map_filter uuid_of (filter (\<lambda>m. \<exists>s. jget scores m = Some s \<and> s \<le> cutoff) (rd_zrange R now KPendingRooms r));
          exists = (\<lambda>i. rd_exists R now (KRoom i) r);
          gone = filter (\<lambda>i. \<not> exists i) ids in
      (fold (\<lambda>i. rd_zrem R KPendingRooms (Uuid i) now) gone r, filter exists ids))"

section \<open>Coins, friends, blocks\<close>

definition rs_getCoins :: "'r redis \<Rightarrow> millis \<Rightarrow> 'r \<Rightarrow> device_id \<Rightarrow> int option" where
  "rs_getCoins R now r d = rd_hget R now KCoins d r"

definition rs_addCoins :: "'r redis \<Rightarrow> device_id \<Rightarrow> int \<Rightarrow> int \<Rightarrow> millis \<Rightarrow> 'r \<Rightarrow> 'r \<times> int option" where
  "rs_addCoins R d delta initial now r =
     (let r' = rd_hincrby R KCoins d delta now (rd_hsetnx R KCoins d initial now r) in (r', rd_hget R now KCoins d r'))"

definition rs_areFriends :: "'r redis \<Rightarrow> millis \<Rightarrow> 'r \<Rightarrow> device_id \<Rightarrow> device_id \<Rightarrow> bool option" where
  "rs_areFriends R now r a b = with_ids [a] (Id b \<in> set (rd_smembers R now (KFriends a) r))"

definition rs_addFriends :: "'r redis \<Rightarrow> device_id \<Rightarrow> device_id \<Rightarrow> millis \<Rightarrow> 'r \<Rightarrow> 'r option" where
  "rs_addFriends R a b now r =
     with_ids [a, b] (rd_sadd R (KFriends b) (Id a) now (rd_sadd R (KFriends a) (Id b) now r))"

definition blockKey :: "device_id \<Rightarrow> device_id \<Rightarrow> rkey" where
  "blockKey a b = (if a < b then KBlock a b else KBlock b a)"

definition rs_getBlock :: "'r redis \<Rightarrow> millis \<Rightarrow> 'r \<Rightarrow> device_id \<Rightarrow> device_id \<Rightarrow> pair_block option option" where
  "rs_getBlock R now r a b = with_ids [a, b] (block_value (rd_get R now (blockKey a b) r))"

definition rs_setBlock :: "'r redis \<Rightarrow> device_id \<Rightarrow> device_id \<Rightarrow> pair_block \<Rightarrow> millis \<Rightarrow> millis \<Rightarrow> 'r \<Rightarrow> 'r option" where
  "rs_setBlock R a b block retainMs now r =
     with_ids [a, b] (rd_set R (blockKey a b) (BlockValue block) (Some (now + max 1 retainMs)) now r)"

section \<open>Reports and bans\<close>

definition rs_addReport :: "'r redis \<Rightarrow> report_record \<Rightarrow> millis \<Rightarrow> 'r \<Rightarrow> 'r option" where
  "rs_addReport R report now r =
     with_ids [rp_reportedDevice report]
       (rd_pexpire R (KReportsAgainst (rp_reportedDevice report)) REPORTS_AGAINST_TTL_MS now
         (rd_zadd_gt R (KReportsAgainst (rp_reportedDevice report)) (rp_ts report) (Id (rp_reporterDevice report)) now
           (rd_ltrim R KReports REPORT_LOG_MAX now
             (rd_rpush R KReports (ReportValue report) now r))))"

definition rs_countReporters :: "'r redis \<Rightarrow> device_id \<Rightarrow> millis \<Rightarrow> millis \<Rightarrow> 'r \<Rightarrow> ('r \<times> nat) option" where
  "rs_countReporters R d since now r =
     with_ids [d]
       (let r' = rd_zrem_below R (KReportsAgainst d) since now r in (r', length (rd_zscores R now (KReportsAgainst d) r')))"

definition rs_getBan :: "'r redis \<Rightarrow> millis \<Rightarrow> 'r \<Rightarrow> device_id \<Rightarrow> millis option option" where
  "rs_getBan R now r d =
     with_ids [d] (case time_value (rd_get R now (KBan d) r) of None \<Rightarrow> None | Some u \<Rightarrow> if now < u then Some u else None)"

definition rs_setBan :: "'r redis \<Rightarrow> device_id \<Rightarrow> millis \<Rightarrow> millis \<Rightarrow> 'r \<Rightarrow> 'r option" where
  "rs_setBan R d u now r =
     with_ids [d] (if u \<le> now then rd_del R (KBan d) now r else rd_set R (KBan d) (TimeValue u) (Some u) now r)"

section \<open>Instances\<close>

text \<open>What a client of the store remembers: its last heartbeat, and from when dead instances are reported (\<open>None\<close>: never).\<close>

record redis_client =
  rc_lastBeat :: "(string \<times> millis) option"
  rc_reapAllowedAt :: "millis option"

definition new_client_of_redis :: redis_client where
  "new_client_of_redis = \<lparr>rc_lastBeat = None, rc_reapAllowedAt = Some 0\<rparr>"

definition markOutage :: "redis_client \<Rightarrow> redis_client" where
  "markOutage c = c\<lparr>rc_reapAllowedAt := None\<rparr>"

text \<open>The flag says whether Redis answers the batch.\<close>

definition rs_heartbeat ::
  "'r redis \<Rightarrow> bool \<Rightarrow> string \<Rightarrow> millis \<Rightarrow> millis \<Rightarrow> redis_client \<Rightarrow> 'r \<Rightarrow> redis_client \<times> 'r \<times> bool" where
  "rs_heartbeat R answers i ttlMs now c r =
     (let c1 = c\<lparr>rc_lastBeat := Some (i, ttlMs)\<rparr> in
      if \<not> answers \<or> \<not> id_ok i then (markOutage c1, r, False)
      else
        (if rc_reapAllowedAt c1 = None then c1\<lparr>rc_reapAllowedAt := Some (now + ttlMs)\<rparr> else c1,
         rd_sadd R KInstances (Id i) now (rd_set R (KInstance i) (TimeValue now) (Some (now + max 1 ttlMs)) now r), True))"

text \<open>The connection is back: the last heartbeat is sent again.\<close>

definition rs_ready :: "'r redis \<Rightarrow> bool \<Rightarrow> millis \<Rightarrow> redis_client \<Rightarrow> 'r \<Rightarrow> redis_client \<times> 'r" where
  "rs_ready R answers now c r =
     (case rc_lastBeat c of
        None \<Rightarrow> (c, r)
      | Some (i, ttlMs) \<Rightarrow> (case rs_heartbeat R answers i ttlMs now c r of (c', r', _) \<Rightarrow> (c', r')))"

definition rs_listDeadInstances :: "'r redis \<Rightarrow> millis \<Rightarrow> redis_client \<Rightarrow> 'r \<Rightarrow> string list" where
  "rs_listDeadInstances R now c r =
     (case rc_reapAllowedAt c of
        None \<Rightarrow> []
      | Some t \<Rightarrow>
          if now < t then []
          else filter (\<lambda>i. \<not> rd_exists R now (KInstance i) r) (map (id_string (rd_uuid R)) (rd_smembers R now KInstances r)))"

definition rs_listInstanceSessions :: "'r redis \<Rightarrow> millis \<Rightarrow> 'r \<Rightarrow> string \<Rightarrow> socket_id list option" where
  "rs_listInstanceSessions R now r i =
     with_ids [i] (map (id_string (rd_uuid R)) (rd_smembers R now (KInstanceSessions i) r))"

definition rs_forgetInstance :: "'r redis \<Rightarrow> string \<Rightarrow> millis \<Rightarrow> redis_client \<Rightarrow> 'r \<Rightarrow> redis_client \<times> 'r option" where
  "rs_forgetInstance R i now c r =
     (if map_option fst (rc_lastBeat c) = Some i then c\<lparr>rc_lastBeat := None\<rparr> else c,
      with_ids [i] (rd_del R (KInstance i) now (rd_del R (KInstanceSessions i) now (rd_srem R KInstances (Id i) now r))))"

definition rs_stats :: "'r redis \<Rightarrow> millis \<Rightarrow> 'r \<Rightarrow> store_stats" where
  "rs_stats R now r =
     \<lparr>st_sessions = length (rd_smembers R now KSessions r), st_waiting = length (rd_zscores R now KWaiting r),
      st_pendingRooms = length (rd_zscores R now KPendingRooms r), st_activeRooms = length (rd_smembers R now KActiveRooms r)\<rparr>"

end
