(* ===== verification/RedisTheorems.thy ===== *)
theory RedisTheorems
  imports RedisStore
begin

text \<open>
  The shared store answers like the store of one instance: after the same calls, each read of theory \<open>RedisStore\<close> gives
  what the read of theory \<open>MemoryStore\<close> gives, at every later time. The queue of the shared store keeps the contract of
  theory \<open>WaitQueue\<close>.
\<close>

section \<open>Commands at a key\<close>

lemma at_set:
  "redis_ok R \<Longrightarrow> now \<le> t \<Longrightarrow>
   rd_at R t (rd_set R k v lapse now r) j = (if j \<noteq> k then rd_at R t r j else if over lapse t then None else Some (RText v))"
  by (simp add: redis_ok_def)

lemma at_del: "redis_ok R \<Longrightarrow> now \<le> t \<Longrightarrow> rd_at R t (rd_del R k now r) j = (if j \<noteq> k then rd_at R t r j else None)"
  by (simp add: redis_ok_def edits_def)

lemma at_pexpire:
  "redis_ok R \<Longrightarrow> now \<le> t \<Longrightarrow>
   rd_at R t (rd_pexpire R k ttl now r) j = (if j \<noteq> k then rd_at R t r j else if now + ttl \<le> t then None else rd_at R now r k)"
  by (simp add: redis_ok_def)

lemma edits_at:
  "edits R k cmd f \<Longrightarrow> now \<le> t \<Longrightarrow> rd_at R t (cmd now r) j =
     (if j \<noteq> k then rd_at R t r j else if rd_at R now r k \<noteq> None \<and> rd_at R t r k = None then None else f (rd_at R now r k))"
  by (simp only: edits_def simp_thms)

lemma redis_edits:
  assumes "redis_ok R"
  shows "edits R k (rd_sadd R k m) (\<lambda>e. set_entry (sadd m (set_members e)))"
    and "edits R k (rd_srem R k m) (\<lambda>e. set_entry (sdel m (set_members e)))"
    and "edits R k (rd_zadd R k s m) (\<lambda>e. zset_entry (jset (zset_scores e) m s))"
    and "edits R k (rd_zadd_gt R k s m) (\<lambda>e. zset_entry (jset (zset_scores e) m
        (case jget (zset_scores e) m of None \<Rightarrow> s | Some old \<Rightarrow> max old s)))"
    and "edits R k (rd_zrem R k m) (\<lambda>e. zset_entry (jdel (zset_scores e) m))"
    and "edits R k (rd_hsetnx R k d n) (\<lambda>e. Some (RHash
        (case jget (hash_fields e) d of None \<Rightarrow> jset (hash_fields e) d n | Some _ \<Rightarrow> hash_fields e)))"
    and "edits R k (rd_hincrby R k d n) (\<lambda>e. Some (RHash
        (jset (hash_fields e) d ((case jget (hash_fields e) d of None \<Rightarrow> 0 | Some o' \<Rightarrow> o') + n))))"
    and "edits R k (rd_rpush R k v) (\<lambda>e. Some (RList (list_values e @ [v])))"
    and "edits R k (rd_ltrim R k c) (\<lambda>e.
        let vs = drop (length (list_values e) - c) (list_values e) in if vs = [] then None else Some (RList vs))"
  using assms by (simp_all only: redis_ok_def)

lemma entries_read [simp]:
  "set_members (set_entry ms) = ms" "zset_scores (zset_entry z) = z"
  by (simp_all add: set_entry_def zset_entry_def)

section \<open>Keys that never lapse\<close>

definition lasting_key :: "rkey \<Rightarrow> bool" where
  "lasting_key k \<longleftrightarrow> k \<in> {KWaiting, KCoins, KReports} \<or> (\<exists>d. k = KFriends d)"

definition lasting :: "'r redis \<Rightarrow> millis \<Rightarrow> 'r \<Rightarrow> bool" where
  "lasting R now r \<longleftrightarrow> (\<forall>k t. lasting_key k \<longrightarrow> now \<le> t \<longrightarrow> rd_at R t r k = rd_at R now r k)"

lemma lastingI: "(\<And>k t. lasting_key k \<Longrightarrow> now \<le> t \<Longrightarrow> rd_at R t r k = rd_at R now r k) \<Longrightarrow> lasting R now r"
  unfolding lasting_def by blast

lemma lastingD: "lasting R now r \<Longrightarrow> lasting_key k \<Longrightarrow> now \<le> t \<Longrightarrow> rd_at R t r k = rd_at R now r k"
  unfolding lasting_def by blast

lemma lasting_later: "lasting R now r \<Longrightarrow> now \<le> later \<Longrightarrow> lasting R later r"
  unfolding lasting_def by (metis order_trans)

lemma edit_lasting:
  assumes "edits R k cmd f" "lasting R now r" "lasting_key k" "now \<le> t"
  shows "rd_at R t (cmd now r) k = f (rd_at R now r k)"
  unfolding edits_at [OF assms(1,4)] lastingD [OF assms(2-4)] by auto

lemma lasting_edit:
  assumes "edits R k cmd f" "lasting R now r"
  shows "lasting R now (cmd now r)"
proof (rule lastingI)
  fix j t
  assume j: "lasting_key j" "now \<le> t"
  show "rd_at R t (cmd now r) j = rd_at R now (cmd now r) j"
  proof (cases "j = k")
    case True
    then have "lasting_key k" using j by simp
    then have "rd_at R t (cmd now r) k = f (rd_at R now r k)" "rd_at R now (cmd now r) k = f (rd_at R now r k)"
      using edit_lasting [OF assms] j(2) by auto
    then show ?thesis using True by simp
  next
    case False
    then have "rd_at R t (cmd now r) j = rd_at R t r j" "rd_at R now (cmd now r) j = rd_at R now r j"
      using edits_at [OF assms(1)] j(2) by auto
    then show ?thesis using lastingD [OF assms(2) j] by simp
  qed
qed

text \<open>A command that leaves the lasting keys alone.\<close>

lemma lasting_others:
  assumes "lasting R now r" "\<And>t j. lasting_key j \<Longrightarrow> now \<le> t \<Longrightarrow> rd_at R t r' j = rd_at R t r j"
  shows "lasting R now r'"
proof (rule lastingI)
  fix k t
  assume k: "lasting_key k" "now \<le> t"
  show "rd_at R t r' k = rd_at R now r' k"
    unfolding assms(2) [OF k] assms(2) [OF k(1) order_refl] by (rule lastingD [OF assms(1) k])
qed

lemma lasting_set: "redis_ok R \<Longrightarrow> lasting R now r \<Longrightarrow> \<not> lasting_key k \<Longrightarrow> lasting R now (rd_set R k v lapse now r)"
  by (erule lasting_others) (auto simp: at_set)

lemma lasting_del: "redis_ok R \<Longrightarrow> lasting R now r \<Longrightarrow> \<not> lasting_key k \<Longrightarrow> lasting R now (rd_del R k now r)"
  by (erule lasting_others) (auto simp: at_del)

lemma lasting_pexpire: "redis_ok R \<Longrightarrow> lasting R now r \<Longrightarrow> \<not> lasting_key k \<Longrightarrow> lasting R now (rd_pexpire R k ttl now r)"
  by (erule lasting_others) (auto simp: at_pexpire)

lemma lasting_key_simps [simp]:
  "lasting_key KWaiting" "lasting_key KCoins" "lasting_key KReports" "lasting_key (KFriends d)"
  "\<not> lasting_key (KSession s)" "\<not> lasting_key (KPhoto s)" "\<not> lasting_key (KDevice d)" "\<not> lasting_key (KRoom i)"
  "\<not> lasting_key (KBlock a b)" "\<not> lasting_key (KBan d)" "\<not> lasting_key (KReportsAgainst d)"
  by (simp_all add: lasting_key_def)

section \<open>Pairs of devices\<close>

lemma pair_text_inj:
  assumes "id_ok a" "id_ok b" "id_ok c" "id_ok d" "a @ '':'' @ b = c @ '':'' @ d"
  shows "a = c \<and> b = d"
proof -
  have two: "split_on CHR '':'' (x @ CHR '':'' # y) = [x, y]" if "id_ok x" "id_ok y" for x y
    unfolding split_on_first [OF id_ok_no_colon [OF that(1)]] split_on_free [OF id_ok_no_colon [OF that(2)]] ..
  have "a @ CHR '':'' # b = c @ CHR '':'' # d" using assms(5) by simp
  then have "split_on CHR '':'' (a @ CHR '':'' # b) = split_on CHR '':'' (c @ CHR '':'' # d)" by (rule arg_cong)
  then show ?thesis unfolding two [OF assms(1,2)] two [OF assms(3,4)] by simp
qed

lemma pairKey_eq_iff:
  assumes "id_ok a" "id_ok b" "id_ok c" "id_ok d"
  shows "pairKey a b = pairKey c d \<longleftrightarrow> a = c \<and> b = d \<or> a = d \<and> b = c"
proof
  assume "pairKey a b = pairKey c d"
  then show "a = c \<and> b = d \<or> a = d \<and> b = c"
    using pair_text_inj [OF assms] pair_text_inj [OF assms(1,2,4,3)] pair_text_inj [OF assms(2,1,3,4)]
      pair_text_inj [OF assms(2,1,4,3)] by (auto simp: pairKey_def split: if_splits)
qed (auto simp: pairKey_sym)

lemma blockKey_eq_iff: "blockKey a b = blockKey c d \<longleftrightarrow> a = c \<and> b = d \<or> a = d \<and> b = c"
  by (auto simp: blockKey_def)

lemma blockKey_other [simp]: "lasting_key (blockKey a b) = False"
  by (simp add: blockKey_def)

section \<open>The same answers\<close>

definition room_matches :: "millis \<Rightarrow> rvalue option \<Rightarrow> room option \<Rightarrow> bool" where
  "room_matches t v rm \<longleftrightarrow>
     v = map_option RoomValue rm
   \<or> v = None \<and> (\<exists>x. rm = Some x \<and> room_state x = RPending \<and> expiresAt x + PENDING_ROOM_GRACE_MS \<le> t)"

definition same_answers :: "'r redis \<Rightarrow> millis \<Rightarrow> 'r \<Rightarrow> store \<Rightarrow> bool" where
  "same_answers R t r m \<longleftrightarrow>
     (\<forall>s. rd_get R t (KSession s) r = map_option SessionValue (getSession m s))
   \<and> (\<forall>s. rd_get R t (KPhoto s) r = map_option TextValue (getPhoto m s))
   \<and> (\<forall>d. rd_get R t (KDevice d) r = map_option TextValue (getDeviceSocket m d))
   \<and> (\<forall>s. jget (rd_zscores R t KWaiting r) (Id s) = since_of m s)
   \<and> (\<forall>i. room_matches t (rd_get R t (KRoom i) r) (getRoom m i))
   \<and> (\<forall>d. rd_hget R t KCoins d r = getCoins m d)
   \<and> (\<forall>a b. id_ok a \<longrightarrow> id_ok b \<longrightarrow> (Id b \<in> set (rd_smembers R t (KFriends a) r)) = areFriends m a b)
   \<and> (\<forall>a b. id_ok a \<longrightarrow> id_ok b \<longrightarrow> rd_get R t (blockKey a b) r = map_option BlockValue (getBlock t m a b))
   \<and> (\<forall>d. rd_get R t (KBan d) r = map_option TimeValue (getBan t m d))
   \<and> list_values (rd_at R t r KReports) = map ReportValue (reports m)"

lemma same_answersD:
  assumes "same_answers R t r m"
  shows "rd_get R t (KSession s) r = map_option SessionValue (getSession m s)"
    and "rd_get R t (KPhoto s) r = map_option TextValue (getPhoto m s)"
    and "rd_get R t (KDevice d) r = map_option TextValue (getDeviceSocket m d)"
    and "jget (rd_zscores R t KWaiting r) (Id s) = since_of m s"
    and "room_matches t (rd_get R t (KRoom i) r) (getRoom m i)"
    and "rd_hget R t KCoins d r = getCoins m d"
    and "id_ok a \<Longrightarrow> id_ok b \<Longrightarrow> (Id b \<in> set (rd_smembers R t (KFriends a) r)) = areFriends m a b"
    and "id_ok a \<Longrightarrow> id_ok b \<Longrightarrow> rd_get R t (blockKey a b) r = map_option BlockValue (getBlock t m a b)"
    and "rd_get R t (KBan d) r = map_option TimeValue (getBan t m d)"
    and "list_values (rd_at R t r KReports) = map ReportValue (reports m)"
  using assms unfolding same_answers_def by blast+

text \<open>What a call leaves alone: the answers about everything it does not touch.\<close>

lemma same_answersI:
  assumes "\<And>s. rd_get R t (KSession s) r = map_option SessionValue (getSession m s)"
    "\<And>s. rd_get R t (KPhoto s) r = map_option TextValue (getPhoto m s)"
    "\<And>d. rd_get R t (KDevice d) r = map_option TextValue (getDeviceSocket m d)"
    "\<And>s. jget (rd_zscores R t KWaiting r) (Id s) = since_of m s"
    "\<And>i. room_matches t (rd_get R t (KRoom i) r) (getRoom m i)"
    "\<And>d. rd_hget R t KCoins d r = getCoins m d"
    "\<And>a b. id_ok a \<Longrightarrow> id_ok b \<Longrightarrow> (Id b \<in> set (rd_smembers R t (KFriends a) r)) = areFriends m a b"
    "\<And>a b. id_ok a \<Longrightarrow> id_ok b \<Longrightarrow> rd_get R t (blockKey a b) r = map_option BlockValue (getBlock t m a b)"
    "\<And>d. rd_get R t (KBan d) r = map_option TimeValue (getBan t m d)"
    "list_values (rd_at R t r KReports) = map ReportValue (reports m)"
  shows "same_answers R t r m"
  using assms unfolding same_answers_def by blast

definition agree :: "'r redis \<Rightarrow> millis \<Rightarrow> 'r \<Rightarrow> store \<Rightarrow> bool" where
  "agree R now r m \<longleftrightarrow>
     lasting R now r \<and> queue_ok m \<and> jwf (blocks m) \<and> (\<forall>s x. getSession m s = Some x \<longrightarrow> id_ok (instanceId x))
   \<and> (\<forall>t \<ge> now. same_answers R t r m)"

lemma agree_later: "agree R now r m \<Longrightarrow> now \<le> later \<Longrightarrow> agree R later r m"
  by (auto simp: agree_def intro: lasting_later)

section \<open>Calls\<close>

datatype store_call =
  CallPutSession session | CallDeleteSession socket_id | CallSetPhoto socket_id "string option"
| CallSetDevice device_id socket_id | CallClearDevice device_id socket_id
| CallAddWaiting socket_id millis | CallRemoveWaiting socket_id
| CallPutRoom room | CallDeleteRoom uuid
| CallAddCoins device_id int int | CallAddFriends device_id device_id
| CallSetBlock device_id device_id pair_block millis
| CallAddReport report_record | CallSetBan device_id millis

fun mem_do :: "millis \<Rightarrow> store_call \<Rightarrow> store \<Rightarrow> store" where
  "mem_do now (CallPutSession s) m = putSession s m"
| "mem_do now (CallDeleteSession s) m = deleteSession s m"
| "mem_do now (CallSetPhoto s p) m = setPhoto s p m"
| "mem_do now (CallSetDevice d s) m = setDeviceSocket d s m"
| "mem_do now (CallClearDevice d s) m = clearDeviceSocket d s m"
| "mem_do now (CallAddWaiting s t) m = addWaiting s t m"
| "mem_do now (CallRemoveWaiting s) m = removeWaiting s m"
| "mem_do now (CallPutRoom rm) m = putRoom rm m"
| "mem_do now (CallDeleteRoom i) m = deleteRoom i m"
| "mem_do now (CallAddCoins d delta initial) m = fst (addCoins d delta initial m)"
| "mem_do now (CallAddFriends a b) m = addFriends a b m"
| "mem_do now (CallSetBlock a b block retain) m = setBlock now a b block retain m"
| "mem_do now (CallAddReport rep) m = addReport now rep m"
| "mem_do now (CallSetBan d u) m = setBan now d u m"

fun redis_do :: "'r redis \<Rightarrow> millis \<Rightarrow> store_call \<Rightarrow> 'r \<Rightarrow> 'r option" where
  "redis_do R now (CallPutSession s) r = rs_putSession R s now r"
| "redis_do R now (CallDeleteSession s) r = rs_deleteSession R s now r"
| "redis_do R now (CallSetPhoto s p) r = rs_setPhoto R s p now r"
| "redis_do R now (CallSetDevice d s) r = rs_setDeviceSocket R d s now r"
| "redis_do R now (CallClearDevice d s) r = rs_clearDeviceSocket R d s now r"
| "redis_do R now (CallAddWaiting s t) r = Some (rs_addWaiting R s t now r)"
| "redis_do R now (CallRemoveWaiting s) r = Some (rs_removeWaiting R s now r)"
| "redis_do R now (CallPutRoom rm) r = Some (rs_putRoom R rm now r)"
| "redis_do R now (CallDeleteRoom i) r = Some (rs_deleteRoom R i now r)"
| "redis_do R now (CallAddCoins d delta initial) r = Some (fst (rs_addCoins R d delta initial now r))"
| "redis_do R now (CallAddFriends a b) r = rs_addFriends R a b now r"
| "redis_do R now (CallSetBlock a b block retain) r = rs_setBlock R a b block retain now r"
| "redis_do R now (CallAddReport rep) r = rs_addReport R rep now r"
| "redis_do R now (CallSetBan d u) r = rs_setBan R d u now r"

text \<open>Ids that may be part of a key, and blocks kept for at least a millisecond.\<close>

fun call_ok :: "store_call \<Rightarrow> bool" where
  "call_ok (CallPutSession s) \<longleftrightarrow> id_ok (socketId s) \<and> id_ok (instanceId s)"
| "call_ok (CallDeleteSession s) \<longleftrightarrow> id_ok s"
| "call_ok (CallSetPhoto s p) \<longleftrightarrow> id_ok s"
| "call_ok (CallSetDevice d s) \<longleftrightarrow> id_ok d"
| "call_ok (CallClearDevice d s) \<longleftrightarrow> id_ok d"
| "call_ok (CallAddFriends a b) \<longleftrightarrow> id_ok a \<and> id_ok b"
| "call_ok (CallSetBlock a b block retain) \<longleftrightarrow> id_ok a \<and> id_ok b \<and> 1 \<le> retain"
| "call_ok (CallAddReport rep) \<longleftrightarrow> id_ok (rp_reportedDevice rep)"
| "call_ok (CallSetBan d u) \<longleftrightarrow> id_ok d"
| "call_ok _ \<longleftrightarrow> True"

section \<open>Each call keeps the agreement\<close>

text \<open>Keys no answer depends on: the indexes, the instances and the lock.\<close>

definition unread_key :: "rkey \<Rightarrow> bool" where
  "unread_key k \<longleftrightarrow> k \<in> {KSessions, KPendingRooms, KActiveRooms, KInstances, KLock} \<or> (\<exists>i. k = KInstanceSessions i)
     \<or> (\<exists>i. k = KInstance i) \<or> (\<exists>d. k = KReportsAgainst d)"

lemma unread_key_simps [simp]:
  "unread_key KSessions" "unread_key KPendingRooms" "unread_key KActiveRooms" "unread_key (KInstanceSessions i)" "unread_key (KReportsAgainst d)"
  "\<not> unread_key (KSession s)" "\<not> unread_key (KPhoto s)" "\<not> unread_key (KDevice d)" "\<not> unread_key (KRoom u)" "\<not> unread_key (KBlock a b)"
  "\<not> unread_key (KBan d)" "\<not> unread_key KWaiting" "\<not> unread_key KCoins" "\<not> unread_key KReports" "\<not> unread_key (KFriends d)"
  "\<not> unread_key (blockKey a b)"
  by (simp_all add: unread_key_def blockKey_def)

lemma blockKey_simps [simp]:
  "blockKey a b \<noteq> KSession s" "blockKey a b \<noteq> KPhoto s" "blockKey a b \<noteq> KDevice d" "blockKey a b \<noteq> KRoom u"
  "blockKey a b \<noteq> KBan d" "blockKey a b \<noteq> KWaiting" "blockKey a b \<noteq> KCoins" "blockKey a b \<noteq> KReports" "blockKey a b \<noteq> KFriends d"
  "KSession s \<noteq> blockKey a b" "KPhoto s \<noteq> blockKey a b" "KDevice d \<noteq> blockKey a b" "KRoom u \<noteq> blockKey a b"
  "KBan d \<noteq> blockKey a b" "KWaiting \<noteq> blockKey a b" "KCoins \<noteq> blockKey a b" "KReports \<noteq> blockKey a b" "KFriends d \<noteq> blockKey a b"
  by (simp_all add: blockKey_def)

lemmas read_defs = rd_get_def rd_zscores_def rd_hget_def rd_smembers_def

text \<open>One key gets a new value, at most; the other answers stay.\<close>

definition only_at :: "'r redis \<Rightarrow> millis \<Rightarrow> rkey \<Rightarrow> 'r \<Rightarrow> 'r \<Rightarrow> bool" where
  "only_at R t k r r' \<longleftrightarrow> (\<forall>j. \<not> unread_key j \<longrightarrow> j \<noteq> k \<longrightarrow> rd_at R t r' j = rd_at R t r j)"

lemma only_atD: "only_at R t k r r' \<Longrightarrow> \<not> unread_key j \<Longrightarrow> j \<noteq> k \<Longrightarrow> rd_at R t r' j = rd_at R t r j"
  unfolding only_at_def by blast

lemma only_at_refl [simp]: "only_at R t k r r"
  by (simp add: only_at_def)

lemma only_at_trans:
  "only_at R t k r r' \<Longrightarrow> only_at R t k r' r'' \<Longrightarrow> only_at R t k r r''"
  by (simp add: only_at_def)

lemma only_at_edit: "edits R j cmd f \<Longrightarrow> now \<le> t \<Longrightarrow> unread_key j \<or> j = k \<Longrightarrow> only_at R t k r (cmd now r)"
  by (auto simp: only_at_def edits_at)

lemma only_at_set: "redis_ok R \<Longrightarrow> now \<le> t \<Longrightarrow> unread_key j \<or> j = k \<Longrightarrow> only_at R t k r (rd_set R j v lapse now r)"
  by (auto simp: only_at_def at_set)

lemma only_at_del: "redis_ok R \<Longrightarrow> now \<le> t \<Longrightarrow> unread_key j \<or> j = k \<Longrightarrow> only_at R t k r (rd_del R j now r)"
  by (auto simp: only_at_def at_del)

lemma only_at_pexpire: "redis_ok R \<Longrightarrow> now \<le> t \<Longrightarrow> unread_key j \<or> j = k \<Longrightarrow> only_at R t k r (rd_pexpire R j ttl now r)"
  by (auto simp: only_at_def at_pexpire)

lemma other_reads:
  assumes "only_at R t k r r'" "\<not> unread_key j" "j \<noteq> k"
  shows "rd_get R t j r' = rd_get R t j r" "rd_zscores R t j r' = rd_zscores R t j r" "rd_hget R t j d r' = rd_hget R t j d r"
    "rd_smembers R t j r' = rd_smembers R t j r"
  using only_atD [OF assms] by (simp_all add: read_defs)

lemmas store_reads = getSession_def getPhoto_def getDeviceSocket_def since_of_def getRoom_def getCoins_def areFriends_def
  getBlock_def getBan_def

text \<open>Each kind of write, given the new value at its key.\<close>

lemma put_session_answers:
  assumes "same_answers R t r m" "only_at R t (KSession (socketId s)) r r'"
    "rd_get R t (KSession (socketId s)) r' = Some (SessionValue s)"
  shows "same_answers R t r' (putSession s m)"
proof -
  note D = same_answersD [OF assms(1)] and O' = other_reads [OF assms(2)] only_atD [OF assms(2)]
  have "rd_get R t (KSession x) r' = map_option SessionValue (getSession (putSession s m) x)" for x
    using D(1) [of x] O'(1) [of "KSession x"] assms(3) by (cases "x = socketId s") (simp_all add: putSession_def getSession_def)
  then show ?thesis by (rule same_answersI) (use D O' in \<open>simp_all add: putSession_def store_reads\<close>)
qed

lemma drop_session_answers:
  assumes "same_answers R t r m" "only_at R t (KSession s) r r'" "rd_get R t (KSession s) r' = None"
  shows "same_answers R t r' (m\<lparr>sessions := jdel (sessions m) s\<rparr>)"
proof -
  note D = same_answersD [OF assms(1)] and O' = other_reads [OF assms(2)] only_atD [OF assms(2)]
  have "rd_get R t (KSession x) r' = map_option SessionValue (getSession (m\<lparr>sessions := jdel (sessions m) s\<rparr>) x)" for x
    using D(1) [of x] O'(1) [of "KSession x"] assms(3) by (cases "x = s") (simp_all add: getSession_def)
  then show ?thesis by (rule same_answersI) (use D O' in \<open>simp_all add: store_reads\<close>)
qed

lemma set_photo_answers:
  assumes "same_answers R t r m" "only_at R t (KPhoto s) r r'" "rd_get R t (KPhoto s) r' = map_option TextValue photo"
  shows "same_answers R t r' (setPhoto s photo m)"
proof -
  note D = same_answersD [OF assms(1)] and O' = other_reads [OF assms(2)] only_atD [OF assms(2)]
  have "rd_get R t (KPhoto x) r' = map_option TextValue (getPhoto (setPhoto s photo m) x)" for x
    using D(2) [of x] O'(1) [of "KPhoto x"] assms(3) by (cases photo; cases "x = s") (simp_all add: setPhoto_def getPhoto_def)
  then show ?thesis
    by (rule same_answersI [rotated]) (use D O' in \<open>simp_all add: setPhoto_def store_reads split: option.splits\<close>)
qed

lemma set_device_answers:
  assumes "same_answers R t r m" "only_at R t (KDevice d) r r'" "rd_get R t (KDevice d) r' = Some (TextValue s)"
  shows "same_answers R t r' (setDeviceSocket d s m)"
proof -
  note D = same_answersD [OF assms(1)] and O' = other_reads [OF assms(2)] only_atD [OF assms(2)]
  have "rd_get R t (KDevice x) r' = map_option TextValue (getDeviceSocket (setDeviceSocket d s m) x)" for x
    using D(3) [of x] O'(1) [of "KDevice x"] assms(3) by (cases "x = d") (simp_all add: setDeviceSocket_def getDeviceSocket_def)
  then show ?thesis by (rule same_answersI [rotated 2]) (use D O' in \<open>simp_all add: setDeviceSocket_def store_reads\<close>)
qed

lemma clear_device_answers:
  assumes "same_answers R t r m" "jget (bindings m) d = Some s" "only_at R t (KDevice d) r r'" "rd_get R t (KDevice d) r' = None"
  shows "same_answers R t r' (clearDeviceSocket d s m)"
proof -
  note D = same_answersD [OF assms(1)] and O' = other_reads [OF assms(3)] only_atD [OF assms(3)]
  have "rd_get R t (KDevice x) r' = map_option TextValue (getDeviceSocket (clearDeviceSocket d s m) x)" for x
    using D(3) [of x] O'(1) [of "KDevice x"] assms(2,4) by (cases "x = d") (simp_all add: clearDeviceSocket_def getDeviceSocket_def)
  then show ?thesis
    by (rule same_answersI [rotated 2]) (use D O' assms(2) in \<open>simp_all add: clearDeviceSocket_def store_reads\<close>)
qed

lemma waiting_answers:
  assumes "same_answers R t r m" "only_at R t KWaiting r r'" "m' = m\<lparr>waiting := waiting m', waitingSinces := waitingSinces m'\<rparr>"
    "\<And>s. jget (rd_zscores R t KWaiting r') (Id s) = since_of m' s"
  shows "same_answers R t r' m'"
proof -
  note D = same_answersD [OF assms(1)] and O' = other_reads [OF assms(2)] only_atD [OF assms(2)]
  have same: "sessions m' = sessions m" "photos m' = photos m" "bindings m' = bindings m" "rooms m' = rooms m" "coins m' = coins m"
    "friends m' = friends m" "blocks m' = blocks m" "bans m' = bans m" "reports m' = reports m"
    by (subst assms(3); simp)+
  show ?thesis by (rule same_answersI) (use D O' same assms(4) in \<open>simp_all add: store_reads\<close>)
qed

lemma room_answers:
  assumes "same_answers R t r m" "only_at R t (KRoom i) r r'" "m' = m\<lparr>rooms := rooms m', pendingRooms := pendingRooms m'\<rparr>"
    "room_matches t (rd_get R t (KRoom i) r') (getRoom m' i)" "\<And>x. x \<noteq> i \<Longrightarrow> getRoom m' x = getRoom m x"
  shows "same_answers R t r' m'"
proof -
  note D = same_answersD [OF assms(1)] and O' = other_reads [OF assms(2)] only_atD [OF assms(2)]
  have same: "sessions m' = sessions m" "photos m' = photos m" "bindings m' = bindings m" "waiting m' = waiting m" "coins m' = coins m"
    "friends m' = friends m" "blocks m' = blocks m" "bans m' = bans m" "reports m' = reports m"
    by (subst assms(3); simp)+
  have "room_matches t (rd_get R t (KRoom x) r') (getRoom m' x)" for x
    using D(5) [of x] O'(1) [of "KRoom x"] assms(4,5) by (cases "x = i") simp_all
  then show ?thesis by (rule same_answersI [rotated 4]) (use D O' same in \<open>simp_all add: store_reads\<close>)
qed

lemma coins_answers:
  assumes "same_answers R t r m" "only_at R t KCoins r r'" "\<And>d. rd_hget R t KCoins d r' = jget cs d"
  shows "same_answers R t r' (m\<lparr>coins := cs\<rparr>)"
proof -
  note D = same_answersD [OF assms(1)] and O' = other_reads [OF assms(2)] only_atD [OF assms(2)]
  show ?thesis by (rule same_answersI) (use D O' assms(3) in \<open>simp_all add: store_reads\<close>)
qed

lemma friends_answers:
  assumes "same_answers R t r m" "id_ok a" "id_ok b" "\<And>j. (\<forall>d. j \<noteq> KFriends d) \<Longrightarrow> rd_at R t r' j = rd_at R t r j"
    "\<And>x y. Id y \<in> set (rd_smembers R t (KFriends x) r') \<longleftrightarrow>
       Id y \<in> set (rd_smembers R t (KFriends x) r) \<or> x = a \<and> y = b \<or> x = b \<and> y = a"
  shows "same_answers R t r' (addFriends a b m)"
proof -
  note D = same_answersD [OF assms(1)]
  have "(Id y \<in> set (rd_smembers R t (KFriends x) r')) = areFriends (addFriends a b m) x y" if "id_ok x" "id_ok y" for x y
    using D(7) [OF that] pairKey_eq_iff [OF that assms(2,3)] assms(5) by (auto simp: addFriends_def areFriends_def)
  then show ?thesis
    by (rule same_answersI [rotated 6]) (use D assms(4) in \<open>simp_all add: read_defs addFriends_def store_reads\<close>)
qed

lemma block_answers:
  assumes "same_answers R t r m" "id_ok a" "id_ok b" "only_at R t (blockKey a b) r r'"
    "m' = m\<lparr>blocks := blocks m', blockWrites := blockWrites m'\<rparr>"
    "rd_get R t (blockKey a b) r' = map_option BlockValue (getBlock t m' a b)"
    "\<And>x y. pairKey x y \<noteq> pairKey a b \<Longrightarrow> getBlock t m' x y = getBlock t m x y"
  shows "same_answers R t r' m'"
proof -
  note D = same_answersD [OF assms(1)] and O' = other_reads [OF assms(4)] only_atD [OF assms(4)]
  have same: "sessions m' = sessions m" "photos m' = photos m" "bindings m' = bindings m" "waiting m' = waiting m" "coins m' = coins m"
    "friends m' = friends m" "rooms m' = rooms m" "bans m' = bans m" "reports m' = reports m"
    by (subst assms(5); simp)+
  have "rd_get R t (blockKey x y) r' = map_option BlockValue (getBlock t m' x y)" if ok: "id_ok x" "id_ok y" for x y
  proof (cases "pairKey x y = pairKey a b")
    case True
    then have "blockKey x y = blockKey a b" using pairKey_eq_iff [OF ok assms(2,3)] blockKey_eq_iff by blast
    moreover have "getBlock t m' x y = getBlock t m' a b" using True by (simp add: getBlock_def)
    ultimately show ?thesis using assms(6) by simp
  next
    case False
    then have "blockKey x y \<noteq> blockKey a b" using pairKey_eq_iff [OF ok assms(2,3)] blockKey_eq_iff by blast
    then show ?thesis using D(8) [OF ok] O'(1) [of "blockKey x y"] assms(7) [OF False] by simp
  qed
  then show ?thesis
    by (rule same_answersI [rotated 7]) (use D O' same in \<open>simp_all add: store_reads(1-7,9)\<close>)
qed

lemma ban_answers:
  assumes "same_answers R t r m" "only_at R t (KBan d) r r'" "rd_get R t (KBan d) r' = map_option TimeValue (getBan t (m\<lparr>bans := bs\<rparr>) d)"
    "\<And>x. x \<noteq> d \<Longrightarrow> jget bs x = jget (bans m) x"
  shows "same_answers R t r' (m\<lparr>bans := bs\<rparr>)"
proof -
  note D = same_answersD [OF assms(1)] and O' = other_reads [OF assms(2)] only_atD [OF assms(2)]
  have "rd_get R t (KBan x) r' = map_option TimeValue (getBan t (m\<lparr>bans := bs\<rparr>) x)" for x
    using D(9) [of x] O'(1) [of "KBan x"] assms(3,4) by (cases "x = d") (simp_all add: getBan_def)
  then show ?thesis by (rule same_answersI [rotated 8]) (use D O' in \<open>simp_all add: store_reads(1-8)\<close>)
qed

lemma report_answers:
  assumes "same_answers R t r m" "only_at R t KReports r r'"
    "m' = m\<lparr>reports := reports m', reportsAgainst := reportsAgainst m', reportWrites := reportWrites m'\<rparr>"
    "list_values (rd_at R t r' KReports) = map ReportValue (reports m')"
  shows "same_answers R t r' m'"
proof -
  note D = same_answersD [OF assms(1)] and O' = other_reads [OF assms(2)] only_atD [OF assms(2)]
  have same: "sessions m' = sessions m" "photos m' = photos m" "bindings m' = bindings m" "waiting m' = waiting m" "coins m' = coins m"
    "friends m' = friends m" "rooms m' = rooms m" "bans m' = bans m" "blocks m' = blocks m"
    by (subst assms(3); simp)+
  show ?thesis by (rule same_answersI) (use D O' same assms(4) in \<open>simp_all add: store_reads\<close>)
qed

text \<open>The calls themselves.\<close>

lemma agreeI:
  assumes "lasting R now r" "queue_ok m" "jwf (blocks m)" "\<And>s x. getSession m s = Some x \<Longrightarrow> id_ok (instanceId x)"
    "\<And>t. now \<le> t \<Longrightarrow> same_answers R t r m"
  shows "agree R now r m"
  using assms unfolding agree_def by blast

lemma agreeD:
  assumes "agree R now r m"
  shows "lasting R now r" "queue_ok m" "jwf (blocks m)" "getSession m s = Some x \<Longrightarrow> id_ok (instanceId x)"
    "now \<le> t \<Longrightarrow> same_answers R t r m"
  using assms unfolding agree_def by blast+

lemma get_other_edit:
  "edits R k cmd f \<Longrightarrow> now \<le> t \<Longrightarrow> j \<noteq> k \<Longrightarrow> rd_get R t j (cmd now r) = rd_get R t j r"
  by (simp add: rd_get_def edits_at)

lemma get_set: "redis_ok R \<Longrightarrow> now \<le> t \<Longrightarrow> rd_get R t k (rd_set R k v lapse now r) = (if over lapse t then None else Some v)"
  by (simp add: rd_get_def at_set)

lemma get_del: "redis_ok R \<Longrightarrow> now \<le> t \<Longrightarrow> rd_get R t k (rd_del R k now r) = None"
  by (simp add: rd_get_def at_del)

lemma agree_put_session:
  assumes R: "redis_ok R" and agree: "agree R now r m" and ids: "id_ok (socketId s)" "id_ok (instanceId s)"
  shows "\<exists>r'. rs_putSession R s now r = Some r' \<and> agree R now r' (putSession s m)"
proof -
  note Ed = redis_edits [OF R] and A = agreeD [OF agree]
  let ?r1 = "rd_set R (KSession (socketId s)) (SessionValue s) None now r"
  let ?r2 = "rd_sadd R KSessions (Id (socketId s)) now ?r1"
  let ?r3 = "rd_sadd R (KInstanceSessions (instanceId s)) (Id (socketId s)) now ?r2"
  have "agree R now ?r3 (putSession s m)"
  proof (rule agreeI)
    show "lasting R now ?r3" by (intro lasting_edit [OF Ed(1)] lasting_set [OF R A(1)]) simp
    show "queue_ok (putSession s m)" using A(2) by (simp add: queue_ok_def putSession_def)
    show "jwf (blocks (putSession s m))" using A(3) by (simp add: putSession_def)
    show "id_ok (instanceId x)" if "getSession (putSession s m) k = Some x" for k x
      using that A(4) [of k x] ids(2) by (auto simp: putSession_def getSession_def split: if_splits)
    fix t assume t: "now \<le> t"
    have "only_at R t (KSession (socketId s)) r ?r3"
      by (rule only_at_trans [OF only_at_trans [OF only_at_set [OF R t] only_at_edit [OF Ed(1) t]] only_at_edit [OF Ed(1) t]]) simp_all
    moreover have "rd_get R t (KSession (socketId s)) ?r3 = Some (SessionValue s)"
      by (simp add: get_other_edit [OF Ed(1) t] get_set [OF R t])
    ultimately show "same_answers R t ?r3 (putSession s m)" by (rule put_session_answers [OF A(5) [OF t]])
  qed
  then show ?thesis using ids by (simp add: rs_putSession_def with_ids_def)
qed

text \<open>A write of one text, or its removal, that touches no queue, block or session.\<close>

lemma agree_text:
  assumes R: "redis_ok R" and agree: "agree R now r m"
    and "lasting R now r'" "queue_ok m' = queue_ok m" "blocks m' = blocks m" "sessions m' = sessions m"
    "\<And>t. now \<le> t \<Longrightarrow> same_answers R t r' m'"
  shows "agree R now r' m'"
  using agreeD [OF agree] assms(3-7) by (auto simp: agree_def getSession_def)

lemma agree_set_photo:
  assumes R: "redis_ok R" and agree: "agree R now r m" and ids: "id_ok s"
  shows "\<exists>r'. rs_setPhoto R s photo now r = Some r' \<and> agree R now r' (setPhoto s photo m)"
proof -
  note Ed = redis_edits [OF R] and A = agreeD [OF agree]
  define r' where "r' = (case photo of None \<Rightarrow> rd_del R (KPhoto s) now r | Some p \<Rightarrow> rd_set R (KPhoto s) (TextValue p) None now r)"
  have "agree R now r' (setPhoto s photo m)"
  proof (rule agree_text [OF R agree])
    show "lasting R now r'" using lasting_del [OF R A(1)] lasting_set [OF R A(1)] by (auto simp: r'_def split: option.splits)
    show "same_answers R t r' (setPhoto s photo m)" if t: "now \<le> t" for t
      by (rule set_photo_answers [OF A(5) [OF t]])
        (auto simp: r'_def get_del [OF R t] get_set [OF R t] only_at_del [OF R t] only_at_set [OF R t] split: option.splits)
  qed (auto simp: queue_ok_def setPhoto_def split: option.splits)
  then show ?thesis using ids by (simp add: rs_setPhoto_def with_ids_def r'_def)
qed

lemma agree_delete_session:
  assumes R: "redis_ok R" and agree: "agree R now r m" and ids: "id_ok s"
  shows "\<exists>r'. rs_deleteSession R s now r = Some r' \<and> agree R now r' (deleteSession s m)"
proof -
  note Ed = redis_edits [OF R] and A = agreeD [OF agree]
  let ?r1 = "rd_srem R KSessions (Id s) now (rd_del R (KSession s) now r)"
  let ?m1 = "m\<lparr>sessions := jdel (sessions m) s\<rparr>"
  have one: "agree R now ?r1 ?m1"
  proof (rule agreeI)
    show "lasting R now ?r1" by (intro lasting_edit [OF Ed(2)] lasting_del [OF R A(1)]) simp
    show "queue_ok ?m1" using A(2) by (simp add: queue_ok_def)
    show "id_ok (instanceId x)" if "getSession ?m1 k = Some x" for k x
      using that A(4) [of k x] by (simp add: getSession_def split: if_splits)
    fix t assume t: "now \<le> t"
    show "same_answers R t ?r1 ?m1"
      by (rule drop_session_answers [OF A(5) [OF t]], rule only_at_trans [OF only_at_del [OF R t] only_at_edit [OF Ed(2) t]])
        (simp_all add: get_other_edit [OF Ed(2) t] get_del [OF R t])
  qed (use A(3) in simp)
  obtain r2 where r2: "rs_setPhoto R s None now ?r1 = Some r2" and two: "agree R now r2 (setPhoto s None ?m1)"
    using agree_set_photo [OF R one ids] by blast
  have m2: "setPhoto s None ?m1 = deleteSession s m" by (simp add: setPhoto_def deleteSession_def)
  have r2': "r2 = rd_del R (KPhoto s) now ?r1" using r2 ids by (simp add: rs_setPhoto_def with_ids_def)
  have three: "agree R now (rd_srem R (KInstanceSessions i) (Id s) now r2) (deleteSession s m)" for i
  proof (rule agree_text [OF R two [unfolded m2]])
    show "lasting R now (rd_srem R (KInstanceSessions i) (Id s) now r2)" by (rule lasting_edit [OF Ed(2) agreeD(1) [OF two]])
    fix t assume t: "now \<le> t"
    have same: "rd_at R t (rd_srem R (KInstanceSessions i) (Id s) now r2) j = rd_at R t r2 j" if "\<not> unread_key j" for j
      using that by (auto simp: edits_at [OF Ed(2) t])
    show "same_answers R t (rd_srem R (KInstanceSessions i) (Id s) now r2) (deleteSession s m)"
      by (rule same_answersI) (use same_answersD [OF agreeD(5) [OF two t, unfolded m2]] in \<open>simp_all add: read_defs same\<close>)
  qed simp_all
  have old: "session_value (rd_get R now (KSession s) r) = getSession m s"
    using same_answersD(1) [OF A(5) [OF order_refl], of s] by (cases "getSession m s") simp_all
  show ?thesis
  proof (cases "getSession m s")
    case None
    then show ?thesis
      using two ids old by (simp add: rs_deleteSession_def rs_getSession_def with_ids_def m2 r2' Let_def)
  next
    case (Some x)
    then show ?thesis
      using three [of "instanceId x"] ids old A(4) [OF Some]
      by (simp add: rs_deleteSession_def rs_getSession_def with_ids_def r2' Let_def)
  qed
qed

lemma agree_set_device:
  assumes R: "redis_ok R" and agree: "agree R now r m" and ids: "id_ok d"
  shows "\<exists>r'. rs_setDeviceSocket R d s now r = Some r' \<and> agree R now r' (setDeviceSocket d s m)"
proof -
  note Ed = redis_edits [OF R] and A = agreeD [OF agree]
  have "agree R now (rd_set R (KDevice d) (TextValue s) None now r) (setDeviceSocket d s m)"
  proof (rule agree_text [OF R agree])
    show "lasting R now (rd_set R (KDevice d) (TextValue s) None now r)" by (rule lasting_set [OF R A(1)]) simp
    show "same_answers R t (rd_set R (KDevice d) (TextValue s) None now r) (setDeviceSocket d s m)" if t: "now \<le> t" for t
      by (rule set_device_answers [OF A(5) [OF t]]) (simp_all add: only_at_set [OF R t] get_set [OF R t])
  qed (simp_all add: queue_ok_def setDeviceSocket_def)
  then show ?thesis using ids by (simp add: rs_setDeviceSocket_def with_ids_def)
qed

lemma agree_clear_device:
  assumes R: "redis_ok R" and agree: "agree R now r m" and ids: "id_ok d"
  shows "\<exists>r'. rs_clearDeviceSocket R d s now r = Some r' \<and> agree R now r' (clearDeviceSocket d s m)"
proof -
  note Ed = redis_edits [OF R] and A = agreeD [OF agree]
  have bound: "rd_get R now (KDevice d) r = map_option TextValue (jget (bindings m) d)"
    using same_answersD(3) [OF A(5) [OF order_refl], of d] by (simp add: getDeviceSocket_def)
  have "agree R now (fst (delIfEqual R (KDevice d) (TextValue s) now r)) (clearDeviceSocket d s m)"
  proof (cases "jget (bindings m) d = Some s")
    case True
    have "agree R now (rd_del R (KDevice d) now r) (clearDeviceSocket d s m)"
    proof (rule agree_text [OF R agree])
      show "lasting R now (rd_del R (KDevice d) now r)" by (rule lasting_del [OF R A(1)]) simp
      show "same_answers R t (rd_del R (KDevice d) now r) (clearDeviceSocket d s m)" if t: "now \<le> t" for t
        by (rule clear_device_answers [OF A(5) [OF t] True]) (simp_all add: only_at_del [OF R t] get_del [OF R t])
    qed (simp_all add: queue_ok_def clearDeviceSocket_def)
    then show ?thesis using True bound by (simp add: delIfEqual_def)
  next
    case False
    then have "rd_get R now (KDevice d) r \<noteq> Some (TextValue s)" using bound by (cases "jget (bindings m) d") simp_all
    then show ?thesis using False agree by (simp add: delIfEqual_def clearDeviceSocket_def)
  qed
  then show ?thesis using ids by (simp add: rs_clearDeviceSocket_def with_ids_def)
qed

lemma agree_waiting:
  assumes R: "redis_ok R" and agree: "agree R now r m"
  shows "agree R now (rs_addWaiting R s since now r) (addWaiting s since m)" and "agree R now (rs_removeWaiting R s now r) (removeWaiting s m)"
proof -
  note Ed = redis_edits [OF R] and A = agreeD [OF agree]
  have fields: "addWaiting s since m = m\<lparr>waiting := waiting (addWaiting s since m), waitingSinces := waitingSinces (addWaiting s since m)\<rparr>"
    "removeWaiting s m = m\<lparr>waiting := waiting (removeWaiting s m), waitingSinces := waitingSinces (removeWaiting s m)\<rparr>"
    by (auto simp: addWaiting_def removeWaiting_def removeFromQueue_def Let_def split: option.splits)
  have sess: "sessions (addWaiting s since m) = sessions m" "sessions (removeWaiting s m) = sessions m" by (subst fields; simp)+
  have scores: "jget (zset_scores (rd_at R now r KWaiting)) (Id k) = since_of m k" for k
    using same_answersD(4) [OF A(5) [OF order_refl], of k] by (simp add: rd_zscores_def)
  show "agree R now (rs_addWaiting R s since now r) (addWaiting s since m)"
  proof (rule agreeI)
    show "lasting R now (rs_addWaiting R s since now r)" unfolding rs_addWaiting_def by (rule lasting_edit [OF Ed(3) A(1)])
    show "queue_ok (addWaiting s since m)" by (rule addWaiting_ok [OF A(2)])
    show "jwf (blocks (addWaiting s since m))" using A(3) by (subst fields) simp
    show "id_ok (instanceId x)" if "getSession (addWaiting s since m) k = Some x" for k x
      using A(4) [of k x] that by (simp add: getSession_def sess)
    fix t assume t: "now \<le> t"
    show "same_answers R t (rs_addWaiting R s since now r) (addWaiting s since m)"
    proof (rule waiting_answers [OF A(5) [OF t] _ fields(1)])
      show "only_at R t KWaiting r (rs_addWaiting R s since now r)"
        unfolding rs_addWaiting_def by (rule only_at_edit [OF Ed(3) t]) simp
      show "jget (rd_zscores R t KWaiting (rs_addWaiting R s since now r)) (Id k) = since_of (addWaiting s since m) k" for k
        unfolding rs_addWaiting_def rd_zscores_def edit_lasting [OF Ed(3) A(1) lasting_key_simps(1) t]
        by (simp add: scores since_of_add [OF A(2)])
    qed
  qed
  show "agree R now (rs_removeWaiting R s now r) (removeWaiting s m)"
  proof (rule agreeI)
    show "lasting R now (rs_removeWaiting R s now r)" unfolding rs_removeWaiting_def by (rule lasting_edit [OF Ed(5) A(1)])
    show "queue_ok (removeWaiting s m)" unfolding removeWaiting_def by (rule removeFromQueue_ok [OF A(2)])
    show "jwf (blocks (removeWaiting s m))" using A(3) by (subst fields) simp
    show "id_ok (instanceId x)" if "getSession (removeWaiting s m) k = Some x" for k x
      using A(4) [of k x] that by (simp add: getSession_def sess)
    fix t assume t: "now \<le> t"
    show "same_answers R t (rs_removeWaiting R s now r) (removeWaiting s m)"
    proof (rule waiting_answers [OF A(5) [OF t] _ fields(2)])
      show "only_at R t KWaiting r (rs_removeWaiting R s now r)"
        unfolding rs_removeWaiting_def by (rule only_at_edit [OF Ed(5) t]) simp
      show "jget (rd_zscores R t KWaiting (rs_removeWaiting R s now r)) (Id k) = since_of (removeWaiting s m) k" for k
        unfolding rs_removeWaiting_def rd_zscores_def edit_lasting [OF Ed(5) A(1) lasting_key_simps(1) t]
        by (simp add: scores since_of_remove [OF A(2)])
    qed
  qed
qed

lemma agree_put_room:
  assumes R: "redis_ok R" and agree: "agree R now r m"
  shows "agree R now (rs_putRoom R rm now r) (putRoom rm m)"
proof -
  note Ed = redis_edits [OF R] and A = agreeD [OF agree]
  let ?k = "KRoom (room_id rm)"
  let ?lapse = "if room_state rm = RPending then Some (now + (max 0 (expiresAt rm - now) + PENDING_ROOM_GRACE_MS)) else None"
  let ?r1 = "rd_set R ?k (RoomValue rm) ?lapse now r"
  have get: "rd_get R t ?k (rs_putRoom R rm now r) = (if over ?lapse t then None else Some (RoomValue rm))" if t: "now \<le> t" for t
    by (simp add: rs_putRoom_def Let_def get_other_edit [OF Ed(1) t] get_other_edit [OF Ed(2) t] get_other_edit [OF Ed(3) t]
        get_other_edit [OF Ed(5) t] get_set [OF R t])
  have only: "only_at R t ?k r (rs_putRoom R rm now r)" if t: "now \<le> t" for t
    unfolding rs_putRoom_def Let_def
    by (auto intro: only_at_trans [OF only_at_trans [OF only_at_set [OF R t] only_at_edit [OF Ed(3) t]] only_at_edit [OF Ed(2) t]]
        only_at_trans [OF only_at_trans [OF only_at_set [OF R t] only_at_edit [OF Ed(5) t]] only_at_edit [OF Ed(1) t]])
  show ?thesis
  proof (rule agree_text [OF R agree])
    show "lasting R now (rs_putRoom R rm now r)"
      unfolding rs_putRoom_def Let_def
      by (auto intro!: lasting_edit [OF Ed(1)] lasting_edit [OF Ed(2)] lasting_edit [OF Ed(3)] lasting_edit [OF Ed(5)] lasting_set [OF R A(1)])
    fix t assume t: "now \<le> t"
    have "room_matches t (rd_get R t ?k (rs_putRoom R rm now r)) (Some rm)"
      by (auto simp: get [OF t] room_matches_def over_def)
    then show "same_answers R t (rs_putRoom R rm now r) (putRoom rm m)"
      by (intro room_answers [OF A(5) [OF t] only [OF t]]) (simp_all add: putRoom_def getRoom_def)
  qed (simp_all add: queue_ok_def putRoom_def)
qed

lemma agree_delete_room:
  assumes R: "redis_ok R" and agree: "agree R now r m"
  shows "agree R now (rs_deleteRoom R i now r) (deleteRoom i m)"
proof -
  note Ed = redis_edits [OF R] and A = agreeD [OF agree]
  have get: "rd_get R t (KRoom i) (rs_deleteRoom R i now r) = None" if t: "now \<le> t" for t
    by (simp add: rs_deleteRoom_def get_other_edit [OF Ed(2) t] get_other_edit [OF Ed(5) t] get_del [OF R t])
  have only: "only_at R t (KRoom i) r (rs_deleteRoom R i now r)" if t: "now \<le> t" for t
    unfolding rs_deleteRoom_def
    by (rule only_at_trans [OF only_at_trans [OF only_at_del [OF R t] only_at_edit [OF Ed(5) t]] only_at_edit [OF Ed(2) t]]) simp_all
  show ?thesis
  proof (rule agree_text [OF R agree])
    show "lasting R now (rs_deleteRoom R i now r)"
      unfolding rs_deleteRoom_def by (intro lasting_edit [OF Ed(2)] lasting_edit [OF Ed(5)] lasting_del [OF R A(1)]) simp
    show "same_answers R t (rs_deleteRoom R i now r) (deleteRoom i m)" if t: "now \<le> t" for t
      by (intro room_answers [OF A(5) [OF t] only [OF t]]) (simp_all add: deleteRoom_def getRoom_def get [OF t] room_matches_def)
  qed (simp_all add: queue_ok_def deleteRoom_def)
qed

lemma agree_add_coins:
  assumes R: "redis_ok R" and agree: "agree R now r m"
  shows "agree R now (fst (rs_addCoins R d delta initial now r)) (fst (addCoins d delta initial m))"
    and "snd (rs_addCoins R d delta initial now r) = Some (snd (addCoins d delta initial m))"
proof -
  note Ed = redis_edits [OF R] and A = agreeD [OF agree]
  let ?r1 = "rd_hsetnx R KCoins d initial now r"
  let ?r2 = "rd_hincrby R KCoins d delta now ?r1"
  let ?balance = "(case jget (coins m) d of None \<Rightarrow> initial | Some b \<Rightarrow> b) + delta"
  have coins: "jget (hash_fields (rd_at R now r KCoins)) x = jget (coins m) x" for x
    using same_answersD(6) [OF A(5) [OF order_refl], of x] by (simp add: rd_hget_def getCoins_def)
  have l1: "lasting R now ?r1" by (rule lasting_edit [OF Ed(6) A(1)])
  have hget: "rd_hget R t KCoins x ?r2 = (if x = d then Some ?balance else jget (coins m) x)" if t: "now \<le> t" for t x
    unfolding rd_hget_def edit_lasting [OF Ed(7) l1 lasting_key_simps(2) t] edit_lasting [OF Ed(6) A(1) lasting_key_simps(2) order_refl]
    using coins by (simp split: option.splits)
  show "agree R now (fst (rs_addCoins R d delta initial now r)) (fst (addCoins d delta initial m))"
  proof (rule agree_text [OF R agree])
    show "lasting R now (fst (rs_addCoins R d delta initial now r))"
      unfolding rs_addCoins_def Let_def fst_conv by (rule lasting_edit [OF Ed(7) l1])
    fix t assume t: "now \<le> t"
    have "only_at R t KCoins r ?r2" by (rule only_at_trans [OF only_at_edit [OF Ed(6) t] only_at_edit [OF Ed(7) t]]) simp_all
    then show "same_answers R t (fst (rs_addCoins R d delta initial now r)) (fst (addCoins d delta initial m))"
      unfolding rs_addCoins_def addCoins_def Let_def fst_conv
      by (rule coins_answers [OF A(5) [OF t]]) (simp add: hget [OF t])
  qed (simp_all add: queue_ok_def addCoins_def Let_def)
  show "snd (rs_addCoins R d delta initial now r) = Some (snd (addCoins d delta initial m))"
    by (simp add: rs_addCoins_def addCoins_def Let_def hget)
qed

lemma agree_add_friends:
  assumes R: "redis_ok R" and agree: "agree R now r m" and ids: "id_ok a" "id_ok b"
  shows "\<exists>r'. rs_addFriends R a b now r = Some r' \<and> agree R now r' (addFriends a b m)"
proof -
  note Ed = redis_edits [OF R] and A = agreeD [OF agree]
  let ?r1 = "rd_sadd R (KFriends a) (Id b) now r"
  let ?r2 = "rd_sadd R (KFriends b) (Id a) now ?r1"
  have l1: "lasting R now ?r1" by (rule lasting_edit [OF Ed(1) A(1)])
  have "agree R now ?r2 (addFriends a b m)"
  proof (rule agree_text [OF R agree])
    show "lasting R now ?r2" by (rule lasting_edit [OF Ed(1) l1])
    fix t assume t: "now \<le> t"
    have one: "rd_at R u ?r1 (KFriends x) = (if x = a then set_entry (sadd (Id b) (set_members (rd_at R now r (KFriends a)))) else rd_at R u r (KFriends x))"
      if "now \<le> u" for u x
      using edit_lasting [OF Ed(1) A(1) _ that, of "KFriends a"] edits_at [OF Ed(1) that] by simp
    have two: "rd_at R t ?r2 (KFriends x) = (if x = b then set_entry (sadd (Id a) (set_members (rd_at R now ?r1 (KFriends b)))) else rd_at R t ?r1 (KFriends x))" for x
      using edit_lasting [OF Ed(1) l1 _ t, of "KFriends b"] edits_at [OF Ed(1) t] by simp
    have keep: "rd_at R t r (KFriends x) = rd_at R now r (KFriends x)" for x by (rule lastingD [OF A(1) _ t]) simp
    show "same_answers R t ?r2 (addFriends a b m)"
    proof (rule friends_answers [OF A(5) [OF t] ids])
      show "rd_at R t ?r2 j = rd_at R t r j" if "\<forall>d. j \<noteq> KFriends d" for j
        using that by (simp add: edits_at [OF Ed(1) t])
      show "Id y \<in> set (rd_smembers R t (KFriends x) ?r2) \<longleftrightarrow>
          Id y \<in> set (rd_smembers R t (KFriends x) r) \<or> x = a \<and> y = b \<or> x = b \<and> y = a" for x y
        by (auto simp: rd_smembers_def two one [OF t] one [OF order_refl] keep)
    qed
  qed (simp_all add: queue_ok_def addFriends_def)
  then show ?thesis using ids by (simp add: rs_addFriends_def with_ids_def)
qed

lemma agree_set_block:
  assumes R: "redis_ok R" and agree: "agree R now r m" and ids: "id_ok a" "id_ok b" and kept: "1 \<le> retain"
  shows "\<exists>r'. rs_setBlock R a b block retain now r = Some r' \<and> agree R now r' (setBlock now a b block retain m)"
proof -
  note Ed = redis_edits [OF R] and A = agreeD [OF agree]
  let ?r = "rd_set R (blockKey a b) (BlockValue block) (Some (now + retain)) now r"
  let ?m = "setBlock now a b block retain m"
  have live: "getBlock t ?m x y = (if pairKey x y = pairKey a b then if now + retain \<le> t then None else Some block else getBlock t m x y)"
    if "now \<le> t" for t x y
    using that live_keep_live [OF jwf_jset [OF A(3)], of now t]
    by (simp add: setBlock_def getBlock_def Let_def)
  have fields: "?m = m\<lparr>blocks := blocks ?m, blockWrites := blockWrites ?m\<rparr>" by (simp add: setBlock_def Let_def)
  have "agree R now ?r ?m"
  proof (rule agreeI)
    show "lasting R now ?r" by (rule lasting_set [OF R A(1)]) simp
    show "queue_ok ?m" using A(2) by (simp add: queue_ok_def setBlock_def Let_def)
    show "jwf (blocks ?m)" using A(3) by (simp add: setBlock_def Let_def)
    show "id_ok (instanceId x)" if "getSession ?m k = Some x" for k x
      using A(4) [of k x] that by (simp add: getSession_def setBlock_def Let_def)
    fix t assume t: "now \<le> t"
    show "same_answers R t ?r ?m"
      by (rule block_answers [OF A(5) [OF t] ids _ fields])
        (simp_all add: only_at_set [OF R t] get_set [OF R t] live [OF t] over_def)
  qed
  then show ?thesis using ids kept by (simp add: rs_setBlock_def with_ids_def max_def)
qed

lemma agree_set_ban:
  assumes R: "redis_ok R" and agree: "agree R now r m" and ids: "id_ok d"
  shows "\<exists>r'. rs_setBan R d u now r = Some r' \<and> agree R now r' (setBan now d u m)"
proof -
  note Ed = redis_edits [OF R] and A = agreeD [OF agree]
  define r' where "r' = (if u \<le> now then rd_del R (KBan d) now r else rd_set R (KBan d) (TimeValue u) (Some u) now r)"
  define bs where "bs = (if u \<le> now then jdel (bans m) d else jset (bans m) d u)"
  have m': "setBan now d u m = m\<lparr>bans := bs\<rparr>" by (simp add: setBan_def bs_def)
  have "agree R now r' (m\<lparr>bans := bs\<rparr>)"
  proof (rule agree_text [OF R agree])
    show "lasting R now r'" using lasting_del [OF R A(1)] lasting_set [OF R A(1)] by (simp add: r'_def)
    show "same_answers R t r' (m\<lparr>bans := bs\<rparr>)" if t: "now \<le> t" for t
      by (rule ban_answers [OF A(5) [OF t], of d])
        (simp_all add: r'_def bs_def getBan_def get_del [OF R t] get_set [OF R t] only_at_del [OF R t] only_at_set [OF R t] over_def)
  qed (simp_all add: queue_ok_def)
  then show ?thesis using ids by (simp add: rs_setBan_def with_ids_def r'_def m')
qed

lemma agree_add_report:
  assumes R: "redis_ok R" and agree: "agree R now r m" and ids: "id_ok (rp_reportedDevice rep)"
  shows "\<exists>r'. rs_addReport R rep now r = Some r' \<and> agree R now r' (addReport now rep m)"
proof -
  note Ed = redis_edits [OF R] and A = agreeD [OF agree]
  let ?k = "KReportsAgainst (rp_reportedDevice rep)"
  let ?r1 = "rd_rpush R KReports (ReportValue rep) now r"
  let ?r2 = "rd_ltrim R KReports REPORT_LOG_MAX now ?r1"
  let ?r3 = "rd_zadd_gt R ?k (rp_ts rep) (Id (rp_reporterDevice rep)) now ?r2"
  let ?r4 = "rd_pexpire R ?k REPORTS_AGAINST_TTL_MS now ?r3"
  let ?m = "addReport now rep m"
  have fields: "?m = m\<lparr>reports := reports ?m, reportsAgainst := reportsAgainst ?m, reportWrites := reportWrites ?m\<rparr>"
    by (simp add: addReport_def Let_def)
  have log: "list_values (rd_at R now r KReports) = map ReportValue (reports m)" using same_answersD(10) [OF A(5) [OF order_refl]] .
  have l1: "lasting R now ?r1" by (rule lasting_edit [OF Ed(8) A(1)])
  have l2: "lasting R now ?r2" by (rule lasting_edit [OF Ed(9) l1])
  have "agree R now ?r4 ?m"
  proof (rule agree_text [OF R agree])
    show "lasting R now ?r4" by (rule lasting_pexpire [OF R lasting_edit [OF Ed(4) l2]]) simp
    fix t assume t: "now \<le> t"
    have only: "only_at R t KReports r ?r4"
      by (rule only_at_trans [OF only_at_trans [OF only_at_trans [OF only_at_edit [OF Ed(8) t] only_at_edit [OF Ed(9) t]] only_at_edit [OF Ed(4) t]] only_at_pexpire [OF R t]]) simp_all
    have "rd_at R t ?r4 KReports = rd_at R t ?r2 KReports" by (simp add: at_pexpire [OF R t] edits_at [OF Ed(4) t])
    also have "list_values \<dots> = drop (length (reports m) + 1 - REPORT_LOG_MAX) (map ReportValue (reports m @ [rep]))"
      unfolding edit_lasting [OF Ed(9) l1 lasting_key_simps(3) t] edit_lasting [OF Ed(8) A(1) lasting_key_simps(3) order_refl]
      by (simp add: log Let_def)
    finally have "list_values (rd_at R t ?r4 KReports) = map ReportValue (reports ?m)"
      by (simp add: addReport_def Let_def drop_map REPORT_LOG_MAX_def)
    then show "same_answers R t ?r4 ?m" by (rule report_answers [OF A(5) [OF t] only fields])
  qed (simp_all add: queue_ok_def addReport_def Let_def)
  then show ?thesis using ids by (simp add: rs_addReport_def with_ids_def)
qed

section \<open>Runs of calls\<close>

lemma agree_call:
  assumes "redis_ok R" "agree R now r m" "call_ok c"
  shows "\<exists>r'. redis_do R now c r = Some r' \<and> agree R now r' (mem_do now c m)"
  using assms agree_put_session [OF assms(1,2)] agree_delete_session [OF assms(1,2)] agree_set_photo [OF assms(1,2)]
    agree_set_device [OF assms(1,2)] agree_clear_device [OF assms(1,2)] agree_waiting [OF assms(1,2)] agree_put_room [OF assms(1,2)]
    agree_delete_room [OF assms(1,2)] agree_add_coins(1) [OF assms(1,2)] agree_add_friends [OF assms(1,2)]
    agree_set_block [OF assms(1,2)] agree_set_ban [OF assms(1,2)] agree_add_report [OF assms(1,2)]
  by (cases c) simp_all

text \<open>Calls with the times they are made at; a call that throws ends the run.\<close>

fun mem_run :: "(millis \<times> store_call) list \<Rightarrow> store \<Rightarrow> store" where
  "mem_run [] m = m"
| "mem_run ((t, c) # cs) m = mem_run cs (mem_do t c m)"

fun redis_run :: "'r redis \<Rightarrow> (millis \<times> store_call) list \<Rightarrow> 'r \<Rightarrow> 'r option" where
  "redis_run R [] r = Some r"
| "redis_run R ((t, c) # cs) r = (case redis_do R t c r of None \<Rightarrow> None | Some r' \<Rightarrow> redis_run R cs r')"

lemma agree_run:
  assumes "redis_ok R" "agree R now r m" "sorted (now # map fst cs)" "\<forall>c \<in> set cs. call_ok (snd c)"
  shows "\<exists>r'. redis_run R cs r = Some r' \<and> agree R (last (now # map fst cs)) r' (mem_run cs m)"
  using assms(2-4)
proof (induction cs arbitrary: now r m)
  case (Cons tc cs)
  obtain t c where tc: "tc = (t, c)" by (cases tc)
  have "agree R t r m" using agree_later [OF Cons.prems(1)] Cons.prems(2) tc by simp
  then obtain r1 where r1: "redis_do R t c r = Some r1" "agree R t r1 (mem_do t c m)"
    using agree_call [OF assms(1)] Cons.prems(3) tc by fastforce
  have "sorted (t # map fst cs)" "\<forall>c \<in> set cs. call_ok (snd c)" using Cons.prems(2,3) tc by auto
  from Cons.IH [OF r1(2) this] show ?case using r1(1) tc by (auto split: if_splits)
qed simp

lemma agree_empty:
  assumes "\<And>t k. rd_at R t r k = None"
  shows "agree R now r new_store"
  by (rule agreeI) (simp_all add: lasting_def assms queue_ok_def new_store_def getSession_def same_answers_def read_defs getPhoto_def
      getDeviceSocket_def since_of_def room_matches_def getRoom_def getCoins_def areFriends_def getBlock_def getBan_def)



section \<open>The queue of Redis keeps the queue's contract\<close>

definition zq_ok :: "'r redis \<Rightarrow> millis \<Rightarrow> 'r \<Rightarrow> bool" where
  "zq_ok R now r \<longleftrightarrow> jwf (rd_zscores R now KWaiting r) \<and> (\<forall>k \<in> set (jkeys (rd_zscores R now KWaiting r)). \<exists>s. k = Id s)"

definition zq_since :: "'r redis \<Rightarrow> millis \<Rightarrow> 'r \<Rightarrow> socket_id \<Rightarrow> millis option" where
  "zq_since R now r s = jget (rd_zscores R now KWaiting r) (Id s)"

lemma zq_scores_after:
  assumes "redis_ok R"
  shows "rd_zscores R now KWaiting (rs_addWaiting R s t now r) = jset (rd_zscores R now KWaiting r) (Id s) t"
    and "rd_zscores R now KWaiting (rs_removeWaiting R s now r) = jdel (rd_zscores R now KWaiting r) (Id s)"
  using edits_at [OF redis_edits(3) [OF assms], of now now KWaiting t "Id s" r KWaiting]
    edits_at [OF redis_edits(5) [OF assms], of now now KWaiting "Id s" r KWaiting]
  by (auto simp: rd_zscores_def rs_addWaiting_def rs_removeWaiting_def split: if_splits)

lemma filter_jset: "filter (\<lambda>p. fst p \<noteq> k) (jset z k v) = filter (\<lambda>p. fst p \<noteq> k) z"
  by (induction z) auto

abbreviation zq_key :: "'r redis \<Rightarrow> id_text \<times> millis \<Rightarrow> millis \<times> string" where
  "zq_key R \<equiv> (\<lambda>(m, score). (score, id_string (rd_uuid R) m))"

lemma zq_list:
  assumes "zq_ok R now r"
  shows "set (rs_listWaiting R now r) = {s. zq_since R now r s \<noteq> None}" and "distinct (rs_listWaiting R now r)"
proof -
  let ?z = "rd_zscores R now KWaiting r"
  have ids: "\<And>k. k \<in> fst ` set ?z \<Longrightarrow> \<exists>s. k = Id s" using assms by (auto simp: zq_ok_def jkeys_def)
  have "s \<in> set (rs_listWaiting R now r) \<longleftrightarrow> Id s \<in> fst ` set ?z" for s
    using ids by (force simp: rs_listWaiting_def rd_zrange_def image_iff)
  then show "set (rs_listWaiting R now r) = {s. zq_since R now r s \<noteq> None}"
    by (auto simp: zq_since_def jget_None_iff jkeys_def)
  have "distinct (map fst (sort_key (zq_key R) ?z))" using assms by (simp add: zq_ok_def jwf_def jkeys_def distinct_map)
  moreover have "inj_on (id_string (rd_uuid R)) (fst ` set ?z)" 
  proof (rule inj_onI)
    fix a b assume "a \<in> fst ` set ?z" "b \<in> fst ` set ?z" "id_string (rd_uuid R) a = id_string (rd_uuid R) b"
    with ids [of a] ids [of b] show "a = b" by auto
  qed
  ultimately show "distinct (rs_listWaiting R now r)"
    by (simp add: rs_listWaiting_def rd_zrange_def distinct_map comp_inj_on)
qed

lemma zq_filter:
  assumes "\<And>p. p \<in> set z \<Longrightarrow> \<exists>x. fst p = Id x"
  shows "filter (\<lambda>x. x \<noteq> s) (map (id_string u \<circ> fst) (sort_key f z)) =
    map (id_string u \<circ> fst) (sort_key f (filter (\<lambda>p. fst p \<noteq> Id s) z))"
proof -
  have "filter (\<lambda>p. (id_string u \<circ> fst) p \<noteq> s) (sort_key f z) = filter (\<lambda>p. fst p \<noteq> Id s) (sort_key f z)"
    using assms by (intro filter_cong) (auto, metis id_string.simps(1))
  then show ?thesis by (simp add: filter_map comp_def filter_sort)
qed

lemma zq_sorted:
  assumes "zq_ok R now r"
  shows "sorted_wrt (\<lambda>a b. the (zq_since R now r a) \<le> the (zq_since R now r b)) (rs_listWaiting R now r)"
proof -
  let ?z = "rd_zscores R now KWaiting r" let ?l = "sort_key (zq_key R) ?z"
  have val: "the (zq_since R now r (id_string (rd_uuid R) (fst p))) = snd p" if "p \<in> set ?l" for p
  proof -
    have "p \<in> set ?z" using that by simp
    then obtain x where "fst p = Id x" using assms unfolding zq_ok_def jkeys_def by force
    moreover have "jget ?z (fst p) = Some (snd p)" using assms \<open>p \<in> set ?z\<close> unfolding zq_ok_def by (intro in_jget) auto
    ultimately show ?thesis by (simp add: zq_since_def)
  qed
  have "sorted_wrt (\<lambda>p q. zq_key R p \<le> zq_key R q) ?l" using sorted_sort_key [of "zq_key R" ?z] by (simp add: sorted_map)
  then have "sorted_wrt (\<lambda>p q. the (zq_since R now r (id_string (rd_uuid R) (fst p))) \<le> the (zq_since R now r (id_string (rd_uuid R) (fst q)))) ?l"
    by (rule sorted_wrt_mono_rel [rotated]) (auto simp: val less_eq_prod_def split: prod.splits)
  then show ?thesis by (simp add: rs_listWaiting_def rd_zrange_def sorted_wrt_map)
qed

lemma redis_queue:
  assumes R: "redis_ok R"
  shows "wait_queue (rs_listWaiting R now) (zq_since R now) (\<lambda>s t. rs_addWaiting R s t now) (\<lambda>s. rs_removeWaiting R s now) (zq_ok R now)"
proof
  fix r s k and t :: millis
  note after = zq_scores_after [OF R]
  assume ok: "zq_ok R now r"
  let ?z = "rd_zscores R now KWaiting r"
  have ids: "\<exists>x. fst p = Id x" if "p \<in> set ?z" for p using ok that by (auto simp: zq_ok_def jkeys_def)
  have ids': "\<exists>x. fst p = Id x" if "p \<in> set (jset ?z (Id s) t)" for p
  proof -
    have "fst p \<in> set (jkeys (jset ?z (Id s) t))" using that by (simp add: jkeys_def)
    then have "fst p = Id s \<or> fst p \<in> set (jkeys ?z)" by (simp add: jkeys_jset)
    then show ?thesis using ok unfolding zq_ok_def by blast
  qed
  show "distinct (rs_listWaiting R now r)" by (rule zq_list(2) [OF ok])
  show "sorted_wrt (\<lambda>a b. the (zq_since R now r a) \<le> the (zq_since R now r b)) (rs_listWaiting R now r)" by (rule zq_sorted [OF ok])
  show "(s \<in> set (rs_listWaiting R now r)) = (zq_since R now r s \<noteq> None)" by (simp add: zq_list(1) [OF ok])
  show "zq_since R now (rs_addWaiting R s t now r) k = (if k = s then Some t else zq_since R now r k)"
    by (simp add: zq_since_def after)
  show "zq_since R now (rs_removeWaiting R s now r) k = (if k = s then None else zq_since R now r k)"
    by (simp add: zq_since_def after)
  show "zq_ok R now (rs_addWaiting R s t now r)" using ok by (auto simp: zq_ok_def after jkeys_jset)
  show "zq_ok R now (rs_removeWaiting R s now r)" using ok by (auto simp: zq_ok_def after) (auto simp: jdel_def jkeys_def)
  show "filter (\<lambda>x. x \<noteq> s) (rs_listWaiting R now (rs_addWaiting R s t now r)) = filter (\<lambda>x. x \<noteq> s) (rs_listWaiting R now r)"
  proof -
    have a: "filter (\<lambda>x. x \<noteq> s) (map (id_string (rd_uuid R) \<circ> fst) (sort_key (zq_key R) ?z)) =
        map (id_string (rd_uuid R) \<circ> fst) (sort_key (zq_key R) (filter (\<lambda>p. fst p \<noteq> Id s) ?z))"
      by (rule zq_filter [OF ids])
    have b: "filter (\<lambda>x. x \<noteq> s) (map (id_string (rd_uuid R) \<circ> fst) (sort_key (zq_key R) (jset ?z (Id s) t))) =
        map (id_string (rd_uuid R) \<circ> fst) (sort_key (zq_key R) (filter (\<lambda>p. fst p \<noteq> Id s) (jset ?z (Id s) t)))"
      by (rule zq_filter [OF ids'])
    show ?thesis unfolding rs_listWaiting_def rd_zrange_def map_map after(1) a b filter_jset ..
  qed
  show "rs_listWaiting R now (rs_removeWaiting R s now r) = filter (\<lambda>x. x \<noteq> s) (rs_listWaiting R now r)"
  proof -
    have "filter (\<lambda>x. x \<noteq> s) (map (id_string (rd_uuid R) \<circ> fst) (sort_key (zq_key R) ?z)) =
        map (id_string (rd_uuid R) \<circ> fst) (sort_key (zq_key R) (filter (\<lambda>p. fst p \<noteq> Id s) ?z))"
      by (rule zq_filter [OF ids])
    then show ?thesis unfolding rs_listWaiting_def rd_zrange_def map_map after(2) jdel_def by (rule sym)
  qed
qed

text \<open>So the laws proved once for such queues hold of it: whoever joins later than all others goes to the end.\<close>

lemma redis_add_last:
  assumes "redis_ok R" "zq_ok R now r" "\<And>x u. zq_since R now r x = Some u \<Longrightarrow> u < t" "zq_since R now r s = None"
  shows "rs_listWaiting R now (rs_addWaiting R s t now r) = rs_listWaiting R now r @ [s]"
  by (rule wait_queue.add_last [OF redis_queue [OF assms(1)] assms(2-4)])

section \<open>After an outage\<close>

text \<open>
  A client that lost Redis reports no instance as dead until a full time to live after its next heartbeat, and an instance
  is not dead while its heartbeat lasts.
\<close>

lemma outage_is_silent: "rs_listDeadInstances R now (markOutage c) r = []"
  by (simp add: rs_listDeadInstances_def markOutage_def)

lemma first_beat_holds_back:
  assumes "rs_heartbeat R True i ttlMs now (markOutage c) r = (c', r', True)" "t < now + ttlMs"
  shows "rs_listDeadInstances R t c' r'' = []"
  using assms by (auto simp: rs_heartbeat_def markOutage_def rs_listDeadInstances_def Let_def split: if_splits)

lemma beat_lasts:
  assumes "redis_ok R" "rs_heartbeat R True i ttlMs now c r = (c', r', True)" "now \<le> t" "t < now + ttlMs"
  shows "i \<notin> set (rs_listDeadInstances R t c' r')"
proof -
  have "r' = rd_sadd R KInstances (Id i) now (rd_set R (KInstance i) (TimeValue now) (Some (now + max 1 ttlMs)) now r)"
    using assms(2) by (auto simp: rs_heartbeat_def Let_def split: if_splits)
  then have "rd_exists R t (KInstance i) r'"
    using assms(3,4) by (simp add: rd_exists_def edits_at [OF redis_edits(1) [OF assms(1)]] at_set [OF assms(1)] over_def)
  then show ?thesis by (simp add: rs_listDeadInstances_def split: option.splits)
qed

end
