(* ===== verification/Spec2Isabelle.thy ===== *)
theory Spec2Isabelle
  imports Relax SessionLimits BillingLemmas MoneyTheorems Flags Geo Signals RateLimit Admission Turn Policy Evidence
    EnfStore Enforcement EnforcementAdmin LeaveTheorems EnforcementTheorems
    RetentionTheorems ReportTheorems LimitTheorems
    ServiceTheorems Backoff Payment ClientTheorems PeerTheorems Connectivity SessionTheorems Moderation Patterns
    GuardTheorems RelayTheorems SpendPoller ClientCards ClientGate SessionStorage RedisLock RedisTheorems
begin

text \<open>
  A model of a random one-to-one video chat: the server that matches, signals and keeps watch (\<open>src/backend/src\<close>) and
  the parts of the browser client that hold state and decide (\<open>src/new-frontend/src\<close>). Definitions are translated from
  the TypeScript operation by operation and keep its names; each theory begins with what it holds.

  \<^bold>\<open>How the program is put together.\<close> A browser first passes the session gate over HTTP and gets a signed token
  (\<open>session/SessionService.ts\<close>), connects a socket with it (\<open>session/handshake.ts\<close>, admission in \<open>realtime/socket.ts\<close>)
  and says hello. \<open>match/MatchService.ts\<close> is the centre: it keeps sessions, rooms, the waiting queue, blocks and bans in a
  store, pairs people in a pass over the queue, carries a pair through a pending match, accept or decline and an active
  call, and relays signalling, chat and captions between the two. It asks the other services: flags and opening hours,
  limits, safety signals and the chat guard, the enforcement module (reports, restrictions, appeals, evidence), the coins
  and premium features of billing, and TURN credentials. Everything that changes a match runs under one lock, so its
  sections are modelled as atomic steps; what runs outside the lock is a step of its own. The client mirrors the session
  with a reducer, builds the peer connection, blurs the partner's video until it is found safe and settles payments.

  \<^bold>\<open>Conventions.\<close> A class with its fields is a record, a union a datatype, an object the code reads by key an
  insertion-ordered association list (\<open>jmap\<close>, theory \<open>Prelude\<close>) because the code relies on the order of \<open>Map\<close>. Numbers
  are unbounded integers where the code uses whole numbers below \<open>2 ^ 53\<close> and reals for rates and delays. An exception or
  an early return is a value (\<open>option\<close>, a sum, an outcome datatype). Time is an argument, random choices are arguments.
  Node, Redis, the payment and TURN services, the browser and the cryptographic functions are arguments: a record of
  functions, with what the code relies on as a named predicate (\<open>redis_ok\<close>, \<open>token_lib_ok\<close>, ...), each shown to hold for a
  concrete instance by a witness.

  \<^bold>\<open>Theories.\<close>
  \<^item> Shared: \<open>Prelude\<close> (maps, sides of a pair, expiring entries; the locales \<open>keyed_store\<close> and \<open>expiring_store\<close>),
    \<open>Protocol\<close> (the types of \<open>protocol.ts\<close>), \<open>Json\<close>, \<open>Patterns\<close> (regular expressions as the language matches them).
  \<^item> Store and queue: \<open>MemoryStore\<close> (\<open>store/MemoryStore.ts\<close>), \<open>WaitQueue\<close> (its queue is the stable sort by waiting time;
    locale \<open>wait_queue\<close>), \<open>Redis\<close>, \<open>RedisStore\<close>, \<open>RedisLock\<close> and \<open>RedisTheorems\<close> (\<open>store/RedisStore.ts\<close>: the same store over
    the commands of Redis, the matchmaking lock as a lease, and the proof that the two stores answer alike).
  \<^item> Matching: \<open>Relax\<close> (\<open>match/compatibility.ts\<close>, \<open>match/relax.ts\<close>), \<open>MatchState\<close>, \<open>Match\<close>, \<open>MatchHandlers\<close>
    (\<open>match/MatchService.ts\<close>: state, locked sections, handlers). \<open>MatchInv\<close>, \<open>MatchRooms\<close>, \<open>MatchSafe\<close>, \<open>MatchKeeps\<close> and
    \<open>MatchStep\<close> prove the invariant of the store and define \<open>step\<close> and \<open>reachable\<close>; \<open>MatchPass\<close> and \<open>MatchGreedy\<close> relate the
    pass to a greedy matching; \<open>MatchTheorems\<close>, \<open>CallTheorems\<close> and \<open>LeaveTheorems\<close> state what people in a room can rely
    on; \<open>MatchSample\<close> has a concrete run.
  \<^item> Gate and limits: \<open>Age\<close>, \<open>Tokens\<close>, \<open>SessionGate\<close>, \<open>SessionTheorems\<close>, \<open>SessionLimits\<close>, \<open>Geo\<close> (\<open>session/\<close>), \<open>RateLimit\<close>
    (\<open>rateLimit.ts\<close>, \<open>realtime/limitedParser.ts\<close>), \<open>Admission\<close> (\<open>realtime/socket.ts\<close>, \<open>http/public.ts\<close>, \<open>shed/\<close>; locale
    \<open>counter\<close>), \<open>Flags\<close> and \<open>ServiceTheorems\<close> (\<open>flags/flags.ts\<close>), \<open>LimitTheorems\<close>.
  \<^item> Safety: \<open>Signals\<close>, \<open>Guard\<close>, \<open>GuardTheorems\<close> (\<open>safety/\<close>), \<open>Relay\<close>, \<open>RelayTheorems\<close> (\<open>captions/\<close>, \<open>spark/\<close>), \<open>Policy\<close>,
    \<open>Evidence\<close>, \<open>EnfStore\<close>, \<open>Enforcement\<close>, \<open>EnforcementAdmin\<close> (\<open>enforcement/\<close>) with \<open>EnforcementTheorems\<close>,
    \<open>RetentionTheorems\<close> and \<open>ReportTheorems\<close>.
  \<^item> Money and relays: \<open>Wallet\<close>, \<open>Billing\<close>, \<open>BillingLemmas\<close>, \<open>MoneyTheorems\<close> (\<open>billing/\<close>), \<open>Turn\<close>, \<open>SpendPoller\<close> (\<open>turn/\<close>,
    \<open>session/broadcast.ts\<close>).
  \<^item> Client: \<open>ClientState\<close>, \<open>ClientSocket\<close>, \<open>ClientTheorems\<close> (\<open>hooks/useSignaling.ts\<close>), \<open>PeerSession\<close>, \<open>PeerTheorems\<close>
    (\<open>lib/peerSession.ts\<close>), \<open>Connectivity\<close>, \<open>Backoff\<close>, \<open>SessionStorage\<close> (\<open>lib/\<close>), \<open>Payment\<close>
    (\<open>premium/pendingPayment.ts\<close>), \<open>Moderation\<close> (\<open>moderation/\<close>), \<open>ClientCards\<close> (\<open>spark/\<close>, \<open>captions/\<close>), \<open>ClientGate\<close>
    (\<open>pages/gate/dob.ts\<close>).

  \<^bold>\<open>What is shown.\<close> Of matching: in every state that any interleaving of handlers, sweeps and disconnects reaches, rooms
  are mutual, a device has one session and the queue holds exactly those who wait; a pass is the greedy matching under all
  filters, blocks and bans and leaves no eligible pair; a partial pass equals the full one; parted pairs stay apart; calls
  need two accepts; messages reach the partner alone; pending matches expire; leavers leave nothing behind. Of several
  instances: the lease excludes whatever Redis loses, and the Redis store refines the in-memory one. Of safety:
  contact details are hidden in the first minutes, restrictions are enforced, automatic answers are bounded, evidence is
  kept and shown as promised. Of money: credits happen once and for captured payments only, unlocks cost their price, the
  ledger explains the balance. Of the gate: tokens are earned by adults and verify until they expire. Of the client:
  it is never stuck, its state is consistent, signalling is in order, unsafe video is hidden, retries are bounded.
  The properties carry the ids C1, C2, ... in their texts.

  \<^bold>\<open>Bounds and termination.\<close> The binary searches decrease the length of the interval; the regular-expression matcher
  decreases the rest of the text and repeats at most once per remaining character, since an empty repetition ends the
  loop; the settling of a payment is a \<open>partial_function\<close>, and that it returns is a theorem. Other loops run over lists.

  \<^bold>\<open>Not modelled.\<close> Parsing of packets, bodies and environment variables (done by a validation library; \<open>config.ts\<close>); the
  HTTP routes that only call a modelled operation and pick a status code, the set-up of Express, Socket.IO and the
  processes; logging and metrics, which nothing reads back; the Redis variants of the session counters and of the
  enforcement store, one command for each operation of the modelled interfaces; word and prompt lists, which are
  parameters; React rendering, media capture, the models on the device, translations, statistics of the page and the admin
  pages; the load test. The S3 evidence store and the browser fingerprint are calls to libraries. Cryptography is
  functional: that a keyed hash cannot be guessed is a hypothesis where a theorem needs it.
\<close>

end
